(* ===== verification/Wmg_Prelude.thy ===== *)
theory Wmg_Prelude
  imports Main "HOL-Library.Word" "HOL-Library.Monad_Syntax"
begin

text \<open>
  Shared vocabulary of the WiFi manager development: C truth values, byte buffers with
  bounds-checked copies, the outcome of a call that may block, and the collections of
  simplification rules the component theories extend.
\<close>

unbundle bit_operations_syntax

section \<open>Rule collections\<close>

named_theorems handler_defs \<open>definitions of the mode handlers, unfolded together\<close>
named_theorems no_ub \<open>calls that never dereference NULL or leave a buffer\<close>
named_theorems frame \<open>what a call leaves unchanged\<close>

section \<open>C truth values\<close>

text \<open>\<open>if (ret)\<close> on an \<open>int\<close>; \<open>!x\<close> on an integer constant, as the manager writes \<open>!STA_BITMAP\<close>.\<close>

definition c_true :: "int \<Rightarrow> bool" where
  "c_true x \<longleftrightarrow> x \<noteq> 0"

definition c_lnot :: "8 word \<Rightarrow> 8 word" where
  "c_lnot x = (if x = 0 then 1 else 0)"

lemma c_true_simps [simp]: "\<not> c_true 0" "c_true (- 1)" "c_true (numeral n)" "c_true (- numeral n)"
  by (simp_all add: c_true_def)

section \<open>Bytes and buffers\<close>

type_synonym byte = "8 word"

text \<open>
  \<open>memcpy\<close> into and out of an allocated block. An access outside the block is undefined
  behaviour in C: here it is \<open>None\<close>.
\<close>

definition memcpy_to :: "nat \<Rightarrow> byte list \<Rightarrow> byte list \<Rightarrow> byte list option" where
  "memcpy_to p xs b =
     (if p + length xs \<le> length b then Some (take p b @ xs @ drop (p + length xs) b) else None)"

definition memcpy_from :: "nat \<Rightarrow> nat \<Rightarrow> byte list \<Rightarrow> byte list option" where
  "memcpy_from p n b = (if p + n \<le> length b then Some (take n (drop p b)) else None)"

lemma length_memcpy_to: "memcpy_to p xs b = Some b' \<Longrightarrow> length b' = length b"
  by (auto simp: memcpy_to_def split: if_splits)

lemma nth_memcpy_to:
  assumes "memcpy_to p xs b = Some b'" and "j < length b"
  shows "b' ! j = (if p \<le> j \<and> j < p + length xs then xs ! (j - p) else b ! j)"
  using assms by (auto simp: memcpy_to_def nth_append min_def split: if_splits)

lemma memcpy_to_ok: "p + length xs \<le> length b \<Longrightarrow> \<exists>b'. memcpy_to p xs b = Some b'"
  by (simp add: memcpy_to_def)

section \<open>Calls that may block or crash\<close>

text \<open>
  \<open>Returns x\<close>: the call came back; \<open>Blocks\<close>: it still waits on a condition variable after
  every wake-up it was given; \<open>Crash\<close>: it ran into undefined behaviour.
\<close>

datatype 'a outcome = Returns 'a | Blocks | Crash

fun map_outcome_of :: "('a \<Rightarrow> 'b) \<Rightarrow> 'a outcome \<Rightarrow> 'b outcome" where
  "map_outcome_of f (Returns x) = Returns (f x)"
| "map_outcome_of f Blocks = Blocks"
| "map_outcome_of f Crash = Crash"

definition outcome_of_option :: "'a option \<Rightarrow> 'a outcome" where
  "outcome_of_option m = (case m of None \<Rightarrow> Crash | Some x \<Rightarrow> Returns x)"

lemma outcome_of_option_simps [simp]:
  "outcome_of_option None = Crash" "outcome_of_option (Some x) = Returns x"
  by (simp_all add: outcome_of_option_def)

fun bind_outcome :: "'a outcome \<Rightarrow> ('a \<Rightarrow> 'b outcome) \<Rightarrow> 'b outcome" where
  "bind_outcome (Returns x) f = f x"
| "bind_outcome Blocks f = Blocks"
| "bind_outcome Crash f = Crash"

section \<open>Positions in a ring\<close>

text \<open>A sum of two positions below \<open>n\<close> wraps at most once.\<close>

lemma mod_wrap_once:
  fixes a b n :: nat
  assumes "a < n" and "b \<le> n"
  shows "(a + b) mod n = (if a + b < n then a + b else a + b - n)"
  using assms by (auto simp: mod_if not_less)

section \<open>C strings\<close>

text \<open>
  \<open>strncpy\<close> fills up with NUL only when the source is shorter than the bound; the string in an
  array ends at its first NUL, and reading one that has none runs out of the array (\<open>None\<close>).
\<close>

definition strncpy :: "string \<Rightarrow> string \<Rightarrow> nat \<Rightarrow> string" where
  "strncpy dst src n = take n (src @ replicate n (CHR 0x00)) @ drop n dst"

definition c_str :: "string \<Rightarrow> string option" where
  "c_str bs = (if CHR 0x00 \<in> set bs then Some (takeWhile (\<lambda>c. c \<noteq> CHR 0x00) bs) else None)"

lemma c_str_NUL: "CHR 0x00 \<notin> set s \<Longrightarrow> c_str (s @ CHR 0x00 # t) = Some s"
proof -
  assume "CHR 0x00 \<notin> set s"
  then have "takeWhile (\<lambda>c. c \<noteq> CHR 0x00) (s @ CHR 0x00 # t) = s" by (subst takeWhile_append2) auto
  then show ?thesis by (simp add: c_str_def)
qed

lemma c_str_strncpy:
  assumes "CHR 0x00 \<notin> set s" "length s < n"
  shows "c_str (strncpy a s n) = Some s"
proof -
  obtain k where k: "n - length s = Suc k" using assms(2) by (metis Suc_diff_Suc)
  have "strncpy a s n = s @ CHR 0x00 # (replicate k (CHR 0x00) @ drop n a)"
    using assms(2) k by (simp add: strncpy_def)
  then show ?thesis using assms(1) by (simp add: c_str_NUL)
qed

end
