(* ===== verification/Wmg_Types.thy ===== *)
theory Wmg_Types
  imports Wmg_Prelude
begin

text \<open>
  The types of \<open>wifimg.h\<close>: status codes, modes, station states and events, the messages handed
  to the application, the parameters of the calls; the conversions between modes and bitmaps
  of \<open>wmg_common.c\<close>; and the contract that the station, access point and monitor objects
  share. \<open>'p\<close> is the state of the platform below the manager (drivers, daemons and the
  caller's buffers that it writes results to).
\<close>

section \<open>Status codes\<close>

abbreviation "WMG_STATUS_SUCCESS \<equiv> 0 :: int"
abbreviation "WMG_STATUS_FAIL \<equiv> - 1 :: int"
abbreviation "WMG_STATUS_NOT_READY \<equiv> - 2 :: int"
abbreviation "WMG_STATUS_NOMEM \<equiv> - 3 :: int"
abbreviation "WMG_STATUS_BUSY \<equiv> - 4 :: int"
abbreviation "WMG_STATUS_UNSUPPORTED \<equiv> - 5 :: int"
abbreviation "WMG_STATUS_INVALID \<equiv> - 6 :: int"
abbreviation "WMG_STATUS_TIMEOUT \<equiv> - 7 :: int"
abbreviation "WMG_STATUS_UNHANDLED \<equiv> - 8 :: int"

text \<open>Some functions that return a status return \<open>WMG_FALSE\<close> on an error.\<close>

abbreviation "WMG_FALSE \<equiv> 0 :: int"

section \<open>Enumerations and parameters\<close>

datatype wifi_mode =
  WIFI_STATION | WIFI_AP | WIFI_MONITOR | WIFI_AP_STATION | WIFI_AP_MONITOR | WIFI_MODE_UNKNOWN

datatype wifi_dev_status = WLAN_STATUS_DOWN | WLAN_STATUS_UP

datatype wifi_secure = WIFI_SEC_NONE | WIFI_SEC_WEP | WIFI_SEC_WPA_PSK | WIFI_SEC_WPA2_PSK

datatype wifi_sta_state =
  WIFI_STA_IDLE | WIFI_STA_CONNECTING | WIFI_STA_CONNECTED | WIFI_STA_OBTAINING_IP
| WIFI_STA_NET_CONNECTED | WIFI_STA_DHCP_TIMEOUT | WIFI_STA_DISCONNECTING | WIFI_STA_DISCONNECTED

datatype wifi_sta_event =
  WIFI_DISCONNECTED | WIFI_SCAN_STARTED | WIFI_SCAN_FAILED | WIFI_SCAN_RESULTS
| WIFI_NETWORK_NOT_FOUND | WIFI_PASSWORD_INCORRECT | WIFI_AUTHENTIACATION | WIFI_AUTH_REJECT
| WIFI_ASSOCIATING | WIFI_ASSOC_REJECT | WIFI_ASSOCIATED | WIFI_4WAY_HANDSHAKE
| WIFI_GROUNP_HANDSHAKE | WIFI_GROUNP_HANDSHAKE_DONE | WIFI_CONNECTED | WIFI_CONNECT_TIMEOUT
| WIFI_DEAUTH | WIFI_DHCP_START | WIFI_DHCP_TIMEOUT | WIFI_DHCP_SUCCESS | WIFI_TERMINATING
| WIFI_UNKNOWN

datatype wifi_ap_state = WIFI_AP_DISABLE | WIFI_AP_ENABLE

datatype wifi_ap_event =
  WIFI_AP_ENABLED | WIFI_AP_DISABLED | WIFI_AP_STA_DISCONNECTED | WIFI_AP_STA_CONNECTED | WIFI_AP_UNKNOWN

datatype wifi_monitor_state = WIFI_MONITOR_DISABLE | WIFI_MONITOR_ENABLE

datatype wifi_linkd_mode =
  WMG_LINKD_MODE_NONE | WMG_LINKD_MODE_BLE | WMG_LINKD_MODE_SOFTAP | WMG_LINKD_MODE_XCONFIG
| WMG_LINKD_MODE_SOUNDWAVE

text \<open>C strings without their terminating NUL; a pointer that may be NULL is an option.\<close>

record wifi_sta_cn_para =
  cn_ssid :: "string option"
  cn_password :: "string option"
  cn_sec :: wifi_secure
  cn_fast_connect :: bool

record wifi_ap_config =
  ap_ssid :: "string option"
  ap_psk :: "string option"
  ap_sec :: wifi_secure
  ap_channel :: "8 word"

record wifi_monitor_data =
  frame_data :: "byte list"
  frame_channel :: "8 word"

text \<open>
  The message given to the application's callback: the constructor is the member of the
  union that was written, and \<open>msg_id_of\<close> the id it is sent with.
\<close>

datatype wifi_msg_id =
  WIFI_MSG_ID_DEV_STATUS | WIFI_MSG_ID_STA_CN_EVENT | WIFI_MSG_ID_STA_STATE_CHANGE
| WIFI_MSG_ID_AP_CN_EVENT | WIFI_MSG_ID_MONITOR

datatype wifi_msg_data =
  Msg_Sta_Event wifi_sta_event | Msg_Sta_State wifi_sta_state | Msg_Ap_Event wifi_ap_event
| Msg_Monitor_Frame wifi_monitor_data | Msg_Monitor_State wifi_monitor_state

fun msg_id_of :: "wifi_msg_data \<Rightarrow> wifi_msg_id" where
  "msg_id_of (Msg_Sta_Event _) = WIFI_MSG_ID_STA_CN_EVENT"
| "msg_id_of (Msg_Sta_State _) = WIFI_MSG_ID_STA_STATE_CHANGE"
| "msg_id_of (Msg_Ap_Event _) = WIFI_MSG_ID_AP_CN_EVENT"
| "msg_id_of (Msg_Monitor_Frame _) = WIFI_MSG_ID_MONITOR"
| "msg_id_of (Msg_Monitor_State _) = WIFI_MSG_ID_MONITOR"

text \<open>Addresses of caller's buffers and of callback functions.\<close>

type_synonym buf = nat
type_synonym msg_cb = nat

text \<open>\<open>common_mac_para_t\<close>: an interface name and the address bytes.\<close>

type_synonym mac_para = "string \<times> buf option"

section \<open>The order of the station states\<close>

text \<open>The code compares states by their enumeration value.\<close>

fun sta_state_num :: "wifi_sta_state \<Rightarrow> nat" where
  "sta_state_num WIFI_STA_IDLE = 0"
| "sta_state_num WIFI_STA_CONNECTING = 1"
| "sta_state_num WIFI_STA_CONNECTED = 2"
| "sta_state_num WIFI_STA_OBTAINING_IP = 3"
| "sta_state_num WIFI_STA_NET_CONNECTED = 4"
| "sta_state_num WIFI_STA_DHCP_TIMEOUT = 5"
| "sta_state_num WIFI_STA_DISCONNECTING = 6"
| "sta_state_num WIFI_STA_DISCONNECTED = 7"

lemma sta_state_num_inject: "sta_state_num s = sta_state_num t \<longleftrightarrow> s = t"
  by (cases s; cases t) simp_all

instantiation wifi_sta_state :: linorder
begin

definition less_eq_wifi_sta_state :: "wifi_sta_state \<Rightarrow> wifi_sta_state \<Rightarrow> bool" where
  "less_eq_wifi_sta_state s t \<longleftrightarrow> sta_state_num s \<le> sta_state_num t"

definition less_wifi_sta_state :: "wifi_sta_state \<Rightarrow> wifi_sta_state \<Rightarrow> bool" where
  "less_wifi_sta_state s t \<longleftrightarrow> sta_state_num s < sta_state_num t"

instance
  by standard
    (auto simp: less_eq_wifi_sta_state_def less_wifi_sta_state_def sta_state_num_inject)

end

lemmas sta_state_order = less_eq_wifi_sta_state_def less_wifi_sta_state_def

section \<open>Modes and bitmaps\<close>

abbreviation "UNK_BITMAP \<equiv> 0 :: 8 word"
abbreviation "STA_BITMAP \<equiv> 1 :: 8 word"
abbreviation "AP_BITMAP \<equiv> 2 :: 8 word"
abbreviation "MONITOR_BITMAP \<equiv> 4 :: 8 word"
abbreviation "AP_STA_BITMAP \<equiv> 3 :: 8 word"
abbreviation "AP_MONITOR_BITMAP \<equiv> 6 :: 8 word"

fun wmg_wifi_mode_to_bitmap :: "wifi_mode \<Rightarrow> 8 word" where
  "wmg_wifi_mode_to_bitmap WIFI_MODE_UNKNOWN = UNK_BITMAP"
| "wmg_wifi_mode_to_bitmap WIFI_STATION = STA_BITMAP"
| "wmg_wifi_mode_to_bitmap WIFI_AP = AP_BITMAP"
| "wmg_wifi_mode_to_bitmap WIFI_MONITOR = MONITOR_BITMAP"
| "wmg_wifi_mode_to_bitmap WIFI_AP_STATION = AP_STA_BITMAP"
| "wmg_wifi_mode_to_bitmap WIFI_AP_MONITOR = AP_MONITOR_BITMAP"

definition wmg_wifi_bitmap_to_mode :: "8 word \<Rightarrow> wifi_mode" where
  "wmg_wifi_bitmap_to_mode b =
     (if b = UNK_BITMAP then WIFI_MODE_UNKNOWN
      else if b = STA_BITMAP then WIFI_STATION
      else if b = AP_BITMAP then WIFI_AP
      else if b = MONITOR_BITMAP then WIFI_MONITOR
      else if b = AP_STA_BITMAP then WIFI_AP_STATION
      else if b = AP_MONITOR_BITMAP then WIFI_AP_MONITOR
      else WIFI_MODE_UNKNOWN)"

fun wmg_sec_to_str :: "wifi_secure \<Rightarrow> string" where
  "wmg_sec_to_str WIFI_SEC_NONE = ''NONE''"
| "wmg_sec_to_str WIFI_SEC_WEP = ''WEP''"
| "wmg_sec_to_str WIFI_SEC_WPA_PSK = ''WPAPSK''"
| "wmg_sec_to_str WIFI_SEC_WPA2_PSK = ''WPA2PSK''"

fun wmg_wifi_mode_to_str :: "wifi_mode \<Rightarrow> string" where
  "wmg_wifi_mode_to_str WIFI_STATION = ''station''"
| "wmg_wifi_mode_to_str WIFI_AP = ''ap''"
| "wmg_wifi_mode_to_str WIFI_MONITOR = ''monitor''"
| "wmg_wifi_mode_to_str WIFI_AP_STATION = ''ap-station''"
| "wmg_wifi_mode_to_str WIFI_AP_MONITOR = ''ap-monitor''"
| "wmg_wifi_mode_to_str WIFI_MODE_UNKNOWN = ''unknown''"

section \<open>The environment of the mode objects\<close>

text \<open>The platform, and the calls of the application's callbacks so far, oldest first.\<close>

record 'p env =
  plat :: 'p
  calls :: "(msg_cb \<times> wifi_msg_data) list"

definition invoke_cb :: "msg_cb option \<Rightarrow> wifi_msg_data \<Rightarrow> 'p env \<Rightarrow> 'p env" where
  "invoke_cb cb m e = (case cb of None \<Rightarrow> e | Some f \<Rightarrow> e\<lparr>calls := calls e @ [(f, m)]\<rparr>)"

text \<open>
  A command handler is given the value of the caller's status variable and returns its own
  result, the status variable, the object and the environment; \<open>None\<close> is a NULL dereference.
\<close>

type_synonym ('o, 'p) handler = "int \<Rightarrow> 'o \<Rightarrow> 'p env \<Rightarrow> (int \<times> int \<times> 'o \<times> 'p env) option"

text \<open>The common tail of a handler: \<open>*cb_args = ret; return ret\<close>.\<close>

definition both :: "int \<Rightarrow> 'o \<Rightarrow> 'p env \<Rightarrow> (int \<times> int \<times> 'o \<times> 'p env) option" where
  "both ret obj e = Some (ret, ret, obj, e)"

text \<open>A case of \<open>mode_ctl\<close>: a handler's non-zero result becomes \<open>WMG_STATUS_FAIL\<close>.\<close>

definition ctl_case ::
    "(int \<times> int \<times> 'o \<times> 'p env) option \<Rightarrow> (int \<times> int \<times> 'o \<times> 'p env) option" where
  "ctl_case r = map_option (\<lambda>(ret, cb, obj, e).
     (if c_true ret then WMG_STATUS_FAIL else WMG_STATUS_SUCCESS, cb, obj, e)) r"

lemmas [handler_defs] = both_def ctl_case_def invoke_cb_def

section \<open>The contract of a mode object\<close>

text \<open>
  What the manager relies on when it drives a mode through \<open>mode_object_t\<close>. \<open>good\<close> says that
  an initialised object has its platform interface.
\<close>

locale mode_object =
  fixes good :: "'o \<Rightarrow> bool"
    and initialised :: "'o \<Rightarrow> bool"
    and enabled :: "'o \<Rightarrow> bool"
    and init_op :: "'o \<Rightarrow> 'p env \<Rightarrow> int \<times> 'o \<times> 'p env"
    and deinit_op :: "'o \<Rightarrow> 'p env \<Rightarrow> (int \<times> 'o \<times> 'p env) option"
    and enable_op :: "'o \<Rightarrow> 'p env \<Rightarrow> (int \<times> 'o \<times> 'p env) option"
    and disable_op :: "'o \<Rightarrow> 'p env \<Rightarrow> (int \<times> 'o \<times> 'p env) option"
  assumes init_good: "good s \<Longrightarrow> init_op s e = (ret, s', e') \<Longrightarrow>
      good s' \<and> enabled s' = enabled s \<and> (ret = 0 \<longleftrightarrow> initialised s') \<and> (ret = 0 \<or> ret = - 1)"
    and deinit_good: "good s \<Longrightarrow> \<exists>s' e'. deinit_op s e = Some (0, s', e') \<and> good s' \<and>
      \<not> initialised s' \<and> enabled s' = enabled s"
    and enable_good: "good s \<Longrightarrow> \<exists>ret s' e'. enable_op s e = Some (ret, s', e') \<and> good s' \<and>
      initialised s' = initialised s \<and> (ret = 0 \<or> ret = - 1) \<and>
      (ret = 0 \<longrightarrow> initialised s \<and> enabled s') \<and> (ret \<noteq> 0 \<longrightarrow> \<not> (initialised s \<and> enabled s)) \<and>
      (ret \<noteq> 0 \<longrightarrow> enabled s' = enabled s)"
    and disable_good: "good s \<Longrightarrow> \<exists>s' e'. disable_op s e = Some (0, s', e') \<and> good s' \<and>
      initialised s' = initialised s \<and> enabled s' = (enabled s \<and> \<not> initialised s)"
begin

text \<open>An object that was disabled can be torn down and is then off in every respect.\<close>

lemma disable_then_deinit:
  assumes "good s" "initialised s" "disable_op s e = Some (r1, s1, e1)" "deinit_op s1 e1 = Some (r2, s2, e2)"
  shows "r1 = 0 \<and> r2 = 0 \<and> good s2 \<and> \<not> initialised s2 \<and> \<not> enabled s2"
proof -
  from disable_good[OF assms(1), of e] assms(2,3)
  have s1: "r1 = 0" "good s1" "\<not> enabled s1" by auto
  from deinit_good[OF s1(2), of e1] assms(4) s1 show ?thesis by auto
qed

text \<open>An enabled object that is enabled again keeps running, and reports success.\<close>

lemma enable_running:
  assumes "good s" "initialised s" "enabled s" "enable_op s e = Some (r, s', e')"
  shows "r = 0 \<and> enabled s' \<and> initialised s'"
  using enable_good[OF assms(1), of e] assms by auto

end

end
