(* ===== verification/Wmg_Sta.thy ===== *)
theory Wmg_Sta
  imports Wmg_Types
begin

text \<open>
  The station mode object of \<open>wmg_sta.c\<close>: its state, the events of the supplicant, its
  commands and the mode operations, over an interface of platform functions that
  \<open>linux_wpa.c\<close> provides. A platform function gives its result and the events it reported
  through \<open>sta_wpa_event_notify\<close> while it ran, oldest first.
\<close>

section \<open>State\<close>

text \<open>The requests of \<open>sta_platform_extension\<close>, with what their \<open>void*\<close> points to.\<close>

datatype wpa_request =
  WPA_CMD_GET_INFO buf | WPA_CMD_LIST_NETWORKS buf | WPA_CMD_REMOVE_NETWORKS "string option"
| WPA_CMD_SET_AUTO_RECONN bool | WPA_CMD_GET_SCAN_RESULTS buf buf "32 word"
| WPA_CMD_SET_MAC mac_para | WPA_CMD_GET_MAC mac_para

record 'p sta_inf =
  sta_wpa_init :: "('p \<Rightarrow> int \<times> 'p) option"
  sta_wpa_deinit :: "('p \<Rightarrow> wifi_sta_event list \<times> 'p) option"
  sta_wpa_connect :: "'p \<Rightarrow> int \<times> wifi_sta_event list \<times> 'p"
  sta_wpa_connect_to_ap :: "wifi_sta_cn_para \<Rightarrow> 'p \<Rightarrow> int \<times> wifi_sta_event list \<times> 'p"
  sta_wpa_disconnect :: "'p \<Rightarrow> int \<times> wifi_sta_event list \<times> 'p"
  sta_platform_extension :: "wpa_request \<Rightarrow> 'p \<Rightarrow> int \<times> int option \<times> wifi_sta_event list \<times> 'p"

record 'p wmg_sta_object =
  sta_init_flag :: bool
  sta_enable :: bool
  wpas_run :: bool
  sta_state :: wifi_sta_state
  sta_msg_cb :: "msg_cb option"
  sta_auto_reconn :: bool
  sta_active_recv :: bool
  sta_platform_inf :: "'p sta_inf option"

definition sta_object_static :: "'p wmg_sta_object" where
  "sta_object_static = \<lparr>sta_init_flag = False, sta_enable = False, wpas_run = False,
     sta_state = WIFI_STA_IDLE, sta_msg_cb = None, sta_auto_reconn = False, sta_active_recv = False,
     sta_platform_inf = None\<rparr>"

text \<open>The commands of \<open>sta_mode_ctl\<close>; a pointer that may be NULL is an option.\<close>

datatype sta_cmd =
  WMG_STA_CMD_CONNECT "wifi_sta_cn_para option" | WMG_STA_CMD_DISCONNECT
| WMG_STA_CMD_AUTO_RECONNECT bool | WMG_STA_CMD_GET_INFO "buf option"
| WMG_STA_CMD_LIST_NETWORKS "buf option" | WMG_STA_CMD_REMOVE_NETWORKS "string option"
| WMG_STA_CMD_SCAN_PARAM | WMG_STA_CMD_SCAN_RESULTS buf buf "32 word"
| WMG_STA_CMD_REGISTER_MSG_CB "msg_cb option" | WMG_STA_CMD_SET_MAC mac_para
| WMG_STA_CMD_GET_MAC mac_para | WMG_STA_CMD_OTHER

fun wmg_sta_state_to_str :: "wifi_sta_state \<Rightarrow> string" where
  "wmg_sta_state_to_str WIFI_STA_IDLE = ''IDLE''"
| "wmg_sta_state_to_str WIFI_STA_CONNECTING = ''CONNECTING''"
| "wmg_sta_state_to_str WIFI_STA_CONNECTED = ''CONNECTED''"
| "wmg_sta_state_to_str WIFI_STA_OBTAINING_IP = ''OBTAINING_IP''"
| "wmg_sta_state_to_str WIFI_STA_NET_CONNECTED = ''NETWORK_CONNECTED''"
| "wmg_sta_state_to_str WIFI_STA_DISCONNECTING = ''DISCONNECTING''"
| "wmg_sta_state_to_str WIFI_STA_DISCONNECTED = ''DISCONNECTED''"
| "wmg_sta_state_to_str WIFI_STA_DHCP_TIMEOUT = ''UNKNOWN''"

section \<open>Events\<close>

definition sta_state_notify :: "wifi_sta_state \<Rightarrow> 'p wmg_sta_object \<Rightarrow> 'p env \<Rightarrow> 'p env" where
  "sta_state_notify st obj e = invoke_cb (sta_msg_cb obj) (Msg_Sta_State st) e"

fun sta_event_state :: "wifi_sta_event \<Rightarrow> 'p wmg_sta_object \<Rightarrow> 'p wmg_sta_object" where
  "sta_event_state WIFI_CONNECTED obj = obj\<lparr>sta_state := WIFI_STA_CONNECTED\<rparr>"
| "sta_event_state WIFI_DHCP_START obj = obj\<lparr>sta_state := WIFI_STA_OBTAINING_IP\<rparr>"
| "sta_event_state WIFI_DHCP_TIMEOUT obj = obj\<lparr>sta_state := WIFI_STA_DHCP_TIMEOUT\<rparr>"
| "sta_event_state WIFI_DHCP_SUCCESS obj = obj\<lparr>sta_state := WIFI_STA_NET_CONNECTED\<rparr>"
| "sta_event_state WIFI_TERMINATING obj = obj\<lparr>wpas_run := False, sta_state := WIFI_STA_DISCONNECTED\<rparr>"
| "sta_event_state WIFI_DISCONNECTED obj = obj\<lparr>sta_state := WIFI_STA_DISCONNECTED\<rparr>"
| "sta_event_state WIFI_ASSOC_REJECT obj = obj\<lparr>sta_state := WIFI_STA_DISCONNECTED\<rparr>"
| "sta_event_state WIFI_NETWORK_NOT_FOUND obj = obj\<lparr>sta_state := WIFI_STA_DISCONNECTED\<rparr>"
| "sta_event_state WIFI_PASSWORD_INCORRECT obj = obj\<lparr>sta_state := WIFI_STA_DISCONNECTED\<rparr>"
| "sta_event_state _ obj = obj"

definition sta_wpa_event_notify ::
    "wifi_sta_event \<Rightarrow> 'p wmg_sta_object \<times> 'p env \<Rightarrow> 'p wmg_sta_object \<times> 'p env" where
  "sta_wpa_event_notify ev = (\<lambda>(obj, e).
     (sta_event_state ev obj, invoke_cb (sta_msg_cb obj) (Msg_Sta_Event ev) e))"

text \<open>A platform call: its events reach the object before it returns.\<close>

definition sta_events :: "wifi_sta_event list \<Rightarrow> 'p wmg_sta_object \<times> 'p env \<Rightarrow> 'p wmg_sta_object \<times> 'p env" where
  "sta_events evs oe = fold sta_wpa_event_notify evs oe"

definition sta_plat ::
    "('p \<Rightarrow> 'r \<times> wifi_sta_event list \<times> 'p) \<Rightarrow> 'p wmg_sta_object \<Rightarrow> 'p env
      \<Rightarrow> 'r \<times> 'p wmg_sta_object \<times> 'p env" where
  "sta_plat f obj e =
     (let (r, evs, p) = f (plat e); (obj, e) = sta_events evs (obj, e\<lparr>plat := p\<rparr>) in (r, obj, e))"

definition sta_extension ::
    "'p sta_inf \<Rightarrow> wpa_request \<Rightarrow> 'p wmg_sta_object \<Rightarrow> 'p env
      \<Rightarrow> (int \<times> int option) \<times> 'p wmg_sta_object \<times> 'p env" where
  "sta_extension wpa req obj e =
     sta_plat (\<lambda>p. let (r, err, evs, p) = sta_platform_extension wpa req p in ((r, err), evs, p)) obj e"

section \<open>Commands\<close>

definition sta_connect :: "wifi_sta_cn_para option \<Rightarrow> ('p wmg_sta_object, 'p) handler" where
  "sta_connect param cb obj e =
     (if \<not> sta_init_flag obj then both WMG_STATUS_FAIL obj e
      else if \<not> sta_enable obj then both WMG_STATUS_FAIL obj e
      else if sta_state obj = WIFI_STA_CONNECTING \<or> sta_state obj = WIFI_STA_OBTAINING_IP
      then both WMG_STATUS_UNHANDLED obj e
      else do {
        cn \<leftarrow> param;
        if cn_ssid cn = None \<or> cn_ssid cn = Some [] then both WMG_STATUS_INVALID obj e
        else do {
          wpa \<leftarrow> sta_platform_inf obj;
          let (ret, obj, e) = sta_plat (sta_wpa_connect_to_ap wpa cn) (obj\<lparr>sta_state := WIFI_STA_CONNECTING\<rparr>) e;
          both ret obj e
        }
      })"

definition sta_disconnect :: "('p wmg_sta_object, 'p) handler" where
  "sta_disconnect cb obj e =
     (if sta_state obj \<noteq> WIFI_STA_DISCONNECTED then do {
        wpa \<leftarrow> sta_platform_inf obj;
        let (_, obj, e) = sta_plat (sta_wpa_disconnect wpa) (obj\<lparr>sta_state := WIFI_STA_DISCONNECTING\<rparr>) e;
        both WMG_STATUS_SUCCESS obj e
      } else both WMG_STATUS_UNHANDLED obj e)"

definition sta_auto_reconnect :: "bool \<Rightarrow> ('p wmg_sta_object, 'p) handler" where
  "sta_auto_reconnect en cb obj e =
     (if \<not> sta_init_flag obj then both WMG_STATUS_FAIL obj e
      else if \<not> sta_enable obj then both WMG_STATUS_UNHANDLED obj e
      else do {
        wpa \<leftarrow> sta_platform_inf obj;
        let ((_, err), obj, e) = sta_extension wpa (WPA_CMD_SET_AUTO_RECONN en) (obj\<lparr>sta_auto_reconn := en\<rparr>) e;
        Some (WMG_STATUS_SUCCESS, (case err of None \<Rightarrow> cb | Some c \<Rightarrow> c), obj, e)
      })"

text \<open>The calls that pass a request down and report any failure as \<open>WMG_STATUS_FAIL\<close>.\<close>

definition sta_request :: "wpa_request \<Rightarrow> 'p wmg_sta_object \<Rightarrow> 'p env
    \<Rightarrow> (int \<times> int \<times> 'p wmg_sta_object \<times> 'p env) option" where
  "sta_request req obj e =
     do {
       wpa \<leftarrow> sta_platform_inf obj;
       let ((ret, _), obj, e) = sta_extension wpa req obj e;
       both (if c_true ret then WMG_STATUS_FAIL else ret) obj e
     }"

definition sta_get_info :: "buf option \<Rightarrow> ('p wmg_sta_object, 'p) handler" where
  "sta_get_info sta_info cb obj e =
     (if \<not> sta_init_flag obj then both WMG_STATUS_FAIL obj e
      else if \<not> sta_enable obj then both WMG_STATUS_FAIL obj e
      else if sta_state obj < WIFI_STA_CONNECTED \<or> WIFI_STA_NET_CONNECTED < sta_state obj
      then both WMG_STATUS_UNHANDLED obj e
      else (case sta_info of
              None \<Rightarrow> both WMG_STATUS_FAIL obj e
            | Some b \<Rightarrow> sta_request (WPA_CMD_GET_INFO b) obj e))"

definition sta_list_networks :: "buf option \<Rightarrow> ('p wmg_sta_object, 'p) handler" where
  "sta_list_networks sta_list cb obj e =
     (if \<not> sta_init_flag obj then both WMG_STATUS_FAIL obj e
      else if \<not> sta_enable obj then both WMG_STATUS_FAIL obj e
      else (case sta_list of
              None \<Rightarrow> both WMG_STATUS_FAIL obj e
            | Some b \<Rightarrow> sta_request (WPA_CMD_LIST_NETWORKS b) obj e))"

definition sta_remove_networks :: "string option \<Rightarrow> ('p wmg_sta_object, 'p) handler" where
  "sta_remove_networks ssid cb obj e =
     (if \<not> sta_init_flag obj then both WMG_STATUS_FAIL obj e
      else if \<not> sta_enable obj then both WMG_STATUS_FAIL obj e
      else sta_request (WPA_CMD_REMOVE_NETWORKS ssid) obj e)"

definition sta_set_scan_param :: "('p wmg_sta_object, 'p) handler" where
  "sta_set_scan_param cb obj e = Some (WMG_STATUS_FAIL, cb, obj, e)"

text \<open>The calls that pass a request down and report its result.\<close>

definition sta_forward :: "wpa_request \<Rightarrow> 'p wmg_sta_object \<Rightarrow> 'p env
    \<Rightarrow> (int \<times> int \<times> 'p wmg_sta_object \<times> 'p env) option" where
  "sta_forward req obj e =
     do {
       wpa \<leftarrow> sta_platform_inf obj;
       let ((ret, _), obj, e) = sta_extension wpa req obj e;
       both ret obj e
     }"

definition sta_get_scan_results :: "buf \<Rightarrow> buf \<Rightarrow> 32 word \<Rightarrow> ('p wmg_sta_object, 'p) handler" where
  "sta_get_scan_results scan_results bss_num arr_size cb obj e =
     (if \<not> sta_init_flag obj then both WMG_STATUS_UNHANDLED obj e
      else if \<not> sta_enable obj then both WMG_STATUS_UNHANDLED obj e
      else if WIFI_STA_CONNECTED < sta_state obj \<and> sta_state obj < WIFI_STA_NET_CONNECTED
      then both WMG_STATUS_UNHANDLED obj e
      else sta_forward (WPA_CMD_GET_SCAN_RESULTS scan_results bss_num arr_size) obj e)"

definition sta_register_msg_cb :: "msg_cb option \<Rightarrow> ('p wmg_sta_object, 'p) handler" where
  "sta_register_msg_cb msg_cb cb obj e =
     (if \<not> sta_init_flag obj then Some (WMG_FALSE, cb, obj, e)
      else if msg_cb = None then Some (WMG_STATUS_UNHANDLED, cb, obj, e)
      else Some (WMG_STATUS_SUCCESS, cb, obj\<lparr>sta_msg_cb := msg_cb\<rparr>, e))"

definition sta_set_mac :: "mac_para \<Rightarrow> ('p wmg_sta_object, 'p) handler" where
  "sta_set_mac para cb obj e =
     (if \<not> sta_init_flag obj then Some (WMG_FALSE, cb, obj, e)
      else sta_forward (WPA_CMD_SET_MAC para) obj e)"

definition sta_get_mac :: "mac_para \<Rightarrow> ('p wmg_sta_object, 'p) handler" where
  "sta_get_mac para cb obj e =
     (if \<not> sta_init_flag obj then Some (WMG_FALSE, cb, obj, e)
      else sta_forward (WPA_CMD_GET_MAC para) obj e)"

section \<open>Mode operations\<close>

definition sta_mode_init :: "'p sta_inf \<Rightarrow> 'p wmg_sta_object \<Rightarrow> 'p env \<Rightarrow> int \<times> 'p wmg_sta_object \<times> 'p env" where
  "sta_mode_init wpa obj e =
     (if \<not> sta_init_flag obj
      then
        let obj = obj\<lparr>sta_platform_inf := Some wpa\<rparr>
        in (case sta_wpa_init wpa of
              None \<Rightarrow> (WMG_STATUS_SUCCESS, obj\<lparr>sta_init_flag := True\<rparr>, e)
            | Some f \<Rightarrow>
                let (ret, p) = f (plat e); e = e\<lparr>plat := p\<rparr>
                in if c_true ret then (WMG_STATUS_FAIL, obj, e)
                   else (WMG_STATUS_SUCCESS, obj\<lparr>sta_init_flag := True\<rparr>, e))
      else (WMG_STATUS_SUCCESS, obj, e))"

definition sta_mode_deinit ::
    "'p wmg_sta_object \<Rightarrow> 'p env \<Rightarrow> (int \<times> 'p wmg_sta_object \<times> 'p env) option" where
  "sta_mode_deinit obj e =
     (if sta_init_flag obj then do {
        wpa \<leftarrow> sta_platform_inf obj;
        let (_, obj, e) = (case sta_wpa_deinit wpa of
                             None \<Rightarrow> ((), obj, e)
                           | Some f \<Rightarrow> sta_plat (\<lambda>p. ((), f p)) obj e);
        Some (WMG_STATUS_SUCCESS,
          obj\<lparr>sta_init_flag := False, wpas_run := False, sta_state := WIFI_STA_IDLE,
              sta_msg_cb := None, sta_auto_reconn := False, sta_active_recv := False\<rparr>, e)
      } else Some (WMG_STATUS_SUCCESS, obj, e))"

definition sta_mode_enable ::
    "'p wmg_sta_object \<Rightarrow> 'p env \<Rightarrow> (int \<times> 'p wmg_sta_object \<times> 'p env) option" where
  "sta_mode_enable obj e =
     (if \<not> sta_init_flag obj then Some (WMG_STATUS_FAIL, obj, e)
      else if sta_enable obj then Some (WMG_STATUS_SUCCESS, obj, e)
      else do {
        wpa \<leftarrow> sta_platform_inf obj;
        let (ret, obj, e) = sta_plat (sta_wpa_connect wpa) obj e;
        if c_true ret then Some (WMG_STATUS_FAIL, obj, e)
        else Some (ret, obj\<lparr>wpas_run := True, sta_enable := True\<rparr>, e)
      })"

definition sta_mode_disable ::
    "'p wmg_sta_object \<Rightarrow> 'p env \<Rightarrow> (int \<times> 'p wmg_sta_object \<times> 'p env) option" where
  "sta_mode_disable obj e =
     (if \<not> sta_init_flag obj then Some (WMG_STATUS_SUCCESS, obj, e)
      else if \<not> sta_enable obj then Some (WMG_STATUS_SUCCESS, obj, e)
      else do {
        wpa \<leftarrow> sta_platform_inf obj;
        let (_, obj, e) = sta_plat (sta_wpa_disconnect wpa) obj e;
        Some (WMG_STATUS_SUCCESS, obj\<lparr>sta_enable := False\<rparr>, e)
      })"

fun sta_dispatch :: "sta_cmd \<Rightarrow> ('p wmg_sta_object, 'p) handler" where
  "sta_dispatch (WMG_STA_CMD_CONNECT cn) cb obj e = ctl_case (sta_connect cn cb obj e)"
| "sta_dispatch WMG_STA_CMD_DISCONNECT cb obj e = ctl_case (sta_disconnect cb obj e)"
| "sta_dispatch (WMG_STA_CMD_AUTO_RECONNECT en) cb obj e = ctl_case (sta_auto_reconnect en cb obj e)"
| "sta_dispatch (WMG_STA_CMD_GET_INFO b) cb obj e = ctl_case (sta_get_info b cb obj e)"
| "sta_dispatch (WMG_STA_CMD_LIST_NETWORKS b) cb obj e = ctl_case (sta_list_networks b cb obj e)"
| "sta_dispatch (WMG_STA_CMD_REMOVE_NETWORKS s) cb obj e = ctl_case (sta_remove_networks s cb obj e)"
| "sta_dispatch WMG_STA_CMD_SCAN_PARAM cb obj e = ctl_case (sta_set_scan_param cb obj e)"
| "sta_dispatch (WMG_STA_CMD_SCAN_RESULTS r n a) cb obj e = ctl_case (sta_get_scan_results r n a cb obj e)"
| "sta_dispatch (WMG_STA_CMD_REGISTER_MSG_CB f) cb obj e = ctl_case (sta_register_msg_cb f cb obj e)"
| "sta_dispatch (WMG_STA_CMD_SET_MAC m) cb obj e = ctl_case (sta_set_mac m cb obj e)"
| "sta_dispatch (WMG_STA_CMD_GET_MAC m) cb obj e = ctl_case (sta_get_mac m cb obj e)"
| "sta_dispatch WMG_STA_CMD_OTHER cb obj e = Some (WMG_STATUS_FAIL, cb, obj, e)"

definition sta_mode_ctl :: "sta_cmd \<Rightarrow> ('p wmg_sta_object, 'p) handler" where
  "sta_mode_ctl cmd cb obj e =
     (if \<not> sta_init_flag obj then Some (WMG_STATUS_FAIL, cb, obj, e)
      else if \<not> sta_enable obj then Some (WMG_STATUS_SUCCESS, cb, obj, e)
      else sta_dispatch cmd cb obj e)"

section \<open>What platform calls and commands leave alone\<close>

text \<open>Events change the state of the link and nothing of the object's set-up.\<close>

definition sta_setup :: "'p wmg_sta_object \<Rightarrow> bool \<times> bool \<times> msg_cb option \<times> bool \<times> 'p sta_inf option" where
  "sta_setup obj = (sta_init_flag obj, sta_enable obj, sta_msg_cb obj, sta_auto_reconn obj, sta_platform_inf obj)"

lemma sta_event_setup [simp]: "sta_setup (sta_event_state ev obj) = sta_setup obj"
  by (cases ev) (simp_all add: sta_setup_def)

lemma sta_events_setup: "sta_setup (fst (sta_events evs oe)) = sta_setup (fst oe)"
proof (induction evs arbitrary: oe)
  case Nil
  then show ?case by (simp add: sta_events_def)
next
  case (Cons ev evs)
  then show ?case
    by (cases oe) (simp add: sta_events_def sta_wpa_event_notify_def)
qed

lemma sta_plat_setup: "sta_plat f obj e = (r, obj', e') \<Longrightarrow> sta_setup obj' = sta_setup obj"
  using sta_events_setup[of "fst (snd (f (plat e)))" "(obj, e\<lparr>plat := snd (snd (f (plat e)))\<rparr>)"]
  by (auto simp: sta_plat_def Let_def split: prod.splits)

lemma sta_plat_frame [frame]:
  assumes "sta_plat f obj e = (r, obj', e')"
  shows "sta_init_flag obj' = sta_init_flag obj" "sta_enable obj' = sta_enable obj"
    "sta_msg_cb obj' = sta_msg_cb obj" "sta_auto_reconn obj' = sta_auto_reconn obj"
    "sta_platform_inf obj' = sta_platform_inf obj"
  using sta_plat_setup[OF assms] by (simp_all add: sta_setup_def)

lemma sta_extension_frame [frame]:
  assumes "sta_extension wpa req obj e = (r, obj', e')"
  shows "sta_init_flag obj' = sta_init_flag obj" "sta_enable obj' = sta_enable obj"
    "sta_msg_cb obj' = sta_msg_cb obj" "sta_auto_reconn obj' = sta_auto_reconn obj"
    "sta_platform_inf obj' = sta_platform_inf obj"
  using assms unfolding sta_extension_def by (auto dest: sta_plat_frame)

definition sta_good :: "'p wmg_sta_object \<Rightarrow> bool" where
  "sta_good obj \<longleftrightarrow> (sta_init_flag obj \<longrightarrow> sta_platform_inf obj \<noteq> None)"

lemma sta_goodE:
  assumes "sta_good obj" "sta_init_flag obj"
  obtains wpa where "sta_platform_inf obj = Some wpa"
  using assms by (auto simp: sta_good_def)

interpretation sta_mode: mode_object sta_good sta_init_flag sta_enable "sta_mode_init wpa"
    sta_mode_deinit sta_mode_enable sta_mode_disable for wpa :: "'p sta_inf"
proof unfold_locales
  fix s s' :: "'p wmg_sta_object" and e e' ret
  assume "sta_good s" "sta_mode_init wpa s e = (ret, s', e')"
  then show "sta_good s' \<and> sta_enable s' = sta_enable s \<and> (ret = 0 \<longleftrightarrow> sta_init_flag s') \<and> (ret = 0 \<or> ret = - 1)"
    by (auto simp: sta_mode_init_def sta_good_def Let_def split: option.splits prod.splits if_splits)
next
  fix s :: "'p wmg_sta_object" and e
  assume "sta_good s"
  then show "\<exists>s' e'. sta_mode_deinit s e = Some (0, s', e') \<and> sta_good s' \<and> \<not> sta_init_flag s' \<and>
      sta_enable s' = sta_enable s"
    by (auto simp: sta_mode_deinit_def sta_good_def frame split: option.splits prod.splits)
next
  fix s :: "'p wmg_sta_object" and e
  assume g: "sta_good s"
  show "\<exists>ret s' e'. sta_mode_enable s e = Some (ret, s', e') \<and> sta_good s' \<and>
      sta_init_flag s' = sta_init_flag s \<and> (ret = 0 \<or> ret = - 1) \<and>
      (ret = 0 \<longrightarrow> sta_init_flag s \<and> sta_enable s') \<and> (ret \<noteq> 0 \<longrightarrow> \<not> (sta_init_flag s \<and> sta_enable s)) \<and>
      (ret \<noteq> 0 \<longrightarrow> sta_enable s' = sta_enable s)"
    using g by (auto simp: sta_mode_enable_def sta_good_def frame c_true_def split: prod.splits)
next
  fix s :: "'p wmg_sta_object" and e
  assume "sta_good s"
  then show "\<exists>s' e'. sta_mode_disable s e = Some (0, s', e') \<and> sta_good s' \<and>
      sta_init_flag s' = sta_init_flag s \<and> sta_enable s' = (sta_enable s \<and> \<not> sta_init_flag s)"
    by (auto simp: sta_mode_disable_def sta_good_def frame split: prod.splits)
qed

lemma sta_mode_ctl_off:
  "\<not> sta_init_flag obj \<Longrightarrow> sta_mode_ctl cmd cb obj e = Some (WMG_STATUS_FAIL, cb, obj, e)"
  "sta_init_flag obj \<Longrightarrow> \<not> sta_enable obj \<Longrightarrow> sta_mode_ctl cmd cb obj e = Some (WMG_STATUS_SUCCESS, cb, obj, e)"
  by (simp_all add: sta_mode_ctl_def)

lemma sta_mode_ctl_on:
  "sta_init_flag obj \<Longrightarrow> sta_enable obj \<Longrightarrow> sta_mode_ctl cmd cb obj e = sta_dispatch cmd cb obj e"
  by (simp add: sta_mode_ctl_def)

lemmas [handler_defs] = sta_connect_def sta_disconnect_def sta_auto_reconnect_def sta_request_def
  sta_get_info_def sta_list_networks_def sta_remove_networks_def sta_set_scan_param_def
  sta_forward_def sta_get_scan_results_def sta_register_msg_cb_def sta_set_mac_def sta_get_mac_def

text \<open>What a command keeps: it ends, with success or \<open>WMG_STATUS_FAIL\<close>, on the same set-up.\<close>

definition sta_kept :: "'p wmg_sta_object \<Rightarrow> (int \<times> int \<times> 'p wmg_sta_object \<times> 'p env) option \<Rightarrow> bool" where
  "sta_kept obj r \<longleftrightarrow> (\<exists>ret cb obj' e'. r = Some (ret, cb, obj', e') \<and> (ret = 0 \<or> ret = - 1) \<and>
     sta_init_flag obj' = sta_init_flag obj \<and> sta_enable obj' = sta_enable obj \<and>
     sta_platform_inf obj' = sta_platform_inf obj)"

lemma sta_kept_simps [simp]:
  "sta_kept obj (ctl_case (both ret obj' e')) \<longleftrightarrow> sta_init_flag obj' = sta_init_flag obj \<and>
     sta_enable obj' = sta_enable obj \<and> sta_platform_inf obj' = sta_platform_inf obj"
  "sta_kept obj (ctl_case (Some (ret, cb, obj', e'))) \<longleftrightarrow> sta_init_flag obj' = sta_init_flag obj \<and>
     sta_enable obj' = sta_enable obj \<and> sta_platform_inf obj' = sta_platform_inf obj"
  by (auto simp: sta_kept_def ctl_case_def both_def)

lemma sta_kept_forward:
  "sta_platform_inf obj = Some wpa \<Longrightarrow> sta_kept obj (ctl_case (sta_forward req obj e))"
  "sta_platform_inf obj = Some wpa \<Longrightarrow> sta_kept obj (ctl_case (sta_request req obj e))"
  by (auto simp: sta_forward_def sta_request_def frame split: prod.split)

lemma sta_dispatch_kept [no_ub]:
  assumes "sta_init_flag obj" "sta_platform_inf obj = Some wpa" "cmd \<noteq> WMG_STA_CMD_CONNECT None"
  shows "sta_kept obj (sta_dispatch cmd cb obj e)"
proof (cases cmd)
  case (WMG_STA_CMD_CONNECT cn)
  then show ?thesis
    using assms by (auto simp: sta_connect_def frame split: prod.split)
next
  case WMG_STA_CMD_DISCONNECT
  then show ?thesis
    using assms by (auto simp: sta_disconnect_def frame split: prod.split)
next
  case (WMG_STA_CMD_AUTO_RECONNECT en)
  then show ?thesis
    using assms by (auto simp: sta_auto_reconnect_def frame split: prod.split)
next
  case WMG_STA_CMD_OTHER
  then show ?thesis by (simp add: sta_kept_def)
qed (use assms in \<open>simp_all add: sta_get_info_def sta_list_networks_def sta_remove_networks_def
       sta_get_scan_results_def sta_set_mac_def sta_get_mac_def sta_set_scan_param_def
       sta_register_msg_cb_def sta_kept_forward split: option.split\<close>)

section \<open>Properties\<close>

text \<open>The state an event leads to; other events leave the state alone.\<close>

fun event_target :: "wifi_sta_event \<Rightarrow> wifi_sta_state option" where
  "event_target WIFI_CONNECTED = Some WIFI_STA_CONNECTED"
| "event_target WIFI_DHCP_START = Some WIFI_STA_OBTAINING_IP"
| "event_target WIFI_DHCP_TIMEOUT = Some WIFI_STA_DHCP_TIMEOUT"
| "event_target WIFI_DHCP_SUCCESS = Some WIFI_STA_NET_CONNECTED"
| "event_target ev = (if ev \<in> {WIFI_TERMINATING, WIFI_DISCONNECTED, WIFI_ASSOC_REJECT,
     WIFI_NETWORK_NOT_FOUND, WIFI_PASSWORD_INCORRECT} then Some WIFI_STA_DISCONNECTED else None)"

definition last_target :: "wifi_sta_event list \<Rightarrow> wifi_sta_state \<Rightarrow> wifi_sta_state" where
  "last_target evs st =
     (let ts = List.map_filter event_target evs in if ts = [] then st else last ts)"

lemma sta_event_state_fields:
  "sta_state (sta_event_state ev obj) = (case event_target ev of None \<Rightarrow> sta_state obj | Some t \<Rightarrow> t)"
  "wpas_run (sta_event_state ev obj) = (wpas_run obj \<and> ev \<noteq> WIFI_TERMINATING)"
  "sta_msg_cb (sta_event_state ev obj) = sta_msg_cb obj"
  by (cases ev; simp)+

lemma last_target_Cons:
  "last_target (ev # evs) st = last_target evs (case event_target ev of None \<Rightarrow> st | Some t \<Rightarrow> t)"
  by (auto simp: last_target_def map_filter_simps Let_def split: option.split)

lemma sta_events_effect:
  "sta_state (fst (sta_events evs (obj, e))) = last_target evs (sta_state obj) \<and>
   wpas_run (fst (sta_events evs (obj, e))) = (wpas_run obj \<and> WIFI_TERMINATING \<notin> set evs) \<and>
   calls (snd (sta_events evs (obj, e))) =
     calls e @ (case sta_msg_cb obj of None \<Rightarrow> [] | Some f \<Rightarrow> map (\<lambda>ev. (f, Msg_Sta_Event ev)) evs)"
proof (induction evs arbitrary: obj e)
  case Nil
  then show ?case by (simp add: sta_events_def last_target_def map_filter_simps split: option.split)
next
  case (Cons ev evs)
  have step: "sta_events (ev # evs) (obj, e) =
      sta_events evs (sta_event_state ev obj, invoke_cb (sta_msg_cb obj) (Msg_Sta_Event ev) e)"
    by (simp add: sta_events_def sta_wpa_event_notify_def)
  show ?case
    unfolding step using Cons[of "sta_event_state ev obj" "invoke_cb (sta_msg_cb obj) (Msg_Sta_Event ev) e"]
    by (auto simp: sta_event_state_fields last_target_Cons invoke_cb_def split: option.split)
qed

text \<open>
  C31. However the supplicant's events arrive, the state is that of the last event that
  denotes one, the supplicant counts as running until it announces its end, and the
  registered callback has seen every event once, in order.
\<close>

theorem sta_events_state:
  "sta_state (fst (sta_events evs (obj, e))) = last_target evs (sta_state obj) \<and>
   wpas_run (fst (sta_events evs (obj, e))) = (wpas_run obj \<and> WIFI_TERMINATING \<notin> set evs) \<and>
   calls (snd (sta_events evs (obj, e))) =
     calls e @ (case sta_msg_cb obj of None \<Rightarrow> [] | Some f \<Rightarrow> map (\<lambda>ev. (f, Msg_Sta_Event ev)) evs)"
  by (rule sta_events_effect)

text \<open>A platform that counts its calls and never manages to connect, and stations on it.\<close>

definition demo_wpa :: "nat sta_inf" where
  "demo_wpa = \<lparr>sta_wpa_init = Some (\<lambda>n. (0, Suc n)), sta_wpa_deinit = Some (\<lambda>n. ([], Suc n)),
     sta_wpa_connect = (\<lambda>n. (0, [], Suc n)), sta_wpa_connect_to_ap = (\<lambda>_ n. (- 1, [], Suc n)),
     sta_wpa_disconnect = (\<lambda>n. (0, [WIFI_DISCONNECTED], Suc n)),
     sta_platform_extension = (\<lambda>_ n. (0, None, [], Suc n))\<rparr>"

definition demo_sta :: "nat wmg_sta_object" where
  "demo_sta = sta_object_static\<lparr>sta_init_flag := True, sta_platform_inf := Some demo_wpa\<rparr>"

definition demo_env :: "nat env" where
  "demo_env = \<lparr>plat = 0, calls = []\<rparr>"

definition demo_cn :: wifi_sta_cn_para where
  "demo_cn = \<lparr>cn_ssid = Some ''home'', cn_password = Some ''secret'', cn_sec = WIFI_SEC_WPA2_PSK,
     cn_fast_connect = False\<rparr>"

lemmas demo_sta_defs = demo_sta_def sta_object_static_def demo_wpa_def demo_env_def demo_cn_def

lemma sta_ctl_kept:
  assumes "sta_good obj" "cmd \<noteq> WMG_STA_CMD_CONNECT None"
  shows "\<exists>ret cb' obj' e'. sta_mode_ctl cmd cb obj e = Some (ret, cb', obj', e') \<and>
    (ret = WMG_STATUS_SUCCESS \<or> ret = WMG_STATUS_FAIL) \<and> sta_good obj' \<and>
    sta_init_flag obj' = sta_init_flag obj \<and> sta_enable obj' = sta_enable obj"
proof (cases "sta_init_flag obj \<and> sta_enable obj")
  case True
  then obtain wpa where "sta_platform_inf obj = Some wpa" using assms(1) by (auto elim: sta_goodE)
  from sta_dispatch_kept[OF _ this assms(2), of cb e] True assms(1) show ?thesis
    by (auto simp: sta_mode_ctl_on sta_kept_def sta_good_def)
next
  case False
  then show ?thesis using assms(1) by (auto simp: sta_mode_ctl_def)
qed

text \<open>
  No command that reaches the station object dereferences a NULL pointer, except a
  connect without parameters: on an object that has its platform interface every other
  command ends, with success or \<open>WMG_STATUS_FAIL\<close>, and keeps the object initialised, enabled
  and attached as it was.
\<close>

theorem sta_mode_ctl_safe:
  assumes "sta_good obj" "cmd \<noteq> WMG_STA_CMD_CONNECT None"
  shows "\<exists>ret cb' obj' e'. sta_mode_ctl cmd cb obj e = Some (ret, cb', obj', e') \<and>
    (ret = WMG_STATUS_SUCCESS \<or> ret = WMG_STATUS_FAIL) \<and> sta_good obj' \<and>
    sta_init_flag obj' = sta_init_flag obj \<and> sta_enable obj' = sta_enable obj"
  using assms by (rule sta_ctl_kept)

theorem sta_mode_ctl_safe_witness:
  "\<exists>ret cb' obj' e'. sta_mode_ctl (WMG_STA_CMD_GET_MAC (''wlan0'', Some 3)) 0 (demo_sta\<lparr>sta_enable := True\<rparr>) demo_env
      = Some (ret, cb', obj', e') \<and> sta_good obj' \<and> sta_enable obj'"
  using sta_mode_ctl_safe[of "demo_sta\<lparr>sta_enable := True\<rparr>" "WMG_STA_CMD_GET_MAC (''wlan0'', Some 3)" 0 demo_env]
  by (auto simp: sta_good_def demo_sta_defs)

text \<open>
  A connect request is passed to the platform exactly when the station is enabled, is
  neither connecting nor obtaining an address, and an SSID is given; in every other case the
  object and the environment are unchanged and the reason is left in the caller's status.
\<close>

theorem sta_connect_guard:
  assumes "sta_init_flag obj" "sta_enable obj" "sta_platform_inf obj = Some wpa"
  shows "sta_mode_ctl (WMG_STA_CMD_CONNECT (Some cn)) cb obj e =
    (if sta_state obj \<in> {WIFI_STA_CONNECTING, WIFI_STA_OBTAINING_IP}
     then Some (WMG_STATUS_FAIL, WMG_STATUS_UNHANDLED, obj, e)
     else if cn_ssid cn \<in> {None, Some []} then Some (WMG_STATUS_FAIL, WMG_STATUS_INVALID, obj, e)
     else let (r, evs, p) = sta_wpa_connect_to_ap wpa cn (plat e);
              (obj', e') = sta_events evs (obj\<lparr>sta_state := WIFI_STA_CONNECTING\<rparr>, e\<lparr>plat := p\<rparr>)
          in Some (if r = 0 then WMG_STATUS_SUCCESS else WMG_STATUS_FAIL, r, obj', e'))"
  using assms
  by (auto simp: sta_mode_ctl_on sta_connect_def sta_plat_def ctl_case_def both_def c_true_def Let_def
      split: prod.split)

theorem sta_connect_guard_witness:
  "sta_mode_ctl (WMG_STA_CMD_CONNECT (Some demo_cn)) 0
      (demo_sta\<lparr>sta_enable := True, sta_state := WIFI_STA_CONNECTING\<rparr>) demo_env
    = Some (WMG_STATUS_FAIL, WMG_STATUS_UNHANDLED,
        demo_sta\<lparr>sta_enable := True, sta_state := WIFI_STA_CONNECTING\<rparr>, demo_env)"
  using sta_connect_guard[of "demo_sta\<lparr>sta_enable := True, sta_state := WIFI_STA_CONNECTING\<rparr>" demo_wpa demo_cn 0 demo_env]
  by (simp add: demo_sta_def)

text \<open>
  A connection attempt that fails without any event leaves the station in
  \<open>WIFI_STA_CONNECTING\<close>: every further connect request is refused as long as no event
  arrives, without asking the platform again.
\<close>

theorem sta_failed_connect_sticks:
  assumes "sta_init_flag obj" "sta_enable obj" "sta_platform_inf obj = Some wpa"
    and "sta_state obj \<notin> {WIFI_STA_CONNECTING, WIFI_STA_OBTAINING_IP}" "cn_ssid cn \<notin> {None, Some []}"
    and "sta_wpa_connect_to_ap wpa cn (plat e) = (r, [], p)" "r \<noteq> 0"
    and "sta_mode_ctl (WMG_STA_CMD_CONNECT (Some cn)) cb obj e = Some (ret, cb', obj', e')"
  shows "ret = WMG_STATUS_FAIL \<and> sta_state obj' = WIFI_STA_CONNECTING \<and>
    sta_mode_ctl (WMG_STA_CMD_CONNECT cn') cb2 obj' e' = Some (WMG_STATUS_FAIL, WMG_STATUS_UNHANDLED, obj', e')"
proof -
  have "ret = WMG_STATUS_FAIL" "obj' = obj\<lparr>sta_state := WIFI_STA_CONNECTING\<rparr>"
    using assms
    by (auto simp: sta_mode_ctl_on sta_connect_def sta_plat_def sta_events_def ctl_case_def both_def c_true_def)
  then show ?thesis
    using assms(1,2) by (simp add: sta_mode_ctl_on sta_connect_def ctl_case_def both_def)
qed

theorem sta_failed_connect_sticks_witness:
  "sta_mode_ctl (WMG_STA_CMD_CONNECT (Some demo_cn)) 0
      (demo_sta\<lparr>sta_enable := True, sta_state := WIFI_STA_CONNECTING\<rparr>) (demo_env\<lparr>plat := 1\<rparr>)
    = Some (WMG_STATUS_FAIL, WMG_STATUS_UNHANDLED,
        demo_sta\<lparr>sta_enable := True, sta_state := WIFI_STA_CONNECTING\<rparr>, demo_env\<lparr>plat := 1\<rparr>)"
proof -
  have "sta_mode_ctl (WMG_STA_CMD_CONNECT (Some demo_cn)) 0 (demo_sta\<lparr>sta_enable := True\<rparr>) demo_env
      = Some (- 1, - 1, demo_sta\<lparr>sta_enable := True, sta_state := WIFI_STA_CONNECTING\<rparr>, demo_env\<lparr>plat := 1\<rparr>)"
    by (simp add: demo_sta_defs sta_mode_ctl_on sta_connect_def sta_plat_def sta_events_def ctl_case_def both_def)
  then show ?thesis
    using sta_failed_connect_sticks[of "demo_sta\<lparr>sta_enable := True\<rparr>" demo_wpa demo_cn demo_env "- 1" 1 0 "- 1" "- 1"
        "demo_sta\<lparr>sta_enable := True, sta_state := WIFI_STA_CONNECTING\<rparr>" "demo_env\<lparr>plat := 1\<rparr>" "Some demo_cn" 0]
    by (simp add: demo_sta_defs)
qed

text \<open>
  On a station that is not enabled every command reports success and does nothing: a
  callback registered before the station is switched on is dropped silently.
\<close>

theorem sta_register_before_enable:
  assumes "sta_init_flag obj" "\<not> sta_enable obj" "sta_msg_cb obj = None"
    and "sta_mode_ctl (WMG_STA_CMD_REGISTER_MSG_CB (Some f)) WMG_STATUS_SUCCESS obj e = Some (ret, cb, obj', e')"
    and "sta_mode_enable obj' e' = Some (WMG_STATUS_SUCCESS, obj'', e'')"
  shows "ret = WMG_STATUS_SUCCESS \<and> cb = WMG_STATUS_SUCCESS \<and> sta_enable obj'' \<and> sta_msg_cb obj'' = None"
  using assms
  by (auto simp: sta_mode_ctl_def sta_mode_enable_def frame split: Option.bind_splits prod.splits if_splits)

theorem sta_register_before_enable_witness:
  "\<exists>obj e. sta_mode_ctl (WMG_STA_CMD_REGISTER_MSG_CB (Some 7)) 0 demo_sta demo_env = Some (0, 0, demo_sta, demo_env) \<and>
     sta_mode_enable demo_sta demo_env = Some (0, obj, e) \<and> sta_enable obj \<and> sta_msg_cb obj = None"
proof -
  have r: "sta_mode_ctl (WMG_STA_CMD_REGISTER_MSG_CB (Some 7)) 0 demo_sta demo_env = Some (0, 0, demo_sta, demo_env)"
    by (simp add: sta_mode_ctl_def demo_sta_defs)
  obtain obj e where en: "sta_mode_enable demo_sta demo_env = Some (0, obj, e)"
    by (simp add: sta_mode_enable_def demo_sta_defs sta_plat_def sta_events_def)
  show ?thesis
    using sta_register_before_enable[OF _ _ _ r en] r en by (simp add: demo_sta_defs)
qed

end
