(* ===== verification/Wmg_Ap.thy ===== *)
theory Wmg_Ap
  imports Wmg_Types
begin

text \<open>
  The access point mode object of \<open>wmg_ap.c\<close>, over the interface that \<open>linux_hapd.c\<close>
  provides. A platform function gives its result and the events it reported through
  \<open>ap_hapd_event_notify\<close> while it ran.
\<close>

section \<open>State\<close>

datatype hapd_request =
  HAPD_CMD_SEND_DISABLE_TO_HAPD | HAPD_CMD_GET_CONFIG buf | HAPD_CMD_SET_MAC mac_para
| HAPD_CMD_GET_MAC mac_para

record 'p ap_inf =
  ap_hapd_init :: "('p \<Rightarrow> int \<times> 'p) option"
  ap_hapd_deinit :: "('p \<Rightarrow> wifi_ap_event list \<times> 'p) option"
  ap_hapd_connect :: "'p \<Rightarrow> int \<times> wifi_ap_event list \<times> 'p"
  ap_hapd_enable :: "wifi_ap_config option \<Rightarrow> 'p \<Rightarrow> int \<times> wifi_ap_event list \<times> 'p"
  ap_hapd_disable :: "'p \<Rightarrow> int \<times> wifi_ap_event list \<times> 'p"
  ap_platform_extension :: "hapd_request \<Rightarrow> 'p \<Rightarrow> int \<times> wifi_ap_event list \<times> 'p"

record 'p wmg_ap_object =
  ap_init_flag :: bool
  ap_enabled :: bool
  hapd_run :: bool
  ap_state :: wifi_ap_state
  ap_msg_cb :: "msg_cb option"
  ap_platform_inf :: "'p ap_inf option"

definition ap_object_static :: "'p wmg_ap_object" where
  "ap_object_static = \<lparr>ap_init_flag = False, ap_enabled = False, hapd_run = False,
     ap_state = WIFI_AP_DISABLE, ap_msg_cb = None, ap_platform_inf = None\<rparr>"

datatype ap_cmd =
  WMG_AP_CMD_ENABLE "wifi_ap_config option" | WMG_AP_CMD_DISABLE | WMG_AP_CMD_GET_CONFIG "buf option"
| WMG_AP_CMD_REGISTER_MSG_CB "msg_cb option" | WMG_AP_CMD_SET_MAC mac_para
| WMG_AP_CMD_GET_MAC mac_para | WMG_AP_CMD_OTHER

section \<open>Events\<close>

definition ap_hapd_event_notify :: "wifi_ap_event \<Rightarrow> 'p wmg_ap_object \<Rightarrow> 'p env \<Rightarrow> 'p env" where
  "ap_hapd_event_notify ev obj e = invoke_cb (ap_msg_cb obj) (Msg_Ap_Event ev) e"

definition ap_plat ::
    "('p \<Rightarrow> 'r \<times> wifi_ap_event list \<times> 'p) \<Rightarrow> 'p wmg_ap_object \<Rightarrow> 'p env \<Rightarrow> 'r \<times> 'p env" where
  "ap_plat f obj e =
     (let (r, evs, p) = f (plat e) in (r, fold (\<lambda>ev. ap_hapd_event_notify ev obj) evs (e\<lparr>plat := p\<rparr>)))"

section \<open>Commands\<close>

definition ap_enable :: "wifi_ap_config option \<Rightarrow> ('p wmg_ap_object, 'p) handler" where
  "ap_enable config cb obj e =
     (if \<not> ap_init_flag obj then both WMG_STATUS_FAIL obj e
      else if \<not> hapd_run obj then both WMG_STATUS_FAIL obj e
      else if ap_state obj = WIFI_AP_ENABLE \<and> config = None then both WMG_STATUS_SUCCESS obj e
      else if ap_state obj \<noteq> WIFI_AP_ENABLE \<and> config = None then both WMG_STATUS_FAIL obj e
      else do {
        hapd \<leftarrow> ap_platform_inf obj;
        let (ret, e) = ap_plat (ap_hapd_enable hapd config) obj e;
        if c_true ret then both WMG_STATUS_FAIL obj e
        else both ret (obj\<lparr>ap_state := WIFI_AP_ENABLE\<rparr>) e
      })"

definition ap_disable :: "('p wmg_ap_object, 'p) handler" where
  "ap_disable cb obj e =
     (if \<not> ap_init_flag obj then both WMG_STATUS_UNHANDLED obj e
      else if ap_state obj = WIFI_AP_DISABLE then both WMG_STATUS_SUCCESS obj e
      else do {
        hapd \<leftarrow> ap_platform_inf obj;
        let (ret, e) = ap_plat (ap_hapd_disable hapd) obj e;
        both ret (obj\<lparr>ap_state := WIFI_AP_DISABLE\<rparr>) e
      })"

definition ap_get_config :: "buf option \<Rightarrow> ('p wmg_ap_object, 'p) handler" where
  "ap_get_config config cb obj e =
     (if \<not> ap_init_flag obj then both WMG_STATUS_FAIL obj e
      else if \<not> ap_enabled obj then both WMG_STATUS_FAIL obj e
      else if ap_state obj \<noteq> WIFI_AP_ENABLE then both WMG_STATUS_UNHANDLED obj e
      else (case config of
              None \<Rightarrow> both WMG_STATUS_FAIL obj e
            | Some b \<Rightarrow> do {
                hapd \<leftarrow> ap_platform_inf obj;
                let (ret, e) = ap_plat (ap_platform_extension hapd (HAPD_CMD_GET_CONFIG b)) obj e;
                both (if c_true ret then WMG_STATUS_FAIL else ret) obj e
              }))"

definition ap_register_msg_cb :: "msg_cb option \<Rightarrow> ('p wmg_ap_object, 'p) handler" where
  "ap_register_msg_cb msg_cb cb obj e =
     (if \<not> ap_init_flag obj then Some (WMG_STATUS_FAIL, cb, obj, e)
      else if msg_cb = None then both WMG_STATUS_UNHANDLED obj e
      else both WMG_STATUS_SUCCESS (obj\<lparr>ap_msg_cb := msg_cb\<rparr>) e)"

definition ap_forward :: "hapd_request \<Rightarrow> 'p wmg_ap_object \<Rightarrow> 'p env
    \<Rightarrow> (int \<times> int \<times> 'p wmg_ap_object \<times> 'p env) option" where
  "ap_forward req obj e =
     do {
       hapd \<leftarrow> ap_platform_inf obj;
       let (ret, e) = ap_plat (ap_platform_extension hapd req) obj e;
       both ret obj e
     }"

definition ap_set_mac :: "mac_para \<Rightarrow> ('p wmg_ap_object, 'p) handler" where
  "ap_set_mac para cb obj e =
     (if \<not> ap_init_flag obj then Some (WMG_STATUS_FAIL, cb, obj, e)
      else ap_forward (HAPD_CMD_SET_MAC para) obj e)"

text \<open>The code sends the request to set the address here, too.\<close>

definition ap_get_mac :: "mac_para \<Rightarrow> ('p wmg_ap_object, 'p) handler" where
  "ap_get_mac para cb obj e =
     (if \<not> ap_init_flag obj then Some (WMG_STATUS_FAIL, cb, obj, e)
      else ap_forward (HAPD_CMD_SET_MAC para) obj e)"

section \<open>Mode operations\<close>

definition ap_mode_init :: "'p ap_inf \<Rightarrow> 'p wmg_ap_object \<Rightarrow> 'p env \<Rightarrow> int \<times> 'p wmg_ap_object \<times> 'p env" where
  "ap_mode_init hapd obj e =
     (if \<not> ap_init_flag obj
      then
        let obj = obj\<lparr>ap_platform_inf := Some hapd\<rparr>
        in (case ap_hapd_init hapd of
              None \<Rightarrow> (WMG_STATUS_SUCCESS, obj\<lparr>ap_init_flag := True\<rparr>, e)
            | Some f \<Rightarrow>
                let (ret, p) = f (plat e); e = e\<lparr>plat := p\<rparr>
                in if c_true ret then (WMG_STATUS_FAIL, obj, e)
                   else (WMG_STATUS_SUCCESS, obj\<lparr>ap_init_flag := True\<rparr>, e))
      else (WMG_STATUS_SUCCESS, obj, e))"

definition ap_mode_deinit ::
    "'p wmg_ap_object \<Rightarrow> 'p env \<Rightarrow> (int \<times> 'p wmg_ap_object \<times> 'p env) option" where
  "ap_mode_deinit obj e =
     (if ap_init_flag obj then do {
        hapd \<leftarrow> ap_platform_inf obj;
        let (_, e) = (case ap_hapd_deinit hapd of
                        None \<Rightarrow> ((), e)
                      | Some f \<Rightarrow> ap_plat (\<lambda>p. ((), f p)) obj e);
        Some (WMG_STATUS_SUCCESS, obj\<lparr>ap_init_flag := False, ap_msg_cb := None\<rparr>, e)
      } else Some (WMG_STATUS_SUCCESS, obj, e))"

definition ap_mode_enable ::
    "'p wmg_ap_object \<Rightarrow> 'p env \<Rightarrow> (int \<times> 'p wmg_ap_object \<times> 'p env) option" where
  "ap_mode_enable obj e =
     (if \<not> ap_init_flag obj then Some (WMG_STATUS_FAIL, obj, e)
      else if ap_enabled obj then Some (WMG_STATUS_SUCCESS, obj, e)
      else do {
        hapd \<leftarrow> ap_platform_inf obj;
        let (ret, e) = ap_plat (ap_hapd_connect hapd) obj e;
        if c_true ret then Some (WMG_STATUS_FAIL, obj, e)
        else Some (ret, obj\<lparr>hapd_run := True, ap_state := WIFI_AP_ENABLE, ap_enabled := True\<rparr>, e)
      })"

definition ap_mode_disable ::
    "'p wmg_ap_object \<Rightarrow> 'p env \<Rightarrow> (int \<times> 'p wmg_ap_object \<times> 'p env) option" where
  "ap_mode_disable obj e =
     (if \<not> ap_init_flag obj then Some (WMG_STATUS_SUCCESS, obj, e)
      else if \<not> ap_enabled obj then Some (WMG_STATUS_SUCCESS, obj, e)
      else do {
        hapd \<leftarrow> ap_platform_inf obj;
        let (_, e) = ap_plat (ap_hapd_disable hapd) obj e;
        Some (WMG_STATUS_SUCCESS, obj\<lparr>ap_enabled := False\<rparr>, e)
      })"

fun ap_dispatch :: "ap_cmd \<Rightarrow> ('p wmg_ap_object, 'p) handler" where
  "ap_dispatch (WMG_AP_CMD_ENABLE c) cb obj e = ctl_case (ap_enable c cb obj e)"
| "ap_dispatch WMG_AP_CMD_DISABLE cb obj e = ctl_case (ap_disable cb obj e)"
| "ap_dispatch (WMG_AP_CMD_GET_CONFIG b) cb obj e = ctl_case (ap_get_config b cb obj e)"
| "ap_dispatch (WMG_AP_CMD_REGISTER_MSG_CB f) cb obj e = ctl_case (ap_register_msg_cb f cb obj e)"
| "ap_dispatch (WMG_AP_CMD_SET_MAC m) cb obj e = ctl_case (ap_set_mac m cb obj e)"
| "ap_dispatch (WMG_AP_CMD_GET_MAC m) cb obj e = ctl_case (ap_get_mac m cb obj e)"
| "ap_dispatch WMG_AP_CMD_OTHER cb obj e = Some (WMG_STATUS_FAIL, cb, obj, e)"

definition ap_mode_ctl :: "ap_cmd \<Rightarrow> ('p wmg_ap_object, 'p) handler" where
  "ap_mode_ctl cmd cb obj e =
     (if \<not> ap_init_flag obj then Some (WMG_STATUS_FAIL, cb, obj, e)
      else if \<not> ap_enabled obj then Some (WMG_STATUS_SUCCESS, cb, obj, e)
      else ap_dispatch cmd cb obj e)"

section \<open>The contract\<close>

definition ap_good :: "'p wmg_ap_object \<Rightarrow> bool" where
  "ap_good obj \<longleftrightarrow> (ap_init_flag obj \<longrightarrow> ap_platform_inf obj \<noteq> None)"

interpretation ap_mode: mode_object ap_good ap_init_flag ap_enabled "ap_mode_init hapd"
    ap_mode_deinit ap_mode_enable ap_mode_disable for hapd :: "'p ap_inf"
proof unfold_locales
  fix s s' :: "'p wmg_ap_object" and e e' ret
  assume "ap_good s" "ap_mode_init hapd s e = (ret, s', e')"
  then show "ap_good s' \<and> ap_enabled s' = ap_enabled s \<and> (ret = 0 \<longleftrightarrow> ap_init_flag s') \<and> (ret = 0 \<or> ret = - 1)"
    by (auto simp: ap_mode_init_def ap_good_def Let_def split: option.splits prod.splits if_splits)
next
  fix s :: "'p wmg_ap_object" and e
  assume "ap_good s"
  then show "\<exists>s' e'. ap_mode_deinit s e = Some (0, s', e') \<and> ap_good s' \<and> \<not> ap_init_flag s' \<and>
      ap_enabled s' = ap_enabled s"
    by (auto simp: ap_mode_deinit_def ap_good_def split: option.splits prod.splits)
next
  fix s :: "'p wmg_ap_object" and e
  assume "ap_good s"
  then show "\<exists>ret s' e'. ap_mode_enable s e = Some (ret, s', e') \<and> ap_good s' \<and>
      ap_init_flag s' = ap_init_flag s \<and> (ret = 0 \<or> ret = - 1) \<and>
      (ret = 0 \<longrightarrow> ap_init_flag s \<and> ap_enabled s') \<and> (ret \<noteq> 0 \<longrightarrow> \<not> (ap_init_flag s \<and> ap_enabled s)) \<and>
      (ret \<noteq> 0 \<longrightarrow> ap_enabled s' = ap_enabled s)"
    by (auto simp: ap_mode_enable_def ap_good_def c_true_def split: prod.splits)
next
  fix s :: "'p wmg_ap_object" and e
  assume "ap_good s"
  then show "\<exists>s' e'. ap_mode_disable s e = Some (0, s', e') \<and> ap_good s' \<and>
      ap_init_flag s' = ap_init_flag s \<and> ap_enabled s' = (ap_enabled s \<and> \<not> ap_init_flag s)"
    by (auto simp: ap_mode_disable_def ap_good_def split: prod.splits)
qed

text \<open>What a command keeps: it ends, with success or \<open>WMG_STATUS_FAIL\<close>, on the same set-up.\<close>

definition ap_kept :: "'p wmg_ap_object \<Rightarrow> (int \<times> int \<times> 'p wmg_ap_object \<times> 'p env) option \<Rightarrow> bool" where
  "ap_kept obj r \<longleftrightarrow> (\<exists>ret cb obj' e'. r = Some (ret, cb, obj', e') \<and> (ret = 0 \<or> ret = - 1) \<and>
     ap_init_flag obj' = ap_init_flag obj \<and> ap_enabled obj' = ap_enabled obj \<and>
     ap_platform_inf obj' = ap_platform_inf obj)"

lemma ap_kept_simps [simp]:
  "ap_kept obj (ctl_case (both ret obj' e')) \<longleftrightarrow> ap_init_flag obj' = ap_init_flag obj \<and>
     ap_enabled obj' = ap_enabled obj \<and> ap_platform_inf obj' = ap_platform_inf obj"
  "ap_kept obj (ctl_case (Some (ret, cb, obj', e'))) \<longleftrightarrow> ap_init_flag obj' = ap_init_flag obj \<and>
     ap_enabled obj' = ap_enabled obj \<and> ap_platform_inf obj' = ap_platform_inf obj"
  by (auto simp: ap_kept_def ctl_case_def both_def)

lemma ap_dispatch_kept [no_ub]:
  "ap_platform_inf obj = Some hapd \<Longrightarrow> ap_kept obj (ap_dispatch cmd cb obj e)"
  by (cases cmd)
    (auto simp: ap_enable_def ap_disable_def ap_get_config_def ap_register_msg_cb_def ap_forward_def
      ap_set_mac_def ap_get_mac_def split: prod.split option.split, auto simp: ap_kept_def)

section \<open>Properties\<close>

lemma ap_ctl_kept:
  assumes "ap_good obj"
  shows "\<exists>ret cb' obj' e'. ap_mode_ctl cmd cb obj e = Some (ret, cb', obj', e') \<and>
    (ret = WMG_STATUS_SUCCESS \<or> ret = WMG_STATUS_FAIL) \<and> ap_good obj' \<and>
    ap_init_flag obj' = ap_init_flag obj \<and> ap_enabled obj' = ap_enabled obj"
proof (cases "ap_init_flag obj \<and> ap_enabled obj")
  case True
  then obtain hapd where "ap_platform_inf obj = Some hapd" using assms by (auto simp: ap_good_def)
  from ap_dispatch_kept[OF this, of cmd cb e] True assms show ?thesis
    by (auto simp: ap_mode_ctl_def ap_kept_def ap_good_def)
next
  case False
  then show ?thesis using assms by (auto simp: ap_mode_ctl_def)
qed

text \<open>
  No command that reaches the access point object dereferences a NULL pointer: on an
  object that has its platform interface every command ends, with success or
  \<open>WMG_STATUS_FAIL\<close>, and keeps the object initialised and enabled as it was.
\<close>

theorem ap_mode_ctl_safe:
  assumes "ap_good obj"
  shows "\<exists>ret cb' obj' e'. ap_mode_ctl cmd cb obj e = Some (ret, cb', obj', e') \<and>
    (ret = WMG_STATUS_SUCCESS \<or> ret = WMG_STATUS_FAIL) \<and> ap_good obj' \<and>
    ap_init_flag obj' = ap_init_flag obj \<and> ap_enabled obj' = ap_enabled obj"
  using assms by (rule ap_ctl_kept)

text \<open>
  Asking the access point for its MAC address sends the platform the request to set it:
  the buffer that should receive the address is taken as the new one, and the platform's
  answer is reported as the answer to the query.
\<close>

theorem ap_get_mac_sets_mac:
  assumes "ap_init_flag obj" "ap_enabled obj" "ap_platform_inf obj = Some hapd"
  shows "ap_mode_ctl (WMG_AP_CMD_GET_MAC para) cb obj e = ap_mode_ctl (WMG_AP_CMD_SET_MAC para) cb obj e \<and>
    (\<exists>r evs p. ap_platform_extension hapd (HAPD_CMD_SET_MAC para) (plat e) = (r, evs, p) \<and>
       (\<exists>e'. ap_mode_ctl (WMG_AP_CMD_GET_MAC para) cb obj e =
               Some (if r = 0 then WMG_STATUS_SUCCESS else WMG_STATUS_FAIL, r, obj, e')))"
  using assms
  by (auto simp: ap_mode_ctl_def ap_get_mac_def ap_set_mac_def ap_forward_def ap_plat_def ctl_case_def
      both_def c_true_def split: prod.split)

text \<open>
  Switching the access point mode off and tearing the object down leaves it recorded as
  enabled: after \<open>ap_mode_disable\<close> and \<open>ap_mode_deinit\<close> the state still says that the access
  point runs and that hostapd is connected.
\<close>

theorem ap_state_survives_deinit:
  assumes "ap_init_flag obj" "ap_enabled obj" "ap_state obj = WIFI_AP_ENABLE" "hapd_run obj"
    and "ap_mode_disable obj e = Some (r1, obj1, e1)" "ap_mode_deinit obj1 e1 = Some (r2, obj2, e2)"
  shows "r1 = WMG_STATUS_SUCCESS \<and> r2 = WMG_STATUS_SUCCESS \<and> \<not> ap_init_flag obj2 \<and> \<not> ap_enabled obj2 \<and>
    ap_state obj2 = WIFI_AP_ENABLE \<and> hapd_run obj2"
  using assms
  by (auto simp: ap_mode_disable_def ap_mode_deinit_def split: Option.bind_splits prod.splits if_splits)

definition demo_hapd :: "nat ap_inf" where
  "demo_hapd = \<lparr>ap_hapd_init = Some (\<lambda>n. (0, Suc n)), ap_hapd_deinit = Some (\<lambda>n. ([], Suc n)),
     ap_hapd_connect = (\<lambda>n. (0, [], Suc n)), ap_hapd_enable = (\<lambda>_ n. (0, [WIFI_AP_ENABLED], Suc n)),
     ap_hapd_disable = (\<lambda>n. (0, [WIFI_AP_DISABLED], Suc n)),
     ap_platform_extension = (\<lambda>_ n. (0, [], Suc n))\<rparr>"

definition demo_ap :: "nat wmg_ap_object" where
  "demo_ap = ap_object_static\<lparr>ap_init_flag := True, ap_enabled := True, hapd_run := True,
     ap_state := WIFI_AP_ENABLE, ap_platform_inf := Some demo_hapd\<rparr>"

lemmas demo_ap_defs = demo_ap_def ap_object_static_def demo_hapd_def

theorem ap_mode_ctl_safe_witness:
  "\<exists>ret cb' obj' e'. ap_mode_ctl (WMG_AP_CMD_ENABLE None) 0 demo_ap \<lparr>plat = 0, calls = []\<rparr>
      = Some (ret, cb', obj', e') \<and> ap_good obj' \<and> ap_enabled obj'"
  using ap_mode_ctl_safe[of demo_ap "WMG_AP_CMD_ENABLE None" 0 "\<lparr>plat = 0, calls = []\<rparr>"]
  by (auto simp: ap_good_def demo_ap_defs)

theorem ap_get_mac_sets_mac_witness:
  "ap_mode_ctl (WMG_AP_CMD_GET_MAC (''wlan1'', Some 5)) 0 demo_ap \<lparr>plat = 0, calls = []\<rparr> =
   ap_mode_ctl (WMG_AP_CMD_SET_MAC (''wlan1'', Some 5)) 0 demo_ap \<lparr>plat = 0, calls = []\<rparr>"
  using ap_get_mac_sets_mac[of demo_ap demo_hapd "(''wlan1'', Some 5)" 0 "\<lparr>plat = 0, calls = []\<rparr>"]
  by (simp add: demo_ap_def)

theorem ap_state_survives_deinit_witness:
  "\<exists>obj1 e1 obj2 e2. ap_mode_disable demo_ap \<lparr>plat = 0, calls = []\<rparr> = Some (0, obj1, e1) \<and>
     ap_mode_deinit obj1 e1 = Some (0, obj2, e2) \<and> \<not> ap_enabled obj2 \<and> ap_state obj2 = WIFI_AP_ENABLE"
proof -
  obtain obj1 e1 where d: "ap_mode_disable demo_ap \<lparr>plat = 0, calls = []\<rparr> = Some (0, obj1, e1)"
      "ap_good obj1"
    using ap_mode.disable_good[of demo_ap "\<lparr>plat = 0, calls = []\<rparr>"] by (auto simp: ap_good_def demo_ap_defs)
  obtain obj2 e2 where i: "ap_mode_deinit obj1 e1 = Some (0, obj2, e2)"
    using ap_mode.deinit_good[OF d(2), of e1] by auto
  show ?thesis
    using ap_state_survives_deinit[OF _ _ _ _ d(1) i] d i by (auto simp: demo_ap_defs)
qed

end
