(* ===== verification/Wmg_Monitor.thy ===== *)
theory Wmg_Monitor
  imports Wmg_Types
begin

text \<open>
  The monitor mode object of \<open>wmg_monitor.c\<close>, over the interface that \<open>linux_nl.c\<close> provides. A
  platform function gives its result and the frames it handed to \<open>monitor_nl_data_notify\<close>
  while it ran.
\<close>

section \<open>State\<close>

datatype nl_request = NL_CMD_SET_MAC mac_para | NL_CMD_GET_MAC mac_para

record 'p mon_inf =
  monitor_nl_init :: "('p \<Rightarrow> int \<times> 'p) option"
  monitor_nl_deinit :: "('p \<Rightarrow> wifi_monitor_data list \<times> 'p) option"
  monitor_nl_enable :: "8 word \<Rightarrow> 'p \<Rightarrow> int \<times> wifi_monitor_data list \<times> 'p"
  monitor_nl_disable :: "'p \<Rightarrow> int \<times> wifi_monitor_data list \<times> 'p"
  monitor_nl_connect :: "'p \<Rightarrow> int \<times> wifi_monitor_data list \<times> 'p"
  monitor_nl_set_channel :: "8 word \<Rightarrow> 'p \<Rightarrow> int \<times> wifi_monitor_data list \<times> 'p"
  monitor_platform_extension :: "nl_request \<Rightarrow> 'p \<Rightarrow> int \<times> wifi_monitor_data list \<times> 'p"

record 'p wmg_monitor_object =
  monitor_init_flag :: bool
  monitor_enabled :: bool
  nl_run :: bool
  monitor_state :: wifi_monitor_state
  pkt_cnt :: "64 word"
  monitor_msg_cb :: "msg_cb option"
  monitor_platform_inf :: "'p mon_inf option"

definition monitor_object_static :: "'p wmg_monitor_object" where
  "monitor_object_static = \<lparr>monitor_init_flag = False, monitor_enabled = False, nl_run = False,
     monitor_state = WIFI_MONITOR_DISABLE, pkt_cnt = 0, monitor_msg_cb = None,
     monitor_platform_inf = None\<rparr>"

datatype monitor_cmd =
  WMG_MONITOR_CMD_ENABLE "8 word" | WMG_MONITOR_CMD_SET_CHANNEL "8 word" | WMG_MONITOR_CMD_DISABLE
| WMG_MONITOR_CMD_REGISTER_MSG_CB "msg_cb option" | WMG_MONITOR_CMD_SET_MAC mac_para
| WMG_MONITOR_CMD_GET_MAC mac_para | WMG_MONITOR_CMD_OTHER

section \<open>Frames\<close>

definition monitor_nl_data_notify ::
    "wifi_monitor_data \<Rightarrow> 'p wmg_monitor_object \<times> 'p env \<Rightarrow> 'p wmg_monitor_object \<times> 'p env" where
  "monitor_nl_data_notify frame = (\<lambda>(obj, e).
     (obj\<lparr>pkt_cnt := pkt_cnt obj + 1\<rparr>, invoke_cb (monitor_msg_cb obj) (Msg_Monitor_Frame frame) e))"

definition monitor_frames ::
    "wifi_monitor_data list \<Rightarrow> 'p wmg_monitor_object \<times> 'p env \<Rightarrow> 'p wmg_monitor_object \<times> 'p env" where
  "monitor_frames fs oe = fold monitor_nl_data_notify fs oe"

definition monitor_plat ::
    "('p \<Rightarrow> 'r \<times> wifi_monitor_data list \<times> 'p) \<Rightarrow> 'p wmg_monitor_object \<Rightarrow> 'p env
      \<Rightarrow> 'r \<times> 'p wmg_monitor_object \<times> 'p env" where
  "monitor_plat f obj e =
     (let (r, fs, p) = f (plat e); (obj, e) = monitor_frames fs (obj, e\<lparr>plat := p\<rparr>) in (r, obj, e))"

section \<open>Commands\<close>

definition monitor_enable :: "8 word \<Rightarrow> ('p wmg_monitor_object, 'p) handler" where
  "monitor_enable channel cb obj e =
     (if \<not> monitor_init_flag obj then both WMG_STATUS_FAIL obj e
      else if \<not> nl_run obj then both WMG_STATUS_FAIL obj e
      else if monitor_state obj = WIFI_MONITOR_ENABLE then both WMG_STATUS_SUCCESS obj e
      else do {
        nl \<leftarrow> monitor_platform_inf obj;
        let (ret, obj, e) = monitor_plat (monitor_nl_enable nl channel) obj e;
        if c_true ret then both WMG_STATUS_FAIL obj e
        else
          let obj = obj\<lparr>monitor_state := WIFI_MONITOR_ENABLE\<rparr>
          in both ret obj (invoke_cb (monitor_msg_cb obj) (Msg_Monitor_State WIFI_MONITOR_ENABLE) e)
      })"

definition monitor_set_channel :: "8 word \<Rightarrow> ('p wmg_monitor_object, 'p) handler" where
  "monitor_set_channel channel cb obj e =
     (if \<not> monitor_init_flag obj then both WMG_STATUS_FAIL obj e
      else if \<not> nl_run obj then both WMG_STATUS_FAIL obj e
      else if monitor_state obj \<noteq> WIFI_MONITOR_ENABLE then both WMG_STATUS_FAIL obj e
      else do {
        nl \<leftarrow> monitor_platform_inf obj;
        let (ret, obj, e) = monitor_plat (monitor_nl_set_channel nl channel) obj e;
        both (if c_true ret then WMG_STATUS_FAIL else ret) obj e
      })"

definition monitor_disable :: "('p wmg_monitor_object, 'p) handler" where
  "monitor_disable cb obj e =
     (if \<not> monitor_init_flag obj then both WMG_STATUS_UNHANDLED obj e
      else if monitor_state obj = WIFI_MONITOR_DISABLE then both WMG_STATUS_SUCCESS obj e
      else do {
        nl \<leftarrow> monitor_platform_inf obj;
        let (ret, obj, e) = monitor_plat (monitor_nl_disable nl) obj e;
        let obj = obj\<lparr>monitor_state := WIFI_MONITOR_DISABLE\<rparr>;
        both ret obj (invoke_cb (monitor_msg_cb obj) (Msg_Monitor_State WIFI_MONITOR_DISABLE) e)
      })"

definition monitor_register_msg_cb :: "msg_cb option \<Rightarrow> ('p wmg_monitor_object, 'p) handler" where
  "monitor_register_msg_cb msg_cb cb obj e =
     (if \<not> monitor_init_flag obj then Some (WMG_STATUS_FAIL, cb, obj, e)
      else if msg_cb = None then both WMG_STATUS_UNHANDLED obj e
      else both WMG_STATUS_SUCCESS (obj\<lparr>monitor_msg_cb := msg_cb\<rparr>) e)"

definition monitor_forward :: "nl_request \<Rightarrow> 'p wmg_monitor_object \<Rightarrow> 'p env
    \<Rightarrow> (int \<times> int \<times> 'p wmg_monitor_object \<times> 'p env) option" where
  "monitor_forward req obj e =
     do {
       nl \<leftarrow> monitor_platform_inf obj;
       let (ret, obj, e) = monitor_plat (monitor_platform_extension nl req) obj e;
       both ret obj e
     }"

definition monitor_set_mac :: "mac_para \<Rightarrow> ('p wmg_monitor_object, 'p) handler" where
  "monitor_set_mac para cb obj e =
     (if \<not> monitor_init_flag obj then Some (WMG_FALSE, cb, obj, e)
      else monitor_forward (NL_CMD_SET_MAC para) obj e)"

definition monitor_get_mac :: "mac_para \<Rightarrow> ('p wmg_monitor_object, 'p) handler" where
  "monitor_get_mac para cb obj e =
     (if \<not> monitor_init_flag obj then Some (WMG_FALSE, cb, obj, e)
      else monitor_forward (NL_CMD_GET_MAC para) obj e)"

section \<open>Mode operations\<close>

definition monitor_mode_init ::
    "'p mon_inf \<Rightarrow> 'p wmg_monitor_object \<Rightarrow> 'p env \<Rightarrow> int \<times> 'p wmg_monitor_object \<times> 'p env" where
  "monitor_mode_init nl obj e =
     (if \<not> monitor_init_flag obj
      then
        let obj = obj\<lparr>monitor_platform_inf := Some nl\<rparr>
        in (case monitor_nl_init nl of
              None \<Rightarrow> (WMG_STATUS_SUCCESS, obj\<lparr>monitor_init_flag := True\<rparr>, e)
            | Some f \<Rightarrow>
                let (ret, p) = f (plat e); e = e\<lparr>plat := p\<rparr>
                in if c_true ret then (WMG_STATUS_FAIL, obj, e)
                   else (WMG_STATUS_SUCCESS, obj\<lparr>monitor_init_flag := True\<rparr>, e))
      else (WMG_STATUS_SUCCESS, obj, e))"

definition monitor_mode_deinit ::
    "'p wmg_monitor_object \<Rightarrow> 'p env \<Rightarrow> (int \<times> 'p wmg_monitor_object \<times> 'p env) option" where
  "monitor_mode_deinit obj e =
     (if monitor_init_flag obj then do {
        nl \<leftarrow> monitor_platform_inf obj;
        let (_, obj, e) = (case monitor_nl_deinit nl of
                             None \<Rightarrow> ((), obj, e)
                           | Some f \<Rightarrow> monitor_plat (\<lambda>p. ((), f p)) obj e);
        Some (WMG_STATUS_SUCCESS,
          obj\<lparr>monitor_init_flag := False, monitor_msg_cb := None, pkt_cnt := 0\<rparr>, e)
      } else Some (WMG_STATUS_SUCCESS, obj, e))"

definition monitor_mode_enable ::
    "'p wmg_monitor_object \<Rightarrow> 'p env \<Rightarrow> (int \<times> 'p wmg_monitor_object \<times> 'p env) option" where
  "monitor_mode_enable obj e =
     (if \<not> monitor_init_flag obj then Some (WMG_STATUS_FAIL, obj, e)
      else if monitor_enabled obj then Some (WMG_STATUS_SUCCESS, obj, e)
      else do {
        nl \<leftarrow> monitor_platform_inf obj;
        let (ret, obj, e) = monitor_plat (monitor_nl_connect nl) obj e;
        if c_true ret then Some (WMG_STATUS_FAIL, obj, e)
        else Some (ret, obj\<lparr>nl_run := True, monitor_enabled := True\<rparr>, e)
      })"

definition monitor_mode_disable ::
    "'p wmg_monitor_object \<Rightarrow> 'p env \<Rightarrow> (int \<times> 'p wmg_monitor_object \<times> 'p env) option" where
  "monitor_mode_disable obj e =
     (if \<not> monitor_init_flag obj then Some (WMG_STATUS_SUCCESS, obj, e)
      else if \<not> monitor_enabled obj then Some (WMG_STATUS_SUCCESS, obj, e)
      else do {
        nl \<leftarrow> monitor_platform_inf obj;
        let (_, obj, e) = monitor_plat (monitor_nl_disable nl) obj e;
        Some (WMG_STATUS_SUCCESS, obj\<lparr>monitor_enabled := False, nl_run := False\<rparr>, e)
      })"

fun monitor_dispatch :: "monitor_cmd \<Rightarrow> ('p wmg_monitor_object, 'p) handler" where
  "monitor_dispatch (WMG_MONITOR_CMD_ENABLE c) cb obj e = ctl_case (monitor_enable c cb obj e)"
| "monitor_dispatch (WMG_MONITOR_CMD_SET_CHANNEL c) cb obj e = ctl_case (monitor_set_channel c cb obj e)"
| "monitor_dispatch WMG_MONITOR_CMD_DISABLE cb obj e = ctl_case (monitor_disable cb obj e)"
| "monitor_dispatch (WMG_MONITOR_CMD_REGISTER_MSG_CB f) cb obj e = ctl_case (monitor_register_msg_cb f cb obj e)"
| "monitor_dispatch (WMG_MONITOR_CMD_SET_MAC m) cb obj e = ctl_case (monitor_set_mac m cb obj e)"
| "monitor_dispatch (WMG_MONITOR_CMD_GET_MAC m) cb obj e = ctl_case (monitor_get_mac m cb obj e)"
| "monitor_dispatch WMG_MONITOR_CMD_OTHER cb obj e = Some (WMG_STATUS_FAIL, cb, obj, e)"

definition monitor_mode_ctl :: "monitor_cmd \<Rightarrow> ('p wmg_monitor_object, 'p) handler" where
  "monitor_mode_ctl cmd cb obj e =
     (if \<not> monitor_init_flag obj then Some (WMG_STATUS_FAIL, cb, obj, e)
      else if \<not> monitor_enabled obj then Some (WMG_STATUS_SUCCESS, cb, obj, e)
      else monitor_dispatch cmd cb obj e)"

section \<open>The contract\<close>

text \<open>Frames touch the packet counter and nothing else of the object.\<close>

lemma monitor_frames_obj: "fst (monitor_frames fs oe) = (fst oe)\<lparr>pkt_cnt := pkt_cnt (fst oe) + of_nat (length fs)\<rparr>"
proof (induction fs arbitrary: oe)
  case Nil
  then show ?case by (simp add: monitor_frames_def)
next
  case (Cons f fs)
  then show ?case
    by (cases oe) (simp add: monitor_frames_def monitor_nl_data_notify_def algebra_simps)
qed

lemma monitor_plat_obj:
  assumes "monitor_plat f obj e = (r, obj', e')"
  shows "\<exists>n. obj' = obj\<lparr>pkt_cnt := n\<rparr>"
proof -
  obtain r0 fs p where "f (plat e) = (r0, fs, p)" using prod_cases3 by blast
  then have "obj' = fst (monitor_frames fs (obj, e\<lparr>plat := p\<rparr>))"
    using assms by (simp add: monitor_plat_def split: prod.splits)
  then have "obj' = obj\<lparr>pkt_cnt := pkt_cnt obj + of_nat (length fs)\<rparr>"
    using monitor_frames_obj[of fs "(obj, e\<lparr>plat := p\<rparr>)"] by simp
  then show ?thesis by blast
qed

lemma monitor_plat_frame [frame]:
  assumes "monitor_plat f obj e = (r, obj', e')"
  shows "monitor_init_flag obj' = monitor_init_flag obj" "monitor_enabled obj' = monitor_enabled obj"
    "nl_run obj' = nl_run obj" "monitor_state obj' = monitor_state obj"
    "monitor_msg_cb obj' = monitor_msg_cb obj" "monitor_platform_inf obj' = monitor_platform_inf obj"
  using monitor_plat_obj[OF assms] by auto

definition monitor_good :: "'p wmg_monitor_object \<Rightarrow> bool" where
  "monitor_good obj \<longleftrightarrow> (monitor_init_flag obj \<longrightarrow> monitor_platform_inf obj \<noteq> None)"

interpretation monitor_mode: mode_object monitor_good monitor_init_flag monitor_enabled
    "monitor_mode_init nl" monitor_mode_deinit monitor_mode_enable monitor_mode_disable for nl :: "'p mon_inf"
proof unfold_locales
  fix s s' :: "'p wmg_monitor_object" and e e' ret
  assume "monitor_good s" "monitor_mode_init nl s e = (ret, s', e')"
  then show "monitor_good s' \<and> monitor_enabled s' = monitor_enabled s \<and>
      (ret = 0 \<longleftrightarrow> monitor_init_flag s') \<and> (ret = 0 \<or> ret = - 1)"
    by (auto simp: monitor_mode_init_def monitor_good_def Let_def split: option.splits prod.splits if_splits)
next
  fix s :: "'p wmg_monitor_object" and e
  assume "monitor_good s"
  then show "\<exists>s' e'. monitor_mode_deinit s e = Some (0, s', e') \<and> monitor_good s' \<and>
      \<not> monitor_init_flag s' \<and> monitor_enabled s' = monitor_enabled s"
    by (auto simp: monitor_mode_deinit_def monitor_good_def frame split: option.splits prod.splits)
next
  fix s :: "'p wmg_monitor_object" and e
  assume "monitor_good s"
  then show "\<exists>ret s' e'. monitor_mode_enable s e = Some (ret, s', e') \<and> monitor_good s' \<and>
      monitor_init_flag s' = monitor_init_flag s \<and> (ret = 0 \<or> ret = - 1) \<and>
      (ret = 0 \<longrightarrow> monitor_init_flag s \<and> monitor_enabled s') \<and>
      (ret \<noteq> 0 \<longrightarrow> \<not> (monitor_init_flag s \<and> monitor_enabled s)) \<and>
      (ret \<noteq> 0 \<longrightarrow> monitor_enabled s' = monitor_enabled s)"
    by (auto simp: monitor_mode_enable_def monitor_good_def frame c_true_def split: prod.splits)
next
  fix s :: "'p wmg_monitor_object" and e
  assume "monitor_good s"
  then show "\<exists>s' e'. monitor_mode_disable s e = Some (0, s', e') \<and> monitor_good s' \<and>
      monitor_init_flag s' = monitor_init_flag s \<and>
      monitor_enabled s' = (monitor_enabled s \<and> \<not> monitor_init_flag s)"
    by (auto simp: monitor_mode_disable_def monitor_good_def frame split: prod.splits)
qed

text \<open>What a command keeps: it ends, with success or \<open>WMG_STATUS_FAIL\<close>, on the same set-up.\<close>

definition monitor_kept ::
    "'p wmg_monitor_object \<Rightarrow> (int \<times> int \<times> 'p wmg_monitor_object \<times> 'p env) option \<Rightarrow> bool" where
  "monitor_kept obj r \<longleftrightarrow> (\<exists>ret cb obj' e'. r = Some (ret, cb, obj', e') \<and> (ret = 0 \<or> ret = - 1) \<and>
     monitor_init_flag obj' = monitor_init_flag obj \<and> monitor_enabled obj' = monitor_enabled obj \<and>
     monitor_platform_inf obj' = monitor_platform_inf obj)"

lemma monitor_kept_simps [simp]:
  "monitor_kept obj (ctl_case (both ret obj' e')) \<longleftrightarrow> monitor_init_flag obj' = monitor_init_flag obj \<and>
     monitor_enabled obj' = monitor_enabled obj \<and> monitor_platform_inf obj' = monitor_platform_inf obj"
  "monitor_kept obj (ctl_case (Some (ret, cb, obj', e'))) \<longleftrightarrow>
     monitor_init_flag obj' = monitor_init_flag obj \<and>
     monitor_enabled obj' = monitor_enabled obj \<and> monitor_platform_inf obj' = monitor_platform_inf obj"
  by (auto simp: monitor_kept_def ctl_case_def both_def)

lemma monitor_dispatch_kept [no_ub]:
  "monitor_platform_inf obj = Some nl \<Longrightarrow> monitor_kept obj (monitor_dispatch cmd cb obj e)"
  by (cases cmd)
    (auto simp: monitor_enable_def monitor_disable_def monitor_set_channel_def monitor_register_msg_cb_def
      monitor_forward_def monitor_set_mac_def monitor_get_mac_def Let_def frame split: prod.split,
     auto simp: monitor_kept_def)

section \<open>Properties\<close>

lemma monitor_ctl_kept:
  assumes "monitor_good obj"
  shows "\<exists>ret cb' obj' e'. monitor_mode_ctl cmd cb obj e = Some (ret, cb', obj', e') \<and>
    (ret = WMG_STATUS_SUCCESS \<or> ret = WMG_STATUS_FAIL) \<and> monitor_good obj' \<and>
    monitor_init_flag obj' = monitor_init_flag obj \<and> monitor_enabled obj' = monitor_enabled obj"
proof (cases "monitor_init_flag obj \<and> monitor_enabled obj")
  case True
  then obtain nl where "monitor_platform_inf obj = Some nl" using assms by (auto simp: monitor_good_def)
  from monitor_dispatch_kept[OF this, of cmd cb e] True assms show ?thesis
    by (auto simp: monitor_mode_ctl_def monitor_kept_def monitor_good_def)
next
  case False
  then show ?thesis using assms by (auto simp: monitor_mode_ctl_def)
qed

text \<open>
  No command that reaches the monitor object dereferences a NULL pointer: on an object
  that has its platform interface every command ends, with success or \<open>WMG_STATUS_FAIL\<close>, and
  keeps the object initialised and enabled as it was.
\<close>

theorem monitor_mode_ctl_safe:
  assumes "monitor_good obj"
  shows "\<exists>ret cb' obj' e'. monitor_mode_ctl cmd cb obj e = Some (ret, cb', obj', e') \<and>
    (ret = WMG_STATUS_SUCCESS \<or> ret = WMG_STATUS_FAIL) \<and> monitor_good obj' \<and>
    monitor_init_flag obj' = monitor_init_flag obj \<and> monitor_enabled obj' = monitor_enabled obj"
  using assms by (rule monitor_ctl_kept)

text \<open>
  Leaving the monitor mode does not reset its state: after a capture, a switch away and
  back, the request to start a capture again reports success without asking the driver, and
  nothing is captured.
\<close>

theorem monitor_reenable_is_skipped:
  assumes "monitor_init_flag obj" "monitor_enabled obj" "monitor_state obj = WIFI_MONITOR_ENABLE"
    and "monitor_mode_disable obj e = Some (r1, obj1, e1)"
    and "monitor_mode_enable obj1 e1 = Some (WMG_STATUS_SUCCESS, obj2, e2)"
  shows "monitor_mode_ctl (WMG_MONITOR_CMD_ENABLE ch) cb obj2 e2 =
    Some (WMG_STATUS_SUCCESS, WMG_STATUS_SUCCESS, obj2, e2)"
proof -
  obtain nl where nl: "monitor_platform_inf obj = Some nl"
    using assms(1,2,4) by (auto simp: monitor_mode_disable_def split: Option.bind_splits)
  obtain r o1 where p: "monitor_plat (monitor_nl_disable nl) obj e = (r, o1, e1)"
      "obj1 = o1\<lparr>monitor_enabled := False, nl_run := False\<rparr>"
    using assms(1,2,4) nl by (auto simp: monitor_mode_disable_def split: prod.splits)
  then have o1: "monitor_init_flag obj1" "\<not> monitor_enabled obj1" "monitor_state obj1 = WIFI_MONITOR_ENABLE"
      "monitor_platform_inf obj1 = Some nl"
    using monitor_plat_frame[OF p(1)] assms nl by simp_all
  obtain o2 where q: "monitor_plat (monitor_nl_connect nl) obj1 e1 = (0, o2, e2)"
      "obj2 = o2\<lparr>nl_run := True, monitor_enabled := True\<rparr>"
    using assms(5) o1 by (auto simp: monitor_mode_enable_def c_true_def split: prod.splits if_splits)
  then show ?thesis
    using monitor_plat_frame[OF q(1)] o1
    by (simp add: monitor_mode_ctl_def monitor_enable_def ctl_case_def both_def)
qed

text \<open>
  A capture that starts or stops is announced to the application with the same message
  id as a received frame, although the union then holds a state and not a frame pointer: the
  callback cannot tell them apart.
\<close>

theorem monitor_state_message_id:
  assumes "monitor_init_flag obj" "monitor_enabled obj" "nl_run obj" "monitor_state obj = WIFI_MONITOR_DISABLE"
    and "monitor_platform_inf obj = Some nl" "monitor_msg_cb obj = Some f"
    and "monitor_nl_enable nl ch (plat e) = (0, [frame], p)"
  shows "\<exists>obj' e'. monitor_mode_ctl (WMG_MONITOR_CMD_ENABLE ch) cb obj e = Some (0, 0, obj', e') \<and>
    calls e' = calls e @ [(f, Msg_Monitor_Frame frame), (f, Msg_Monitor_State WIFI_MONITOR_ENABLE)] \<and>
    msg_id_of (Msg_Monitor_Frame frame) = msg_id_of (Msg_Monitor_State WIFI_MONITOR_ENABLE)"
  using assms
  by (simp add: monitor_mode_ctl_def monitor_enable_def monitor_plat_def monitor_frames_def
      monitor_nl_data_notify_def invoke_cb_def ctl_case_def both_def Let_def)

definition demo_nl :: "nat mon_inf" where
  "demo_nl = \<lparr>monitor_nl_init = Some (\<lambda>n. (0, Suc n)), monitor_nl_deinit = Some (\<lambda>n. ([], Suc n)),
     monitor_nl_enable = (\<lambda>_ n. (0, [\<lparr>frame_data = [8], frame_channel = 6\<rparr>], Suc n)),
     monitor_nl_disable = (\<lambda>n. (0, [], Suc n)), monitor_nl_connect = (\<lambda>n. (0, [], Suc n)),
     monitor_nl_set_channel = (\<lambda>_ n. (0, [], Suc n)),
     monitor_platform_extension = (\<lambda>_ n. (0, [], Suc n))\<rparr>"

definition demo_monitor :: "nat wmg_monitor_object" where
  "demo_monitor = monitor_object_static\<lparr>monitor_init_flag := True, monitor_enabled := True, nl_run := True,
     monitor_msg_cb := Some 7, monitor_platform_inf := Some demo_nl\<rparr>"

lemmas demo_monitor_defs = demo_monitor_def monitor_object_static_def demo_nl_def

theorem monitor_mode_ctl_safe_witness:
  "\<exists>ret cb' obj' e'. monitor_mode_ctl (WMG_MONITOR_CMD_SET_CHANNEL 6) 0 demo_monitor \<lparr>plat = 0, calls = []\<rparr>
      = Some (ret, cb', obj', e') \<and> monitor_good obj' \<and> monitor_enabled obj'"
  using monitor_mode_ctl_safe[of demo_monitor "WMG_MONITOR_CMD_SET_CHANNEL 6" 0 "\<lparr>plat = 0, calls = []\<rparr>"]
  by (auto simp: monitor_good_def demo_monitor_defs)

theorem monitor_reenable_is_skipped_witness:
  "\<exists>obj1 e1 obj2 e2.
     monitor_mode_disable (demo_monitor\<lparr>monitor_state := WIFI_MONITOR_ENABLE\<rparr>) \<lparr>plat = 0, calls = []\<rparr>
       = Some (0, obj1, e1) \<and> monitor_mode_enable obj1 e1 = Some (0, obj2, e2) \<and>
     monitor_mode_ctl (WMG_MONITOR_CMD_ENABLE 6) (- 1) obj2 e2 = Some (0, 0, obj2, e2)"
proof -
  obtain obj1 e1 obj2 e2 where
    d: "monitor_mode_disable (demo_monitor\<lparr>monitor_state := WIFI_MONITOR_ENABLE\<rparr>) \<lparr>plat = 0, calls = []\<rparr>
          = Some (0, obj1, e1)" and i: "monitor_mode_enable obj1 e1 = Some (0, obj2, e2)"
    by (simp add: monitor_mode_disable_def monitor_mode_enable_def demo_monitor_defs monitor_plat_def monitor_frames_def)
  show ?thesis
    using monitor_reenable_is_skipped[OF _ _ _ d i, of 6 "- 1"] d i by (auto simp: demo_monitor_defs)
qed

theorem monitor_state_message_id_witness:
  "\<exists>obj' e'. monitor_mode_ctl (WMG_MONITOR_CMD_ENABLE 6) 0 demo_monitor \<lparr>plat = 0, calls = []\<rparr> = Some (0, 0, obj', e') \<and>
     calls e' = [(7, Msg_Monitor_Frame \<lparr>frame_data = [8], frame_channel = 6\<rparr>),
                 (7, Msg_Monitor_State WIFI_MONITOR_ENABLE)]"
  using monitor_state_message_id[of demo_monitor demo_nl 7 6 "\<lparr>plat = 0, calls = []\<rparr>"
      "\<lparr>frame_data = [8], frame_channel = 6\<rparr>" 1 0]
  by (simp add: demo_monitor_defs)

end
