(* ===== verification/Wmg_Common.thy ===== *)
theory Wmg_Common
  imports Wmg_Sta Wmg_Ap Wmg_Monitor
begin

text \<open>
  The manager of \<open>wmg_common.c\<close>: the object \<open>wifimg_object\<close> with its four mode slots, starting
  and stopping it, switching between modes, and passing commands to the mode in force. The
  three mode objects are static variables: the slots refer to them. The linker decides which
  of them exist (their register functions are weak), and the linkd protocol and the platform
  interfaces come from other files: they are fields of the world that no operation changes.
\<close>

section \<open>State\<close>

datatype mode_ref = Sta_Object | Ap_Object | Monitor_Object

abbreviation "STA_MODE_NUM \<equiv> 0 :: nat"
abbreviation "AP_MODE_NUM \<equiv> 1 :: nat"
abbreviation "MONITOR_MODE_NUM \<equiv> 2 :: nat"
abbreviation "P2P_MODE_NUM \<equiv> 3 :: nat"

record wifimg_object =
  init_flag :: bool
  wifi_status :: wifi_dev_status
  current_mode_bitmap :: "8 word"
  support_mode_bitmap :: "8 word"
  mutex_locked :: bool
  connect_timeout :: int
  mode_slot :: "nat \<Rightarrow> mode_ref option"
  wmg_msg_cb :: "msg_cb option"

definition wifimg_object_static :: wifimg_object where
  "wifimg_object_static = \<lparr>init_flag = False, wifi_status = WLAN_STATUS_DOWN,
     current_mode_bitmap = UNK_BITMAP, support_mode_bitmap = UNK_BITMAP, mutex_locked = False,
     connect_timeout = 0, mode_slot = (\<lambda>_. None), wmg_msg_cb = None\<rparr>"

record 'p world =
  img :: wifimg_object
  sta_obj :: "'p wmg_sta_object"
  ap_obj :: "'p wmg_ap_object"
  mon_obj :: "'p wmg_monitor_object"
  wenv :: "'p env"
  cb_status :: int
  stack_bytes :: string
  linked :: "mode_ref \<Rightarrow> bool"
  sta_inf_object :: "'p sta_inf"
  ap_inf_object :: "'p ap_inf"
  mon_inf_object :: "'p mon_inf"
  wmg_linkd_protocol :: "wifi_linkd_mode \<Rightarrow> wifi_ap_config option \<Rightarrow> int \<Rightarrow> buf option \<Rightarrow> 'p \<Rightarrow> (int \<times> 'p) option"

section \<open>The mode objects behind their references\<close>

definition wmg_register_object :: "mode_ref \<Rightarrow> 'p world \<Rightarrow> mode_ref option" where
  "wmg_register_object m w = (if linked w m then Some m else None)"

fun mode_init :: "mode_ref \<Rightarrow> 'p world \<Rightarrow> int \<times> 'p world" where
  "mode_init Sta_Object w =
     (let (r, s, e) = sta_mode_init (sta_inf_object w) (sta_obj w) (wenv w) in (r, w\<lparr>sta_obj := s, wenv := e\<rparr>))"
| "mode_init Ap_Object w =
     (let (r, s, e) = ap_mode_init (ap_inf_object w) (ap_obj w) (wenv w) in (r, w\<lparr>ap_obj := s, wenv := e\<rparr>))"
| "mode_init Monitor_Object w =
     (let (r, s, e) = monitor_mode_init (mon_inf_object w) (mon_obj w) (wenv w) in (r, w\<lparr>mon_obj := s, wenv := e\<rparr>))"

fun mode_deinit :: "mode_ref \<Rightarrow> 'p world \<Rightarrow> (int \<times> 'p world) option" where
  "mode_deinit Sta_Object w =
     map_option (\<lambda>(r, s, e). (r, w\<lparr>sta_obj := s, wenv := e\<rparr>)) (sta_mode_deinit (sta_obj w) (wenv w))"
| "mode_deinit Ap_Object w =
     map_option (\<lambda>(r, s, e). (r, w\<lparr>ap_obj := s, wenv := e\<rparr>)) (ap_mode_deinit (ap_obj w) (wenv w))"
| "mode_deinit Monitor_Object w =
     map_option (\<lambda>(r, s, e). (r, w\<lparr>mon_obj := s, wenv := e\<rparr>)) (monitor_mode_deinit (mon_obj w) (wenv w))"

fun mode_enable :: "mode_ref \<Rightarrow> 'p world \<Rightarrow> (int \<times> 'p world) option" where
  "mode_enable Sta_Object w =
     map_option (\<lambda>(r, s, e). (r, w\<lparr>sta_obj := s, wenv := e\<rparr>)) (sta_mode_enable (sta_obj w) (wenv w))"
| "mode_enable Ap_Object w =
     map_option (\<lambda>(r, s, e). (r, w\<lparr>ap_obj := s, wenv := e\<rparr>)) (ap_mode_enable (ap_obj w) (wenv w))"
| "mode_enable Monitor_Object w =
     map_option (\<lambda>(r, s, e). (r, w\<lparr>mon_obj := s, wenv := e\<rparr>)) (monitor_mode_enable (mon_obj w) (wenv w))"

fun mode_disable :: "mode_ref \<Rightarrow> 'p world \<Rightarrow> (int \<times> 'p world) option" where
  "mode_disable Sta_Object w =
     map_option (\<lambda>(r, s, e). (r, w\<lparr>sta_obj := s, wenv := e\<rparr>)) (sta_mode_disable (sta_obj w) (wenv w))"
| "mode_disable Ap_Object w =
     map_option (\<lambda>(r, s, e). (r, w\<lparr>ap_obj := s, wenv := e\<rparr>)) (ap_mode_disable (ap_obj w) (wenv w))"
| "mode_disable Monitor_Object w =
     map_option (\<lambda>(r, s, e). (r, w\<lparr>mon_obj := s, wenv := e\<rparr>)) (monitor_mode_disable (mon_obj w) (wenv w))"

text \<open>A command with its typed parameter; one given to the wrong object is undefined.\<close>

datatype mode_cmd = Sta_Cmd sta_cmd | Ap_Cmd ap_cmd | Monitor_Cmd monitor_cmd

fun mode_ctl :: "mode_ref \<Rightarrow> mode_cmd \<Rightarrow> int \<Rightarrow> 'p world \<Rightarrow> (int \<times> int \<times> 'p world) option" where
  "mode_ctl Sta_Object (Sta_Cmd c) cb w =
     map_option (\<lambda>(r, cb, s, e). (r, cb, w\<lparr>sta_obj := s, wenv := e\<rparr>)) (sta_mode_ctl c cb (sta_obj w) (wenv w))"
| "mode_ctl Ap_Object (Ap_Cmd c) cb w =
     map_option (\<lambda>(r, cb, s, e). (r, cb, w\<lparr>ap_obj := s, wenv := e\<rparr>)) (ap_mode_ctl c cb (ap_obj w) (wenv w))"
| "mode_ctl Monitor_Object (Monitor_Cmd c) cb w =
     map_option (\<lambda>(r, cb, s, e). (r, cb, w\<lparr>mon_obj := s, wenv := e\<rparr>)) (monitor_mode_ctl c cb (mon_obj w) (wenv w))"
| "mode_ctl _ _ cb w = None"

abbreviation upd_img :: "(wifimg_object \<Rightarrow> wifimg_object) \<Rightarrow> 'p world \<Rightarrow> 'p world" where
  "upd_img f w \<equiv> w\<lparr>img := f (img w)\<rparr>"

section \<open>Start, stop and switch\<close>

text \<open>One of the three blocks of \<open>wifimg_init\<close>; \<open>False\<close> is the early return.\<close>

definition register_mode :: "nat \<Rightarrow> mode_ref \<Rightarrow> 8 word \<Rightarrow> 'p world \<Rightarrow> bool \<times> 'p world" where
  "register_mode n m bm w =
     (let slot = wmg_register_object m w;
          w = upd_img (\<lambda>i. i\<lparr>mode_slot := (mode_slot i)(n := slot)\<rparr>) w
      in (case slot of
            None \<Rightarrow> (True, w)
          | Some m \<Rightarrow>
              let (ret, w) = mode_init m w
              in if c_true ret then (False, w)
                 else (True, upd_img (\<lambda>i. i\<lparr>support_mode_bitmap := support_mode_bitmap i OR bm\<rparr>) w)))"

definition wifimg_init :: "'p world \<Rightarrow> int \<times> 'p world" where
  "wifimg_init w =
     (if \<not> init_flag (img w)
      then
        let w = upd_img (\<lambda>i. i\<lparr>mutex_locked := False, mode_slot := (mode_slot i)(STA_MODE_NUM := None,
                  AP_MODE_NUM := None, MONITOR_MODE_NUM := None, P2P_MODE_NUM := None)\<rparr>) w;
            (ok, w) = register_mode STA_MODE_NUM Sta_Object STA_BITMAP w
        in if \<not> ok then (WMG_STATUS_FAIL, w)
           else let (ok, w) = register_mode AP_MODE_NUM Ap_Object AP_BITMAP w
             in if \<not> ok then (WMG_STATUS_FAIL, w)
                else let (ok, w) = register_mode MONITOR_MODE_NUM Monitor_Object MONITOR_BITMAP w
                  in if \<not> ok then (WMG_STATUS_FAIL, w)
                     else (WMG_STATUS_SUCCESS, upd_img (\<lambda>i. i\<lparr>init_flag := True\<rparr>) w)
      else (WMG_STATUS_SUCCESS, w))"

text \<open>
  Disabling and enabling the mode in slot \<open>n\<close>. The code clears a bit with \<open>&= (!BIT)\<close>: the
  operator is the logical negation, whose value is 0 for every bm.
\<close>

definition leave_mode :: "nat \<Rightarrow> 8 word \<Rightarrow> 'p world \<Rightarrow> (bool \<times> 'p world) option" where
  "leave_mode n bm w =
     do {
       m \<leftarrow> mode_slot (img w) n;
       (ret, w) \<leftarrow> mode_disable m w;
       if c_true ret then Some (False, w)
       else Some (True, upd_img (\<lambda>i. i\<lparr>current_mode_bitmap := current_mode_bitmap i AND c_lnot bm\<rparr>) w)
     }"

definition enter_mode :: "nat \<Rightarrow> 8 word \<Rightarrow> 'p world \<Rightarrow> (bool \<times> 'p world) option" where
  "enter_mode n bm w =
     do {
       m \<leftarrow> mode_slot (img w) n;
       (ret, w) \<leftarrow> mode_enable m w;
       if c_true ret then Some (False, w)
       else Some (True, upd_img (\<lambda>i. i\<lparr>current_mode_bitmap := current_mode_bitmap i OR bm\<rparr>) w)
     }"

definition when_bit ::
    "8 word \<Rightarrow> 8 word \<Rightarrow> ('p world \<Rightarrow> (bool \<times> 'p world) option) \<Rightarrow> 'p world \<Rightarrow> (bool \<times> 'p world) option" where
  "when_bit bits bm f w = (if bits AND bm \<noteq> 0 then f w else Some (True, w))"

definition teardown :: "nat \<Rightarrow> 'p world \<Rightarrow> 'p world option" where
  "teardown n w =
     (case mode_slot (img w) n of None \<Rightarrow> Some w | Some m \<Rightarrow> map_option snd (mode_deinit m w))"

definition wifimg_deinit :: "'p world \<Rightarrow> 'p world option" where
  "wifimg_deinit w =
     (if init_flag (img w) then
        let bits = current_mode_bitmap (img w)
        in do {
          (ok, w) \<leftarrow> when_bit bits STA_BITMAP (leave_mode STA_MODE_NUM STA_BITMAP) w;
          if \<not> ok then Some w else do {
            (ok, w) \<leftarrow> when_bit bits AP_BITMAP (leave_mode AP_MODE_NUM AP_BITMAP) w;
            if \<not> ok then Some w else do {
              (ok, w) \<leftarrow> when_bit bits MONITOR_BITMAP (leave_mode MONITOR_MODE_NUM MONITOR_BITMAP) w;
              if \<not> ok then Some w else do {
                w \<leftarrow> teardown STA_MODE_NUM (upd_img (\<lambda>i. i\<lparr>current_mode_bitmap := UNK_BITMAP\<rparr>) w);
                w \<leftarrow> teardown AP_MODE_NUM w;
                w \<leftarrow> teardown MONITOR_MODE_NUM w;
                w \<leftarrow> teardown P2P_MODE_NUM w;
                Some (upd_img (\<lambda>i. i\<lparr>init_flag := False, wifi_status := WLAN_STATUS_DOWN,
                        current_mode_bitmap := UNK_BITMAP, support_mode_bitmap := UNK_BITMAP\<rparr>) w)
              } } } }
      else Some w)"

definition wifimg_is_init :: "'p world \<Rightarrow> bool" where
  "wifimg_is_init w = init_flag (img w)"

definition wifimg_get_current_mode :: "'p world \<Rightarrow> wifi_mode" where
  "wifimg_get_current_mode w = wmg_wifi_bitmap_to_mode (current_mode_bitmap (img w))"

definition wifimg_switch_mode :: "wifi_mode \<Rightarrow> 'p world \<Rightarrow> (int \<times> 'p world) option" where
  "wifimg_switch_mode switch_mode w =
     (let current_mode = wmg_wifi_bitmap_to_mode (current_mode_bitmap (img w))
      in if switch_mode = WIFI_MODE_UNKNOWN then Some (WMG_STATUS_INVALID, w)
         else if \<not> init_flag (img w) then Some (WMG_STATUS_NOT_READY, w)
         else if switch_mode = current_mode then Some (WMG_STATUS_UNHANDLED, w)
         else
           let switch_bits = wmg_wifi_mode_to_bitmap switch_mode;
               current_bits = wmg_wifi_mode_to_bitmap current_mode
           in if support_mode_bitmap (img w) AND switch_bits = 0 then Some (WMG_STATUS_UNSUPPORTED, w)
              else
                let disable_bits = (switch_bits OR current_bits) XOR switch_bits;
                    enable_bits = (switch_bits OR current_bits) XOR current_bits;
                    w = upd_img (\<lambda>i. i\<lparr>mutex_locked := True\<rparr>) w
                in do {
                  (_, w) \<leftarrow> when_bit disable_bits STA_BITMAP (leave_mode STA_MODE_NUM STA_BITMAP) w;
                  (_, w) \<leftarrow> when_bit disable_bits AP_BITMAP (leave_mode AP_MODE_NUM AP_BITMAP) w;
                  (_, w) \<leftarrow> when_bit disable_bits MONITOR_BITMAP (leave_mode MONITOR_MODE_NUM MONITOR_BITMAP) w;
                  (_, w) \<leftarrow> when_bit enable_bits STA_BITMAP (enter_mode STA_MODE_NUM STA_BITMAP) w;
                  (_, w) \<leftarrow> when_bit enable_bits AP_BITMAP (enter_mode AP_MODE_NUM AP_BITMAP) w;
                  (_, w) \<leftarrow> when_bit enable_bits MONITOR_BITMAP (enter_mode MONITOR_MODE_NUM MONITOR_BITMAP) w;
                  let w = upd_img (\<lambda>i. i\<lparr>mutex_locked := False\<rparr>) w;
                  Some (if switch_bits = current_mode_bitmap (img w) then WMG_STATUS_SUCCESS else WMG_STATUS_FAIL, w)
                })"

section \<open>Commands to the mode in force\<close>

text \<open>The common tail: a failure of the call first, then the status it left behind.\<close>

definition ctl_tail :: "int \<times> int \<times> 'p world \<Rightarrow> int \<times> 'p world" where
  "ctl_tail = (\<lambda>(ret, cb, w).
     (if ret \<noteq> WMG_STATUS_SUCCESS then ret
      else if cb \<noteq> WMG_STATUS_SUCCESS then cb else WMG_STATUS_SUCCESS, w))"

definition slot_ctl :: "nat \<Rightarrow> mode_cmd \<Rightarrow> int \<Rightarrow> 'p world \<Rightarrow> (int \<times> 'p world) option" where
  "slot_ctl n cmd cb w = do { m \<leftarrow> mode_slot (img w) n; map_option ctl_tail (mode_ctl m cmd cb w) }"

text \<open>The guards the command functions share, with the mode each one needs.\<close>

definition mode_command :: "wifi_mode \<Rightarrow> nat \<Rightarrow> mode_cmd \<Rightarrow> 'p world \<Rightarrow> (int \<times> 'p world) option" where
  "mode_command mode n cmd w =
     (if \<not> init_flag (img w) then Some (WMG_STATUS_NOT_READY, w)
      else if wifimg_get_current_mode w \<noteq> mode then Some (WMG_STATUS_FAIL, w)
      else slot_ctl n cmd WMG_STATUS_SUCCESS w)"

definition wifimg_sta_connect :: "wifi_sta_cn_para option \<Rightarrow> 'p world \<Rightarrow> (int \<times> 'p world) option" where
  "wifimg_sta_connect cn = mode_command WIFI_STATION STA_MODE_NUM (Sta_Cmd (WMG_STA_CMD_CONNECT cn))"

definition wifimg_sta_disconnect :: "'p world \<Rightarrow> (int \<times> 'p world) option" where
  "wifimg_sta_disconnect = mode_command WIFI_STATION STA_MODE_NUM (Sta_Cmd WMG_STA_CMD_DISCONNECT)"

definition wifimg_sta_auto_reconnect :: "bool \<Rightarrow> 'p world \<Rightarrow> (int \<times> 'p world) option" where
  "wifimg_sta_auto_reconnect en = mode_command WIFI_STATION STA_MODE_NUM (Sta_Cmd (WMG_STA_CMD_AUTO_RECONNECT en))"

definition wifimg_sta_get_info :: "buf option \<Rightarrow> 'p world \<Rightarrow> (int \<times> 'p world) option" where
  "wifimg_sta_get_info b = mode_command WIFI_STATION STA_MODE_NUM (Sta_Cmd (WMG_STA_CMD_GET_INFO b))"

definition wifimg_sta_list_networks :: "buf option \<Rightarrow> 'p world \<Rightarrow> (int \<times> 'p world) option" where
  "wifimg_sta_list_networks b = mode_command WIFI_STATION STA_MODE_NUM (Sta_Cmd (WMG_STA_CMD_LIST_NETWORKS b))"

definition wifimg_sta_remove_networks :: "string option \<Rightarrow> 'p world \<Rightarrow> (int \<times> 'p world) option" where
  "wifimg_sta_remove_networks ssid =
     mode_command WIFI_STATION STA_MODE_NUM (Sta_Cmd (WMG_STA_CMD_REMOVE_NETWORKS ssid))"

definition wifimg_ap_enable :: "wifi_ap_config option \<Rightarrow> 'p world \<Rightarrow> (int \<times> 'p world) option" where
  "wifimg_ap_enable config = mode_command WIFI_AP AP_MODE_NUM (Ap_Cmd (WMG_AP_CMD_ENABLE config))"

definition wifimg_ap_disable :: "'p world \<Rightarrow> (int \<times> 'p world) option" where
  "wifimg_ap_disable = mode_command WIFI_AP AP_MODE_NUM (Ap_Cmd WMG_AP_CMD_DISABLE)"

definition wifimg_ap_get_config :: "buf option \<Rightarrow> 'p world \<Rightarrow> (int \<times> 'p world) option" where
  "wifimg_ap_get_config b = mode_command WIFI_AP AP_MODE_NUM (Ap_Cmd (WMG_AP_CMD_GET_CONFIG b))"

definition wifimg_monitor_enable :: "8 word \<Rightarrow> 'p world \<Rightarrow> (int \<times> 'p world) option" where
  "wifimg_monitor_enable channel =
     mode_command WIFI_MONITOR MONITOR_MODE_NUM (Monitor_Cmd (WMG_MONITOR_CMD_ENABLE channel))"

definition wifimg_monitor_set_channel :: "8 word \<Rightarrow> 'p world \<Rightarrow> (int \<times> 'p world) option" where
  "wifimg_monitor_set_channel channel =
     mode_command WIFI_MONITOR MONITOR_MODE_NUM (Monitor_Cmd (WMG_MONITOR_CMD_SET_CHANNEL channel))"

definition wifimg_monitor_disable :: "'p world \<Rightarrow> (int \<times> 'p world) option" where
  "wifimg_monitor_disable = mode_command WIFI_MONITOR MONITOR_MODE_NUM (Monitor_Cmd WMG_MONITOR_CMD_DISABLE)"

text \<open>Registering a callback visits the modes that exist; the first failure ends it.\<close>

definition register_in :: "nat \<Rightarrow> mode_cmd \<Rightarrow> 'p world \<Rightarrow> (int \<times> 'p world) option" where
  "register_in n cmd w =
     (if mode_slot (img w) n = None then Some (WMG_STATUS_SUCCESS, w)
      else slot_ctl n cmd WMG_STATUS_SUCCESS w)"

definition wifimg_register_msg_cb :: "msg_cb option \<Rightarrow> 'p world \<Rightarrow> (int \<times> 'p world) option" where
  "wifimg_register_msg_cb f w =
     (if \<not> init_flag (img w) then Some (WMG_STATUS_NOT_READY, w)
      else do {
        (ret, w) \<leftarrow> register_in STA_MODE_NUM (Sta_Cmd (WMG_STA_CMD_REGISTER_MSG_CB f)) w;
        if ret \<noteq> WMG_STATUS_SUCCESS then Some (ret, w) else do {
          (ret, w) \<leftarrow> register_in AP_MODE_NUM (Ap_Cmd (WMG_AP_CMD_REGISTER_MSG_CB f)) w;
          if ret \<noteq> WMG_STATUS_SUCCESS then Some (ret, w)
          else register_in MONITOR_MODE_NUM (Monitor_Cmd (WMG_MONITOR_CMD_REGISTER_MSG_CB f)) w
        } })"

definition wifimg_set_scan_param :: "'p world \<Rightarrow> (int \<times> 'p world) option" where
  "wifimg_set_scan_param w = Some (WMG_STATUS_FAIL, w)"

definition wifimg_get_scan_results :: "buf \<Rightarrow> buf \<Rightarrow> 32 word \<Rightarrow> 'p world \<Rightarrow> (int \<times> 'p world) option" where
  "wifimg_get_scan_results results bss_num arr_size w =
     (if \<not> init_flag (img w) then Some (WMG_STATUS_NOT_READY, w)
      else if wifimg_get_current_mode w = WIFI_STATION
      then slot_ctl STA_MODE_NUM (Sta_Cmd (WMG_STA_CMD_SCAN_RESULTS results bss_num arr_size)) WMG_STATUS_SUCCESS w
      else Some (WMG_STATUS_SUCCESS, w))"

definition mac_command ::
    "(mac_para \<Rightarrow> sta_cmd) \<Rightarrow> (mac_para \<Rightarrow> ap_cmd) \<Rightarrow> (mac_para \<Rightarrow> monitor_cmd) \<Rightarrow> mac_para
      \<Rightarrow> 'p world \<Rightarrow> (int \<times> 'p world) option" where
  "mac_command sc ac mc para w =
     (if \<not> init_flag (img w) then Some (WMG_STATUS_NOT_READY, w)
      else if wifimg_get_current_mode w = WIFI_STATION
      then slot_ctl STA_MODE_NUM (Sta_Cmd (sc para)) WMG_STATUS_FAIL w
      else if wifimg_get_current_mode w = WIFI_AP
      then slot_ctl AP_MODE_NUM (Ap_Cmd (ac para)) WMG_STATUS_FAIL w
      else if wifimg_get_current_mode w = WIFI_MONITOR
      then slot_ctl MONITOR_MODE_NUM (Monitor_Cmd (mc para)) WMG_STATUS_FAIL w
      else Some (WMG_STATUS_SUCCESS, w))"

definition wifimg_set_mac :: "mac_para \<Rightarrow> 'p world \<Rightarrow> (int \<times> 'p world) option" where
  "wifimg_set_mac = mac_command WMG_STA_CMD_SET_MAC WMG_AP_CMD_SET_MAC WMG_MONITOR_CMD_SET_MAC"

definition wifimg_get_mac :: "mac_para \<Rightarrow> 'p world \<Rightarrow> (int \<times> 'p world) option" where
  "wifimg_get_mac = mac_command WMG_STA_CMD_GET_MAC WMG_AP_CMD_GET_MAC WMG_MONITOR_CMD_GET_MAC"

definition wifimg_linkd_protocol ::
    "wifi_linkd_mode \<Rightarrow> wifi_ap_config option \<Rightarrow> int \<Rightarrow> buf option \<Rightarrow> 'p world \<Rightarrow> (int \<times> 'p world) option" where
  "wifimg_linkd_protocol mode params second result w =
     map_option (\<lambda>(ret, p). (ret, w\<lparr>wenv := (wenv w)\<lparr>plat := p\<rparr>\<rparr>))
       (wmg_linkd_protocol w mode params second result (plat (wenv w)))"

end
