(* ===== verification/Wmg_Actions.thy ===== *)
theory Wmg_Actions
  imports Wmg_Common
begin

text \<open>
  The actions \<open>__wifi_on\<close> \<dots> \<open>__wifi_linkd_protocol\<close> of \<open>wmg_common.c\<close> that the action thread
  runs, and its four tables. An action is given the two arrays of pointers the caller packed
  (\<open>argv\<close>); reading an entry that is not there, or a pointer of another type than the action
  casts it to, is undefined (\<open>None\<close>). \<open>cb_argv[0]\<close> points to the caller's status variable, the
  field \<open>cb_status\<close> of the world.
\<close>

section \<open>Arguments\<close>

datatype arg =
  Arg_Null | Arg_Mode wifi_mode | Arg_Cn wifi_sta_cn_para | Arg_Bool bool | Arg_Buf buf
| Arg_Str string | Arg_Ap wifi_ap_config | Arg_Channel "8 word" | Arg_Cb "msg_cb option"
| Arg_U32 "32 word" | Arg_Linkd wifi_linkd_mode | Arg_Int int | Arg_Status

type_synonym 'p action = "arg list option \<Rightarrow> arg list option \<Rightarrow> 'p world \<Rightarrow> (int \<times> 'p world) option"

definition arg_at :: "nat \<Rightarrow> arg list option \<Rightarrow> arg option" where
  "arg_at i argv = (case argv of None \<Rightarrow> None | Some xs \<Rightarrow> if i < length xs then Some (xs ! i) else None)"

text \<open>Dereferencing a pointer, and pointers that may be NULL.\<close>

fun as_mode :: "arg \<Rightarrow> wifi_mode option" where "as_mode (Arg_Mode m) = Some m" | "as_mode _ = None"
fun as_bool :: "arg \<Rightarrow> bool option" where "as_bool (Arg_Bool b) = Some b" | "as_bool _ = None"
fun as_channel :: "arg \<Rightarrow> 8 word option" where "as_channel (Arg_Channel c) = Some c" | "as_channel _ = None"
fun as_linkd :: "arg \<Rightarrow> wifi_linkd_mode option" where "as_linkd (Arg_Linkd m) = Some m" | "as_linkd _ = None"
fun as_int :: "arg \<Rightarrow> int option" where "as_int (Arg_Int i) = Some i" | "as_int _ = None"
fun as_cb :: "arg \<Rightarrow> msg_cb option option" where "as_cb (Arg_Cb f) = Some f" | "as_cb _ = None"

fun ptr_cn :: "arg \<Rightarrow> wifi_sta_cn_para option option" where
  "ptr_cn Arg_Null = Some None" | "ptr_cn (Arg_Cn c) = Some (Some c)" | "ptr_cn _ = None"
fun ptr_buf :: "arg \<Rightarrow> buf option option" where
  "ptr_buf Arg_Null = Some None" | "ptr_buf (Arg_Buf b) = Some (Some b)" | "ptr_buf _ = None"
fun ptr_str :: "arg \<Rightarrow> string option option" where
  "ptr_str Arg_Null = Some None" | "ptr_str (Arg_Str s) = Some (Some s)" | "ptr_str _ = None"
fun ptr_ap :: "arg \<Rightarrow> wifi_ap_config option option" where
  "ptr_ap Arg_Null = Some None" | "ptr_ap (Arg_Ap c) = Some (Some c)" | "ptr_ap _ = None"
fun ptr_u32 :: "arg \<Rightarrow> 32 word option option" where
  "ptr_u32 Arg_Null = Some None" | "ptr_u32 (Arg_U32 n) = Some (Some n)" | "ptr_u32 _ = None"

text \<open>The status variable must be there; \<open>*cb_status = ret; return ret\<close>.\<close>

definition status_ptr :: "arg list option \<Rightarrow> unit option" where
  "status_ptr cb_argv = (if arg_at 0 cb_argv = Some Arg_Status then Some () else None)"

definition reply :: "int \<Rightarrow> 'p world \<Rightarrow> (int \<times> 'p world) option" where
  "reply ret w = Some (ret, w\<lparr>cb_status := ret\<rparr>)"

definition reply_from :: "(int \<times> 'p world) option \<Rightarrow> (int \<times> 'p world) option" where
  "reply_from r = do { (ret, w) \<leftarrow> r; reply ret w }"

text \<open>The guard of the actions that need a running manager in a given mode.\<close>

definition in_mode :: "wifi_mode \<Rightarrow> 'p world \<Rightarrow> (int \<times> 'p world) option \<Rightarrow> (int \<times> 'p world) option" where
  "in_mode mode w body =
     (if \<not> wifimg_is_init w then reply WMG_STATUS_NOT_READY w
      else if wifimg_get_current_mode w \<noteq> mode then reply WMG_STATUS_NOT_READY w
      else body)"

section \<open>The platform table\<close>

definition switch_status :: "int \<Rightarrow> int" where
  "switch_status ret =
     (if ret = WMG_STATUS_UNHANDLED \<or> ret = WMG_STATUS_SUCCESS then WMG_STATUS_SUCCESS else ret)"

definition wifi_on_action :: "'p action" where
  "wifi_on_action call_argv cb_argv w =
     do {
       a \<leftarrow> arg_at 0 call_argv;
       _ \<leftarrow> status_ptr cb_argv;
       let (ret, w) = (if \<not> wifimg_is_init w then wifimg_init w else (WMG_STATUS_SUCCESS, w));
       if ret \<noteq> WMG_STATUS_SUCCESS then Some (ret, w)
       else do {
         mode \<leftarrow> as_mode a;
         (ret, w) \<leftarrow> wifimg_switch_mode mode w;
         reply (switch_status ret) w
       }
     }"

definition wifi_off_action :: "'p action" where
  "wifi_off_action call_argv cb_argv w =
     do {
       _ \<leftarrow> status_ptr cb_argv;
       w \<leftarrow> (if wifimg_is_init w then wifimg_deinit w else Some w);
       reply WMG_STATUS_SUCCESS w
     }"

definition wifi_register_msg_cb_action :: "'p action" where
  "wifi_register_msg_cb_action call_argv cb_argv w =
     do {
       a \<leftarrow> arg_at 0 call_argv;
       _ \<leftarrow> status_ptr cb_argv;
       if \<not> wifimg_is_init w then reply WMG_STATUS_NOT_READY w
       else if a = Arg_Null then Some (WMG_STATUS_INVALID, w\<lparr>cb_status := WMG_STATUS_NOT_READY\<rparr>)
       else do { f \<leftarrow> as_cb a; reply_from (wifimg_register_msg_cb f w) }
     }"

text \<open>
  The interface name is copied into 32 uninitialised bytes: \<open>strncpy\<close> with the length of the
  string as its bound writes no terminating NUL. The callee reads up to the next NUL; when
  there is none in the array it reads outside.
\<close>

definition copy_ifname :: "string \<Rightarrow> string option \<Rightarrow> string" where
  "copy_ifname dst ifname =
     (case ifname of None \<Rightarrow> strncpy dst ''wlan0'' 6 | Some s \<Rightarrow> strncpy dst s (length s))"

definition mac_action :: "(mac_para \<Rightarrow> 'p world \<Rightarrow> (int \<times> 'p world) option) \<Rightarrow> 'p action" where
  "mac_action f call_argv cb_argv w =
     do {
       a \<leftarrow> arg_at 0 call_argv;
       ifname \<leftarrow> ptr_str a;
       m \<leftarrow> arg_at 1 call_argv;
       mac \<leftarrow> ptr_buf m;
       _ \<leftarrow> status_ptr cb_argv;
       if \<not> wifimg_is_init w then reply WMG_STATUS_NOT_READY w
       else if (case ifname of None \<Rightarrow> False | Some s \<Rightarrow> 32 < length s) then reply WMG_STATUS_FAIL w
       else do {
         name \<leftarrow> c_str (copy_ifname (stack_bytes w) ifname);
         reply_from (f (name, mac) w)
       }
     }"

definition wifi_set_mac_action :: "'p action" where
  "wifi_set_mac_action = mac_action wifimg_set_mac"

definition wifi_get_mac_action :: "'p action" where
  "wifi_get_mac_action = mac_action wifimg_get_mac"

text \<open>The four entry points that are not implemented yet share one body.\<close>

definition unsupported_action :: "'p action" where
  "unsupported_action call_argv cb_argv w = do { _ \<leftarrow> status_ptr cb_argv; reply WMG_STATUS_FAIL w }"

text \<open>
  The default configuration is made of variables of a block that has ended when the pointer to it is
  passed on: in the mode with an access point a caller who gives no configuration has undefined
  behaviour as soon as the mode is switched. On success the result is printed.
\<close>

definition wifi_linkd_protocol_action :: "'p action" where
  "wifi_linkd_protocol_action call_argv cb_argv w =
     do {
       a0 \<leftarrow> arg_at 0 call_argv;
       mode \<leftarrow> as_linkd a0;
       a1 \<leftarrow> arg_at 1 call_argv;
       params \<leftarrow> ptr_ap a1;
       a2 \<leftarrow> arg_at 2 call_argv;
       second \<leftarrow> as_int a2;
       a3 \<leftarrow> arg_at 3 call_argv;
       result \<leftarrow> ptr_buf a3;
       _ \<leftarrow> status_ptr cb_argv;
       let run = (\<lambda>w. do {
         (ret, w) \<leftarrow> wifimg_linkd_protocol mode params second result w;
         if ret = 0 \<and> result = None then None else reply ret w
       });
       if mode \<noteq> WMG_LINKD_MODE_SOFTAP then run w
       else do {
         let (ret, w) = (if \<not> wifimg_is_init w then wifimg_init w else (WMG_STATUS_SUCCESS, w));
         if ret \<noteq> WMG_STATUS_SUCCESS then reply ret w
         else do {
           (ret, w) \<leftarrow> wifimg_switch_mode WIFI_AP w;
           if switch_status ret \<noteq> WMG_STATUS_SUCCESS then reply ret w
           else do {
             ap_config \<leftarrow> params;
             (ret, w) \<leftarrow> wifimg_ap_enable (Some ap_config) w;
             if ret \<noteq> WMG_STATUS_SUCCESS then reply ret w else run w
           }
         }
       }
     }"

section \<open>The station table\<close>

definition wifi_sta_connect_action :: "'p action" where
  "wifi_sta_connect_action call_argv cb_argv w =
     do {
       a \<leftarrow> arg_at 0 call_argv;
       cn \<leftarrow> ptr_cn a;
       _ \<leftarrow> status_ptr cb_argv;
       in_mode WIFI_STATION w
         (if cn = None then reply WMG_STATUS_INVALID w else reply_from (wifimg_sta_connect cn w))
     }"

text \<open>Here a manager that does not run is only logged.\<close>

definition wifi_sta_disconnect_action :: "'p action" where
  "wifi_sta_disconnect_action call_argv cb_argv w =
     do { _ \<leftarrow> status_ptr cb_argv; reply_from (wifimg_sta_disconnect w) }"

definition wifi_sta_auto_reconnect_action :: "'p action" where
  "wifi_sta_auto_reconnect_action call_argv cb_argv w =
     do {
       a \<leftarrow> arg_at 0 call_argv;
       _ \<leftarrow> status_ptr cb_argv;
       in_mode WIFI_STATION w (do { en \<leftarrow> as_bool a; reply_from (wifimg_sta_auto_reconnect en w) })
     }"

definition wifi_sta_get_info_action :: "'p action" where
  "wifi_sta_get_info_action call_argv cb_argv w =
     do {
       a \<leftarrow> arg_at 0 call_argv;
       b \<leftarrow> ptr_buf a;
       _ \<leftarrow> status_ptr cb_argv;
       in_mode WIFI_STATION w
         (if b = None then reply WMG_STATUS_INVALID w else reply_from (wifimg_sta_get_info b w))
     }"

definition wifi_sta_list_networks_action :: "'p action" where
  "wifi_sta_list_networks_action call_argv cb_argv w =
     do {
       a \<leftarrow> arg_at 0 call_argv;
       b \<leftarrow> ptr_buf a;
       _ \<leftarrow> status_ptr cb_argv;
       in_mode WIFI_STATION w
         (if b = None then reply WMG_STATUS_INVALID w else reply_from (wifimg_sta_list_networks b w))
     }"

definition wifi_sta_remove_networks_action :: "'p action" where
  "wifi_sta_remove_networks_action call_argv cb_argv w =
     do {
       a \<leftarrow> arg_at 0 call_argv;
       ssid \<leftarrow> ptr_str a;
       _ \<leftarrow> status_ptr cb_argv;
       in_mode WIFI_STATION w (reply_from (wifimg_sta_remove_networks ssid w))
     }"

definition wifi_set_scan_param_action :: "'p action" where
  "wifi_set_scan_param_action call_argv cb_argv w =
     do { _ \<leftarrow> arg_at 0 call_argv; _ \<leftarrow> status_ptr cb_argv; reply WMG_STATUS_FAIL w }"

definition wifi_get_scan_results_action :: "'p action" where
  "wifi_get_scan_results_action call_argv cb_argv w =
     do {
       a0 \<leftarrow> arg_at 0 call_argv;
       results \<leftarrow> ptr_buf a0;
       a1 \<leftarrow> arg_at 1 call_argv;
       bss_num \<leftarrow> ptr_buf a1;
       a2 \<leftarrow> arg_at 2 call_argv;
       arr_size \<leftarrow> ptr_u32 a2;
       _ \<leftarrow> status_ptr cb_argv;
       if \<not> wifimg_is_init w then Some (WMG_STATUS_NOT_READY, w)
       else if wifimg_get_current_mode w \<noteq> WIFI_STATION then reply WMG_STATUS_NOT_READY w
       else (case (results, bss_num, arr_size) of
               (Some r, Some n, Some s) \<Rightarrow> reply_from (wifimg_get_scan_results r n s w)
             | _ \<Rightarrow> reply WMG_STATUS_INVALID w)
     }"

section \<open>The access point and monitor tables\<close>

definition wifi_ap_enable_action :: "'p action" where
  "wifi_ap_enable_action call_argv cb_argv w =
     do {
       a \<leftarrow> arg_at 0 call_argv;
       config \<leftarrow> ptr_ap a;
       _ \<leftarrow> status_ptr cb_argv;
       in_mode WIFI_AP w
         (if config = None then reply WMG_STATUS_INVALID w else reply_from (wifimg_ap_enable config w))
     }"

definition wifi_ap_disable_action :: "'p action" where
  "wifi_ap_disable_action call_argv cb_argv w =
     do { _ \<leftarrow> status_ptr cb_argv; in_mode WIFI_AP w (reply_from (wifimg_ap_disable w)) }"

definition wifi_ap_get_config_action :: "'p action" where
  "wifi_ap_get_config_action call_argv cb_argv w =
     do {
       a \<leftarrow> arg_at 0 call_argv;
       b \<leftarrow> ptr_buf a;
       _ \<leftarrow> status_ptr cb_argv;
       in_mode WIFI_AP w (reply_from (wifimg_ap_get_config b w))
     }"

definition wifi_monitor_enable_action :: "'p action" where
  "wifi_monitor_enable_action call_argv cb_argv w =
     do {
       a \<leftarrow> arg_at 0 call_argv;
       _ \<leftarrow> status_ptr cb_argv;
       in_mode WIFI_MONITOR w (do { c \<leftarrow> as_channel a; reply_from (wifimg_monitor_enable c w) })
     }"

definition wifi_monitor_set_channel_action :: "'p action" where
  "wifi_monitor_set_channel_action call_argv cb_argv w =
     do {
       a \<leftarrow> arg_at 0 call_argv;
       _ \<leftarrow> status_ptr cb_argv;
       in_mode WIFI_MONITOR w (do { c \<leftarrow> as_channel a; reply_from (wifimg_monitor_set_channel c w) })
     }"

definition wifi_monitor_disable_action :: "'p action" where
  "wifi_monitor_disable_action call_argv cb_argv w =
     do { _ \<leftarrow> status_ptr cb_argv; in_mode WIFI_MONITOR w (reply_from (wifimg_monitor_disable w)) }"

section \<open>The tables\<close>

text \<open>The dispatcher drops an action's result.\<close>

definition entry :: "'p action \<Rightarrow> (arg list option \<Rightarrow> arg list option \<Rightarrow> 'p world \<Rightarrow> 'p world option) option" where
  "entry f = Some (\<lambda>call_argv cb_argv w. map_option snd (f call_argv cb_argv w))"

definition pla_action_table where
  "pla_action_table = map entry [wifi_on_action, wifi_off_action, wifi_register_msg_cb_action,
     wifi_set_mac_action, wifi_get_mac_action, unsupported_action, unsupported_action,
     unsupported_action, unsupported_action, wifi_linkd_protocol_action]"

definition sta_action_table where
  "sta_action_table = map entry [wifi_sta_connect_action, wifi_sta_disconnect_action,
     wifi_sta_auto_reconnect_action, wifi_sta_get_info_action, wifi_sta_list_networks_action,
     wifi_sta_remove_networks_action, wifi_set_scan_param_action, wifi_get_scan_results_action]"

definition ap_action_table where
  "ap_action_table = map entry [wifi_ap_enable_action, wifi_ap_disable_action, wifi_ap_get_config_action]"

definition monitor_action_table where
  "monitor_action_table = map entry [wifi_monitor_enable_action, wifi_monitor_set_channel_action,
     wifi_monitor_disable_action]"

end
