(* ===== verification/Wmg_Manager.thy ===== *)
theory Wmg_Manager
  imports Wmg_Actions
begin

text \<open>
  The correctness of the manager: its invariant, what starting, stopping and switching do, and
  that no call of the interface and no event from below leads into undefined behaviour. The
  facts about the single modes come from the contract \<open>mode_object\<close> of \<open>Wmg_Types\<close> through its
  three interpretations.
\<close>

section \<open>The modes of a world\<close>

fun mode_good :: "mode_ref \<Rightarrow> 'p world \<Rightarrow> bool" where
  "mode_good Sta_Object w = sta_good (sta_obj w)"
| "mode_good Ap_Object w = ap_good (ap_obj w)"
| "mode_good Monitor_Object w = monitor_good (mon_obj w)"

fun mode_initialised :: "mode_ref \<Rightarrow> 'p world \<Rightarrow> bool" where
  "mode_initialised Sta_Object w = sta_init_flag (sta_obj w)"
| "mode_initialised Ap_Object w = ap_init_flag (ap_obj w)"
| "mode_initialised Monitor_Object w = monitor_init_flag (mon_obj w)"

fun mode_enabled :: "mode_ref \<Rightarrow> 'p world \<Rightarrow> bool" where
  "mode_enabled Sta_Object w = sta_enable (sta_obj w)"
| "mode_enabled Ap_Object w = ap_enabled (ap_obj w)"
| "mode_enabled Monitor_Object w = monitor_enabled (mon_obj w)"

fun mode_num :: "mode_ref \<Rightarrow> nat" where
  "mode_num Sta_Object = STA_MODE_NUM"
| "mode_num Ap_Object = AP_MODE_NUM"
| "mode_num Monitor_Object = MONITOR_MODE_NUM"

fun mode_bit :: "mode_ref \<Rightarrow> 8 word" where
  "mode_bit Sta_Object = STA_BITMAP"
| "mode_bit Ap_Object = AP_BITMAP"
| "mode_bit Monitor_Object = MONITOR_BITMAP"

lemma all_modes: "(\<forall>m. P m) \<longleftrightarrow> P Sta_Object \<and> P Ap_Object \<and> P Monitor_Object"
  by (metis mode_ref.exhaust)

definition fixed_part where
  "fixed_part w = (linked w, sta_inf_object w, ap_inf_object w, mon_inf_object w, wmg_linkd_protocol w)"

text \<open>The manager's own record and the set-up of every mode are the same.\<close>

definition same_setup :: "'p world \<Rightarrow> 'p world \<Rightarrow> bool" where
  "same_setup w w' \<longleftrightarrow> img w' = img w \<and> fixed_part w' = fixed_part w \<and>
     (\<forall>m. mode_good m w' = mode_good m w \<and> mode_initialised m w' = mode_initialised m w \<and>
          mode_enabled m w' = mode_enabled m w)"

lemma same_setup_refl [simp]: "same_setup w w"
  by (simp add: same_setup_def)

lemma same_setup_trans: "same_setup w w1 \<Longrightarrow> same_setup w1 w2 \<Longrightarrow> same_setup w w2"
  by (simp add: same_setup_def)

lemma fixed_linked: "fixed_part w' = fixed_part w \<Longrightarrow> linked w' = linked w"
  by (simp add: fixed_part_def)

section \<open>The mode operations on a world\<close>

text \<open>
  All a switch needs to know of \<open>mode_enable\<close> and \<open>mode_disable\<close>: one mode changes, the others
  and the manager's record stay.
\<close>

definition others_same :: "mode_ref \<Rightarrow> 'p world \<Rightarrow> 'p world \<Rightarrow> bool" where
  "others_same m w w' \<longleftrightarrow> img w' = img w \<and> fixed_part w' = fixed_part w \<and>
     (\<forall>k. k \<noteq> m \<longrightarrow> mode_good k w' = mode_good k w \<and> mode_initialised k w' = mode_initialised k w \<and>
          mode_enabled k w' = mode_enabled k w)"

lemma mode_enable_step:
  assumes "mode_good m w"
  shows "\<exists>ret w'. mode_enable m w = Some (ret, w') \<and> others_same m w w' \<and> mode_good m w' \<and>
    mode_initialised m w' = mode_initialised m w \<and> (ret = 0 \<or> ret = - 1) \<and>
    (ret = 0 \<longrightarrow> mode_initialised m w \<and> mode_enabled m w') \<and>
    (ret \<noteq> 0 \<longrightarrow> \<not> (mode_initialised m w \<and> mode_enabled m w) \<and> mode_enabled m w' = mode_enabled m w)"
proof (cases m)
  case Sta_Object
  with assms sta_mode.enable_good[of "sta_obj w" "wenv w"] show ?thesis
    by (auto simp: others_same_def fixed_part_def all_modes)
next
  case Ap_Object
  with assms ap_mode.enable_good[of "ap_obj w" "wenv w"] show ?thesis
    by (auto simp: others_same_def fixed_part_def all_modes)
next
  case Monitor_Object
  with assms monitor_mode.enable_good[of "mon_obj w" "wenv w"] show ?thesis
    by (auto simp: others_same_def fixed_part_def all_modes)
qed

lemma mode_disable_step:
  assumes "mode_good m w"
  shows "\<exists>w'. mode_disable m w = Some (0, w') \<and> others_same m w w' \<and> mode_good m w' \<and>
    mode_initialised m w' = mode_initialised m w \<and>
    mode_enabled m w' = (mode_enabled m w \<and> \<not> mode_initialised m w)"
proof (cases m)
  case Sta_Object
  with assms sta_mode.disable_good[of "sta_obj w" "wenv w"] show ?thesis
    by (auto simp: others_same_def fixed_part_def all_modes)
next
  case Ap_Object
  with assms ap_mode.disable_good[of "ap_obj w" "wenv w"] show ?thesis
    by (auto simp: others_same_def fixed_part_def all_modes)
next
  case Monitor_Object
  with assms monitor_mode.disable_good[of "mon_obj w" "wenv w"] show ?thesis
    by (auto simp: others_same_def fixed_part_def all_modes)
qed

lemma mode_deinit_step:
  assumes "mode_good m w"
  shows "\<exists>w'. mode_deinit m w = Some (0, w') \<and> others_same m w w' \<and> mode_good m w' \<and>
    \<not> mode_initialised m w' \<and> mode_enabled m w' = mode_enabled m w"
proof (cases m)
  case Sta_Object
  with assms sta_mode.deinit_good[of "sta_obj w" "wenv w"] show ?thesis
    by (auto simp: others_same_def fixed_part_def all_modes)
next
  case Ap_Object
  with assms ap_mode.deinit_good[of "ap_obj w" "wenv w"] show ?thesis
    by (auto simp: others_same_def fixed_part_def all_modes)
next
  case Monitor_Object
  with assms monitor_mode.deinit_good[of "mon_obj w" "wenv w"] show ?thesis
    by (auto simp: others_same_def fixed_part_def all_modes)
qed

lemma mode_init_step:
  assumes "mode_good m w" "mode_init m w = (ret, w')"
  shows "others_same m w w' \<and> mode_good m w' \<and> mode_enabled m w' = mode_enabled m w \<and>
    (ret = 0 \<longleftrightarrow> mode_initialised m w') \<and> (ret = 0 \<or> ret = - 1)"
proof (cases m)
  case Sta_Object
  with assms sta_mode.init_good[of "sta_obj w" "sta_inf_object w" "wenv w"] show ?thesis
    by (auto simp: others_same_def fixed_part_def all_modes Let_def split: prod.splits)
next
  case Ap_Object
  with assms ap_mode.init_good[of "ap_obj w" "ap_inf_object w" "wenv w"] show ?thesis
    by (auto simp: others_same_def fixed_part_def all_modes Let_def split: prod.splits)
next
  case Monitor_Object
  with assms monitor_mode.init_good[of "mon_obj w" "mon_inf_object w" "wenv w"] show ?thesis
    by (auto simp: others_same_def fixed_part_def all_modes Let_def split: prod.splits)
qed

section \<open>The invariant\<close>

text \<open>
  A mode whose bit is set is linked and enabled, and only a running manager has bits set; the
  bits always are those of one of the six modes. A running manager has its slots filled with the linked modes, all of them initialised, and
  supports exactly those. Nobody holds the mutex between two calls.
\<close>

definition has_mode :: "mode_ref \<Rightarrow> 'p world \<Rightarrow> bool" where
  "has_mode m w \<longleftrightarrow> current_mode_bitmap (img w) AND mode_bit m \<noteq> 0"

definition supports :: "mode_ref \<Rightarrow> 'p world \<Rightarrow> bool" where
  "supports m w \<longleftrightarrow> support_mode_bitmap (img w) AND mode_bit m \<noteq> 0"

definition manager_core :: "'p world \<Rightarrow> bool" where
  "manager_core w \<longleftrightarrow>
     (\<forall>m. mode_good m w) \<and>
     current_mode_bitmap (img w) \<le> 7 \<and> support_mode_bitmap (img w) \<le> 7 \<and>
     mode_slot (img w) P2P_MODE_NUM = None \<and>
     (\<forall>m. supports m w \<longrightarrow> linked w m) \<and>
     (\<forall>m. has_mode m w \<longrightarrow> init_flag (img w) \<and> linked w m \<and> mode_enabled m w) \<and>
     (init_flag (img w) \<longrightarrow> (\<forall>m. mode_slot (img w) (mode_num m) = wmg_register_object m w \<and>
        (linked w m \<longrightarrow> mode_initialised m w \<and> supports m w)))"

definition manager_inv :: "'p world \<Rightarrow> bool" where
  "manager_inv w \<longleftrightarrow> manager_core w \<and> \<not> mutex_locked (img w) \<and>
     wmg_wifi_mode_to_bitmap (wifimg_get_current_mode w) = current_mode_bitmap (img w)"

lemma manager_inv_same_setup:
  assumes "manager_inv w" "same_setup w w'"
  shows "manager_inv w'"
proof -
  have "linked w' = linked w" "img w' = img w"
    using assms(2) by (auto simp: same_setup_def dest: fixed_linked)
  moreover have "mode_good m w' = mode_good m w" "mode_initialised m w' = mode_initialised m w"
      "mode_enabled m w' = mode_enabled m w" for m
    using assms(2) by (auto simp: same_setup_def)
  ultimately show ?thesis
    using assms(1)
    unfolding manager_inv_def manager_core_def has_mode_def supports_def wmg_register_object_def
      wifimg_get_current_mode_def by simp
qed

text \<open>Three bits, so eight values.\<close>

lemma bitmap_cases:
  fixes b :: "8 word"
  assumes "b \<le> 7"
  shows "b \<in> {0, 1, 2, 3, 4, 5, 6, 7}"
proof -
  have "unat b \<le> 7" using assms by (simp add: word_le_nat_alt)
  then have "unat b \<in> {0, 1, 2, 3, 4, 5, 6, 7}" by auto
  then show ?thesis by (auto simp: word_unat_eq_iff)
qed

lemma or_bit:
  assumes "b \<le> 7"
  shows "b OR mode_bit m \<le> 7"
    and "(b OR mode_bit m) AND mode_bit k \<noteq> 0 \<longleftrightarrow> b AND mode_bit k \<noteq> 0 \<or> k = m"
  using bitmap_cases[OF assms] by (cases m; cases k; auto)+

lemma no_modes:
  assumes "b \<le> (7 :: 8 word)" "\<And>m. b AND mode_bit m = 0"
  shows "b = 0"
  using bitmap_cases[OF assms(1)] assms(2)[of Sta_Object] assms(2)[of Ap_Object] assms(2)[of Monitor_Object]
  by auto

lemma others_sameD:
  assumes "others_same m w w'"
  shows "img w' = img w" "linked w' = linked w" "fixed_part w' = fixed_part w"
    "k \<noteq> m \<Longrightarrow> mode_good k w' = mode_good k w"
    "k \<noteq> m \<Longrightarrow> mode_initialised k w' = mode_initialised k w"
    "k \<noteq> m \<Longrightarrow> mode_enabled k w' = mode_enabled k w"
  using assms by (auto simp: others_same_def dest: fixed_linked)

lemma img_upd [simp]:
  "mode_good m (w\<lparr>img := i\<rparr>) = mode_good m w" "mode_initialised m (w\<lparr>img := i\<rparr>) = mode_initialised m w"
  "mode_enabled m (w\<lparr>img := i\<rparr>) = mode_enabled m w" "fixed_part (w\<lparr>img := i\<rparr>) = fixed_part w"
  "wmg_register_object m (w\<lparr>img := i\<rparr>) = wmg_register_object m w"
  by (cases m; simp add: fixed_part_def wmg_register_object_def)+

lemma mode_num_inject [simp]: "mode_num m = mode_num k \<longleftrightarrow> m = k" "mode_num m \<noteq> P2P_MODE_NUM" "mode_num m < 3"
  by (cases m; cases k; simp)+

section \<open>Starting\<close>

text \<open>What one block of \<open>wifimg_init\<close> does.\<close>

definition started :: "mode_ref \<Rightarrow> 'p world \<Rightarrow> bool" where
  "started m w \<longleftrightarrow> mode_slot (img w) (mode_num m) = wmg_register_object m w \<and>
     (linked w m \<longrightarrow> mode_initialised m w \<and> supports m w)"

definition init_frame :: "'p world \<Rightarrow> 'p world \<Rightarrow> bool" where
  "init_frame w w' \<longleftrightarrow> fixed_part w' = fixed_part w \<and> (\<forall>m. mode_good m w') \<and>
     (\<forall>m. mode_enabled m w' = mode_enabled m w) \<and> init_flag (img w') = init_flag (img w) \<and>
     mutex_locked (img w') = mutex_locked (img w) \<and>
     current_mode_bitmap (img w') = current_mode_bitmap (img w) \<and>
     mode_slot (img w') P2P_MODE_NUM = mode_slot (img w) P2P_MODE_NUM \<and>
     support_mode_bitmap (img w') \<le> 7 \<and> (\<forall>m. supports m w' \<longrightarrow> linked w m)"

lemma register_mode_step:
  assumes good: "\<forall>m. mode_good m w" and sup: "support_mode_bitmap (img w) \<le> 7" "\<forall>m. supports m w \<longrightarrow> linked w m"
    and run: "register_mode (mode_num m) m (mode_bit m) w = (ok, w')"
  shows "init_frame w w'" and "ok \<Longrightarrow> started m w'"
    and "k \<noteq> m \<Longrightarrow> started k w \<Longrightarrow> started k w'"
proof -
  let ?w1 = "upd_img (\<lambda>i. i\<lparr>mode_slot := (mode_slot i)(mode_num m := wmg_register_object m w)\<rparr>) w"
  have all: "init_frame w w' \<and> (ok \<longrightarrow> started m w') \<and> (\<forall>k. k \<noteq> m \<longrightarrow> started k w \<longrightarrow> started k w')"
  proof (cases "linked w m")
    case False
    then show ?thesis
      using run good sup mode_num_inject(2)[of m]
      by (auto simp: register_mode_def wmg_register_object_def init_frame_def started_def supports_def)
  next
    case True
    obtain ret w2 where i: "mode_init m ?w1 = (ret, w2)" by fastforce
    have "mode_good m ?w1" using good by simp
    note st = mode_init_step[OF this i]
    have o: "others_same m ?w1 w2" using st by simp
    have g: "\<forall>k. mode_good k w2" using st good others_sameD(4)[OF o] by (metis img_upd(1))
    have en: "\<forall>k. mode_enabled k w2 = mode_enabled k w" using st others_sameD(6)[OF o] by (metis img_upd(3))
    have ini: "k \<noteq> m \<Longrightarrow> mode_initialised k w2 = mode_initialised k w" for k
      using others_sameD(5)[OF o] by simp
    have im: "img w2 = img ?w1" "linked w2 = linked w" "fixed_part w2 = fixed_part w"
      using others_sameD(1,2,3)[OF o] by (simp_all add: fixed_part_def)
    have w': "ok = (ret = 0)" "w' = (if ret = 0 then upd_img (\<lambda>i. i\<lparr>support_mode_bitmap := support_mode_bitmap i OR mode_bit m\<rparr>) w2 else w2)"
      using run True i by (auto simp: register_mode_def wmg_register_object_def c_true_def split: if_splits)
    show ?thesis
    proof (cases "ret = 0")
      case ok: True
      have w'': "ok" "w' = upd_img (\<lambda>i. i\<lparr>support_mode_bitmap := support_mode_bitmap i OR mode_bit m\<rparr>) w2"
        using w' ok by simp_all
      have sup': "supports k w' \<longleftrightarrow> supports k w \<or> k = m" for k
        using or_bit(2)[OF sup(1), of m k] w'' im by (simp add: supports_def)
      have "init_frame w w'"
        using w'' g en im or_bit(1)[OF sup(1), of m] sup(2) sup' True mode_num_inject(2)[of m]
        by (simp add: init_frame_def)
      moreover have "started m w'"
        using w'' st ok im sup' True by (simp add: started_def wmg_register_object_def)
      moreover have "started k w'" if "k \<noteq> m" "started k w" for k
        using that w'' ini[OF that(1)] im sup' by (simp add: started_def wmg_register_object_def)
      ultimately show ?thesis by blast
    next
      case fail: False
      have w'': "\<not> ok" "w' = w2" using w' fail by simp_all
      have sup': "supports k w' = supports k w" for k
        using w'' im by (simp add: supports_def)
      have "init_frame w w'"
        using w'' g en im sup sup' mode_num_inject(2)[of m] by (simp add: init_frame_def)
      moreover have "started k w'" if "k \<noteq> m" "started k w" for k
        using that w'' ini[OF that(1)] im sup' by (simp add: started_def wmg_register_object_def)
      ultimately show ?thesis using w'' by blast
    qed
  qed
  from all show "init_frame w w'" "ok \<Longrightarrow> started m w'" "k \<noteq> m \<Longrightarrow> started k w \<Longrightarrow> started k w'"
    by blast+
qed

lemma init_frame_trans: "init_frame w w1 \<Longrightarrow> init_frame w1 w2 \<Longrightarrow> init_frame w w2"
  by (auto simp: init_frame_def dest: fixed_linked)

lemma no_bits_when_off:
  assumes "manager_inv w" "\<not> init_flag (img w)"
  shows "current_mode_bitmap (img w) = 0"
  by (rule no_modes) (use assms in \<open>auto simp: manager_inv_def manager_core_def has_mode_def\<close>)

lemma wifimg_init_step:
  assumes inv: "manager_inv w" and off: "\<not> init_flag (img w)" and run: "wifimg_init w = (ret, w')"
  shows "manager_inv w' \<and> (ret = WMG_STATUS_SUCCESS \<or> ret = WMG_STATUS_FAIL) \<and>
    (ret = WMG_STATUS_SUCCESS \<longleftrightarrow> init_flag (img w')) \<and> fixed_part w' = fixed_part w \<and>
    current_mode_bitmap (img w') = UNK_BITMAP \<and> (\<forall>m. mode_enabled m w' = mode_enabled m w)"
proof -
  let ?w0 = "upd_img (\<lambda>i. i\<lparr>mutex_locked := False, mode_slot := (mode_slot i)(STA_MODE_NUM := None,
      AP_MODE_NUM := None, MONITOR_MODE_NUM := None, P2P_MODE_NUM := None)\<rparr>) w"
  have bits: "current_mode_bitmap (img w) = 0" using no_bits_when_off[OF inv off] .
  have f0: "init_frame w ?w0" and s0: "support_mode_bitmap (img ?w0) \<le> 7"
      "\<forall>m. supports m ?w0 \<longrightarrow> linked ?w0 m" "\<forall>m. mode_good m ?w0"
    using inv by (auto simp: manager_inv_def manager_core_def init_frame_def supports_def)
  have stop: "manager_inv v" if "init_frame w v" for v
    using that inv off bits
    by (auto simp: manager_inv_def manager_core_def init_frame_def has_mode_def wifimg_get_current_mode_def
        dest: fixed_linked)
  have frame: "fixed_part v = fixed_part w" "\<forall>m. mode_enabled m v = mode_enabled m w"
      "current_mode_bitmap (img v) = 0" "\<not> init_flag (img v)" if "init_frame w v" for v
    using that off bits by (auto simp: init_frame_def)
  obtain ok1 w1 where r1: "register_mode (mode_num Sta_Object) Sta_Object (mode_bit Sta_Object) ?w0 = (ok1, w1)" by fastforce
  note p1 = register_mode_step[OF s0(3,1,2) r1]
  have f1: "init_frame w w1" using init_frame_trans[OF f0] p1(1) by simp
  have s1: "\<forall>m. mode_good m w1" "support_mode_bitmap (img w1) \<le> 7" "\<forall>m. supports m w1 \<longrightarrow> linked w1 m"
    using f1 by (auto simp: init_frame_def dest: fixed_linked)
  obtain ok2 w2 where r2: "register_mode (mode_num Ap_Object) Ap_Object (mode_bit Ap_Object) w1 = (ok2, w2)" by fastforce
  note p2 = register_mode_step[OF s1 r2]
  have f2: "init_frame w w2" using init_frame_trans[OF f1 p2(1)] .
  have s2: "\<forall>m. mode_good m w2" "support_mode_bitmap (img w2) \<le> 7" "\<forall>m. supports m w2 \<longrightarrow> linked w2 m"
    using f2 by (auto simp: init_frame_def dest: fixed_linked)
  obtain ok3 w3 where r3: "register_mode (mode_num Monitor_Object) Monitor_Object (mode_bit Monitor_Object) w2 = (ok3, w3)" by fastforce
  note p3 = register_mode_step[OF s2 r3]
  have f3: "init_frame w w3" using init_frame_trans[OF f2 p3(1)] .
  have run': "(ret, w') = (if \<not> ok1 then (WMG_STATUS_FAIL, w1) else if \<not> ok2 then (WMG_STATUS_FAIL, w2)
      else if \<not> ok3 then (WMG_STATUS_FAIL, w3)
      else (WMG_STATUS_SUCCESS, upd_img (\<lambda>i. i\<lparr>init_flag := True\<rparr>) w3))"
    using run off r1 r2 r3
    by (cases ok1; cases ok2; cases ok3) (simp_all add: wifimg_init_def Let_def del: One_nat_def)
  show ?thesis
  proof (cases "ok1 \<and> ok2 \<and> ok3")
    case False
    then have "ret = WMG_STATUS_FAIL \<and> (w' = w1 \<or> w' = w2 \<or> w' = w3)" using run' by (auto split: if_splits)
    then show ?thesis using f1 f2 f3 stop frame by auto
  next
    case True
    have w': "ret = 0" "w' = upd_img (\<lambda>i. i\<lparr>init_flag := True\<rparr>) w3" using run' True by auto
    have "started Sta_Object w3" "started Ap_Object w3" "started Monitor_Object w3"
      using True p1(2) p2(2,3) p3(2,3) by simp_all
    then have "\<forall>m. started m w3" by (simp add: all_modes)
    then have "manager_inv w'"
      using stop[OF f3] frame[OF f3] w'
      by (auto simp: manager_inv_def manager_core_def started_def has_mode_def supports_def
          wifimg_get_current_mode_def)
    then show ?thesis using w' frame[OF f3] by simp
  qed
qed

section \<open>Switching\<close>

text \<open>What leaving and entering modes never touch.\<close>

definition switch_frame :: "'p world \<Rightarrow> 'p world \<Rightarrow> bool" where
  "switch_frame w w' \<longleftrightarrow> fixed_part w' = fixed_part w \<and> init_flag (img w') = init_flag (img w) \<and>
     mode_slot (img w') = mode_slot (img w) \<and> support_mode_bitmap (img w') = support_mode_bitmap (img w) \<and>
     mutex_locked (img w') = mutex_locked (img w) \<and>
     (\<forall>m. mode_initialised m w' = mode_initialised m w)"

lemma switch_frame_refl [simp]: "switch_frame w w"
  by (simp add: switch_frame_def)

lemma switch_frame_trans: "switch_frame w w1 \<Longrightarrow> switch_frame w1 w2 \<Longrightarrow> switch_frame w w2"
  by (simp add: switch_frame_def)

lemma and_c_lnot_bit [simp]: "(b :: 8 word) AND c_lnot (mode_bit m) = 0"
  by (cases m) (simp_all add: c_lnot_def)

lemma core_slot:
  "manager_core w \<Longrightarrow> init_flag (img w) \<Longrightarrow> linked w m \<Longrightarrow> mode_slot (img w) (mode_num m) = Some m"
  by (simp add: manager_core_def wmg_register_object_def)

lemma leave_mode_step:
  assumes core: "manager_core w" "init_flag (img w)" "linked w m"
  shows "\<exists>w'. leave_mode (mode_num m) (mode_bit m) w = Some (True, w') \<and> manager_core w' \<and>
    switch_frame w w' \<and> current_mode_bitmap (img w') = 0 \<and> \<not> mode_enabled m w' \<and>
    (\<forall>k. k \<noteq> m \<longrightarrow> mode_enabled k w' = mode_enabled k w)"
proof -
  have good: "\<forall>m. mode_good m w" using core(1) by (simp add: manager_core_def)
  obtain w1 where d: "mode_disable m w = Some (0, w1)" "others_same m w w1" "mode_good m w1"
      "mode_initialised m w1 = mode_initialised m w"
      "mode_enabled m w1 = (mode_enabled m w \<and> \<not> mode_initialised m w)"
    using mode_disable_step good by blast
  note o = others_sameD[OF d(2)]
  let ?w' = "upd_img (\<lambda>i. i\<lparr>current_mode_bitmap := current_mode_bitmap i AND c_lnot (mode_bit m)\<rparr>) w1"
  have ini: "\<forall>k. mode_initialised k w1 = mode_initialised k w" using d(4) o(5) by metis
  have g: "\<forall>k. mode_good k w1" using d(3) o(4) good by metis
  have on: "mode_initialised m w" using core by (simp add: manager_core_def)
  have "leave_mode (mode_num m) (mode_bit m) w = Some (True, ?w')"
    using d(1) core_slot[OF core] by (simp add: leave_mode_def)
  moreover have "switch_frame w ?w'"
    using o(1,3) ini by (simp add: switch_frame_def)
  moreover have "manager_core ?w'"
    using core(1) g ini o(1,2) by (simp add: manager_core_def has_mode_def supports_def wmg_register_object_def)
  ultimately show ?thesis using d(5) on o(1,6) by auto
qed

lemma enter_mode_step:
  assumes core: "manager_core w" "init_flag (img w)" "linked w m"
  shows "\<exists>ok w'. enter_mode (mode_num m) (mode_bit m) w = Some (ok, w') \<and> manager_core w' \<and>
    switch_frame w w' \<and>
    current_mode_bitmap (img w') = (if ok then current_mode_bitmap (img w) OR mode_bit m else current_mode_bitmap (img w)) \<and>
    mode_enabled m w' = ok \<and> (\<forall>k. k \<noteq> m \<longrightarrow> mode_enabled k w' = mode_enabled k w) \<and>
    (\<exists>v. mode_enable m w = Some (if ok then 0 else - 1, v))"
proof -
  have good: "\<forall>m. mode_good m w" and le: "current_mode_bitmap (img w) \<le> 7"
    using core(1) by (simp_all add: manager_core_def)
  obtain ret w1 where d: "mode_enable m w = Some (ret, w1)" "others_same m w w1" "mode_good m w1"
      "mode_initialised m w1 = mode_initialised m w" "ret = 0 \<or> ret = - 1"
      "ret = 0 \<Longrightarrow> mode_enabled m w1"
      "ret \<noteq> 0 \<Longrightarrow> \<not> (mode_initialised m w \<and> mode_enabled m w) \<and> mode_enabled m w1 = mode_enabled m w"
    using mode_enable_step good by blast
  note o = others_sameD[OF d(2)]
  have ini: "\<forall>k. mode_initialised k w1 = mode_initialised k w" using d(4) o(5) by metis
  have g: "\<forall>k. mode_good k w1" using d(3) o(4) good by metis
  have on: "mode_initialised m w" using core by (simp add: manager_core_def)
  show ?thesis
  proof (cases "ret = 0")
    case True
    let ?w' = "upd_img (\<lambda>i. i\<lparr>current_mode_bitmap := current_mode_bitmap i OR mode_bit m\<rparr>) w1"
    have run: "enter_mode (mode_num m) (mode_bit m) w = Some (True, ?w')" "switch_frame w ?w'"
      using d(1) True core_slot[OF core] o(1,3) ini by (simp_all add: enter_mode_def switch_frame_def)
    have "has_mode k ?w' \<longleftrightarrow> has_mode k w \<or> k = m" for k
      using or_bit(2)[OF le, of m k] o(1) by (simp add: has_mode_def)
    moreover have "mode_enabled k w1 \<longleftrightarrow> k = m \<or> mode_enabled k w" for k
      using d(6)[OF True] o(6) by metis
    ultimately have "\<forall>k. has_mode k ?w' \<longrightarrow> mode_enabled k ?w' \<and> linked w k"
      using core by (auto simp: manager_core_def)
    then have "manager_core ?w'"
      using core g ini o(1,2) or_bit(1)[OF le, of m]
      by (simp add: manager_core_def supports_def wmg_register_object_def)
    then show ?thesis using run d(1,6) True o(1,6) by auto
  next
    case False
    have off: "\<not> mode_enabled m w1" "\<not> mode_enabled m w" using d(7)[OF False] on by auto
    have run: "enter_mode (mode_num m) (mode_bit m) w = Some (False, w1)" "switch_frame w w1"
      using d(1) False core_slot[OF core] o(1,3) ini by (simp_all add: enter_mode_def switch_frame_def c_true_def)
    have "mode_enabled k w1 = mode_enabled k w" for k using off o(6) by metis
    then have "manager_core w1"
      using core(1) g ini o(1,2) by (simp add: manager_core_def has_mode_def supports_def wmg_register_object_def)
    then show ?thesis using run d(1,5) False off o(1,6) by auto
  qed
qed

lemma core_frame:
  assumes "switch_frame w w'"
  shows "init_flag (img w') = init_flag (img w)" "linked w' = linked w"
  using assms by (auto simp: switch_frame_def dest: fixed_linked)

lemma when_leave:
  assumes core: "manager_core w" "init_flag (img w)" and l: "D AND mode_bit m \<noteq> 0 \<Longrightarrow> linked w m"
  shows "\<exists>w'. when_bit D (mode_bit m) (leave_mode (mode_num m) (mode_bit m)) w = Some (True, w') \<and>
    manager_core w' \<and> switch_frame w w' \<and>
    current_mode_bitmap (img w') = (if D AND mode_bit m \<noteq> 0 then 0 else current_mode_bitmap (img w)) \<and>
    (\<forall>k. mode_enabled k w' \<longleftrightarrow> mode_enabled k w \<and> (k = m \<longrightarrow> D AND mode_bit m = 0))"
proof (cases "D AND mode_bit m = 0")
  case True
  then show ?thesis using core by (simp add: when_bit_def)
next
  case False
  from leave_mode_step[OF core l[OF False]] obtain w' where
    "leave_mode (mode_num m) (mode_bit m) w = Some (True, w')" "manager_core w'" "switch_frame w w'"
    "current_mode_bitmap (img w') = 0" "\<not> mode_enabled m w'" "\<forall>k. k \<noteq> m \<longrightarrow> mode_enabled k w' = mode_enabled k w"
    by blast
  then show ?thesis using False by (intro exI[of _ w']) (auto simp: when_bit_def)
qed

lemma when_enter:
  assumes core: "manager_core w" "init_flag (img w)" and l: "E AND mode_bit m \<noteq> 0 \<Longrightarrow> linked w m"
  shows "\<exists>ok b w'. when_bit E (mode_bit m) (enter_mode (mode_num m) (mode_bit m)) w = Some (b, w') \<and>
    manager_core w' \<and> switch_frame w w' \<and>
    current_mode_bitmap (img w') = current_mode_bitmap (img w) OR (if E AND mode_bit m \<noteq> 0 \<and> ok then mode_bit m else 0) \<and>
    (\<forall>k. mode_enabled k w' = (if k = m \<and> E AND mode_bit m \<noteq> 0 then ok else mode_enabled k w)) \<and>
    (E AND mode_bit m \<noteq> 0 \<longrightarrow> (\<exists>v. mode_enable m w = Some (if ok then 0 else - 1, v)))"
proof (cases "E AND mode_bit m = 0")
  case True
  then show ?thesis using core by (intro exI[of _ True] exI[of _ w]) (simp add: when_bit_def)
next
  case False
  from enter_mode_step[OF core l[OF False]] obtain ok w' where
    "enter_mode (mode_num m) (mode_bit m) w = Some (ok, w')" "manager_core w'" "switch_frame w w'"
    "current_mode_bitmap (img w') = (if ok then current_mode_bitmap (img w) OR mode_bit m else current_mode_bitmap (img w))"
    "mode_enabled m w' = ok" "\<forall>k. k \<noteq> m \<longrightarrow> mode_enabled k w' = mode_enabled k w"
    "\<exists>v. mode_enable m w = Some (if ok then 0 else - 1, v)"
    by blast
  then show ?thesis using False by (intro exI[of _ ok] exI[of _ w']) (auto simp: when_bit_def)
qed

text \<open>The three blocks that disable, and the three that enable, one after another.\<close>

definition leave_all :: "8 word \<Rightarrow> 'p world \<Rightarrow> 'p world option" where
  "leave_all D w =
     do {
       (_, w) \<leftarrow> when_bit D STA_BITMAP (leave_mode STA_MODE_NUM STA_BITMAP) w;
       (_, w) \<leftarrow> when_bit D AP_BITMAP (leave_mode AP_MODE_NUM AP_BITMAP) w;
       (_, w) \<leftarrow> when_bit D MONITOR_BITMAP (leave_mode MONITOR_MODE_NUM MONITOR_BITMAP) w;
       Some w
     }"

definition leave_chain :: "8 word \<Rightarrow> 'p world \<Rightarrow> 'p world \<Rightarrow> bool" where
  "leave_chain D w w3 \<longleftrightarrow> (\<exists>w1 w2.
     when_bit D STA_BITMAP (leave_mode STA_MODE_NUM STA_BITMAP) w = Some (True, w1) \<and>
     when_bit D AP_BITMAP (leave_mode AP_MODE_NUM AP_BITMAP) w1 = Some (True, w2) \<and>
     when_bit D MONITOR_BITMAP (leave_mode MONITOR_MODE_NUM MONITOR_BITMAP) w2 = Some (True, w3))"

definition enter_all :: "8 word \<Rightarrow> 'p world \<Rightarrow> 'p world option" where
  "enter_all E w =
     do {
       (_, w) \<leftarrow> when_bit E STA_BITMAP (enter_mode STA_MODE_NUM STA_BITMAP) w;
       (_, w) \<leftarrow> when_bit E AP_BITMAP (enter_mode AP_MODE_NUM AP_BITMAP) w;
       (_, w) \<leftarrow> when_bit E MONITOR_BITMAP (enter_mode MONITOR_MODE_NUM MONITOR_BITMAP) w;
       Some w
     }"

lemmas sta_leave = when_leave[where m = Sta_Object, unfolded mode_num.simps mode_bit.simps]
lemmas ap_leave = when_leave[where m = Ap_Object, unfolded mode_num.simps mode_bit.simps]
lemmas monitor_leave = when_leave[where m = Monitor_Object, unfolded mode_num.simps mode_bit.simps]
lemmas sta_enter = when_enter[where m = Sta_Object, unfolded mode_num.simps mode_bit.simps]
lemmas ap_enter = when_enter[where m = Ap_Object, unfolded mode_num.simps mode_bit.simps]
lemmas monitor_enter = when_enter[where m = Monitor_Object, unfolded mode_num.simps mode_bit.simps]

lemma leave_all_step:
  assumes core: "manager_core w" "init_flag (img w)" and l: "\<And>m. D AND mode_bit m \<noteq> 0 \<Longrightarrow> linked w m"
  shows "\<exists>w'. leave_all D w = Some w' \<and> leave_chain D w w' \<and> manager_core w' \<and> switch_frame w w' \<and>
    current_mode_bitmap (img w') = (if \<exists>m. D AND mode_bit m \<noteq> 0 then 0 else current_mode_bitmap (img w)) \<and>
    (\<forall>k. mode_enabled k w' \<longleftrightarrow> mode_enabled k w \<and> D AND mode_bit k = 0)"
proof -
  have ls: "D AND STA_BITMAP \<noteq> 0 \<Longrightarrow> linked w Sta_Object" "D AND AP_BITMAP \<noteq> 0 \<Longrightarrow> linked w Ap_Object"
      "D AND MONITOR_BITMAP \<noteq> 0 \<Longrightarrow> linked w Monitor_Object"
    using l[of Sta_Object] l[of Ap_Object] l[of Monitor_Object] by simp_all
  obtain w1 where 1: "when_bit D STA_BITMAP (leave_mode STA_MODE_NUM STA_BITMAP) w = Some (True, w1)"
      "manager_core w1" "switch_frame w w1"
      "current_mode_bitmap (img w1) = (if D AND STA_BITMAP \<noteq> 0 then 0 else current_mode_bitmap (img w))"
      "\<forall>k. mode_enabled k w1 \<longleftrightarrow> mode_enabled k w \<and> (k = Sta_Object \<longrightarrow> D AND STA_BITMAP = 0)"
    using sta_leave[OF core ls(1)] by blast
  have i1: "init_flag (img w1)" "linked w1 = linked w" using core_frame[OF 1(3)] core by simp_all
  obtain w2 where 2: "when_bit D AP_BITMAP (leave_mode AP_MODE_NUM AP_BITMAP) w1 = Some (True, w2)"
      "manager_core w2" "switch_frame w1 w2"
      "current_mode_bitmap (img w2) = (if D AND AP_BITMAP \<noteq> 0 then 0 else current_mode_bitmap (img w1))"
      "\<forall>k. mode_enabled k w2 \<longleftrightarrow> mode_enabled k w1 \<and> (k = Ap_Object \<longrightarrow> D AND AP_BITMAP = 0)"
    using ap_leave[OF 1(2) i1(1)] ls(2) i1(2) by metis
  have i2: "init_flag (img w2)" "linked w2 = linked w" using core_frame[OF 2(3)] i1 by simp_all
  obtain w3 where 3: "when_bit D MONITOR_BITMAP (leave_mode MONITOR_MODE_NUM MONITOR_BITMAP) w2 = Some (True, w3)"
      "manager_core w3" "switch_frame w2 w3"
      "current_mode_bitmap (img w3) = (if D AND MONITOR_BITMAP \<noteq> 0 then 0 else current_mode_bitmap (img w2))"
      "\<forall>k. mode_enabled k w3 \<longleftrightarrow> mode_enabled k w2 \<and> (k = Monitor_Object \<longrightarrow> D AND MONITOR_BITMAP = 0)"
    using monitor_leave[OF 2(2) i2(1)] ls(3) i2(2) by metis
  have "leave_all D w = Some w3" "leave_chain D w w3"
    using 1(1) 2(1) 3(1) by (auto simp: leave_all_def leave_chain_def)
  moreover have "switch_frame w w3" using 1(3) 2(3) 3(3) switch_frame_trans by blast
  moreover have "(\<exists>m. D AND mode_bit m \<noteq> 0) \<longleftrightarrow> D AND STA_BITMAP \<noteq> 0 \<or> D AND AP_BITMAP \<noteq> 0 \<or> D AND MONITOR_BITMAP \<noteq> 0"
    by (metis mode_bit.simps mode_ref.exhaust)
  moreover have "\<forall>k. mode_enabled k w3 \<longleftrightarrow> mode_enabled k w \<and> D AND mode_bit k = 0"
    unfolding all_modes using 1(5) 2(5) 3(5) by auto
  ultimately show ?thesis using 1(4) 2(4) 3(2,4) by auto
qed

definition gained :: "8 word \<Rightarrow> (mode_ref \<Rightarrow> bool) \<Rightarrow> 8 word" where
  "gained E ok = (if E AND STA_BITMAP \<noteq> 0 \<and> ok Sta_Object then STA_BITMAP else 0) OR
     (if E AND AP_BITMAP \<noteq> 0 \<and> ok Ap_Object then AP_BITMAP else 0) OR
     (if E AND MONITOR_BITMAP \<noteq> 0 \<and> ok Monitor_Object then MONITOR_BITMAP else 0)"

lemma enter_all_step:
  assumes core: "manager_core w" "init_flag (img w)" and l: "\<And>m. E AND mode_bit m \<noteq> 0 \<Longrightarrow> linked w m"
  shows "\<exists>ok w'. enter_all E w = Some w' \<and> manager_core w' \<and> switch_frame w w' \<and>
    current_mode_bitmap (img w') = current_mode_bitmap (img w) OR gained E ok \<and>
    (\<forall>k. mode_enabled k w' = (if E AND mode_bit k \<noteq> 0 then ok k else mode_enabled k w)) \<and>
    (\<forall>k. E AND mode_bit k \<noteq> 0 \<longrightarrow> (\<exists>v v'. switch_frame w v \<and> mode_enabled k v = mode_enabled k w \<and>
       mode_enable k v = Some (if ok k then 0 else - 1, v')))"
proof -
  have ls: "E AND STA_BITMAP \<noteq> 0 \<Longrightarrow> linked w Sta_Object" "E AND AP_BITMAP \<noteq> 0 \<Longrightarrow> linked w Ap_Object"
      "E AND MONITOR_BITMAP \<noteq> 0 \<Longrightarrow> linked w Monitor_Object"
    using l[of Sta_Object] l[of Ap_Object] l[of Monitor_Object] by simp_all
  obtain o1 b1 w1 where 1: "when_bit E STA_BITMAP (enter_mode STA_MODE_NUM STA_BITMAP) w = Some (b1, w1)"
      "manager_core w1" "switch_frame w w1"
      "current_mode_bitmap (img w1) = current_mode_bitmap (img w) OR (if E AND STA_BITMAP \<noteq> 0 \<and> o1 then STA_BITMAP else 0)"
      "\<forall>k. mode_enabled k w1 = (if k = Sta_Object \<and> E AND STA_BITMAP \<noteq> 0 then o1 else mode_enabled k w)"
      "E AND STA_BITMAP \<noteq> 0 \<longrightarrow> (\<exists>v. mode_enable Sta_Object w = Some (if o1 then 0 else - 1, v))"
    using sta_enter[OF core ls(1)] by blast
  have i1: "init_flag (img w1)" "linked w1 = linked w" using core_frame[OF 1(3)] core by simp_all
  obtain o2 b2 w2 where 2: "when_bit E AP_BITMAP (enter_mode AP_MODE_NUM AP_BITMAP) w1 = Some (b2, w2)"
      "manager_core w2" "switch_frame w1 w2"
      "current_mode_bitmap (img w2) = current_mode_bitmap (img w1) OR (if E AND AP_BITMAP \<noteq> 0 \<and> o2 then AP_BITMAP else 0)"
      "\<forall>k. mode_enabled k w2 = (if k = Ap_Object \<and> E AND AP_BITMAP \<noteq> 0 then o2 else mode_enabled k w1)"
      "E AND AP_BITMAP \<noteq> 0 \<longrightarrow> (\<exists>v. mode_enable Ap_Object w1 = Some (if o2 then 0 else - 1, v))"
    using ap_enter[OF 1(2) i1(1)] ls(2) i1(2) by metis
  have i2: "init_flag (img w2)" "linked w2 = linked w" using core_frame[OF 2(3)] i1 by simp_all
  obtain o3 b3 w3 where 3: "when_bit E MONITOR_BITMAP (enter_mode MONITOR_MODE_NUM MONITOR_BITMAP) w2 = Some (b3, w3)"
      "manager_core w3" "switch_frame w2 w3"
      "current_mode_bitmap (img w3) = current_mode_bitmap (img w2) OR (if E AND MONITOR_BITMAP \<noteq> 0 \<and> o3 then MONITOR_BITMAP else 0)"
      "\<forall>k. mode_enabled k w3 = (if k = Monitor_Object \<and> E AND MONITOR_BITMAP \<noteq> 0 then o3 else mode_enabled k w2)"
      "E AND MONITOR_BITMAP \<noteq> 0 \<longrightarrow> (\<exists>v. mode_enable Monitor_Object w2 = Some (if o3 then 0 else - 1, v))"
    using monitor_enter[OF 2(2) i2(1)] ls(3) i2(2) by metis
  define ok where "ok = (\<lambda>m. case m of Sta_Object \<Rightarrow> o1 | Ap_Object \<Rightarrow> o2 | Monitor_Object \<Rightarrow> o3)"
  have f: "switch_frame w w2" "switch_frame w w3" using 1(3) 2(3) 3(3) switch_frame_trans by blast+
  have "enter_all E w = Some w3"
    using 1(1) 2(1) 3(1) by (simp add: enter_all_def)
  moreover have "current_mode_bitmap (img w3) = current_mode_bitmap (img w) OR gained E ok"
    using 1(4) 2(4) 3(4) by (simp add: gained_def ok_def or.assoc)
  moreover have "\<forall>k. mode_enabled k w3 = (if E AND mode_bit k \<noteq> 0 then ok k else mode_enabled k w)"
    unfolding all_modes using 1(5) 2(5) 3(5) by (simp add: ok_def)
  moreover have "\<forall>k. E AND mode_bit k \<noteq> 0 \<longrightarrow> (\<exists>v v'. switch_frame w v \<and> mode_enabled k v = mode_enabled k w \<and>
       mode_enable k v = Some (if ok k then 0 else - 1, v'))"
  proof (intro conjI impI allI)
    fix k assume e: "E AND mode_bit k \<noteq> 0"
    show "\<exists>v v'. switch_frame w v \<and> mode_enabled k v = mode_enabled k w \<and>
       mode_enable k v = Some (if ok k then 0 else - 1, v')"
    proof (cases k)
      case Sta_Object
      then show ?thesis
        using e 1(6) by - (rule exI[of _ w], auto simp: ok_def simp del: mode_enable.simps)
    next
      case Ap_Object
      then show ?thesis
        using e 1(3,5) 2(6) by - (rule exI[of _ w1], auto simp: ok_def simp del: mode_enable.simps)
    next
      case Monitor_Object
      then show ?thesis
        using e 1(5) f 2(5) 3(6) by - (rule exI[of _ w2], auto simp: ok_def simp del: mode_enable.simps)
    qed
  qed
  ultimately show ?thesis using 3(2) f by blast
qed

text \<open>The modes a switch from one set of bits to another leaves and enters.\<close>

definition to_leave :: "wifi_mode \<Rightarrow> 'p world \<Rightarrow> 8 word" where
  "to_leave t w = (let T = wmg_wifi_mode_to_bitmap t; C = wmg_wifi_mode_to_bitmap (wifimg_get_current_mode w)
     in (T OR C) XOR T)"

definition to_enter :: "wifi_mode \<Rightarrow> 'p world \<Rightarrow> 8 word" where
  "to_enter t w = (let T = wmg_wifi_mode_to_bitmap t; C = wmg_wifi_mode_to_bitmap (wifimg_get_current_mode w)
     in (T OR C) XOR C)"

lemma switch_unfold:
  assumes "t \<noteq> WIFI_MODE_UNKNOWN" "init_flag (img w)" "t \<noteq> wifimg_get_current_mode w"
    and "support_mode_bitmap (img w) AND wmg_wifi_mode_to_bitmap t \<noteq> 0"
  shows "wifimg_switch_mode t w =
    do {
      w1 \<leftarrow> leave_all (to_leave t w) (upd_img (\<lambda>i. i\<lparr>mutex_locked := True\<rparr>) w);
      w2 \<leftarrow> enter_all (to_enter t w) w1;
      Some (if wmg_wifi_mode_to_bitmap t = current_mode_bitmap (img w2) then WMG_STATUS_SUCCESS
            else WMG_STATUS_FAIL, upd_img (\<lambda>i. i\<lparr>mutex_locked := False\<rparr>) w2)
    }"
  using assms
  by (simp add: wifimg_switch_mode_def leave_all_def enter_all_def to_leave_def to_enter_def
      wifimg_get_current_mode_def Let_def split_def Option.bind_assoc)

lemma to_leave_bits: "to_leave t w AND mode_bit m \<noteq> 0 \<longleftrightarrow>
    wmg_wifi_mode_to_bitmap (wifimg_get_current_mode w) AND mode_bit m \<noteq> 0 \<and>
    wmg_wifi_mode_to_bitmap t AND mode_bit m = 0"
  by (cases t; cases "wifimg_get_current_mode w"; cases m) (simp_all add: to_leave_def)

lemma to_enter_bits: "to_enter t w AND mode_bit m \<noteq> 0 \<longleftrightarrow>
    wmg_wifi_mode_to_bitmap (wifimg_get_current_mode w) AND mode_bit m = 0 \<and>
    wmg_wifi_mode_to_bitmap t AND mode_bit m \<noteq> 0"
  by (cases t; cases "wifimg_get_current_mode w"; cases m) (simp_all add: to_enter_def)

text \<open>Bits below those of a mode are again those of a mode.\<close>

lemma sub_bitmap_valid:
  assumes "b \<le> 7" "\<And>m. b AND mode_bit m \<noteq> 0 \<Longrightarrow> wmg_wifi_mode_to_bitmap t AND mode_bit m \<noteq> 0"
  shows "wmg_wifi_mode_to_bitmap (wmg_wifi_bitmap_to_mode b) = b"
  using bitmap_cases[OF assms(1)] assms(2)[of Sta_Object] assms(2)[of Ap_Object] assms(2)[of Monitor_Object]
  by (cases t) (auto simp: wmg_wifi_bitmap_to_mode_def)

lemma gained_bit: "gained E ok AND mode_bit m \<noteq> 0 \<longleftrightarrow> E AND mode_bit m \<noteq> 0 \<and> ok m"
  by (cases m) (simp_all add: gained_def bit.conj_disj_distrib2)

lemma switch_run:
  assumes inv: "manager_inv w" and on: "init_flag (img w)" and t: "t \<noteq> WIFI_MODE_UNKNOWN"
    and ne: "t \<noteq> wifimg_get_current_mode w"
    and sup: "support_mode_bitmap (img w) AND wmg_wifi_mode_to_bitmap t \<noteq> 0"
    and l: "\<And>m. wmg_wifi_mode_to_bitmap t AND mode_bit m \<noteq> 0 \<Longrightarrow> linked w m"
  shows "\<exists>ok b w'. wifimg_switch_mode t w =
      Some (if wmg_wifi_mode_to_bitmap t = b then WMG_STATUS_SUCCESS else WMG_STATUS_FAIL, w') \<and>
    manager_inv w' \<and> switch_frame w w' \<and> current_mode_bitmap (img w') = b \<and>
    b = (if \<exists>m. to_leave t w AND mode_bit m \<noteq> 0 then 0 else current_mode_bitmap (img w)) OR gained (to_enter t w) ok \<and>
    (\<forall>k. mode_enabled k w' = (if to_enter t w AND mode_bit k \<noteq> 0 then ok k
       else mode_enabled k w \<and> to_leave t w AND mode_bit k = 0)) \<and>
    (\<forall>k. to_enter t w AND mode_bit k \<noteq> 0 \<longrightarrow> (\<exists>v v'. fixed_part v = fixed_part w \<and>
       mode_enabled k v = mode_enabled k w \<and> mode_initialised k v = mode_initialised k w \<and> mode_enable k v = Some (if ok k then 0 else - 1, v')))"
proof -
  let ?w0 = "upd_img (\<lambda>i. i\<lparr>mutex_locked := True\<rparr>) w"
  have core0: "manager_core ?w0"
    using inv by (simp add: manager_inv_def manager_core_def has_mode_def supports_def)
  have cur: "wmg_wifi_mode_to_bitmap (wifimg_get_current_mode w) = current_mode_bitmap (img w)"
    using inv by (simp add: manager_inv_def)
  have lD: "to_leave t w AND mode_bit m \<noteq> 0 \<Longrightarrow> linked ?w0 m" for m
    using inv by (auto simp: to_leave_bits cur manager_inv_def manager_core_def has_mode_def)
  obtain w1 where 1: "leave_all (to_leave t w) ?w0 = Some w1" "manager_core w1" "switch_frame ?w0 w1"
      "current_mode_bitmap (img w1) = (if \<exists>m. to_leave t w AND mode_bit m \<noteq> 0 then 0 else current_mode_bitmap (img w))"
      "\<forall>k. mode_enabled k w1 \<longleftrightarrow> mode_enabled k w \<and> to_leave t w AND mode_bit k = 0"
    using leave_all_step[of ?w0 "to_leave t w", OF core0 _ lD] on by auto
  have i1: "init_flag (img w1)" "linked w1 = linked w" using core_frame[OF 1(3)] on by simp_all
  have lE: "to_enter t w AND mode_bit m \<noteq> 0 \<Longrightarrow> linked w1 m" for m
    using l i1(2) by (simp add: to_enter_bits)
  obtain ok w2 where 2: "enter_all (to_enter t w) w1 = Some w2" "manager_core w2" "switch_frame w1 w2"
      "current_mode_bitmap (img w2) = current_mode_bitmap (img w1) OR gained (to_enter t w) ok"
      "\<forall>k. mode_enabled k w2 = (if to_enter t w AND mode_bit k \<noteq> 0 then ok k else mode_enabled k w1)"
      "\<forall>k. to_enter t w AND mode_bit k \<noteq> 0 \<longrightarrow> (\<exists>v v'. switch_frame w1 v \<and> mode_enabled k v = mode_enabled k w1 \<and>
         mode_enable k v = Some (if ok k then 0 else - 1, v'))"
    using enter_all_step[OF 1(2) i1(1) lE] by blast
  let ?w' = "upd_img (\<lambda>i. i\<lparr>mutex_locked := False\<rparr>) w2"
  let ?b = "current_mode_bitmap (img w2)"
  have run: "wifimg_switch_mode t w =
      Some (if wmg_wifi_mode_to_bitmap t = ?b then WMG_STATUS_SUCCESS else WMG_STATUS_FAIL, ?w')"
    using 1(1) 2(1) by (simp add: switch_unfold[OF t on ne sup])
  have frame: "switch_frame w ?w'"
    using 1(3) 2(3) inv by (simp add: switch_frame_def manager_inv_def)
  have "wmg_wifi_mode_to_bitmap t AND mode_bit m \<noteq> 0" if "?b AND mode_bit m \<noteq> 0" for m
  proof -
    have "current_mode_bitmap (img w1) AND mode_bit m \<noteq> 0 \<or> to_enter t w AND mode_bit m \<noteq> 0"
      using that gained_bit[of "to_enter t w" ok m] by (auto simp: 2(4) bit.conj_disj_distrib2)
    then show ?thesis
      using to_enter_bits[of t w m] to_leave_bits[of t w m] by (auto simp: 1(4) cur split: if_splits)
  qed
  then have "wmg_wifi_mode_to_bitmap (wmg_wifi_bitmap_to_mode ?b) = ?b"
    using sub_bitmap_valid[of ?b t] 2(2) by (simp add: manager_core_def)
  then have inv': "manager_inv ?w'"
    using 2(2) by (simp add: manager_inv_def manager_core_def has_mode_def supports_def wifimg_get_current_mode_def)
  have enter: "\<exists>v v'. fixed_part v = fixed_part w \<and> mode_enabled k v = mode_enabled k w \<and> mode_initialised k v = mode_initialised k w \<and>
      mode_enable k v = Some (if ok k then 0 else - 1, v')" if e: "to_enter t w AND mode_bit k \<noteq> 0" for k
  proof -
    obtain v v' where v: "switch_frame w1 v" "mode_enabled k v = mode_enabled k w1"
        "mode_enable k v = Some (if ok k then 0 else - 1, v')"
      using 2(6) e by blast
    have "mode_enabled k w1 = mode_enabled k w"
      using 1(5) e to_enter_bits[of t w k] to_leave_bits[of t w k] by auto
    moreover have "mode_initialised k v = mode_initialised k w" "fixed_part v = fixed_part w"
      using v(1) 1(3) by (simp_all add: switch_frame_def)
    ultimately show ?thesis using v(2,3) by auto
  qed
  show ?thesis
    using run frame inv' 1(4,5) 2(4,5) enter
    by (intro exI[of _ ok] exI[of _ ?b] exI[of _ ?w']) (simp del: mode_enable.simps)
qed

section \<open>Stopping\<close>

lemma teardown_step:
  assumes good: "\<forall>m. mode_good m w" and slot: "mode_slot (img w) (mode_num m) = wmg_register_object m w"
  shows "\<exists>w'. teardown (mode_num m) w = Some w' \<and> img w' = img w \<and> fixed_part w' = fixed_part w \<and>
    (\<forall>k. mode_good k w' \<and> mode_enabled k w' = mode_enabled k w) \<and>
    (\<forall>k. mode_initialised k w' \<longleftrightarrow> mode_initialised k w \<and> \<not> (k = m \<and> linked w m))"
proof (cases "linked w m")
  case False
  then show ?thesis using good slot by (auto simp: teardown_def wmg_register_object_def)
next
  case True
  obtain w' where d: "mode_deinit m w = Some (0, w')" "others_same m w w'" "mode_good m w'"
      "\<not> mode_initialised m w'" "mode_enabled m w' = mode_enabled m w"
    using mode_deinit_step good by blast
  note o = others_sameD[OF d(2)]
  have "teardown (mode_num m) w = Some w'"
    using slot True d(1) by (simp add: teardown_def wmg_register_object_def)
  moreover have "\<forall>k. mode_good k w' \<and> mode_enabled k w' = mode_enabled k w"
    using d(3,5) o(4,6) good by metis
  moreover have "\<forall>k. mode_initialised k w' \<longleftrightarrow> mode_initialised k w \<and> \<not> (k = m \<and> linked w m)"
    using d(4) o(5) True by metis
  ultimately show ?thesis using o(1,3) by blast
qed

lemmas sta_teardown = teardown_step[where m = Sta_Object, unfolded mode_num.simps]
lemmas ap_teardown = teardown_step[where m = Ap_Object, unfolded mode_num.simps]
lemmas monitor_teardown = teardown_step[where m = Monitor_Object, unfolded mode_num.simps]

lemma wifimg_deinit_step:
  assumes inv: "manager_inv w" and on: "init_flag (img w)"
  shows "\<exists>w'. wifimg_deinit w = Some w' \<and> manager_inv w' \<and> \<not> init_flag (img w') \<and>
    current_mode_bitmap (img w') = UNK_BITMAP \<and> support_mode_bitmap (img w') = UNK_BITMAP \<and>
    fixed_part w' = fixed_part w \<and> (\<forall>m. linked w m \<longrightarrow> \<not> mode_initialised m w') \<and>
    (\<forall>m. mode_enabled m w' \<longleftrightarrow> mode_enabled m w \<and> \<not> has_mode m w)"
proof -
  let ?D = "current_mode_bitmap (img w)"
  have core: "manager_core w" and mx: "\<not> mutex_locked (img w)" using inv by (simp_all add: manager_inv_def)
  have l: "?D AND mode_bit m \<noteq> 0 \<Longrightarrow> linked w m" for m
    using core by (simp add: manager_core_def has_mode_def)
  obtain w3 where 3: "leave_chain ?D w w3" "manager_core w3" "switch_frame w w3"
      "\<forall>k. mode_enabled k w3 \<longleftrightarrow> mode_enabled k w \<and> ?D AND mode_bit k = 0"
    using leave_all_step[OF core on l] by blast
  let ?w4 = "upd_img (\<lambda>i. i\<lparr>current_mode_bitmap := UNK_BITMAP\<rparr>) w3"
  have on3: "init_flag (img w3)" "linked w3 = linked w" using core_frame[OF 3(3)] on by simp_all
  have slots: "mode_slot (img ?w4) (mode_num m) = wmg_register_object m ?w4" for m
    using 3(2) on3 by (simp add: manager_core_def)
  have p2p: "mode_slot (img ?w4) P2P_MODE_NUM = None" using 3(2) by (simp add: manager_core_def)
  have good4: "\<forall>m. mode_good m ?w4" using 3(2) by (simp add: manager_core_def)
  obtain w5 where 5: "teardown STA_MODE_NUM ?w4 = Some w5" "img w5 = img ?w4" "fixed_part w5 = fixed_part ?w4"
      "\<forall>k. mode_good k w5 \<and> mode_enabled k w5 = mode_enabled k ?w4"
      "\<forall>k. mode_initialised k w5 \<longleftrightarrow> mode_initialised k ?w4 \<and> \<not> (k = Sta_Object \<and> linked ?w4 Sta_Object)"
    using sta_teardown[OF good4 slots[of Sta_Object, unfolded mode_num.simps]] by blast
  have s5: "mode_slot (img w5) (mode_num m) = wmg_register_object m w5" "linked w5 = linked w" for m
    using slots[of m] 5(2) fixed_linked[OF 5(3)] on3 by (simp_all add: wmg_register_object_def)
  obtain w6 where 6: "teardown AP_MODE_NUM w5 = Some w6" "img w6 = img w5" "fixed_part w6 = fixed_part w5"
      "\<forall>k. mode_good k w6 \<and> mode_enabled k w6 = mode_enabled k w5"
      "\<forall>k. mode_initialised k w6 \<longleftrightarrow> mode_initialised k w5 \<and> \<not> (k = Ap_Object \<and> linked w5 Ap_Object)"
    using ap_teardown[of w5] s5(1)[of Ap_Object] 5(4) by (auto simp del: One_nat_def)
  have s6: "mode_slot (img w6) (mode_num m) = wmg_register_object m w6" "linked w6 = linked w" for m
    using s5(1)[of m] s5(2) 6(2) fixed_linked[OF 6(3)] by (simp_all add: wmg_register_object_def)
  obtain w7 where 7: "teardown MONITOR_MODE_NUM w6 = Some w7" "img w7 = img w6" "fixed_part w7 = fixed_part w6"
      "\<forall>k. mode_good k w7 \<and> mode_enabled k w7 = mode_enabled k w6"
      "\<forall>k. mode_initialised k w7 \<longleftrightarrow> mode_initialised k w6 \<and> \<not> (k = Monitor_Object \<and> linked w6 Monitor_Object)"
    using monitor_teardown[of w6] s6(1)[of Monitor_Object] 6(4) by auto
  let ?w' = "upd_img (\<lambda>i. i\<lparr>init_flag := False, wifi_status := WLAN_STATUS_DOWN,
      current_mode_bitmap := UNK_BITMAP, support_mode_bitmap := UNK_BITMAP\<rparr>) w7"
  have img7: "img w7 = img ?w4" using 5(2) 6(2) 7(2) by simp
  have "teardown P2P_MODE_NUM w7 = Some w7"
    using p2p img7 by (simp add: teardown_def)
  then have "wifimg_deinit w = Some ?w'"
    using on 3(1) 5(1) 6(1) 7(1) by (auto simp: wifimg_deinit_def leave_chain_def Let_def)
  moreover have "fixed_part ?w' = fixed_part w"
    using 3(3) 5(3) 6(3) 7(3) by (simp add: switch_frame_def)
  moreover have "\<not> mutex_locked (img ?w')" "mode_slot (img ?w') P2P_MODE_NUM = None"
    using img7 p2p 3(3) mx by (simp_all add: switch_frame_def)
  then have "manager_inv ?w'"
    using 7(4) by (simp add: manager_inv_def manager_core_def supports_def has_mode_def
        wifimg_get_current_mode_def wmg_wifi_bitmap_to_mode_def)
  moreover have "\<forall>m. linked w m \<longrightarrow> \<not> mode_initialised m ?w'"
    unfolding all_modes using 5(5) 6(5) 7(5) s5(2) s6(2) on3(2) by auto
  moreover have "\<forall>m. mode_enabled m ?w' \<longleftrightarrow> mode_enabled m w \<and> \<not> has_mode m w"
    using 3(4) 5(4) 6(4) 7(4) by (simp add: has_mode_def)
  ultimately show ?thesis by (intro exI[of _ ?w']) simp
qed

end
