(* ===== verification/Ring_Buff.thy ===== *)
theory Ring_Buff
  imports Wmg_Prelude
begin

text \<open>
  The byte ring of \<open>wifi/ring_buff.c\<close>, which carries the message queue of the action
  thread. Pointers into the block \<open>buff\<close> are offsets; the block is \<open>None\<close> while
  \<open>q->buff\<close> is NULL. A function that checks \<open>q == NULL\<close> takes the ring as an option. The
  mutex is the flag \<open>locked\<close>; \<open>cond_signals\<close> and \<open>pcond_signals\<close> count the
  \<open>pthread_cond_signal\<close> calls. Waiting releases the lock, so each return from
  \<open>pthread_cond_wait\<close> is given the change the other threads made meanwhile: a list of
  functions on the ring, one for each wake-up. A caller that has used up its wake-ups and
  still waits is \<open>Blocks\<close>. \<open>freed\<close> says that the block, the mutex and the conditions have
  been released while \<open>q->buff\<close> still points to the block: using them then is undefined.
\<close>

section \<open>State\<close>

datatype rb_signal_type = RB_SG_NONE | RB_SG_NOMAL | RB_SG_1_4 | RB_SG_1_2 | RG_SG_2_3 | RB_SG_QUIT

record ring_buff =
  enable :: bool
  buff :: "byte list option"
  buff_size :: nat
  write_pos :: nat
  read_pos :: nat
  data_len :: nat
  signal :: bool
  locked :: bool
  p_wait :: bool
  comsumer_ready :: bool
  cond_signals :: nat
  pcond_signals :: nat
  freed :: bool

type_synonym wake = "ring_buff \<Rightarrow> ring_buff"

definition cond_signal :: "ring_buff \<Rightarrow> ring_buff" where
  "cond_signal q = q\<lparr>cond_signals := Suc (cond_signals q)\<rparr>"

definition pcond_signal :: "ring_buff \<Rightarrow> ring_buff" where
  "pcond_signal q = q\<lparr>pcond_signals := Suc (pcond_signals q)\<rparr>"

section \<open>Start and stop\<close>

text \<open>
  \<open>ring_buff_init\<close>: the arguments say which of the six allocations and initialisations
  succeed, in the order the code makes them. A failure frees the block again.
\<close>

record init_results =
  malloc_ok :: bool
  mutex_ok :: bool
  cattr_ok :: bool
  cond_ok :: bool
  pcattr_ok :: bool
  pcond_ok :: bool

definition ring_buff_init :: "init_results \<Rightarrow> nat \<Rightarrow> ring_buff \<Rightarrow> int \<times> ring_buff" where
  "ring_buff_init r n q =
     (if \<not> malloc_ok r then (- 1, q\<lparr>buff := None\<rparr>)
      else
        let q = q\<lparr>buff := Some (replicate n 0), buff_size := n, signal := False,
                  data_len := 0, p_wait := False, comsumer_ready := True, enable := False,
                  write_pos := 0, read_pos := 0, freed := False\<rparr>
        in if mutex_ok r \<and> cattr_ok r \<and> cond_ok r \<and> pcattr_ok r \<and> pcond_ok r
           then (0, q\<lparr>locked := False, cond_signals := 0, pcond_signals := 0\<rparr>)
           else (- 1, q\<lparr>freed := True\<rparr>))"

definition ring_buff_deinit :: "ring_buff option \<Rightarrow> (int \<times> ring_buff option) outcome" where
  "ring_buff_deinit q =
     (case q of
        None \<Rightarrow> Returns (0, None)
      | Some q \<Rightarrow>
          if buff q = None then Returns (0, Some q)
          else if freed q then Crash
          else Returns (0, Some (q\<lparr>freed := True\<rparr>)))"

definition ring_buff_start :: "ring_buff \<Rightarrow> (int \<times> ring_buff) outcome" where
  "ring_buff_start q =
     (if freed q then Crash
      else if enable q then Returns (0, q\<lparr>locked := False\<rparr>)
      else (case buff q of
              None \<Rightarrow> Crash
            | Some b \<Rightarrow>
                Returns (0, q\<lparr>buff := Some (replicate (buff_size q) 0 @ drop (buff_size q) b),
                              read_pos := 0, write_pos := 0, data_len := 0, signal := False,
                              p_wait := False, comsumer_ready := True, enable := True,
                              locked := False\<rparr>)))"

definition ring_buff_stop :: "ring_buff \<Rightarrow> (int \<times> ring_buff) outcome" where
  "ring_buff_stop q =
     (if freed q then Crash
      else
        let q = (if enable q then q\<lparr>signal := True, enable := False\<rparr> else q)
        in Returns (0, pcond_signal (cond_signal q)))"

definition ring_buff_signal :: "rb_signal_type \<Rightarrow> ring_buff \<Rightarrow> (int \<times> ring_buff) outcome" where
  "ring_buff_signal sg q =
     (if freed q then Crash
      else
        let q = (if sg = RB_SG_QUIT then q\<lparr>signal := True\<rparr> else q)
        in Returns (0, cond_signal (q\<lparr>locked := False\<rparr>)))"

definition ring_buff_data_len :: "ring_buff option \<Rightarrow> 32 word" where
  "ring_buff_data_len q = (case q of None \<Rightarrow> - 1 | Some q \<Rightarrow> of_nat (data_len q))"

definition ring_buff_get_buff_size :: "ring_buff option \<Rightarrow> 32 word" where
  "ring_buff_get_buff_size q = (case q of None \<Rightarrow> 0 | Some q \<Rightarrow> of_nat (buff_size q))"

section \<open>Writing\<close>

text \<open>A wait gives the lock up and takes it again.\<close>

definition wake_up :: "wake \<Rightarrow> ring_buff \<Rightarrow> ring_buff" where
  "wake_up w q = (w (q\<lparr>locked := False\<rparr>))\<lparr>locked := True\<rparr>"

text \<open>The producer's wait: forever for a negative timeout, once for a positive one.\<close>

fun wait_consumer :: "int \<Rightarrow> wake list \<Rightarrow> ring_buff \<Rightarrow> ring_buff option" where
  "wait_consumer tmo [] q =
     (if tmo \<noteq> 0 \<and> \<not> comsumer_ready q \<and> \<not> signal q then None else Some q)"
| "wait_consumer tmo (w # ws) q =
     (if tmo \<noteq> 0 \<and> \<not> comsumer_ready q \<and> \<not> signal q
      then (if tmo < 0 then wait_consumer tmo ws (wake_up w q) else Some (wake_up w q))
      else Some q)"

text \<open>The copy: all of \<open>data\<close> or nothing. \<open>None\<close> is a write outside the block.\<close>

definition put_copy :: "byte list \<Rightarrow> ring_buff \<Rightarrow> (int \<times> ring_buff) option" where
  "put_copy data q =
     (let n = length data; data_end = int (buff_size q) - 1;
          w = int (write_pos q); r = int (read_pos q)
      in if r \<le> w then
           let len = (data_end - w + 1) + r
           in if int n \<le> len then
                if w + int n - 1 \<le> data_end then
                  do {
                    b \<leftarrow> buff q;
                    b \<leftarrow> memcpy_to (write_pos q) data b;
                    let w' = write_pos q + n;
                    Some (int n, q\<lparr>buff := Some b, write_pos := (if int w' > data_end then 0 else w')\<rparr>)
                  }
                else
                  let len = nat (data_end - w + 1)
                  in do {
                    b \<leftarrow> buff q;
                    b \<leftarrow> memcpy_to (write_pos q) (take len data) b;
                    b \<leftarrow> memcpy_to 0 (drop len data) b;
                    Some (int n, q\<lparr>buff := Some b, write_pos := n - len\<rparr>)
                  }
              else Some (0, q)
         else
           let len = r - w
           in if int n \<le> len then
                do {
                  b \<leftarrow> buff q;
                  b \<leftarrow> memcpy_to (write_pos q) data b;
                  let w' = write_pos q + n;
                  Some (int n, q\<lparr>buff := Some b, write_pos := (if int w' > data_end then 0 else w')\<rparr>)
                }
              else Some (0, q))"

text \<open>
  The label \<open>end\<close>: account for the bytes, release the lock and wake the reader as
  \<open>signal\<close> asks. For \<open>RB_SG_QUIT\<close> the switch leaves the lock held.
\<close>

definition put_cache :: "rb_signal_type \<Rightarrow> nat \<Rightarrow> nat" where
  "put_cache sg n =
     (case sg of RB_SG_1_4 \<Rightarrow> n div 4 | RB_SG_1_2 \<Rightarrow> n div 2 | RG_SG_2_3 \<Rightarrow> n * 2 mod 2 ^ 32 div 3 | _ \<Rightarrow> 0)"

definition put_end :: "int \<Rightarrow> rb_signal_type \<Rightarrow> ring_buff \<Rightarrow> int \<times> ring_buff" where
  "put_end ret sg q =
     (let q = q\<lparr>data_len := data_len q + nat ret\<rparr>
      in if ret = 0 then (0, q\<lparr>locked := False\<rparr>)
         else (ret,
           (case sg of
              RB_SG_NONE \<Rightarrow> q\<lparr>locked := False\<rparr>
            | RB_SG_NOMAL \<Rightarrow> cond_signal (q\<lparr>locked := False\<rparr>)
            | RB_SG_QUIT \<Rightarrow> q
            | _ \<Rightarrow> (if data_len q > put_cache sg (buff_size q)
                     then cond_signal (q\<lparr>locked := False\<rparr>) else q\<lparr>locked := False\<rparr>))))"

definition ring_buff_put_body ::
    "byte list \<Rightarrow> int \<Rightarrow> rb_signal_type \<Rightarrow> wake list \<Rightarrow> ring_buff \<Rightarrow> (int \<times> ring_buff) outcome" where
  "ring_buff_put_body data tmo sg ws q =
     (if buff q = None then Returns (- 1, q)
      else if data = [] then Returns (- 1, q)
      else if \<not> enable q then Returns (- 1, q)
      else if freed q then Crash
      else
        let q = q\<lparr>locked := True\<rparr>
        in if write_pos q = read_pos q \<and> data_len q = buff_size q then Returns (put_end 0 sg q)
           else (case wait_consumer tmo ws q of
                   None \<Rightarrow> Blocks
                 | Some q \<Rightarrow>
                     if signal q then Returns (0, q\<lparr>locked := False\<rparr>)
                     else
                       let q = (if tmo \<noteq> 0 then q\<lparr>p_wait := True, comsumer_ready := False\<rparr> else q)
                       in outcome_of_option (map_option (\<lambda>(ret, q). put_end ret sg q) (put_copy data q))))"

definition ring_buff_put ::
    "byte list \<Rightarrow> int \<Rightarrow> rb_signal_type \<Rightarrow> wake list \<Rightarrow> ring_buff option
      \<Rightarrow> (int \<times> ring_buff option) outcome" where
  "ring_buff_put data tmo sg ws q =
     (case q of
        None \<Rightarrow> Returns (- 1, None)
      | Some q \<Rightarrow> map_outcome_of (\<lambda>(ret, q). (ret, Some q)) (ring_buff_put_body data tmo sg ws q))"

section \<open>Reading\<close>

definition ready_consumer :: "ring_buff \<Rightarrow> ring_buff" where
  "ready_consumer q = (if p_wait q then pcond_signal (q\<lparr>comsumer_ready := True\<rparr>) else q)"

text \<open>
  The reader's wait. \<open>Inl q\<close> is the early return of 0 after a timed wait without data,
  \<open>Inr q\<close> goes on, \<open>None\<close> still waits.
\<close>

fun wait_data :: "int \<Rightarrow> wake list \<Rightarrow> ring_buff \<Rightarrow> (ring_buff + ring_buff) option" where
  "wait_data tmo [] q =
     (if data_len q = 0 \<and> \<not> signal q then None else Some (Inr q))"
| "wait_data tmo (w # ws) q =
     (if data_len q = 0 \<and> \<not> signal q
      then let q = wake_up w (ready_consumer q)
           in if tmo \<le> 0 then wait_data tmo ws q
              else if data_len q = 0 then Some (Inl (q\<lparr>locked := False\<rparr>)) else Some (Inr q)
      else Some (Inr q))"

definition get_copy :: "nat \<Rightarrow> ring_buff \<Rightarrow> (nat \<times> byte list \<times> ring_buff) option" where
  "get_copy n q =
     (let data_end = int (buff_size q) - 1; w = int (write_pos q); r = int (read_pos q)
      in if w \<le> r then
           let len = (data_end - r + 1) + w;
               len = (if int n \<le> len then int n else len)
           in if r + len - 1 \<le> data_end then
                do {
                  b \<leftarrow> buff q;
                  xs \<leftarrow> memcpy_from (read_pos q) (nat len) b;
                  let r' = read_pos q + nat len;
                  Some (nat len, xs, q\<lparr>read_pos := (if int r' > data_end then 0 else r')\<rparr>)
                }
              else
                let t = data_end - r + 1
                in do {
                  b \<leftarrow> buff q;
                  xs \<leftarrow> memcpy_from (read_pos q) (nat t) b;
                  ys \<leftarrow> memcpy_from 0 (nat (len - t)) b;
                  Some (nat len, xs @ ys, q\<lparr>read_pos := nat (len - t)\<rparr>)
                }
         else
           let len = w - r;
               len = (if int n \<le> len then int n else len)
           in do {
                b \<leftarrow> buff q;
                xs \<leftarrow> memcpy_from (read_pos q) (nat len) b;
                let r' = read_pos q + nat len;
                Some (nat len, xs, q\<lparr>read_pos := (if int r' > data_end then 0 else r')\<rparr>)
              })"

definition ring_buff_get_body ::
    "nat \<Rightarrow> int \<Rightarrow> wake list \<Rightarrow> ring_buff \<Rightarrow> (int \<times> byte list \<times> ring_buff) outcome" where
  "ring_buff_get_body n tmo ws q =
     (if buff q = None then Returns (- 1, [], q)
      else if \<not> enable q then Returns (- 1, [], q)
      else if n = 0 then Returns (- 1, [], q)
      else if freed q then Crash
      else
        (case wait_data tmo ws (q\<lparr>locked := True\<rparr>) of
           None \<Rightarrow> Blocks
         | Some (Inl q) \<Rightarrow> Returns (0, [], q)
         | Some (Inr q) \<Rightarrow>
             if signal q then Returns (0, [], (ready_consumer q)\<lparr>locked := False\<rparr>)
             else outcome_of_option (map_option
                    (\<lambda>(len, xs, q). (int len, xs,
                        (ready_consumer (q\<lparr>data_len := data_len q - len\<rparr>))\<lparr>locked := False\<rparr>))
                    (get_copy n q))))"

definition ring_buff_get ::
    "nat \<Rightarrow> int \<Rightarrow> wake list \<Rightarrow> ring_buff option \<Rightarrow> (int \<times> byte list \<times> ring_buff option) outcome" where
  "ring_buff_get n tmo ws q =
     (case q of
        None \<Rightarrow> Returns (- 1, [], None)
      | Some q \<Rightarrow> map_outcome_of (\<lambda>(ret, xs, q). (ret, xs, Some q)) (ring_buff_get_body n tmo ws q))"

section \<open>Invariant and contents\<close>

text \<open>
  \<open>rb_inv\<close>: the block is allocated at its size, both positions lie in it, and the writer
  stands \<open>data_len\<close> bytes after the reader. \<open>rb_list\<close> is the queue of bytes it holds.
\<close>

definition rb_inv :: "ring_buff \<Rightarrow> bool" where
  "rb_inv q \<longleftrightarrow>
     (case buff q of None \<Rightarrow> False | Some b \<Rightarrow> length b = buff_size q) \<and> \<not> freed q \<and>
     0 < buff_size q \<and> buff_size q < 2 ^ 31 \<and> read_pos q < buff_size q \<and>
     data_len q \<le> buff_size q \<and> write_pos q = (read_pos q + data_len q) mod buff_size q"

definition rb_list :: "ring_buff \<Rightarrow> byte list" where
  "rb_list q =
     (case buff q of None \<Rightarrow> []
      | Some b \<Rightarrow> map (\<lambda>i. b ! ((read_pos q + i) mod buff_size q)) [0..<data_len q])"

definition rb_full :: "ring_buff \<Rightarrow> bool" where
  "rb_full q \<longleftrightarrow> data_len q = buff_size q"

text \<open>What can be done with the ring without waiting: enabled, not asked to quit.\<close>

definition rb_open :: "ring_buff \<Rightarrow> bool" where
  "rb_open q \<longleftrightarrow> rb_inv q \<and> enable q \<and> \<not> signal q"

lemma rb_inv_elim:
  assumes "rb_inv q"
  obtains b where "buff q = Some b" "length b = buff_size q" "\<not> freed q" "0 < buff_size q"
    "buff_size q < 2 ^ 31" "read_pos q < buff_size q" "data_len q \<le> buff_size q"
    "write_pos q = (read_pos q + data_len q) mod buff_size q" "write_pos q < buff_size q"
  using assms by (cases "buff q") (auto simp: rb_inv_def)

lemma length_rb_list [simp]: "rb_inv q \<Longrightarrow> length (rb_list q) = data_len q"
  by (auto simp: rb_list_def elim!: rb_inv_elim)

lemma rb_inv_flags [simp]:
  "rb_inv (q\<lparr>locked := l\<rparr>) = rb_inv q" "rb_list (q\<lparr>locked := l\<rparr>) = rb_list q"
  "rb_inv (q\<lparr>p_wait := pw, comsumer_ready := cr\<rparr>) = rb_inv q"
  "rb_list (q\<lparr>p_wait := pw, comsumer_ready := cr\<rparr>) = rb_list q"
  "rb_inv (q\<lparr>signal := sg\<rparr>) = rb_inv q" "rb_list (q\<lparr>signal := sg\<rparr>) = rb_list q"
  "rb_inv (q\<lparr>signal := sg, enable := en\<rparr>) = rb_inv q"
  "rb_list (q\<lparr>signal := sg, enable := en\<rparr>) = rb_list q"
  "rb_inv (cond_signal q) = rb_inv q" "rb_list (cond_signal q) = rb_list q"
  "rb_inv (pcond_signal q) = rb_inv q" "rb_list (pcond_signal q) = rb_list q"
  "rb_inv (ready_consumer q) = rb_inv q" "rb_list (ready_consumer q) = rb_list q"
  by (simp_all add: rb_inv_def rb_list_def cond_signal_def pcond_signal_def ready_consumer_def
      split: option.split)

lemma signals_keep [simp]:
  "enable (ready_consumer q) = enable q" "signal (ready_consumer q) = signal q"
  "buff_size (ready_consumer q) = buff_size q" "locked (ready_consumer q) = locked q"
  "data_len (ready_consumer q) = data_len q"
  "enable (cond_signal q) = enable q" "signal (cond_signal q) = signal q"
  "buff_size (cond_signal q) = buff_size q" "locked (cond_signal q) = locked q"
  by (simp_all add: cond_signal_def pcond_signal_def ready_consumer_def)

text \<open>The distance of a position from \<open>p\<close>, going forward around the ring.\<close>

definition ring_off :: "nat \<Rightarrow> nat \<Rightarrow> nat \<Rightarrow> nat" where
  "ring_off n p j = (if p \<le> j then j - p else j + n - p)"

lemma ring_off_step: "p < n \<Longrightarrow> i < n \<Longrightarrow> ring_off n p ((p + i) mod n) = i"
  by (auto simp: ring_off_def mod_wrap_once)

lemma ring_off_back:
  assumes "r < n" "d \<le> n" "i < d" "d < n \<or> m = 0"
  shows "\<not> ring_off n ((r + d) mod n) ((r + i) mod n) < m \<or> n < d + m"
  using assms by (auto simp: ring_off_def mod_wrap_once)

text \<open>Writing at \<open>p\<close> and around the end of the block.\<close>

definition ring_write :: "nat \<Rightarrow> byte list \<Rightarrow> byte list \<Rightarrow> byte list \<Rightarrow> bool" where
  "ring_write p data b b' \<longleftrightarrow>
     length b' = length b \<and>
     (\<forall>j<length b. b' ! j = (let k = ring_off (length b) p j in if k < length data then data ! k else b ! j))"

lemma ring_write_straight:
  assumes "memcpy_to p data b = Some b'"
  shows "ring_write p data b b'"
proof -
  have "p + length data \<le> length b" using assms by (simp add: memcpy_to_def split: if_splits)
  then show ?thesis
    using length_memcpy_to[OF assms] nth_memcpy_to[OF assms]
    by (auto simp: ring_write_def ring_off_def Let_def)
qed

lemma ring_write_wrapped:
  assumes "memcpy_to p (take (length b - p) data) b = Some b1"
    and "memcpy_to 0 (drop (length b - p) data) b1 = Some b'"
    and "p < length b" "length b - p < length data" "length data \<le> length b"
  shows "ring_write p data b b'"
  using assms(3-5) length_memcpy_to[OF assms(1)] length_memcpy_to[OF assms(2)]
    nth_memcpy_to[OF assms(1)] nth_memcpy_to[OF assms(2)]
  by (auto simp: ring_write_def ring_off_def Let_def add.commute)

lemma put_copy_fits:
  assumes inv: "rb_inv q" and full: "\<not> rb_full q" and fits: "data_len q + length data \<le> buff_size q"
  shows "\<exists>b b'. buff q = Some b \<and> ring_write (write_pos q) data b b' \<and>
           put_copy data q = Some (int (length data),
             q\<lparr>buff := Some b', write_pos := (write_pos q + length data) mod buff_size q\<rparr>)"
proof -
  obtain b where b: "buff q = Some b" "length b = buff_size q" and n: "read_pos q < buff_size q"
      "data_len q \<le> buff_size q" "write_pos q < buff_size q"
    and w: "write_pos q = (read_pos q + data_len q) mod buff_size q"
    using inv by (rule rb_inv_elim)
  have len: "length data \<le> (if read_pos q \<le> write_pos q
      then buff_size q - write_pos q + read_pos q else read_pos q - write_pos q)"
    using full fits n w by (auto simp: rb_full_def mod_wrap_once split: if_splits)
  show ?thesis
  proof (cases "write_pos q + length data \<le> buff_size q")
    case True
    obtain b' where b': "memcpy_to (write_pos q) data b = Some b'"
      using memcpy_to_ok True b by metis
    have "(write_pos q + length data) mod buff_size q =
        (if buff_size q \<le> write_pos q + length data then 0 else write_pos q + length data)"
      using True by (auto simp: mod_if)
    then have "put_copy data q = Some (int (length data),
             q\<lparr>buff := Some b', write_pos := (write_pos q + length data) mod buff_size q\<rparr>)"
      using True len n b b' by (auto simp: put_copy_def Let_def of_nat_diff)
    then show ?thesis using b b' ring_write_straight by blast
  next
    case False
    let ?t = "buff_size q - write_pos q"
    have le: "read_pos q \<le> write_pos q" using False len n by (auto split: if_splits)
    have t: "nat (int (buff_size q) - 1 - int (write_pos q) + 1) = ?t" using n by simp
    have "write_pos q + length (take ?t data) \<le> length b" using b n by (auto simp: min_def)
    then obtain b1 where b1: "memcpy_to (write_pos q) (take ?t data) b = Some b1"
      using memcpy_to_ok by blast
    obtain b' where b': "memcpy_to 0 (drop ?t data) b1 = Some b'"
      using memcpy_to_ok[of 0 "drop ?t data" b1] length_memcpy_to[OF b1] b fits by fastforce
    have "(write_pos q + length data) mod buff_size q = length data - ?t"
      using False n fits by (auto simp: mod_wrap_once)
    then have "put_copy data q = Some (int (length data),
             q\<lparr>buff := Some b', write_pos := (write_pos q + length data) mod buff_size q\<rparr>)"
      using False le len n b b1 b' t by (auto simp: put_copy_def Let_def)
    moreover have "ring_write (write_pos q) data b b'"
      using ring_write_wrapped b1 b' b False n fits by auto
    ultimately show ?thesis using b by blast
  qed
qed

lemma put_copy_refused:
  assumes inv: "rb_inv q" and full: "\<not> rb_full q" and over: "buff_size q < data_len q + length data"
  shows "put_copy data q = Some (0, q)"
  using inv
proof (rule rb_inv_elim)
  fix b
  assume "read_pos q < buff_size q" "data_len q \<le> buff_size q" "write_pos q < buff_size q"
    "write_pos q = (read_pos q + data_len q) mod buff_size q"
  then show ?thesis
    using full over by (auto simp: put_copy_def Let_def rb_full_def mod_wrap_once split: if_splits)
qed

text \<open>The copy does not look at the number of stored bytes.\<close>

lemma put_copy_data_len:
  "put_copy data (q\<lparr>data_len := d\<rparr>) = map_option (\<lambda>(r, q). (r, q\<lparr>data_len := d\<rparr>)) (put_copy data q)"
  by (cases q) (auto simp: put_copy_def Let_def split: Option.bind_splits)

text \<open>The bytes behind the reader survive a write that fits; the new ones follow them.\<close>

lemma ring_write_appends:
  assumes inv: "rb_inv q" and b: "buff q = Some b" and w: "ring_write (write_pos q) data b b'"
    and fits: "data_len q + length data \<le> buff_size q"
  shows "rb_inv (q\<lparr>buff := Some b', write_pos := (write_pos q + length data) mod buff_size q,
                  data_len := data_len q + length data\<rparr>)" (is "rb_inv ?q")
    and "rb_list (q\<lparr>buff := Some b', write_pos := (write_pos q + length data) mod buff_size q,
                  data_len := data_len q + length data\<rparr>) = rb_list q @ data"
proof -
  let ?n = "buff_size q" and ?r = "read_pos q" and ?d = "data_len q"
  have n: "length b = ?n" "0 < ?n" "?r < ?n" "?d \<le> ?n" "write_pos q = (?r + ?d) mod ?n"
      "write_pos q < ?n" "?n < 2 ^ 31" "\<not> freed q"
    using inv b by (auto elim!: rb_inv_elim)
  have len: "length b' = ?n" using w n by (simp add: ring_write_def)
  show "rb_inv ?q"
    using n len fits by (simp add: rb_inv_def mod_simps add.assoc)
  have old: "b' ! ((?r + i) mod ?n) = b ! ((?r + i) mod ?n)" if "i < ?d" for i
  proof -
    have "\<not> ring_off ?n (write_pos q) ((?r + i) mod ?n) < length data"
      using ring_off_back[of ?r ?n ?d i "length data"] that n fits by fastforce
    then show ?thesis using w n by (auto simp: ring_write_def)
  qed
  have new: "b' ! ((?r + i) mod ?n) = data ! (i - ?d)" if "?d \<le> i" "i < ?d + length data" for i
  proof -
    have "(?r + i) mod ?n = (write_pos q + (i - ?d)) mod ?n"
      using n that mod_add_left_eq[of "?r + ?d" ?n "i - ?d"] by simp
    then have "ring_off ?n (write_pos q) ((?r + i) mod ?n) = i - ?d"
      using ring_off_step[of "write_pos q" ?n "i - ?d"] n that fits by simp
    then show ?thesis using w n that by (auto simp: ring_write_def Let_def)
  qed
  show "rb_list ?q = rb_list q @ data"
    by (rule nth_equalityI) (use b old new in \<open>auto simp: rb_list_def nth_append\<close>)
qed

lemma put_end_none [simp]: "put_end 0 sg q = (0, q\<lparr>locked := False\<rparr>)"
  by (cases q) (simp add: put_end_def)

lemma put_end_other:
  "rb_inv (snd (put_end ret sg q)) = rb_inv (q\<lparr>data_len := data_len q + nat ret\<rparr>)"
  "rb_list (snd (put_end ret sg q)) = rb_list (q\<lparr>data_len := data_len q + nat ret\<rparr>)"
  "fst (put_end ret sg q) = ret"
  "enable (snd (put_end ret sg q)) = enable q" "signal (snd (put_end ret sg q)) = signal q"
  "buff_size (snd (put_end ret sg q)) = buff_size q"
  "sg \<noteq> RB_SG_QUIT \<Longrightarrow> \<not> locked (snd (put_end ret sg q))"
  by (simp_all add: put_end_def Let_def split: rb_signal_type.split)

text \<open>The reader's copy takes what there is, at most \<open>n\<close> bytes, from the front.\<close>

lemma rb_list_take:
  "rb_inv q \<Longrightarrow> buff q = Some b \<Longrightarrow> m \<le> data_len q \<Longrightarrow>
     take m (rb_list q) = map (\<lambda>i. b ! ((read_pos q + i) mod buff_size q)) [0..<m]"
  by (simp add: rb_list_def take_map)

lemma get_copy_takes:
  assumes inv: "rb_inv q" and data: "0 < data_len q" and m: "m = min n (data_len q)" and n: "0 < n"
  shows "get_copy n q =
    Some (m, take m (rb_list q), q\<lparr>read_pos := (read_pos q + m) mod buff_size q\<rparr>)"
proof -
  obtain b where b: "buff q = Some b" "length b = buff_size q" and h: "read_pos q < buff_size q"
      "data_len q \<le> buff_size q" "write_pos q < buff_size q"
    and w: "write_pos q = (read_pos q + data_len q) mod buff_size q"
    using inv by (rule rb_inv_elim)
  have take_m: "take m (rb_list q) = map (\<lambda>i. b ! ((read_pos q + i) mod buff_size q)) [0..<m]"
    using rb_list_take[OF inv b(1)] m by simp
  have mm: "(if n \<le> data_len q then int n else int (data_len q)) = int m"
    using m by simp
  have around: "int (buff_size q) - 1 - int (read_pos q) + 1 + int (write_pos q) = int (data_len q)"
    if "write_pos q \<le> read_pos q"
    using that h w data by (auto simp: mod_wrap_once split: if_splits)
  have ahead: "int (write_pos q) - int (read_pos q) = int (data_len q)" if "\<not> write_pos q \<le> read_pos q"
    using that h w data by (auto simp: mod_wrap_once split: if_splits)
  note unfold_copy = get_copy_def Let_def of_nat_le_iff mm nat_int if_True if_False
  show ?thesis
  proof (cases "read_pos q + m \<le> buff_size q")
    case True
    have "take m (rb_list q) = take m (drop (read_pos q) b)"
      using True b take_m by (intro nth_equalityI) auto
    moreover have "(read_pos q + m) mod buff_size q =
        (if int (read_pos q + m) > int (buff_size q) - 1 then 0 else read_pos q + m)"
      using True by (auto simp: mod_if)
    moreover have "memcpy_from (read_pos q) m b = Some (take m (drop (read_pos q) b))"
      using True b by (simp add: memcpy_from_def)
    moreover have fits: "(int (read_pos q) + int m - 1 \<le> int (buff_size q) - 1) = True"
      using True by simp
    have "get_copy n q = do {
        b \<leftarrow> buff q;
        xs \<leftarrow> memcpy_from (read_pos q) m b;
        Some (m, xs, q\<lparr>read_pos := (if int (read_pos q + m) > int (buff_size q) - 1 then 0 else read_pos q + m)\<rparr>)
      }"
    proof (cases "write_pos q \<le> read_pos q")
      case le: True
      show ?thesis by (simp only: unfold_copy le around[OF le] fits)
    next
      case le: False
      show ?thesis by (simp only: unfold_copy le ahead[OF le])
    qed
    ultimately show ?thesis using b by simp
  next
    case False
    let ?t = "buff_size q - read_pos q"
    have le: "write_pos q \<le> read_pos q"
      using False h w m by (auto simp: mod_wrap_once split: if_splits)
    have t: "nat (int (buff_size q) - 1 - int (read_pos q) + 1) = ?t"
        "nat (int m - (int (buff_size q) - 1 - int (read_pos q) + 1)) = m - ?t"
      using h False by simp_all
    have "take m (rb_list q) = take ?t (drop (read_pos q) b) @ take (m - ?t) b"
    proof (rule nth_equalityI)
      show "length (take m (rb_list q)) = length (take ?t (drop (read_pos q) b) @ take (m - ?t) b)"
        using take_m False b h m by simp
    next
      fix i assume "i < length (take m (rb_list q))"
      then have "i < m" using take_m by simp
      then show "take m (rb_list q) ! i = (take ?t (drop (read_pos q) b) @ take (m - ?t) b) ! i"
        using take_m False b h m by (auto simp: nth_append mod_wrap_once add.commute)
    qed
    moreover have "(read_pos q + m) mod buff_size q = m - ?t"
      using False h m by (auto simp: mod_wrap_once)
    moreover have "memcpy_from (read_pos q) ?t b = Some (take ?t (drop (read_pos q) b))"
        "memcpy_from 0 (m - ?t) b = Some (take (m - ?t) b)"
      using False m h b by (auto simp: memcpy_from_def)
    moreover have over: "(int (read_pos q) + int m - 1 \<le> int (buff_size q) - 1) = False"
      using False by simp
    have "get_copy n q = do {
        b \<leftarrow> buff q;
        xs \<leftarrow> memcpy_from (read_pos q) ?t b;
        ys \<leftarrow> memcpy_from 0 (m - ?t) b;
        Some (m, xs @ ys, q\<lparr>read_pos := m - ?t\<rparr>)
      }"
      by (simp only: unfold_copy le around[OF le] over t)
    ultimately show ?thesis using b by simp
  qed
qed

lemma get_copy_drops:
  assumes inv: "rb_inv q" and m: "m \<le> data_len q"
  shows "rb_inv (q\<lparr>read_pos := (read_pos q + m) mod buff_size q, data_len := data_len q - m\<rparr>)"
    and "rb_list (q\<lparr>read_pos := (read_pos q + m) mod buff_size q, data_len := data_len q - m\<rparr>)
         = drop m (rb_list q)"
proof -
  obtain b where b: "buff q = Some b" "length b = buff_size q" and h: "read_pos q < buff_size q"
      "data_len q \<le> buff_size q" "write_pos q = (read_pos q + data_len q) mod buff_size q"
    and i: "\<not> freed q" "0 < buff_size q" "buff_size q < 2 ^ 31"
    using inv by (rule rb_inv_elim)
  show "rb_inv (q\<lparr>read_pos := (read_pos q + m) mod buff_size q, data_len := data_len q - m\<rparr>)"
    using b h i m mod_add_left_eq[of "read_pos q + m" "buff_size q" "data_len q - m"]
    by (simp add: rb_inv_def)
  show "rb_list (q\<lparr>read_pos := (read_pos q + m) mod buff_size q, data_len := data_len q - m\<rparr>)
         = drop m (rb_list q)"
    using b m by (intro nth_equalityI) (auto simp: rb_list_def mod_simps add.assoc)
qed

section \<open>What the operations do\<close>

text \<open>The copy and what follows it, on a ring that is not full.\<close>

lemma put_tail:
  assumes inv: "rb_inv q" and nf: "\<not> rb_full q"
  shows "\<exists>q'. outcome_of_option (map_option (\<lambda>(ret, q). put_end ret sg q) (put_copy data q)) =
      Returns (if data_len q + length data \<le> buff_size q then int (length data) else 0, q') \<and>
      rb_inv q' \<and> enable q' = enable q \<and> signal q' = signal q \<and> buff_size q' = buff_size q \<and>
      (sg \<noteq> RB_SG_QUIT \<longrightarrow> \<not> locked q') \<and>
      rb_list q' = (if data_len q + length data \<le> buff_size q then rb_list q @ data else rb_list q)"
proof (cases "data_len q + length data \<le> buff_size q")
  case True
  obtain b b' where b: "buff q = Some b" "ring_write (write_pos q) data b b'" and
    c: "put_copy data q = Some (int (length data),
          q\<lparr>buff := Some b', write_pos := (write_pos q + length data) mod buff_size q\<rparr>)"
    using put_copy_fits[OF inv nf True] by auto
  let ?q1 = "q\<lparr>buff := Some b', write_pos := (write_pos q + length data) mod buff_size q\<rparr>"
  obtain q' where q': "put_end (int (length data)) sg ?q1 = (int (length data), q')"
    using put_end_other(3) by (metis prod.collapse)
  then have "rb_inv q'" "rb_list q' = rb_list q @ data" "enable q' = enable q"
      "signal q' = signal q" "buff_size q' = buff_size q" "sg \<noteq> RB_SG_QUIT \<Longrightarrow> \<not> locked q'"
    using put_end_other[where sg = sg and ret = "int (length data)" and q = ?q1]
      ring_write_appends[OF inv b True] by simp_all
  then show ?thesis using c q' True by simp
next
  case False
  then have "put_copy data q = Some (0, q)" using put_copy_refused[OF inv nf] by simp
  then show ?thesis using inv False by simp
qed

text \<open>The non-waiting write, as the message queue calls it.\<close>

lemma put_body_now:
  assumes "rb_open q" "data \<noteq> []"
  shows "\<exists>q'. ring_buff_put_body data 0 sg ws q =
      Returns (if data_len q + length data \<le> buff_size q then int (length data) else 0, q') \<and>
      rb_open q' \<and> buff_size q' = buff_size q \<and> (sg \<noteq> RB_SG_QUIT \<longrightarrow> \<not> locked q') \<and>
      rb_list q' = (if data_len q + length data \<le> buff_size q then rb_list q @ data else rb_list q)"
proof -
  let ?q = "q\<lparr>locked := True\<rparr>"
  have inv: "rb_inv ?q" and en: "enable q" "\<not> signal q" "buff q \<noteq> None" "\<not> freed q"
      and w: "write_pos q = (read_pos q + data_len q) mod buff_size q" "read_pos q < buff_size q"
    using assms by (auto simp: rb_open_def elim: rb_inv_elim)
  have ws: "wait_consumer 0 ws ?q = Some ?q" by (cases ws) simp_all
  show ?thesis
  proof (cases "rb_full q")
    case True
    then have "write_pos q = read_pos q" "data_len q = buff_size q"
      using w by (auto simp: rb_full_def)
    then show ?thesis
      using assms(2) en inv by (auto simp: ring_buff_put_body_def rb_open_def)
  next
    case False
    then have "\<not> rb_full ?q" by (simp add: rb_full_def)
    from put_tail[OF inv this, of sg data] show ?thesis
      using assms(2) en ws False by (auto simp: ring_buff_put_body_def rb_open_def rb_full_def)
  qed
qed

text \<open>A wait leaves a good ring if the other threads do.\<close>

lemma wait_consumer_keeps:
  assumes "\<And>w q. w \<in> set ws \<Longrightarrow> rb_inv q \<Longrightarrow> rb_inv (w q) \<and> \<not> rb_full (w q)"
  shows "wait_consumer tmo ws q = Some q' \<Longrightarrow> rb_inv q \<Longrightarrow> \<not> rb_full q \<Longrightarrow> rb_inv q' \<and> \<not> rb_full q'"
  using assms
proof (induction ws arbitrary: q)
  case Nil
  then show ?case by (simp split: if_splits)
next
  case (Cons w ws)
  have "rb_inv (wake_up w q)" "\<not> rb_full (wake_up w q)"
    using Cons.prems by (auto simp: wake_up_def rb_full_def)
  then show ?case
    using Cons.prems Cons.IH[of "wake_up w q"] by (simp split: if_splits)
qed

lemma wait_data_keeps:
  assumes "\<And>w q. w \<in> set ws \<Longrightarrow> rb_inv q \<Longrightarrow> rb_inv (w q)"
  shows "wait_data tmo ws q = Some s \<Longrightarrow> rb_inv q \<Longrightarrow>
    (case s of Inl q' \<Rightarrow> rb_inv q' \<and> \<not> locked q' | Inr q' \<Rightarrow> rb_inv q' \<and> (signal q' \<or> 0 < data_len q'))"
  using assms
proof (induction ws arbitrary: q)
  case Nil
  then show ?case by (auto split: if_splits)
next
  case (Cons w ws)
  have "rb_inv (wake_up w (ready_consumer q))"
    using Cons.prems by (simp add: wake_up_def)
  then show ?case
    using Cons.prems Cons.IH[of "wake_up w (ready_consumer q)"] by (auto simp: Let_def split: if_splits)
qed

text \<open>The read of a ring that holds data: no wait, whatever the timeout.\<close>

lemma get_body_now:
  assumes "rb_open q" "0 < n" "rb_list q \<noteq> []"
  shows "\<exists>q'. ring_buff_get_body n tmo ws q =
      Returns (int (min n (data_len q)), take n (rb_list q), q') \<and>
      rb_open q' \<and> rb_list q' = drop n (rb_list q) \<and> \<not> locked q' \<and> buff_size q' = buff_size q"
proof -
  let ?q = "q\<lparr>locked := True\<rparr>" and ?m = "min n (data_len q)"
  have inv: "rb_inv ?q" and en: "enable q" "\<not> signal q" "buff q \<noteq> None" "\<not> freed q"
    using assms by (auto simp: rb_open_def elim: rb_inv_elim)
  have len: "length (rb_list q) = data_len q" using inv by (metis length_rb_list rb_inv_flags(1,2))
  then have d: "0 < data_len q" using assms(3) by (cases "data_len q") auto
  have wd: "wait_data tmo ws ?q = Some (Inr ?q)" using d by (cases ws) simp_all
  have g: "get_copy n ?q = Some (?m, take ?m (rb_list ?q), ?q\<lparr>read_pos := (read_pos ?q + ?m) mod buff_size ?q\<rparr>)"
    by (rule get_copy_takes) (use inv d assms in auto)
  let ?q1 = "?q\<lparr>read_pos := (read_pos ?q + ?m) mod buff_size ?q, data_len := data_len ?q - ?m\<rparr>"
  have dr: "rb_inv ?q1" "rb_list ?q1 = drop ?m (rb_list ?q)"
    using get_copy_drops[OF inv, of ?m] by simp_all
  have "take ?m (rb_list q) = take n (rb_list q)" "drop ?m (rb_list q) = drop n (rb_list q)"
    using len by (auto simp: min_def)
  then show ?thesis
    using en wd g dr assms(2) by (simp add: ring_buff_get_body_def rb_open_def)
qed

section \<open>Properties\<close>



text \<open>A small ring for the examples: four bytes, two of them stored around the end.\<close>

definition demo_ring :: ring_buff where
  "demo_ring = \<lparr>enable = True, buff = Some [8, 0, 0, 7], buff_size = 4, write_pos = 1, read_pos = 3,
     data_len = 2, signal = False, locked = False, p_wait = False, comsumer_ready = True,
     cond_signals = 0, pcond_signals = 0, freed = False\<rparr>"

lemma demo_ring_open: "rb_open demo_ring" "rb_inv demo_ring"
  by (simp_all add: rb_open_def rb_inv_def demo_ring_def)

lemma demo_ring_fields:
  "data_len demo_ring = 2" "buff_size demo_ring = 4" "\<not> locked demo_ring" "enable demo_ring"
  by (simp_all add: demo_ring_def)

lemma demo_ring_list: "rb_list demo_ring = [7, 8]"
  by (simp add: rb_list_def demo_ring_def upt_rec)


text \<open>
  C8. The non-waiting write of the message queue refines a bounded queue of bytes: the bytes
  are appended and their number returned when they fit, otherwise the ring is unchanged and
  the result is 0; the lock is released and the ring stays open.
\<close>

theorem ring_put_appends:
  assumes "rb_open q" "data \<noteq> []" "sg \<noteq> RB_SG_QUIT"
  shows "\<exists>q'. ring_buff_put data 0 sg ws (Some q) =
      Returns (if length (rb_list q) + length data \<le> buff_size q then int (length data) else 0, Some q') \<and>
      rb_open q' \<and> buff_size q' = buff_size q \<and> \<not> locked q' \<and>
      rb_list q' = (if length (rb_list q) + length data \<le> buff_size q then rb_list q @ data else rb_list q)"
  using put_body_now[OF assms(1,2), of sg ws] assms
  by (auto simp: ring_buff_put_def rb_open_def)

theorem ring_put_appends_witness:
  "\<exists>q'. ring_buff_put [1, 2] 0 RB_SG_NOMAL [] (Some demo_ring) = Returns (2, Some q') \<and>
        rb_list q' = [7, 8, 1, 2]"
  using ring_put_appends[of demo_ring "[1, 2]" RB_SG_NOMAL "[]"] demo_ring_open
  by (auto simp: demo_ring_fields demo_ring_list)

text \<open>
  A read of a valid ring, with any timeout, never leaves the block, keeps the ring valid
  and always gives the lock back, provided that the threads that run while it waits keep the
  ring valid.
\<close>

theorem ring_get_safe:
  assumes "rb_inv q" "\<not> locked q"
    and "\<And>w q. w \<in> set ws \<Longrightarrow> rb_inv q \<Longrightarrow> rb_inv (w q)"
  shows "case ring_buff_get n tmo ws (Some q) of
      Returns (ret, xs, Some q') \<Rightarrow>
        rb_inv q' \<and> \<not> locked q' \<and> (ret = - 1 \<and> xs = [] \<or> ret = int (length xs) \<and> length xs \<le> n)
    | Returns (ret, xs, None) \<Rightarrow> False | Blocks \<Rightarrow> rb_list q = [] | Crash \<Rightarrow> False"
proof -
  let ?q = "q\<lparr>locked := True\<rparr>"
  have *: "case ring_buff_get_body n tmo ws q of
      Returns (ret, xs, q') \<Rightarrow>
        rb_inv q' \<and> \<not> locked q' \<and> (ret = - 1 \<and> xs = [] \<or> ret = int (length xs) \<and> length xs \<le> n)
    | Blocks \<Rightarrow> rb_list q = [] | Crash \<Rightarrow> False"
  proof (cases "enable q \<and> n \<noteq> 0")
    case False
    then show ?thesis
      using assms(1,2) by (auto simp: ring_buff_get_body_def rb_inv_def split: option.splits)
  next
    case True
    then have run: "ring_buff_get_body n tmo ws q = (case wait_data tmo ws ?q of None \<Rightarrow> Blocks
        | Some (Inl q) \<Rightarrow> Returns (0, [], q)
        | Some (Inr q) \<Rightarrow> if signal q then Returns (0, [], (ready_consumer q)\<lparr>locked := False\<rparr>)
            else outcome_of_option (map_option (\<lambda>(len, xs, q). (int len, xs,
              (ready_consumer (q\<lparr>data_len := data_len q - len\<rparr>))\<lparr>locked := False\<rparr>)) (get_copy n q)))"
      using assms(1) by (auto simp: ring_buff_get_body_def rb_inv_def split: option.splits)
    have inv: "rb_inv ?q" using assms(1) by simp
    show ?thesis
    proof (cases "wait_data tmo ws ?q")
      case None
      then have "data_len q = 0" by (cases ws) (auto split: if_splits)
      then show ?thesis using run None assms(1) by (auto simp: rb_list_def split: option.splits)
    next
      case (Some s)
      note keeps = wait_data_keeps[OF _ Some inv] 
      show ?thesis
      proof (cases s)
        case (Inl q1)
        then show ?thesis using run Some keeps assms(3) by simp
      next
        case (Inr q1)
        then have q1: "rb_inv q1" "signal q1 \<or> 0 < data_len q1" using keeps assms(3) by auto
        show ?thesis
        proof (cases "signal q1")
          case True
          then show ?thesis using run Some Inr q1 by simp
        next
          case False
          let ?m = "min n (data_len q1)"
          have "get_copy n q1 = Some (?m, take ?m (rb_list q1), q1\<lparr>read_pos := (read_pos q1 + ?m) mod buff_size q1\<rparr>)"
            by (rule get_copy_takes) (use q1 False True in auto)
          then show ?thesis
            using run Some Inr q1 False get_copy_drops[OF q1(1), of ?m] by (simp add: rb_inv_flags)
        qed
      qed
    qed
  qed
  then show ?thesis
    by (cases "ring_buff_get_body n tmo ws q") (auto simp: ring_buff_get_def)
qed

theorem ring_get_safe_witness:
  "case ring_buff_get 3 0 [] (Some demo_ring) of
      Returns (ret, xs, Some q') \<Rightarrow> rb_inv q' \<and> \<not> locked q' \<and> length xs \<le> 3
    | Returns (ret, xs, None) \<Rightarrow> False | Blocks \<Rightarrow> False | Crash \<Rightarrow> False"
  using ring_get_safe[of demo_ring "[]" 3 0] demo_ring_open demo_ring_fields demo_ring_list
  by (auto split: outcome.splits option.splits)

text \<open>
  C9. A read of a ring that holds data returns at once with the oldest bytes, at most as many
  as asked for, and leaves the rest: together with what a write does the ring is a first-in first-out queue.
\<close>

theorem ring_get_takes:
  assumes "rb_open q" "0 < n" "rb_list q \<noteq> []"
  shows "\<exists>q'. ring_buff_get n tmo ws (Some q) =
      Returns (int (min n (length (rb_list q))), take n (rb_list q), Some q') \<and>
      rb_open q' \<and> \<not> locked q' \<and> buff_size q' = buff_size q \<and> rb_list q' = drop n (rb_list q)"
  using get_body_now[OF assms, of tmo ws] assms
  by (auto simp: ring_buff_get_def rb_open_def)

theorem ring_get_takes_witness:
  "\<exists>q'. ring_buff_get 1 0 [] (Some demo_ring) = Returns (1, [7], Some q') \<and> rb_list q' = [8]"
  using ring_get_takes[of demo_ring 1 0 "[]"] demo_ring_open by (auto simp: demo_ring_list)

text \<open>
  After a wait the writer does not look again whether the ring is full. When another
  thread has filled the ring meanwhile, the write still stores its bytes over unread ones and
  counts them, so that \<open>data_len\<close> passes the size of the block.
\<close>

theorem ring_put_overrun:
  assumes "rb_open q" "\<not> rb_full q" "\<not> comsumer_ready q"
    and "rb_open (w (q\<lparr>locked := False\<rparr>))" "rb_full (w (q\<lparr>locked := False\<rparr>))"
    and "data \<noteq> []" "length data \<le> buff_size (w (q\<lparr>locked := False\<rparr>))" "sg \<noteq> RB_SG_QUIT"
    and "0 < tmo"
  shows "\<exists>q'. ring_buff_put data tmo sg (w # ws) (Some q) = Returns (int (length data), Some q') \<and>
      buff_size q' < data_len q' \<and> \<not> rb_inv q'"
proof -
  let ?q1 = "(wake_up w (q\<lparr>locked := True\<rparr>))\<lparr>p_wait := True, comsumer_ready := False\<rparr>"
  let ?q2 = "?q1\<lparr>data_len := 0\<rparr>"
  have w: "wake_up w (q\<lparr>locked := True\<rparr>) = (w (q\<lparr>locked := False\<rparr>))\<lparr>locked := True\<rparr>"
    by (simp add: wake_up_def)
  have full: "rb_inv ?q1" "data_len ?q1 = buff_size ?q1" "0 < buff_size ?q1"
    "buff_size ?q1 = buff_size (w (q\<lparr>locked := False\<rparr>))"
    using assms(4,5) by (auto simp: w rb_open_def rb_full_def elim: rb_inv_elim)
  have "write_pos ?q1 = read_pos ?q1"
    using full by (auto elim!: rb_inv_elim)
  then have inv2: "rb_inv ?q2" "\<not> rb_full ?q2"
    using full by (auto simp: rb_inv_def rb_full_def split: option.splits)
  obtain b b' where c2: "put_copy data ?q2 = Some (int (length data), ?q2\<lparr>buff := Some b',
        write_pos := (write_pos ?q2 + length data) mod buff_size ?q2\<rparr>)"
    using put_copy_fits[OF inv2, of data] assms(7) full by auto
  have "put_copy data ?q1 = put_copy data (?q2\<lparr>data_len := data_len ?q1\<rparr>)" by simp
  then have c1: "put_copy data ?q1 = Some (int (length data), ?q1\<lparr>buff := Some b',
        write_pos := (write_pos ?q1 + length data) mod buff_size ?q1\<rparr>)"
    using c2 unfolding put_copy_data_len by simp
  let ?q3 = "?q1\<lparr>buff := Some b', write_pos := (write_pos ?q1 + length data) mod buff_size ?q1\<rparr>"
  obtain q' where q': "put_end (int (length data)) sg ?q3 = (int (length data), q')"
    using put_end_other(3) by (metis prod.collapse)
  have "data_len (snd (put_end (int (length data)) sg ?q3)) = data_len ?q1 + length data"
    by (simp add: put_end_def cond_signal_def Let_def split: rb_signal_type.split)
  then have "data_len q' = buff_size q' + length data"
    using put_end_other(6)[of "int (length data)" sg ?q3] q' full(2) by simp
  then have "buff_size q' < data_len q'" "\<not> rb_inv q'"
    using assms(6) by (auto simp: rb_inv_def)
  moreover have "ring_buff_put_body data tmo sg (w # ws) q = Returns (put_end (int (length data)) sg ?q3)"
    using assms c1 by (auto simp: ring_buff_put_body_def rb_open_def rb_inv_def rb_full_def w split: option.splits)
  ultimately show ?thesis
    using q' by (simp add: ring_buff_put_def)
qed

text \<open>Another producer stores two bytes while the first one waits for the consumer.\<close>

definition demo_refill :: wake where
  "demo_refill q = q\<lparr>buff := Some [8, 9, 10, 7], write_pos := 3, data_len := 4, comsumer_ready := True\<rparr>"

theorem ring_put_overrun_witness:
  "\<exists>q'. ring_buff_put [1, 2] 5 RB_SG_NOMAL [demo_refill] (Some (demo_ring\<lparr>comsumer_ready := False\<rparr>))
      = Returns (2, Some q') \<and> buff_size q' < data_len q'"
proof -
  let ?q = "demo_ring\<lparr>comsumer_ready := False\<rparr>"
  have "rb_open ?q" "\<not> rb_full ?q" "rb_open (demo_refill (?q\<lparr>locked := False\<rparr>))"
      "rb_full (demo_refill (?q\<lparr>locked := False\<rparr>))" "buff_size (demo_refill (?q\<lparr>locked := False\<rparr>)) = 4"
    by (simp_all add: rb_open_def rb_inv_def rb_full_def demo_ring_def demo_refill_def)
  then show ?thesis
    using ring_put_overrun[of ?q demo_refill "[1, 2]" RB_SG_NOMAL 5 "[]"] by auto
qed

text \<open>
  A write that stores data with \<open>RB_SG_QUIT\<close> returns with the lock still held: the case
  of the switch has no unlock. Every other kind of signal releases it.
\<close>

theorem ring_put_quit_holds_lock:
  assumes "rb_open q" "data \<noteq> []" "length (rb_list q) + length data \<le> buff_size q"
  shows "\<exists>q'. ring_buff_put data 0 RB_SG_QUIT ws (Some q) = Returns (int (length data), Some q') \<and> locked q'"
proof -
  let ?q = "q\<lparr>locked := True\<rparr>"
  have inv: "rb_inv ?q" and nf: "\<not> rb_full ?q" and fits: "data_len ?q + length data \<le> buff_size ?q"
    using assms by (auto simp: rb_open_def rb_full_def)
  have ws: "wait_consumer 0 ws ?q = Some ?q" by (cases ws) simp_all
  show ?thesis
    using put_copy_fits[OF inv nf fits] assms ws nf
    by (auto simp: ring_buff_put_def ring_buff_put_body_def rb_open_def rb_inv_def put_end_def rb_full_def
        split: option.splits)
qed

theorem ring_put_quit_holds_lock_witness:
  "\<exists>q'. ring_buff_put [1, 2] 0 RB_SG_QUIT [] (Some demo_ring) = Returns (2, Some q') \<and> locked q'"
  using ring_put_quit_holds_lock[of demo_ring "[1, 2]" "[]"] demo_ring_open
  by (simp add: demo_ring_fields demo_ring_list)

end
