(* ===== verification/Net_Queue.thy ===== *)
theory Net_Queue
  imports Ring_Buff
begin

text \<open>
  The message queue of \<open>wifi/queue.c\<close> on top of the byte ring, the interface of a bounded
  first-in first-out queue it offers to the action thread, and the queue of message pointers
  the action thread keeps in it (eight bytes each on the aarch64 target).
\<close>

section \<open>The queue operations\<close>

abbreviation "OS_NET_STATUS_OK \<equiv> 0 :: int"
abbreviation "OS_NET_STATUS_FAILED \<equiv> 1 :: int"
abbreviation "OS_NET_STATUS_NOT_READY \<equiv> 2 :: int"
abbreviation "OS_NET_STATUS_BUSY \<equiv> 3 :: int"
abbreviation "OS_NET_STATUS_PARAM_INVALID \<equiv> 4 :: int"
abbreviation "OS_NET_STATUS_NOMEM \<equiv> 5 :: int"

definition os_net_queue_create ::
    "init_results \<Rightarrow> nat \<Rightarrow> nat \<Rightarrow> ring_buff \<Rightarrow> (int \<times> ring_buff) outcome" where
  "os_net_queue_create r queue_len msg_size q =
     (let (ret, q) = ring_buff_init r (queue_len * msg_size mod 2 ^ 32) q
      in if ret \<noteq> 0 then Returns (OS_NET_STATUS_NOMEM, q)
         else map_outcome_of (\<lambda>(_, q). (OS_NET_STATUS_OK, q)) (ring_buff_start q))"

text \<open>The timeout argument is not used: a send never waits.\<close>

definition os_net_queue_send :: "byte list \<Rightarrow> ring_buff option \<Rightarrow> (int \<times> ring_buff option) outcome" where
  "os_net_queue_send msg q =
     map_outcome_of
       (\<lambda>(ret, q). (if ret = 0 then OS_NET_STATUS_NOMEM else OS_NET_STATUS_OK, q))
       (ring_buff_put msg 0 RB_SG_NOMAL [] q)"

definition os_net_queue_receive ::
    "nat \<Rightarrow> int \<Rightarrow> wake list \<Rightarrow> ring_buff option \<Rightarrow> (int \<times> byte list \<times> ring_buff option) outcome" where
  "os_net_queue_receive msg_size tmo ws q =
     map_outcome_of
       (\<lambda>(ret, xs, q). (if ret = 0 then OS_NET_STATUS_FAILED else OS_NET_STATUS_OK, xs, q))
       (ring_buff_get msg_size tmo ws q)"

definition os_net_queue_delete :: "ring_buff \<Rightarrow> (int \<times> ring_buff) outcome" where
  "os_net_queue_delete q =
     bind_outcome (ring_buff_stop q)
       (\<lambda>(_, q). bind_outcome (ring_buff_deinit (Some q))
          (\<lambda>(_, q'). Returns (OS_NET_STATUS_OK, (case q' of None \<Rightarrow> q | Some q' \<Rightarrow> q'))))"

section \<open>Pointers as bytes\<close>

type_synonym ptr = "64 word"

definition ptr_bytes :: "ptr \<Rightarrow> byte list" where
  "ptr_bytes p = map (\<lambda>i. ucast (drop_bit (8 * i) p)) [0..<8]"

definition ptr_of_bytes :: "byte list \<Rightarrow> ptr" where
  "ptr_of_bytes bs = foldr (\<lambda>b p. ucast b OR push_bit 8 p) bs 0"

lemma length_ptr_bytes [simp]: "length (ptr_bytes p) = 8"
  by (simp add: ptr_bytes_def)

lemma ptr_bytes_nonempty [simp]: "ptr_bytes p \<noteq> []"
  by (simp add: ptr_bytes_def)

lemma bit_foldr_bytes:
  fixes bs :: "byte list"
  shows "bit (foldr (\<lambda>b p. (ucast b :: ptr) OR push_bit 8 p) bs 0) n \<longleftrightarrow>
     n < 64 \<and> n div 8 < length bs \<and> bit (bs ! (n div 8)) (n mod 8)"
proof (induction bs arbitrary: n)
  case Nil
  then show ?case by simp
next
  case (Cons b bs)
  show ?case
  proof (cases "n < 8")
    case True
    then show ?thesis by (simp add: bit_or_iff bit_push_bit_iff bit_ucast_iff)
  next
    case False
    then have "n div 8 = Suc ((n - 8) div 8)" "n mod 8 = (n - 8) mod 8"
      by (auto simp: le_div_geq le_mod_geq)
    moreover have "\<not> bit b n"
      using False bit_imp_le_length[of b n] by auto
    ultimately show ?thesis
      using False Cons.IH[of "n - 8"]
      by (auto simp: bit_or_iff bit_push_bit_iff bit_ucast_iff)
  qed
qed

lemma ptr_roundtrip [simp]: "ptr_of_bytes (ptr_bytes p) = p"
proof (rule bit_word_eqI)
  fix n assume "n < LENGTH(64)"
  moreover from this have "n div 8 < 8" by simp
  ultimately show "bit (ptr_of_bytes (ptr_bytes p)) n = bit p n"
    by (simp add: ptr_of_bytes_def bit_foldr_bytes ptr_bytes_def bit_ucast_iff bit_drop_bit_eq)
qed

text \<open>The pointers stored in a run of bytes, eight bytes each.\<close>

function ptrs_of :: "byte list \<Rightarrow> ptr list" where
  "ptrs_of bs = (if length bs < 8 then [] else ptr_of_bytes (take 8 bs) # ptrs_of (drop 8 bs))"
  by pat_completeness auto
termination by (relation "measure length") auto

declare ptrs_of.simps [simp del]

lemma length_ptrs_of [simp]: "length (ptrs_of bs) = length bs div 8"
  by (induction bs rule: ptrs_of.induct) (subst ptrs_of.simps, auto simp: le_div_geq)

lemma ptrs_of_append:
  "8 dvd length bs \<Longrightarrow> ptrs_of (bs @ ptr_bytes p) = ptrs_of bs @ [p]"
proof (induction bs rule: ptrs_of.induct)
  case (1 bs)
  show ?case
  proof (cases "length bs < 8")
    case True
    then have "bs = []" using 1 by (auto elim: dvdE)
    then show ?thesis by (simp add: ptrs_of.simps)
  next
    case False
    then have "ptrs_of (drop 8 bs @ ptr_bytes p) = ptrs_of (drop 8 bs) @ [p]"
      using 1 by simp
    then show ?thesis
      using False by (subst (1 2) ptrs_of.simps) auto
  qed
qed

lemma ptrs_of_step:
  "8 \<le> length bs \<Longrightarrow> ptrs_of bs = ptr_of_bytes (take 8 bs) # ptrs_of (drop 8 bs)"
  by (subst ptrs_of.simps) simp

lemma ptrs_of_Nil_iff: "8 dvd length bs \<Longrightarrow> ptrs_of bs = [] \<longleftrightarrow> bs = []"
  by (subst ptrs_of.simps) (auto elim: dvdE)

section \<open>A bounded first-in first-out queue\<close>

text \<open>
  What the action thread relies on: a send is accepted exactly while there is room and puts
  its message last; a receive takes the first message and fails only on an empty queue.
\<close>

datatype 'm fifo_op = Send 'm | Recv

fun fifo_run :: "('m \<Rightarrow> 'q \<Rightarrow> bool \<times> 'q) \<Rightarrow> ('q \<Rightarrow> ('m \<times> 'q) option) \<Rightarrow> 'm fifo_op list \<Rightarrow> 'q
    \<Rightarrow> 'm list \<times> 'm list \<times> 'q" where
  "fifo_run snd_op rcv_op [] q = ([], [], q)"
| "fifo_run snd_op rcv_op (Send m # ops) q =
     (let (acc, q) = snd_op m q; (sent, got, q) = fifo_run snd_op rcv_op ops q
      in (if acc then m # sent else sent, got, q))"
| "fifo_run snd_op rcv_op (Recv # ops) q =
     (case rcv_op q of
        None \<Rightarrow> fifo_run snd_op rcv_op ops q
      | Some (m, q) \<Rightarrow> (let (sent, got, q) = fifo_run snd_op rcv_op ops q in (sent, m # got, q)))"

locale bounded_fifo =
  fixes ok :: "'q \<Rightarrow> bool"
    and items :: "'q \<Rightarrow> 'm list"
    and capacity :: "'q \<Rightarrow> nat"
    and snd_op :: "'m \<Rightarrow> 'q \<Rightarrow> bool \<times> 'q"
    and rcv_op :: "'q \<Rightarrow> ('m \<times> 'q) option"
  assumes bound: "ok q \<Longrightarrow> length (items q) \<le> capacity q"
    and send: "ok q \<Longrightarrow> snd_op m q = (acc, q') \<Longrightarrow>
      ok q' \<and> capacity q' = capacity q \<and> (acc \<longleftrightarrow> length (items q) < capacity q) \<and>
      items q' = (if acc then items q @ [m] else items q)"
    and recv: "ok q \<Longrightarrow> rcv_op q = Some (m, q') \<Longrightarrow>
      ok q' \<and> capacity q' = capacity q \<and> items q = m # items q'"
    and recv_none: "ok q \<Longrightarrow> rcv_op q = None \<longleftrightarrow> items q = []"
begin

text \<open>Whatever the interleaving, messages come out in the order they were accepted.\<close>

lemma run_in_order:
  "fifo_run snd_op rcv_op ops q = (sent, got, q') \<Longrightarrow> ok q \<Longrightarrow>
     items q @ sent = got @ items q' \<and> ok q' \<and> capacity q' = capacity q"
proof (induction ops arbitrary: q sent got)
  case Nil
  then show ?case by simp
next
  case (Cons op ops)
  have tail: "items q1 @ s1 = g1 @ items q2 \<and> ok q2 \<and> capacity q2 = capacity q1"
    if "fifo_run snd_op rcv_op ops q1 = (s1, g1, q2)" "ok q1" "q2 = q'" for q1 s1 g1 q2
    using Cons.IH that by blast
  show ?case
  proof (cases op)
    case (Send m)
    obtain acc q1 where s: "snd_op m q = (acc, q1)" by fastforce
    obtain s1 g1 q2 where r: "fifo_run snd_op rcv_op ops q1 = (s1, g1, q2)"
      using prod_cases3 by blast
    show ?thesis
      using Cons.prems Send s r send[OF Cons.prems(2) s] tail[OF r] by (auto split: if_splits)
  next
    case Recv
    show ?thesis
    proof (cases "rcv_op q")
      case None
      then show ?thesis using Cons Recv by simp
    next
      case (Some p)
      obtain m q1 where p: "p = (m, q1)" by (cases p)
      obtain s1 g1 q2 where r: "fifo_run snd_op rcv_op ops q1 = (s1, g1, q2)"
        using prod_cases3 by blast
      show ?thesis
        using Cons.prems Recv Some p r recv[of q m q1] tail[OF r] by auto
    qed
  qed
qed

lemma run_drains:
  assumes "ok q" "items q = []" "fifo_run snd_op rcv_op ops q = (sent, got, q')" "rcv_op q' = None"
  shows "got = sent"
  using run_in_order[OF assms(3,1)] recv_none[of q'] assms by simp

end

section \<open>The queue of message pointers\<close>

text \<open>
  \<open>act_task_post\<close> sends the pointer of a message, \<open>os_thread_handler\<close> receives one; the ring
  is open and holds whole pointers. A send that is refused, or any failure of the call, leaves
  the caller with a status other than \<open>OS_NET_STATUS_OK\<close>.
\<close>

definition queue_ok :: "ring_buff \<Rightarrow> bool" where
  "queue_ok q \<longleftrightarrow> rb_open q \<and> 8 dvd data_len q \<and> 8 dvd buff_size q"

definition queue_items :: "ring_buff \<Rightarrow> ptr list" where
  "queue_items q = ptrs_of (rb_list q)"

definition queue_room :: "ring_buff \<Rightarrow> nat" where
  "queue_room q = buff_size q div 8"

definition queue_send_ptr :: "ptr \<Rightarrow> ring_buff \<Rightarrow> bool \<times> ring_buff" where
  "queue_send_ptr p q =
     (case os_net_queue_send (ptr_bytes p) (Some q) of
        Returns (st, Some q') \<Rightarrow> (st = OS_NET_STATUS_OK, q')
      | _ \<Rightarrow> (False, q))"

definition queue_receive_ptr :: "ring_buff \<Rightarrow> (ptr \<times> ring_buff) option" where
  "queue_receive_ptr q =
     (case os_net_queue_receive 8 (- 1) [] (Some q) of
        Returns (st, xs, Some q') \<Rightarrow> if st = OS_NET_STATUS_OK then Some (ptr_of_bytes xs, q') else None
      | _ \<Rightarrow> None)"

lemma queue_send_ptr_step:
  assumes "queue_ok q" "queue_send_ptr p q = (acc, q')"
  shows "queue_ok q' \<and> queue_room q' = queue_room q \<and>
    (acc \<longleftrightarrow> length (queue_items q) < queue_room q) \<and>
    queue_items q' = (if acc then queue_items q @ [p] else queue_items q)"
proof -
  have q: "rb_open q" "8 dvd data_len q" "8 dvd buff_size q" and inv: "rb_inv q"
    using assms by (auto simp: queue_ok_def rb_open_def)
  have len: "length (rb_list q) = data_len q" using inv by simp
  have room: "data_len q + 8 \<le> buff_size q \<longleftrightarrow> data_len q div 8 < buff_size q div 8"
    using q by (auto elim!: dvdE)
  obtain q1 where q1: "ring_buff_put_body (ptr_bytes p) 0 RB_SG_NOMAL [] q =
      Returns (if data_len q + 8 \<le> buff_size q then 8 else 0, q1)" "rb_open q1"
      "buff_size q1 = buff_size q"
      "rb_list q1 = (if data_len q + 8 \<le> buff_size q then rb_list q @ ptr_bytes p else rb_list q)"
    using put_body_now[OF q(1), of "ptr_bytes p" RB_SG_NOMAL "[]"] by auto
  have "acc = (data_len q + 8 \<le> buff_size q)" "q' = q1"
    using assms(2) q1(1) by (auto simp: queue_send_ptr_def os_net_queue_send_def ring_buff_put_def split: if_splits)
  moreover have "length (rb_list q1) = data_len q1" using q1(2) by (simp add: rb_open_def)
  moreover have "8 dvd data_len q + 8" using q(2) by simp
  ultimately show ?thesis
    using q q1 len room ptrs_of_append[of "rb_list q" p]
    by (cases acc) (auto simp: queue_ok_def queue_items_def queue_room_def)
qed

lemma queue_receive_ptr_step:
  assumes "queue_ok q"
  shows "queue_receive_ptr q = None \<longleftrightarrow> queue_items q = []"
    and "queue_receive_ptr q = Some (p, q') \<Longrightarrow>
      queue_ok q' \<and> queue_room q' = queue_room q \<and> queue_items q = p # queue_items q'"
proof -
  have q: "rb_open q" "8 dvd data_len q" "8 dvd buff_size q" and inv: "rb_inv q"
    using assms by (auto simp: queue_ok_def rb_open_def)
  have len: "length (rb_list q) = data_len q" using inv by simp
  have nil: "queue_items q = [] \<longleftrightarrow> rb_list q = []"
    using ptrs_of_Nil_iff[of "rb_list q"] len q by (simp add: queue_items_def)
  have empty: "queue_receive_ptr q = None" if "rb_list q = []"
    using that len q by (auto simp: queue_receive_ptr_def os_net_queue_receive_def ring_buff_get_def
        ring_buff_get_body_def rb_open_def rb_inv_def split: option.splits)
  have some: "\<exists>q1. queue_receive_ptr q = Some (ptr_of_bytes (take 8 (rb_list q)), q1) \<and> rb_open q1 \<and>
      rb_list q1 = drop 8 (rb_list q) \<and> buff_size q1 = buff_size q" if ne: "rb_list q \<noteq> []"
    using get_body_now[OF q(1) _ ne, of 8 "- 1" "[]"] ne len length_greater_0_conv[of "rb_list q"]
    by (auto simp: queue_receive_ptr_def os_net_queue_receive_def ring_buff_get_def)
  show "queue_receive_ptr q = None \<longleftrightarrow> queue_items q = []"
    using nil empty some by fastforce
  show "queue_ok q' \<and> queue_room q' = queue_room q \<and> queue_items q = p # queue_items q'"
    if r: "queue_receive_ptr q = Some (p, q')"
  proof -
    have ne: "rb_list q \<noteq> []" using empty r by fastforce
    then have l: "rb_open q'" "rb_list q' = drop 8 (rb_list q)" "buff_size q' = buff_size q"
        "p = ptr_of_bytes (take 8 (rb_list q))"
      using some[OF ne] r by auto
    have "8 \<le> length (rb_list q)" using ne len q by (cases "rb_list q") (auto elim!: dvdE)
    moreover have "data_len q' = data_len q - 8"
      using l len length_rb_list[of q'] by (simp add: rb_open_def)
    ultimately show ?thesis
      using l q len ptrs_of_step[of "rb_list q"] by (simp add: queue_ok_def queue_room_def queue_items_def)
  qed
qed

interpretation act_queue: bounded_fifo queue_ok queue_items queue_room queue_send_ptr queue_receive_ptr
proof unfold_locales
  fix q assume "queue_ok q"
  then show "length (queue_items q) \<le> queue_room q"
    by (auto simp: queue_ok_def queue_items_def queue_room_def rb_open_def div_le_mono elim: rb_inv_elim)
qed (use queue_send_ptr_step queue_receive_ptr_step in blast)+

text \<open>The queue as \<open>act_init\<close> makes it: open, empty, room for 72 pointers in 24 messages' bytes.\<close>

lemma fresh_ring:
  assumes "malloc_ok r" "mutex_ok r" "cattr_ok r" "cond_ok r" "pcattr_ok r" "pcond_ok r"
    and "0 < n" "n < 2 ^ 31"
  shows "\<exists>q1 q2. ring_buff_init r n q = (0, q1) \<and> ring_buff_start q1 = Returns (0, q2) \<and>
    rb_open q2 \<and> rb_list q2 = [] \<and> buff_size q2 = n \<and> data_len q2 = 0 \<and> \<not> locked q2"
  using assms by (simp add: ring_buff_init_def ring_buff_start_def rb_open_def rb_inv_def rb_list_def)

text \<open>
  C6. The message queue delivers in order: from a freshly created queue, under any
  interleaving of sends and receives, the pointers received are those accepted, in the order
  of acceptance, followed by what is still queued; none is lost, repeated or altered on its
  way through the byte ring.
\<close>

theorem queue_delivers_in_order:
  assumes "malloc_ok r" "mutex_ok r" "cattr_ok r" "cond_ok r" "pcattr_ok r" "pcond_ok r"
    and "os_net_queue_create r 24 24 q0 = Returns (st, q)"
    and "fifo_run queue_send_ptr queue_receive_ptr ops q = (sent, got, q')"
  shows "st = OS_NET_STATUS_OK \<and> sent = got @ queue_items q' \<and> length (queue_items q') \<le> 72"
proof -
  have q: "st = OS_NET_STATUS_OK" "queue_ok q" "queue_items q = []" "queue_room q = 72"
    using fresh_ring[OF assms(1-6), of 576 q0] assms(7)
    by (auto simp: os_net_queue_create_def queue_ok_def queue_items_def queue_room_def ptrs_of.simps)
  have "queue_items q @ sent = got @ queue_items q' \<and> queue_ok q' \<and> queue_room q' = queue_room q"
    by (rule act_queue.run_in_order[OF assms(8) q(2)])
  then show ?thesis using q act_queue.bound[of q'] by simp
qed

definition all_ok :: init_results where
  "all_ok = \<lparr>malloc_ok = True, mutex_ok = True, cattr_ok = True, cond_ok = True, pcattr_ok = True,
     pcond_ok = True\<rparr>"

lemma all_ok_fields [simp]:
  "malloc_ok all_ok" "mutex_ok all_ok" "cattr_ok all_ok" "cond_ok all_ok" "pcattr_ok all_ok"
  "pcond_ok all_ok"
  by (simp_all add: all_ok_def)

theorem queue_delivers_in_order_witness:
  "\<exists>q sent got q'. os_net_queue_create all_ok 24 24 demo_ring = Returns (OS_NET_STATUS_OK, q) \<and>
     fifo_run queue_send_ptr queue_receive_ptr [Send 5, Send 6, Recv] q = (sent, got, q') \<and>
     sent = got @ queue_items q'"
proof -
  obtain q where q: "os_net_queue_create all_ok 24 24 demo_ring = Returns (OS_NET_STATUS_OK, q)"
    using fresh_ring[of all_ok 576 demo_ring] by (auto simp: os_net_queue_create_def)
  obtain sent got q' where r:
    "fifo_run queue_send_ptr queue_receive_ptr [Send 5, Send 6, Recv] q = (sent, got, q')"
    using prod_cases3 by blast
  show ?thesis
    using queue_delivers_in_order[OF _ _ _ _ _ _ q r] q r by auto
qed

end
