(* ===== verification/Act_Api.thy ===== *)
theory Act_Api
  imports Net_Queue
begin

text \<open>
  The action thread of \<open>wifi/api_action.c\<close>: callers post the address of a message to the
  queue and wait on a semaphore; the thread takes the message, runs the action registered
  under its table and opcode and releases the semaphore. Messages live in a heap; actions are
  functions on a world \<open>'w\<close>, with argument values \<open>'v\<close>, that may run into undefined behaviour
  (\<open>None\<close>). \<open>malloc\<close>'s answer is an argument.
\<close>

section \<open>State\<close>

record 'v act_msg =
  msg_id :: "8 word"
  msg_opcode :: "8 word"
  msg_call_arg :: "'v list option"
  msg_cb_arg :: "'v list option"

type_synonym ('w, 'v) act_action = "'v list option \<Rightarrow> 'v list option \<Rightarrow> 'w \<Rightarrow> 'w option"

text \<open>An entry of an action table; \<open>None\<close> is a NULL action.\<close>

type_synonym ('w, 'v) act_table = "('w, 'v) act_action option list"

record ('w, 'v) act_sys =
  act_funcs :: "('w, 'v) act_table option list"
  queue :: ring_buff
  act_pid :: nat
  sem :: nat
  mutex_depth :: nat
  is_sync :: bool
  act_enable :: bool
  heap :: "ptr \<Rightarrow> 'v act_msg option"
  world :: 'w

abbreviation "ACT_FUNC_NUM \<equiv> 20 :: nat"
abbreviation "OS_NET_TASK_QUEUE_LEN \<equiv> 24 :: nat"
abbreviation "SIZEOF_ACT_MSG \<equiv> 24 :: nat"

section \<open>The action thread\<close>

text \<open>\<open>act_funcs[tid][opcode].action\<close>; an access outside the arrays is \<open>None\<close>.\<close>

definition act_lookup ::
    "('w, 'v) act_sys \<Rightarrow> 8 word \<Rightarrow> 8 word \<Rightarrow> ('w, 'v) act_action option option" where
  "act_lookup s tid opcode =
     (if unat tid < length (act_funcs s)
      then (case act_funcs s ! unat tid of
              None \<Rightarrow> Some None
            | Some tbl \<Rightarrow> if unat opcode < length tbl then Some (tbl ! unat opcode) else None)
      else None)"

definition run_action ::
    "('w, 'v) act_action \<Rightarrow> 'v list option \<Rightarrow> 'v list option \<Rightarrow> ('w, 'v) act_sys
      \<Rightarrow> ('w, 'v) act_sys outcome" where
  "run_action f call_arg cb_arg s =
     map_outcome_of (\<lambda>w. s\<lparr>world := w\<rparr>) (outcome_of_option (f call_arg cb_arg (world s)))"

text \<open>One pass through the loop of \<open>os_thread_handler\<close>.\<close>

definition act_dispatch :: "ptr \<Rightarrow> ('w, 'v) act_sys \<Rightarrow> ('w, 'v) act_sys outcome" where
  "act_dispatch p s =
     (case heap s p of
        None \<Rightarrow> Crash
      | Some m \<Rightarrow>
          (case act_lookup s (msg_id m) (msg_opcode m) of
             None \<Rightarrow> Crash
           | Some f \<Rightarrow>
               map_outcome_of (\<lambda>s. if is_sync s then s\<lparr>sem := Suc (sem s)\<rparr> else s)
                 (case f of
                    None \<Rightarrow> Returns s
                  | Some f \<Rightarrow> run_action f (msg_call_arg m) (msg_cb_arg m) s)))"

definition os_thread_handler_step :: "('w, 'v) act_sys \<Rightarrow> ('w, 'v) act_sys outcome" where
  "os_thread_handler_step s =
     (case os_net_queue_receive 8 (- 1) [] (Some (queue s)) of
        Returns (st, xs, Some q) \<Rightarrow>
          if st = OS_NET_STATUS_OK
          then if length xs = 8 then act_dispatch (ptr_of_bytes xs) (s\<lparr>queue := q\<rparr>) else Crash
          else Returns (s\<lparr>queue := q\<rparr>)
      | Returns (st, xs, None) \<Rightarrow> Crash
      | Blocks \<Rightarrow> Blocks
      | Crash \<Rightarrow> Crash)"

section \<open>Posting an action\<close>

definition act_task_post :: "ptr \<Rightarrow> ('w, 'v) act_sys \<Rightarrow> (int \<times> ('w, 'v) act_sys) outcome" where
  "act_task_post p s =
     (case os_net_queue_send (ptr_bytes p) (Some (queue s)) of
        Returns (st, Some q) \<Rightarrow>
          Returns (if st \<noteq> OS_NET_STATUS_OK then OS_NET_STATUS_BUSY else OS_NET_STATUS_OK, s\<lparr>queue := q\<rparr>)
      | Returns (st, None) \<Rightarrow> Crash
      | Blocks \<Rightarrow> Blocks
      | Crash \<Rightarrow> Crash)"

text \<open>
  \<open>act_transfer_wait\<close>: what happens while the caller waits is a list of passes of the action
  thread, with \<open>Interrupt\<close> for a signal that makes \<open>sem_wait\<close> fail.
\<close>

datatype wait_event = Thread_Pass | Interrupt

fun act_transfer_wait ::
    "wait_event list \<Rightarrow> ('w, 'v) act_sys \<Rightarrow> (int \<times> ('w, 'v) act_sys) outcome" where
  "act_transfer_wait evs s =
     (if 0 < sem s then Returns (OS_NET_STATUS_OK, s\<lparr>sem := sem s - 1\<rparr>)
      else (case evs of
              [] \<Rightarrow> Blocks
            | Interrupt # _ \<Rightarrow> Returns (OS_NET_STATUS_FAILED, s)
            | Thread_Pass # evs \<Rightarrow> bind_outcome (os_thread_handler_step s) (act_transfer_wait evs)))"

definition act_transfer_handle ::
    "8 word \<Rightarrow> 16 word \<Rightarrow> 'v list option \<Rightarrow> 'v list option \<Rightarrow> nat \<Rightarrow> ptr option \<Rightarrow> wait_event list
      \<Rightarrow> ('w, 'v) act_sys \<Rightarrow> (int \<times> ('w, 'v) act_sys) outcome" where
  "act_transfer_handle tid opcode call_arg cb_arg pid mp evs s =
     (if \<not> act_enable s then Returns (OS_NET_STATUS_NOT_READY, s)
      else (case mp of
        None \<Rightarrow> Returns (OS_NET_STATUS_NOMEM, s)
      | Some p \<Rightarrow>
          if \<not> unat tid < length (act_funcs s) then Crash
          else if act_funcs s ! unat tid = None then Returns (OS_NET_STATUS_PARAM_INVALID, s)
          else
            let own = (if act_pid s = pid then act_lookup s tid (ucast opcode) else Some None)
            in (case own of
                  None \<Rightarrow> Crash
                | Some (Some f) \<Rightarrow>
                    map_outcome_of (\<lambda>s. (OS_NET_STATUS_OK, s)) (run_action f call_arg cb_arg s)
                | Some None \<Rightarrow>
                    let s = (if is_sync s then s\<lparr>mutex_depth := Suc (mutex_depth s)\<rparr> else s);
                        m = \<lparr>msg_id = tid, msg_opcode = ucast opcode, msg_call_arg = call_arg,
                             msg_cb_arg = (if is_sync s then cb_arg else None)\<rparr>;
                        s = s\<lparr>heap := (heap s)(p := Some m)\<rparr>;
                        release = (\<lambda>s. s\<lparr>heap := (heap s)(p := None)\<rparr>)
                    in bind_outcome (act_task_post p s) (\<lambda>(st, s).
                         if st \<noteq> OS_NET_STATUS_OK then Returns (OS_NET_STATUS_BUSY, release s)
                         else if is_sync s
                         then bind_outcome (act_transfer_wait evs s) (\<lambda>(st, s).
                                if st \<noteq> OS_NET_STATUS_OK then Returns (OS_NET_STATUS_BUSY, release s)
                                else Returns (OS_NET_STATUS_OK, release (s\<lparr>mutex_depth := mutex_depth s - 1\<rparr>)))
                         else Returns (OS_NET_STATUS_OK, release s)))))"

text \<open>
  \<open>act_transfer\<close> collects its variable arguments in two arrays, for which \<open>malloc\<close> is taken to find
  memory: the code writes to them without a look. No arguments are a NULL array.
\<close>

definition argv :: "'v list \<Rightarrow> 'v list option" where
  "argv xs = (if xs = [] then None else Some xs)"

definition act_transfer ::
    "8 word \<Rightarrow> 16 word \<Rightarrow> 'v list \<Rightarrow> 'v list \<Rightarrow> nat \<Rightarrow> ptr option \<Rightarrow> wait_event list
      \<Rightarrow> ('w, 'v) act_sys \<Rightarrow> (int \<times> ('w, 'v) act_sys) outcome" where
  "act_transfer tid opcode call_args cb_args pid mp evs s =
     act_transfer_handle tid opcode (argv call_args) (argv cb_args) pid mp evs s"

section \<open>Registration, start and stop\<close>

definition act_register_handler ::
    "8 word \<Rightarrow> ('w, 'v) act_table option \<Rightarrow> ('w, 'v) act_sys \<Rightarrow> int \<times> ('w, 'v) act_sys" where
  "act_register_handler tid tbl s =
     (if ACT_FUNC_NUM \<le> unat tid then (OS_NET_STATUS_NOMEM, s)
      else (OS_NET_STATUS_OK, s\<lparr>act_funcs := (act_funcs s)[unat tid := tbl]\<rparr>))"

text \<open>The answers of the system while the handle is set up, and the number of the new thread.\<close>

record act_init_results =
  rmutex_ok :: bool
  sem_ok :: bool
  queue_results :: init_results
  thread_ok :: bool
  thread_pid :: nat

definition act_init ::
    "act_init_results \<Rightarrow> bool \<Rightarrow> ('w, 'v) act_sys \<Rightarrow> (int \<times> ('w, 'v) act_sys) outcome" where
  "act_init r sync s =
     (let s = s\<lparr>is_sync := sync\<rparr>
      in if sync \<and> \<not> rmutex_ok r then Returns (OS_NET_STATUS_NOMEM, s)
         else
           let s = (if sync then s\<lparr>mutex_depth := 0\<rparr> else s)
           in if sync \<and> \<not> sem_ok r then Returns (OS_NET_STATUS_NOMEM, s)
              else
                let s = (if sync then s\<lparr>sem := 0\<rparr> else s)
                in bind_outcome (os_net_queue_create (queue_results r) OS_NET_TASK_QUEUE_LEN SIZEOF_ACT_MSG (queue s))
                     (\<lambda>(st, q).
                        let s = s\<lparr>queue := q\<rparr>
                        in if st \<noteq> OS_NET_STATUS_OK then Returns (OS_NET_STATUS_NOMEM, s)
                           else if \<not> thread_ok r then Returns (OS_NET_STATUS_NOMEM, s)
                           else Returns (OS_NET_STATUS_OK, s\<lparr>act_pid := thread_pid r, act_enable := True\<rparr>)))"

text \<open>The C function ends without a return value once it has stopped the thread: \<open>None\<close>.\<close>

definition act_deinit :: "('w, 'v) act_sys \<Rightarrow> (int option \<times> ('w, 'v) act_sys) outcome" where
  "act_deinit s =
     (if \<not> act_enable s then Returns (Some OS_NET_STATUS_NOT_READY, s)
      else bind_outcome (os_net_queue_delete (queue s))
             (\<lambda>(_, q). Returns (None, s\<lparr>queue := q, act_enable := False\<rparr>)))"

declare act_transfer_wait.simps [simp del]

section \<open>Properties\<close>

text \<open>The handle between two calls: running, synchronous, nothing queued, nobody waiting.\<close>

definition act_idle :: "('w, 'v) act_sys \<Rightarrow> bool" where
  "act_idle s \<longleftrightarrow> act_enable s \<and> is_sync s \<and> queue_ok (queue s) \<and> queue_items (queue s) = [] \<and>
     0 < queue_room (queue s) \<and> sem s = 0"

lemma act_task_post_accepts:
  assumes "queue_ok (queue s)" "length (queue_items (queue s)) < queue_room (queue s)"
  shows "\<exists>q. act_task_post p s = Returns (OS_NET_STATUS_OK, s\<lparr>queue := q\<rparr>) \<and> queue_ok q \<and>
      queue_room q = queue_room (queue s) \<and> queue_items q = queue_items (queue s) @ [p]"
proof -
  obtain acc q where sp: "queue_send_ptr p (queue s) = (acc, q)" by fastforce
  then have q: "queue_ok q" "queue_room q = queue_room (queue s)" "acc" "queue_items q = queue_items (queue s) @ [p]"
    using queue_send_ptr_step[OF assms(1) sp] assms(2) by auto
  then have "os_net_queue_send (ptr_bytes p) (Some (queue s)) = Returns (OS_NET_STATUS_OK, Some q)"
    using sp by (auto simp: queue_send_ptr_def split: outcome.splits option.splits)
  then show ?thesis using q by (intro exI[of _ q]) (simp add: act_task_post_def)
qed

lemma act_task_post_refuses:
  assumes "queue_ok (queue s)" "\<not> length (queue_items (queue s)) < queue_room (queue s)"
  shows "\<exists>q. act_task_post p s = Returns (OS_NET_STATUS_BUSY, s\<lparr>queue := q\<rparr>) \<and> queue_ok q \<and>
      queue_items q = queue_items (queue s)"
proof -
  obtain acc q where sp: "queue_send_ptr p (queue s) = (acc, q)" by fastforce
  have q: "queue_ok q" "\<not> acc" "queue_items q = queue_items (queue s)"
    using queue_send_ptr_step[OF assms(1) sp] assms(2) by auto
  obtain q1 where "ring_buff_put_body (ptr_bytes p) 0 RB_SG_NOMAL [] (queue s) =
      Returns (if data_len (queue s) + 8 \<le> buff_size (queue s) then 8 else 0, q1)"
    using put_body_now[of "queue s" "ptr_bytes p" RB_SG_NOMAL "[]"] assms(1)
    by (auto simp: queue_ok_def)
  then show ?thesis
    using sp q
    by (auto simp: queue_send_ptr_def act_task_post_def os_net_queue_send_def ring_buff_put_def split: if_splits)
qed

lemma thread_step_takes:
  assumes "queue_ok (queue s)" "queue_items (queue s) = p # ps"
  shows "\<exists>q. os_thread_handler_step s = act_dispatch p (s\<lparr>queue := q\<rparr>) \<and> queue_ok q \<and>
      queue_room q = queue_room (queue s) \<and> queue_items q = ps"
proof -
  have ne: "rb_list (queue s) \<noteq> []"
    using assms ptrs_of_Nil_iff by (auto simp: queue_items_def ptrs_of.simps)
  have open_q: "rb_open (queue s)" using assms(1) by (simp add: queue_ok_def)
  then have len: "length (rb_list (queue s)) = data_len (queue s)" by (simp add: rb_open_def)
  obtain p1 q where rp: "queue_receive_ptr (queue s) = Some (p1, q)"
    using queue_receive_ptr_step(1)[OF assms(1)] assms(2) by (metis list.discI not_Some_eq prod.collapse)
  then have q: "queue_ok q" "queue_room q = queue_room (queue s)" "p1 = p" "queue_items q = ps"
    using queue_receive_ptr_step(2)[OF assms(1) rp] assms(2) by auto
  have len8: "length (take 8 (rb_list (queue s))) = 8"
    using ne len assms(1) dvd_imp_le[of 8 "data_len (queue s)"] length_greater_0_conv[of "rb_list (queue s)"]
    by (simp add: queue_ok_def)
  show ?thesis
    using get_body_now[OF open_q _ ne, of 8 "- 1" "[]"] rp q ne len len8 length_greater_0_conv[of "rb_list (queue s)"]
    by (auto simp: os_thread_handler_step_def queue_receive_ptr_def os_net_queue_receive_def ring_buff_get_def)
qed

text \<open>The message as \<open>act_transfer_handle\<close> fills it, and the state it posts it in.\<close>

definition posted :: "8 word \<Rightarrow> 16 word \<Rightarrow> 'v list \<Rightarrow> 'v list \<Rightarrow> ptr \<Rightarrow> ('w, 'v) act_sys \<Rightarrow> ('w, 'v) act_sys" where
  "posted tid opcode cs bs p s =
     (let s = (if is_sync s then s\<lparr>mutex_depth := Suc (mutex_depth s)\<rparr> else s)
      in s\<lparr>heap := (heap s)(p := Some \<lparr>msg_id = tid, msg_opcode = ucast opcode,
            msg_call_arg = argv cs, msg_cb_arg = (if is_sync s then argv bs else None)\<rparr>)\<rparr>)"

lemma transfer_posts:
  assumes "act_enable s" "pid \<noteq> act_pid s" "unat tid < length (act_funcs s)"
    "act_funcs s ! unat tid \<noteq> None"
  shows "act_transfer tid opcode cs bs pid (Some p) evs s =
    bind_outcome (act_task_post p (posted tid opcode cs bs p s)) (\<lambda>(st, s).
      if st \<noteq> OS_NET_STATUS_OK then Returns (OS_NET_STATUS_BUSY, s\<lparr>heap := (heap s)(p := None)\<rparr>)
      else if is_sync s
      then bind_outcome (act_transfer_wait evs s) (\<lambda>(st, s).
             if st \<noteq> OS_NET_STATUS_OK then Returns (OS_NET_STATUS_BUSY, s\<lparr>heap := (heap s)(p := None)\<rparr>)
             else Returns (OS_NET_STATUS_OK, (s\<lparr>mutex_depth := mutex_depth s - 1\<rparr>)
                    \<lparr>heap := (heap s)(p := None)\<rparr>))
      else Returns (OS_NET_STATUS_OK, s\<lparr>heap := (heap s)(p := None)\<rparr>))"
  using assms
  by (auto simp: act_transfer_def act_transfer_handle_def posted_def Let_def cong: if_cong)

text \<open>A running handle with one table, of one action that counts its calls.\<close>

definition demo_act :: "(nat, unit) act_sys" where
  "demo_act = \<lparr>act_funcs = [None, Some [None, Some (\<lambda>_ _ n. Some (Suc n))]],
     queue = demo_ring\<lparr>buff := Some (replicate 16 0), buff_size := 16, write_pos := 0, read_pos := 0,
       data_len := 0\<rparr>,
     act_pid = 7, sem = 0, mutex_depth = 0, is_sync = True, act_enable = True, heap = \<lambda>_. None,
     world = 0\<rparr>"

lemma demo_act_idle: "act_idle demo_act"
  by (simp add: act_idle_def demo_act_def demo_ring_def queue_ok_def queue_items_def queue_room_def
      rb_open_def rb_inv_def rb_list_def ptrs_of.simps)

lemma demo_act_fields:
  "act_pid demo_act = 7" "heap demo_act p = None" "world demo_act = 0" "act_enable demo_act"
  "act_funcs demo_act = [None, Some [None, Some (\<lambda>_ _ n. Some (Suc n))]]"
  "mutex_depth demo_act = 0"
  by (simp_all add: demo_act_def)

text \<open>
  A synchronous call from another thread: post, one pass of the action thread, wait. An action that
  is undefined makes the call undefined.
\<close>

lemma transfer_outcome:
  assumes "act_idle s" "pid \<noteq> act_pid s" "heap s p = None"
    and "unat tid < length (act_funcs s)" "act_funcs s ! unat tid = Some tbl"
    and "unat (ucast opcode :: 8 word) < length tbl" "tbl ! unat (ucast opcode :: 8 word) = Some f"
  shows "\<exists>q. (\<forall>w. act_idle (s\<lparr>queue := q, world := w\<rparr>)) \<and>
    act_transfer tid opcode cs bs pid (Some p) (Thread_Pass # evs) s =
      (case f (argv cs) (argv bs) (world s) of
         None \<Rightarrow> Crash
       | Some w \<Rightarrow> Returns (OS_NET_STATUS_OK, s\<lparr>queue := q, world := w\<rparr>))"
proof -
  let ?s1 = "posted tid opcode cs bs p s"
  have s1: "queue ?s1 = queue s" "is_sync ?s1" "sem ?s1 = 0" "act_funcs ?s1 = act_funcs s"
      "world ?s1 = world s" "mutex_depth ?s1 = Suc (mutex_depth s)"
    using assms(1) by (simp_all add: posted_def act_idle_def)
  obtain q1 where post: "act_task_post p ?s1 = Returns (OS_NET_STATUS_OK, ?s1\<lparr>queue := q1\<rparr>)"
    and q1: "queue_ok q1" "queue_room q1 = queue_room (queue s)" "queue_items q1 = [p]"
    using act_task_post_accepts[of ?s1 p] assms(1) s1 by (auto simp: act_idle_def)
  let ?s2 = "?s1\<lparr>queue := q1\<rparr>"
  obtain q2 where step: "os_thread_handler_step ?s2 = act_dispatch p (?s2\<lparr>queue := q2\<rparr>)"
    and q2: "queue_ok q2" "queue_room q2 = queue_room q1" "queue_items q2 = []"
    using thread_step_takes[of ?s2 p "[]"] q1 by auto
  have dispatch: "act_dispatch p (?s2\<lparr>queue := q2\<rparr>) = (case f (argv cs) (argv bs) (world s) of
      None \<Rightarrow> Crash | Some w \<Rightarrow> Returns (?s2\<lparr>queue := q2, world := w, sem := 1\<rparr>))"
    using assms s1
    by (auto simp: act_dispatch_def act_lookup_def run_action_def posted_def act_idle_def Let_def split: option.split)
  have wait: "act_transfer_wait (Thread_Pass # evs) ?s2 = (case f (argv cs) (argv bs) (world s) of
      None \<Rightarrow> Crash | Some w \<Rightarrow> Returns (OS_NET_STATUS_OK, ?s2\<lparr>queue := q2, world := w, sem := 0\<rparr>))"
    using step dispatch s1
    by (simp add: act_transfer_wait.simps[of "Thread_Pass # evs"] act_transfer_wait.simps[of evs] split: option.split)
  have "act_transfer tid opcode cs bs pid (Some p) (Thread_Pass # evs) s = (case f (argv cs) (argv bs) (world s) of
      None \<Rightarrow> Crash | Some w \<Rightarrow> Returns (OS_NET_STATUS_OK, s\<lparr>queue := q2, world := w\<rparr>))"
    using transfer_posts[of s pid tid opcode cs bs p "Thread_Pass # evs"] assms post wait s1
    by (cases s) (auto simp: posted_def act_idle_def Let_def fun_upd_idem_iff split: option.split)
  then show ?thesis
    using assms(1) q2 q1 by (auto simp: act_idle_def)
qed

lemma transfer_runs:
  assumes "act_idle s" "pid \<noteq> act_pid s" "heap s p = None"
    and "unat tid < length (act_funcs s)" "act_funcs s ! unat tid = Some tbl"
    and "unat (ucast opcode :: 8 word) < length tbl" "tbl ! unat (ucast opcode :: 8 word) = Some f"
    and "f (argv cs) (argv bs) (world s) = Some w"
  shows "\<exists>q. act_transfer tid opcode cs bs pid (Some p) (Thread_Pass # evs) s =
      Returns (OS_NET_STATUS_OK, s\<lparr>queue := q, world := w\<rparr>) \<and> act_idle (s\<lparr>queue := q, world := w\<rparr>)"
  using transfer_outcome[OF assms(1-7), of cs bs evs] assms(8) by auto

text \<open>
  C7. A call from another thread runs exactly the action registered under its table and the
  low eight bits of its opcode, once, on the caller's arguments; it returns
  \<open>OS_NET_STATUS_OK\<close> with the action's effect, the message freed, the mutex and the semaphore
  as before and the queue empty.
\<close>

theorem act_transfer_runs_action:
  assumes "act_idle s" "pid \<noteq> act_pid s" "heap s p = None"
    and "unat tid < length (act_funcs s)" "act_funcs s ! unat tid = Some tbl"
    and "unat (ucast opcode :: 8 word) < length tbl" "tbl ! unat (ucast opcode :: 8 word) = Some f"
    and "f (argv cs) (argv bs) (world s) = Some w"
  shows "\<exists>q. act_transfer tid opcode cs bs pid (Some p) (Thread_Pass # evs) s =
      Returns (OS_NET_STATUS_OK, s\<lparr>queue := q, world := w\<rparr>) \<and> act_idle (s\<lparr>queue := q, world := w\<rparr>)"
  using assms by (rule transfer_runs)

theorem act_transfer_runs_action_witness:
  "\<exists>q. act_transfer 1 1 [] [] 3 (Some 4096) [Thread_Pass] demo_act =
      Returns (OS_NET_STATUS_OK, demo_act\<lparr>queue := q, world := 1\<rparr>)"
  using act_transfer_runs_action[of demo_act 3 4096 1 "[None, Some (\<lambda>_ _ n. Some (Suc n))]" 1
      "\<lambda>_ _ n. Some (Suc n)" "[]" "[]" 1 "[]"] demo_act_idle
  by (auto simp: demo_act_fields)

text \<open>
  A call from the action thread itself, as an action that calls back into the interface
  makes it, runs the registered action at once, without the queue, the mutex or a message: it
  cannot deadlock with the thread that waits for it.
\<close>

theorem act_transfer_in_thread:
  assumes "act_enable s" "pid = act_pid s"
    and "unat tid < length (act_funcs s)" "act_funcs s ! unat tid = Some tbl"
    and "unat (ucast opcode :: 8 word) < length tbl" "tbl ! unat (ucast opcode :: 8 word) = Some f"
    and "f (argv cs) (argv bs) (world s) = Some w"
  shows "act_transfer tid opcode cs bs pid (Some p) evs s = Returns (OS_NET_STATUS_OK, s\<lparr>world := w\<rparr>)"
  using assms
  by (simp add: act_transfer_def act_transfer_handle_def act_lookup_def run_action_def)

theorem act_transfer_in_thread_witness:
  "act_transfer 1 1 [] [] 7 (Some 4096) [] demo_act = Returns (OS_NET_STATUS_OK, demo_act\<lparr>world := 1\<rparr>)"
  using act_transfer_in_thread[of demo_act 7 1 "[None, Some (\<lambda>_ _ n. Some (Suc n))]" 1
      "\<lambda>_ _ n. Some (Suc n)" "[]" "[]" 1 4096 "[]"]
  by (simp add: demo_act_fields)

text \<open>
  When a signal interrupts the caller's wait, the call returns \<open>OS_NET_STATUS_BUSY\<close> with
  the mutex still locked and the message freed while its address is still queued: the next
  pass of the action thread reads freed memory.
\<close>

theorem act_transfer_interrupted:
  assumes "act_idle s" "pid \<noteq> act_pid s" "heap s p = None"
    and "unat tid < length (act_funcs s)" "act_funcs s ! unat tid = Some tbl"
  shows "\<exists>s'. act_transfer tid opcode cs bs pid (Some p) (Interrupt # evs) s = Returns (OS_NET_STATUS_BUSY, s') \<and>
      mutex_depth s' = Suc (mutex_depth s) \<and> world s' = world s \<and> os_thread_handler_step s' = Crash"
proof -
  let ?s1 = "posted tid opcode cs bs p s"
  have s1: "queue ?s1 = queue s" "is_sync ?s1" "sem ?s1 = 0" "mutex_depth ?s1 = Suc (mutex_depth s)"
      "world ?s1 = world s"
    using assms(1) by (simp_all add: posted_def act_idle_def)
  obtain q1 where post: "act_task_post p ?s1 = Returns (OS_NET_STATUS_OK, ?s1\<lparr>queue := q1\<rparr>)"
    and q1: "queue_ok q1" "queue_items q1 = [p]"
    using act_task_post_accepts[of ?s1 p] assms(1) s1 by (auto simp: act_idle_def)
  let ?s2 = "?s1\<lparr>queue := q1\<rparr>"
  have "act_transfer_wait (Interrupt # evs) ?s2 = Returns (OS_NET_STATUS_FAILED, ?s2)"
    using s1 by (simp add: act_transfer_wait.simps)
  then have "act_transfer tid opcode cs bs pid (Some p) (Interrupt # evs) s =
      Returns (OS_NET_STATUS_BUSY, ?s2\<lparr>heap := (heap ?s2)(p := None)\<rparr>)" (is "_ = Returns (_, ?s3)")
    using transfer_posts[of s pid tid opcode cs bs p "Interrupt # evs"] assms post s1
    by (simp add: act_idle_def)
  moreover have "os_thread_handler_step ?s3 = Crash"
    using thread_step_takes[of ?s3 p "[]"] q1 by (auto simp: act_dispatch_def)
  ultimately show ?thesis using s1 by auto
qed

theorem act_transfer_interrupted_witness:
  "\<exists>s'. act_transfer 1 1 [] [] 3 (Some 4096) [Interrupt] demo_act = Returns (OS_NET_STATUS_BUSY, s') \<and>
      mutex_depth s' = 1 \<and> os_thread_handler_step s' = Crash"
  using act_transfer_interrupted[of demo_act 3 4096 1 "[None, Some (\<lambda>_ _ n. Some (Suc n))]" 1 "[]" "[]" "[]"]
    demo_act_idle
  by (auto simp: demo_act_fields)

text \<open>
  With a handle that is not synchronous the caller frees the message right after posting
  it, so the action thread always reads freed memory: only synchronous handles can be used.
\<close>

theorem act_transfer_async_crash:
  assumes "act_enable s" "\<not> is_sync s" "queue_ok (queue s)" "queue_items (queue s) = []"
    "0 < queue_room (queue s)" "pid \<noteq> act_pid s"
    and "unat tid < length (act_funcs s)" "act_funcs s ! unat tid = Some tbl"
  shows "\<exists>s'. act_transfer tid opcode cs bs pid (Some p) evs s = Returns (OS_NET_STATUS_OK, s') \<and>
      os_thread_handler_step s' = Crash"
proof -
  let ?s1 = "posted tid opcode cs bs p s"
  have s1: "queue ?s1 = queue s" "\<not> is_sync ?s1"
    using assms by (simp_all add: posted_def)
  obtain q1 where post: "act_task_post p ?s1 = Returns (OS_NET_STATUS_OK, ?s1\<lparr>queue := q1\<rparr>)"
    and q1: "queue_ok q1" "queue_items q1 = [p]"
    using act_task_post_accepts[of ?s1 p] assms s1 by auto
  have "act_transfer tid opcode cs bs pid (Some p) evs s =
      Returns (OS_NET_STATUS_OK, ?s1\<lparr>queue := q1, heap := (heap ?s1)(p := None)\<rparr>)" (is "_ = Returns (_, ?s3)")
    using transfer_posts[of s pid tid opcode cs bs p evs] assms post s1 by simp
  moreover have "os_thread_handler_step ?s3 = Crash"
    using thread_step_takes[of ?s3 p "[]"] q1 by (auto simp: act_dispatch_def)
  ultimately show ?thesis by blast
qed

theorem act_transfer_async_crash_witness:
  "\<exists>s'. act_transfer 1 1 [] [] 3 (Some 4096) [] (demo_act\<lparr>is_sync := False\<rparr>) = Returns (OS_NET_STATUS_OK, s') \<and>
      os_thread_handler_step s' = Crash"
  using act_transfer_async_crash[of "demo_act\<lparr>is_sync := False\<rparr>" 3 1
      "[None, Some (\<lambda>_ _ n. Some (Suc n))]" 1 "[]" "[]" 4096 "[]"] demo_act_idle
  by (simp add: demo_act_fields act_idle_def)

end
