(* ===== verification/Wifimg.thy ===== *)
theory Wifimg
  imports Act_Api Wmg_Actions
begin

text \<open>
  The public interface of \<open>wifimg.c\<close>: each call packs the addresses of its arguments and of a
  status variable, initially \<open>WMG_STATUS_FAIL\<close>, hands them to the action thread and returns
  what the action left in the variable. The first arguments of every call are the calling
  thread, the answer of \<open>malloc\<close> and what happens while it waits.
\<close>

section \<open>Start and stop of the action thread\<close>

type_synonym 'p wifi_sys = "('p world, arg) act_sys"

abbreviation "WMG_ACT_TABLE_PLA_ID \<equiv> 10 :: 8 word"
abbreviation "WMG_ACT_TABLE_STA_ID \<equiv> 11 :: 8 word"
abbreviation "WMG_ACT_TABLE_AP_ID \<equiv> 12 :: 8 word"
abbreviation "WMG_ACT_TABLE_MONITOR_ID \<equiv> 13 :: 8 word"

definition wifimanager_init :: "act_init_results \<Rightarrow> 'p wifi_sys \<Rightarrow> (int \<times> 'p wifi_sys) outcome" where
  "wifimanager_init r s =
     bind_outcome (act_init r True s) (\<lambda>(st, s).
       if st \<noteq> OS_NET_STATUS_OK then Returns (WMG_STATUS_FAIL, s)
       else
         let (_, s) = act_register_handler WMG_ACT_TABLE_PLA_ID (Some pla_action_table) s;
             (_, s) = act_register_handler WMG_ACT_TABLE_STA_ID (Some sta_action_table) s;
             (_, s) = act_register_handler WMG_ACT_TABLE_AP_ID (Some ap_action_table) s;
             (_, s) = act_register_handler WMG_ACT_TABLE_MONITOR_ID (Some monitor_action_table) s
         in Returns (WMG_STATUS_SUCCESS, s))"

definition wifimanager_deinit :: "'p wifi_sys \<Rightarrow> (int \<times> 'p wifi_sys) outcome" where
  "wifimanager_deinit s = map_outcome_of (\<lambda>(_, s). (WMG_STATUS_SUCCESS, s)) (act_deinit s)"

section \<open>The calls\<close>

type_synonym caller = "nat \<times> ptr option \<times> wait_event list"
type_synonym 'p api = "'p wifi_sys \<Rightarrow> (int \<times> 'p wifi_sys) outcome"

definition wifi_call :: "caller \<Rightarrow> 8 word \<Rightarrow> 16 word \<Rightarrow> arg list \<Rightarrow> 'p api" where
  "wifi_call c tid opcode args s =
     (let (pid, mp, evs) = c;
          s = s\<lparr>world := (world s)\<lparr>cb_status := WMG_STATUS_FAIL\<rparr>\<rparr>
      in bind_outcome (act_transfer tid opcode args [Arg_Status] pid mp evs s) (\<lambda>(st, s).
           Returns (if c_true st then WMG_STATUS_FAIL else cb_status (world s), s)))"

definition opt_arg :: "('a \<Rightarrow> arg) \<Rightarrow> 'a option \<Rightarrow> arg" where
  "opt_arg f x = (case x of None \<Rightarrow> Arg_Null | Some a \<Rightarrow> f a)"

definition wifi_on :: "caller \<Rightarrow> wifi_mode \<Rightarrow> 'p api" where
  "wifi_on c mode = wifi_call c WMG_ACT_TABLE_PLA_ID 0 [Arg_Mode mode]"

definition wifi_off :: "caller \<Rightarrow> 'p api" where
  "wifi_off c = wifi_call c WMG_ACT_TABLE_PLA_ID 1 [Arg_Null]"

definition wifi_sta_connect :: "caller \<Rightarrow> wifi_sta_cn_para option \<Rightarrow> 'p api" where
  "wifi_sta_connect c cn = wifi_call c WMG_ACT_TABLE_STA_ID 0 [opt_arg Arg_Cn cn]"

definition wifi_sta_disconnect :: "caller \<Rightarrow> 'p api" where
  "wifi_sta_disconnect c = wifi_call c WMG_ACT_TABLE_STA_ID 1 [Arg_Null]"

definition wifi_sta_auto_reconnect :: "caller \<Rightarrow> bool \<Rightarrow> 'p api" where
  "wifi_sta_auto_reconnect c en = wifi_call c WMG_ACT_TABLE_STA_ID 2 [Arg_Bool en]"

definition wifi_sta_get_info :: "caller \<Rightarrow> buf option \<Rightarrow> 'p api" where
  "wifi_sta_get_info c b = wifi_call c WMG_ACT_TABLE_STA_ID 3 [opt_arg Arg_Buf b]"

definition wifi_sta_list_networks :: "caller \<Rightarrow> buf option \<Rightarrow> 'p api" where
  "wifi_sta_list_networks c b = wifi_call c WMG_ACT_TABLE_STA_ID 4 [opt_arg Arg_Buf b]"

definition wifi_sta_remove_networks :: "caller \<Rightarrow> string option \<Rightarrow> 'p api" where
  "wifi_sta_remove_networks c ssid = wifi_call c WMG_ACT_TABLE_STA_ID 5 [opt_arg Arg_Str ssid]"

definition wifi_ap_enable :: "caller \<Rightarrow> wifi_ap_config option \<Rightarrow> 'p api" where
  "wifi_ap_enable c config = wifi_call c WMG_ACT_TABLE_AP_ID 0 [opt_arg Arg_Ap config]"

definition wifi_ap_disable :: "caller \<Rightarrow> 'p api" where
  "wifi_ap_disable c = wifi_call c WMG_ACT_TABLE_AP_ID 1 [Arg_Null]"

definition wifi_ap_get_config :: "caller \<Rightarrow> buf option \<Rightarrow> 'p api" where
  "wifi_ap_get_config c b = wifi_call c WMG_ACT_TABLE_AP_ID 2 [opt_arg Arg_Buf b]"

definition wifi_monitor_enable :: "caller \<Rightarrow> 8 word \<Rightarrow> 'p api" where
  "wifi_monitor_enable c channel = wifi_call c WMG_ACT_TABLE_MONITOR_ID 0 [Arg_Channel channel]"

definition wifi_monitor_set_channel :: "caller \<Rightarrow> 8 word \<Rightarrow> 'p api" where
  "wifi_monitor_set_channel c channel = wifi_call c WMG_ACT_TABLE_MONITOR_ID 1 [Arg_Channel channel]"

definition wifi_monitor_disable :: "caller \<Rightarrow> 'p api" where
  "wifi_monitor_disable c = wifi_call c WMG_ACT_TABLE_MONITOR_ID 2 [Arg_Null]"

definition wifi_register_msg_cb :: "caller \<Rightarrow> msg_cb option \<Rightarrow> 'p api" where
  "wifi_register_msg_cb c f = wifi_call c WMG_ACT_TABLE_PLA_ID 2 [Arg_Cb f]"

definition wifi_set_scan_param :: "caller \<Rightarrow> string option \<Rightarrow> 'p api" where
  "wifi_set_scan_param c param = wifi_call c WMG_ACT_TABLE_STA_ID 6 [opt_arg Arg_Str param]"

definition wifi_get_scan_results :: "caller \<Rightarrow> buf option \<Rightarrow> buf option \<Rightarrow> 32 word \<Rightarrow> 'p api" where
  "wifi_get_scan_results c results bss_num arr_size =
     wifi_call c WMG_ACT_TABLE_STA_ID 7 [opt_arg Arg_Buf results, opt_arg Arg_Buf bss_num, Arg_U32 arr_size]"

definition wifi_set_mac :: "caller \<Rightarrow> string option \<Rightarrow> buf option \<Rightarrow> 'p api" where
  "wifi_set_mac c ifname mac =
     wifi_call c WMG_ACT_TABLE_PLA_ID 3 [opt_arg Arg_Str ifname, opt_arg Arg_Buf mac]"

definition wifi_get_mac :: "caller \<Rightarrow> string option \<Rightarrow> buf option \<Rightarrow> 'p api" where
  "wifi_get_mac c ifname mac =
     wifi_call c WMG_ACT_TABLE_PLA_ID 4 [opt_arg Arg_Str ifname, opt_arg Arg_Buf mac]"

definition wifi_send_80211_raw_frame :: "caller \<Rightarrow> 'p api" where
  "wifi_send_80211_raw_frame c = wifi_call c WMG_ACT_TABLE_PLA_ID 5 [Arg_Null]"

definition wifi_set_country_code :: "caller \<Rightarrow> string option \<Rightarrow> 'p api" where
  "wifi_set_country_code c code = wifi_call c WMG_ACT_TABLE_PLA_ID 6 [opt_arg Arg_Str code]"

definition wifi_get_country_code :: "caller \<Rightarrow> buf option \<Rightarrow> 'p api" where
  "wifi_get_country_code c code = wifi_call c WMG_ACT_TABLE_PLA_ID 7 [opt_arg Arg_Buf code]"

definition wifi_set_ps_mode :: "caller \<Rightarrow> bool \<Rightarrow> 'p api" where
  "wifi_set_ps_mode c en = wifi_call c WMG_ACT_TABLE_PLA_ID 8 [Arg_Bool en]"

definition wifi_linkd_protocol ::
    "caller \<Rightarrow> wifi_linkd_mode \<Rightarrow> wifi_ap_config option \<Rightarrow> int \<Rightarrow> buf option \<Rightarrow> 'p api" where
  "wifi_linkd_protocol c mode params second result =
     wifi_call c WMG_ACT_TABLE_PLA_ID 9
       [Arg_Linkd mode, opt_arg Arg_Ap params, Arg_Int second, opt_arg Arg_Buf result]"

section \<open>A call is its action\<close>

text \<open>The handle as \<open>wifimanager_init\<close> leaves it, between two calls.\<close>

definition wifi_ready :: "'p wifi_sys \<Rightarrow> bool" where
  "wifi_ready s \<longleftrightarrow> act_idle s \<and> length (act_funcs s) = ACT_FUNC_NUM \<and>
     act_funcs s ! 10 = Some pla_action_table \<and> act_funcs s ! 11 = Some sta_action_table \<and>
     act_funcs s ! 12 = Some ap_action_table \<and> act_funcs s ! 13 = Some monitor_action_table"

lemma call_outcome:
  assumes "wifi_ready s" "pid \<noteq> act_pid s" "heap s p = None"
    and "act_funcs s ! unat tid = Some tbl" "unat tid < ACT_FUNC_NUM"
    and "unat (ucast opcode :: 8 word) < length tbl" "tbl ! unat (ucast opcode :: 8 word) = entry f"
  shows "\<exists>q. (\<forall>w. wifi_ready (s\<lparr>queue := q, world := w\<rparr>)) \<and>
    wifi_call (pid, Some p, Thread_Pass # evs) tid opcode args s =
      (case f (argv args) (Some [Arg_Status]) ((world s)\<lparr>cb_status := WMG_STATUS_FAIL\<rparr>) of
         None \<Rightarrow> Crash
       | Some (r, w) \<Rightarrow> Returns (cb_status w, s\<lparr>queue := q, world := w\<rparr>))"
proof -
  let ?s = "s\<lparr>world := (world s)\<lparr>cb_status := WMG_STATUS_FAIL\<rparr>\<rparr>"
  have idle: "act_idle ?s" using assms(1) by (simp add: wifi_ready_def act_idle_def)
  let ?g = "\<lambda>c b w. map_option snd (f c b w)"
  obtain q where q: "\<forall>w. act_idle (?s\<lparr>queue := q, world := w\<rparr>)"
    "act_transfer tid opcode args [Arg_Status] pid (Some p) (Thread_Pass # evs) ?s =
      (case ?g (argv args) (argv [Arg_Status]) (world ?s) of
         None \<Rightarrow> Crash
       | Some w \<Rightarrow> Returns (OS_NET_STATUS_OK, ?s\<lparr>queue := q, world := w\<rparr>))"
    using transfer_outcome[OF idle, of pid p tid tbl opcode ?g args "[Arg_Status]" evs] assms
    by (auto simp: wifi_ready_def entry_def)
  have "wifi_ready (s\<lparr>queue := q, world := w\<rparr>)" for w
    using assms(1) q(1) by (simp add: wifi_ready_def)
  then show ?thesis
    using q(2) by (auto simp: wifi_call_def argv_def intro!: exI[of _ q] split: option.split)
qed

end
