(* ===== verification/Wmg_Safety.thy ===== *)
theory Wmg_Safety
  imports Wmg_Manager Wifimg
begin

text \<open>
  No call of the public interface and no event from below leads the manager into undefined
  behaviour, and each of them keeps its invariant: the commands first, then the actions with
  the arguments \<open>wifimg.c\<close> gives them, then the worlds that can be reached.
\<close>

section \<open>Commands, actions and events keep the invariant\<close>

fun cmd_for :: "mode_ref \<Rightarrow> mode_cmd \<Rightarrow> bool" where
  "cmd_for Sta_Object (Sta_Cmd c) \<longleftrightarrow> c \<noteq> WMG_STA_CMD_CONNECT None"
| "cmd_for Ap_Object (Ap_Cmd c) \<longleftrightarrow> True"
| "cmd_for Monitor_Object (Monitor_Cmd c) \<longleftrightarrow> True"
| "cmd_for _ _ \<longleftrightarrow> False"

lemma mode_ctl_step:
  assumes "mode_good m w" "cmd_for m cmd"
  shows "\<exists>ret cb' w'. mode_ctl m cmd cb w = Some (ret, cb', w') \<and> same_setup w w' \<and> (ret = 0 \<or> ret = - 1)"
  using assms
proof (cases rule: cmd_for.cases[of "(m, cmd)"])
  case (1 c)
  then show ?thesis
    using assms sta_ctl_kept[of "sta_obj w" c cb "wenv w"] by (auto simp: same_setup_def all_modes fixed_part_def)
next
  case (2 c)
  then show ?thesis
    using assms ap_ctl_kept[of "ap_obj w" c cb "wenv w"] by (auto simp: same_setup_def all_modes fixed_part_def)
next
  case (3 c)
  then show ?thesis
    using assms monitor_ctl_kept[of "mon_obj w" c cb "wenv w"] by (auto simp: same_setup_def all_modes fixed_part_def)
qed simp_all

lemma slot_ctl_step:
  assumes "manager_inv w" "init_flag (img w)" "linked w m" "cmd_for m cmd" "n = mode_num m"
  shows "\<exists>ret w'. slot_ctl n cmd cb w = Some (ret, w') \<and> same_setup w w'"
proof -
  have g: "mode_good m w" and sl: "mode_slot (img w) n = Some m"
    using assms by (auto simp: manager_inv_def manager_core_def wmg_register_object_def)
  from mode_ctl_step[OF g assms(4), of cb] obtain ret cb' w' where
    "mode_ctl m cmd cb w = Some (ret, cb', w')" "same_setup w w'" by blast
  then show ?thesis using sl by (simp add: slot_ctl_def ctl_tail_def)
qed

text \<open>The mode a single-mode bitmap names is linked.\<close>

fun single_mode :: "mode_ref \<Rightarrow> wifi_mode" where
  "single_mode Sta_Object = WIFI_STATION"
| "single_mode Ap_Object = WIFI_AP"
| "single_mode Monitor_Object = WIFI_MONITOR"

lemma single_mode_bits [simp]: "wmg_wifi_mode_to_bitmap (single_mode m) = mode_bit m"
  by (cases m) simp_all

lemma single_mode_linked:
  assumes "manager_inv w" "wifimg_get_current_mode w = single_mode m"
  shows "linked w m" "has_mode m w"
proof -
  have "current_mode_bitmap (img w) = mode_bit m" using assms by (metis manager_inv_def single_mode_bits)
  then show "has_mode m w" by (cases m) (simp_all add: has_mode_def)
  then show "linked w m" using assms(1) by (simp add: manager_inv_def manager_core_def)
qed

lemma mode_command_step:
  assumes "manager_inv w" "cmd_for m cmd" "mode = single_mode m" "n = mode_num m"
  shows "\<exists>ret w'. mode_command mode n cmd w = Some (ret, w') \<and> same_setup w w'"
  using assms slot_ctl_step[of w m cmd n] single_mode_linked[of w m] by (auto simp: mode_command_def)

lemmas sta_command = mode_command_step[where m = Sta_Object, unfolded mode_num.simps single_mode.simps, OF _ _ refl refl]
lemmas ap_command = mode_command_step[where m = Ap_Object, unfolded mode_num.simps single_mode.simps, OF _ _ refl refl]
lemmas monitor_command =
  mode_command_step[where m = Monitor_Object, unfolded mode_num.simps single_mode.simps, OF _ _ refl refl]

lemma register_in_step:
  assumes "manager_inv w" "init_flag (img w)" "cmd_for m cmd" "n = mode_num m"
  shows "\<exists>ret w'. register_in n cmd w = Some (ret, w') \<and> same_setup w w'"
proof (cases "linked w m")
  case True
  then show ?thesis using slot_ctl_step[OF assms(1,2) True assms(3,4)] by (auto simp: register_in_def)
next
  case False
  then have "mode_slot (img w) n = None"
    using assms by (simp add: manager_inv_def manager_core_def wmg_register_object_def)
  then show ?thesis by (simp add: register_in_def)
qed

lemma same_setup_img: "same_setup w w' \<Longrightarrow> img w' = img w"
  by (simp add: same_setup_def)

lemma register_msg_cb_step:
  assumes inv: "manager_inv w"
  shows "\<exists>ret w'. wifimg_register_msg_cb f w = Some (ret, w') \<and> same_setup w w'"
proof (cases "init_flag (img w)")
  case False
  then show ?thesis by (simp add: wifimg_register_msg_cb_def)
next
  case on: True
  obtain r1 w1 where 1: "register_in STA_MODE_NUM (Sta_Cmd (WMG_STA_CMD_REGISTER_MSG_CB f)) w = Some (r1, w1)" "same_setup w w1"
    using register_in_step[OF inv on, of Sta_Object "Sta_Cmd (WMG_STA_CMD_REGISTER_MSG_CB f)"] by auto
  have inv1: "manager_inv w1" "init_flag (img w1)"
    using manager_inv_same_setup[OF inv 1(2)] same_setup_img[OF 1(2)] on by simp_all
  obtain r2 w2 where 2: "register_in AP_MODE_NUM (Ap_Cmd (WMG_AP_CMD_REGISTER_MSG_CB f)) w1 = Some (r2, w2)" "same_setup w1 w2"
    using register_in_step[OF inv1, of Ap_Object "Ap_Cmd (WMG_AP_CMD_REGISTER_MSG_CB f)"] by auto
  have inv2: "manager_inv w2" "init_flag (img w2)"
    using manager_inv_same_setup[OF inv1(1) 2(2)] same_setup_img[OF 2(2)] inv1 by simp_all
  obtain r3 w3 where 3: "register_in MONITOR_MODE_NUM (Monitor_Cmd (WMG_MONITOR_CMD_REGISTER_MSG_CB f)) w2 = Some (r3, w3)" "same_setup w2 w3"
    using register_in_step[OF inv2, of Monitor_Object "Monitor_Cmd (WMG_MONITOR_CMD_REGISTER_MSG_CB f)"] by auto
  show ?thesis
    using on 1 2 3 same_setup_trans[OF 1(2) 2(2)] same_setup_trans[OF same_setup_trans[OF 1(2) 2(2)] 3(2)]
    by (auto simp: wifimg_register_msg_cb_def)
qed

lemma mac_command_step:
  assumes inv: "manager_inv w"
    and cmds: "cmd_for Sta_Object (Sta_Cmd (sc para))" "cmd_for Ap_Object (Ap_Cmd (ac para))"
      "cmd_for Monitor_Object (Monitor_Cmd (mc para))"
  shows "\<exists>ret w'. mac_command sc ac mc para w = Some (ret, w') \<and> same_setup w w'"
  using slot_ctl_step[OF inv _ _ cmds(1) refl, of WMG_STATUS_FAIL]
    slot_ctl_step[OF inv _ _ cmds(2) refl, of WMG_STATUS_FAIL]
    slot_ctl_step[OF inv _ _ cmds(3) refl, of WMG_STATUS_FAIL]
    single_mode_linked(1)[OF inv, of Sta_Object] single_mode_linked(1)[OF inv, of Ap_Object]
    single_mode_linked(1)[OF inv, of Monitor_Object]
  by (auto simp: mac_command_def)

lemma get_scan_results_step:
  assumes "manager_inv w"
  shows "\<exists>ret w'. wifimg_get_scan_results r n a w = Some (ret, w') \<and> same_setup w w'"
  using slot_ctl_step[of w Sta_Object "Sta_Cmd (WMG_STA_CMD_SCAN_RESULTS r n a)" STA_MODE_NUM WMG_STATUS_SUCCESS]
    single_mode_linked(1)[of w Sta_Object] assms
  by (auto simp: wifimg_get_scan_results_def)

lemma linkd_step: "wifimg_linkd_protocol mode params second b w = Some (ret, w') \<Longrightarrow> same_setup w w'"
  by (auto simp: wifimg_linkd_protocol_def same_setup_def fixed_part_def all_modes split: prod.splits)

text \<open>A switch never runs into undefined behaviour when all three modes are linked.\<close>

lemma switch_total:
  assumes inv: "manager_inv w" and l: "\<And>m. wmg_wifi_mode_to_bitmap t AND mode_bit m \<noteq> 0 \<Longrightarrow> linked w m"
  shows "\<exists>ret w'. wifimg_switch_mode t w = Some (ret, w') \<and> manager_inv w' \<and> switch_frame w w'"
proof (cases "t = WIFI_MODE_UNKNOWN \<or> \<not> init_flag (img w) \<or> t = wifimg_get_current_mode w \<or>
    support_mode_bitmap (img w) AND wmg_wifi_mode_to_bitmap t = 0")
  case True
  then show ?thesis using inv by (auto simp: wifimg_switch_mode_def wifimg_get_current_mode_def Let_def)
next
  case False
  then show ?thesis using switch_run[OF inv _ _ _ _ l] by blast
qed

section \<open>Actions\<close>

text \<open>The three mode objects are linked into this program.\<close>

definition app_inv :: "'p world \<Rightarrow> bool" where
  "app_inv w \<longleftrightarrow> manager_inv w \<and> (\<forall>m. linked w m)"

definition fine :: "(int \<times> 'p world) option \<Rightarrow> bool" where
  "fine r \<longleftrightarrow> (\<exists>ret w'. r = Some (ret, w') \<and> app_inv w')"

lemma app_inv_same_setup: "app_inv w \<Longrightarrow> same_setup w w' \<Longrightarrow> app_inv w'"
  using manager_inv_same_setup by (auto simp: app_inv_def same_setup_def dest: fixed_linked)

lemma app_inv_fixed: "app_inv w \<Longrightarrow> manager_inv w' \<Longrightarrow> fixed_part w' = fixed_part w \<Longrightarrow> app_inv w'"
  by (auto simp: app_inv_def dest: fixed_linked)

lemma same_setup_cb: "same_setup w (w\<lparr>cb_status := c\<rparr>)"
  by (auto simp: same_setup_def fixed_part_def all_modes)

lemma fine_reply [simp]: "app_inv w \<Longrightarrow> fine (reply ret w)"
  using app_inv_same_setup[OF _ same_setup_cb] by (auto simp: fine_def reply_def)

lemma reply_inv: "reply ret w = Some (ret', w') \<Longrightarrow> app_inv w \<Longrightarrow> app_inv w'"
  using fine_reply[of w ret] by (simp add: fine_def)

lemma fine_Some [simp]: "fine (Some (ret, w)) \<longleftrightarrow> app_inv w"
  by (simp add: fine_def)

lemma fine_reply_from: "fine r \<Longrightarrow> fine (reply_from r)"
  unfolding reply_from_def by (auto simp: fine_def intro: fine_reply[unfolded fine_def])

lemma fine_in_mode: "app_inv w \<Longrightarrow> fine r \<Longrightarrow> fine (in_mode mode w r)"
  by (simp add: in_mode_def)

lemma fine_same: "app_inv w \<Longrightarrow> \<exists>ret w'. r = Some (ret, w') \<and> same_setup w w' \<Longrightarrow> fine r"
  using app_inv_same_setup by (auto simp: fine_def)

lemma app_inv_manager: "app_inv w \<Longrightarrow> manager_inv w"
  by (simp add: app_inv_def)

text \<open>The manager, started when it does not run yet, as two of the actions begin.\<close>

lemma init_fine:
  assumes "app_inv w"
  shows "\<exists>ret w'. (if wifimg_is_init w then (WMG_STATUS_SUCCESS, w) else wifimg_init w) = (ret, w') \<and> app_inv w' \<and>
    fixed_part w' = fixed_part w"
proof (cases "wifimg_is_init w")
  case False
  obtain ret w' where "wifimg_init w = (ret, w')" by fastforce
  with wifimg_init_step[OF app_inv_manager[OF assms] _ this] False show ?thesis
    using app_inv_fixed[OF assms, of w'] by (simp add: wifimg_is_init_def)
qed (use assms in simp)

lemma switch_fine:
  assumes "app_inv w"
  shows "\<exists>ret w'. wifimg_switch_mode t w = Some (ret, w') \<and> app_inv w' \<and> fixed_part w' = fixed_part w"
  using switch_total[OF app_inv_manager[OF assms], of t] app_inv_fixed[OF assms] assms
  by (auto simp: app_inv_def switch_frame_def)

text \<open>
  The calls of \<open>wifimg.h\<close>, with the function each one is, the action it reaches and the
  arguments the action is given.
\<close>

datatype api_op =
  Wifi_On wifi_mode | Wifi_Off | Wifi_Register "msg_cb option"
| Wifi_Set_Mac "string option" "buf option" | Wifi_Get_Mac "string option" "buf option"
| Wifi_Raw_Frame | Wifi_Set_Country "string option" | Wifi_Get_Country "buf option" | Wifi_Ps_Mode bool
| Wifi_Linkd wifi_linkd_mode "wifi_ap_config option" int "buf option"
| Sta_Connect "wifi_sta_cn_para option" | Sta_Disconnect | Sta_Auto_Reconnect bool
| Sta_Get_Info "buf option" | Sta_List_Networks "buf option" | Sta_Remove_Networks "string option"
| Scan_Param "string option" | Scan_Results "buf option" "buf option" "32 word"
| Ap_Enable "wifi_ap_config option" | Ap_Disable | Ap_Get_Config "buf option"
| Monitor_Enable "8 word" | Monitor_Set_Channel "8 word" | Monitor_Disable

fun perform :: "caller \<Rightarrow> api_op \<Rightarrow> 'p api" where
  "perform c (Wifi_On mode) = wifi_on c mode"
| "perform c Wifi_Off = wifi_off c"
| "perform c (Wifi_Register f) = wifi_register_msg_cb c f"
| "perform c (Wifi_Set_Mac ifname mac) = wifi_set_mac c ifname mac"
| "perform c (Wifi_Get_Mac ifname mac) = wifi_get_mac c ifname mac"
| "perform c Wifi_Raw_Frame = wifi_send_80211_raw_frame c"
| "perform c (Wifi_Set_Country code) = wifi_set_country_code c code"
| "perform c (Wifi_Get_Country code) = wifi_get_country_code c code"
| "perform c (Wifi_Ps_Mode en) = wifi_set_ps_mode c en"
| "perform c (Wifi_Linkd mode params second b) = wifi_linkd_protocol c mode params second b"
| "perform c (Sta_Connect cn) = wifi_sta_connect c cn"
| "perform c Sta_Disconnect = wifi_sta_disconnect c"
| "perform c (Sta_Auto_Reconnect en) = wifi_sta_auto_reconnect c en"
| "perform c (Sta_Get_Info b) = wifi_sta_get_info c b"
| "perform c (Sta_List_Networks b) = wifi_sta_list_networks c b"
| "perform c (Sta_Remove_Networks ssid) = wifi_sta_remove_networks c ssid"
| "perform c (Scan_Param param) = wifi_set_scan_param c param"
| "perform c (Scan_Results r n a) = wifi_get_scan_results c r n a"
| "perform c (Ap_Enable config) = wifi_ap_enable c config"
| "perform c Ap_Disable = wifi_ap_disable c"
| "perform c (Ap_Get_Config b) = wifi_ap_get_config c b"
| "perform c (Monitor_Enable ch) = wifi_monitor_enable c ch"
| "perform c (Monitor_Set_Channel ch) = wifi_monitor_set_channel c ch"
| "perform c Monitor_Disable = wifi_monitor_disable c"

fun op_action :: "api_op \<Rightarrow> 'p action" where
  "op_action (Wifi_On _) = wifi_on_action"
| "op_action Wifi_Off = wifi_off_action"
| "op_action (Wifi_Register _) = wifi_register_msg_cb_action"
| "op_action (Wifi_Set_Mac _ _) = wifi_set_mac_action"
| "op_action (Wifi_Get_Mac _ _) = wifi_get_mac_action"
| "op_action (Wifi_Linkd _ _ _ _) = wifi_linkd_protocol_action"
| "op_action (Sta_Connect _) = wifi_sta_connect_action"
| "op_action Sta_Disconnect = wifi_sta_disconnect_action"
| "op_action (Sta_Auto_Reconnect _) = wifi_sta_auto_reconnect_action"
| "op_action (Sta_Get_Info _) = wifi_sta_get_info_action"
| "op_action (Sta_List_Networks _) = wifi_sta_list_networks_action"
| "op_action (Sta_Remove_Networks _) = wifi_sta_remove_networks_action"
| "op_action (Scan_Param _) = wifi_set_scan_param_action"
| "op_action (Scan_Results _ _ _) = wifi_get_scan_results_action"
| "op_action (Ap_Enable _) = wifi_ap_enable_action"
| "op_action Ap_Disable = wifi_ap_disable_action"
| "op_action (Ap_Get_Config _) = wifi_ap_get_config_action"
| "op_action (Monitor_Enable _) = wifi_monitor_enable_action"
| "op_action (Monitor_Set_Channel _) = wifi_monitor_set_channel_action"
| "op_action Monitor_Disable = wifi_monitor_disable_action"
| "op_action _ = unsupported_action"

fun op_args :: "api_op \<Rightarrow> arg list" where
  "op_args (Wifi_On mode) = [Arg_Mode mode]"
| "op_args (Wifi_Register f) = [Arg_Cb f]"
| "op_args (Wifi_Set_Mac ifname mac) = [opt_arg Arg_Str ifname, opt_arg Arg_Buf mac]"
| "op_args (Wifi_Get_Mac ifname mac) = [opt_arg Arg_Str ifname, opt_arg Arg_Buf mac]"
| "op_args (Wifi_Set_Country code) = [opt_arg Arg_Str code]"
| "op_args (Wifi_Get_Country code) = [opt_arg Arg_Buf code]"
| "op_args (Wifi_Ps_Mode en) = [Arg_Bool en]"
| "op_args (Wifi_Linkd mode params second b) =
     [Arg_Linkd mode, opt_arg Arg_Ap params, Arg_Int second, opt_arg Arg_Buf b]"
| "op_args (Sta_Connect cn) = [opt_arg Arg_Cn cn]"
| "op_args (Sta_Auto_Reconnect en) = [Arg_Bool en]"
| "op_args (Sta_Get_Info b) = [opt_arg Arg_Buf b]"
| "op_args (Sta_List_Networks b) = [opt_arg Arg_Buf b]"
| "op_args (Sta_Remove_Networks ssid) = [opt_arg Arg_Str ssid]"
| "op_args (Scan_Param param) = [opt_arg Arg_Str param]"
| "op_args (Scan_Results r n a) = [opt_arg Arg_Buf r, opt_arg Arg_Buf n, Arg_U32 a]"
| "op_args (Ap_Enable config) = [opt_arg Arg_Ap config]"
| "op_args (Ap_Get_Config b) = [opt_arg Arg_Buf b]"
| "op_args (Monitor_Enable ch) = [Arg_Channel ch]"
| "op_args (Monitor_Set_Channel ch) = [Arg_Channel ch]"
| "op_args _ = [Arg_Null]"

text \<open>What the action of a call does to a world.\<close>

definition run_op :: "api_op \<Rightarrow> 'p world \<Rightarrow> (int \<times> 'p world) option" where
  "run_op p w = op_action p (argv (op_args p)) (Some [Arg_Status]) w"

text \<open>
  What a caller has to see to: the protocol for the network configuration must be defined with what it is
  given, and a configuration must be given when it uses the access point; an interface name that is given
  must find a NUL behind it in the uninitialised array it is copied into.
\<close>

fun safe_name :: "string option \<Rightarrow> string \<Rightarrow> bool" where
  "safe_name None st = True"
| "safe_name (Some s) st = (32 < length s \<or> CHR 0x00 \<in> set s \<union> set (drop (length s) st))"

fun safe_op :: "api_op \<Rightarrow> 'p world \<Rightarrow> bool" where
  "safe_op (Wifi_Set_Mac ifname _) w = (\<not> wifimg_is_init w \<or> safe_name ifname (stack_bytes w))"
| "safe_op (Wifi_Get_Mac ifname _) w = (\<not> wifimg_is_init w \<or> safe_name ifname (stack_bytes w))"
| "safe_op (Wifi_Linkd mode params second b) w =
     (b \<noteq> None \<and> (mode = WMG_LINKD_MODE_SOFTAP \<longrightarrow> params \<noteq> None) \<and>
      (\<forall>p. wmg_linkd_protocol w mode params second b p \<noteq> None))"
| "safe_op _ w = True"

lemma arg_at_Cons [simp]:
  "arg_at 0 (Some (a # as)) = Some a" "arg_at (Suc i) (Some (a # as)) = arg_at i (Some as)"
  by (simp_all add: arg_at_def)

lemma arg_at_numeral [simp]: "arg_at (numeral n) (Some (a # as)) = arg_at (pred_numeral n) (Some as)"
  by (simp add: arg_at_def numeral_eq_Suc)

lemma status_ptr_here [simp]: "status_ptr (Some [Arg_Status]) = Some ()"
  by (simp add: status_ptr_def)

lemma c_str_default [simp]: "c_str (copy_ifname st None) = Some ''wlan0''"
  by (simp add: copy_ifname_def strncpy_def c_str_def)

lemma argv_Cons [simp]: "argv (a # as) = Some (a # as)"
  by (simp add: argv_def)

lemmas command_defs = wifimg_sta_connect_def wifimg_sta_disconnect_def wifimg_sta_auto_reconnect_def
  wifimg_sta_get_info_def wifimg_sta_list_networks_def wifimg_sta_remove_networks_def
  wifimg_ap_enable_def wifimg_ap_disable_def wifimg_ap_get_config_def
  wifimg_monitor_enable_def wifimg_monitor_set_channel_def wifimg_monitor_disable_def

lemma command_fine:
  assumes "app_inv w"
  shows "c \<noteq> None \<Longrightarrow> fine (wifimg_sta_connect c w)" "fine (wifimg_sta_disconnect w)"
    "fine (wifimg_sta_auto_reconnect en w)" "fine (wifimg_sta_get_info b w)"
    "fine (wifimg_sta_list_networks b w)" "fine (wifimg_sta_remove_networks ssid w)"
    "fine (wifimg_ap_enable ac w)" "fine (wifimg_ap_disable w)" "fine (wifimg_ap_get_config b w)"
    "fine (wifimg_monitor_enable ch w)" "fine (wifimg_monitor_set_channel ch w)"
    "fine (wifimg_monitor_disable w)"
  unfolding command_defs
  by (rule fine_same[OF assms]; rule sta_command ap_command monitor_command;
      use app_inv_manager[OF assms] in simp)+

lemma mac_fine:
  assumes "app_inv w"
  shows "fine (wifimg_set_mac para w)" "fine (wifimg_get_mac para w)"
    "fine (wifimg_register_msg_cb f w)" "fine (wifimg_get_scan_results r n a w)"
  unfolding wifimg_set_mac_def wifimg_get_mac_def
  by (rule fine_same[OF assms], rule mac_command_step register_msg_cb_step get_scan_results_step;
      use app_inv_manager[OF assms] in simp)+

lemmas simple_action_defs = wifi_register_msg_cb_action_def wifi_set_mac_action_def wifi_get_mac_action_def
  mac_action_def unsupported_action_def wifi_sta_connect_action_def wifi_sta_disconnect_action_def
  wifi_sta_auto_reconnect_action_def wifi_sta_get_info_action_def wifi_sta_list_networks_action_def
  wifi_sta_remove_networks_action_def wifi_set_scan_param_action_def wifi_get_scan_results_action_def
  wifi_ap_enable_action_def wifi_ap_disable_action_def wifi_ap_get_config_action_def
  wifi_monitor_enable_action_def wifi_monitor_set_channel_action_def wifi_monitor_disable_action_def

lemma wifi_on_fine:
  assumes "app_inv w"
  shows "fine (wifi_on_action (Some [Arg_Mode mode]) (Some [Arg_Status]) w)"
proof -
  obtain r0 w0 where i: "(if wifimg_is_init w then (WMG_STATUS_SUCCESS, w) else wifimg_init w) = (r0, w0)" "app_inv w0"
    using init_fine[OF assms] by blast
  obtain r1 w1 where "wifimg_switch_mode mode w0 = Some (r1, w1)" "app_inv w1"
    using switch_fine[OF i(2)] by blast
  then show ?thesis
    by (cases "wifimg_is_init w") (use i in \<open>simp_all add: wifi_on_action_def\<close>)
qed

lemma wifi_off_fine:
  assumes "app_inv w"
  shows "fine (wifi_off_action cargs (Some [Arg_Status]) w)"
proof (cases "wifimg_is_init w")
  case True
  then obtain w' where "wifimg_deinit w = Some w'" "app_inv w'"
    using wifimg_deinit_step[OF app_inv_manager[OF assms]] app_inv_fixed[OF assms]
    by (metis wifimg_is_init_def)
  with True show ?thesis by (simp add: wifi_off_action_def)
qed (use assms in \<open>simp add: wifi_off_action_def\<close>)

text \<open>
  The protocol for the network configuration, from its parts: the manager and the mode, the access point,
  and the protocol itself, which may be undefined with what it is given.
\<close>

lemma linkd_result:
  fixes lmode :: wifi_linkd_mode and second :: int
  assumes "app_inv w" "ptr_ap opt_ap = Some params" "ptr_buf opt_buf = Some result"
  defines "act \<equiv> wifi_linkd_protocol_action (Some [Arg_Linkd lmode, opt_ap, Arg_Int second, opt_buf]) (Some [Arg_Status]) w"
  shows "act = Some (ret, w') \<Longrightarrow> app_inv w'"
    and "act = Some (ret, w') \<Longrightarrow> lmode = WMG_LINKD_MODE_SOFTAP \<Longrightarrow> params = None \<Longrightarrow> ret \<noteq> WMG_STATUS_SUCCESS"
    and "result \<noteq> None \<Longrightarrow> (lmode = WMG_LINKD_MODE_SOFTAP \<longrightarrow> params \<noteq> None) \<Longrightarrow>
      (\<forall>p. wmg_linkd_protocol w lmode params second result p \<noteq> None) \<Longrightarrow> act \<noteq> None"
proof -
  let ?run = "\<lambda>v. Option.bind (wifimg_linkd_protocol lmode params second result v)
      (\<lambda>(ret, v). if ret = 0 \<and> result = None then None else reply ret v)"
  have kept: "app_inv v'" if v: "app_inv v" "?run v = Some (r, v')" for v v' r
  proof -
    obtain a u where a: "wifimg_linkd_protocol lmode params second result v = Some (a, u)" "reply a u = Some (r, v')"
      using v(2) by (auto simp: bind_eq_Some_conv split: if_splits)
    then show ?thesis using reply_inv[OF a(2) app_inv_same_setup[OF v(1) linkd_step[OF a(1)]]] by simp
  qed
  have total: "?run v \<noteq> None" if t: "result \<noteq> None"
    "\<forall>p. wmg_linkd_protocol w lmode params second result p \<noteq> None" "fixed_part v = fixed_part w" for v
  proof -
    have "wmg_linkd_protocol v = wmg_linkd_protocol w" using t(3) by (simp add: fixed_part_def)
    moreover obtain x where "wmg_linkd_protocol w lmode params second result (plat (wenv v)) = Some x" using t(2) by blast
    ultimately show ?thesis using t(1) by (cases x) (simp add: wifimg_linkd_protocol_def reply_def)
  qed
  obtain r0 w0 where i: "(if wifimg_is_init w then (WMG_STATUS_SUCCESS, w) else wifimg_init w) = (r0, w0)" "app_inv w0"
      "fixed_part w0 = fixed_part w"
    using init_fine[OF assms(1)] by blast
  obtain r1 w1 where s: "wifimg_switch_mode WIFI_AP w0 = Some (r1, w1)" "app_inv w1" "fixed_part w1 = fixed_part w"
    using switch_fine[OF i(2)] i(3) by metis
  have ap: "\<exists>r2 w2. wifimg_ap_enable (Some c) w1 = Some (r2, w2) \<and> same_setup w1 w2" for c
    using ap_command[OF app_inv_manager[OF s(2)]] by (simp add: wifimg_ap_enable_def)
  have act: "act = (if lmode \<noteq> WMG_LINKD_MODE_SOFTAP then ?run w
      else if r0 \<noteq> WMG_STATUS_SUCCESS then reply r0 w0
      else if switch_status r1 \<noteq> WMG_STATUS_SUCCESS then reply r1 w1
      else Option.bind params (\<lambda>c. Option.bind (wifimg_ap_enable (Some c) w1)
        (\<lambda>(r2, w2). if r2 \<noteq> WMG_STATUS_SUCCESS then reply r2 w2 else ?run w2)))"
    using i(1) s(1) assms(2,3) unfolding act_def
    by (cases "wifimg_is_init w") (simp_all add: wifi_linkd_protocol_action_def)
  show "app_inv w'" if r: "act = Some (ret, w')"
  proof (cases "lmode = WMG_LINKD_MODE_SOFTAP \<and> r0 = WMG_STATUS_SUCCESS \<and> switch_status r1 = WMG_STATUS_SUCCESS")
    case False
    then show ?thesis
      using r kept[OF assms(1)] reply_inv[OF _ i(2)] reply_inv[OF _ s(2)] by (auto simp: act split: if_splits)
  next
    case True
    then obtain c where c: "params = Some c" using r by (cases params) (auto simp: act)
    obtain r2 w2 where a: "wifimg_ap_enable (Some c) w1 = Some (r2, w2)" "same_setup w1 w2" using ap by blast
    note inv2 = app_inv_same_setup[OF s(2) a(2)]
    show ?thesis
      using r True a(1) c kept[OF inv2] reply_inv[OF _ inv2] by (auto simp: act split: if_splits)
  qed
  show "ret \<noteq> WMG_STATUS_SUCCESS" if "act = Some (ret, w')" "lmode = WMG_LINKD_MODE_SOFTAP" "params = None"
    using that by (auto simp: act reply_def switch_status_def split: if_splits)
  show "act \<noteq> None" if t: "result \<noteq> None" "lmode = WMG_LINKD_MODE_SOFTAP \<longrightarrow> params \<noteq> None"
    "\<forall>p. wmg_linkd_protocol w lmode params second result p \<noteq> None"
  proof (cases "lmode = WMG_LINKD_MODE_SOFTAP")
    case False
    then show ?thesis using total[OF t(1,3) refl] by (simp add: act)
  next
    case True
    then obtain c where c: "params = Some c" using t(2) by auto
    obtain r2 w2 where a: "wifimg_ap_enable (Some c) w1 = Some (r2, w2)" "same_setup w1 w2" using ap by blast
    have "fixed_part w2 = fixed_part w" using a(2) s(3) by (simp add: same_setup_def)
    from total[OF t(1,3) this] show ?thesis using True c a(1) by (simp add: act reply_def)
  qed
qed

lemma opt_arg_ptr [simp]:
  "ptr_buf (opt_arg Arg_Buf b) = Some b" "ptr_str (opt_arg Arg_Str t) = Some t"
  "ptr_ap (opt_arg Arg_Ap c) = Some c" "ptr_cn (opt_arg Arg_Cn n) = Some n"
  by (simp_all add: opt_arg_def split: option.split)

lemma safe_name_c_str:
  "safe_name (Some s) st \<Longrightarrow> \<not> 32 < length s \<Longrightarrow> \<exists>name. c_str (copy_ifname st (Some s)) = Some name"
  by (auto simp: copy_ifname_def strncpy_def c_str_def)

text \<open>A name without a NUL behind it is read on beyond the array.\<close>

lemma mac_action_fine:
  fixes ifname :: "string option" and mac :: "buf option"
  assumes "app_inv w" "\<And>para. fine (f para w)"
  defines "act \<equiv> mac_action f (Some [opt_arg Arg_Str ifname, opt_arg Arg_Buf mac]) (Some [Arg_Status]) w"
  shows "\<not> wifimg_is_init w \<or> safe_name ifname (stack_bytes w) \<Longrightarrow> fine act"
    and "\<not> (\<not> wifimg_is_init w \<or> safe_name ifname (stack_bytes w)) \<Longrightarrow> act = None"
proof -
  show "fine act" if "\<not> wifimg_is_init w \<or> safe_name ifname (stack_bytes w)"
  proof (cases ifname)
    case None
    then show ?thesis using assms(1,2) unfolding act_def by (simp add: mac_action_def fine_reply_from)
  next
    case (Some s)
    then show ?thesis
      using that assms(1,2) safe_name_c_str[of s "stack_bytes w"] unfolding act_def
      by (auto simp: mac_action_def intro!: fine_reply_from)
  qed
  show "act = None" if "\<not> (\<not> wifimg_is_init w \<or> safe_name ifname (stack_bytes w))"
    using that unfolding act_def
    by (cases ifname) (auto simp: mac_action_def c_str_def copy_ifname_def strncpy_def)
qed

lemma mac_op:
  assumes "app_inv w" "p = Wifi_Set_Mac ifname mac \<or> p = Wifi_Get_Mac ifname mac"
  shows "safe_op p w \<Longrightarrow> fine (run_op p w)" and "\<not> safe_op p w \<Longrightarrow> run_op p w = None"
  using mac_action_fine[OF assms(1), of wifimg_set_mac] mac_action_fine[OF assms(1), of wifimg_get_mac]
    mac_fine(1,2)[OF assms(1)] assms(2)
  by (auto simp: run_op_def wifi_set_mac_action_def wifi_get_mac_action_def)

lemma run_op_fine:
  assumes "app_inv w" "safe_op p w"
  shows "fine (run_op p w)"
proof (cases p)
  case (Wifi_On mode)
  then show ?thesis using wifi_on_fine[OF assms(1)] by (simp add: run_op_def)
next
  case Wifi_Off
  then show ?thesis using wifi_off_fine[OF assms(1)] by (simp add: run_op_def)
next
  case (Wifi_Set_Mac ifname mac)
  then show ?thesis using mac_op(1)[OF assms(1)] assms(2) by blast
next
  case (Wifi_Get_Mac ifname mac)
  then show ?thesis using mac_op(1)[OF assms(1)] assms(2) by blast
next
  case (Wifi_Linkd mode params second b)
  note l = linkd_result[OF assms(1), of "opt_arg Arg_Ap params" params "opt_arg Arg_Buf b" b mode second]
  show ?thesis
    using Wifi_Linkd assms(2) l(1,3) by (fastforce simp: run_op_def fine_def)
qed (auto simp: run_op_def simple_action_defs assms(1) intro!: fine_in_mode fine_reply_from mac_fine command_fine
      split: option.split)

text \<open>Whatever was given, a call that is defined keeps the invariant.\<close>

lemma run_op_inv:
  assumes "app_inv w" "run_op p w = Some (ret, w')"
  shows "app_inv w'"
proof (cases "safe_op p w")
  case True
  then have "fine (run_op p w)" by (rule run_op_fine[OF assms(1)])
  then show ?thesis using assms(2) by (simp add: fine_def)
next
  case False
  then obtain mode params second b where p: "p = Wifi_Linkd mode params second b"
    using mac_op(2)[OF assms(1)] assms(2) by (cases p) auto
  then show ?thesis
    using linkd_result(1)[OF assms(1), of "opt_arg Arg_Ap params" params "opt_arg Arg_Buf b" b mode second] assms(2)
    by (simp add: run_op_def)
qed

text \<open>With the access point, a configuration that is not given never leads to success.\<close>

lemma linkd_without_config:
  assumes "app_inv w" "run_op (Wifi_Linkd WMG_LINKD_MODE_SOFTAP None second b) w = Some (ret, w')"
  shows "ret \<noteq> WMG_STATUS_SUCCESS"
  using linkd_result(2)[OF assms(1), of "opt_arg Arg_Ap None" None "opt_arg Arg_Buf b" b WMG_LINKD_MODE_SOFTAP second] assms(2)
  by (simp add: run_op_def)

section \<open>Calls through the action thread\<close>

text \<open>
  A caller outside the action thread, given memory for its message, whose action runs before
  anything disturbs its wait.
\<close>

definition served :: "caller \<Rightarrow> 'p wifi_sys \<Rightarrow> bool" where
  "served c s \<longleftrightarrow> (\<exists>pid q evs. c = (pid, Some q, Thread_Pass # evs) \<and> pid \<noteq> act_pid s \<and> heap s q = None)"

lemmas table_defs = pla_action_table_def sta_action_table_def ap_action_table_def monitor_action_table_def

lemmas api_defs = wifi_on_def wifi_off_def wifi_register_msg_cb_def wifi_set_mac_def wifi_get_mac_def
  wifi_send_80211_raw_frame_def wifi_set_country_code_def wifi_get_country_code_def wifi_set_ps_mode_def
  wifi_linkd_protocol_def wifi_sta_connect_def wifi_sta_disconnect_def wifi_sta_auto_reconnect_def
  wifi_sta_get_info_def wifi_sta_list_networks_def wifi_sta_remove_networks_def wifi_set_scan_param_def
  wifi_get_scan_results_def wifi_ap_enable_def wifi_ap_disable_def wifi_ap_get_config_def
  wifi_monitor_enable_def wifi_monitor_set_channel_def wifi_monitor_disable_def

text \<open>Every call finds its action in the table it names.\<close>

lemma perform_lookup:
  assumes "wifi_ready s"
  shows "\<exists>tid opcode tbl. perform c p s = wifi_call c tid opcode (op_args p) s \<and>
    act_funcs s ! unat tid = Some tbl \<and> unat tid < ACT_FUNC_NUM \<and>
    unat (ucast opcode :: 8 word) < length tbl \<and> tbl ! unat (ucast opcode :: 8 word) = entry (op_action p)"
  using assms
  by (cases p) (force simp: api_defs table_defs wifi_ready_def)+

lemma perform_outcome:
  assumes "wifi_ready s" "served c s"
  shows "\<exists>q. (\<forall>w. wifi_ready (s\<lparr>queue := q, world := w\<rparr>)) \<and>
    perform c p s = (case run_op p ((world s)\<lparr>cb_status := WMG_STATUS_FAIL\<rparr>) of
      None \<Rightarrow> Crash
    | Some (r, w) \<Rightarrow> Returns (cb_status w, s\<lparr>queue := q, world := w\<rparr>))"
proof -
  obtain pid a evs where c: "c = (pid, Some a, Thread_Pass # evs)" "pid \<noteq> act_pid s" "heap s a = None"
    using assms(2) by (auto simp: served_def)
  from perform_lookup[OF assms(1), of c p] obtain tid opcode tbl where l:
    "perform c p s = wifi_call c tid opcode (op_args p) s" "act_funcs s ! unat tid = Some tbl" "unat tid < ACT_FUNC_NUM"
    "unat (ucast opcode :: 8 word) < length tbl" "tbl ! unat (ucast opcode :: 8 word) = entry (op_action p)"
    by blast
  show ?thesis
    using call_outcome[OF assms(1) c(2,3) l(2-5), of evs "op_args p"]
    by (simp only: l(1)[unfolded c(1)] c(1) run_op_def)
qed

end
