(* ===== verification/Wmg_Properties.thy ===== *)
theory Wmg_Properties
  imports Wmg_Safety
begin

text \<open>
  What the manager promises: calls through the action thread behave as their actions run one
  after another, no reachable state is undefined, what starting, switching and stopping do on
  every branch, and the places where the code does less than its callers may expect.
\<close>

section \<open>Sessions\<close>

text \<open>The world at program start: the static objects, all three modes linked in.\<close>

definition at_boot :: "'p world \<Rightarrow> bool" where
  "at_boot w \<longleftrightarrow> img w = wifimg_object_static \<and> sta_obj w = sta_object_static \<and>
     ap_obj w = ap_object_static \<and> mon_obj w = monitor_object_static \<and> (\<forall>m. linked w m)"

lemma at_boot_inv: "at_boot w \<Longrightarrow> app_inv w"
  by (simp add: at_boot_def app_inv_def manager_inv_def manager_core_def all_modes wifimg_object_static_def
      sta_object_static_def ap_object_static_def monitor_object_static_def sta_good_def ap_good_def
      monitor_good_def has_mode_def supports_def wifimg_get_current_mode_def wmg_wifi_bitmap_to_mode_def)

definition all_granted :: "act_init_results \<Rightarrow> bool" where
  "all_granted r \<longleftrightarrow> rmutex_ok r \<and> sem_ok r \<and> thread_ok r \<and> malloc_ok (queue_results r) \<and>
     mutex_ok (queue_results r) \<and> cattr_ok (queue_results r) \<and> cond_ok (queue_results r) \<and>
     pcattr_ok (queue_results r) \<and> pcond_ok (queue_results r)"

lemma wifimanager_init_runs:
  assumes "all_granted r" "length (act_funcs s) = ACT_FUNC_NUM"
  shows "\<exists>s'. wifimanager_init r s = Returns (WMG_STATUS_SUCCESS, s') \<and> wifi_ready s' \<and>
    world s' = world s \<and> heap s' = heap s \<and> act_pid s' = thread_pid r"
proof -
  obtain q where q: "os_net_queue_create (queue_results r) 24 24 (queue s) = Returns (OS_NET_STATUS_OK, q)"
      "queue_ok q" "queue_items q = []" "queue_room q = 72"
    using fresh_ring[of "queue_results r" 576 "queue s"] assms(1)
    by (auto simp: os_net_queue_create_def queue_ok_def queue_items_def queue_room_def ptrs_of.simps all_granted_def)
  then show ?thesis
    using assms by (simp add: wifimanager_init_def act_init_def all_granted_def act_register_handler_def
        wifi_ready_def act_idle_def Let_def)
qed

fun run_calls :: "(caller \<times> api_op) list \<Rightarrow> 'p wifi_sys \<Rightarrow> (int list \<times> 'p wifi_sys) outcome" where
  "run_calls [] s = Returns ([], s)"
| "run_calls ((c, p) # cs) s =
     bind_outcome (perform c p s) (\<lambda>(st, s). map_outcome_of (\<lambda>(sts, s). (st # sts, s)) (run_calls cs s))"

text \<open>The actions alone, one after another; a status is what an action left for its caller.\<close>

fun run_ops :: "api_op list \<Rightarrow> 'p world \<Rightarrow> (int list \<times> 'p world) option" where
  "run_ops [] w = Some ([], w)"
| "run_ops (p # ps) w =
     do {
       (_, w) \<leftarrow> run_op p (w\<lparr>cb_status := WMG_STATUS_FAIL\<rparr>);
       (sts, w') \<leftarrow> run_ops ps w;
       Some (cb_status w # sts, w')
     }"

lemma app_inv_cb: "app_inv w \<Longrightarrow> app_inv (w\<lparr>cb_status := c\<rparr>)"
  by (rule app_inv_same_setup[OF _ same_setup_cb])

lemma served_frame: "served c s \<Longrightarrow> served c (s\<lparr>queue := q, world := w\<rparr>)"
  by (auto simp: served_def)

lemma safe_op_cb [simp]: "safe_op p (w\<lparr>cb_status := c\<rparr>) = safe_op p w"
  by (cases p) (simp_all add: wifimg_is_init_def)

text \<open>Every call meets its conditions in the world it is made in.\<close>

fun made_safely :: "api_op list \<Rightarrow> 'p world \<Rightarrow> bool" where
  "made_safely [] w = True"
| "made_safely (p # ps) w =
     (safe_op p w \<and> pred_option (\<lambda>(_, w). made_safely ps w) (run_op p (w\<lparr>cb_status := WMG_STATUS_FAIL\<rparr>)))"

lemma made_safely_runs: "app_inv w \<Longrightarrow> made_safely ps w \<Longrightarrow> run_ops ps w \<noteq> None"
proof (induction ps arbitrary: w)
  case (Cons p ps)
  have "fine (run_op p (w\<lparr>cb_status := WMG_STATUS_FAIL\<rparr>))"
    using run_op_fine[OF app_inv_cb[OF Cons.prems(1)]] Cons.prems(2) by simp
  then obtain r v where v: "run_op p (w\<lparr>cb_status := WMG_STATUS_FAIL\<rparr>) = Some (r, v)" "app_inv v"
    by (auto simp: fine_def)
  then have "run_ops ps v \<noteq> None" using Cons.IH Cons.prems(2) by simp
  then show ?case using v by auto
qed simp

lemma run_calls_refine:
  assumes "wifi_ready s" "app_inv (world s)" "\<forall>(c, p) \<in> set cs. served c s"
  shows "case run_ops (map snd cs) (world s) of
      None \<Rightarrow> run_calls cs s = Crash
    | Some (sts, w) \<Rightarrow> \<exists>s'. run_calls cs s = Returns (sts, s') \<and> world s' = w \<and> wifi_ready s' \<and> app_inv w"
  using assms
proof (induction cs arbitrary: s)
  case Nil
  then show ?case by simp
next
  case (Cons cp cs)
  obtain c p where cp: "cp = (c, p)" by fastforce
  then have srv: "served c s" using Cons.prems(3) by simp
  obtain q where q: "\<And>w. wifi_ready (s\<lparr>queue := q, world := w\<rparr>)"
      "perform c p s = (case run_op p ((world s)\<lparr>cb_status := WMG_STATUS_FAIL\<rparr>) of
        None \<Rightarrow> Crash | Some (r, w) \<Rightarrow> Returns (cb_status w, s\<lparr>queue := q, world := w\<rparr>))"
    using perform_outcome[OF Cons.prems(1) srv, of p] by blast
  show ?case
  proof (cases "run_op p ((world s)\<lparr>cb_status := WMG_STATUS_FAIL\<rparr>)")
    case None
    then show ?thesis using q(2) by (simp add: cp)
  next
    case (Some x)
    then obtain r w where x: "run_op p ((world s)\<lparr>cb_status := WMG_STATUS_FAIL\<rparr>) = Some (r, w)" by (cases x) simp
    have "app_inv w" by (rule run_op_inv[OF app_inv_cb[OF Cons.prems(2)] x])
    moreover have "\<forall>(c, p) \<in> set cs. served c (s\<lparr>queue := q, world := w\<rparr>)"
      using Cons.prems(3) served_frame by fastforce
    ultimately show ?thesis
      using Cons.IH[of "s\<lparr>queue := q, world := w\<rparr>"] q x by (auto simp: cp split: option.splits)
  qed
qed

text \<open>
  C1. Once \<open>wifimanager_init\<close> got its resources, a sequence of calls of the public interface, made
  from threads other than the action thread, does what their actions do when they run alone, in the
  order of the calls: it is undefined exactly when they are, and otherwise every call returns,
  the statuses the callers see and the final state are theirs, and the invariant of the manager and
  an idle action thread are kept. The actions are defined when every call meets its conditions in
  the world it is made in: those the network configuration needs, and a NUL in the array that a named MAC
  call reads. Each caller has memory for its message, and its action runs before anything disturbs its wait.
\<close>

theorem session_refines_actions:
  assumes "all_granted r" "length (act_funcs s0) = ACT_FUNC_NUM" "at_boot (world s0)"
    and "\<forall>(c, p) \<in> set cs. \<exists>pid q evs. c = (pid, Some q, Thread_Pass # evs) \<and> pid \<noteq> thread_pid r \<and> heap s0 q = None"
  shows "\<exists>s1. wifimanager_init r s0 = Returns (WMG_STATUS_SUCCESS, s1) \<and>
    (case run_ops (map snd cs) (world s0) of
       None \<Rightarrow> run_calls cs s1 = Crash
     | Some (sts, w) \<Rightarrow> \<exists>s2. run_calls cs s1 = Returns (sts, s2) \<and> world s2 = w \<and> wifi_ready s2 \<and> app_inv w) \<and>
    (made_safely (map snd cs) (world s0) \<longrightarrow> run_ops (map snd cs) (world s0) \<noteq> None)"
proof -
  obtain s1 where s1: "wifimanager_init r s0 = Returns (WMG_STATUS_SUCCESS, s1)" "wifi_ready s1"
      "world s1 = world s0" "heap s1 = heap s0" "act_pid s1 = thread_pid r"
    using wifimanager_init_runs[OF assms(1,2)] by blast
  have "\<forall>(c, p) \<in> set cs. served c s1"
    using assms(4) by (fastforce simp: served_def s1(4,5))
  from run_calls_refine[OF s1(2) _ this] show ?thesis
    using at_boot_inv[OF assms(3)] s1(1,3) made_safely_runs[OF at_boot_inv[OF assms(3)], of "map snd cs"] by simp
qed

section \<open>Reachable worlds\<close>

text \<open>
  Between and during calls the platform reports events and frames from its own threads, its
  state moves, and the bytes below the stack pointer change.
\<close>

inductive wmg_step :: "'p world \<Rightarrow> 'p world \<Rightarrow> bool" where
  request: "run_op p (w\<lparr>cb_status := WMG_STATUS_FAIL\<rparr>) = Some (ret, w') \<Longrightarrow> wmg_step w w'"
| sta_event: "sta_wpa_event_notify ev (sta_obj w, wenv w) = (obj, e) \<Longrightarrow>
    wmg_step w (w\<lparr>sta_obj := obj, wenv := e\<rparr>)"
| ap_event: "wmg_step w (w\<lparr>wenv := ap_hapd_event_notify ev (ap_obj w) (wenv w)\<rparr>)"
| frame_received: "monitor_nl_data_notify fr (mon_obj w, wenv w) = (obj, e) \<Longrightarrow>
    wmg_step w (w\<lparr>mon_obj := obj, wenv := e\<rparr>)"
| platform: "wmg_step w (w\<lparr>wenv := (wenv w)\<lparr>plat := q\<rparr>\<rparr>)"
| stack: "wmg_step w (w\<lparr>stack_bytes := st\<rparr>)"

lemma same_setup_sta:
  "sta_setup obj = sta_setup (sta_obj w) \<Longrightarrow> same_setup w (w\<lparr>sta_obj := obj, wenv := e\<rparr>)"
  by (simp add: same_setup_def fixed_part_def all_modes sta_setup_def sta_good_def)

lemma sta_notify_setup: "sta_wpa_event_notify ev (obj, e) = (obj', e') \<Longrightarrow> sta_setup obj' = sta_setup obj"
  by (auto simp: sta_wpa_event_notify_def)

lemma wmg_step_inv:
  assumes "wmg_step w w'" "app_inv w"
  shows "app_inv w'"
  using assms(1)
proof cases
  case (request p ret)
  then show ?thesis using run_op_inv[OF app_inv_cb[OF assms(2)]] by blast
next
  case (sta_event ev obj e)
  then show ?thesis using app_inv_same_setup[OF assms(2) same_setup_sta[OF sta_notify_setup]] by simp
next
  case (ap_event ev)
  have "same_setup w w'" unfolding ap_event by (simp add: same_setup_def fixed_part_def all_modes)
  then show ?thesis using app_inv_same_setup[OF assms(2)] by simp
next
  case (frame_received fr obj e)
  then have "same_setup w w'"
    by (auto simp: same_setup_def fixed_part_def all_modes monitor_nl_data_notify_def monitor_good_def)
  then show ?thesis using app_inv_same_setup[OF assms(2)] by simp
next
  case (platform q)
  have "same_setup w w'" unfolding platform by (simp add: same_setup_def fixed_part_def all_modes)
  then show ?thesis using app_inv_same_setup[OF assms(2)] by simp
next
  case (stack st)
  have "same_setup w w'" unfolding stack by (simp add: same_setup_def fixed_part_def all_modes)
  then show ?thesis using app_inv_same_setup[OF assms(2)] by simp
qed

definition reachable :: "'p world \<Rightarrow> bool" where
  "reachable w \<longleftrightarrow> (\<exists>w0. at_boot w0 \<and> wmg_step\<^sup>*\<^sup>* w0 w)"

lemma reachable_inv:
  assumes "reachable w"
  shows "app_inv w"
proof -
  obtain w0 where "wmg_step\<^sup>*\<^sup>* w0 w" "at_boot w0" using assms by (auto simp: reachable_def)
  then show ?thesis by (induction rule: rtranclp_induct) (auto intro: at_boot_inv wmg_step_inv)
qed

lemma reachable_step: "reachable w \<Longrightarrow> wmg_step w w' \<Longrightarrow> reachable w'"
  by (auto simp: reachable_def intro: rtranclp.rtrancl_into_rtrancl)


section \<open>Modes and bits\<close>

text \<open>
  Converting a mode to its bits and back gives the mode again; in the other direction a
  byte comes back exactly when it is one of the six bitmaps that have a mode.
\<close>

theorem mode_bitmap_roundtrip:
  "wmg_wifi_bitmap_to_mode (wmg_wifi_mode_to_bitmap m) = m \<and>
   (wmg_wifi_mode_to_bitmap (wmg_wifi_bitmap_to_mode b) = b \<longleftrightarrow>
      b \<in> {UNK_BITMAP, STA_BITMAP, AP_BITMAP, MONITOR_BITMAP, AP_STA_BITMAP, AP_MONITOR_BITMAP})"
  by (cases m) (auto simp: wmg_wifi_bitmap_to_mode_def)

lemma mode_to_bitmap_inject: "wmg_wifi_mode_to_bitmap m = wmg_wifi_mode_to_bitmap n \<longleftrightarrow> m = n"
  by (cases m; cases n) simp_all

lemma app_supports:
  assumes "app_inv w" "init_flag (img w)" "t \<noteq> WIFI_MODE_UNKNOWN"
  shows "support_mode_bitmap (img w) AND wmg_wifi_mode_to_bitmap t \<noteq> 0"
proof -
  have s: "\<forall>m. support_mode_bitmap (img w) AND mode_bit m \<noteq> 0" and "support_mode_bitmap (img w) \<le> 7"
    using assms(1,2) by (auto simp: app_inv_def manager_inv_def manager_core_def supports_def)
  from bitmap_cases[OF this(2)] s[unfolded all_modes] have "support_mode_bitmap (img w) = 7" by auto
  then show ?thesis using assms(3) by (cases t) simp_all
qed

lemma ex_modes: "(\<exists>m. P m) \<longleftrightarrow> P Sta_Object \<or> P Ap_Object \<or> P Monitor_Object"
  by (metis mode_ref.exhaust)

lemma switch_refused:
  "wifimg_switch_mode WIFI_MODE_UNKNOWN w = Some (WMG_STATUS_INVALID, w)"
  "t \<noteq> WIFI_MODE_UNKNOWN \<Longrightarrow> init_flag (img w) \<Longrightarrow> t = wifimg_get_current_mode w \<Longrightarrow>
     wifimg_switch_mode t w = Some (WMG_STATUS_UNHANDLED, w)"
  by (simp_all add: wifimg_switch_mode_def wifimg_get_current_mode_def Let_def)

text \<open>The arithmetic of a switch: what the bits are at its end, and when they are the target's.\<close>

lemma switch_bits:
  fixes t c :: wifi_mode
  defines "T \<equiv> wmg_wifi_mode_to_bitmap t" and "C \<equiv> wmg_wifi_mode_to_bitmap c"
  assumes "t \<noteq> WIFI_MODE_UNKNOWN"
  shows "T = (if \<exists>m. ((T OR C) XOR T) AND mode_bit m \<noteq> 0 then 0 else C) OR gained ((T OR C) XOR C) ok \<longleftrightarrow>
    (\<forall>m. T AND mode_bit m \<noteq> 0 \<and> C AND mode_bit m = 0 \<longrightarrow> ok m) \<and> (T AND C = 0 \<or> T OR C = T)"
  using assms(3) unfolding T_def C_def gained_def all_modes ex_modes
  by (cases t; cases c; cases "ok Sta_Object"; cases "ok Ap_Object"; cases "ok Monitor_Object") simp_all

lemma switch_effect:
  assumes inv: "app_inv w" and on: "init_flag (img w)" and t: "t \<noteq> WIFI_MODE_UNKNOWN" "t \<noteq> wifimg_get_current_mode w"
  defines "T \<equiv> wmg_wifi_mode_to_bitmap t" and "C \<equiv> current_mode_bitmap (img w)"
  shows "\<exists>ret w'. wifimg_switch_mode t w = Some (ret, w') \<and> app_inv w' \<and> switch_frame w w' \<and>
    (ret = WMG_STATUS_SUCCESS \<or> ret = WMG_STATUS_FAIL) \<and>
    (ret = WMG_STATUS_SUCCESS \<longleftrightarrow> wifimg_get_current_mode w' = t) \<and>
    (ret = WMG_STATUS_SUCCESS \<longleftrightarrow>
       (\<forall>m. T AND mode_bit m \<noteq> 0 \<longrightarrow> mode_enabled m w') \<and> (T AND C = 0 \<or> T OR C = T)) \<and>
    (\<forall>m. C AND mode_bit m \<noteq> 0 \<longrightarrow> mode_enabled m w' = (T AND mode_bit m \<noteq> 0)) \<and>
    (\<forall>m. C AND mode_bit m = 0 \<and> T AND mode_bit m = 0 \<longrightarrow> mode_enabled m w' = mode_enabled m w) \<and>
    (\<not> (T AND C = 0 \<or> T OR C = T) \<longrightarrow>
       current_mode_bitmap (img w') AND ((T OR C) XOR C) = current_mode_bitmap (img w'))"
proof -
  have cur: "wmg_wifi_mode_to_bitmap (wifimg_get_current_mode w) = C"
    using app_inv_manager[OF inv] by (simp add: manager_inv_def C_def)
  have linked: "linked w m" for m using inv by (simp add: app_inv_def)
  obtain ok b w' where run: "wifimg_switch_mode t w = Some (if T = b then WMG_STATUS_SUCCESS else WMG_STATUS_FAIL, w')"
      "manager_inv w'" "switch_frame w w'" "current_mode_bitmap (img w') = b"
      "b = (if \<exists>m. to_leave t w AND mode_bit m \<noteq> 0 then 0 else C) OR gained (to_enter t w) ok"
      "\<forall>k. mode_enabled k w' = (if to_enter t w AND mode_bit k \<noteq> 0 then ok k
         else mode_enabled k w \<and> to_leave t w AND mode_bit k = 0)"
    using switch_run[OF app_inv_manager[OF inv] on t app_supports[OF inv on t(1)] linked]
    unfolding T_def C_def by blast
  have inv': "app_inv w'" using app_inv_fixed[OF inv run(2)] run(3) by (simp add: switch_frame_def)
  have mode: "T = b \<longleftrightarrow> wifimg_get_current_mode w' = t"
    using run(2,4) mode_to_bitmap_inject unfolding T_def manager_inv_def by metis
  have bits: "to_leave t w = (T OR C) XOR T" "to_enter t w = (T OR C) XOR C"
    by (simp_all add: to_leave_def to_enter_def cur Let_def T_def)
  have en: "has_mode m w \<longrightarrow> mode_enabled m w" for m
    using app_inv_manager[OF inv] by (auto simp: manager_inv_def manager_core_def)
  have enabled: "C AND mode_bit m \<noteq> 0 \<Longrightarrow> mode_enabled m w' = (T AND mode_bit m \<noteq> 0)"
      "C AND mode_bit m = 0 \<Longrightarrow> T AND mode_bit m = 0 \<Longrightarrow> mode_enabled m w' = mode_enabled m w"
      "C AND mode_bit m = 0 \<Longrightarrow> T AND mode_bit m \<noteq> 0 \<Longrightarrow> mode_enabled m w' = ok m" for m
    using run(6) en[of m] to_leave_bits[of t w m] to_enter_bits[of t w m]
    by (auto simp: cur T_def has_mode_def C_def[symmetric])
  have success: "T = b \<longleftrightarrow> (\<forall>m. T AND mode_bit m \<noteq> 0 \<longrightarrow> mode_enabled m w') \<and> (T AND C = 0 \<or> T OR C = T)"
    using switch_bits[OF t(1), of "wifimg_get_current_mode w" ok] enabled
    unfolding run(5) bits cur T_def by blast
  have gone: "b AND ((T OR C) XOR C) = b" if "\<not> (T AND C = 0 \<or> T OR C = T)"
    using that unfolding run(5) bits cur[symmetric] T_def gained_def ex_modes
    by (cases t; cases "wifimg_get_current_mode w"; simp)
  show ?thesis
    using run(1,3,4) inv' mode success enabled(1,2) gone
    by (intro exI[of _ "if T = b then WMG_STATUS_SUCCESS else WMG_STATUS_FAIL"] exI[of _ w']) auto
qed

text \<open>
  C3. What a switch to another mode does on a running manager. It ends with success or with
  \<open>WMG_STATUS_FAIL\<close>, and with success exactly when the mode in force at its end is the one
  asked for. The modes of the old set that the new one lacks are disabled, the shared ones stay
  enabled. It succeeds exactly when every mode of the new set is enabled at its end and the two
  sets are disjoint or the new one contains the old one: a switch that drops one mode and keeps
  another never succeeds, because the code clears all bits where it means to clear one.
\<close>

theorem switch_mode_effect:
  assumes "app_inv w" "init_flag (img w)" "t \<noteq> WIFI_MODE_UNKNOWN" "t \<noteq> wifimg_get_current_mode w"
  shows "\<exists>ret w'. wifimg_switch_mode t w = Some (ret, w') \<and> app_inv w' \<and>
    (ret = WMG_STATUS_SUCCESS \<or> ret = WMG_STATUS_FAIL) \<and>
    (ret = WMG_STATUS_SUCCESS \<longleftrightarrow> wifimg_get_current_mode w' = t) \<and>
    (ret = WMG_STATUS_SUCCESS \<longleftrightarrow>
       (\<forall>m. wmg_wifi_mode_to_bitmap t AND mode_bit m \<noteq> 0 \<longrightarrow> mode_enabled m w') \<and>
       (wmg_wifi_mode_to_bitmap t AND current_mode_bitmap (img w) = 0 \<or>
        wmg_wifi_mode_to_bitmap t OR current_mode_bitmap (img w) = wmg_wifi_mode_to_bitmap t)) \<and>
    (\<forall>m. has_mode m w \<longrightarrow> mode_enabled m w' = (wmg_wifi_mode_to_bitmap t AND mode_bit m \<noteq> 0))"
  using switch_effect[OF assms] by (auto simp: has_mode_def)

text \<open>
  Switching from station and access point together to the station alone fails although
  the station stays enabled: the manager then has no mode in force, so that every station
  command is refused until the mode is switched again.
\<close>

theorem switch_to_kept_mode_fails:
  assumes "app_inv w" "init_flag (img w)" "wifimg_get_current_mode w = WIFI_AP_STATION"
  shows "\<exists>w'. run_op (Wifi_On WIFI_STATION) w = Some (WMG_STATUS_FAIL, w') \<and>
    wifimg_get_current_mode w' = WIFI_MODE_UNKNOWN \<and> current_mode_bitmap (img w') = UNK_BITMAP \<and>
    mode_enabled Sta_Object w' \<and> \<not> mode_enabled Ap_Object w' \<and>
    run_op Sta_Disconnect w' = Some (WMG_STATUS_FAIL, w')"
proof -
  have c: "current_mode_bitmap (img w) = AP_STA_BITMAP"
    using app_inv_manager[OF assms(1)] assms(3) by (simp add: manager_inv_def)
  obtain ret w' where s: "wifimg_switch_mode WIFI_STATION w = Some (ret, w')" "app_inv w'" "switch_frame w w'"
      "ret = WMG_STATUS_FAIL" "mode_enabled Sta_Object w'" "\<not> mode_enabled Ap_Object w'"
      "current_mode_bitmap (img w') = UNK_BITMAP"
    using switch_effect[OF assms(1,2), of WIFI_STATION] assms(3) by (auto simp: c all_modes)
  let ?w = "w'\<lparr>cb_status := WMG_STATUS_FAIL\<rparr>"
  have "run_op (Wifi_On WIFI_STATION) w = Some (WMG_STATUS_FAIL, ?w)"
    using assms(2) s(1,4)
    by (simp add: run_op_def wifi_on_action_def wifimg_is_init_def reply_def switch_status_def)
  moreover have "wifimg_get_current_mode ?w = WIFI_MODE_UNKNOWN"
    by (simp add: wifimg_get_current_mode_def s(7) wmg_wifi_bitmap_to_mode_def)
  moreover from this have "run_op Sta_Disconnect ?w = Some (WMG_STATUS_FAIL, ?w)"
    using s(3) assms(2)
    by (simp add: run_op_def wifi_sta_disconnect_action_def wifimg_sta_disconnect_def mode_command_def
        reply_from_def reply_def switch_frame_def)
  ultimately show ?thesis using s(5,6,7) by (intro exI[of _ ?w]) simp
qed

text \<open>
  A station that was left enabled while no mode is in force is taken for connected: the
  next switch to the station mode reports success and does nothing, not one call of the
  platform or the application.
\<close>

theorem stale_station_is_not_connected:
  assumes "app_inv w" "init_flag (img w)" "current_mode_bitmap (img w) = UNK_BITMAP" "mode_enabled Sta_Object w"
  shows "\<exists>w'. run_op (Wifi_On WIFI_STATION) w = Some (WMG_STATUS_SUCCESS, w') \<and> wenv w' = wenv w \<and>
    sta_obj w' = sta_obj w \<and> wifimg_get_current_mode w' = WIFI_STATION"
proof -
  have slot: "mode_slot (img w) STA_MODE_NUM = Some Sta_Object" "sta_init_flag (sta_obj w)"
    using assms(1,2) by (auto simp: app_inv_def manager_inv_def manager_core_def all_modes wmg_register_object_def)
  have "support_mode_bitmap (img w) AND 1 \<noteq> 0"
    using app_supports[OF assms(1,2), of WIFI_STATION] by simp
  then show ?thesis
    using assms(2-4) slot
    by (simp add: run_op_def wifi_on_action_def wifimg_is_init_def wifimg_switch_mode_def
        wmg_wifi_bitmap_to_mode_def when_bit_def enter_mode_def sta_mode_enable_def reply_def
        switch_status_def wifimg_get_current_mode_def Let_def c_true_def)
qed

text \<open>
  C5. Turning the manager off from any state leaves it stopped with no mode in force and every
  mode object torn down. A mode is disabled on the way exactly when its bit was set: one that
  was enabled with no bit stays marked as enabled.
\<close>

theorem wifi_off_stops:
  assumes "app_inv w" "init_flag (img w)"
  shows "\<exists>w'. run_op Wifi_Off w = Some (WMG_STATUS_SUCCESS, w') \<and> cb_status w' = WMG_STATUS_SUCCESS \<and>
    \<not> wifimg_is_init w' \<and> wifimg_get_current_mode w' = WIFI_MODE_UNKNOWN \<and>
    (\<forall>m. \<not> mode_initialised m w') \<and> (\<forall>m. mode_enabled m w' \<longleftrightarrow> mode_enabled m w \<and> \<not> has_mode m w)"
proof -
  obtain w' where d: "wifimg_deinit w = Some w'" "\<not> init_flag (img w')" "current_mode_bitmap (img w') = UNK_BITMAP"
      "\<forall>m. linked w m \<longrightarrow> \<not> mode_initialised m w'" "\<forall>m. mode_enabled m w' \<longleftrightarrow> mode_enabled m w \<and> \<not> has_mode m w"
    using wifimg_deinit_step[OF app_inv_manager[OF assms(1)] assms(2)] by blast
  have "mode_initialised m (w'\<lparr>cb_status := 0\<rparr>) = mode_initialised m w'"
      "mode_enabled m (w'\<lparr>cb_status := 0\<rparr>) = mode_enabled m w'" for m
    by (cases m; simp)+
  then show ?thesis
    using assms d
    by (simp add: run_op_def wifi_off_action_def wifimg_is_init_def reply_def wifimg_get_current_mode_def
        wmg_wifi_bitmap_to_mode_def app_inv_def)
qed

lemma wifi_on_result:
  assumes "app_inv w"
  shows "\<exists>ret w'. run_op (Wifi_On mode) w = Some (ret, w') \<and> app_inv w' \<and>
    (ret = WMG_STATUS_SUCCESS \<longleftrightarrow>
       wifimg_is_init w' \<and> wifimg_get_current_mode w' = mode \<and> mode \<noteq> WIFI_MODE_UNKNOWN)"
proof -
  obtain r0 w0 where i: "(if wifimg_is_init w then (WMG_STATUS_SUCCESS, w) else wifimg_init w) = (r0, w0)" "app_inv w0"
    using init_fine[OF assms] by blast
  have r0: "r0 = WMG_STATUS_SUCCESS \<longleftrightarrow> wifimg_is_init w0"
    using i(1) wifimg_init_step[OF app_inv_manager[OF assms], of r0 w0]
    by (auto simp: wifimg_is_init_def split: if_splits)
  show ?thesis
  proof (cases "wifimg_is_init w0")
    case False
    have "run_op (Wifi_On mode) w = Some (r0, w0)"
      using i(1) r0 False by (cases "wifimg_is_init w") (auto simp: run_op_def wifi_on_action_def)
    then show ?thesis using i(2) r0 False by simp
  next
    case on: True
    obtain r1 w1 where s: "wifimg_switch_mode mode w0 = Some (r1, w1)" "app_inv w1" "init_flag (img w1)"
        "switch_status r1 = WMG_STATUS_SUCCESS \<longleftrightarrow> wifimg_get_current_mode w1 = mode \<and> mode \<noteq> WIFI_MODE_UNKNOWN"
    proof (cases "mode = WIFI_MODE_UNKNOWN \<or> mode = wifimg_get_current_mode w0")
      case True
      then show ?thesis
        using that[of WMG_STATUS_INVALID w0] that[of WMG_STATUS_UNHANDLED w0] switch_refused(1)[of w0] switch_refused(2)[of mode w0] i(2)
          on[unfolded wifimg_is_init_def]
        by (cases "mode = WIFI_MODE_UNKNOWN") (simp_all add: switch_status_def)
    next
      case False
      then show ?thesis
        using that switch_effect[OF i(2) on[unfolded wifimg_is_init_def], of mode] on
        by (auto simp: switch_status_def switch_frame_def wifimg_is_init_def)
    qed
    have "run_op (Wifi_On mode) w = Some (switch_status r1, w1\<lparr>cb_status := switch_status r1\<rparr>)"
      using i(1) r0 on s(1) by (cases "wifimg_is_init w") (auto simp: run_op_def wifi_on_action_def reply_def)
    then show ?thesis
      using s app_inv_cb[OF s(2)] by (simp add: wifimg_is_init_def wifimg_get_current_mode_def)
  qed
qed

text \<open>
  C4. The status of \<open>wifi_on\<close> tells the truth: whatever state the manager is in, it ends with
  success exactly when the manager then runs and the mode asked for is a mode and in force.
\<close>

theorem wifi_on_status:
  assumes "app_inv w"
  shows "\<exists>ret w'. run_op (Wifi_On mode) w = Some (ret, w') \<and> app_inv w' \<and>
    (ret = WMG_STATUS_SUCCESS \<longleftrightarrow>
       wifimg_is_init w' \<and> wifimg_get_current_mode w' = mode \<and> mode \<noteq> WIFI_MODE_UNKNOWN)"
  using assms by (rule wifi_on_result)

section \<open>Commands\<close>

text \<open>The calls that need a running manager in one mode, and that mode.\<close>

fun needs_mode :: "api_op \<Rightarrow> wifi_mode option" where
  "needs_mode (Sta_Connect _) = Some WIFI_STATION"
| "needs_mode (Sta_Auto_Reconnect _) = Some WIFI_STATION"
| "needs_mode (Sta_Get_Info _) = Some WIFI_STATION"
| "needs_mode (Sta_List_Networks _) = Some WIFI_STATION"
| "needs_mode (Sta_Remove_Networks _) = Some WIFI_STATION"
| "needs_mode (Ap_Enable _) = Some WIFI_AP"
| "needs_mode Ap_Disable = Some WIFI_AP"
| "needs_mode (Ap_Get_Config _) = Some WIFI_AP"
| "needs_mode (Monitor_Enable _) = Some WIFI_MONITOR"
| "needs_mode (Monitor_Set_Channel _) = Some WIFI_MONITOR"
| "needs_mode Monitor_Disable = Some WIFI_MONITOR"
| "needs_mode _ = None"

text \<open>
  A command of a mode that is not in force is refused without any effect: the status
  becomes \<open>WMG_STATUS_NOT_READY\<close> and nothing else changes. Two calls differ: \<open>wifi_sta_disconnect\<close>
  in another mode leaves \<open>WMG_STATUS_FAIL\<close>, and \<open>wifi_get_scan_results\<close> without a running manager
  leaves the caller's status as it was.
\<close>

theorem commands_need_their_mode:
  "(needs_mode p = Some mode \<and> \<not> (wifimg_is_init w \<and> wifimg_get_current_mode w = mode) \<longrightarrow>
      run_op p w = Some (WMG_STATUS_NOT_READY, w\<lparr>cb_status := WMG_STATUS_NOT_READY\<rparr>)) \<and>
   (\<not> (wifimg_is_init w \<and> wifimg_get_current_mode w = WIFI_STATION) \<longrightarrow>
      (let ret = (if wifimg_is_init w then WMG_STATUS_FAIL else WMG_STATUS_NOT_READY)
       in run_op Sta_Disconnect w = Some (ret, w\<lparr>cb_status := ret\<rparr>))) \<and>
   (\<not> wifimg_is_init w \<longrightarrow> run_op (Scan_Results r n a) w = Some (WMG_STATUS_NOT_READY, w))"
proof (intro conjI impI)
  assume a: "needs_mode p = Some mode \<and> \<not> (wifimg_is_init w \<and> wifimg_get_current_mode w = mode)"
  then show "run_op p w = Some (WMG_STATUS_NOT_READY, w\<lparr>cb_status := WMG_STATUS_NOT_READY\<rparr>)"
    by (cases p) (auto simp: run_op_def simple_action_defs in_mode_def reply_def)
next
  assume a: "\<not> (wifimg_is_init w \<and> wifimg_get_current_mode w = WIFI_STATION)"
  then show "let ret = (if wifimg_is_init w then WMG_STATUS_FAIL else WMG_STATUS_NOT_READY)
       in run_op Sta_Disconnect w = Some (ret, w\<lparr>cb_status := ret\<rparr>)"
    by (auto simp: run_op_def wifi_sta_disconnect_action_def wifimg_sta_disconnect_def mode_command_def
        wifimg_is_init_def reply_from_def reply_def)
next
  assume "\<not> wifimg_is_init w"
  then show "run_op (Scan_Results r n a) w = Some (WMG_STATUS_NOT_READY, w)"
    by (simp add: run_op_def wifi_get_scan_results_action_def)
qed

text \<open>The station's slot in a running manager whose mode is the station's.\<close>

lemma station_running:
  assumes "app_inv w" "wifimg_get_current_mode w = WIFI_STATION"
  shows "mode_slot (img w) STA_MODE_NUM = Some Sta_Object" "init_flag (img w)" "sta_init_flag (sta_obj w)"
    "sta_enable (sta_obj w)" "sta_platform_inf (sta_obj w) \<noteq> None"
  using single_mode_linked[OF app_inv_manager[OF assms(1)], of Sta_Object] assms
  by (auto simp: app_inv_def manager_inv_def manager_core_def all_modes wmg_register_object_def sta_good_def)

text \<open>
  C32. \<open>wifi_sta_connect\<close> in the station mode: without parameters it is refused with
  \<open>WMG_STATUS_INVALID\<close>; while a connection is being made, and without an SSID, it is refused
  with \<open>WMG_STATUS_FAIL\<close>; a refusal changes nothing but the caller's status. Otherwise the platform is asked
  with the caller's parameters, after the state was set to connecting, and the caller sees
  success exactly when the platform reports none of its errors, and \<open>WMG_STATUS_FAIL\<close> for each
  of them: the causes the station reports do not get through.
\<close>

theorem sta_connect_in_station_mode:
  assumes "app_inv w" "wifimg_get_current_mode w = WIFI_STATION" "sta_platform_inf (sta_obj w) = Some wpa"
  shows "\<exists>ret w'. run_op (Sta_Connect c) w = Some (ret, w') \<and> cb_status w' = ret \<and>
    (case c of
       None \<Rightarrow> ret = WMG_STATUS_INVALID \<and> w' = w\<lparr>cb_status := WMG_STATUS_INVALID\<rparr>
     | Some cn \<Rightarrow>
         if sta_state (sta_obj w) = WIFI_STA_CONNECTING \<or> sta_state (sta_obj w) = WIFI_STA_OBTAINING_IP \<or>
            cn_ssid cn = None \<or> cn_ssid cn = Some []
         then ret = WMG_STATUS_FAIL \<and> w' = w\<lparr>cb_status := WMG_STATUS_FAIL\<rparr>
         else (let (r, evs, p) = sta_wpa_connect_to_ap wpa cn (plat (wenv w))
               in ret = (if r = 0 then WMG_STATUS_SUCCESS else WMG_STATUS_FAIL) \<and>
                  (sta_obj w', wenv w') =
                    sta_events evs ((sta_obj w)\<lparr>sta_state := WIFI_STA_CONNECTING\<rparr>, (wenv w)\<lparr>plat := p\<rparr>)))"
proof -
  note st = station_running[OF assms(1,2)]
  show ?thesis
    using st assms(2,3)
    by (cases c) (auto simp: run_op_def wifi_sta_connect_action_def opt_arg_def in_mode_def wifimg_is_init_def
        wifimg_sta_connect_def mode_command_def slot_ctl_def sta_mode_ctl_on sta_connect_def both_def ctl_case_def
        ctl_tail_def c_true_def reply_from_def reply_def sta_plat_def Let_def split: prod.split)
qed

text \<open>
  Setting or asking for the MAC address while the manager runs in a combined mode or in none
  reports success and does nothing: nothing is changed and nothing is written for the caller.
\<close>

theorem mac_calls_do_nothing:
  assumes "wifimg_is_init w" "wifimg_get_current_mode w \<notin> {WIFI_STATION, WIFI_AP, WIFI_MONITOR}"
  shows "run_op (Wifi_Set_Mac None mac) w = Some (WMG_STATUS_SUCCESS, w\<lparr>cb_status := WMG_STATUS_SUCCESS\<rparr>) \<and>
    run_op (Wifi_Get_Mac None mac) w = Some (WMG_STATUS_SUCCESS, w\<lparr>cb_status := WMG_STATUS_SUCCESS\<rparr>)"
  using assms
  by (simp add: run_op_def wifi_set_mac_action_def wifi_get_mac_action_def mac_action_def wifimg_set_mac_def
      wifimg_get_mac_def mac_command_def wifimg_is_init_def reply_from_def reply_def)

text \<open>
  The interface name given to \<open>wifi_set_mac\<close> and \<open>wifi_get_mac\<close> is copied without its NUL:
  on a running manager the call reads outside its array exactly when the name has at most 32
  characters and the bytes that happen to lie behind its copy hold no NUL; a name of 32
  characters always does.
\<close>

theorem mac_name_overread:
  assumes "app_inv w" "wifimg_is_init w" "CHR 0x00 \<notin> set s" "length (stack_bytes w) = 32"
  shows "(run_op (Wifi_Set_Mac (Some s) mac) w = None \<longleftrightarrow>
      length s \<le> 32 \<and> CHR 0x00 \<notin> set (drop (length s) (stack_bytes w))) \<and>
    (run_op (Wifi_Get_Mac (Some s) mac) w = None \<longleftrightarrow>
      length s \<le> 32 \<and> CHR 0x00 \<notin> set (drop (length s) (stack_bytes w))) \<and>
    (length s = 32 \<longrightarrow> run_op (Wifi_Set_Mac (Some s) mac) w = None)"
proof -
  have safe: "safe_op p w \<longleftrightarrow> \<not> (length s \<le> 32 \<and> CHR 0x00 \<notin> set (drop (length s) (stack_bytes w)))"
    if "p = Wifi_Set_Mac (Some s) mac \<or> p = Wifi_Get_Mac (Some s) mac" for p
    using that assms(2,3) by auto
  have iff: "run_op p w = None \<longleftrightarrow> length s \<le> 32 \<and> CHR 0x00 \<notin> set (drop (length s) (stack_bytes w))"
    if "p = Wifi_Set_Mac (Some s) mac \<or> p = Wifi_Get_Mac (Some s) mac" for p
    using mac_op[OF assms(1) that] safe[OF that] by (auto simp: fine_def)
  have "CHR 0x00 \<notin> set (drop (length s) (stack_bytes w))" if "length s = 32" using that assms(4) by simp
  then show ?thesis using iff by auto
qed

text \<open>
  Registering a message callback while the manager runs reports success whatever happens,
  but only the modes that are enabled take it over: one that is enabled later has none.
\<close>

theorem register_reaches_enabled_modes:
  assumes "app_inv w" "wifimg_is_init w"
  shows "\<exists>w'. run_op (Wifi_Register (Some f)) w = Some (WMG_STATUS_SUCCESS, w') \<and>
    sta_msg_cb (sta_obj w') = (if sta_enable (sta_obj w) then Some f else sta_msg_cb (sta_obj w)) \<and>
    ap_msg_cb (ap_obj w') = (if ap_enabled (ap_obj w) then Some f else ap_msg_cb (ap_obj w)) \<and>
    monitor_msg_cb (mon_obj w') = (if monitor_enabled (mon_obj w) then Some f else monitor_msg_cb (mon_obj w))"
proof -
  have st: "init_flag (img w)" "sta_init_flag (sta_obj w)" "ap_init_flag (ap_obj w)" "monitor_init_flag (mon_obj w)"
      "mode_slot (img w) STA_MODE_NUM = Some Sta_Object" "mode_slot (img w) AP_MODE_NUM = Some Ap_Object"
      "mode_slot (img w) MONITOR_MODE_NUM = Some Monitor_Object"
    using assms by (auto simp: app_inv_def manager_inv_def manager_core_def all_modes wmg_register_object_def
        wifimg_is_init_def)
  show ?thesis
    using st
    by (auto simp: run_op_def wifi_register_msg_cb_action_def wifimg_is_init_def wifimg_register_msg_cb_def
        register_in_def slot_ctl_def sta_mode_ctl_def ap_mode_ctl_def monitor_mode_ctl_def
        sta_register_msg_cb_def ap_register_msg_cb_def monitor_register_msg_cb_def ctl_case_def both_def
        ctl_tail_def c_true_def reply_from_def reply_def)
qed

section \<open>Applications\<close>

definition demo_boot :: "nat world" where
  "demo_boot = \<lparr>img = wifimg_object_static, sta_obj = sta_object_static, ap_obj = ap_object_static,
     mon_obj = monitor_object_static, wenv = demo_env, cb_status = 0, stack_bytes = replicate 32 CHR ''x'',
     linked = (\<lambda>_. True), sta_inf_object = demo_wpa, ap_inf_object = demo_hapd, mon_inf_object = demo_nl,
     wmg_linkd_protocol = (\<lambda>_ _ _ _ n. Some (0, Suc n))\<rparr>"

text \<open>A running manager with the given bits, every other mode initialised only.\<close>

definition demo_on :: "8 word \<Rightarrow> nat world" where
  "demo_on bits = demo_boot\<lparr>
     img := wifimg_object_static\<lparr>init_flag := True, current_mode_bitmap := bits, support_mode_bitmap := 7,
       mode_slot := (\<lambda>_. None)(0 := Some Sta_Object, 1 := Some Ap_Object, 2 := Some Monitor_Object)\<rparr>,
     sta_obj := demo_sta\<lparr>sta_enable := (bits AND STA_BITMAP \<noteq> 0)\<rparr>,
     ap_obj := demo_ap\<lparr>ap_enabled := (bits AND AP_BITMAP \<noteq> 0)\<rparr>,
     mon_obj := demo_monitor\<lparr>monitor_enabled := (bits AND MONITOR_BITMAP \<noteq> 0)\<rparr>\<rparr>"

lemma demo_at_boot: "at_boot demo_boot"
  by (simp add: at_boot_def demo_boot_def)

lemma demo_on_fields [simp]:
  "init_flag (img (demo_on b))" "current_mode_bitmap (img (demo_on b)) = b"
  "stack_bytes (demo_on b) = replicate 32 CHR ''x''" "sta_platform_inf (sta_obj (demo_on b)) = Some demo_wpa"
  "sta_enable (sta_obj (demo_on b)) = (b AND STA_BITMAP \<noteq> 0)" "wifimg_is_init (demo_on b)"
  "wifimg_get_current_mode (demo_on b) = wmg_wifi_bitmap_to_mode b"
  by (simp_all add: demo_on_def demo_boot_def demo_sta_def wifimg_is_init_def wifimg_get_current_mode_def)

lemma demo_on_ap: "ap_enabled (ap_obj (demo_on b)) = (b AND AP_BITMAP \<noteq> 0)" "ap_msg_cb (ap_obj (demo_on b)) = None"
  by (simp_all add: demo_on_def demo_boot_def demo_ap_defs)

lemma demo_on_inv:
  assumes "b \<in> {0, 1, 2, 3, 4, 6}"
  shows "app_inv (demo_on b)"
  using assms
  by (auto simp: app_inv_def manager_inv_def manager_core_def all_modes demo_on_def demo_boot_def has_mode_def
      supports_def wmg_register_object_def wifimg_get_current_mode_def wmg_wifi_bitmap_to_mode_def sta_good_def
      ap_good_def monitor_good_def demo_sta_def demo_ap_def demo_monitor_def wifimg_object_static_def)

definition demo_granted :: act_init_results where
  "demo_granted = \<lparr>rmutex_ok = True, sem_ok = True, queue_results = all_ok, thread_ok = True, thread_pid = 7\<rparr>"

definition demo_sys :: "nat wifi_sys" where
  "demo_sys = \<lparr>act_funcs = replicate 20 None, queue = demo_ring, act_pid = 0, sem = 0, mutex_depth = 0,
     is_sync = False, act_enable = False, heap = (\<lambda>_. None), world = demo_boot\<rparr>"

definition demo_session :: "(caller \<times> api_op) list" where
  "demo_session = [((1, Some 100, [Thread_Pass]), Wifi_On WIFI_STATION), ((2, Some 200, [Thread_Pass]), Sta_Get_Info None),
     ((1, Some 100, [Thread_Pass]), Wifi_Off)]"

theorem session_refines_actions_witness:
  "\<exists>s1 sts s2. wifimanager_init demo_granted demo_sys = Returns (WMG_STATUS_SUCCESS, s1) \<and>
     run_calls demo_session s1 = Returns (sts, s2) \<and> run_ops (map snd demo_session) demo_boot = Some (sts, world s2)"
proof -
  have g: "all_granted demo_granted" "length (act_funcs demo_sys) = ACT_FUNC_NUM" "world demo_sys = demo_boot"
    by (simp_all add: all_granted_def demo_granted_def demo_sys_def)
  have c: "\<forall>(c, p) \<in> set demo_session. \<exists>pid q evs. c = (pid, Some q, Thread_Pass # evs) \<and>
      pid \<noteq> thread_pid demo_granted \<and> heap demo_sys q = None"
    by (auto simp: demo_session_def demo_granted_def demo_sys_def)
  have "made_safely (map snd demo_session) demo_boot"
    by (auto simp: demo_session_def option.pred_set)
  then show ?thesis
    using session_refines_actions[OF g(1,2) _ c] demo_at_boot unfolding g(3) by (auto split: option.splits)
qed


theorem switch_mode_effect_witness:
  "\<exists>ret w'. wifimg_switch_mode WIFI_AP (demo_on STA_BITMAP) = Some (ret, w') \<and> app_inv w' \<and>
     (ret = WMG_STATUS_SUCCESS \<longleftrightarrow> mode_enabled Ap_Object w') \<and> \<not> mode_enabled Sta_Object w'"
  using switch_mode_effect[of "demo_on STA_BITMAP" WIFI_AP] demo_on_inv[of STA_BITMAP]
  by (auto simp: wmg_wifi_bitmap_to_mode_def has_mode_def all_modes)

theorem switch_to_kept_mode_fails_witness:
  "\<exists>w'. run_op (Wifi_On WIFI_STATION) (demo_on AP_STA_BITMAP) = Some (WMG_STATUS_FAIL, w') \<and>
     mode_enabled Sta_Object w'"
  using switch_to_kept_mode_fails[of "demo_on AP_STA_BITMAP"] demo_on_inv[of AP_STA_BITMAP]
  by (auto simp: wmg_wifi_bitmap_to_mode_def)

theorem stale_station_is_not_connected_witness:
  "\<exists>w w'. w = (demo_on UNK_BITMAP)\<lparr>sta_obj := demo_sta\<lparr>sta_enable := True\<rparr>\<rparr> \<and>
     run_op (Wifi_On WIFI_STATION) w = Some (WMG_STATUS_SUCCESS, w') \<and> plat (wenv w') = plat (wenv w)"
proof -
  let ?w = "(demo_on UNK_BITMAP)\<lparr>sta_obj := demo_sta\<lparr>sta_enable := True\<rparr>\<rparr>"
  have "app_inv ?w"
    by (simp add: app_inv_def manager_inv_def manager_core_def all_modes demo_on_def demo_boot_def has_mode_def
      supports_def wmg_register_object_def wifimg_get_current_mode_def wmg_wifi_bitmap_to_mode_def sta_good_def
      ap_good_def monitor_good_def demo_sta_def demo_ap_def demo_monitor_def wifimg_object_static_def)
  from stale_station_is_not_connected[OF this] show ?thesis by auto
qed

theorem wifi_off_stops_witness:
  "\<exists>w'. run_op Wifi_Off (demo_on AP_MONITOR_BITMAP) = Some (WMG_STATUS_SUCCESS, w') \<and> \<not> wifimg_is_init w'"
  using wifi_off_stops[of "demo_on AP_MONITOR_BITMAP"] demo_on_inv[of AP_MONITOR_BITMAP] by auto

theorem wifi_on_status_witness:
  "\<exists>ret w'. run_op (Wifi_On WIFI_MONITOR) (demo_on STA_BITMAP) = Some (ret, w') \<and>
     (ret = WMG_STATUS_SUCCESS \<longleftrightarrow> wifimg_is_init w' \<and> wifimg_get_current_mode w' = WIFI_MONITOR)"
  using wifi_on_status[of "demo_on STA_BITMAP" WIFI_MONITOR] demo_on_inv[of STA_BITMAP] by auto

theorem commands_need_their_mode_witness:
  "run_op Ap_Disable (demo_on STA_BITMAP) =
     Some (WMG_STATUS_NOT_READY, (demo_on STA_BITMAP)\<lparr>cb_status := WMG_STATUS_NOT_READY\<rparr>) \<and>
   run_op Sta_Disconnect (demo_on AP_BITMAP) =
     Some (WMG_STATUS_FAIL, (demo_on AP_BITMAP)\<lparr>cb_status := WMG_STATUS_FAIL\<rparr>) \<and>
   run_op (Scan_Results None None 0) demo_boot = Some (WMG_STATUS_NOT_READY, demo_boot)"
  using commands_need_their_mode[of Ap_Disable WIFI_AP "demo_on STA_BITMAP"]
    commands_need_their_mode[of Wifi_Off WIFI_AP "demo_on AP_BITMAP"]
    commands_need_their_mode[of Wifi_Off WIFI_AP demo_boot None None 0]
  by (simp add: wmg_wifi_bitmap_to_mode_def Let_def demo_boot_def wifimg_is_init_def wifimg_object_static_def)

theorem sta_connect_in_station_mode_witness:
  "(\<exists>w'. run_op (Sta_Connect (Some demo_cn)) (demo_on STA_BITMAP) = Some (WMG_STATUS_FAIL, w')) \<and>
   (\<exists>w'. run_op (Sta_Connect None) (demo_on STA_BITMAP) = Some (WMG_STATUS_INVALID, w'))"
proof -
  have inv: "app_inv (demo_on STA_BITMAP)" by (rule demo_on_inv) simp
  have mode: "wifimg_get_current_mode (demo_on STA_BITMAP) = WIFI_STATION" by (simp add: wmg_wifi_bitmap_to_mode_def)
  have wpa: "sta_platform_inf (sta_obj (demo_on STA_BITMAP)) = Some demo_wpa" by simp
  show ?thesis
    using sta_connect_in_station_mode[OF inv mode wpa, of "Some demo_cn"] sta_connect_in_station_mode[OF inv mode wpa, of None]
    by (auto simp: demo_wpa_def Let_def split: if_splits)
qed

theorem mac_calls_do_nothing_witness:
  "run_op (Wifi_Get_Mac None (Some 5)) (demo_on AP_STA_BITMAP) =
     Some (WMG_STATUS_SUCCESS, (demo_on AP_STA_BITMAP)\<lparr>cb_status := WMG_STATUS_SUCCESS\<rparr>)"
  using mac_calls_do_nothing[of "demo_on AP_STA_BITMAP"] by (simp add: wmg_wifi_bitmap_to_mode_def)

theorem mac_name_overread_witness:
  "run_op (Wifi_Get_Mac (Some ''wlan1'') (Some 5)) (demo_on STA_BITMAP) = None"
  using mac_name_overread[of "demo_on STA_BITMAP" "''wlan1''" "Some 5"] demo_on_inv[of STA_BITMAP] by simp

theorem register_reaches_enabled_modes_witness:
  "\<exists>w'. run_op (Wifi_Register (Some 9)) (demo_on STA_BITMAP) = Some (WMG_STATUS_SUCCESS, w') \<and>
     sta_msg_cb (sta_obj w') = Some 9 \<and> ap_msg_cb (ap_obj w') = None"
  using register_reaches_enabled_modes[of "demo_on STA_BITMAP" 9] demo_on_inv[of STA_BITMAP]
  by (auto simp: demo_on_ap)

end
