(* ===== verification/Os_Net.thy ===== *)
theory Os_Net
  imports Act_Api
begin

text \<open>
  The wrappers of the operating system: \<open>sem.c\<close>, \<open>mutex.c\<close>, \<open>thread.c\<close>, the notification of \<open>sync_notify.c\<close>, and
  the bit arrays of \<open>os_net_atomic.h\<close>. Whether a call of the system works is an argument. \<open>None\<close> stands for
  an object that is not initialised; using it is undefined.
\<close>

section \<open>Semaphores\<close>

abbreviation "SEM_VALUE_MAX \<equiv> 2147483647 :: nat"

definition os_net_sem_create :: "bool \<Rightarrow> nat \<Rightarrow> int \<times> nat option" where
  "os_net_sem_create ok init = (if ok then (OS_NET_STATUS_OK, Some init) else (OS_NET_STATUS_NOMEM, None))"

definition os_net_sem_delete :: "bool \<Rightarrow> nat option \<Rightarrow> int \<times> nat option" where
  "os_net_sem_delete ok s = (if ok then (OS_NET_STATUS_OK, None) else (OS_NET_STATUS_FAILED, s))"

text \<open>At 0 the caller waits, unless a signal ends that.\<close>

definition os_net_sem_wait :: "bool \<Rightarrow> nat option \<Rightarrow> (int \<times> nat option) outcome" where
  "os_net_sem_wait intr s =
     (case s of
        None \<Rightarrow> Crash
      | Some n \<Rightarrow>
          if 0 < n then Returns (OS_NET_STATUS_OK, Some (n - 1))
          else if intr then Returns (OS_NET_STATUS_FAILED, Some 0)
          else Blocks)"

definition os_net_sem_release :: "nat option \<Rightarrow> (int \<times> nat option) outcome" where
  "os_net_sem_release s =
     (case s of
        None \<Rightarrow> Crash
      | Some n \<Rightarrow> Returns (if n = SEM_VALUE_MAX then (OS_NET_STATUS_FAILED, Some n) else (OS_NET_STATUS_OK, Some (Suc n))))"

section \<open>Mutexes\<close>

text \<open>Who holds it, if anybody; a recursive one also how often.\<close>

definition os_net_mutex_create :: "bool \<Rightarrow> int \<times> nat option option" where
  "os_net_mutex_create ok = (if ok then (OS_NET_STATUS_OK, Some None) else (OS_NET_STATUS_NOMEM, None))"

definition os_net_mutex_delete :: "bool \<Rightarrow> nat option option \<Rightarrow> int \<times> nat option option" where
  "os_net_mutex_delete ok m = (if ok then (OS_NET_STATUS_OK, None) else (OS_NET_STATUS_FAILED, m))"

definition os_net_mutex_lock :: "nat \<Rightarrow> nat option option \<Rightarrow> (int \<times> nat option option) outcome" where
  "os_net_mutex_lock t m =
     (case m of None \<Rightarrow> Crash | Some None \<Rightarrow> Returns (OS_NET_STATUS_OK, Some (Some t)) | Some (Some _) \<Rightarrow> Blocks)"

definition os_net_mutex_unlock :: "nat option option \<Rightarrow> (int \<times> nat option option) outcome" where
  "os_net_mutex_unlock m = (case m of None \<Rightarrow> Crash | Some _ \<Rightarrow> Returns (OS_NET_STATUS_OK, Some None))"

text \<open>The three steps of the creation may fail one after the other.\<close>

definition os_net_mutex_recursive_create :: "bool \<Rightarrow> bool \<Rightarrow> bool \<Rightarrow> int \<times> (nat \<times> nat) option option" where
  "os_net_mutex_recursive_create attr_ok type_ok init_ok =
     (if attr_ok \<and> type_ok \<and> init_ok then (OS_NET_STATUS_OK, Some None) else (OS_NET_STATUS_NOMEM, None))"

definition os_net_mutex_recursive_delete :: "bool \<Rightarrow> (nat \<times> nat) option option \<Rightarrow> int \<times> (nat \<times> nat) option option" where
  "os_net_mutex_recursive_delete ok m = (if ok then (OS_NET_STATUS_OK, None) else (OS_NET_STATUS_FAILED, m))"

definition os_net_mutex_recursive_lock :: "nat \<Rightarrow> (nat \<times> nat) option option \<Rightarrow> (int \<times> (nat \<times> nat) option option) outcome" where
  "os_net_mutex_recursive_lock t m =
     (case m of
        None \<Rightarrow> Crash
      | Some None \<Rightarrow> Returns (OS_NET_STATUS_OK, Some (Some (t, 1)))
      | Some (Some (u, n)) \<Rightarrow> if u = t then Returns (OS_NET_STATUS_OK, Some (Some (t, Suc n))) else Blocks)"

text \<open>The unlock of one who does not hold it fails, which is not looked at.\<close>

definition os_net_mutex_recursive_unlock :: "nat \<Rightarrow> (nat \<times> nat) option option \<Rightarrow> (int \<times> (nat \<times> nat) option option) outcome" where
  "os_net_mutex_recursive_unlock t m =
     (case m of
        None \<Rightarrow> Crash
      | Some None \<Rightarrow> Returns (OS_NET_STATUS_OK, Some None)
      | Some (Some (u, n)) \<Rightarrow>
          Returns (OS_NET_STATUS_OK, Some (if u \<noteq> t then Some (u, n) else if n \<le> 1 then None else Some (u, n - 1))))"

section \<open>Threads\<close>

text \<open>The number of running threads; giving the thread its name is not part of the build here.\<close>

definition os_net_thread_create :: "bool \<Rightarrow> nat \<Rightarrow> int \<times> nat" where
  "os_net_thread_create ok n = (if ok then (OS_NET_STATUS_OK, Suc n) else (OS_NET_STATUS_NOMEM, n))"

text \<open>A thread that cannot be detached is not cancelled.\<close>

definition os_net_thread_delete :: "bool \<Rightarrow> bool \<Rightarrow> nat \<Rightarrow> int \<times> nat" where
  "os_net_thread_delete detached cancelled n =
     (if \<not> detached then (OS_NET_STATUS_FAILED, n)
      else if \<not> cancelled then (OS_NET_STATUS_FAILED, n)
      else (OS_NET_STATUS_OK, n - 1))"

definition os_net_thread_get_pid :: "nat \<Rightarrow> int \<times> nat" where
  "os_net_thread_get_pid self = (OS_NET_STATUS_OK, self)"

section \<open>Notification\<close>

record 'v snfy_handle =
  ready :: bool
  snfy_sem :: "nat option"
  snfy_result :: "'v option"

text \<open>Without memory, or without a semaphore, NULL.\<close>

definition snfy_free :: "'v snfy_handle option \<Rightarrow> int" where
  "snfy_free h = (case h of None \<Rightarrow> OS_NET_STATUS_PARAM_INVALID | Some _ \<Rightarrow> OS_NET_STATUS_OK)"

definition snfy_new :: "bool \<Rightarrow> bool \<Rightarrow> 'v snfy_handle option" where
  "snfy_new mem_ok create_ok =
     (let (st, s) = os_net_sem_create create_ok 0
      in if \<not> mem_ok \<or> st \<noteq> OS_NET_STATUS_OK then None else Some \<lparr>ready = True, snfy_sem = s, snfy_result = None\<rparr>)"

text \<open>The status is \<open>None\<close> where the function ends without a return statement.\<close>

definition snfy_ready :: "'v \<Rightarrow> 'v snfy_handle option \<Rightarrow> (int option \<times> 'v snfy_handle option) outcome" where
  "snfy_ready value h =
     (case h of
        None \<Rightarrow> Returns (Some OS_NET_STATUS_PARAM_INVALID, None)
      | Some h \<Rightarrow>
          if \<not> ready h then Returns (Some OS_NET_STATUS_FAILED, Some h)
          else map_outcome_of (\<lambda>(_, s). (None, Some (h\<lparr>ready := True, snfy_result := Some value, snfy_sem := s\<rparr>))) (os_net_sem_release (snfy_sem h)))"

text \<open>The pointer that is returned, \<open>None\<close> for NULL; the handle is freed.\<close>

definition snfy_await :: "bool \<Rightarrow> 'v snfy_handle option \<Rightarrow> 'v option outcome" where
  "snfy_await intr h =
     (case h of
        None \<Rightarrow> Returns None
      | Some h \<Rightarrow> map_outcome_of (\<lambda>_. None) (os_net_sem_wait intr (snfy_sem h)))"

section \<open>Atomic operations\<close>

text \<open>Each gives the old value and the new one.\<close>

type_synonym atomic_op = "32 word \<Rightarrow> 32 word \<Rightarrow> 32 word \<times> 32 word"

definition atomic_cas :: "32 word \<Rightarrow> 32 word \<Rightarrow> 32 word \<Rightarrow> bool \<times> 32 word" where
  "atomic_cas old_value new_value x = (if x = old_value then (True, new_value) else (False, x))"

definition atomic_add :: atomic_op where "atomic_add v x = (x, x + v)"

definition atomic_sub :: atomic_op where "atomic_sub v x = (x, x - v)"

definition atomic_inc :: "32 word \<Rightarrow> 32 word \<times> 32 word" where "atomic_inc x = atomic_add 1 x"

definition atomic_dec :: "32 word \<Rightarrow> 32 word \<times> 32 word" where "atomic_dec x = atomic_sub 1 x"

definition atomic_get :: "32 word \<Rightarrow> 32 word \<times> 32 word" where "atomic_get x = (x, x)"

definition atomic_set :: atomic_op where "atomic_set v x = (x, v)"

definition atomic_clear :: "32 word \<Rightarrow> 32 word \<times> 32 word" where "atomic_clear x = atomic_set 0 x"

definition atomic_or :: atomic_op where "atomic_or v x = (x, x OR v)"

definition atomic_xor :: atomic_op where "atomic_xor v x = (x, x XOR v)"

definition atomic_and :: atomic_op where "atomic_and v x = (x, x AND v)"

definition atomic_nand :: atomic_op where "atomic_nand v x = (x, NOT (x AND v))"

text \<open>An operation on the element of an array that holds a bit; behind the array it is undefined.\<close>

abbreviation "ATOMIC_BITS \<equiv> 32 :: nat"

definition ATOMIC_MASK :: "nat \<Rightarrow> 32 word" where
  "ATOMIC_MASK b = push_bit (b AND (ATOMIC_BITS - 1)) 1"

definition atomic_elem :: "(32 word \<Rightarrow> 'a \<times> 32 word) \<Rightarrow> nat \<Rightarrow> 32 word list \<Rightarrow> ('a \<times> 32 word list) option" where
  "atomic_elem f b ws =
     (if b div ATOMIC_BITS < length ws
      then let (x, w) = f (ws ! (b div ATOMIC_BITS)) in Some (x, ws[b div ATOMIC_BITS := w])
      else None)"

definition atomic_test_bit :: "32 word list \<Rightarrow> nat \<Rightarrow> bool option" where
  "atomic_test_bit ws b = map_option (\<lambda>(v, _). 1 AND drop_bit (b AND (ATOMIC_BITS - 1)) v \<noteq> 0) (atomic_elem atomic_get b ws)"

definition atomic_test_and_clear_bit :: "32 word list \<Rightarrow> nat \<Rightarrow> (bool \<times> 32 word list) option" where
  "atomic_test_and_clear_bit ws b =
     map_option (\<lambda>(old, ws). (old AND ATOMIC_MASK b \<noteq> 0, ws)) (atomic_elem (atomic_and (NOT (ATOMIC_MASK b))) b ws)"

definition atomic_test_and_set_bit :: "32 word list \<Rightarrow> nat \<Rightarrow> (bool \<times> 32 word list) option" where
  "atomic_test_and_set_bit ws b =
     map_option (\<lambda>(old, ws). (old AND ATOMIC_MASK b \<noteq> 0, ws)) (atomic_elem (atomic_or (ATOMIC_MASK b)) b ws)"

definition atomic_clear_bit :: "32 word list \<Rightarrow> nat \<Rightarrow> 32 word list option" where
  "atomic_clear_bit ws b = map_option snd (atomic_elem (atomic_and (NOT (ATOMIC_MASK b))) b ws)"

definition atomic_set_bit :: "32 word list \<Rightarrow> nat \<Rightarrow> 32 word list option" where
  "atomic_set_bit ws b = map_option snd (atomic_elem (atomic_or (ATOMIC_MASK b)) b ws)"

definition atomic_set_bit_to :: "32 word list \<Rightarrow> nat \<Rightarrow> bool \<Rightarrow> 32 word list option" where
  "atomic_set_bit_to ws b val =
     map_option snd (if val then atomic_elem (atomic_or (ATOMIC_MASK b)) b ws else atomic_elem (atomic_and (NOT (ATOMIC_MASK b))) b ws)"
section \<open>A bit array is a set\<close>

text \<open>The set of the bits that are 1.\<close>

definition bits_of :: "32 word list \<Rightarrow> nat set" where
  "bits_of ws = {b. b div ATOMIC_BITS < length ws \<and> bit (ws ! (b div ATOMIC_BITS)) (b mod ATOMIC_BITS)}"

lemma bit_number: "b AND (ATOMIC_BITS - 1) = b mod ATOMIC_BITS"
proof -
  have "b AND (ATOMIC_BITS - 1) = take_bit 5 b" by (simp add: take_bit_eq_mask mask_eq_exp_minus_1)
  then show ?thesis by (simp add: take_bit_eq_mod)
qed

lemma bit_mask: "bit (ATOMIC_MASK b) n \<longleftrightarrow> n = b mod ATOMIC_BITS"
proof -
  have "b mod ATOMIC_BITS < 32" by simp
  then show ?thesis unfolding ATOMIC_MASK_def bit_number by (auto simp: bit_simps)
qed

lemma word_one_bit: "1 AND drop_bit n w \<noteq> 0 \<longleftrightarrow> bit w n" for w :: "32 word"
  by (simp add: bit_iff_odd_drop_bit and.commute[of 1] and_one_eq odd_iff_mod_2_eq_one)

lemma masked: "w AND ATOMIC_MASK b \<noteq> 0 \<longleftrightarrow> bit w (b mod ATOMIC_BITS)" for w :: "32 word"
proof -
  have "bit (w AND ATOMIC_MASK b) n \<longleftrightarrow> n = b mod ATOMIC_BITS \<and> bit w (b mod ATOMIC_BITS)" for n
    by (auto simp: bit_and_iff bit_mask)
  then show ?thesis by (metis bit_eqI bit_0_eq bot_apply bot_bool_def)
qed

lemma same_bit: "b div ATOMIC_BITS = c div ATOMIC_BITS \<Longrightarrow> b mod ATOMIC_BITS = c mod ATOMIC_BITS \<Longrightarrow> b = c"
  by (metis div_mult_mod_eq)

lemma bits_of_set:
  assumes "b div ATOMIC_BITS < length ws"
  shows "bits_of (ws[b div ATOMIC_BITS := ws ! (b div ATOMIC_BITS) OR ATOMIC_MASK b]) = insert b (bits_of ws)"
    "bits_of (ws[b div ATOMIC_BITS := ws ! (b div ATOMIC_BITS) AND NOT (ATOMIC_MASK b)]) = bits_of ws - {b}"
proof -
  have n: "c mod ATOMIC_BITS < LENGTH(32)" for c by simp
  have ne: "c = b" if "b div ATOMIC_BITS = c div ATOMIC_BITS" "c mod ATOMIC_BITS = b mod ATOMIC_BITS" for c
    using same_bit[of c b] that by simp
  show "bits_of (ws[b div ATOMIC_BITS := ws ! (b div ATOMIC_BITS) OR ATOMIC_MASK b]) = insert b (bits_of ws)"
    using assms ne by (auto simp: bits_of_def nth_list_update bit_or_iff bit_mask split: if_splits)
  show "bits_of (ws[b div ATOMIC_BITS := ws ! (b div ATOMIC_BITS) AND NOT (ATOMIC_MASK b)]) = bits_of ws - {b}"
    using assms ne n by (auto simp: bits_of_def nth_list_update bit_and_iff bit_not_iff bit_mask split: if_splits)
qed

text \<open>
  The operations on a bit array are those on the set of its bits: testing is membership, setting inserts, clearing
  removes, and the combined ones tell what was there before.
\<close>
theorem bit_array_refines_set:
  assumes "b div ATOMIC_BITS < length ws"
  shows "atomic_test_bit ws b = Some (b \<in> bits_of ws)"
    and "map_option bits_of (atomic_set_bit ws b) = Some (insert b (bits_of ws))"
    and "map_option bits_of (atomic_clear_bit ws b) = Some (bits_of ws - {b})"
    and "map_option bits_of (atomic_set_bit_to ws b v) = Some (if v then insert b (bits_of ws) else bits_of ws - {b})"
    and "map_option (\<lambda>(old, ws). (old, bits_of ws)) (atomic_test_and_set_bit ws b) = Some (b \<in> bits_of ws, insert b (bits_of ws))"
    and "map_option (\<lambda>(old, ws). (old, bits_of ws)) (atomic_test_and_clear_bit ws b) = Some (b \<in> bits_of ws, bits_of ws - {b})"
proof -
  have m: "b \<in> bits_of ws \<longleftrightarrow> bit (ws ! (b div ATOMIC_BITS)) (b mod ATOMIC_BITS)" using assms by (simp add: bits_of_def)
  show "atomic_test_bit ws b = Some (b \<in> bits_of ws)"
    using assms unfolding atomic_test_bit_def bit_number word_one_bit m by (simp add: atomic_elem_def atomic_get_def)
  note defs = atomic_elem_def atomic_or_def atomic_and_def bits_of_set[OF assms] masked m[symmetric] assms
  show "map_option bits_of (atomic_set_bit ws b) = Some (insert b (bits_of ws))" by (simp add: atomic_set_bit_def defs)
  show "map_option bits_of (atomic_clear_bit ws b) = Some (bits_of ws - {b})" by (simp add: atomic_clear_bit_def defs)
  show "map_option bits_of (atomic_set_bit_to ws b v) = Some (if v then insert b (bits_of ws) else bits_of ws - {b})"
    by (simp add: atomic_set_bit_to_def defs)
  show "map_option (\<lambda>(old, ws). (old, bits_of ws)) (atomic_test_and_set_bit ws b) = Some (b \<in> bits_of ws, insert b (bits_of ws))"
    by (simp add: atomic_test_and_set_bit_def defs)
  show "map_option (\<lambda>(old, ws). (old, bits_of ws)) (atomic_test_and_clear_bit ws b) = Some (b \<in> bits_of ws, bits_of ws - {b})"
    by (simp add: atomic_test_and_clear_bit_def defs)
qed

theorem bit_array_refines_set_witness:
  "atomic_test_bit [0, 4] 34 = Some (34 \<in> bits_of [0, 4]) \<and> map_option bits_of (atomic_clear_bit [0, 4] 34) = Some (bits_of [0, 4] - {34})"
  using bit_array_refines_set(1,3)[of 34 "[0, 4]"] by simp

section \<open>Nested locks\<close>

text \<open>The lock taken \<open>n\<close> times by the thread \<open>t\<close>, and given back \<open>n\<close> times.\<close>

fun lock_times :: "nat \<Rightarrow> nat \<Rightarrow> (nat \<times> nat) option option \<Rightarrow> (nat \<times> nat) option option outcome" where
  "lock_times 0 t m = Returns m"
| "lock_times (Suc n) t m = bind_outcome (os_net_mutex_recursive_lock t m) (\<lambda>(_, m). lock_times n t m)"

fun unlock_times :: "nat \<Rightarrow> nat \<Rightarrow> (nat \<times> nat) option option \<Rightarrow> (nat \<times> nat) option option outcome" where
  "unlock_times 0 t m = Returns m"
| "unlock_times (Suc n) t m = bind_outcome (os_net_mutex_recursive_unlock t m) (\<lambda>(_, m). unlock_times n t m)"

lemma lock_held: "lock_times n t (Some (Some (t, j))) = Returns (Some (Some (t, j + n)))"
  by (induction n arbitrary: j) (simp_all add: os_net_mutex_recursive_lock_def)

lemma unlock_held: "0 < j \<Longrightarrow> j \<le> n \<Longrightarrow> unlock_times j t (Some (Some (t, n))) = Returns (Some (if j = n then None else Some (t, n - j)))"
proof (induction j arbitrary: n)
  case (Suc j)
  then show ?case by (cases j; cases n) (auto simp: os_net_mutex_recursive_unlock_def)
qed simp

text \<open>
  A recursive mutex may be taken as often as its holder likes; another thread waits for it from the first time on, and gets
  it when it was given back as often.
\<close>
theorem recursive_lock_nests:
  assumes "0 < n" "t \<noteq> u"
  shows "bind_outcome (lock_times n t (Some None)) (os_net_mutex_recursive_lock u) = Blocks"
    and "bind_outcome (bind_outcome (lock_times n t (Some None)) (unlock_times n t)) (os_net_mutex_recursive_lock u) =
      Returns (OS_NET_STATUS_OK, Some (Some (u, 1)))"
proof -
  obtain j where "n = Suc j" using assms(1) by (cases n) auto
  then have l: "lock_times n t (Some None) = Returns (Some (Some (t, n)))"
    using lock_held[of j t 1] by (simp add: os_net_mutex_recursive_lock_def)
  show "bind_outcome (lock_times n t (Some None)) (os_net_mutex_recursive_lock u) = Blocks"
    using assms(2) by (simp add: l os_net_mutex_recursive_lock_def)
  show "bind_outcome (bind_outcome (lock_times n t (Some None)) (unlock_times n t)) (os_net_mutex_recursive_lock u) =
      Returns (OS_NET_STATUS_OK, Some (Some (u, 1)))"
    using unlock_held[of n n t] assms(1) by (simp add: l os_net_mutex_recursive_lock_def)
qed

theorem recursive_lock_nests_witness: "bind_outcome (lock_times 3 1 (Some None)) (os_net_mutex_recursive_lock 2) = Blocks"
  by (rule recursive_lock_nests(1)) simp_all

section \<open>A notification without its value\<close>

text \<open>
  The value that is handed to \<open>snfy_ready\<close> is stored and never handed on: whoever waits gets NULL.
\<close>
theorem notification_loses_value:
  "\<exists>st h. snfy_ready v (snfy_new True True) = Returns (st, Some h) \<and> snfy_result h = Some v \<and> snfy_await intr (Some h) = Returns None"
  by (simp add: snfy_ready_def snfy_new_def os_net_sem_create_def os_net_sem_release_def snfy_await_def os_net_sem_wait_def)

end
