(* ===== verification/Event_Pipe.thy ===== *)
theory Event_Pipe
  imports Net_Queue Wmg_Types
begin

text \<open>
  The event pipe of \<open>wifi/event.c\<close>: a pair of connected sockets through which the thread that
  listens to a daemon hands events to the call that waits for them, one byte for each. The
  kernel buffers the bytes that were not read; when it has no room left, a write waits.
\<close>

section \<open>State and operations\<close>

text \<open>
  The handle with the bytes in flight, the room the kernel gives them, and whether \<open>fcntl\<close> can
  read and set the flags of the socket.
\<close>

record event_handle =
  evt_socket :: "int \<times> int"
  evt_socket_enable :: bool
  evt_bytes :: "byte list"
  evt_room :: nat
  evt_getfl_ok :: bool
  evt_setfl_ok :: bool

text \<open>
  The descriptor of the reading side becomes non-blocking, and bytes are read until there are
  none. The flags are lost on the way: \<open>flags = fcntl(...) < 0\<close> stores the comparison.
\<close>

definition evt_socket_clear :: "event_handle \<Rightarrow> int \<times> event_handle" where
  "evt_socket_clear h =
     (if \<not> evt_socket_enable h then (- 1, h)
      else if \<not> evt_getfl_ok h then (- 1, h)
      else if \<not> evt_setfl_ok h then (- 1, h)
      else (0, h\<lparr>evt_bytes := []\<rparr>))"

text \<open>Closing the sockets drops what is in flight.\<close>

definition evt_socket_exit :: "event_handle \<Rightarrow> event_handle" where
  "evt_socket_exit h =
     (if evt_socket_enable h
      then let h = snd (evt_socket_clear h);
             (a, b) = evt_socket h;
             h = (if 0 \<le> a then h\<lparr>evt_socket := (- 1, snd (evt_socket h)), evt_bytes := []\<rparr> else h);
             h = (if 0 \<le> b then h\<lparr>evt_socket := (fst (evt_socket h), - 1), evt_bytes := []\<rparr> else h)
           in h\<lparr>evt_socket_enable := False\<rparr>
      else h)"

text \<open>\<open>sp\<close> is what \<open>socketpair\<close> gives: two descriptors, or nothing.\<close>

definition evt_socket_init :: "(int \<times> int) option \<Rightarrow> event_handle \<Rightarrow> int \<times> event_handle" where
  "evt_socket_init sp h =
     (let h = (if evt_socket_enable h then evt_socket_exit h else h)
      in (case sp of
            None \<Rightarrow> (- 1, h)
          | Some fds \<Rightarrow> (0, h\<lparr>evt_socket := fds, evt_bytes := [], evt_socket_enable := True\<rparr>)))"

text \<open>The event is cut to a \<open>char\<close>.\<close>

definition evt_send :: "int \<Rightarrow> event_handle \<Rightarrow> (int \<times> event_handle) outcome" where
  "evt_send event h =
     (if \<not> evt_socket_enable h then Returns (- 1, h)
      else if length (evt_bytes h) < evt_room h
      then Returns (1, h\<lparr>evt_bytes := evt_bytes h @ [word_of_int event]\<rparr>)
      else Blocks)"

text \<open>
  Reading when \<open>poll\<close> reports: the result and, when a byte was read, the event, which is a
  \<open>signed char\<close> again. With nothing in flight \<open>poll\<close> waits for 70 s and the result is 0.
\<close>

definition evt_read :: "event_handle \<Rightarrow> int \<times> int option \<times> event_handle" where
  "evt_read h =
     (if \<not> evt_socket_enable h then (- 1, None, h)
      else (case evt_bytes h of
              [] \<Rightarrow> (0, None, h)
            | c # cs \<Rightarrow> (1, Some (sint c), h\<lparr>evt_bytes := cs\<rparr>)))"

section \<open>The numbers of the events\<close>

fun sta_event_num :: "wifi_sta_event \<Rightarrow> int" where
  "sta_event_num WIFI_DISCONNECTED = 0"
| "sta_event_num WIFI_SCAN_STARTED = 1"
| "sta_event_num WIFI_SCAN_FAILED = 2"
| "sta_event_num WIFI_SCAN_RESULTS = 3"
| "sta_event_num WIFI_NETWORK_NOT_FOUND = 4"
| "sta_event_num WIFI_PASSWORD_INCORRECT = 5"
| "sta_event_num WIFI_AUTHENTIACATION = 6"
| "sta_event_num WIFI_AUTH_REJECT = 7"
| "sta_event_num WIFI_ASSOCIATING = 8"
| "sta_event_num WIFI_ASSOC_REJECT = 9"
| "sta_event_num WIFI_ASSOCIATED = 10"
| "sta_event_num WIFI_4WAY_HANDSHAKE = 11"
| "sta_event_num WIFI_GROUNP_HANDSHAKE = 12"
| "sta_event_num WIFI_GROUNP_HANDSHAKE_DONE = 13"
| "sta_event_num WIFI_CONNECTED = 14"
| "sta_event_num WIFI_CONNECT_TIMEOUT = 15"
| "sta_event_num WIFI_DEAUTH = 16"
| "sta_event_num WIFI_DHCP_START = 17"
| "sta_event_num WIFI_DHCP_TIMEOUT = 18"
| "sta_event_num WIFI_DHCP_SUCCESS = 19"
| "sta_event_num WIFI_TERMINATING = 20"
| "sta_event_num WIFI_UNKNOWN = 21"

lemma sta_event_num_inject [simp]: "sta_event_num e = sta_event_num f \<longleftrightarrow> e = f"
  by (cases e; cases f) simp_all

lemma sta_event_num_byte [simp]: "sint (word_of_int (sta_event_num e) :: byte) = sta_event_num e"
  by (cases e) simp_all

text \<open>The event of a number, where there is one.\<close>

definition all_sta_events :: "wifi_sta_event list" where
  "all_sta_events = [WIFI_DISCONNECTED, WIFI_SCAN_STARTED, WIFI_SCAN_FAILED, WIFI_SCAN_RESULTS,
     WIFI_NETWORK_NOT_FOUND, WIFI_PASSWORD_INCORRECT, WIFI_AUTHENTIACATION, WIFI_AUTH_REJECT,
     WIFI_ASSOCIATING, WIFI_ASSOC_REJECT, WIFI_ASSOCIATED, WIFI_4WAY_HANDSHAKE,
     WIFI_GROUNP_HANDSHAKE, WIFI_GROUNP_HANDSHAKE_DONE, WIFI_CONNECTED, WIFI_CONNECT_TIMEOUT,
     WIFI_DEAUTH, WIFI_DHCP_START, WIFI_DHCP_TIMEOUT, WIFI_DHCP_SUCCESS, WIFI_TERMINATING, WIFI_UNKNOWN]"

definition sta_event_of :: "int \<Rightarrow> wifi_sta_event" where
  "sta_event_of n = (if 0 \<le> n \<and> n < 22 then all_sta_events ! nat n else WIFI_UNKNOWN)"

lemma sta_event_of_num [simp]: "sta_event_of (sta_event_num e) = e"
  by (cases e) (simp_all add: sta_event_of_def all_sta_events_def)

section \<open>The pipe as a first-in first-out queue of events\<close>

definition event_byte :: "wifi_sta_event \<Rightarrow> byte" where
  "event_byte e = word_of_int (sta_event_num e)"

definition pipe_ok :: "event_handle \<Rightarrow> bool" where
  "pipe_ok h \<longleftrightarrow> evt_socket_enable h \<and> length (evt_bytes h) \<le> evt_room h \<and>
     list_all (\<lambda>b. event_byte (sta_event_of (sint b)) = b) (evt_bytes h)"

definition pipe_items :: "event_handle \<Rightarrow> wifi_sta_event list" where
  "pipe_items h = map (\<lambda>b. sta_event_of (sint b)) (evt_bytes h)"

definition pipe_send :: "wifi_sta_event \<Rightarrow> event_handle \<Rightarrow> bool \<times> event_handle" where
  "pipe_send e h = (case evt_send (sta_event_num e) h of Returns (n, h') \<Rightarrow> (n = 1, h') | _ \<Rightarrow> (False, h))"

definition pipe_recv :: "event_handle \<Rightarrow> (wifi_sta_event \<times> event_handle) option" where
  "pipe_recv h = (case evt_read h of (_, Some n, h') \<Rightarrow> Some (sta_event_of n, h') | _ \<Rightarrow> None)"

lemma event_byte_of [simp]: "sta_event_of (sint (event_byte e)) = e"
  by (simp add: event_byte_def)

interpretation event_pipe: bounded_fifo pipe_ok pipe_items evt_room pipe_send pipe_recv
proof unfold_locales
  fix h m acc h'
  assume "pipe_ok h" "pipe_send m h = (acc, h')"
  then show "pipe_ok h' \<and> evt_room h' = evt_room h \<and> acc = (length (pipe_items h) < evt_room h) \<and>
      pipe_items h' = (if acc then pipe_items h @ [m] else pipe_items h)"
    by (auto simp: pipe_ok_def pipe_items_def pipe_send_def evt_send_def event_byte_def[symmetric] split: if_splits)
qed (auto simp: pipe_ok_def pipe_items_def pipe_recv_def evt_read_def split: list.splits)

lemma pipe_init:
  assumes "evt_socket_init (Some fds) h = (r, h')"
  shows "r = 0 \<and> pipe_ok h' \<and> pipe_items h' = []"
  using assms by (auto simp: evt_socket_init_def pipe_ok_def pipe_items_def Let_def)

lemma pipe_clear:
  assumes "pipe_ok h" "evt_getfl_ok h" "evt_setfl_ok h"
  shows "fst (evt_socket_clear h) = 0 \<and> pipe_ok (snd (evt_socket_clear h)) \<and> pipe_items (snd (evt_socket_clear h)) = []"
  using assms by (simp add: evt_socket_clear_def pipe_ok_def pipe_items_def)

text \<open>
  The event pipe delivers every event of the enumeration unchanged and in order: from a
  fresh pair of sockets, under any interleaving of sends and reads, what was read followed by
  what is in flight is what was sent and accepted; a number survives the cut to a \<open>char\<close>.
\<close>

theorem pipe_delivers_in_order:
  assumes "evt_socket_init (Some fds) h0 = (r, h)"
    and "fifo_run pipe_send pipe_recv ops h = (sent, got, h')"
  shows "r = 0 \<and> sent = got @ pipe_items h' \<and> length (pipe_items h') \<le> evt_room h'"
  using pipe_init[OF assms(1)] event_pipe.run_in_order[OF assms(2)] event_pipe.bound[of h'] by simp

definition demo_pipe :: event_handle where
  "demo_pipe = \<lparr>evt_socket = (- 1, - 1), evt_socket_enable = False, evt_bytes = [], evt_room = 4,
     evt_getfl_ok = True, evt_setfl_ok = True\<rparr>"

theorem pipe_delivers_in_order_witness:
  "\<exists>h sent got h'. evt_socket_init (Some (5, 6)) demo_pipe = (0, h) \<and>
     fifo_run pipe_send pipe_recv [Send WIFI_CONNECTED, Send WIFI_UNKNOWN, Recv] h = (sent, got, h') \<and>
     sent = got @ pipe_items h'"
proof -
  obtain r h where i: "evt_socket_init (Some (5, 6)) demo_pipe = (r, h)" by fastforce
  obtain sent got h' where r:
    "fifo_run pipe_send pipe_recv [Send WIFI_CONNECTED, Send WIFI_UNKNOWN, Recv] h = (sent, got, h')"
    using prod_cases3 by blast
  show ?thesis using pipe_delivers_in_order[OF i r] i r by auto
qed

end
