(* ===== verification/C_Text.thy ===== *)
theory C_Text
  imports Wmg_Prelude
begin

text \<open>
  The functions of C's string library that the platform code uses. A text is a C string
  without its NUL; a position in it is the suffix that starts there. What the library leaves
  undefined is \<open>None\<close>.
\<close>

section \<open>Characters, searches and numbers\<close>

abbreviation "TAB \<equiv> CHR 0x09"
abbreviation "NL \<equiv> CHR 0x0A"
abbreviation "BACKSLASH \<equiv> CHR 0x5C"
abbreviation "QUOTE \<equiv> CHR 0x22"

text \<open>\<open>strchr\<close>: what is before the character and what is behind it.\<close>

definition strchr :: "char \<Rightarrow> string \<Rightarrow> (string \<times> string) option" where
  "strchr c s = (if c \<in> set s then Some (takeWhile (\<lambda>x. x \<noteq> c) s, tl (dropWhile (\<lambda>x. x \<noteq> c) s)) else None)"

definition is_digit :: "char \<Rightarrow> bool" where
  "is_digit c \<longleftrightarrow> 48 \<le> (of_char c :: nat) \<and> (of_char c :: nat) \<le> 57"

definition is_space :: "char \<Rightarrow> bool" where
  "is_space c \<longleftrightarrow> c = CHR 0x20 \<or> (9 \<le> (of_char c :: nat) \<and> (of_char c :: nat) \<le> 13)"

text \<open>\<open>atoi\<close> on an array: it stops at the first character that is no digit; a value that is no int is undefined.\<close>

fun atoi_digits :: "string \<Rightarrow> int \<Rightarrow> int option" where
  "atoi_digits [] v = None"
| "atoi_digits (c # cs) v = (if is_digit c then atoi_digits cs (v * 10 + (of_char c - 48)) else Some v)"

definition int_range :: "int \<Rightarrow> int option" where
  "int_range v = (if - (2 ^ 31) \<le> v \<and> v < 2 ^ 31 then Some v else None)"

definition atoi :: "string \<Rightarrow> int option" where
  "atoi s =
     (case dropWhile is_space s of
        [] \<Rightarrow> None
      | c # cs \<Rightarrow>
          if c = CHR ''-'' then Option.bind (atoi_digits cs 0) (\<lambda>v. int_range (- v))
          else if c = CHR ''+'' then Option.bind (atoi_digits cs 0) int_range
          else Option.bind (atoi_digits (c # cs) 0) int_range)"

lemma strchr_shorter: "strchr c s = Some (a, r) \<Longrightarrow> length r < length s"
proof -
  assume "strchr c s = Some (a, r)"
  then have c: "c \<in> set s" and r: "r = tl (dropWhile (\<lambda>x. x \<noteq> c) s)"
    by (auto simp: strchr_def split: if_splits)
  have "dropWhile (\<lambda>x. x \<noteq> c) s \<noteq> []" using c by (auto simp: dropWhile_eq_Nil_conv)
  then have "length r < length (dropWhile (\<lambda>x. x \<noteq> c) s)" by (simp add: r)
  then show ?thesis using length_dropWhile_le[of "\<lambda>x. x \<noteq> c" s] by linarith
qed

lemma strchr_None: "strchr c s = None \<longleftrightarrow> c \<notin> set s"
  by (simp add: strchr_def)

lemma strchr_Some: "strchr c s = Some (a, r) \<longleftrightarrow> s = a @ c # r \<and> c \<notin> set a"
proof
  assume *: "strchr c s = Some (a, r)"
  then have c: "c \<in> set s" and a: "a = takeWhile (\<lambda>x. x \<noteq> c) s" and r: "r = tl (dropWhile (\<lambda>x. x \<noteq> c) s)"
    by (auto simp: strchr_def split: if_splits)
  have "dropWhile (\<lambda>x. x \<noteq> c) s = c # r"
    using c r hd_dropWhile[of "\<lambda>x. x \<noteq> c" s] by (cases "dropWhile (\<lambda>x. x \<noteq> c) s") auto
  then show "s = a @ c # r \<and> c \<notin> set a"
    using takeWhile_dropWhile_id[of "\<lambda>x. x \<noteq> c" s] a set_takeWhileD by (metis (mono_tags, lifting))
next
  assume "s = a @ c # r \<and> c \<notin> set a"
  then show "strchr c s = Some (a, r)"
    by (auto simp: strchr_def takeWhile_append dropWhile_append)
qed

lemma strncpy_all: "strncpy dst src (length src) = src @ drop (length src) dst"
  by (simp add: strncpy_def)

section \<open>Decimal numbers\<close>

text \<open>The digits of a number, as \<open>%d\<close> prints it.\<close>

fun dec :: "nat \<Rightarrow> string" where
  "dec n = (if n < 10 then [char_of (48 + n)] else dec (n div 10) @ [char_of (48 + n mod 10)])"

declare dec.simps [simp del]

definition dec_int :: "int \<Rightarrow> string" where
  "dec_int i = (if i < 0 then CHR ''-'' # dec (nat (- i)) else dec (nat i))"

lemma atoi_digits_append:
  "list_all is_digit xs \<Longrightarrow> atoi_digits (xs @ ys) v = atoi_digits ys (foldl (\<lambda>v c. v * 10 + (of_char c - 48)) v xs)"
  by (induction xs arbitrary: v) auto

lemma of_char_digit: "d < 10 \<Longrightarrow> (of_char (char_of (48 + d :: nat)) :: int) = 48 + int d"
proof -
  assume "d < 10"
  then have "(of_char (char_of (48 + d)) :: nat) = 48 + d" by simp
  then have "int (of_char (char_of (48 + d))) = int (48 + d)" by (simp only:)
  then show ?thesis by (simp only: of_nat_of_char of_nat_add of_nat_numeral)
qed

lemma is_digit_char: "d < 10 \<Longrightarrow> is_digit (char_of (48 + d :: nat))"
  by (simp add: is_digit_def)

lemma dec_digits: "list_all is_digit (dec n)"
proof (induction n rule: dec.induct)
  case (1 n)
  then show ?case by (subst dec.simps) (simp add: is_digit_char)
qed

lemma dec_value: "foldl (\<lambda>v c. v * 10 + (of_char c - 48)) (0 :: int) (dec n) = int n"
proof (induction n rule: dec.induct)
  case (1 n)
  have d: "(of_char (char_of (48 + n mod 10)) :: int) = 48 + int (n mod 10)" by (rule of_char_digit) simp
  have n: "int (n div 10) * 10 + int (n mod 10) = int n" by presburger
  show ?case
  proof (cases "n < 10")
    case True
    then show ?thesis using of_char_digit[of n] by (subst dec.simps) simp
  next
    case False
    then have "dec n = dec (n div 10) @ [char_of (48 + n mod 10)]" by (subst dec.simps) simp
    then show ?thesis using 1[OF False] d n by simp
  qed
qed

lemma dec_not_Nil: "dec n \<noteq> []"
  by (subst dec.simps) simp

lemma length_dec_le: "n < 10 ^ k \<Longrightarrow> 0 < k \<Longrightarrow> length (dec n) \<le> k"
proof (induction k arbitrary: n)
  case (Suc k)
  show ?case
  proof (cases "n < 10")
    case True
    then show ?thesis by (subst dec.simps) simp
  next
    case False
    then have "n div 10 < 10 ^ k" "0 < k" using Suc.prems by (auto intro: ccontr)
    then have "length (dec (n div 10)) \<le> k" by (rule Suc.IH)
    then show ?thesis using False by (subst dec.simps) simp
  qed
qed simp

lemma length_dec_ge: "10 ^ k \<le> n \<Longrightarrow> k < length (dec n)"
proof (induction k arbitrary: n)
  case 0
  then show ?case by (simp add: dec_not_Nil)
next
  case (Suc k)
  have "10 \<le> (10 :: nat) ^ Suc k" by simp
  then have n: "\<not> n < 10" using Suc.prems by linarith
  have "10 ^ k \<le> n div 10" using div_le_mono[OF Suc.prems, of 10] by simp
  then have "k < length (dec (n div 10))" by (rule Suc.IH)
  then show ?case using n by (subst dec.simps) simp
qed

lemma digit_facts:
  assumes "is_digit c"
  shows "\<not> is_space c" "c \<noteq> CHR ''-''" "c \<noteq> CHR ''+''" "c \<noteq> TAB" "c \<noteq> NL"
  using assms by (auto simp: is_digit_def is_space_def)

lemma dec_no_tab: "TAB \<notin> set (dec n)"
  using dec_digits[of n] by (auto simp: list_all_iff is_digit_def)

lemma atoi_dec_int:
  assumes "- (2 ^ 31) \<le> i" "i < 2 ^ 31"
  shows "atoi (dec_int i @ CHR 0x00 # r) = Some i"
proof -
  have v: "atoi_digits (dec n @ CHR 0x00 # r) 0 = Some (int n)" for n
    by (subst atoi_digits_append[OF dec_digits]) (simp add: dec_value is_digit_def)
  show ?thesis
  proof (cases "i < 0")
    case True
    then show ?thesis using v[of "nat (- i)"] assms by (simp add: dec_int_def atoi_def is_space_def int_range_def)
  next
    case False
    then obtain c cs where "dec (nat i) = c # cs" "is_digit c"
      using dec_not_Nil dec_digits by (metis list.pred_inject(2) neq_Nil_conv)
    then show ?thesis using v[of "nat i"] assms digit_facts[of c] False by (simp add: dec_int_def atoi_def int_range_def)
  qed
qed

lemma dec_int_no_tab: "TAB \<notin> set (dec_int i)"
  by (simp add: dec_int_def dec_no_tab)

lemma length_dec_int: "\<bar>i\<bar> < 10 ^ k \<Longrightarrow> 0 < k \<Longrightarrow> length (dec_int i) \<le> Suc k"
  using length_dec_le[of "nat (- i)" k] length_dec_le[of "nat i" k]
  by (auto simp: dec_int_def nat_less_iff le_SucI)

section \<open>Prefixes, substrings, tokens\<close>

text \<open>\<open>strncmp(s, w, strlen(w)) == 0\<close>.\<close>

definition starts :: "string \<Rightarrow> string \<Rightarrow> bool" where
  "starts w s \<longleftrightarrow> take (length w) s = w"

text \<open>\<open>strstr\<close>: what is before the first occurrence, and the text from there on.\<close>

fun strstr :: "string \<Rightarrow> string \<Rightarrow> (string \<times> string) option" where
  "strstr w s =
     (if starts w s then Some ([], s)
      else (case s of [] \<Rightarrow> None | c # s \<Rightarrow> map_option (\<lambda>(a, r). (c # a, r)) (strstr w s)))"

declare strstr.simps [simp del]

text \<open>\<open>strtok\<close> with the delimiters \<open>d\<close>: the token, and where the next call goes on.\<close>

definition strtok :: "string \<Rightarrow> string \<Rightarrow> (string \<times> string) option" where
  "strtok d s =
     (let s = dropWhile (\<lambda>c. c \<in> set d) s
      in if s = [] then None
         else Some (takeWhile (\<lambda>c. c \<notin> set d) s, drop 1 (dropWhile (\<lambda>c. c \<notin> set d) s)))"

text \<open>\<open>sprintf\<close> and \<open>strcpy\<close> into an array of \<open>n\<close> bytes, which must have room for the NUL.\<close>

definition fits :: "nat \<Rightarrow> string \<Rightarrow> string option" where
  "fits n s = (if length s < n then Some s else None)"

text \<open>A number in a C string.\<close>

definition atoi_str :: "string \<Rightarrow> int option" where
  "atoi_str s = atoi (s @ [CHR 0x00])"

lemma fits_Some [simp]: "fits n s = Some t \<longleftrightarrow> length s < n \<and> t = s"
  by (auto simp: fits_def)

lemma atoi_str_dec_int:
  "- (2 ^ 31) \<le> i \<Longrightarrow> i < 2 ^ 31 \<Longrightarrow> atoi_str (dec_int i) = Some i"
  using atoi_dec_int[of i "[]"] by (simp add: atoi_str_def)

lemma atoi_str_dec: "n < 2 ^ 31 \<Longrightarrow> atoi_str (dec n) = Some (int n)"
  using atoi_str_dec_int[of "int n"] by (simp add: dec_int_def)

lemma strtok_shorter: "strtok d s = Some (t, r) \<Longrightarrow> length r < length s"
proof -
  assume *: "strtok d s = Some (t, r)"
  let ?s = "dropWhile (\<lambda>c. c \<in> set d) s"
  have ne: "?s \<noteq> []" and r: "r = drop 1 (dropWhile (\<lambda>c. c \<notin> set d) ?s)"
    using * by (auto simp: strtok_def Let_def split: if_splits)
  have "hd ?s \<notin> set d" using hd_dropWhile[OF ne] .
  then have "dropWhile (\<lambda>c. c \<notin> set d) ?s = dropWhile (\<lambda>c. c \<notin> set d) (tl ?s)"
    using ne by (cases ?s) auto
  then have "length r \<le> length (tl ?s)"
    using length_dropWhile_le[of "\<lambda>c. c \<notin> set d" "tl ?s"] r by simp
  also have "\<dots> < length ?s" using ne by simp
  also have "\<dots> \<le> length s" by (rule length_dropWhile_le)
  finally show ?thesis .
qed

lemma strtok_field:
  assumes "t \<noteq> []" "set t \<inter> set d = {}" "c \<in> set d"
  shows "strtok d (t @ c # r) = Some (t, r)" "strtok d t = Some (t, [])"
proof -
  have h: "hd t \<notin> set d" using assms(1,2) by (meson disjoint_iff hd_in_set)
  have t: "dropWhile (\<lambda>c. c \<in> set d) (t @ x) = t @ x" for x
    using h assms(1) by (cases t) auto
  have n: "\<forall>x \<in> set t. x \<notin> set d" using assms(2) by blast
  have w: "takeWhile (\<lambda>c. c \<notin> set d) (t @ c # r) = t" "dropWhile (\<lambda>c. c \<notin> set d) (t @ c # r) = c # r"
    "takeWhile (\<lambda>c. c \<notin> set d) t = t" "dropWhile (\<lambda>c. c \<notin> set d) t = []"
    using n assms(3) by (induction t) simp_all
  show "strtok d (t @ c # r) = Some (t, r)" unfolding strtok_def Let_def t w using assms(1) by simp
  show "strtok d t = Some (t, [])" unfolding strtok_def Let_def t[of "[]", simplified] w using assms(1) by simp
qed

lemma strtok_skip: "c \<in> set d \<Longrightarrow> strtok d (c # s) = strtok d s"
  by (simp add: strtok_def)

lemma strtok_none: "strtok d s = None \<longleftrightarrow> set s \<subseteq> set d"
  by (auto simp: strtok_def Let_def dropWhile_eq_Nil_conv)

lemma starts_append [simp]: "starts w (w @ s)"
  by (simp add: starts_def)

lemma starts_iff: "starts w s \<longleftrightarrow> (\<exists>r. s = w @ r)"
  by (metis append_eq_conv_conj append_take_drop_id starts_def)

lemma strstr_Some: "strstr w s = Some (a, r) \<Longrightarrow> s = a @ r \<and> starts w r"
  by (induction w s arbitrary: a r rule: strstr.induct)
    (subst (asm) (2) strstr.simps, auto split: if_splits list.splits)

lemma strstr_None: "strstr w s = None \<longleftrightarrow> (\<nexists>a r. s = a @ w @ r)"
proof (induction w s rule: strstr.induct)
  case (1 w s)
  show ?case
  proof (cases "starts w s")
    case True
    then have "strstr w s \<noteq> None" by (subst strstr.simps) simp
    moreover obtain r where "s = [] @ w @ r" using True by (auto simp: starts_iff)
    ultimately show ?thesis by blast
  next
    case False
    then have n: "s \<noteq> w @ r" for r by (auto simp: starts_iff)
    show ?thesis
    proof (cases s)
      case Nil
      then show ?thesis using n False by (subst strstr.simps) auto
    next
      case (Cons c t)
      have "strstr w s = None \<longleftrightarrow> strstr w t = None"
        using False Cons by (subst strstr.simps) simp
      also have "\<dots> \<longleftrightarrow> (\<nexists>a r. t = a @ w @ r)" using 1[OF False Cons] .
      also have "\<dots> \<longleftrightarrow> (\<nexists>a r. s = a @ w @ r)"
        using n Cons by (metis append_Cons append_Nil list.inject neq_Nil_conv)
      finally show ?thesis .
    qed
  qed
qed

end
