(* ===== verification/Linux_Os.thy ===== *)
theory Linux_Os
  imports C_Text
begin

text \<open>
  What the platform code needs of the kernel and of a daemon below it, \<open>wpa_supplicant\<close> or
  \<open>hostapd\<close>: the record of their operations, the messages a daemon sends unasked, and the parts of
  \<open>linux_wpa.c\<close> and \<open>linux_hapd.c\<close> that read them, which are the same in both files.

  The daemon and the kernel are a state \<open>'s\<close> and a record of operations on it that every
  definition takes as its argument. Texts contain no NUL.
\<close>

section \<open>The kernel and the daemon\<close>

text \<open>
  \<open>os_request\<close>: \<open>wpa_ctrl_request\<close> with a command, its result (0, - 1, - 2 for a timeout) and the reply;
  \<open>os_pending\<close>: how many messages already wait on the monitor connection; \<open>os_popen\<close>: the
  number of bytes a shell command printed; \<open>os_ifaddrs\<close>: the interface addresses; \<open>os_room\<close>,
  \<open>os_getfl\<close>, \<open>os_setfl\<close>: how many bytes a pair of sockets holds, and whether \<open>fcntl\<close> works on it;
  \<open>os_garbage\<close>: what the caller finds of a function that ends without a return statement;
  \<open>os_socket\<close>, \<open>os_if_flags\<close>, \<open>os_set_hw\<close>, \<open>os_get_hw\<close>: a socket, and the requests on an interface.
\<close>

datatype ifa_family = No_Address | Family_Inet | Family_Inet6 | Other_Family

record 's wpa_os =
  os_open :: "'s \<Rightarrow> bool \<times> 's"
  os_attach :: "'s \<Rightarrow> bool \<times> 's"
  os_request :: "string \<Rightarrow> 's \<Rightarrow> (int \<times> string) \<times> 's"
  os_pending :: "'s \<Rightarrow> nat \<times> 's"
  os_socketpair :: "'s \<Rightarrow> (int \<times> int) option \<times> 's"
  os_popen :: "string \<Rightarrow> 's \<Rightarrow> nat option \<times> 's"
  os_system :: "string \<Rightarrow> 's \<Rightarrow> 's"
  os_access :: "string \<Rightarrow> 's \<Rightarrow> bool \<times> 's"
  os_ifaddrs :: "'s \<Rightarrow> (string \<times> ifa_family) list \<times> 's"
  os_time :: "'s \<Rightarrow> int \<times> 's"
  os_sleep :: "nat \<Rightarrow> 's \<Rightarrow> 's"
  os_thread :: "'s \<Rightarrow> bool \<times> 's"
  os_malloc :: "'s \<Rightarrow> bool \<times> 's"
  os_room :: nat
  os_getfl :: bool
  os_setfl :: bool
  os_garbage :: int
  os_socket :: "'s \<Rightarrow> bool \<times> 's"
  os_if_flags :: "string \<Rightarrow> bool \<Rightarrow> 's \<Rightarrow> bool \<times> 's"
  os_set_hw :: "string \<Rightarrow> byte list \<Rightarrow> 's \<Rightarrow> bool \<times> 's"
  os_get_hw :: "string \<Rightarrow> 's \<Rightarrow> byte list option \<times> 's"

section \<open>Buffers\<close>

abbreviation "CMD_MAX_LEN \<equiv> 100 :: nat"
abbreviation "CMD_LEN \<equiv> 255 :: nat"
abbreviation "REPLY_BUF_SIZE \<equiv> 4096 :: nat"
abbreviation "EVENT_BUF_SIZE \<equiv> 2048 :: nat"

definition strip_newline :: "string \<Rightarrow> string" where
  "strip_newline s = (if s \<noteq> [] \<and> last s = NL then butlast s else s)"

section \<open>Messages\<close>

text \<open>
  What the poll of \<open>wifi_ctrl_recv\<close> finds: a message, a failed receive or poll, a byte on the exit
  socket (it is not read there and stays); \<open>Quiet\<close> says that nothing comes for so long that a
  reader of the event pipe gives up.
\<close>

datatype incoming = Message string | Recv_Failed | Exit_Signal | Quiet

abbreviation "WPA_EVENT_TERMINATING \<equiv> ''CTRL-EVENT-TERMINATING ''"

text \<open>
  The text handed to the dispatcher, cut to the buffer, and the length that is reported. With
  an interface name only the level is removed, and the name stays in front; the move then copies
  one byte too many, which for a full buffer is behind its end.
\<close>

definition strip_level :: "string \<Rightarrow> (int \<times> string) option" where
  "strip_level buf =
     (if starts ''IFNAME='' buf
      then (case strchr (CHR '' '') buf of
              None \<Rightarrow> Some (18, ''CTRL-EVENT-IGNORE '')
            | Some (name, rest) \<Rightarrow>
                if starts ''<'' rest
                then (case strchr (CHR ''>'') (tl rest) of
                        None \<Rightarrow> Some (int (length buf), buf)
                      | Some (_, event) \<Rightarrow>
                          if length buf = EVENT_BUF_SIZE - 1 then None
                          else Some (int (length (name @ '' '' @ event)), name @ '' '' @ event))
                else Some (int (length buf), buf))
      else if starts ''<'' buf
      then (case strchr (CHR ''>'') buf of
              None \<Rightarrow> Some (int (length buf), buf)
            | Some (_, event) \<Rightarrow> Some (int (length event), event))
      else Some (int (length buf), buf))"

text \<open>What the poll and the receive give: a message is cut to the buffer.\<close>

fun wifi_ctrl_recv :: "incoming \<Rightarrow> int \<times> string" where
  "wifi_ctrl_recv (Message m) = (0, take (EVENT_BUF_SIZE - 1) m)"
| "wifi_ctrl_recv Exit_Signal = (- 2, [])"
| "wifi_ctrl_recv _ = (- 1, [])"

definition fabricated :: "string \<Rightarrow> int \<times> string" where
  "fabricated s = (int (length (WPA_EVENT_TERMINATING @ s)), WPA_EVENT_TERMINATING @ s)"

section \<open>Processes\<close>

text \<open>\<open>utils.c\<close>: a process exists when \<open>ps | grep\<close> prints something; errors are negative and not zero.\<close>

abbreviation "PROG_NAME_MAX_LEN \<equiv> 20 :: int"

definition check_process_is_exist :: "'s wpa_os \<Rightarrow> string \<Rightarrow> int \<Rightarrow> 's \<Rightarrow> int \<times> 's" where
  "check_process_is_exist k process_name len s =
     (if PROG_NAME_MAX_LEN < len then (- 22, s)
      else let (bytes, s) = os_popen k (''ps | grep '' @ process_name @ '' | grep -v grep'') s
           in case bytes of None \<Rightarrow> (- 3, s) | Some n \<Rightarrow> (if 0 < n then 1 else 0, s))"

end
