(* ===== verification/Wpa_Ctrl.thy ===== *)
theory Wpa_Ctrl
  imports Event_Pipe Linux_Os
begin

text \<open>
  The station's platform on Linux, \<open>wifi/linux_wpa.c\<close>, part one: its state and the two
  control connections: commands with their replies, and the messages that arrive by themselves.

  What the supplicant sends unasked is the list \<open>incoming\<close> of what the monitor connection will
  give, in order; an empty list is a silent supplicant.
\<close>

section \<open>State\<close>

text \<open>
  The object \<open>sta_wpa_inf_object\<close> with its private data, and the file's static variables. The
  mutex of a command is taken and released inside it. \<open>sta_pid\<close> says that a thread id is stored,
  \<open>threads\<close> how many listening threads run. \<open>notified\<close> are the events given to the station's
  callback, oldest first.
\<close>

record 's wpa_dev =
  sta_wpa_init_flag :: bool
  sta_wpa_exist :: bool
  sta_pid :: bool
  threads :: nat
  sta_event_handle :: "event_handle option"
  sta_wpa_event_cb :: bool
  sta_wpa_auto_reconn :: bool
  sta_auth_fail_cnt :: "32 word"
  sta_net_not_found_cnt :: "32 word"
  sta_assoc_reject_cnt :: "32 word"
  old_ssid :: string
  new_ssid :: string
  last_time :: int
  ctrl_conn :: bool
  monitor_conn :: bool
  exit_sockets :: "int \<times> int"
  incoming :: "incoming list"
  notified :: "wifi_sta_event list"
  os :: 's

definition on_os :: "('s \<Rightarrow> 'a \<times> 's) \<Rightarrow> 's wpa_dev \<Rightarrow> 'a \<times> 's wpa_dev" where
  "on_os f d = (let (x, s) = f (os d) in (x, d\<lparr>os := s\<rparr>))"

definition os_do :: "('s \<Rightarrow> 's) \<Rightarrow> 's wpa_dev \<Rightarrow> 's wpa_dev" where
  "os_do f d = d\<lparr>os := f (os d)\<rparr>"

section \<open>Commands\<close>

text \<open>
  The result and what was written to the reply buffer, \<open>None\<close> when nothing was received. After a
  timeout a byte on the exit socket makes the thread give up once it has taken the messages
  that wait.
\<close>

definition wifi_send_command ::
    "'s wpa_os \<Rightarrow> string \<Rightarrow> nat \<Rightarrow> 's wpa_dev \<Rightarrow> int \<times> string option \<times> 's wpa_dev" where
  "wifi_send_command k cmd reply_len d =
     (if \<not> ctrl_conn d then (- 1, None, d)
      else let ((ret, reply), d) = on_os (os_request k cmd) d;
               reply = take reply_len reply
           in if ret = - 2
              then let (n, d) = on_os (os_pending k) d
                   in (- 2, None, d\<lparr>incoming := take n (incoming d) @ Exit_Signal # drop n (incoming d)\<rparr>)
              else if ret < 0 then (- 1, None, d)
              else if starts ''FAIL'' reply then (- 1, Some reply, d)
              else (0, Some reply, d))"

definition command_to_supplicant ::
    "'s wpa_os \<Rightarrow> string \<Rightarrow> nat \<Rightarrow> 's wpa_dev \<Rightarrow> int \<times> string option \<times> 's wpa_dev" where
  "command_to_supplicant k cmd reply_len d =
     (if cmd = [] then (- 1, None, d)
      else let (ret, reply, d) = wifi_send_command k cmd (reply_len - 1) d
           in if ret \<noteq> 0 then (- 1, reply, d)
              else (0, map_option strip_newline reply, d))"

section \<open>Messages\<close>

text \<open>Without a connection the answer is immediate; with one and nothing to receive it waits.\<close>

definition wifi_wait_on_socket :: "'s wpa_dev \<Rightarrow> ((int \<times> string) \<times> 's wpa_dev) outcome" where
  "wifi_wait_on_socket d =
     (if \<not> monitor_conn d then Returns (fabricated '' - connection closed'', d)
      else (case dropWhile (\<lambda>i. i = Quiet) (incoming d) of
              [] \<Rightarrow> Blocks
            | item # rest \<Rightarrow>
                let (result, buf) = wifi_ctrl_recv item;
                    d = d\<lparr>incoming := (if item = Exit_Signal then item # rest else rest)\<rparr>
                in if result = - 2 then Returns (fabricated '' - connection closed'', d)
                   else if result < 0 then Returns (fabricated '' - recv error'', d)
                   else if result = 0 \<and> length buf = 0 then Returns (fabricated '' - signal 0 received'', d)
                   else (case strip_level buf of None \<Rightarrow> Crash | Some r \<Rightarrow> Returns (r, d))))"

section \<open>Opening and closing the connections\<close>

text \<open>At most thirty pauses of 100 ms while the supplicant's socket cannot be opened.\<close>

fun open_ctrl :: "nat \<Rightarrow> 's wpa_os \<Rightarrow> 's wpa_dev \<Rightarrow> bool \<times> 's wpa_dev" where
  "open_ctrl n k d =
     (let (ok, d) = on_os (os_open k) d
      in if ok then (True, d)
         else (case n of 0 \<Rightarrow> (False, d) | Suc n \<Rightarrow> open_ctrl n k (os_do (os_sleep k 100000) d)))"

declare open_ctrl.simps [simp del]

text \<open>A new pair of exit sockets has nothing to read.\<close>

definition wifi_connect_on_socket_path :: "'s wpa_os \<Rightarrow> 's wpa_dev \<Rightarrow> int \<times> 's wpa_dev" where
  "wifi_connect_on_socket_path k d =
     (let (ok, d) = open_ctrl 30 k d; d = d\<lparr>ctrl_conn := ok\<rparr>
      in if \<not> ok then (- 1, d)
         else let (ok, d) = on_os (os_open k) d; d = d\<lparr>monitor_conn := ok\<rparr>
              in if \<not> ok then (- 1, d\<lparr>ctrl_conn := False\<rparr>)
                 else let (ok, d) = on_os (os_attach k) d
                      in if \<not> ok then (- 1, d\<lparr>ctrl_conn := False, monitor_conn := False\<rparr>)
                         else let (fds, d) = on_os (os_socketpair k) d
                              in case fds of
                                   None \<Rightarrow> (- 1, d\<lparr>ctrl_conn := False, monitor_conn := False\<rparr>)
                                 | Some fds \<Rightarrow>
                                     (0, d\<lparr>exit_sockets := fds, incoming := filter (\<lambda>i. i \<noteq> Exit_Signal) (incoming d)\<rparr>))"

definition wifi_close_sockets :: "'s wpa_dev \<Rightarrow> 's wpa_dev" where
  "wifi_close_sockets d =
     d\<lparr>monitor_conn := False, ctrl_conn := False,
       exit_sockets := (if 0 \<le> fst (exit_sockets d) then - 1 else fst (exit_sockets d),
                        if 0 \<le> snd (exit_sockets d) then - 1 else snd (exit_sockets d))\<rparr>"

section \<open>Processes\<close>

text \<open>The inner loop of \<open>start_supplicant\<close>: \<open>n\<close> looks are left for all the tries together.\<close>

fun wait_supplicant :: "nat \<Rightarrow> 's wpa_os \<Rightarrow> 's wpa_dev \<Rightarrow> int \<times> nat \<times> 's wpa_dev" where
  "wait_supplicant 0 k d = (0, 0, d)"
| "wait_supplicant (Suc n) k d =
     (let (ret, d) = on_os (check_process_is_exist k ''wpa_supplicant'' 14) (os_do (os_sleep k 1000000) d)
      in if c_true ret then (ret, Suc n, d) else wait_supplicant n k d)"

fun start_supplicant :: "nat \<Rightarrow> nat \<Rightarrow> 's wpa_os \<Rightarrow> 's wpa_dev \<Rightarrow> int \<times> 's wpa_dev" where
  "start_supplicant 0 looks k d = (- 1, d)"
| "start_supplicant (Suc try_times) looks k d =
     (let d = os_do (os_system k ''wpa_supplicant -B -iwlan0 -Dnl80211 -c/data/wpa_supplicant.conf -O/var/run/wpa_supplicant '') d;
          (ret, looks, d) = wait_supplicant looks k d
      in if ret = 0 then start_supplicant try_times looks k d else (0, d))"

end
