(* ===== verification/Wpa_Events.thy ===== *)
theory Wpa_Events
  imports Wpa_Ctrl
begin

text \<open>
  The station's platform, part three: what happens when a message of the supplicant arrives.
  The listening thread of \<open>linux_wpa.c\<close> turns it into an event, puts the event into the pipe, tells
  the station, and reconnects, disconnects or asks for an address (\<open>udhcpc.c\<close>). A caller that
  reads the pipe waits until the thread has put something there.
\<close>

section \<open>Events out\<close>

definition upd_events :: "(wifi_sta_event list \<Rightarrow> wifi_sta_event list) \<Rightarrow> 's wpa_dev \<Rightarrow> 's wpa_dev" where
  "upd_events f d = d\<lparr>notified := f (notified d)\<rparr>"

definition wpas_event_notify_to_sta_dev :: "wifi_sta_event \<Rightarrow> 's wpa_dev \<Rightarrow> 's wpa_dev" where
  "wpas_event_notify_to_sta_dev event d = (if sta_wpa_event_cb d then upd_events (\<lambda>es. es @ [event]) d else d)"

definition wpas_event_notify :: "wifi_sta_event \<Rightarrow> 's wpa_dev \<Rightarrow> 's wpa_dev outcome" where
  "wpas_event_notify event d =
     (case sta_event_handle d of
        None \<Rightarrow> Crash
      | Some h \<Rightarrow>
          bind_outcome (evt_send (sta_event_num event) h)
            (\<lambda>(_, h). Returns (wpas_event_notify_to_sta_dev event (d\<lparr>sta_event_handle := Some h\<rparr>))))"

section \<open>Addresses\<close>

text \<open>\<open>get_net_ip\<close>: 4 or 6 for the first address of that interface that is an internet address, 0 for none.\<close>

fun get_net_ip :: "string \<Rightarrow> (string \<times> ifa_family) list \<Rightarrow> int" where
  "get_net_ip if_name [] = 0"
| "get_net_ip if_name ((name, fam) # rest) =
     (if name = if_name \<and> fam = Family_Inet then 4
      else if name = if_name \<and> fam = Family_Inet6 then 6
      else get_net_ip if_name rest)"

definition is_ip_exist :: "'s wpa_os \<Rightarrow> 's wpa_dev \<Rightarrow> int \<times> 's wpa_dev" where
  "is_ip_exist k d = (let (as, d) = on_os (os_ifaddrs k) d in (get_net_ip ''wlan0'' as, d))"

text \<open>The loop that looks once a second, at most thirty times, until there is an address.\<close>

fun udhcpc_wait :: "nat \<Rightarrow> 's wpa_os \<Rightarrow> 's wpa_dev \<Rightarrow> 's wpa_dev" where
  "udhcpc_wait 0 k d = d"
| "udhcpc_wait (Suc n) k d =
     (let (vflag, d) = is_ip_exist k (os_do (os_sleep k 1000000) d)
      in if vflag = 0 then udhcpc_wait n k d else d)"

definition start_udhcpc :: "'s wpa_os \<Rightarrow> 's wpa_dev \<Rightarrow> 's wpa_dev" where
  "start_udhcpc k d =
     udhcpc_wait 30 k (os_do (os_sleep k 1000000) (os_do (os_system k ''udhcpc -b -t 5 -n -i wlan0 >/dev/null'') d))"

abbreviation "DHCP_UPDATE_SECONDS \<equiv> 600 :: int"

text \<open>
  One run of the client and what is reported of it; \<open>keep\<close> is what a success stores. Names are
  copied from an array of the same size.
\<close>

definition run_udhcpc :: "('s wpa_dev \<Rightarrow> 's wpa_dev) \<Rightarrow> 's wpa_os \<Rightarrow> 's wpa_dev \<Rightarrow> 's wpa_dev outcome" where
  "run_udhcpc keep k d =
     (let d = start_udhcpc k d; (ip, d) = is_ip_exist k d
      in if ip = 4 then bind_outcome (wpas_event_notify WIFI_DHCP_SUCCESS d) (\<lambda>d. Returns (keep d))
         else wpas_event_notify WIFI_DHCP_TIMEOUT d)"

definition try_start_udhcpc :: "'s wpa_os \<Rightarrow> 's wpa_dev \<Rightarrow> 's wpa_dev outcome" where
  "try_start_udhcpc k d =
     (let (now_time, d) = on_os (os_time k) d; d = os_do (os_sleep k 1000000) d
      in bind_outcome (wpas_event_notify WIFI_DHCP_START d) (\<lambda>d.
           let (ip, d) = is_ip_exist k d
           in if ip \<noteq> 4 \<or> old_ssid d \<noteq> new_ssid d
              then run_udhcpc (\<lambda>d. d\<lparr>old_ssid := new_ssid d, last_time := now_time\<rparr>) k d
              else if DHCP_UPDATE_SECONDS < now_time - last_time d
              then run_udhcpc (\<lambda>d. d\<lparr>last_time := now_time\<rparr>) k d
              else wpas_event_notify WIFI_DHCP_SUCCESS d))"

section \<open>Commands without parameters\<close>

definition linux_sta_wpa_cmd_disconnect :: "'s wpa_os \<Rightarrow> 's wpa_dev \<Rightarrow> int \<times> 's wpa_dev" where
  "linux_sta_wpa_cmd_disconnect k d =
     (let (ret, _, d) = command_to_supplicant k ''DISCONNECT'' EVENT_BUF_SIZE d in (ret, d))"

definition linux_sta_wpa_cmd_reconnect :: "'s wpa_os \<Rightarrow> 's wpa_dev \<Rightarrow> int \<times> 's wpa_dev" where
  "linux_sta_wpa_cmd_reconnect k d =
     (let (ret, _, d) = command_to_supplicant k ''RECONNECT'' EVENT_BUF_SIZE d in (ret, d))"

definition linux_sta_wpa_cmd_status :: "'s wpa_os \<Rightarrow> 's wpa_dev \<Rightarrow> int \<times> 's wpa_dev" where
  "linux_sta_wpa_cmd_status k d =
     (case command_to_supplicant k ''STATUS'' EVENT_BUF_SIZE d of
        (ret, reply, d) \<Rightarrow>
          if ret \<noteq> 0 then (- 1, d)
          else let s = (case reply of None \<Rightarrow> [] | Some s \<Rightarrow> s)
               in if strstr ''wpa_state=COMPLETED'' s \<noteq> None then (0, d)
                  else if strstr ''wpa_state=DISCONNECTED'' s \<noteq> None then (1, d)
                  else if strstr ''wpa_state=SCANNING'' s \<noteq> None then (2, d)
                  else (- 1, d))"

section \<open>The dispatcher\<close>

text \<open>The name of an event: what is behind the prefix up to a blank, at most 18 characters.\<close>

definition event_name :: "string \<Rightarrow> string option" where
  "event_name event_str = map_option (\<lambda>(name, _). take 18 name) (strchr (CHR '' '') (drop 11 event_str))"

text \<open>The result 1 ends the thread.\<close>

definition dispatch_name :: "'s wpa_os \<Rightarrow> string \<Rightarrow> 's wpa_dev \<Rightarrow> (int \<times> 's wpa_dev) outcome" where
  "dispatch_name k name d =
     (let notify = (\<lambda>e f. bind_outcome (wpas_event_notify e d) f)
      in if name = ''DISCONNECTED''
         then notify WIFI_DISCONNECTED (\<lambda>d.
                Returns (0, if sta_wpa_auto_reconn d then snd (linux_sta_wpa_cmd_reconnect k d) else d))
         else if name = ''SCAN-STARTED'' then notify WIFI_SCAN_STARTED (\<lambda>d. Returns (0, d))
         else if name = ''SCAN-RESULTS'' then notify WIFI_SCAN_RESULTS (\<lambda>d. Returns (0, d))
         else if name = ''SCAN-FAILED'' then notify WIFI_SCAN_FAILED (\<lambda>d. Returns (0, d))
         else if name = ''NETWORK-NOT-FOUND'' then notify WIFI_NETWORK_NOT_FOUND (\<lambda>d. Returns (0, d))
         else if name = ''AUTH-REJECT'' then notify WIFI_AUTH_REJECT (\<lambda>d. Returns (0, d))
         else if name = ''ASSOC-REJECT''
         then notify WIFI_ASSOC_REJECT (\<lambda>d. Returns (0, snd (linux_sta_wpa_cmd_disconnect k d)))
         else if name = ''CONNECTED''
         then notify WIFI_CONNECTED (\<lambda>d. bind_outcome (try_start_udhcpc k d) (\<lambda>d. Returns (0, d)))
         else if name = ''TERMINATING'' then notify WIFI_TERMINATING (\<lambda>d. Returns (1, d))
         else Returns (0, d))"

definition wpas_dispatch_event :: "'s wpa_os \<Rightarrow> string \<Rightarrow> 's wpa_dev \<Rightarrow> (int \<times> 's wpa_dev) outcome" where
  "wpas_dispatch_event k event_str d =
     (if event_str = [] then Returns (0, d)
      else if \<not> starts ''CTRL-EVENT-'' event_str
      then if starts ''WPA:'' event_str \<and> strstr ''pre-shared key may be incorrect'' event_str \<noteq> None
           then bind_outcome (wpas_event_notify WIFI_PASSWORD_INCORRECT (d\<lparr>sta_auth_fail_cnt := sta_auth_fail_cnt d + 1\<rparr>))
                  (\<lambda>d. Returns (0, d))
           else Returns (0, d)
      else (case event_name event_str of
              None \<Rightarrow> Returns (0, d)
            | Some name \<Rightarrow> dispatch_name k name d))"

section \<open>The thread\<close>

text \<open>
  One round of the thread's loop: \<open>Blocks\<close> when it waits, for a message or for room in the pipe.
\<close>

definition wpas_event_round :: "'s wpa_os \<Rightarrow> 's wpa_dev \<Rightarrow> 's wpa_dev outcome" where
  "wpas_event_round k d =
     bind_outcome (wifi_wait_on_socket d) (\<lambda>((nread, buf), d).
       if 0 < nread
       then bind_outcome (wpas_dispatch_event k buf d)
              (\<lambda>(ret, d). Returns (if c_true ret then d\<lparr>threads := threads d - 1\<rparr> else d))
       else Returns d)"

section \<open>What commands and events leave alone\<close>

text \<open>
  A command changes the kernel's side, and after a timeout the exit socket; looking at addresses
  only the kernel's side; a notice the pipe and the list of what the station was told.
\<close>

definition items :: "'s wpa_dev \<Rightarrow> incoming list" where
  "items d = filter (\<lambda>i. i \<noteq> Exit_Signal) (incoming d)"

definition cmd_frame :: "'s wpa_dev \<Rightarrow> 's wpa_dev \<Rightarrow> bool" where
  "cmd_frame d d' \<longleftrightarrow> (\<exists>s inc. d' = d\<lparr>os := s, incoming := inc\<rparr> \<and> items d' = items d)"

lemma cmd_frame_refl: "cmd_frame d d"
  unfolding cmd_frame_def by (rule exI[of _ "os d"], rule exI[of _ "incoming d"]) simp

lemma cmd_frame_trans: "cmd_frame d d1 \<Longrightarrow> cmd_frame d1 d2 \<Longrightarrow> cmd_frame d d2"
  unfolding cmd_frame_def by force

lemma cmd_frame_os: "cmd_frame d (d\<lparr>os := s\<rparr>)"
  unfolding cmd_frame_def by (rule exI[of _ s], rule exI[of _ "incoming d"]) (simp add: items_def)

lemma on_os_frame: "on_os f d = (x, d') \<Longrightarrow> cmd_frame d d'"
  by (auto simp: on_os_def cmd_frame_os split: prod.splits)

lemma on_os_eq: "on_os f d = (x, d') \<Longrightarrow> \<exists>s. d' = d\<lparr>os := s\<rparr>"
  by (auto simp: on_os_def split: prod.splits)

lemma items_exit: "filter (\<lambda>i. i \<noteq> Exit_Signal) (take n l @ Exit_Signal # drop n l) = filter (\<lambda>i. i \<noteq> Exit_Signal) l"
proof -
  have "filter (\<lambda>i. i \<noteq> Exit_Signal) (take n l @ Exit_Signal # drop n l) = filter (\<lambda>i. i \<noteq> Exit_Signal) (take n l @ drop n l)"
    by (simp only: filter_append) simp
  then show ?thesis by simp
qed

lemma send_frame: "wifi_send_command k cmd n d = (r, t, d') \<Longrightarrow> cmd_frame d d'"
proof -
  assume *: "wifi_send_command k cmd n d = (r, t, d')"
  show ?thesis
  proof (cases "ctrl_conn d")
    case False
    then show ?thesis using * cmd_frame_refl by (auto simp: wifi_send_command_def)
  next
    case True
    obtain ret reply d1 where d1: "on_os (os_request k cmd) d = ((ret, reply), d1)" by (metis surj_pair)
    obtain p d2 where d2: "on_os (os_pending k) d1 = (p, d2)" by fastforce
    have f1: "cmd_frame d d1" by (rule on_os_frame[OF d1])
    have f2: "cmd_frame d1 d2" by (rule on_os_frame[OF d2])
    have f3: "cmd_frame d2 (d2\<lparr>incoming := take p (incoming d2) @ Exit_Signal # drop p (incoming d2)\<rparr>)"
      unfolding cmd_frame_def by (rule exI[of _ "os d2"]) (auto simp: items_def items_exit simp del: filter_append)
    show ?thesis
      using * True d1 d2 f1 cmd_frame_trans[OF f1 cmd_frame_trans[OF f2 f3]]
      by (auto simp: wifi_send_command_def Let_def split: if_splits)
  qed
qed

lemma command_frame: "command_to_supplicant k cmd n d = (r, t, d') \<Longrightarrow> cmd_frame d d'"
  using send_frame cmd_frame_refl by (fastforce simp: command_to_supplicant_def Let_def split: if_splits prod.splits)

lemma ip_frame: "is_ip_exist k d = (r, d') \<Longrightarrow> \<exists>s. d' = d\<lparr>os := s\<rparr>"
  by (auto simp: is_ip_exist_def on_os_def split: prod.splits)

lemma udhcpc_wait_frame: "\<exists>s. udhcpc_wait n k d = d\<lparr>os := s\<rparr>"
proof (induction n arbitrary: d)
  case 0
  show ?case by (rule exI[of _ "os d"]) simp
next
  case (Suc n)
  obtain v d1 where v: "is_ip_exist k (os_do (os_sleep k 1000000) d) = (v, d1)" by fastforce
  then obtain s where s: "d1 = d\<lparr>os := s\<rparr>" using ip_frame by (fastforce simp: os_do_def)
  obtain s' where "udhcpc_wait n k d1 = d1\<lparr>os := s'\<rparr>" using Suc by blast
  then show ?case using v s by (cases "v = 0") auto
qed

lemma start_udhcpc_frame: "\<exists>s. start_udhcpc k d = d\<lparr>os := s\<rparr>"
  using udhcpc_wait_frame[of 30 k "os_do (os_sleep k 1000000) (os_do (os_system k ''udhcpc -b -t 5 -n -i wlan0 >/dev/null'') d)"]
  by (auto simp: start_udhcpc_def os_do_def)

text \<open>A notice that went through.\<close>

lemma notify_Returns:
  "wpas_event_notify e d = Returns d' \<longleftrightarrow>
     (\<exists>h h' n. sta_event_handle d = Some h \<and> evt_send (sta_event_num e) h = Returns (n, h') \<and>
        d' = d\<lparr>sta_event_handle := Some h', notified := notified d @ (if sta_wpa_event_cb d then [e] else [])\<rparr>)"
proof (cases "sta_event_handle d")
  case (Some h)
  then show ?thesis
    by (cases "evt_send (sta_event_num e) h")
      (auto simp: wpas_event_notify_def wpas_event_notify_to_sta_dev_def upd_events_def)
qed (simp add: wpas_event_notify_def)

text \<open>What every step of the dispatcher keeps: the items to come and the number of threads.\<close>

definition link_frame :: "'s wpa_dev \<Rightarrow> 's wpa_dev \<Rightarrow> bool" where
  "link_frame d d' \<longleftrightarrow> items d' = items d \<and> threads d' = threads d"

lemma link_frame_refl [simp]: "link_frame d d"
  by (simp add: link_frame_def)

lemma link_frame_trans: "link_frame d d1 \<Longrightarrow> link_frame d1 d2 \<Longrightarrow> link_frame d d2"
  by (simp add: link_frame_def)

lemma link_frame_cmd: "cmd_frame d d' \<Longrightarrow> link_frame d d'"
  by (auto simp: cmd_frame_def link_frame_def)

lemma link_frame_os [simp]: "link_frame d (d\<lparr>os := s\<rparr>)"
  by (simp add: link_frame_def items_def)

lemma notify_link: "wpas_event_notify e d = Returns d' \<Longrightarrow> link_frame d d'"
  by (auto simp: notify_Returns link_frame_def items_def)

lemma bind_Returns: "bind_outcome m f = Returns y \<longleftrightarrow> (\<exists>x. m = Returns x \<and> f x = Returns y)"
  by (cases m) auto

lemma run_udhcpc_link:
  assumes "\<And>d. link_frame d (keep d)" "run_udhcpc keep k d = Returns d'"
  shows "link_frame d d'"
proof -
  obtain s1 where s1: "start_udhcpc k d = d\<lparr>os := s1\<rparr>" using start_udhcpc_frame[of k d] by auto
  obtain ip d2 where ip: "is_ip_exist k (d\<lparr>os := s1\<rparr>) = (ip, d2)" by fastforce
  then obtain s2 where s2: "d2 = d\<lparr>os := s2\<rparr>" using ip_frame[OF ip] by auto
  have "\<exists>d3. (wpas_event_notify WIFI_DHCP_SUCCESS d2 = Returns d3 \<and> d' = keep d3) \<or> wpas_event_notify WIFI_DHCP_TIMEOUT d2 = Returns d'"
    using assms(2) s1 ip by (auto simp: run_udhcpc_def bind_Returns split: if_splits)
  then show ?thesis
    using assms(1) notify_link s2 by (metis link_frame_os link_frame_trans)
qed

lemma try_start_udhcpc_link: "try_start_udhcpc k d = Returns d' \<Longrightarrow> link_frame d d'"
proof -
  assume *: "try_start_udhcpc k d = Returns d'"
  obtain now d1 where t: "on_os (os_time k) d = (now, d1)" by fastforce
  then obtain s1 where s1: "d1 = d\<lparr>os := s1\<rparr>" using on_os_eq[OF t] by auto
  let ?d = "os_do (os_sleep k 1000000) d1"
  obtain d2 where d2: "wpas_event_notify WIFI_DHCP_START ?d = Returns d2"
    using * t by (auto simp: try_start_udhcpc_def bind_Returns)
  obtain ip d3 where ip: "is_ip_exist k d2 = (ip, d3)" by fastforce
  have f: "link_frame d d3"
    using s1 notify_link[OF d2] ip_frame[OF ip] by (auto simp: os_do_def link_frame_def items_def)
  consider keep where "run_udhcpc keep k d3 = Returns d'" "\<And>d. link_frame d (keep d)"
    | "wpas_event_notify WIFI_DHCP_SUCCESS d3 = Returns d'"
  proof -
    have "run_udhcpc (\<lambda>d. d\<lparr>old_ssid := new_ssid d, last_time := now\<rparr>) k d3 = Returns d' \<or>
        run_udhcpc (\<lambda>d. d\<lparr>last_time := now\<rparr>) k d3 = Returns d' \<or> wpas_event_notify WIFI_DHCP_SUCCESS d3 = Returns d'"
      using * t d2 ip by (simp add: try_start_udhcpc_def split: if_splits)
    moreover have "link_frame d (d\<lparr>old_ssid := new_ssid d, last_time := now\<rparr>)" "link_frame d (d\<lparr>last_time := now\<rparr>)" for d :: "'a wpa_dev"
      by (simp_all add: link_frame_def items_def)
    ultimately show ?thesis using that by auto
  qed
  then have "link_frame d3 d'" by cases (auto intro: notify_link run_udhcpc_link)
  then show ?thesis using f link_frame_trans by blast
qed

lemma reconnect_link [simp]: "link_frame d (snd (linux_sta_wpa_cmd_reconnect k d))"
  using command_frame link_frame_cmd by (fastforce simp: linux_sta_wpa_cmd_reconnect_def split: prod.splits)

lemma disconnect_link [simp]: "link_frame d (snd (linux_sta_wpa_cmd_disconnect k d))"
  using command_frame link_frame_cmd by (fastforce simp: linux_sta_wpa_cmd_disconnect_def split: prod.splits)

lemma notify_then:
  assumes "bind_outcome (wpas_event_notify e d) f = Returns (r, d')" "\<And>d1. f d1 = Returns (r, d') \<Longrightarrow> link_frame d1 d' \<and> P r"
  shows "link_frame d d' \<and> P r"
  using assms notify_link link_frame_trans unfolding bind_Returns by blast

lemma dispatch_name_link:
  assumes "dispatch_name k name d = Returns (r, d')"
  shows "link_frame d d' \<and> r = (if name = ''TERMINATING'' then 1 else 0)"
  using assms unfolding dispatch_name_def Let_def bind_Returns
  by (auto simp: bind_Returns split: if_split_asm intro: link_frame_trans[OF notify_link] try_start_udhcpc_link)

lemma dispatch_link:
  assumes "wpas_dispatch_event k s d = Returns (r, d')"
  shows "link_frame d d' \<and> (r = 1 \<longrightarrow> event_name s = Some ''TERMINATING'') \<and> (r = 0 \<or> r = 1)"
proof -
  consider "r = 0" "d' = d" | d1 where "wpas_event_notify WIFI_PASSWORD_INCORRECT (d\<lparr>sta_auth_fail_cnt := sta_auth_fail_cnt d + 1\<rparr>) = Returns d1" "r = 0" "d' = d1"
    | name where "event_name s = Some name" "dispatch_name k name d = Returns (r, d')"
    using assms by (auto simp: wpas_dispatch_event_def bind_Returns split: if_splits option.splits)
  then show ?thesis
  proof cases
    case 2
    then show ?thesis using notify_link[OF 2(1)] by (simp add: link_frame_def items_def)
  next
    case 3
    then show ?thesis using dispatch_name_link[OF 3(2)] by auto
  qed simp
qed

end
