(* ===== verification/Wpa_Wait.thy ===== *)
theory Wpa_Wait
  imports Wpa_Events
begin

text \<open>
  Waiting for an event: a call of the station reads the pipe while the listening thread handles
  the messages that arrive. Both loops that wait, of \<open>linux_supplicant_connect_to_ap\<close> and of
  \<open>wpa_get_scan_results\<close>, end for every finite list of messages, since each round takes a message,
  takes an event, or counts. The lists are finite, so the model says nothing of messages that never
  end: there the loop that waits for a connection need not end either, which \<open>Wpa_Loop\<close> shows.
\<close>

section \<open>A round of the thread\<close>

lemma dispatch_terminating:
  assumes "wpas_dispatch_event k (WPA_EVENT_TERMINATING @ s) d = Returns (r, d')"
  shows "r = 1"
proof -
  have "event_name (WPA_EVENT_TERMINATING @ s) = Some ''TERMINATING''"
    by (simp add: event_name_def strchr_def)
  then have "dispatch_name k ''TERMINATING'' d = Returns (r, d')"
    using assms by (simp add: wpas_dispatch_event_def starts_def)
  then show ?thesis using dispatch_name_link by fastforce
qed

lemma dispatch_fabricated:
  assumes "(n, b) = fabricated s" "wpas_dispatch_event k b d = Returns (r, d')"
  shows "r = 1"
proof -
  have b: "b = WPA_EVENT_TERMINATING @ s" using assms(1) by (simp only: fabricated_def prod.inject)
  show ?thesis by (rule dispatch_terminating[OF assms(2)[unfolded b]])
qed

text \<open>Each round ends a thread or takes an item; there are never more threads.\<close>

lemma round_progress:
  assumes "wpas_event_round k d = Returns d'" "0 < threads d"
  shows "threads d' < threads d \<or> threads d' = threads d \<and> length (items d') < length (items d)"
proof -
  obtain nread buf d1 where w: "wifi_wait_on_socket d = Returns ((nread, buf), d1)"
    and r: "(if 0 < nread then bind_outcome (wpas_dispatch_event k buf d1)
              (\<lambda>(ret, d). Returns (if c_true ret then d\<lparr>threads := threads d - 1\<rparr> else d)) else Returns d1) = Returns d'"
    using assms(1) unfolding wpas_event_round_def bind_Returns by auto
  have t1: "threads d1 = threads d" using w by (auto simp: wifi_wait_on_socket_def Let_def split: if_splits list.splits prod.splits option.splits)
  have cases: "(\<exists>s. (nread, buf) = fabricated s) \<or> length (items d1) < length (items d)"
  proof (cases "monitor_conn d")
    case True
    show ?thesis
    proof (cases "dropWhile (\<lambda>i. i = Quiet) (incoming d)")
      case Nil
      show ?thesis using w True unfolding wifi_wait_on_socket_def Nil by simp
    next
      case (Cons item rest)
      have le: "length (filter (\<lambda>i. i \<noteq> Exit_Signal) (item # rest)) \<le> length (items d)"
        by (metis Cons filter_append items_def le_add2 length_append takeWhile_dropWhile_id)
      show ?thesis
      proof (cases item)
        case Exit_Signal
        then show ?thesis using w True Cons by (auto simp: wifi_wait_on_socket_def intro: sym)
      next
        case (Message m)
        then show ?thesis using w True Cons le
          by (auto simp: wifi_wait_on_socket_def items_def Let_def split: if_splits option.splits)
      qed (use w True Cons le in \<open>auto simp: wifi_wait_on_socket_def items_def\<close>)
    qed
  qed (use w in \<open>auto simp: wifi_wait_on_socket_def intro: sym\<close>)
  show ?thesis
  proof (cases "0 < nread")
    case False
    have "\<not> (\<exists>s. (nread, buf) = fabricated s)" using False by (auto simp: fabricated_def)
    then show ?thesis using cases t1 r False by auto
  next
    case True
    then obtain ret d2 where d2: "wpas_dispatch_event k buf d1 = Returns (ret, d2)"
      "d' = (if c_true ret then d2\<lparr>threads := threads d2 - 1\<rparr> else d2)"
      using r unfolding if_P[OF True] bind_Returns by auto
    have f: "link_frame d1 d2" "ret = 0 \<or> ret = 1" using dispatch_link[OF d2(1)] by auto
    show ?thesis
    proof (cases "c_true ret")
      case True
      then show ?thesis using d2 f t1 assms(2) by (auto simp: link_frame_def)
    next
      case False
      then have "\<not> (\<exists>s. (nread, buf) = fabricated s)"
        using dispatch_fabricated[OF _ d2(1)] by (auto simp: c_true_def)
      then show ?thesis using cases d2 f t1 False by (auto simp: link_frame_def)
    qed
  qed
qed

section \<open>Reading an event\<close>

text \<open>
  \<open>evt_read\<close> with what happens while it waits: with nothing in the pipe and a thread listening,
  the next items are handled until there is an event, or nothing comes for 70 s.
\<close>

function evt_await :: "'s wpa_os \<Rightarrow> 's wpa_dev \<Rightarrow> (int \<times> int option \<times> 's wpa_dev) outcome" where
  "evt_await k d =
     (case sta_event_handle d of
        None \<Rightarrow> Crash
      | Some h \<Rightarrow>
          if evt_socket_enable h \<and> evt_bytes h = [] \<and> 0 < threads d \<and> (monitor_conn d \<longrightarrow> incoming d \<noteq> [])
          then (if monitor_conn d \<and> hd (incoming d) = Quiet
                then Returns (0, None, d\<lparr>incoming := tl (incoming d)\<rparr>)
                else (case wpas_event_round k d of
                        Returns d \<Rightarrow> evt_await k d
                      | Blocks \<Rightarrow> Blocks
                      | Crash \<Rightarrow> Crash))
          else (case evt_read h of (ret, ev, h) \<Rightarrow> Returns (ret, ev, d\<lparr>sta_event_handle := Some h\<rparr>)))"
  by pat_completeness auto
termination
  by (relation "measures [\<lambda>(k, d). threads d, \<lambda>(k, d). length (items d)]") (auto dest: round_progress)

declare evt_await.simps [simp del]

text \<open>The bytes that wait in the pipe.\<close>

definition in_pipe :: "'s wpa_dev \<Rightarrow> nat" where
  "in_pipe d = (case sta_event_handle d of None \<Rightarrow> 0 | Some h \<Rightarrow> length (evt_bytes h))"

lemma await_progress:
  assumes "evt_await k d = Returns (r, ev, d')"
  shows "threads d' < threads d \<or> threads d' = threads d \<and>
    (length (items d') < length (items d) \<or>
     length (items d') = length (items d) \<and> in_pipe d' \<le> in_pipe d \<and> (0 < r \<longrightarrow> in_pipe d' < in_pipe d))"
  using assms
proof (induction k d rule: evt_await.induct)
  case (1 k d)
  obtain h where h: "sta_event_handle d = Some h"
    using 1(2) by (cases "sta_event_handle d") (simp_all add: evt_await.simps)
  show ?case
  proof (cases "evt_socket_enable h \<and> evt_bytes h = [] \<and> 0 < threads d \<and> (monitor_conn d \<longrightarrow> incoming d \<noteq> [])")
    case waiting: True
    show ?thesis
    proof (cases "monitor_conn d \<and> hd (incoming d) = Quiet")
      case True
      then have d': "d' = d\<lparr>incoming := tl (incoming d)\<rparr>" using 1(2) h waiting by (subst (asm) evt_await.simps) simp
      obtain rest where "incoming d = Quiet # rest" using True waiting by (cases "incoming d") auto
      then show ?thesis using d' by (simp add: items_def)
    next
      case False
      then obtain d1 where d1: "wpas_event_round k d = Returns d1" "evt_await k d1 = Returns (r, ev, d')"
        using 1(2) h waiting by (subst (asm) evt_await.simps) (auto split: outcome.splits)
      then show ?thesis using 1(1)[OF h waiting False d1] round_progress[OF d1(1)] waiting by auto
    qed
  next
    case False
    then obtain h' where h': "evt_read h = (r, ev, h')" "d' = d\<lparr>sta_event_handle := Some h'\<rparr>"
      using 1(2) h by (subst (asm) evt_await.simps) (auto split: prod.splits)
    then show ?thesis using h by (auto simp: evt_read_def in_pipe_def items_def split: if_splits list.splits)
  qed
qed

section \<open>Waiting for a connection\<close>

abbreviation "EVENT_TRY_MAX \<equiv> 5 :: nat"

text \<open>
  The loop of \<open>linux_supplicant_connect_to_ap\<close> with \<open>try_cnt\<close> and \<open>ret\<close>: events on the way to a
  connection and a network that is not found are not counted.
\<close>

function connect_wait :: "'s wpa_os \<Rightarrow> nat \<Rightarrow> int \<Rightarrow> 's wpa_dev \<Rightarrow> (int \<times> 's wpa_dev) outcome" where
  "connect_wait k try_cnt ret d =
     (if EVENT_TRY_MAX \<le> try_cnt then Returns (ret, d)
      else (case evt_await k d of
              Blocks \<Rightarrow> Blocks
            | Crash \<Rightarrow> Crash
            | Returns (r, ev, d) \<Rightarrow>
                if 0 < r
                then (if ev = Some (sta_event_num WIFI_CONNECTED) \<or> ev = Some (sta_event_num WIFI_DHCP_START)
                      then connect_wait k try_cnt WMG_STATUS_NOT_READY d
                      else if ev = Some (sta_event_num WIFI_DHCP_TIMEOUT) then Returns (WMG_STATUS_FAIL, d)
                      else if ev = Some (sta_event_num WIFI_DHCP_SUCCESS) then Returns (WMG_STATUS_SUCCESS, d)
                      else if ev = Some (sta_event_num WIFI_PASSWORD_INCORRECT)
                      then Returns (ret, d\<lparr>sta_auth_fail_cnt := sta_auth_fail_cnt d + 1\<rparr>)
                      else if ev = Some (sta_event_num WIFI_NETWORK_NOT_FOUND)
                      then connect_wait k try_cnt ret (d\<lparr>sta_net_not_found_cnt := sta_net_not_found_cnt d + 1\<rparr>)
                      else if ev = Some (sta_event_num WIFI_ASSOC_REJECT)
                      then Returns (ret, d\<lparr>sta_assoc_reject_cnt := sta_assoc_reject_cnt d + 1\<rparr>)
                      else connect_wait k (Suc try_cnt) ret d)
                else connect_wait k (Suc try_cnt) ret d))"
  by pat_completeness auto

termination
proof (relation "measures [\<lambda>(k, t, q, d). threads d, \<lambda>(k, t, q, d). length (items d),
     \<lambda>(k, t, q, d). in_pipe d, \<lambda>(k, t, q, d). EVENT_TRY_MAX - t]")
qed (auto dest!: await_progress simp: items_def in_pipe_def)

declare connect_wait.simps [simp del]

section \<open>Waiting for a scan\<close>

abbreviation "SCAN_TRY_MAX \<equiv> 5 :: nat"

text \<open>
  The loop of \<open>wpa_get_scan_results\<close>: the scan failed for good, is to be started again with a new
  count, or its results can be fetched. \<open>event\<close> is the last event that was read.
\<close>

datatype scan_end = Scan_Failed | Scan_Again nat int | Scan_Done

function scan_wait :: "'s wpa_os \<Rightarrow> nat \<Rightarrow> int \<Rightarrow> 's wpa_dev \<Rightarrow> (scan_end \<times> 's wpa_dev) outcome" where
  "scan_wait k try_cnt event d =
     (if SCAN_TRY_MAX \<le> try_cnt
      then Returns (if event \<noteq> sta_event_num WIFI_SCAN_RESULTS then Scan_Failed else Scan_Done, d)
      else (case evt_await k d of
              Blocks \<Rightarrow> Blocks
            | Crash \<Rightarrow> Crash
            | Returns (r, ev, d) \<Rightarrow>
                if 0 < r
                then (if ev = Some (sta_event_num WIFI_SCAN_RESULTS) then Returns (Scan_Done, d)
                      else if ev = Some (sta_event_num WIFI_SCAN_FAILED)
                      then Returns (if 2 \<le> try_cnt then Scan_Failed
                                    else Scan_Again (Suc try_cnt) (sta_event_num WIFI_SCAN_FAILED), d)
                      else scan_wait k (Suc try_cnt) (case ev of None \<Rightarrow> event | Some e \<Rightarrow> e) d)
                else scan_wait k (Suc try_cnt) event d))"
  by pat_completeness auto
termination
  by (relation "measure (\<lambda>(k, t, e, d). SCAN_TRY_MAX - t)") auto

declare scan_wait.simps [simp del]

lemma scan_wait_again:
  "scan_wait k try_cnt event d = Returns (Scan_Again n e, d') \<Longrightarrow> try_cnt < n \<and> n \<le> 2"
proof (induction k try_cnt event d rule: scan_wait.induct)
  case (1 k try_cnt event d)
  show ?case
  proof (cases "SCAN_TRY_MAX \<le> try_cnt")
    case True
    then show ?thesis using 1(3) by (subst (asm) scan_wait.simps) (auto split: if_splits)
  next
    case False
    then obtain r ev d1 where a: "evt_await k d = Returns (r, ev, d1)"
      using 1(3) by (subst (asm) scan_wait.simps) (auto split: outcome.splits)
    note ih = 1(1)[OF False a refl refl] 1(2)[OF False a refl refl]
    show ?thesis
      using 1(3) False a ih by (subst (asm) scan_wait.simps) (auto split: if_splits)
  qed
qed

end
