(* ===== verification/Wpa_Conf.thy ===== *)
theory Wpa_Conf
  imports Wpa_Ctrl
begin

text \<open>
  The station's platform, part two: what \<open>linux_wpa.c\<close> reads out of the supplicant's list of saved
  networks. The list is a header of 34 bytes and a line for each network with its number, name,
  address and flags separated by tabs. Searches and tokens follow the code: a string that is
  searched from a position is the suffix there.
\<close>

section \<open>Looking for a network\<close>

definition list_networks ::
    "'s wpa_os \<Rightarrow> 's wpa_dev \<Rightarrow> int \<times> string \<times> 's wpa_dev" where
  "list_networks k d =
     (let (ret, reply, d) = command_to_supplicant k ''LIST_NETWORKS'' REPLY_BUF_SIZE d
      in (ret, (case reply of None \<Rightarrow> [] | Some r \<Rightarrow> r), d))"

definition key_type_of :: "wifi_secure \<Rightarrow> string" where
  "key_type_of sec = (if sec = WIFI_SEC_WPA_PSK \<or> sec = WIFI_SEC_WPA2_PSK then ''WPA-PSK'' else ''NONE'')"

text \<open>What is behind the last newline, \<open>None\<close> without one (the code would use NULL).\<close>

definition last_line :: "string \<Rightarrow> string option" where
  "last_line s = (if NL \<in> set s then Some (rev (takeWhile (\<lambda>c. c \<noteq> NL) (rev s))) else None)"

text \<open>
  The loop of \<open>wpa_conf_is_ap_exist\<close>, from the position \<open>ptr\<close>: it ends with the flag and the
  buffer of the network's number; \<open>Crash\<close> is undefined behaviour. A name that begins with a
  newline is found again where the search goes on, so that the loop need not end: then there is
  no value.
\<close>

partial_function (option) exist_loop ::
    "'s wpa_os \<Rightarrow> string \<Rightarrow> string \<Rightarrow> nat \<Rightarrow> string \<Rightarrow> int \<Rightarrow> string \<Rightarrow> 's wpa_dev
      \<Rightarrow> (int \<times> string \<times> 's wpa_dev) outcome option" where
  "exist_loop k ssid key_type len net_id flag ptr d =
     (case strstr ssid ptr of
        None \<Rightarrow> Some (Returns (flag, net_id, d))
      | Some (before, start) \<Rightarrow>
          if \<not> starts [TAB] (drop (length ssid) start)
          then (case strchr NL start of
                  None \<Rightarrow> Some (Returns (flag, net_id, d))
                | Some (_, rest) \<Rightarrow> exist_loop k ssid key_type len net_id flag (NL # rest) d)
          else (case last_line before of
                  None \<Rightarrow> Some Crash
                | Some line_start \<Rightarrow>
                    let line = line_start @ takeWhile (\<lambda>c. c \<noteq> NL) start;
                        flag = (if strstr ''CURRENT'' line \<noteq> None then 2 else 0);
                        net_id = (case strtok [TAB] line of None \<Rightarrow> net_id | Some (p, _) \<Rightarrow> take (len - 1) p)
                    in (case fits (CMD_LEN + 1) (''GET_NETWORK '' @ net_id @ '' key_mgmt'') of
                          None \<Rightarrow> Some Crash
                        | Some cmd \<Rightarrow>
                            let (ret, key_reply, d) = command_to_supplicant k cmd 128 d
                            in if ret \<noteq> 0 then Some (Returns (- 1, net_id, d))
                               else if key_reply = Some key_type then Some (Returns (flag + 1, net_id, d))
                               else (case strchr NL start of
                                       None \<Rightarrow> Some (Returns (flag, net_id, d))
                                     | Some (_, rest) \<Rightarrow> exist_loop k ssid key_type len net_id flag (NL # rest) d))))"

text \<open>The flag, the number of the network, and the state; \<open>Blocks\<close>: it searches for ever.\<close>

definition wpa_conf_is_ap_exist ::
    "'s wpa_os \<Rightarrow> string \<Rightarrow> wifi_secure \<Rightarrow> nat \<Rightarrow> 's wpa_dev \<Rightarrow> (int \<times> string \<times> 's wpa_dev) outcome" where
  "wpa_conf_is_ap_exist k ssid key_mgmt len d =
     (if ssid = [] then Returns (- 1, [], d)
      else let (ret, reply, d) = list_networks k d
           in if ret \<noteq> 0 then Returns (- 1, [], d)
              else (case exist_loop k ssid (key_type_of key_mgmt) len [] 0 reply d of
                      None \<Rightarrow> Blocks
                    | Some r \<Rightarrow> r))"

section \<open>From a name to a number\<close>

text \<open>A further \<open>strtok(NULL, \<dots>)\<close>: behind the last token there is none.\<close>

definition next_tok :: "string \<Rightarrow> string \<Rightarrow> string option \<times> string" where
  "next_tok d s = (case strtok d s of None \<Rightarrow> (None, []) | Some (t, r) \<Rightarrow> (Some t, r))"

text \<open>The delimiters the code writes as \<open>"'\n''\t'"\<close>: the quotes are among them.\<close>

abbreviation "delim_both \<equiv> [CHR 0x27, NL, TAB]"
abbreviation "delim_entry \<equiv> [CHR 0x27, NL]"
abbreviation "delim_item \<equiv> [CHR 0x27, TAB]"

lemma next_tok_le: "length (snd (next_tok d s)) \<le> length s"
  using strtok_shorter[of d s] by (auto simp: next_tok_def split: option.splits)

lemma next_tok_less: "next_tok d s = (Some t, r) \<Longrightarrow> length r < length s"
  using strtok_shorter[of d s] by (auto simp: next_tok_def split: option.splits)

text \<open>
  The loop of \<open>wpa_conf_ssid2netid\<close>, from the text behind the header: the number of the first
  entry whose name is \<open>ssid\<close>, \<open>Some None\<close> when there is none; \<open>None\<close>: a name is missing (the code
  compares with NULL) or a number is no int.
\<close>

function ssid_loop :: "string \<Rightarrow> string \<Rightarrow> int option option" where
  "ssid_loop ssid s =
     (case next_tok delim_both s of
        (None, _) \<Rightarrow> Some None
      | (Some pch, s1) \<Rightarrow>
          do {
            id \<leftarrow> atoi_str pch;
            (name, s2) \<leftarrow> strtok delim_both s1;
            if name = ssid then Some (Some id)
            else ssid_loop ssid (snd (next_tok delim_both (snd (next_tok delim_both s2))))
          })"
  by pat_completeness auto
termination
  by (relation "measure (\<lambda>(_, s). length s)")
    (auto dest!: next_tok_less[OF sym] strtok_shorter intro!: le_less_trans[OF next_tok_le])

declare ssid_loop.simps [simp del]

definition wpa_conf_ssid2netid :: "'s wpa_os \<Rightarrow> string \<Rightarrow> 's wpa_dev \<Rightarrow> (int option \<times> 's wpa_dev) option" where
  "wpa_conf_ssid2netid k ssid d =
     (let (ret, reply, d) = list_networks k d
      in if ret \<noteq> 0 \<or> length reply < 34 then Some (None, d)
         else map_option (\<lambda>id. (id, d)) (ssid_loop ssid (drop 34 reply)))"

section \<open>Removing networks\<close>

text \<open>
  A reply buffer of fixed size, with the NUL of each string stored in it. A token is taken from
  the position \<open>p\<close>; a string without a NUL is \<open>None\<close>.
\<close>

definition put_reply :: "string \<Rightarrow> string \<Rightarrow> string" where
  "put_reply b r = take (length b) (r @ [CHR 0x00] @ drop (Suc (length r)) b)"

definition buf_tok :: "string \<Rightarrow> string \<Rightarrow> nat \<Rightarrow> (string option \<times> nat) option" where
  "buf_tok ds b p =
     map_option (\<lambda>s. (fst (next_tok ds s), p + (length s - length (snd (next_tok ds s))))) (c_str (drop p b))"

lemma length_put_reply: "length (put_reply b r) = length b"
  by (simp add: put_reply_def)

lemma c_str_length: "c_str b = Some s \<Longrightarrow> length s < length b"
proof -
  assume *: "c_str b = Some s"
  then have s: "s = takeWhile (\<lambda>c. c \<noteq> CHR 0x00) b" and "CHR 0x00 \<in> set b"
    by (auto simp: c_str_def split: if_splits)
  then have "dropWhile (\<lambda>c. c \<noteq> CHR 0x00) b \<noteq> []" by (auto simp: dropWhile_eq_Nil_conv)
  moreover have "length b = length s + length (dropWhile (\<lambda>c. c \<noteq> CHR 0x00) b)"
    by (metis length_append s takeWhile_dropWhile_id)
  ultimately show ?thesis by simp
qed

lemma buf_tok_moves:
  assumes "buf_tok ds b p = Some (t, q)"
  shows "p \<le> q \<and> q < length b \<and> (t \<noteq> None \<longrightarrow> p < q)"
proof -
  obtain s where s: "c_str (drop p b) = Some s" and q: "t = fst (next_tok ds s)" "q = p + (length s - length (snd (next_tok ds s)))"
    using assms by (auto simp: buf_tok_def)
  have "length s < length b - p" using c_str_length[OF s] by simp
  then show ?thesis
    using q next_tok_less[of ds s _ "snd (next_tok ds s)"] by (cases "next_tok ds s") auto
qed

text \<open>
  The loop that removes every network: the reply to each command goes to the buffer whose tokens
  are still being read. \<open>t\<close> is the token in hand, \<open>p\<close> where the next one is looked for.
\<close>

function remove_loop :: "'s wpa_os \<Rightarrow> string option \<Rightarrow> nat \<Rightarrow> string \<Rightarrow> 's wpa_dev \<Rightarrow> (int \<times> 's wpa_dev) option" where
  "remove_loop k t p b d =
     (case t of
        None \<Rightarrow> Some (0, d)
      | Some pch \<Rightarrow>
          (case fits (CMD_LEN + 1) (''REMOVE_NETWORK '' @ pch) of
             None \<Rightarrow> None
           | Some cmd \<Rightarrow>
               (case command_to_supplicant k cmd REPLY_BUF_SIZE d of
                  (ret, reply, d) \<Rightarrow>
                    if ret \<noteq> 0 then Some (- 1, d)
                    else (case buf_tok delim_both (put_reply b (the reply)) p of
                            None \<Rightarrow> None
                          | Some (_, p1) \<Rightarrow>
                              (case buf_tok delim_both (put_reply b (the reply)) p1 of
                                 None \<Rightarrow> None
                               | Some (_, p2) \<Rightarrow>
                                   (case buf_tok delim_both (put_reply b (the reply)) p2 of
                                      None \<Rightarrow> None
                                    | Some (_, p3) \<Rightarrow>
                                        (case buf_tok delim_both (put_reply b (the reply)) p3 of
                                           None \<Rightarrow> None
                                         | Some (t, p4) \<Rightarrow> remove_loop k t p4 (put_reply b (the reply)) d)))))))"
  by pat_completeness auto
termination
proof (relation "measure (\<lambda>(_, t, p, b, _). Suc (length b) - p + (if t = None then 0 else 1))")
qed (auto simp: length_put_reply dest!: buf_tok_moves)

declare remove_loop.simps [simp del]

definition linux_supplicant_remove_networks :: "'s wpa_os \<Rightarrow> string option \<Rightarrow> 's wpa_dev \<Rightarrow> (int \<times> 's wpa_dev) option" where
  "linux_supplicant_remove_networks k ssid d =
     do {
       (ret, d) \<leftarrow> (case ssid of
          Some ssid \<Rightarrow>
            do {
              (id, d) \<leftarrow> wpa_conf_ssid2netid k ssid d;
              case id of
                None \<Rightarrow> Some (- 1, d)
              | Some net_id \<Rightarrow>
                  let (ret, _, d) = command_to_supplicant k (''REMOVE_NETWORK '' @ dec_int net_id) REPLY_BUF_SIZE d
                  in Some (if ret \<noteq> 0 then - 1 else 0, d)
            }
        | None \<Rightarrow>
            let (ret, reply, d) = list_networks k d
            in if ret \<noteq> 0 then Some (ret, d)
               else if length reply < 34 then Some (- 1, d)
               else let b = put_reply (replicate REPLY_BUF_SIZE (CHR 0x00)) reply
                    in do {
                      (t, p) \<leftarrow> buf_tok delim_both b 34;
                      remove_loop k t p b d
                    });
       if ret \<noteq> 0 then Some (ret, d)
       else let (ret, _, d) = command_to_supplicant k ''SAVE_CONFIG'' REPLY_BUF_SIZE d
            in Some (if ret \<noteq> 0 then - 1 else 0, d)
     }"

section \<open>Listing networks\<close>

abbreviation "LIST_ENTRY_NUME_MAX \<equiv> 64 :: nat"

record wifi_sta_list_nod =
  nod_id :: int
  nod_ssid :: string
  nod_bssid :: string
  nod_flags :: string

record wifi_sta_list =
  list_nod :: "wifi_sta_list_nod list"
  list_num :: int
  sys_list_num :: int

text \<open>At most \<open>n\<close> entries of the text, which the code keeps as pointers.\<close>

fun list_entries :: "nat \<Rightarrow> string \<Rightarrow> string list" where
  "list_entries 0 s = []"
| "list_entries (Suc n) s = (case strtok delim_entry s of None \<Rightarrow> [] | Some (t, r) \<Rightarrow> t # list_entries n r)"

text \<open>One entry into its node: fields that are missing keep what the node had, flags become \<open>NULL\<close>.\<close>

definition list_node :: "string \<Rightarrow> wifi_sta_list_nod \<Rightarrow> wifi_sta_list_nod option" where
  "list_node e n =
     (let (t1, s) = next_tok delim_item e;
          (t2, s) = next_tok delim_item s;
          (t3, s) = next_tok delim_item s;
          (t4, _) = next_tok delim_item s
      in do {
        id \<leftarrow> (case t1 of None \<Rightarrow> Some (nod_id n) | Some t \<Rightarrow> atoi_str t);
        ssid \<leftarrow> (case t2 of None \<Rightarrow> Some (nod_ssid n) | Some t \<Rightarrow> fits 64 t);
        bssid \<leftarrow> (case t3 of None \<Rightarrow> Some (nod_bssid n) | Some t \<Rightarrow> fits 48 t);
        flags \<leftarrow> (case t4 of None \<Rightarrow> Some ''NULL'' | Some t \<Rightarrow> fits 16 t);
        Some \<lparr>nod_id = id, nod_ssid = ssid, nod_bssid = bssid, nod_flags = flags\<rparr>
      })"

text \<open>Entries into the caller's nodes; an entry without a node is written behind the array.\<close>

fun list_nodes :: "string list \<Rightarrow> wifi_sta_list_nod list \<Rightarrow> wifi_sta_list_nod list option" where
  "list_nodes [] ns = Some ns"
| "list_nodes (e # es) [] = None"
| "list_nodes (e # es) (n # ns) = Option.bind (list_node e n) (\<lambda>n. map_option ((#) n) (list_nodes es ns))"

text \<open>With all of the 64 pointers in use the loop over them reads the one behind.\<close>

definition linux_supplicant_list_networks ::
    "'s wpa_os \<Rightarrow> wifi_sta_list option \<Rightarrow> 's wpa_dev \<Rightarrow> (int \<times> wifi_sta_list option \<times> 's wpa_dev) option" where
  "linux_supplicant_list_networks k sta_list d =
     (case sta_list of
        None \<Rightarrow> Some (- 1, None, d)
      | Some l \<Rightarrow>
          let list_entry_num = (if int LIST_ENTRY_NUME_MAX < list_num l then LIST_ENTRY_NUME_MAX else nat (list_num l));
              (ret, reply, d) = list_networks k d
          in if ret \<noteq> 0 then Some (ret, Some l, d)
             else if length reply < 34 then Some (0, Some l, d)
             else let es = list_entries list_entry_num (drop 34 reply)
                  in if length es = LIST_ENTRY_NUME_MAX then None
                     else do {
                       ns \<leftarrow> list_nodes es (list_nod l);
                       Some (0, Some (l\<lparr>list_nod := ns, sys_list_num := int (length es)\<rparr>), d)
                     })"

end
