(* ===== verification/Linux_Common.thy ===== *)
theory Linux_Common
  imports Linux_Os Wmg_Types
begin

text \<open>
  \<open>wifi/linux_common.c\<close>: hexadecimal text to bytes, and reading and setting the hardware address of
  an interface; and what \<open>linux_wpa.c\<close> reads out of the supplicant's status.
\<close>

section \<open>Bytes from text\<close>

text \<open>The switch over a character: anything but a digit or a small letter up to f leaves 0.\<close>

definition hex_value :: "char \<Rightarrow> byte" where
  "hex_value c =
     (if is_digit c then of_nat (of_char c - 48)
      else if 97 \<le> (of_char c :: nat) \<and> (of_char c :: nat) \<le> 102 then of_nat (of_char c - 87)
      else 0)"

text \<open>A text of one character is followed by its NUL, which counts as 0.\<close>

definition char2uint8 :: "string \<Rightarrow> byte" where
  "char2uint8 trs =
     (let digit = (\<lambda>i. if i < length trs then hex_value (trs ! i) else 0)
      in push_bit 4 (digit 0) OR digit 1)"

text \<open>The loops that read an address: at most \<open>n\<close> tokens, each read by \<open>f\<close>.\<close>

fun token_bytes :: "(string \<Rightarrow> byte option) \<Rightarrow> string \<Rightarrow> nat \<Rightarrow> string \<Rightarrow> byte list option" where
  "token_bytes f ds 0 s = Some []"
| "token_bytes f ds (Suc n) s =
     (case strtok ds s of
        None \<Rightarrow> Some []
      | Some (t, r) \<Rightarrow> do { b \<leftarrow> f t; bs \<leftarrow> token_bytes f ds n r; Some (b # bs) })"

text \<open>What is stored in an array of which only the first elements are assigned.\<close>

definition overlay :: "'a list \<Rightarrow> 'a list \<Rightarrow> 'a list" where
  "overlay xs old = xs @ drop (length xs) old"

section \<open>The hardware address\<close>

text \<open>The conversion \<open>%02x\<close>, and the text of an address.\<close>

definition hex_char :: "nat \<Rightarrow> char" where
  "hex_char n = (if n < 10 then char_of (48 + n) else char_of (87 + n))"

definition hex_byte :: "byte \<Rightarrow> string" where
  "hex_byte b = [hex_char (unat (drop_bit 4 b)), hex_char (unat (b AND 15))]"

fun colon_text :: "byte list \<Rightarrow> string" where
  "colon_text [] = []"
| "colon_text [b] = hex_byte b"
| "colon_text (b # bs) = hex_byte b @ [CHR '':''] @ colon_text bs"

text \<open>The caller's six bytes and what they are afterwards; a pointer that is NULL is \<open>None\<close>.\<close>

definition linux_common_get_mac ::
    "'s wpa_os \<Rightarrow> string option \<Rightarrow> byte list option \<Rightarrow> 's \<Rightarrow> (int \<times> byte list option \<times> 's) option" where
  "linux_common_get_mac k ifname mac_addr s =
     (case ifname of
        None \<Rightarrow> Some (WMG_STATUS_FAIL, mac_addr, s)
      | Some ifname \<Rightarrow>
          let (ok, s) = os_socket k s
          in if \<not> ok then Some (WMG_STATUS_FAIL, mac_addr, s)
             else let (hw, s) = os_get_hw k (take 15 ifname) s
                  in case hw of
                       None \<Rightarrow> Some (WMG_STATUS_FAIL, mac_addr, s)
                     | Some hw \<Rightarrow>
                         do {
                           text \<leftarrow> fits 32 (colon_text (take 6 hw));
                           bs \<leftarrow> token_bytes (\<lambda>t. Some (char2uint8 t)) '':'' 6 text;
                           old \<leftarrow> mac_addr;
                           if length old < length bs then None
                           else Some (WMG_STATUS_SUCCESS, Some (overlay bs old), s)
                         })"

text \<open>
  Down, set, up; only the first socket is checked, requests on one that could not be made fail. The
  name is copied without a bound the second time.
\<close>

definition if_request :: "'s wpa_os \<Rightarrow> ('s \<Rightarrow> bool \<times> 's) \<Rightarrow> 's \<Rightarrow> bool \<times> 's" where
  "if_request k req s = (let (ok, s) = os_socket k s in if ok then req s else (False, s))"

definition linux_common_set_mac ::
    "'s wpa_os \<Rightarrow> string \<Rightarrow> byte list option \<Rightarrow> 's \<Rightarrow> (int \<times> 's) option" where
  "linux_common_set_mac k ifname mac_addr s =
     (let (ok, s) = if_request k (os_if_flags k (take 15 ifname) False) s
      in if \<not> ok then Some (WMG_STATUS_FAIL, s)
         else let s = os_sleep k 3000000 s
              in do {
                mac \<leftarrow> mac_addr;
                name \<leftarrow> fits 16 ifname;
                if length mac < 6 then None
                else let (ok, s) = if_request k (os_set_hw k name (take 6 mac)) s
                     in if \<not> ok then Some (WMG_STATUS_FAIL, s)
                        else let (ok, s) = if_request k (os_if_flags k (take 15 ifname) True) s
                             in Some (if \<not> ok then WMG_STATUS_FAIL else WMG_STATUS_SUCCESS, s)
              })"

section \<open>The station's status\<close>

record wifi_sta_info =
  info_id :: int
  info_freq :: int
  info_bssid :: "byte list"
  info_ssid :: string
  info_mac :: "byte list"
  info_ip :: "byte list"
  info_sec :: wifi_secure

text \<open>The local arrays of \<open>wpa_parse_status_info\<close>, as C strings.\<close>

record status_fields =
  f_id :: string
  f_freq :: string
  f_bssid :: string
  f_ssid :: string
  f_mac :: string
  f_ip :: string
  f_sec :: string

text \<open>The assignments for one token; \<open>Some None\<close> is the early return for a name that is too long.\<close>

definition status_token :: "string \<Rightarrow> status_fields \<Rightarrow> status_fields option option" where
  "status_token pch f =
     (if starts ''id='' pch then map_option (\<lambda>v. Some (f\<lparr>f_id := v\<rparr>)) (fits 32 (drop 3 pch))
      else if starts ''freq='' pch then map_option (\<lambda>v. Some (f\<lparr>f_freq := v\<rparr>)) (fits 32 (drop 5 pch))
      else if starts ''bssid='' pch then map_option (\<lambda>v. Some (f\<lparr>f_bssid := v\<rparr>)) (fits 48 (drop 6 pch))
      else if starts ''ssid='' pch
      then if 64 < length (drop 5 pch) then Some None
           else map_option (\<lambda>v. Some (f\<lparr>f_ssid := v\<rparr>)) (fits 64 (drop 5 pch))
      else if starts ''address='' pch then map_option (\<lambda>v. Some (f\<lparr>f_mac := v\<rparr>)) (fits 32 (drop 8 pch))
      else if starts ''ip_address='' pch then map_option (\<lambda>v. Some (f\<lparr>f_ip := v\<rparr>)) (fits 32 (drop 11 pch))
      else if starts ''key_mgmt='' pch then map_option (\<lambda>v. Some (f\<lparr>f_sec := v\<rparr>)) (fits 32 (drop 9 pch))
      else Some (Some f))"

text \<open>The delimiters are the newline and, by the way they are written, the single quote.\<close>

function status_tokens :: "string \<Rightarrow> status_fields \<Rightarrow> status_fields option option" where
  "status_tokens s f =
     (case strtok [CHR 0x27, NL] s of
        None \<Rightarrow> Some (Some f)
      | Some (pch, r) \<Rightarrow>
          (case status_token pch f of
             None \<Rightarrow> None
           | Some None \<Rightarrow> Some None
           | Some (Some f) \<Rightarrow> status_tokens r f))"
  by pat_completeness auto
termination by (relation "measure (\<lambda>(s, _). length s)") (auto dest: strtok_shorter)

declare status_tokens.simps [simp del]

text \<open>
  The security: seven characters are compared for WPA2, and the array compared for WPA is another
  one, which is all zero, so that this never holds.
\<close>

definition status_sec :: "string \<Rightarrow> wifi_secure" where
  "status_sec sec = (if take 7 sec = ''WPA2-PS'' then WIFI_SEC_WPA2_PSK else WIFI_SEC_NONE)"

definition wpa_parse_status_info :: "string \<Rightarrow> wifi_sta_info \<Rightarrow> (int \<times> wifi_sta_info) option" where
  "wpa_parse_status_info status i =
     (case strstr ''wpa_state'' status of
        None \<Rightarrow> Some (- 1, i)
      | Some (_, pos) \<Rightarrow>
          if \<not> starts ''COMPLETED'' (drop 10 pos) then Some (- 1, i)
          else do {
            f \<leftarrow> status_tokens status \<lparr>f_id = [], f_freq = [], f_bssid = [], f_ssid = [], f_mac = [], f_ip = [], f_sec = []\<rparr>;
            case f of
              None \<Rightarrow> Some (- 1, i)
            | Some f \<Rightarrow>
                do {
                  id \<leftarrow> atoi_str (f_id f);
                  freq \<leftarrow> atoi_str (f_freq f);
                  bssid \<leftarrow> token_bytes (\<lambda>t. Some (char2uint8 t)) '':'' 6 (f_bssid f);
                  mac \<leftarrow> token_bytes (\<lambda>t. Some (char2uint8 t)) '':'' 6 (f_mac f);
                  ip \<leftarrow> token_bytes (\<lambda>t. map_option word_of_int (atoi_str t)) ''.'' 4 (f_ip f);
                  Some (0, \<lparr>info_id = id, info_freq = freq, info_bssid = overlay bssid (info_bssid i),
                    info_ssid = f_ssid f, info_mac = overlay mac (info_mac i), info_ip = overlay ip (info_ip i),
                    info_sec = status_sec (f_sec f)\<rparr>)
                }
          })"

lemma length_colon_text: "length (colon_text bs) \<le> 3 * length bs"
  by (induction bs rule: colon_text.induct) (simp_all add: hex_byte_def)

end
