(* ===== verification/Scan_Results.thy ===== *)
theory Scan_Results
  imports Wmg_Types C_Text
begin

text \<open>
  The scan table of \<open>wifi/scan.c\<close>: parsing the supplicant's text into the caller's array, and
  removing the escapes from it first. A text is a C string; a position in it is the suffix
  that starts there. Reading behind the terminating NUL, a search that fails and whose NULL is
  used, and a copy that leaves its array are \<open>None\<close>.
\<close>

section \<open>The table\<close>

abbreviation "BSSID_MAX_LEN \<equiv> 48 :: nat"
abbreviation "SSID_MAX_LEN \<equiv> 64 :: nat"

record wifi_scan_result =
  scan_bssid :: string
  scan_ssid :: string
  scan_freq :: "32 word"
  scan_rssi :: int
  scan_key_mgmt :: wifi_secure

text \<open>The array \<open>tmp\<close> of 20 bytes; a copy into it is not terminated.\<close>

definition copy_tmp :: "string \<Rightarrow> string \<Rightarrow> string option" where
  "copy_tmp src tmp = (if length src \<le> length tmp then Some (strncpy tmp src (length src)) else None)"

definition scan_security :: "string \<Rightarrow> wifi_secure" where
  "scan_security pos =
     (if take 8 pos = ''WPA2-PSK'' then WIFI_SEC_WPA2_PSK
      else if take 7 pos = ''WPA-PSK'' then WIFI_SEC_WPA_PSK else WIFI_SEC_NONE)"

definition scan_ssid_field :: "string \<Rightarrow> string" where
  "scan_ssid_field s = (if SSID_MAX_LEN \<le> length s then [] else s)"

text \<open>
  One round of the loop. \<open>room\<close> says that the array has a place left: only then are fields
  converted and stored. The result is the entry, \<open>tmp\<close> as the next round finds it, and the
  text of the next row, \<open>None\<close> after a row without a newline.
\<close>

definition scan_row :: "bool \<Rightarrow> string \<Rightarrow> string \<Rightarrow> (wifi_scan_result \<times> string \<times> string option) option" where
  "scan_row room tmp pos =
     do {
       (bssid, pos) \<leftarrow> strchr TAB pos;
       if room \<and> BSSID_MAX_LEN \<le> length bssid then None
       else do {
         (f, pos) \<leftarrow> strchr TAB pos;
         tmp \<leftarrow> copy_tmp f tmp;
         freq \<leftarrow> (if room then atoi tmp else Some 0);
         (r, pos) \<leftarrow> strchr TAB pos;
         tmp \<leftarrow> copy_tmp r (replicate 20 (CHR 0x00));
         rssi \<leftarrow> (if room then atoi tmp else Some 0);
         pos \<leftarrow> (case pos of [] \<Rightarrow> None | _ # pos \<Rightarrow> Some pos);
         (_, ssid) \<leftarrow> strchr TAB pos;
         let (ssid, next) = (case strchr NL ssid of None \<Rightarrow> (ssid, None) | Some (ssid, pos) \<Rightarrow> (ssid, Some pos));
         Some (\<lparr>scan_bssid = bssid, scan_ssid = scan_ssid_field ssid, scan_freq = word_of_int freq,
                scan_rssi = rssi, scan_key_mgmt = scan_security pos\<rparr>, tmp, next)
       }
     }"

lemma scan_row_shorter:
  assumes "scan_row room tmp pos = Some (e, tmp', Some pos')"
  shows "length pos' < length pos"
  using assms unfolding scan_row_def
  by (auto split: Option.bind_splits if_splits prod.splits option.splits list.splits dest!: strchr_shorter)

function scan_rows :: "nat \<Rightarrow> nat \<Rightarrow> string \<Rightarrow> string \<Rightarrow> (nat \<times> wifi_scan_result list) option" where
  "scan_rows arr_size num tmp pos =
     (if pos = [] then Some (num, [])
      else (case scan_row (num < arr_size) tmp pos of
              None \<Rightarrow> None
            | Some (e, tmp, next) \<Rightarrow>
                let stored = (if num < arr_size then [e] else [])
                in (case next of
                      None \<Rightarrow> Some (Suc num, stored)
                    | Some pos \<Rightarrow> map_option (\<lambda>(n, es). (n, stored @ es)) (scan_rows arr_size (Suc num) tmp pos))))"
  by pat_completeness auto
termination
  by (relation "measure (\<lambda>(_, _, _, pos). length pos)") (auto dest: scan_row_shorter)

declare scan_rows.simps [simp del]

text \<open>
  The result and what was written: the count, and the entries from the start of the array.
  Pointers that are NULL are \<open>None\<close>.
\<close>

definition parse_scan_results ::
    "string option \<Rightarrow> buf option \<Rightarrow> buf option \<Rightarrow> 32 word
      \<Rightarrow> (int \<times> (nat \<times> wifi_scan_result list) option) option" where
  "parse_scan_results recv_results scan_results bss_num arr_size =
     (case recv_results of
        None \<Rightarrow> Some (- 1, None)
      | Some text \<Rightarrow>
          if scan_results = None \<or> bss_num = None \<or> arr_size = 0 then Some (- 1, None)
          else (case strchr NL text of
                  None \<Rightarrow> Some (- 1, Some (0, []))
                | Some (_, pos) \<Rightarrow>
                    map_option (\<lambda>w. (0, Some w)) (scan_rows (unat arr_size) 0 (replicate 20 (CHR 0x00)) pos)))"

section \<open>Removing the escapes\<close>

text \<open>
  One of the two loops: every \<open>c\<close> that follows a backslash loses it. The first argument list is
  the text in front of the search position; looking at the byte before the text is undefined.
\<close>

function drop_slash_before :: "char \<Rightarrow> string \<Rightarrow> string \<Rightarrow> string option" where
  "drop_slash_before c pre s =
     (case strchr c s of
        None \<Rightarrow> Some (pre @ s)
      | Some (a, r) \<Rightarrow>
          let p = pre @ a
          in if p = [] then None
             else if last p = BACKSLASH then drop_slash_before c (butlast p @ [c]) r
             else drop_slash_before c (p @ [c]) r)"
  by pat_completeness auto
termination
  by (relation "measure (\<lambda>(_, _, s). length s)") (auto dest: strchr_shorter)

declare drop_slash_before.simps [simp del]

lemma drop_slash_none: "strchr c s = None \<Longrightarrow> drop_slash_before c pre s = Some (pre @ s)"
  by (simp add: drop_slash_before.simps)

lemma drop_slash_some:
  assumes "strchr c s = Some (a, r)" "pre @ a \<noteq> []"
  shows "drop_slash_before c pre s =
    drop_slash_before c ((if last (pre @ a) = BACKSLASH then butlast (pre @ a) else pre @ a) @ [c]) r"
  using assms by (subst drop_slash_before.simps) auto

definition remove_slash_from_scan_results :: "string \<Rightarrow> string option" where
  "remove_slash_from_scan_results s =
     Option.bind (drop_slash_before QUOTE [] s) (drop_slash_before BACKSLASH [])"

section \<open>What removing the escapes does\<close>

text \<open>The first loop turns every escaped quote into a quote.\<close>

fun unquote :: "string \<Rightarrow> string" where
  "unquote [] = []"
| "unquote (x # s) = (if x = BACKSLASH \<and> s \<noteq> [] \<and> hd s = QUOTE then unquote s else x # unquote s)"

text \<open>The second leaves one backslash of each run; the flag says that one came right before.\<close>

fun squeeze :: "bool \<Rightarrow> string \<Rightarrow> string" where
  "squeeze b [] = []"
| "squeeze b (x # s) = (if x = BACKSLASH then (if b then squeeze True s else x # squeeze True s) else x # squeeze False s)"

lemma unquote_plain: "QUOTE \<notin> set s \<Longrightarrow> unquote s = s"
  by (induction s) (auto dest: hd_in_set)

lemma unquote_found:
  assumes "QUOTE \<notin> set a"
  shows "unquote (a @ QUOTE # r) =
    (if a \<noteq> [] \<and> last a = BACKSLASH then butlast a else a) @ QUOTE # unquote r"
  using assms
proof (induction a)
  case (Cons x b)
  then show ?case by (cases b) auto
qed simp

lemma drop_quote_slash:
  assumes "pre = [] \<Longrightarrow> s = [] \<or> hd s \<noteq> QUOTE" "pre \<noteq> [] \<Longrightarrow> last pre \<noteq> BACKSLASH"
  shows "drop_slash_before QUOTE pre s = Some (pre @ unquote s)"
  using assms
proof (induction "QUOTE :: char" pre s rule: drop_slash_before.induct)
  case (1 pre s)
  show ?case
  proof (cases "strchr QUOTE s")
    case None
    then have "QUOTE \<notin> set s" by (simp only: strchr_None not_False_eq_True)
    then show ?thesis using drop_slash_none[OF None] by (simp add: unquote_plain)
  next
    case (Some ar)
    obtain a r where ar: "ar = (a, r)" by fastforce
    then have s: "s = a @ QUOTE # r" "QUOTE \<notin> set a" using Some strchr_Some by auto
    have ne: "pre @ a \<noteq> []" using 1(3) s by auto
    show ?thesis
    proof (cases "last (pre @ a) = BACKSLASH")
      case True
      then have a: "a \<noteq> []" using 1(4) ne by auto
      have "drop_slash_before QUOTE (butlast (pre @ a) @ [QUOTE]) r = Some ((butlast (pre @ a) @ [QUOTE]) @ unquote r)"
        using 1(1)[OF Some ar[symmetric] refl ne True] by simp
      then show ?thesis
        using drop_slash_some[OF Some[unfolded ar] ne] True a unquote_found[OF s(2), of r]
        by (simp add: s(1) butlast_append)
    next
      case False
      have "drop_slash_before QUOTE ((pre @ a) @ [QUOTE]) r = Some (((pre @ a) @ [QUOTE]) @ unquote r)"
        using 1(2)[OF Some ar[symmetric] refl ne False] by simp
      then show ?thesis
        using drop_slash_some[OF Some[unfolded ar] ne] False unquote_found[OF s(2), of r]
        by (auto simp: s(1))
    qed
  qed
qed

lemma squeeze_plain: "BACKSLASH \<notin> set s \<Longrightarrow> squeeze b s = s"
  by (induction s arbitrary: b) auto

lemma squeeze_found:
  "BACKSLASH \<notin> set a \<Longrightarrow> squeeze b (a @ BACKSLASH # r) = a @ (if a = [] \<and> b then [] else [BACKSLASH]) @ squeeze True r"
  by (induction a arbitrary: b) auto

lemma drop_backslash:
  assumes "pre = [] \<Longrightarrow> s = [] \<or> hd s \<noteq> BACKSLASH"
  shows "drop_slash_before BACKSLASH pre s = Some (pre @ squeeze (pre \<noteq> [] \<and> last pre = BACKSLASH) s)"
  using assms
proof (induction "BACKSLASH :: char" pre s rule: drop_slash_before.induct)
  case (1 pre s)
  show ?case
  proof (cases "strchr BACKSLASH s")
    case None
    then have "BACKSLASH \<notin> set s" by (simp only: strchr_None not_False_eq_True)
    then show ?thesis using drop_slash_none[OF None] by (simp add: squeeze_plain)
  next
    case (Some ar)
    obtain a r where ar: "ar = (a, r)" by fastforce
    then have s: "s = a @ BACKSLASH # r" "BACKSLASH \<notin> set a" using Some strchr_Some by auto
    have ne: "pre @ a \<noteq> []" using 1(3) s by auto
    show ?thesis
    proof (cases "last (pre @ a) = BACKSLASH")
      case True
      then have a: "a = []" "pre \<noteq> []" "last pre = BACKSLASH" using s(2) ne by (cases a rule: rev_cases; auto)+
      then have pre: "butlast pre @ [BACKSLASH] = pre" by (metis append_butlast_last_id)
      have "drop_slash_before BACKSLASH pre r = Some (pre @ squeeze True r)"
        using 1(1)[OF Some ar[symmetric] refl ne True] a pre by simp
      then show ?thesis
        using drop_slash_some[OF Some[unfolded ar] ne] a pre squeeze_found[OF s(2), of True r] by (simp add: s(1))
    next
      case False
      have "drop_slash_before BACKSLASH ((pre @ a) @ [BACKSLASH]) r = Some (((pre @ a) @ [BACKSLASH]) @ squeeze True r)"
        using 1(2)[OF Some ar[symmetric] refl ne False] by simp
      then show ?thesis
        using drop_slash_some[OF Some[unfolded ar] ne] False squeeze_found[OF s(2), of _ r] by (auto simp: s(1))
    qed
  qed
qed

lemma unquote_filter: "filter (\<lambda>c. c \<noteq> BACKSLASH) (unquote s) = filter (\<lambda>c. c \<noteq> BACKSLASH) s"
  by (induction s) auto

lemma squeeze_filter: "filter (\<lambda>c. c \<noteq> BACKSLASH) (squeeze b s) = filter (\<lambda>c. c \<noteq> BACKSLASH) s"
  by (induction s arbitrary: b) auto

lemma length_unquote: "length (unquote s) \<le> length s"
  by (induction s) auto

lemma length_squeeze: "length (squeeze b s) \<le> length s"
  by (induction s arbitrary: b) (auto simp: le_SucI)

lemma squeeze_single:
  "(b \<longrightarrow> squeeze b s = [] \<or> hd (squeeze b s) \<noteq> BACKSLASH) \<and>
   (\<forall>u v. squeeze b s \<noteq> u @ BACKSLASH # BACKSLASH # v)"
proof (induction s arbitrary: b)
  case (Cons x s)
  have t1: "squeeze True s = [] \<or> hd (squeeze True s) \<noteq> BACKSLASH" using Cons.IH[of True] by simp
  have t2: "squeeze b s \<noteq> u @ BACKSLASH # BACKSLASH # v" for b u v using Cons.IH[of b] by simp
  have "BACKSLASH # squeeze True s \<noteq> u @ BACKSLASH # BACKSLASH # v" for u v
  proof (cases u)
    case Nil
    then show ?thesis using t1 by (metis append_Nil list.inject list.sel(1) list.simps(3))
  next
    case (Cons y u')
    then show ?thesis using t2[of True u' v] by simp
  qed
  moreover have "x # squeeze False s \<noteq> u @ BACKSLASH # BACKSLASH # v" if "x \<noteq> BACKSLASH" for u v
    using t2[of False] that by (cases u) simp_all
  ultimately show ?case using t1 t2 by (cases b; cases "x = BACKSLASH") simp_all
qed simp

text \<open>
  Removing the escapes from the supplicant's text takes nothing but backslashes away: an
  escaped quote becomes a quote, and then every run of backslashes becomes one, so that the
  result has no two in a row (a name with two escaped backslashes loses one). The text must not
  begin with a quote or a backslash: the code looks at the byte before it.
\<close>

theorem remove_slash_result:
  assumes "s \<noteq> [] \<Longrightarrow> hd s \<noteq> QUOTE \<and> hd s \<noteq> BACKSLASH"
  shows "\<exists>t. remove_slash_from_scan_results s = Some t \<and> t = squeeze False (unquote s) \<and>
    filter (\<lambda>c. c \<noteq> BACKSLASH) t = filter (\<lambda>c. c \<noteq> BACKSLASH) s \<and> length t \<le> length s \<and>
    (\<forall>u v. t \<noteq> u @ BACKSLASH # BACKSLASH # v) \<and>
    (\<forall>r. remove_slash_from_scan_results (QUOTE # r) = None)"
proof -
  have 1: "drop_slash_before QUOTE [] s = Some (unquote s)"
    using drop_quote_slash[of "[]" s] assms by auto
  have "unquote s = [] \<or> hd (unquote s) \<noteq> BACKSLASH"
    using assms by (cases s) auto
  then have 2: "drop_slash_before BACKSLASH [] (unquote s) = Some (squeeze False (unquote s))"
    using drop_backslash[of "[]" "unquote s"] by auto
  have 3: "remove_slash_from_scan_results (QUOTE # r) = None" for r
  proof -
    have "drop_slash_before QUOTE [] (QUOTE # r) = None"
      by (subst drop_slash_before.simps) (simp add: strchr_def)
    then show ?thesis by (simp add: remove_slash_from_scan_results_def)
  qed
  have 4: "remove_slash_from_scan_results s = Some (squeeze False (unquote s))"
    by (simp only: remove_slash_from_scan_results_def 1 2 bind.simps)
  have 5: "squeeze False (unquote s) \<noteq> u @ BACKSLASH # BACKSLASH # v" for u v
    using squeeze_single[of False "unquote s"] by blast
  have 6: "length (squeeze False (unquote s)) \<le> length s"
    using le_trans[OF length_squeeze length_unquote] .
  show ?thesis
    by (rule exI[of _ "squeeze False (unquote s)"]) (use 3 4 5 6 in \<open>simp only: squeeze_filter unquote_filter simp_thms\<close>)
qed

section \<open>What the parser does with the supplicant's table\<close>

text \<open>The text of a table: fields separated by tabs, rows by newlines.\<close>

definition scan_line :: "wifi_scan_result \<times> string \<Rightarrow> string" where
  "scan_line = (\<lambda>(e, flags). scan_bssid e @ [TAB] @ dec (unat (scan_freq e)) @ [TAB] @ dec_int (scan_rssi e) @ [TAB] @
     flags @ [TAB] @ scan_ssid e)"

fun scan_table :: "(wifi_scan_result \<times> string) list \<Rightarrow> string" where
  "scan_table [] = []"
| "scan_table [r] = scan_line r"
| "scan_table (r # rs) = scan_line r @ [NL] @ scan_table rs"

text \<open>A row as the supplicant writes it: four digits of frequency, a signal level of up to three.\<close>

definition row_ok :: "wifi_scan_result \<times> string \<Rightarrow> bool" where
  "row_ok = (\<lambda>(e, flags).
     TAB \<notin> set (scan_bssid e) \<and> scan_bssid e \<noteq> [] \<and> length (scan_bssid e) < BSSID_MAX_LEN \<and>
     1000 \<le> unat (scan_freq e) \<and> unat (scan_freq e) < 10000 \<and> - 1000 < scan_rssi e \<and> scan_rssi e < 1000 \<and>
     TAB \<notin> set flags \<and> flags \<noteq> [] \<and> NL \<notin> set (scan_ssid e) \<and> length (scan_ssid e) < SSID_MAX_LEN \<and>
     scan_key_mgmt e = scan_security (tl flags))"

subsection \<open>Rows\<close>

text \<open>Behind its first four bytes the array \<open>tmp\<close> is clear whenever a row begins.\<close>

definition tmp_ok :: "string \<Rightarrow> bool" where
  "tmp_ok tmp \<longleftrightarrow> length tmp = 20 \<and> drop 4 tmp = replicate 16 (CHR 0x00)"

lemma replicate_NUL_Cons: "0 < n \<Longrightarrow> replicate n (CHR 0x00) = CHR 0x00 # replicate (n - 1) (CHR 0x00)"
  by (cases n) simp_all

lemma length_freq: "1000 \<le> n \<Longrightarrow> n < 10000 \<Longrightarrow> length (dec n) = 4"
  using length_dec_ge[of 3 n] length_dec_le[of n 4] by simp

lemma copy_freq:
  assumes "tmp_ok tmp" "1000 \<le> n" "n < 10000"
  shows "copy_tmp (dec n) tmp = Some (dec n @ replicate 16 (CHR 0x00))"
    "atoi (dec n @ replicate 16 (CHR 0x00)) = Some (int n)"
proof -
  have len: "length (dec n) = 4" using assms length_freq by simp
  have "strncpy tmp (dec n) 4 = dec n @ replicate 16 (CHR 0x00)"
    using strncpy_all[of tmp "dec n"] assms(1) by (simp only: len tmp_ok_def)
  then show "copy_tmp (dec n) tmp = Some (dec n @ replicate 16 (CHR 0x00))"
    using assms(1) by (simp add: copy_tmp_def tmp_ok_def len)
  show "atoi (dec n @ replicate 16 (CHR 0x00)) = Some (int n)"
    using assms atoi_dec_int[of "int n"] by (simp add: dec_int_def replicate_NUL_Cons[of 16])
qed

lemma copy_rssi:
  assumes "\<bar>i\<bar> < 1000"
  shows "copy_tmp (dec_int i) (replicate 20 (CHR 0x00)) = Some (dec_int i @ replicate (20 - length (dec_int i)) (CHR 0x00))"
    "atoi (dec_int i @ replicate (20 - length (dec_int i)) (CHR 0x00)) = Some i"
    "tmp_ok (dec_int i @ replicate (20 - length (dec_int i)) (CHR 0x00))"
proof -
  have len: "length (dec_int i) \<le> 4" using assms length_dec_int[of i 3] by simp
  show "copy_tmp (dec_int i) (replicate 20 (CHR 0x00)) = Some (dec_int i @ replicate (20 - length (dec_int i)) (CHR 0x00))"
    using len by (simp only: copy_tmp_def length_replicate strncpy_all drop_replicate) simp
  show "atoi (dec_int i @ replicate (20 - length (dec_int i)) (CHR 0x00)) = Some i"
    using assms len atoi_dec_int[of i] by (simp add: replicate_NUL_Cons[of "20 - length (dec_int i)"])
  show "tmp_ok (dec_int i @ replicate (20 - length (dec_int i)) (CHR 0x00))"
    using len by (simp add: tmp_ok_def)
qed

lemma take_prefix:
  assumes "c \<notin> set w" "length w = n"
  shows "take n (a @ c # r) = w \<longleftrightarrow> take n a = w"
proof (cases "length w \<le> length a")
  case False
  then obtain k where k: "length w - length a = Suc k" by (metis Suc_diff_Suc not_le)
  have "take (length w) (a @ c # r) = a @ c # take k r" using False k by simp
  then have "take (length w) (a @ c # r) \<noteq> w" using assms by (metis in_set_conv_decomp)
  moreover have "take (length w) a \<noteq> w" using False by auto
  ultimately show ?thesis using assms(2) by simp
qed (use assms in simp)

lemma scan_security_prefix: "scan_security (a @ TAB # r) = scan_security a"
proof -
  have "take 8 (a @ TAB # r) = ''WPA2-PSK'' \<longleftrightarrow> take 8 a = ''WPA2-PSK''"
    by (rule take_prefix) simp_all
  moreover have "take 7 (a @ TAB # r) = ''WPA-PSK'' \<longleftrightarrow> take 7 a = ''WPA-PSK''"
    by (rule take_prefix) simp_all
  ultimately show ?thesis by (simp only: scan_security_def)
qed

definition rest_ok :: "string \<Rightarrow> bool" where
  "rest_ok r \<longleftrightarrow> r = [] \<or> hd r = NL"

lemma scan_row_line:
  assumes row: "row_ok (e, flags)" and tmp: "tmp_ok tmp" and r: "rest_ok r"
  shows "\<exists>e' tmp'. scan_row room tmp (scan_line (e, flags) @ r) =
    Some (e', tmp', if r = [] then None else Some (tl r)) \<and> tmp_ok tmp' \<and> (room \<longrightarrow> e' = e)"
proof -
  let ?f = "dec (unat (scan_freq e))" and ?i = "dec_int (scan_rssi e)"
  note ok = row[unfolded row_ok_def prod.case]
  have s1: "strchr TAB (scan_line (e, flags) @ r) = Some (scan_bssid e, ?f @ TAB # ?i @ TAB # flags @ TAB # scan_ssid e @ r)"
    using ok by (simp add: strchr_Some scan_line_def)
  have s2: "strchr TAB (?f @ TAB # ?i @ TAB # flags @ TAB # scan_ssid e @ r) = Some (?f, ?i @ TAB # flags @ TAB # scan_ssid e @ r)"
    by (simp add: strchr_Some dec_no_tab)
  have s3: "strchr TAB (?i @ TAB # flags @ TAB # scan_ssid e @ r) = Some (?i, flags @ TAB # scan_ssid e @ r)"
    by (simp add: strchr_Some dec_int_no_tab)
  have fl: "flags = hd flags # tl flags" using ok by simp
  have s4: "strchr TAB (tl flags @ TAB # scan_ssid e @ r) = Some (tl flags, scan_ssid e @ r)"
    using ok fl by (metis list.set_intros(2) strchr_Some)
  have s5: "(case strchr NL (scan_ssid e @ r) of None \<Rightarrow> (scan_ssid e @ r, None) | Some (ssid, pos) \<Rightarrow> (ssid, Some pos)) =
      (scan_ssid e, if r = [] then None else Some (tl r))"
  proof (cases r)
    case Nil
    have "strchr NL (scan_ssid e) = None" using ok by (simp add: strchr_None)
    then show ?thesis using Nil by simp
  next
    case (Cons c r')
    have "strchr NL (scan_ssid e @ NL # r') = Some (scan_ssid e, r')" using ok by (simp add: strchr_Some)
    then show ?thesis using Cons r by (simp add: rest_ok_def)
  qed
  have f: "copy_tmp ?f tmp = Some (?f @ replicate 16 (CHR 0x00))" "atoi (?f @ replicate 16 (CHR 0x00)) = Some (uint (scan_freq e))"
    using copy_freq[OF tmp, of "unat (scan_freq e)"] ok by simp_all
  have ri: "\<bar>scan_rssi e\<bar> < 1000" using ok by linarith
  note i = copy_rssi[OF ri]
  have sec: "scan_security (tl flags @ TAB # scan_ssid e @ r) = scan_key_mgmt e"
    using ok by (simp add: scan_security_prefix)
  have case_fl: "(case flags @ TAB # scan_ssid e @ r of [] \<Rightarrow> None | _ # pos \<Rightarrow> Some pos) = Some (tl flags @ TAB # scan_ssid e @ r)"
    by (subst fl) simp
  have b: "\<not> (room \<and> BSSID_MAX_LEN \<le> length (scan_bssid e))" "scan_ssid_field (scan_ssid e) = scan_ssid e"
    using ok by (simp_all add: scan_ssid_field_def)
  show ?thesis
    by (simp only: scan_row_def s1 s2 s3 s4 s5 f i(1,2) case_fl sec b bind.simps prod.case Let_def if_False)
      (use i(3) in \<open>auto simp: f i(2)\<close>)
qed

lemma scan_rows_table:
  assumes "list_all row_ok rows" "rows \<noteq> []" "tmp_ok tmp" "r = [] \<or> r = [NL]"
  shows "scan_rows n num tmp (scan_table rows @ r) = Some (num + length rows, take (n - num) (map fst rows))"
  using assms
proof (induction rows arbitrary: num tmp rule: scan_table.induct)
  case (2 x)
  obtain e flags where x: "x = (e, flags)" by fastforce
  have "rest_ok r" using 2(4) by (auto simp: rest_ok_def)
  then obtain e' tmp' where s: "scan_row (num < n) tmp (scan_line (e, flags) @ r) =
      Some (e', tmp', if r = [] then None else Some (tl r))" "num < n \<longrightarrow> e' = e"
    using scan_row_line[of e flags tmp r "num < n"] 2 x by auto
  have ne: "scan_line (e, flags) @ r \<noteq> []" by (simp add: scan_line_def)
  show ?case
    using s ne 2(4) by (subst scan_rows.simps) (auto simp: x scan_rows.simps[of _ _ _ "[]"])
next
  case (3 x y rs)
  obtain e flags where x: "x = (e, flags)" by fastforce
  let ?r = "NL # scan_table (y # rs) @ r"
  have "rest_ok ?r" by (simp add: rest_ok_def)
  then obtain e' tmp' where s: "scan_row (num < n) tmp (scan_line (e, flags) @ ?r) =
      Some (e', tmp', Some (scan_table (y # rs) @ r))" "num < n \<longrightarrow> e' = e" "tmp_ok tmp'"
    using scan_row_line[of e flags tmp ?r "num < n"] 3 x by auto
  have ih: "scan_rows n (Suc num) tmp' (scan_table (y # rs) @ r) = Some (Suc num + length (y # rs), take (n - Suc num) (map fst (y # rs)))"
    using 3 s(3) by simp
  have ne: "scan_line (e, flags) @ ?r \<noteq> []" by simp
  have t: "scan_table (x # y # rs) @ r = scan_line (e, flags) @ ?r" by (simp add: x)
  show ?case
    unfolding t using s(1,2) ne ih
    by (subst scan_rows.simps) (auto simp: x take_Cons')
qed simp

section \<open>Properties\<close>

lemma parse_scan_table:
  assumes "rows \<noteq> []" "list_all row_ok rows" "NL \<notin> set header" "fin = [] \<or> fin = [NL]" "arr_size \<noteq> 0"
  shows "parse_scan_results (Some (header @ NL # scan_table rows @ fin)) (Some r) (Some n) arr_size =
    Some (0, Some (length rows, take (unat arr_size) (map fst rows)))"
proof -
  have "strchr NL (header @ NL # scan_table rows @ fin) = Some (header, scan_table rows @ fin)"
    using assms(3) by (simp add: strchr_Some)
  moreover have "tmp_ok (replicate 20 (CHR 0x00))" by (simp add: tmp_ok_def)
  ultimately show ?thesis
    using assms scan_rows_table[of rows _ fin "unat arr_size" 0] by (simp add: parse_scan_results_def)
qed

text \<open>
  C36. Parsing reads back what the supplicant prints: for a table of well-formed rows, with or
  without a newline at the end, the parser returns 0, counts all rows, and stores the first
  \<open>arr_size\<close> of them with their addresses, frequencies, levels, security and names unchanged.
\<close>

theorem scan_roundtrip:
  assumes "rows \<noteq> []" "list_all row_ok rows" "NL \<notin> set header" "fin = [] \<or> fin = [NL]" "arr_size \<noteq> 0"
  shows "parse_scan_results (Some (header @ NL # scan_table rows @ fin)) (Some r) (Some n) arr_size =
    Some (0, Some (length rows, take (unat arr_size) (map fst rows)))"
  using assms by (rule parse_scan_table)

text \<open>Counting tabs: each of the four searches of a row takes one.\<close>

lemma strchr_count: "strchr c s = Some (a, r) \<Longrightarrow> count_list s c = Suc (count_list r c)"
  by (auto simp: strchr_Some)

lemma scan_row_tabs: "count_list pos TAB < 4 \<Longrightarrow> scan_row room tmp pos = None"
  unfolding scan_row_def
  by (auto split: Option.bind_splits if_splits prod.splits option.splits list.splits dest!: strchr_count)

text \<open>
  A row with fewer than four tabs, as a reply cut off by the end of the receive buffer has, is
  not detected: the search returns NULL and the parser uses it.
\<close>

theorem scan_missing_tab:
  assumes "NL \<notin> set header" "row \<noteq> []" "count_list row TAB < 4" "arr_size \<noteq> 0"
  shows "parse_scan_results (Some (header @ NL # row)) (Some r) (Some n) arr_size = None"
proof -
  have "strchr NL (header @ NL # row) = Some (header, row)" using assms(1) by (simp add: strchr_Some)
  moreover have "scan_rows (unat arr_size) 0 (replicate 20 (CHR 0x00)) row = None"
    using assms by (subst scan_rows.simps) (simp add: scan_row_tabs)
  ultimately show ?thesis using assms(4) by (simp add: parse_scan_results_def)
qed

section \<open>Witnesses\<close>

definition demo_row :: "wifi_scan_result \<times> string" where
  "demo_row = (\<lparr>scan_bssid = ''00:1c:a3:14:6a:de'', scan_ssid = ''AW-PD4'', scan_freq = 2462, scan_rssi = - 32,
     scan_key_mgmt = WIFI_SEC_WPA2_PSK\<rparr>, ''[WPA2-PSK-CCMP][ESS]'')"

lemma demo_row_ok: "row_ok demo_row"
  by (simp add: row_ok_def demo_row_def scan_security_def)

theorem scan_roundtrip_witness:
  "parse_scan_results (Some (''bssid'' @ NL # scan_table [demo_row, demo_row] @ [NL])) (Some 0) (Some 0) 1 =
    Some (0, Some (2, [fst demo_row]))"
  using scan_roundtrip[of "[demo_row, demo_row]" "''bssid''" "[NL]" 1 0 0] demo_row_ok by simp

theorem scan_missing_tab_witness:
  "parse_scan_results (Some (''bssid'' @ NL # ''00:1c:a3'')) (Some 0) (Some 0) 1 = None"
  using scan_missing_tab[of "''bssid''" "''00:1c:a3''" 1 0 0] by simp

theorem remove_slash_result_witness:
  "\<exists>t. remove_slash_from_scan_results [CHR ''a'', BACKSLASH, QUOTE, BACKSLASH, BACKSLASH, BACKSLASH, BACKSLASH] = Some t \<and>
    t = [CHR ''a'', QUOTE, BACKSLASH]"
  using remove_slash_result[of "[CHR ''a'', BACKSLASH, QUOTE, BACKSLASH, BACKSLASH, BACKSLASH, BACKSLASH]"] by simp

end
