(* ===== verification/Linux_Wpa.thy ===== *)
theory Linux_Wpa
  imports Wpa_Wait Wpa_Conf Linux_Common Scan_Results Wmg_Sta
begin

text \<open>
  The station's platform, part four: the functions of \<open>linux_wpa.c\<close> behind the station's interface
  record. Starting and stopping the supplicant's connections, the commands that configure a
  network, connecting, scanning and the requests; and the record itself, over a platform whose
  state is an outcome: once it blocks or its behaviour is undefined, it stays so.
\<close>

section \<open>Starting and stopping\<close>

definition sta_wpa_inf_static :: "incoming list \<Rightarrow> 's \<Rightarrow> 's wpa_dev" where
  "sta_wpa_inf_static inc s = \<lparr>sta_wpa_init_flag = False, sta_wpa_exist = False, sta_pid = False, threads = 0,
     sta_event_handle = None, sta_wpa_event_cb = False, sta_wpa_auto_reconn = True, sta_auth_fail_cnt = 0,
     sta_net_not_found_cnt = 0, sta_assoc_reject_cnt = 0, old_ssid = [], new_ssid = [], last_time = 0,
     ctrl_conn = False, monitor_conn = False, exit_sockets = (0, 0), incoming = inc, notified = [], os = s\<rparr>"

definition fresh_handle :: "'s wpa_os \<Rightarrow> event_handle" where
  "fresh_handle k = \<lparr>evt_socket = (- 1, - 1), evt_socket_enable = False, evt_bytes = [], evt_room = os_room k,
     evt_getfl_ok = os_getfl k, evt_setfl_ok = os_setfl k\<rparr>"

text \<open>The station passes its callback, which is not NULL.\<close>

definition linux_supplicant_init :: "'s wpa_os \<Rightarrow> 's wpa_dev \<Rightarrow> int \<times> 's wpa_dev" where
  "linux_supplicant_init k d =
     (if sta_wpa_init_flag d then (WMG_STATUS_SUCCESS, d)
      else let (ok, d) = on_os (os_malloc k) d
           in if \<not> ok then (WMG_STATUS_FAIL, d\<lparr>sta_event_handle := None\<rparr>)
              else (WMG_STATUS_SUCCESS,
                d\<lparr>sta_event_handle := Some (fresh_handle k), sta_wpa_event_cb := True,
                  old_ssid := [], new_ssid := [], sta_wpa_init_flag := True\<rparr>))"

text \<open>The handle that is freed is not used again until it is made anew: here it is gone.\<close>

definition linux_supplicant_deinit :: "'s wpa_os \<Rightarrow> 's wpa_dev \<Rightarrow> 's wpa_dev option" where
  "linux_supplicant_deinit k d =
     (if \<not> sta_wpa_init_flag d then Some d
      else let d = (if sta_pid d then d\<lparr>threads := threads d - 1, sta_pid := False\<rparr> else d)
           in (case sta_event_handle d of
                 None \<Rightarrow> None
               | Some h \<Rightarrow>
                   let d = wifi_close_sockets (d\<lparr>sta_event_handle := Some (evt_socket_exit h)\<rparr>);
                       (e, d) = on_os (check_process_is_exist k ''wpa_supplicant'' 14) d;
                       (killed, d) =
                         (if e = 1
                          then let d = os_do (os_sleep k 1000000) (os_do (os_system k ''pidof wpa_supplicant | xargs kill -9'') d);
                                   (e, d) = on_os (check_process_is_exist k ''wpa_supplicant'' 14) d
                               in if e = 1 then (False, d) else (True, d\<lparr>sta_wpa_exist := False\<rparr>)
                          else (True, d))
                   in if \<not> killed then Some d
                      else let d = os_do (os_system k ''ifconfig wlan0 down'') d
                           in Some (d\<lparr>old_ssid := [], new_ssid := [], sta_event_handle := None, sta_wpa_init_flag := False,
                                sta_wpa_auto_reconn := False, sta_auth_fail_cnt := 0, sta_net_not_found_cnt := 0,
                                sta_assoc_reject_cnt := 0, sta_wpa_event_cb := False\<rparr>)))"

text \<open>Killing hostapd: what is asked again, and after a pause once more.\<close>

definition stop_hostapd :: "'s wpa_os \<Rightarrow> 's wpa_dev \<Rightarrow> bool \<times> 's wpa_dev" where
  "stop_hostapd k d =
     (let (e, d) = on_os (check_process_is_exist k ''hostapd'' 7) d
      in if e \<noteq> 1 then (True, d)
         else let d = os_do (os_system k ''pidof hostapd | xargs kill -9'') d;
                  (e, d) = on_os (check_process_is_exist k ''hostapd'' 7) d
              in if e \<noteq> 1 then (True, d)
                 else let (e, d) = on_os (check_process_is_exist k ''hostapd'' 7) (os_do (os_sleep k 1000000) d)
                      in (e \<noteq> 1, d))"

text \<open>What the station is told of the state that was found: nothing for an unknown one.\<close>

definition notify_status :: "int \<Rightarrow> 's wpa_dev \<Rightarrow> 's wpa_dev" where
  "notify_status status d =
     (let d = (if status = 0 then wpas_event_notify_to_sta_dev WIFI_CONNECTED d else d);
          d = (if status = 1 then wpas_event_notify_to_sta_dev WIFI_DISCONNECTED d else d);
          d = (if status = 2 then wpas_event_notify_to_sta_dev WIFI_SCAN_STARTED d else d)
      in if status = 2 then wpas_event_notify_to_sta_dev WIFI_UNKNOWN d else d)"

definition linux_connect_to_supplicant :: "'s wpa_os \<Rightarrow> 's wpa_dev \<Rightarrow> (int \<times> 's wpa_dev) option" where
  "linux_connect_to_supplicant k d =
     (let (ok, d) = stop_hostapd k d
      in if \<not> ok then Some (WMG_STATUS_FAIL, d)
         else
           let (e, d) = on_os (check_process_is_exist k ''wpa_supplicant'' 14) d;
               (started, d) = (if e = 0 then start_supplicant 2 5 k d else (0, d))
           in if started \<noteq> 0 then Some (WMG_STATUS_FAIL, d)
              else let (there, d) = on_os (os_access k ''/var/run/wpa_supplicant'') d
                   in if \<not> there then Some (WMG_STATUS_FAIL, d)
                      else let (ret, d) = wifi_connect_on_socket_path k d
                           in if ret \<noteq> 0 then Some (WMG_STATUS_FAIL, d)
                              else do {
                                h \<leftarrow> sta_event_handle d;
                                let (sp, d) = on_os (os_socketpair k) d;
                                let (ret, h) = evt_socket_init sp h;
                                let d = d\<lparr>sta_event_handle := Some h\<rparr>;
                                if ret \<noteq> 0 then Some (WMG_STATUS_FAIL, wifi_close_sockets d)
                                else let (_, h) = evt_socket_clear h;
                                         (ok, d) = on_os (os_thread k) (d\<lparr>sta_event_handle := Some h\<rparr>)
                                     in if \<not> ok
                                        then Some (WMG_STATUS_FAIL, wifi_close_sockets (d\<lparr>sta_event_handle := Some (evt_socket_exit h)\<rparr>))
                                        else let d = d\<lparr>sta_pid := True, threads := Suc (threads d)\<rparr>;
                                                 (status, d) = linux_sta_wpa_cmd_status k d
                                             in Some (WMG_STATUS_SUCCESS, notify_status status d)
                              })"

section \<open>Configuring a network\<close>

text \<open>A character is printable when it is not below 32 nor above 126; a \<open>char\<close> is signed.\<close>

definition check_wpa_password :: "string option \<Rightarrow> int" where
  "check_wpa_password passwd =
     (case passwd of
        None \<Rightarrow> - 1
      | Some p \<Rightarrow> if p \<noteq> [] \<and> list_all (\<lambda>c. 32 \<le> (of_char c :: nat) \<and> (of_char c :: nat) \<le> 126) p then 0 else - 1)"

text \<open>A command of the sequence, and what follows when it is accepted; an array of 101 bytes holds it.\<close>

definition cmd_then ::
    "'s wpa_os \<Rightarrow> string \<Rightarrow> ('s wpa_dev \<Rightarrow> (int \<times> 's wpa_dev) option) \<Rightarrow> 's wpa_dev \<Rightarrow> (int \<times> 's wpa_dev) option" where
  "cmd_then k cmd next d =
     (case fits (CMD_MAX_LEN + 1) cmd of
        None \<Rightarrow> None
      | Some cmd \<Rightarrow>
          let (ret, _, d) = command_to_supplicant k cmd EVENT_BUF_SIZE d
          in if ret \<noteq> 0 then Some (WMG_STATUS_FAIL, d) else next d)"

definition quoted :: "string \<Rightarrow> string" where
  "quoted s = [QUOTE] @ s @ [QUOTE]"

text \<open>The commands for the kind of security; \<open>pre\<close> is the command up to the network's number.\<close>

definition select_security ::
    "'s wpa_os \<Rightarrow> wifi_sta_cn_para \<Rightarrow> string \<Rightarrow> ('s wpa_dev \<Rightarrow> (int \<times> 's wpa_dev) option) \<Rightarrow> 's wpa_dev \<Rightarrow> (int \<times> 's wpa_dev) option" where
  "select_security k cn pre next =
     (case cn_sec cn of
        WIFI_SEC_NONE \<Rightarrow> cmd_then k (pre @ ''key_mgmt NONE'') next
      | WIFI_SEC_WEP \<Rightarrow>
          cmd_then k (pre @ ''key_mgmt NONE'') (\<lambda>d.
            case cn_password cn of
              None \<Rightarrow> None
            | Some p \<Rightarrow>
                let wep = (\<lambda>key. cmd_then k (pre @ ''wep_key0 '' @ key) (cmd_then k (pre @ ''auth_alg OPEN SHARED'') next) d)
                in if length p = 10 \<or> length p = 26 then wep p
                   else if length p = 5 \<or> length p = 13 then wep (quoted p)
                   else Some (WMG_STATUS_FAIL, d))
      | _ \<Rightarrow>
          cmd_then k (pre @ ''key_mgmt WPA-PSK'') (\<lambda>d.
            if check_wpa_password (cn_password cn) \<noteq> 0 then Some (WMG_STATUS_INVALID, d)
            else (case cn_password cn of
                    None \<Rightarrow> None
                  | Some p \<Rightarrow> cmd_then k (pre @ ''psk '' @ quoted p) next d)))"

text \<open>
  The number of the new network is read with the size of the pointer to its buffer, eight bytes.
  The result is given with that number.
\<close>

definition wpas_select_network ::
    "'s wpa_os \<Rightarrow> wifi_sta_cn_para \<Rightarrow> 's wpa_dev \<Rightarrow> (int \<times> string \<times> 's wpa_dev) option" where
  "wpas_select_network k cn d =
     (case command_to_supplicant k ''ADD_NETWORK'' 8 d of
        (ret, reply, d) \<Rightarrow>
          let netid = (case reply of None \<Rightarrow> [] | Some r \<Rightarrow> r); pre = ''SET_NETWORK '' @ netid @ '' ''
          in if ret \<noteq> 0 then Some (WMG_STATUS_FAIL, netid, d)
             else do {
               ssid \<leftarrow> cn_ssid cn;
               (ret, d) \<leftarrow> cmd_then k (pre @ ''ssid '' @ quoted ssid)
                 (cmd_then k (pre @ ''scan_ssid 1'')
                   (select_security k cn pre
                     (cmd_then k (''SELECT_NETWORK '' @ netid) (\<lambda>d. Some (0, d))))) d;
               Some (ret, netid, d)
             })"

section \<open>Connecting\<close>

definition remove_network :: "'s wpa_os \<Rightarrow> string \<Rightarrow> 's wpa_dev \<Rightarrow> (int \<times> 's wpa_dev) option" where
  "remove_network k netid d =
     (case fits (CMD_MAX_LEN + 1) (''REMOVE_NETWORK '' @ netid) of
        None \<Rightarrow> None
      | Some cmd \<Rightarrow> let (ret, _, d) = command_to_supplicant k cmd EVENT_BUF_SIZE d in Some (ret, d))"

text \<open>
  After the network is selected: waiting for the event that decides, then saving the
  configuration or removing the network again.
\<close>

definition connect_finish :: "'s wpa_os \<Rightarrow> string \<Rightarrow> 's wpa_dev \<Rightarrow> (int \<times> 's wpa_dev) outcome" where
  "connect_finish k netid d =
     bind_outcome (connect_wait k 0 WMG_STATUS_FAIL d) (\<lambda>(ret, d).
       if ret = WMG_STATUS_SUCCESS
       then let (_, _, d) = command_to_supplicant k ''SAVE_CONFIG'' EVENT_BUF_SIZE d in Returns (ret, d)
       else map_outcome_of (\<lambda>(_, d). (ret, d)) (outcome_of_option (remove_network k netid d)))"

text \<open>The name is stored in an array of 64 bytes before the commands are sent.\<close>

definition connect_new :: "'s wpa_os \<Rightarrow> wifi_sta_cn_para \<Rightarrow> 's wpa_dev \<Rightarrow> (int \<times> 's wpa_dev) outcome" where
  "connect_new k cn d =
     (case sta_event_handle d of
        None \<Rightarrow> Crash
      | Some h \<Rightarrow>
          let d = d\<lparr>sta_event_handle := Some (snd (evt_socket_clear h))\<rparr>
          in (case Option.bind (cn_ssid cn) (fits 64) of
                None \<Rightarrow> Crash
              | Some ssid \<Rightarrow>
                  bind_outcome (outcome_of_option (wpas_select_network k cn (d\<lparr>new_ssid := ssid\<rparr>)))
                    (\<lambda>(ret, netid, d).
                      if c_true ret then Returns (WMG_STATUS_FAIL, wpas_event_notify_to_sta_dev WIFI_DISCONNECTED d)
                      else connect_finish k netid d)))"

definition linux_supplicant_connect_to_ap ::
    "'s wpa_os \<Rightarrow> wifi_sta_cn_para \<Rightarrow> 's wpa_dev \<Rightarrow> (int \<times> 's wpa_dev) outcome" where
  "linux_supplicant_connect_to_ap k cn d =
     (case cn_ssid cn of
        None \<Rightarrow> Crash
      | Some ssid \<Rightarrow>
          bind_outcome (wpa_conf_is_ap_exist k ssid (cn_sec cn) (CMD_MAX_LEN + 1) d) (\<lambda>(exist, netid, d).
            if 0 < exist
            then (if exist = 3 then Returns (WMG_STATUS_SUCCESS, wpas_event_notify_to_sta_dev WIFI_CONNECTED d)
                  else bind_outcome (outcome_of_option (remove_network k netid d)) (\<lambda>(ret, d).
                    if c_true ret then Returns (WMG_STATUS_FAIL, wpas_event_notify_to_sta_dev WIFI_DISCONNECTED d)
                    else connect_new k cn d))
            else connect_new k cn d))"

definition linux_supplicant_disconnect_to_ap :: "'s wpa_os \<Rightarrow> 's wpa_dev \<Rightarrow> int \<times> 's wpa_dev" where
  "linux_supplicant_disconnect_to_ap k d =
     (let (status, d) = linux_sta_wpa_cmd_status k d
      in if status \<noteq> 0 then (WMG_STATUS_SUCCESS, d)
         else let (ret, d) = linux_sta_wpa_cmd_disconnect k d
              in if c_true ret then (ret, d)
                 else (WMG_STATUS_SUCCESS, (os_do (os_system k ''ifconfig wlan0 0.0.0.0'') d)\<lparr>sta_wpa_auto_reconn := False\<rparr>))"

section \<open>Scanning\<close>

abbreviation "SCAN_BUF_LEN \<equiv> 4096 :: nat"

text \<open>
  Fetching the results: the counter is set to zero at the label the code jumps back to, so that
  it never becomes two. There is no value when the command fails for ever.
\<close>

partial_function (option) fetch_scan_results :: "'s wpa_os \<Rightarrow> 's wpa_dev \<Rightarrow> (string \<times> 's wpa_dev) option" where
  "fetch_scan_results k d =
     (case command_to_supplicant k ''SCAN_RESULTS'' SCAN_BUF_LEN d of
        (ret, reply, d) \<Rightarrow>
          if ret \<noteq> 0 then fetch_scan_results k (os_do (os_sleep k 1000000) d)
          else Some ((case reply of None \<Rightarrow> [] | Some r \<Rightarrow> r), d))"

text \<open>Asking for a scan and waiting for it; \<open>True\<close>: there are results to fetch.\<close>

function scan_once :: "'s wpa_os \<Rightarrow> nat \<Rightarrow> int \<Rightarrow> 's wpa_dev \<Rightarrow> (bool \<times> 's wpa_dev) outcome" where
  "scan_once k try_cnt event d =
     (case sta_event_handle d of
        None \<Rightarrow> Crash
      | Some h \<Rightarrow>
          (case command_to_supplicant k ''SCAN'' SCAN_BUF_LEN (d\<lparr>sta_event_handle := Some (snd (evt_socket_clear h))\<rparr>) of
             (ret, reply, d) \<Rightarrow>
               if ret \<noteq> 0
               then (case reply of
                       None \<Rightarrow> Returns (False, d)
                     | Some r \<Rightarrow>
                         if starts ''FAIL-BUSY'' r then Returns (True, os_do (os_sleep k 2000000) d) else Returns (False, d))
               else (case scan_wait k try_cnt event d of
                       Blocks \<Rightarrow> Blocks
                     | Crash \<Rightarrow> Crash
                     | Returns (Scan_Failed, d) \<Rightarrow> Returns (False, d)
                     | Returns (Scan_Done, d) \<Rightarrow> Returns (True, d)
                     | Returns (Scan_Again n e, d) \<Rightarrow> scan_once k n e d)))"
  by pat_completeness auto
termination
  by (relation "measure (\<lambda>(k, t, e, d). 3 - t)") (auto dest!: scan_wait_again)

declare scan_once.simps [simp del]

definition wpa_get_scan_results ::
    "'s wpa_os \<Rightarrow> buf \<Rightarrow> buf \<Rightarrow> 32 word \<Rightarrow> 's wpa_dev \<Rightarrow> (int \<times> (nat \<times> wifi_scan_result list) option \<times> 's wpa_dev) outcome" where
  "wpa_get_scan_results k scan_results bss_num arr_size d =
     bind_outcome (scan_once k 0 (- 1) d) (\<lambda>(results, d).
       if \<not> results then Returns (WMG_STATUS_FAIL, None, d)
       else (case fetch_scan_results k d of
               None \<Rightarrow> Blocks
             | Some (reply, d) \<Rightarrow>
                 bind_outcome (outcome_of_option (remove_slash_from_scan_results reply)) (\<lambda>text.
                   bind_outcome (outcome_of_option (parse_scan_results (Some text) (Some scan_results) (Some bss_num) arr_size))
                     (\<lambda>(ret, out). Returns (if c_true ret then WMG_STATUS_FAIL else WMG_STATUS_SUCCESS, out, d)))))"

section \<open>The remaining requests\<close>

definition linux_supplicant_get_info :: "'s wpa_os \<Rightarrow> wifi_sta_info \<Rightarrow> 's wpa_dev \<Rightarrow> (int \<times> wifi_sta_info \<times> 's wpa_dev) option" where
  "linux_supplicant_get_info k sta_info d =
     (case command_to_supplicant k ''STATUS'' EVENT_BUF_SIZE d of
        (ret, reply, d) \<Rightarrow>
          if ret \<noteq> 0 then Some (WMG_STATUS_FAIL, sta_info, d)
          else do {
            (ret, sta_info) \<leftarrow> wpa_parse_status_info (case reply of None \<Rightarrow> [] | Some r \<Rightarrow> r) sta_info;
            Some (if c_true ret then WMG_STATUS_FAIL else WMG_STATUS_SUCCESS, sta_info, d)
          })"

text \<open>On most paths the function ends without a return statement.\<close>

definition wpa_set_auto_reconn :: "'s wpa_os \<Rightarrow> bool \<Rightarrow> 's wpa_dev \<Rightarrow> int \<times> 's wpa_dev" where
  "wpa_set_auto_reconn k en d =
     (let d = d\<lparr>sta_wpa_auto_reconn := en\<rparr>
      in if \<not> en
         then let (status, d) = linux_sta_wpa_cmd_status k d
              in if status = 2
                 then let (ret, d) = linux_sta_wpa_cmd_disconnect k d in (if c_true ret then ret else os_garbage k, d)
                 else (os_garbage k, d)
         else (os_garbage k, snd (linux_sta_wpa_cmd_reconnect k d)))"

definition linux_set_mac :: "'s wpa_os \<Rightarrow> string \<Rightarrow> byte list option \<Rightarrow> 's wpa_dev \<Rightarrow> (int \<times> 's wpa_dev) option" where
  "linux_set_mac k ifname mac d =
     map_option (\<lambda>(ret, s). (if c_true ret then WMG_STATUS_FAIL else WMG_STATUS_SUCCESS, d\<lparr>os := s\<rparr>))
       (linux_common_set_mac k ifname mac (os d))"

definition linux_get_mac ::
    "'s wpa_os \<Rightarrow> string \<Rightarrow> byte list option \<Rightarrow> 's wpa_dev \<Rightarrow> (int \<times> byte list option \<times> 's wpa_dev) option" where
  "linux_get_mac k ifname mac d =
     map_option (\<lambda>(ret, mac, s). (if c_true ret then WMG_STATUS_FAIL else WMG_STATUS_SUCCESS, mac, d\<lparr>os := s\<rparr>))
       (linux_common_get_mac k (Some ifname) mac (os d))"

section \<open>The interface record\<close>

text \<open>The caller's buffers, by what they hold; a buffer that is not there or too small is \<open>Crash\<close>.\<close>

datatype cell =
  Info_Cell wifi_sta_info | List_Cell wifi_sta_list | Scan_Cell "wifi_scan_result list"
| Count_Cell nat | Mac_Cell "byte list"

type_synonym memory = "buf \<Rightarrow> cell option"

definition read_mac :: "buf option \<Rightarrow> memory \<Rightarrow> byte list option" where
  "read_mac b m = (case Option.bind b m of Some (Mac_Cell bs) \<Rightarrow> Some bs | _ \<Rightarrow> None)"

fun linux_platform_extension ::
    "'s wpa_os \<Rightarrow> wpa_request \<Rightarrow> 's wpa_dev \<times> memory \<Rightarrow> (int \<times> 's wpa_dev \<times> memory) outcome" where
  "linux_platform_extension k (WPA_CMD_GET_INFO b) (d, m) =
     (case m b of
        Some (Info_Cell i) \<Rightarrow>
          map_outcome_of (\<lambda>(ret, i, d). (ret, d, m(b \<mapsto> Info_Cell i))) (outcome_of_option (linux_supplicant_get_info k i d))
      | _ \<Rightarrow> Crash)"
| "linux_platform_extension k (WPA_CMD_LIST_NETWORKS b) (d, m) =
     (case m b of
        Some (List_Cell l) \<Rightarrow>
          map_outcome_of (\<lambda>(ret, l', d). (ret, d, case l' of None \<Rightarrow> m | Some l' \<Rightarrow> m(b \<mapsto> List_Cell l')))
            (outcome_of_option (linux_supplicant_list_networks k (Some l) d))
      | _ \<Rightarrow> Crash)"
| "linux_platform_extension k (WPA_CMD_REMOVE_NETWORKS ssid) (d, m) =
     map_outcome_of (\<lambda>(ret, d). (ret, d, m)) (outcome_of_option (linux_supplicant_remove_networks k ssid d))"
| "linux_platform_extension k (WPA_CMD_SET_AUTO_RECONN en) (d, m) =
     (let (ret, d) = wpa_set_auto_reconn k en d in Returns (ret, d, m))"
| "linux_platform_extension k (WPA_CMD_GET_SCAN_RESULTS r n arr_size) (d, m) =
     bind_outcome (wpa_get_scan_results k r n arr_size d) (\<lambda>(ret, out, d).
       case out of
         None \<Rightarrow> Returns (ret, d, m)
       | Some (num, es) \<Rightarrow>
           (case m r of
              Some (Scan_Cell old) \<Rightarrow>
                if length old < length es then Crash
                else Returns (ret, d, m(r \<mapsto> Scan_Cell (overlay es old), n \<mapsto> Count_Cell num))
            | _ \<Rightarrow> Crash))"
| "linux_platform_extension k (WPA_CMD_SET_MAC (ifname, b)) (d, m) =
     map_outcome_of (\<lambda>(ret, d). (ret, d, m)) (outcome_of_option (linux_set_mac k ifname (read_mac b m) d))"
| "linux_platform_extension k (WPA_CMD_GET_MAC (ifname, b)) (d, m) =
     map_outcome_of (\<lambda>(ret, mac, d). (ret, d, case (b, mac) of (Some b, Some mac) \<Rightarrow> m(b \<mapsto> Mac_Cell mac) | _ \<Rightarrow> m))
       (outcome_of_option (linux_get_mac k ifname (read_mac b m) d))"

text \<open>
  The platform as the station sees it. A call gives its result and the events it reported; one
  that does not come back gives \<open>- 1\<close> and a platform that stays as it is.
\<close>

type_synonym 's linux_plat = "('s wpa_dev \<times> memory) outcome"

definition plat_call ::
    "('s wpa_dev \<times> memory \<Rightarrow> ('r \<times> 's wpa_dev \<times> memory) outcome) \<Rightarrow> 'r \<Rightarrow> 's linux_plat \<Rightarrow> 'r \<times> wifi_sta_event list \<times> 's linux_plat" where
  "plat_call f dflt p =
     (case p of
        Returns (d, m) \<Rightarrow>
          (case f (d\<lparr>notified := []\<rparr>, m) of
             Returns (r, d, m) \<Rightarrow> (r, notified d, Returns (d, m))
           | Blocks \<Rightarrow> (dflt, [], Blocks)
           | Crash \<Rightarrow> (dflt, [], Crash))
      | Blocks \<Rightarrow> (dflt, [], Blocks)
      | Crash \<Rightarrow> (dflt, [], Crash))"

definition linux_sta_inf :: "'s wpa_os \<Rightarrow> 's linux_plat sta_inf" where
  "linux_sta_inf k = \<lparr>
     sta_wpa_init = Some (\<lambda>p. let (r, _, p) = plat_call (\<lambda>(d, m). let (r, d) = linux_supplicant_init k d in Returns (r, d, m)) (- 1) p in (r, p)),
     sta_wpa_deinit = Some (\<lambda>p. snd (plat_call (\<lambda>(d, m). map_outcome_of (\<lambda>d. ((), d, m)) (outcome_of_option (linux_supplicant_deinit k d))) () p)),
     sta_wpa_connect = plat_call (\<lambda>(d, m). map_outcome_of (\<lambda>(r, d). (r, d, m)) (outcome_of_option (linux_connect_to_supplicant k d))) (- 1),
     sta_wpa_connect_to_ap = (\<lambda>cn. plat_call (\<lambda>(d, m). map_outcome_of (\<lambda>(r, d). (r, d, m)) (linux_supplicant_connect_to_ap k cn d)) (- 1)),
     sta_wpa_disconnect = plat_call (\<lambda>(d, m). let (r, d) = linux_supplicant_disconnect_to_ap k d in Returns (r, d, m)) (- 1),
     sta_platform_extension = (\<lambda>req p. let (r, evs, p) = plat_call (linux_platform_extension k req) (- 1) p in (r, None, evs, p))\<rparr>"

text \<open>Between calls the thread goes on with the next message, if there is one.\<close>

definition silent :: "'s wpa_dev \<Rightarrow> bool" where
  "silent d \<longleftrightarrow> threads d = 0 \<or> monitor_conn d \<and> list_all (\<lambda>i. i = Quiet) (incoming d)"

definition linux_listen :: "'s wpa_os \<Rightarrow> 's linux_plat \<Rightarrow> wifi_sta_event list \<times> 's linux_plat" where
  "linux_listen k p =
     snd (plat_call (\<lambda>(d, m). if silent d then Returns ((), d, m)
                             else map_outcome_of (\<lambda>d. ((), d, m)) (wpas_event_round k d)) () p)"

end
