(* ===== verification/Wpa_Safety.thy ===== *)
theory Wpa_Safety
  imports Linux_Wpa
begin

text \<open>
  What the listening thread and the loops that wait do on an open pipe with some room, whatever
  the supplicant sends and answers: they come back, and what is in the pipe is the end of what
  the station was told.
\<close>

section \<open>Putting events into the pipe\<close>

text \<open>The pipe is open and has room for \<open>n\<close> more events.\<close>

definition room_for :: "nat \<Rightarrow> 's wpa_dev \<Rightarrow> bool" where
  "room_for n d \<longleftrightarrow> (\<exists>h. sta_event_handle d = Some h \<and> evt_socket_enable h \<and> length (evt_bytes h) + n \<le> evt_room h)"

text \<open>The step from \<open>d\<close> to \<open>d'\<close> reported the events \<open>es\<close>.\<close>

definition emits :: "wifi_sta_event list \<Rightarrow> 's wpa_dev \<Rightarrow> 's wpa_dev \<Rightarrow> bool" where
  "emits es d d' \<longleftrightarrow>
     sta_event_handle d' = map_option (\<lambda>h. h\<lparr>evt_bytes := evt_bytes h @ map event_byte es\<rparr>) (sta_event_handle d) \<and>
     notified d' = notified d @ (if sta_wpa_event_cb d then es else []) \<and>
     sta_wpa_event_cb d' = sta_wpa_event_cb d \<and> link_frame d d' \<and> monitor_conn d' = monitor_conn d \<and>
     ctrl_conn d' = ctrl_conn d"

lemma emits_refl: "emits [] d d"
  by (cases "sta_event_handle d") (simp_all add: emits_def)

lemma emits_trans: "emits es d d1 \<Longrightarrow> emits fs d1 d2 \<Longrightarrow> emits (es @ fs) d d2"
  by (cases "sta_event_handle d") (auto simp: emits_def intro: link_frame_trans)

lemma emits_room: "room_for n d \<Longrightarrow> emits es d d' \<Longrightarrow> length es \<le> n \<Longrightarrow> room_for (n - length es) d'"
  by (auto simp: room_for_def emits_def)

lemma emits_same:
  assumes "sta_event_handle d' = sta_event_handle d" "notified d' = notified d" "sta_wpa_event_cb d' = sta_wpa_event_cb d"
    "items d' = items d" "threads d' = threads d" "monitor_conn d' = monitor_conn d" "ctrl_conn d' = ctrl_conn d"
  shows "emits [] d d'"
  using assms by (cases "sta_event_handle d") (simp_all add: emits_def link_frame_def)

lemma emits_os: "emits [] d (d\<lparr>os := s\<rparr>)"
  by (rule emits_same) (simp_all add: items_def)

lemma emits_cmd: "cmd_frame d d' \<Longrightarrow> emits [] d d'"
  by (auto simp: cmd_frame_def intro!: emits_same)

lemma notify_emits:
  assumes "room_for (Suc n) d"
  shows "\<exists>d'. wpas_event_notify e d = Returns d' \<and> emits [e] d d' \<and> old_ssid d' = old_ssid d \<and> new_ssid d' = new_ssid d \<and>
    last_time d' = last_time d \<and> os d' = os d \<and> sta_wpa_auto_reconn d' = sta_wpa_auto_reconn d \<and> ctrl_conn d' = ctrl_conn d"
proof -
  obtain h where h: "sta_event_handle d = Some h" "evt_socket_enable h" "length (evt_bytes h) < evt_room h"
    using assms by (auto simp: room_for_def)
  then show ?thesis
    by (auto simp: wpas_event_notify_def evt_send_def wpas_event_notify_to_sta_dev_def upd_events_def emits_def
        event_byte_def link_frame_def items_def)
qed

section \<open>What the dispatcher reports\<close>

text \<open>
  What was reported of an address: the client was started or not, and success follows exactly when
  the interface has an address of version 4 in the end.
\<close>

lemma run_udhcpc_emits:
  assumes "room_for (Suc n) d" "\<And>d. emits [] d (keep d)"
  shows "\<exists>d' e. run_udhcpc keep k d = Returns d' \<and> emits [e] d d' \<and> (e = WIFI_DHCP_SUCCESS \<or> e = WIFI_DHCP_TIMEOUT)"
proof -
  obtain s1 where s1: "start_udhcpc k d = d\<lparr>os := s1\<rparr>" using start_udhcpc_frame[of k d] by auto
  obtain ip d2 where ip: "is_ip_exist k (d\<lparr>os := s1\<rparr>) = (ip, d2)" by fastforce
  then obtain s2 where s2: "d2 = d\<lparr>os := s2\<rparr>" using ip_frame[OF ip] by auto
  have e: "emits [] d d2" using s2 emits_os by simp
  have r: "room_for (Suc n) d2" using emits_room[OF assms(1) e] by simp
  show ?thesis
  proof (cases "ip = 4")
    case True
    obtain d3 where d3: "wpas_event_notify WIFI_DHCP_SUCCESS d2 = Returns d3" "emits [WIFI_DHCP_SUCCESS] d2 d3"
      using notify_emits[OF r] by blast
    have "emits [WIFI_DHCP_SUCCESS] d (keep d3)"
      using emits_trans[OF emits_trans[OF e d3(2)] assms(2)] by simp
    then show ?thesis using s1 ip True d3(1) by (auto simp: run_udhcpc_def)
  next
    case False
    obtain d3 where d3: "wpas_event_notify WIFI_DHCP_TIMEOUT d2 = Returns d3" "emits [WIFI_DHCP_TIMEOUT] d2 d3"
      using notify_emits[OF r] by blast
    then show ?thesis using s1 ip False emits_trans[OF e d3(2)] by (auto simp: run_udhcpc_def)
  qed
qed

lemma try_start_udhcpc_emits:
  assumes "room_for (Suc (Suc n)) d"
  shows "\<exists>d' e. try_start_udhcpc k d = Returns d' \<and> emits [WIFI_DHCP_START, e] d d' \<and>
    (e = WIFI_DHCP_SUCCESS \<or> e = WIFI_DHCP_TIMEOUT)"
proof -
  obtain now d1 where t: "on_os (os_time k) d = (now, d1)" by fastforce
  then obtain s1 where s1: "d1 = d\<lparr>os := s1\<rparr>" using on_os_eq[OF t] by auto
  let ?d = "os_do (os_sleep k 1000000) d1"
  have e1: "emits [] d ?d" using s1 emits_os by (simp add: os_do_def)
  obtain d2 where d2: "wpas_event_notify WIFI_DHCP_START ?d = Returns d2" "emits [WIFI_DHCP_START] ?d d2"
    using notify_emits[of "Suc n" ?d] emits_room[OF assms e1] by auto
  obtain ip d3 where ip: "is_ip_exist k d2 = (ip, d3)" by fastforce
  have e3: "emits [WIFI_DHCP_START] d d3"
    using ip_frame[OF ip] emits_trans[OF emits_trans[OF e1 d2(2)] emits_os] by auto
  have r: "room_for (Suc n) d3" using emits_room[OF assms e3] by simp
  have k1: "emits [] d (d\<lparr>old_ssid := new_ssid d, last_time := now\<rparr>)" and k2: "emits [] d (d\<lparr>last_time := now\<rparr>)" for d :: "'a wpa_dev"
    by (rule emits_same; simp add: items_def)+
  obtain d4 e where "emits [e] d3 d4" "e = WIFI_DHCP_SUCCESS \<or> e = WIFI_DHCP_TIMEOUT" "try_start_udhcpc k d = Returns d4"
  proof (cases "ip \<noteq> 4 \<or> old_ssid d3 \<noteq> new_ssid d3")
    case True
    obtain d4 e where "run_udhcpc (\<lambda>d. d\<lparr>old_ssid := new_ssid d, last_time := now\<rparr>) k d3 = Returns d4" "emits [e] d3 d4"
      "e = WIFI_DHCP_SUCCESS \<or> e = WIFI_DHCP_TIMEOUT" using run_udhcpc_emits[OF r k1] by blast
    then show ?thesis using that True t d2(1) ip by (simp add: try_start_udhcpc_def)
  next
    case old: False
    show ?thesis
    proof (cases "DHCP_UPDATE_SECONDS < now - last_time d3")
      case True
      obtain d4 e where "run_udhcpc (\<lambda>d. d\<lparr>last_time := now\<rparr>) k d3 = Returns d4" "emits [e] d3 d4"
        "e = WIFI_DHCP_SUCCESS \<or> e = WIFI_DHCP_TIMEOUT" using run_udhcpc_emits[OF r k2] by blast
      then show ?thesis using that True old t d2(1) ip by (simp add: try_start_udhcpc_def)
    next
      case False
      obtain d4 where "wpas_event_notify WIFI_DHCP_SUCCESS d3 = Returns d4" "emits [WIFI_DHCP_SUCCESS] d3 d4"
        using notify_emits[OF r] by blast
      then show ?thesis using that False old t d2(1) ip by (simp add: try_start_udhcpc_def)
    qed
  qed
  then show ?thesis using emits_trans[OF e3] by fastforce
qed

text \<open>The events that stand for the messages, by the names of \<open>wpa_ctrl.h\<close>.\<close>

definition named_event :: "string \<Rightarrow> wifi_sta_event option" where
  "named_event = map_of
     [(''DISCONNECTED'', WIFI_DISCONNECTED), (''SCAN-STARTED'', WIFI_SCAN_STARTED), (''SCAN-RESULTS'', WIFI_SCAN_RESULTS),
      (''SCAN-FAILED'', WIFI_SCAN_FAILED), (''NETWORK-NOT-FOUND'', WIFI_NETWORK_NOT_FOUND), (''AUTH-REJECT'', WIFI_AUTH_REJECT),
      (''ASSOC-REJECT'', WIFI_ASSOC_REJECT), (''CONNECTED'', WIFI_CONNECTED), (''TERMINATING'', WIFI_TERMINATING)]"

text \<open>The event a message stands for.\<close>

definition message_event :: "string \<Rightarrow> wifi_sta_event option" where
  "message_event s =
     (if starts ''CTRL-EVENT-'' s then Option.bind (event_name s) named_event
      else if starts ''WPA:'' s \<and> strstr ''pre-shared key may be incorrect'' s \<noteq> None then Some WIFI_PASSWORD_INCORRECT
      else None)"

text \<open>A connection is followed by the client's start and its end.\<close>

definition reports :: "wifi_sta_event option \<Rightarrow> wifi_sta_event list \<Rightarrow> bool" where
  "reports e es \<longleftrightarrow>
     (case e of
        None \<Rightarrow> es = []
      | Some e \<Rightarrow>
          if e = WIFI_CONNECTED
          then es = [WIFI_CONNECTED, WIFI_DHCP_START, WIFI_DHCP_SUCCESS] \<or> es = [WIFI_CONNECTED, WIFI_DHCP_START, WIFI_DHCP_TIMEOUT]
          else es = [e])"

lemma reports_short: "reports e es \<Longrightarrow> length es \<le> 3"
  by (auto simp: reports_def split: option.splits if_splits)

lemma reports_last: "reports e es \<Longrightarrow> WIFI_DHCP_SUCCESS \<notin> set (butlast es)"
  by (auto simp: reports_def split: option.splits if_splits)

text \<open>The room an event takes in the pipe.\<close>

definition needs :: "wifi_sta_event option \<Rightarrow> nat" where
  "needs e = (case e of None \<Rightarrow> 0 | Some e \<Rightarrow> if e = WIFI_CONNECTED then 3 else 1)"

lemma needs_le: "needs e \<le> 3"
  by (simp add: needs_def split: option.split)

lemma room_for_less: "room_for n d \<Longrightarrow> m \<le> n \<Longrightarrow> room_for m d"
  by (auto simp: room_for_def)

lemma dispatch_name_emits:
  assumes "room_for (needs (named_event name)) d"
  shows "\<exists>r d' es. dispatch_name k name d = Returns (r, d') \<and> emits es d d' \<and> reports (named_event name) es"
proof -
  have n: "\<exists>d1. wpas_event_notify e d = Returns d1 \<and> emits [e] d d1" if "named_event name = Some e" for e
    using notify_emits[of 0 d e] room_for_less[OF assms, of "Suc 0"] that by (auto simp: needs_def)
  have rc: "emits [e] d d1 \<Longrightarrow> emits [e] d (snd (linux_sta_wpa_cmd_reconnect k d1))" for e d1
    using emits_trans[of "[e]" d d1 "[]"] emits_cmd[OF command_frame]
    by (fastforce simp: linux_sta_wpa_cmd_reconnect_def split: prod.splits)
  have dc: "emits [e] d d1 \<Longrightarrow> emits [e] d (snd (linux_sta_wpa_cmd_disconnect k d1))" for e d1
    using emits_trans[of "[e]" d d1 "[]"] emits_cmd[OF command_frame]
    by (fastforce simp: linux_sta_wpa_cmd_disconnect_def split: prod.splits)
  show ?thesis
  proof (cases "named_event name")
    case None
    then have "dispatch_name k name d = Returns (0, d)"
      by (auto simp: named_event_def dispatch_name_def split: if_splits)
    then show ?thesis using emits_refl None by (auto simp: reports_def)
  next
    case (Some e)
    obtain d1 where d1: "wpas_event_notify e d = Returns d1" "emits [e] d d1" using n[OF Some] by blast
    show ?thesis
    proof (cases "e = WIFI_CONNECTED")
      case True
      then have "name = ''CONNECTED''" using Some by (auto simp: named_event_def split: if_splits)
      moreover have "room_for (Suc (Suc 0)) d1" using emits_room[OF assms d1(2)] Some True by (simp add: needs_def numeral_3_eq_3)
      then obtain d2 e' where "try_start_udhcpc k d1 = Returns d2" "emits [WIFI_DHCP_START, e'] d1 d2"
        "e' = WIFI_DHCP_SUCCESS \<or> e' = WIFI_DHCP_TIMEOUT"
        using try_start_udhcpc_emits[of 0 d1 k] by auto
      ultimately show ?thesis
        using d1 True Some emits_trans[OF d1(2)] by (fastforce simp: dispatch_name_def reports_def)
    next
      case False
      then show ?thesis
        using d1 Some rc[OF d1(2)] dc[OF d1(2)]
        by (auto simp: named_event_def dispatch_name_def reports_def split: if_splits)
    qed
  qed
qed

lemma dispatch_emits:
  assumes "room_for (needs (message_event s)) d"
  shows "\<exists>r d' es. wpas_dispatch_event k s d = Returns (r, d') \<and> emits es d d' \<and> reports (message_event s) es"
proof -
  have cnt: "emits [] d (d\<lparr>sta_auth_fail_cnt := c\<rparr>)" for c by (rule emits_same) (simp_all add: items_def)
  have n: "\<exists>d1. wpas_event_notify WIFI_PASSWORD_INCORRECT (d\<lparr>sta_auth_fail_cnt := c\<rparr>) = Returns d1 \<and>
      emits [WIFI_PASSWORD_INCORRECT] d d1" if "message_event s = Some WIFI_PASSWORD_INCORRECT" for c
  proof -
    have "room_for (Suc 0) (d\<lparr>sta_auth_fail_cnt := c\<rparr>)" using assms that by (simp add: room_for_def needs_def)
    then show ?thesis using notify_emits emits_trans[OF cnt] by fastforce
  qed
  have e0: "s \<noteq> []" if "starts ''CTRL-EVENT-'' s \<or> starts ''WPA:'' s" using that by (auto simp: starts_def)
  consider "wpas_dispatch_event k s d = Returns (0, d)" "message_event s = None"
    | d1 where "wpas_dispatch_event k s d = Returns (0, d1)" "emits [WIFI_PASSWORD_INCORRECT] d d1" "message_event s = Some WIFI_PASSWORD_INCORRECT"
    | name where "wpas_dispatch_event k s d = dispatch_name k name d" "message_event s = named_event name"
  proof (cases "starts ''CTRL-EVENT-'' s")
    case c: True
    then have ne: "s \<noteq> []" using e0 by blast
    show ?thesis
    proof (cases "event_name s")
      case None
      show ?thesis by (rule that(1)) (simp_all only: wpas_dispatch_event_def message_event_def c ne None if_True if_False not_True_eq_False option.case bind.simps)
    next
      case (Some name)
      show ?thesis by (rule that(3)[of name]) (simp_all only: wpas_dispatch_event_def message_event_def c ne Some if_True if_False not_True_eq_False option.case bind.simps)
    qed
  next
    case c: False
    show ?thesis
    proof (cases "starts ''WPA:'' s \<and> strstr ''pre-shared key may be incorrect'' s \<noteq> None")
      case True
      then have ne: "s \<noteq> []" using e0 by blast
      obtain d1 where d1: "wpas_event_notify WIFI_PASSWORD_INCORRECT (d\<lparr>sta_auth_fail_cnt := sta_auth_fail_cnt d + 1\<rparr>) = Returns d1"
        "emits [WIFI_PASSWORD_INCORRECT] d d1" using n[of "sta_auth_fail_cnt d + 1"] c True by (auto simp only: message_event_def if_False if_True simp_thms)
      show ?thesis
        by (rule that(2)[OF _ d1(2)])
          (simp_all only: wpas_dispatch_event_def message_event_def c ne True d1(1) if_True if_False not_False_eq_True bind_outcome.simps simp_thms)
    next
      case False
      then show ?thesis using that(1) c by (simp only: wpas_dispatch_event_def message_event_def if_False not_False_eq_True if_True if_cancel)
    qed
  qed
  then show ?thesis
  proof cases
    case 1
    then show ?thesis using emits_refl by (auto simp: reports_def)
  next
    case 2
    then show ?thesis by (auto simp: reports_def)
  next
    case 3
    then show ?thesis using dispatch_name_emits[of name d k] assms by simp
  qed
qed

section \<open>A round of the thread, and reading\<close>

text \<open>The messages are shorter than the thread's buffer.\<close>

definition messages_fit :: "'s wpa_dev \<Rightarrow> bool" where
  "messages_fit d \<longleftrightarrow> (\<forall>m. Message m \<in> set (items d) \<longrightarrow> length m < EVENT_BUF_SIZE - 1)"

text \<open>Events were reported, and no items were added.\<close>

definition tells :: "wifi_sta_event list \<Rightarrow> 's wpa_dev \<Rightarrow> 's wpa_dev \<Rightarrow> bool" where
  "tells es d d' \<longleftrightarrow>
     sta_event_handle d' = map_option (\<lambda>h. h\<lparr>evt_bytes := evt_bytes h @ map event_byte es\<rparr>) (sta_event_handle d) \<and>
     notified d' = notified d @ (if sta_wpa_event_cb d then es else []) \<and>
     sta_wpa_event_cb d' = sta_wpa_event_cb d \<and> set (items d') \<subseteq> set (items d) \<and> monitor_conn d' = monitor_conn d"

lemma tells_emits: "emits es d d' \<Longrightarrow> tells es d d'"
  by (simp add: emits_def tells_def link_frame_def)

lemma strip_level_fits: "length s < EVENT_BUF_SIZE - 1 \<Longrightarrow> strip_level s \<noteq> None"
  by (auto simp: strip_level_def split: option.splits)

lemma wait_on_socket_returns:
  assumes "\<not> monitor_conn d \<or> dropWhile (\<lambda>i. i = Quiet) (incoming d) \<noteq> []" "messages_fit d"
  shows "\<exists>n b inc. wifi_wait_on_socket d = Returns ((n, b), d\<lparr>incoming := inc\<rparr>) \<and> set inc \<subseteq> set (incoming d)"
proof (cases "monitor_conn d")
  case False
  then show ?thesis
    by (intro exI[of _ "fst (fabricated '' - connection closed'')"] exI[of _ "snd (fabricated '' - connection closed'')"] exI[of _ "incoming d"])
      (simp add: wifi_wait_on_socket_def)
next
  case True
  then obtain item rest where c: "dropWhile (\<lambda>i. i = Quiet) (incoming d) = item # rest"
    using assms(1) by (cases "dropWhile (\<lambda>i. i = Quiet) (incoming d)") auto
  have sub: "set (item # rest) \<subseteq> set (incoming d)" using c by (metis set_dropWhileD subsetI)
  show ?thesis
  proof (cases item)
    case (Message m)
    have "Message m \<in> set (items d)" using sub Message by (auto simp: items_def)
    then have "length m < EVENT_BUF_SIZE - 1" using assms(2) by (simp add: messages_fit_def)
    then obtain r where r: "strip_level m = Some r" "take (EVENT_BUF_SIZE - 1) m = m" using strip_level_fits[of m] by auto
    let ?r = "if m = [] then fabricated '' - signal 0 received'' else r"
    have "wifi_wait_on_socket d = Returns (?r, d\<lparr>incoming := rest\<rparr>)"
      using True c Message r by (simp add: wifi_wait_on_socket_def Let_def)
    then show ?thesis using sub by (intro exI[of _ "fst ?r"] exI[of _ "snd ?r"] exI[of _ rest]) simp
  next
    case Exit_Signal
    let ?r = "fabricated '' - connection closed''"
    show ?thesis
      by (intro exI[of _ "fst ?r"] exI[of _ "snd ?r"] exI[of _ "Exit_Signal # rest"])
        (use True c sub Exit_Signal in \<open>simp add: wifi_wait_on_socket_def\<close>)
  qed (use True c sub in \<open>auto simp: wifi_wait_on_socket_def fabricated_def\<close>)
qed

lemma round_tells:
  assumes "room_for 3 d" "messages_fit d" "\<not> monitor_conn d \<or> dropWhile (\<lambda>i. i = Quiet) (incoming d) \<noteq> []"
  shows "\<exists>d' e es. wpas_event_round k d = Returns d' \<and> tells es d d' \<and> reports e es"
proof -
  obtain n b inc where w: "wifi_wait_on_socket d = Returns ((n, b), d\<lparr>incoming := inc\<rparr>)" "set inc \<subseteq> set (incoming d)"
    using wait_on_socket_returns[OF assms(3,2)] by blast
  let ?d = "d\<lparr>incoming := inc\<rparr>"
  have t0: "tells es d d'" if "emits es ?d d'" for es d'
    using that w(2) by (auto simp: tells_def emits_def link_frame_def items_def)
  show ?thesis
  proof (cases "0 < n")
    case False
    have "emits [] ?d ?d" by (rule emits_refl)
    then have "tells [] d ?d" by (rule t0)
    then show ?thesis using w(1) False by (intro exI[of _ ?d] exI[of _ None] exI[of _ "[]"]) (simp add: wpas_event_round_def reports_def)
  next
    case True
    have "room_for (needs (message_event b)) ?d"
      using room_for_less[OF assms(1) needs_le[of "message_event b"]] by (simp add: room_for_def)
    then obtain r d1 es where d1: "wpas_dispatch_event k b ?d = Returns (r, d1)" "emits es ?d d1" "reports (message_event b) es"
      using dispatch_emits by blast
    have "tells es d (d1\<lparr>threads := threads d1 - 1\<rparr>)" "tells es d d1"
      using t0[OF d1(2)] by (simp_all add: tells_def items_def)
    then show ?thesis using w(1) True d1 by (auto simp: wpas_event_round_def)
  qed
qed

text \<open>
  The state in which a call waits: the pipe is open with room for the three events of one message,
  what it holds is the end of what the station was told, and an acquired address is the last of it.
\<close>

definition waiting :: "'s wpa_dev \<Rightarrow> bool" where
  "waiting d \<longleftrightarrow> (\<exists>h. sta_event_handle d = Some h \<and> evt_socket_enable h \<and> 3 \<le> evt_room h \<and>
     event_byte WIFI_DHCP_SUCCESS \<notin> set (butlast (evt_bytes h)) \<and>
     (sta_wpa_event_cb d \<longrightarrow> (\<exists>pre. map event_byte (notified d) = pre @ evt_bytes h))) \<and> messages_fit d"

lemma event_byte_inject [simp]: "event_byte e = event_byte f \<longleftrightarrow> e = f"
  by (metis event_byte_of)

lemma reports_bytes: "reports e es \<Longrightarrow> event_byte WIFI_DHCP_SUCCESS \<notin> set (butlast (map event_byte es))"
  using reports_last[of e es] by (auto simp: map_butlast[symmetric])

lemma round_waiting:
  assumes "waiting d" "in_pipe d = 0" "\<not> monitor_conn d \<or> dropWhile (\<lambda>i. i = Quiet) (incoming d) \<noteq> []"
  shows "\<exists>d'. wpas_event_round k d = Returns d' \<and> waiting d'"
proof -
  obtain h where h: "sta_event_handle d = Some h" "evt_socket_enable h" "3 \<le> evt_room h" "evt_bytes h = []"
    using assms(1,2) by (auto simp: waiting_def in_pipe_def)
  have "room_for 3 d" "messages_fit d" using h assms(1) by (auto simp: room_for_def waiting_def)
  then obtain d' e es where d': "wpas_event_round k d = Returns d'" "tells es d d'" "reports e es"
    using round_tells[OF _ _ assms(3)] by blast
  have "waiting d'"
    using d'(2,3) h assms(1) reports_bytes[of e es] by (auto simp: waiting_def tells_def messages_fit_def)
  then show ?thesis using d'(1) by blast
qed

text \<open>Reading comes back; an event that was read was the first of the pipe.\<close>

lemma await_waiting:
  assumes "waiting d"
  shows "\<exists>r ev d'. evt_await k d = Returns (r, ev, d') \<and> waiting d' \<and> sta_wpa_event_cb d' = sta_wpa_event_cb d \<and>
    (0 < r \<longrightarrow> ev \<noteq> None) \<and>
    (ev = Some (sta_event_num WIFI_DHCP_SUCCESS) \<longrightarrow>
       in_pipe d' = 0 \<and> (sta_wpa_event_cb d' \<longrightarrow> notified d' \<noteq> [] \<and> last (notified d') = WIFI_DHCP_SUCCESS))"
  using assms
proof (induction k d rule: evt_await.induct)
  case (1 k d)
  obtain h where h: "sta_event_handle d = Some h" "evt_socket_enable h" using 1(2) by (auto simp: waiting_def)
  show ?case
  proof (cases "evt_socket_enable h \<and> evt_bytes h = [] \<and> 0 < threads d \<and> (monitor_conn d \<longrightarrow> incoming d \<noteq> [])")
    case wait: True
    show ?thesis
    proof (cases "monitor_conn d \<and> hd (incoming d) = Quiet")
      case True
      obtain rest where i: "incoming d = Quiet # rest" using True wait by (cases "incoming d") auto
      have "waiting (d\<lparr>incoming := rest\<rparr>)" using 1(2) i by (auto simp: waiting_def messages_fit_def items_def)
      then show ?thesis using h wait True i by (subst evt_await.simps) simp
    next
      case False
      have "\<not> monitor_conn d \<or> dropWhile (\<lambda>i. i = Quiet) (incoming d) \<noteq> []"
        using False wait by (cases "incoming d") auto
      then obtain d1 where d1: "wpas_event_round k d = Returns d1" "waiting d1"
        using round_waiting[OF 1(2)] wait h by (auto simp: in_pipe_def)
      have cb: "sta_wpa_event_cb d1 = sta_wpa_event_cb d"
        using round_tells[of d k] d1(1) 1(2) h wait False \<open>\<not> monitor_conn d \<or> dropWhile (\<lambda>i. i = Quiet) (incoming d) \<noteq> []\<close>
        by (auto simp: tells_def waiting_def room_for_def)
      have "evt_await k d = evt_await k d1"
        using h wait False d1(1) by (subst evt_await.simps) auto
      then show ?thesis using 1(1)[OF h(1) wait False d1(1) d1(2)] cb by simp
    qed
  next
    case False
    have e: "evt_await k d = (case evt_read h of (ret, ev, h) \<Rightarrow> Returns (ret, ev, d\<lparr>sta_event_handle := Some h\<rparr>))"
      using False h by (subst evt_await.simps) auto
    show ?thesis
    proof (cases "evt_bytes h")
      case Nil
      have "waiting (d\<lparr>sta_event_handle := Some h\<rparr>)" using 1(2) h by (auto simp: waiting_def messages_fit_def items_def)
      then show ?thesis using e h Nil by (simp add: evt_read_def)
    next
      case (Cons c cs)
      let ?d = "d\<lparr>sta_event_handle := Some (h\<lparr>evt_bytes := cs\<rparr>)\<rparr>"
      have a: "evt_await k d = Returns (1, Some (sint c), ?d)" using e h(2) Cons by (simp add: evt_read_def)
      have nb: "event_byte WIFI_DHCP_SUCCESS \<notin> set (butlast (c # cs))" using 1(2) h Cons by (auto simp: waiting_def)
      have sub: "\<exists>pre. map event_byte (notified d) = pre @ c # cs" if "sta_wpa_event_cb d"
        using 1(2) h Cons that by (auto simp: waiting_def)
      have w: "waiting ?d"
        using 1(2) h Cons nb sub
        by (auto simp: waiting_def messages_fit_def items_def split: if_splits intro: exI[of _ "_ @ [c]"])
      have s: "cs = [] \<and> (sta_wpa_event_cb d \<longrightarrow> notified d \<noteq> [] \<and> last (notified d) = WIFI_DHCP_SUCCESS)"
        if "sint c = sta_event_num WIFI_DHCP_SUCCESS"
      proof -
        have c: "c = event_byte WIFI_DHCP_SUCCESS"
        proof -
          have "(word_of_int (sint c) :: byte) = c" by simp
          then show ?thesis using that by (simp add: event_byte_def)
        qed
        have cs: "cs = []" using nb c by (cases cs) auto
        moreover have "notified d \<noteq> [] \<and> last (notified d) = WIFI_DHCP_SUCCESS" if cb: "sta_wpa_event_cb d"
        proof -
          obtain pre where p: "map event_byte (notified d) = pre @ [event_byte WIFI_DHCP_SUCCESS]" using sub[OF cb] c cs by auto
          then have "notified d \<noteq> []" by auto
          moreover have "event_byte (last (notified d)) = event_byte WIFI_DHCP_SUCCESS"
            using p calculation by (metis last_map last_snoc)
          ultimately show ?thesis by simp
        qed
        ultimately show ?thesis by blast
      qed
      show ?thesis using a w s by (auto simp: in_pipe_def)
    qed
  qed
qed

section \<open>The loop that waits for a connection\<close>

lemma waiting_cmd: "cmd_frame d d' \<Longrightarrow> waiting d \<Longrightarrow> waiting d'"
  by (auto simp: cmd_frame_def waiting_def messages_fit_def)

lemma waiting_cnt [simp]:
  "waiting (d\<lparr>sta_auth_fail_cnt := c\<rparr>) = waiting d" "waiting (d\<lparr>sta_net_not_found_cnt := c\<rparr>) = waiting d"
  "waiting (d\<lparr>sta_assoc_reject_cnt := c\<rparr>) = waiting d"
  by (simp_all add: waiting_def messages_fit_def items_def)

text \<open>What a return of the loop means.\<close>

definition wait_result :: "int \<Rightarrow> 's wpa_dev \<Rightarrow> bool" where
  "wait_result ret d \<longleftrightarrow> waiting d \<and> (ret = WMG_STATUS_SUCCESS \<or> ret = WMG_STATUS_FAIL \<or> ret = WMG_STATUS_NOT_READY) \<and>
     (ret = WMG_STATUS_SUCCESS \<longrightarrow> in_pipe d = 0 \<and> (sta_wpa_event_cb d \<longrightarrow> notified d \<noteq> [] \<and> last (notified d) = WIFI_DHCP_SUCCESS))"

lemma connect_wait_returns:
  assumes "waiting d" "ret = WMG_STATUS_FAIL \<or> ret = WMG_STATUS_NOT_READY"
  shows "\<exists>ret' d'. connect_wait k n ret d = Returns (ret', d') \<and> wait_result ret' d' \<and> sta_wpa_event_cb d' = sta_wpa_event_cb d"
  using assms
proof (induction k n ret d rule: connect_wait.induct)
  case (1 k n ret d)
  show ?case
  proof (cases "EVENT_TRY_MAX \<le> n")
    case True
    then show ?thesis using 1(5,6) by (subst connect_wait.simps) (auto simp: wait_result_def)
  next
    case False
    obtain r ev d1 where a: "evt_await k d = Returns (r, ev, d1)" and w: "waiting d1" and cb: "sta_wpa_event_cb d1 = sta_wpa_event_cb d"
      and ev: "0 < r \<longrightarrow> ev \<noteq> None" "ev = Some (sta_event_num WIFI_DHCP_SUCCESS) \<longrightarrow>
        in_pipe d1 = 0 \<and> (sta_wpa_event_cb d1 \<longrightarrow> notified d1 \<noteq> [] \<and> last (notified d1) = WIFI_DHCP_SUCCESS)"
      using await_waiting[OF 1(5)] by blast
    have rr: "ret = WMG_STATUS_FAIL \<or> ret = WMG_STATUS_NOT_READY" using 1(6) .
    note st = connect_wait.simps[of k n ret d, unfolded a, simplified False, simplified]
    note ih = 1(1-4)[OF False a refl refl]
    show ?thesis
    proof (cases "0 < r")
      case r: True
      consider "ev = Some (sta_event_num WIFI_CONNECTED) \<or> ev = Some (sta_event_num WIFI_DHCP_START)"
        | "ev = Some (sta_event_num WIFI_DHCP_TIMEOUT)" | "ev = Some (sta_event_num WIFI_DHCP_SUCCESS)"
        | "ev = Some (sta_event_num WIFI_PASSWORD_INCORRECT)" | "ev = Some (sta_event_num WIFI_NETWORK_NOT_FOUND)"
        | "ev = Some (sta_event_num WIFI_ASSOC_REJECT)"
        | "ev \<notin> Some ` sta_event_num ` {WIFI_CONNECTED, WIFI_DHCP_START, WIFI_DHCP_TIMEOUT, WIFI_DHCP_SUCCESS,
             WIFI_PASSWORD_INCORRECT, WIFI_NETWORK_NOT_FOUND, WIFI_ASSOC_REJECT}"
        by auto
      then show ?thesis
      proof cases
        case 1
        then show ?thesis using st r ih(1) w cb by auto
      next
        case 5
        then show ?thesis using st r ih(2) w cb rr by auto
      next
        case 7
        then show ?thesis using st r ih(3) w cb rr by auto
      qed (use st r w cb ev rr in \<open>auto simp: wait_result_def\<close>)
    next
      case False
      then show ?thesis using st ih(4) w cb rr by auto
    qed
  qed
qed

section \<open>The commands of a connection\<close>

text \<open>A step that sends commands and always comes back.\<close>

definition cmd_step :: "('s wpa_dev \<Rightarrow> (int \<times> 's wpa_dev) option) \<Rightarrow> bool" where
  "cmd_step f \<longleftrightarrow> (\<forall>d. \<exists>r d'. f d = Some (r, d') \<and> cmd_frame d d')"

lemma cmd_step_done: "cmd_step (\<lambda>d. Some (r, d))"
  by (simp add: cmd_step_def cmd_frame_refl)

lemma cmd_then_step:
  assumes "length cmd \<le> CMD_MAX_LEN" "cmd_step next"
  shows "cmd_step (cmd_then k cmd next)"
  unfolding cmd_step_def
proof
  fix d :: "'a wpa_dev"
  obtain ret reply d1 where c: "command_to_supplicant k cmd EVENT_BUF_SIZE d = (ret, reply, d1)"
    using prod_cases3 by blast
  obtain r d2 where "next d1 = Some (r, d2)" "cmd_frame d1 d2" using assms(2) unfolding cmd_step_def by blast
  then show "\<exists>r d'. cmd_then k cmd next d = Some (r, d') \<and> cmd_frame d d'"
    using c command_frame[OF c] cmd_frame_trans assms(1) by (auto simp: cmd_then_def fits_def)
qed

text \<open>Names and passphrases that fit the commands; a WEP key must be there.\<close>

definition para_fits :: "wifi_sta_cn_para \<Rightarrow> bool" where
  "para_fits cn \<longleftrightarrow> (\<exists>ssid. cn_ssid cn = Some ssid \<and> length ssid < 64) \<and>
     (case cn_password cn of None \<Rightarrow> cn_sec cn \<noteq> WIFI_SEC_WEP | Some p \<Rightarrow> length p < 64)"

lemma select_security_step:
  assumes "para_fits cn" "length pre \<le> 20" "cmd_step next"
  shows "cmd_step (select_security k cn pre next)"
proof (cases "cn_sec cn")
  case WIFI_SEC_NONE
  then show ?thesis using assms by (auto simp: select_security_def intro: cmd_then_step)
next
  case WIFI_SEC_WEP
  then obtain p where p: "cn_password cn = Some p" using assms(1) by (cases "cn_password cn") (auto simp: para_fits_def)
  have k: "cmd_step (cmd_then k (pre @ ''wep_key0 '' @ key) (cmd_then k (pre @ ''auth_alg OPEN SHARED'') next))"
    if "length key \<le> 26" for key
    using that assms by (intro cmd_then_step) auto
  have "cmd_step (\<lambda>d. let wep = \<lambda>key. cmd_then k (pre @ ''wep_key0 '' @ key) (cmd_then k (pre @ ''auth_alg OPEN SHARED'') next) d
      in if length p = 10 \<or> length p = 26 then wep p else if length p = 5 \<or> length p = 13 then wep (quoted p)
         else Some (WMG_STATUS_FAIL, d))"
    using k[of p] k[of "quoted p"] cmd_frame_refl unfolding cmd_step_def Let_def by (auto simp: quoted_def)
  then show ?thesis using WIFI_SEC_WEP p assms(2) unfolding select_security_def by (auto intro!: cmd_then_step)
next
  case WIFI_SEC_WPA_PSK
  have "cmd_step (\<lambda>d. if check_wpa_password (cn_password cn) \<noteq> 0 then Some (WMG_STATUS_INVALID, d)
     else (case cn_password cn of None \<Rightarrow> None | Some p \<Rightarrow> cmd_then k (pre @ ''psk '' @ quoted p) next d))"
  proof (cases "cn_password cn")
    case (Some p)
    have "cmd_step (cmd_then k (pre @ ''psk '' @ quoted p) next)"
      using assms Some by (intro cmd_then_step) (auto simp: quoted_def para_fits_def)
    then show ?thesis using Some cmd_frame_refl by (auto simp: cmd_step_def)
  qed (auto simp: cmd_step_def check_wpa_password_def cmd_frame_refl)
  then show ?thesis using WIFI_SEC_WPA_PSK assms(2) by (auto simp: select_security_def intro!: cmd_then_step)
next
  case WIFI_SEC_WPA2_PSK
  have "cmd_step (\<lambda>d. if check_wpa_password (cn_password cn) \<noteq> 0 then Some (WMG_STATUS_INVALID, d)
     else (case cn_password cn of None \<Rightarrow> None | Some p \<Rightarrow> cmd_then k (pre @ ''psk '' @ quoted p) next d))"
  proof (cases "cn_password cn")
    case (Some p)
    have "cmd_step (cmd_then k (pre @ ''psk '' @ quoted p) next)"
      using assms Some by (intro cmd_then_step) (auto simp: quoted_def para_fits_def)
    then show ?thesis using Some cmd_frame_refl by (auto simp: cmd_step_def)
  qed (auto simp: cmd_step_def check_wpa_password_def cmd_frame_refl)
  then show ?thesis using WIFI_SEC_WPA2_PSK assms(2) by (auto simp: select_security_def intro!: cmd_then_step)
qed

lemma reply_length: "command_to_supplicant k cmd n d = (r, Some t, d') \<Longrightarrow> length t \<le> n - 1"
  by (auto simp: command_to_supplicant_def wifi_send_command_def strip_newline_def Let_def le_diff_conv
      split: if_splits prod.splits)

lemma select_network_returns:
  assumes "para_fits cn"
  shows "\<exists>r netid d'. wpas_select_network k cn d = Some (r, netid, d') \<and> length netid \<le> 7 \<and> cmd_frame d d'"
proof -
  obtain ret reply d1 where c: "command_to_supplicant k ''ADD_NETWORK'' 8 d = (ret, reply, d1)"
    using prod_cases3 by blast
  define netid where "netid = (case reply of None \<Rightarrow> [] | Some r \<Rightarrow> r)"
  have len: "length netid \<le> 7" using reply_length[of k "''ADD_NETWORK''" 8 d ret _ d1] c by (auto simp: netid_def split: option.splits)
  obtain ssid where ssid: "cn_ssid cn = Some ssid" "length ssid < 64" using assms by (auto simp: para_fits_def)
  let ?pre = "''SET_NETWORK '' @ netid @ '' ''"
  have "cmd_step (cmd_then k (?pre @ ''ssid '' @ quoted ssid) (cmd_then k (?pre @ ''scan_ssid 1'')
      (select_security k cn ?pre (cmd_then k (''SELECT_NETWORK '' @ netid) (\<lambda>d. Some (0, d))))))"
    using len ssid(2) assms by (intro cmd_then_step select_security_step cmd_step_done) (auto simp: quoted_def)
  then obtain r d2 where "cmd_then k (?pre @ ''ssid '' @ quoted ssid) (cmd_then k (?pre @ ''scan_ssid 1'')
      (select_security k cn ?pre (cmd_then k (''SELECT_NETWORK '' @ netid) (\<lambda>d. Some (0, d))))) d1 = Some (r, d2)" "cmd_frame d1 d2"
    unfolding cmd_step_def by blast
  then show ?thesis
    using c len ssid(1) command_frame[OF c] cmd_frame_trans
    by (cases "ret = 0") (auto simp: wpas_select_network_def Let_def netid_def[symmetric])
qed

lemma remove_network_returns:
  assumes "length netid \<le> 85"
  shows "\<exists>r d'. remove_network k netid d = Some (r, d') \<and> cmd_frame d d'"
proof -
  obtain ret reply d1 where c: "command_to_supplicant k (''REMOVE_NETWORK '' @ netid) EVENT_BUF_SIZE d = (ret, reply, d1)"
    using prod_cases3 by blast
  then show ?thesis using assms command_frame[OF c] by (simp add: remove_network_def fits_def)
qed

section \<open>Connecting to a network\<close>

text \<open>An open pipe that can be cleared, and messages that fit the buffer.\<close>

definition ready :: "'s wpa_dev \<Rightarrow> bool" where
  "ready d \<longleftrightarrow> (\<exists>h. sta_event_handle d = Some h \<and> evt_socket_enable h \<and> 3 \<le> evt_room h \<and>
     evt_getfl_ok h \<and> evt_setfl_ok h) \<and> messages_fit d"

lemma ready_cmd: "cmd_frame d d' \<Longrightarrow> ready d \<Longrightarrow> ready d'"
  by (auto simp: cmd_frame_def ready_def messages_fit_def)

lemma cmd_frame_told: "cmd_frame d d' \<Longrightarrow> notified d' = notified d \<and> sta_wpa_event_cb d' = sta_wpa_event_cb d"
  by (auto simp: cmd_frame_def)

text \<open>What the station knows when the call returns: success only behind an acquired address.\<close>

definition told :: "int \<Rightarrow> wifi_sta_event set \<Rightarrow> 's wpa_dev \<Rightarrow> bool" where
  "told ret es d \<longleftrightarrow> (ret = WMG_STATUS_SUCCESS \<longrightarrow> sta_wpa_event_cb d \<longrightarrow> notified d \<noteq> [] \<and> last (notified d) \<in> es)"

definition connect_codes :: "int set" where
  "connect_codes = {WMG_STATUS_SUCCESS, WMG_STATUS_FAIL, WMG_STATUS_NOT_READY}"

lemma connect_finish_returns:
  assumes "waiting d" "length netid \<le> 85"
  shows "\<exists>r d'. connect_finish k netid d = Returns (r, d') \<and> r \<in> connect_codes \<and> told r {WIFI_DHCP_SUCCESS} d' \<and>
    sta_wpa_event_cb d' = sta_wpa_event_cb d"
proof -
  obtain r d1 where w: "connect_wait k 0 WMG_STATUS_FAIL d = Returns (r, d1)" "wait_result r d1"
    "sta_wpa_event_cb d1 = sta_wpa_event_cb d" using connect_wait_returns[OF assms(1)] by blast
  show ?thesis
  proof (cases "r = WMG_STATUS_SUCCESS")
    case True
    obtain r2 t d2 where c: "command_to_supplicant k ''SAVE_CONFIG'' EVENT_BUF_SIZE d1 = (r2, t, d2)" using prod_cases3 by blast
    have "connect_finish k netid d = Returns (r, d2)" using w(1) True c by (simp add: connect_finish_def)
    then show ?thesis using w(2,3) cmd_frame_told[OF command_frame[OF c]] True
      by (auto simp: told_def wait_result_def connect_codes_def)
  next
    case False
    obtain r2 d2 where "remove_network k netid d1 = Some (r2, d2)" "cmd_frame d1 d2"
      using remove_network_returns[OF assms(2)] by blast
    then show ?thesis using w False cmd_frame_told[of d1 d2]
      by (auto simp: connect_finish_def told_def wait_result_def connect_codes_def)
  qed
qed

lemma connect_new_returns:
  assumes "ready d" "para_fits cn"
  shows "\<exists>r d'. connect_new k cn d = Returns (r, d') \<and> r \<in> connect_codes \<and> told r {WIFI_DHCP_SUCCESS} d' \<and>
    sta_wpa_event_cb d' = sta_wpa_event_cb d"
proof -
  obtain h where h: "sta_event_handle d = Some h" "evt_socket_enable h" "3 \<le> evt_room h" "evt_getfl_ok h" "evt_setfl_ok h"
    using assms(1) by (auto simp: ready_def)
  obtain ssid where ssid: "cn_ssid cn = Some ssid" "length ssid < 64" using assms(2) by (auto simp: para_fits_def)
  let ?d = "d\<lparr>sta_event_handle := Some (h\<lparr>evt_bytes := []\<rparr>), new_ssid := ssid\<rparr>"
  have clear: "snd (evt_socket_clear h) = h\<lparr>evt_bytes := []\<rparr>" using h by (simp add: evt_socket_clear_def)
  have w: "waiting ?d" using h assms(1) by (auto simp: waiting_def ready_def messages_fit_def items_def)
  obtain r netid d1 where s: "wpas_select_network k cn ?d = Some (r, netid, d1)" "length netid \<le> 7" "cmd_frame ?d d1"
    using select_network_returns[OF assms(2)] by blast
  have w1: "waiting d1" by (rule waiting_cmd[OF s(3) w])
  have cb: "sta_wpa_event_cb d1 = sta_wpa_event_cb d" using cmd_frame_told[OF s(3)] by simp
  show ?thesis
  proof (cases "c_true r")
    case True
    then show ?thesis using h(1) ssid clear s(1) cb
      by (auto simp: connect_new_def fits_def told_def connect_codes_def wpas_event_notify_to_sta_dev_def upd_events_def)
  next
    case False
    then show ?thesis
      using h(1) ssid clear s(1,2) cb connect_finish_returns[OF w1, of netid k] by (auto simp: connect_new_def fits_def)
  qed
qed

section \<open>Looking a network up\<close>

text \<open>
  The list as the supplicant prints it: no tab in the header, and what a line has before its first
  tab (the number) is not longer than 85 characters.
\<close>

definition is_line :: "string \<Rightarrow> string \<Rightarrow> bool" where
  "is_line l s \<longleftrightarrow> (\<exists>a b. s = a @ NL # l @ b \<and> NL \<notin> set l \<and> (b = [] \<or> hd b = NL))"

definition list_ok :: "string \<Rightarrow> bool" where
  "list_ok reply \<longleftrightarrow> TAB \<notin> set (takeWhile (\<lambda>c. c \<noteq> NL) reply) \<and>
     (\<forall>l t r. is_line l reply \<longrightarrow> strtok [TAB] l = Some (t, r) \<longrightarrow> length t \<le> 85)"

lemma last_line_Some:
  assumes "last_line s = Some l"
  shows "\<exists>p. s = p @ NL # l \<and> NL \<notin> set l"
proof -
  have nl: "NL \<in> set (rev s)" and l: "l = rev (takeWhile (\<lambda>c. c \<noteq> NL) (rev s))"
    using assms by (auto simp: last_line_def split: if_splits)
  obtain a b where ab: "rev s = a @ NL # b" "NL \<notin> set a" using nl by (meson split_list_first)
  then have "takeWhile (\<lambda>c. c \<noteq> NL) (rev s) = a" by (auto simp: takeWhile_append)
  then have "l = rev a" using l by simp
  moreover have "s = rev b @ NL # rev a" using arg_cong[OF ab(1), of rev] by simp
  ultimately show ?thesis using ab(2) by auto
qed

lemma takeWhile_no: "x \<notin> set a \<Longrightarrow> takeWhile (\<lambda>c. c \<noteq> x) (a @ b) = a @ takeWhile (\<lambda>c. c \<noteq> x) b"
  by (induction a) auto

lemma exist_loop_returns:
  assumes "ssid \<noteq> []" "NL \<notin> set ssid" "list_ok reply" "reply = q @ ptr" "q = [] \<or> ptr \<noteq> [] \<and> hd ptr = NL"
    "length net_id \<le> 85"
  shows "\<exists>x n d'. exist_loop k ssid kt len net_id flag ptr d = Some (Returns (x, n, d')) \<and> length n \<le> 85 \<and> cmd_frame d d'"
  using assms(4-)
proof (induction "length ptr" arbitrary: q ptr net_id flag d rule: less_induct)
  case less
  show ?case
  proof (cases "strstr ssid ptr")
    case None
    then show ?thesis using less(4) cmd_frame_refl by (subst exist_loop.simps) simp
  next
    case (Some bs)
    obtain before start where bs: "bs = (before, start)" by fastforce
    then have ptr: "ptr = before @ start" and st: "starts ssid start" using strstr_Some[of ssid ptr before start] Some by auto
    then obtain aft where start: "start = ssid @ aft" by (auto simp: starts_iff)
    have hd_start: "start \<noteq> [] \<and> hd start \<noteq> NL" using assms(1,2) start by (cases ssid) auto
    have next_ptr: "\<exists>x n d'. exist_loop k ssid kt len n1 f1 (NL # rest) d1 = Some (Returns (x, n, d')) \<and> length n \<le> 85 \<and> cmd_frame d d'"
      if "strchr NL start = Some (a, rest)" "length n1 \<le> 85" "cmd_frame d d1" for a rest n1 f1 d1
    proof -
      have s: "start = a @ NL # rest" using that(1) by (simp add: strchr_Some)
      then have "a \<noteq> []" using hd_start by auto
      then have "length (NL # rest) < length ptr" using ptr s by simp
      moreover have "reply = (q @ before @ a) @ NL # rest" using less(2) ptr s by simp
      ultimately show ?thesis using less(1)[of "NL # rest" "q @ before @ a" n1 f1 d1] that(2,3) cmd_frame_trans by fastforce
    qed
    show ?thesis
    proof (cases "starts [TAB] (drop (length ssid) start)")
      case False
      show ?thesis
      proof (cases "strchr NL start")
        case None
        then show ?thesis using Some bs False less(4) cmd_frame_refl by (subst exist_loop.simps) simp
      next
        case (Some ar)
        then show ?thesis
          using \<open>strstr ssid ptr = Some bs\<close> bs False next_ptr[of "fst ar" "snd ar" net_id d flag] less(4) cmd_frame_refl[of d]
          by (subst exist_loop.simps) (cases ar; simp)
      qed
    next
      case tab: True
      then obtain aft' where aft: "aft = TAB # aft'" using start by (auto simp: starts_iff)
      have "NL \<in> set before"
      proof (rule ccontr)
        assume n: "NL \<notin> set before"
        show False
        proof (cases "q = []")
          case True
          have "takeWhile (\<lambda>c. c \<noteq> NL) reply = before @ ssid @ TAB # takeWhile (\<lambda>c. c \<noteq> NL) aft'"
            using less(2) True ptr start aft n assms(2) by (simp add: takeWhile_no)
          then show False using assms(3) by (simp add: list_ok_def)
        next
          case False
          then have "hd ptr = NL" "ptr \<noteq> []" using less(3) by auto
          then show False using n hd_start ptr by (cases before) auto
        qed
      qed
      then obtain ls where ls: "last_line before = Some ls" by (auto simp: last_line_def)
      then obtain p where p: "before = p @ NL # ls" "NL \<notin> set ls" using last_line_Some by blast
      let ?line = "ls @ takeWhile (\<lambda>c. c \<noteq> NL) start"
      let ?flag = "if strstr ''CURRENT'' ?line \<noteq> None then 2 else 0 :: int"
      let ?id = "case strtok [TAB] ?line of None \<Rightarrow> net_id | Some (p, _) \<Rightarrow> take (len - 1) p"
      let ?cmd = "''GET_NETWORK '' @ ?id @ '' key_mgmt''"
      have "is_line ?line reply"
        unfolding is_line_def
      proof (intro exI conjI)
        show "reply = (q @ p) @ NL # ?line @ dropWhile (\<lambda>c. c \<noteq> NL) start" using less(2) ptr p(1) by simp
        show "NL \<notin> set ?line" using p(2) by (auto dest: set_takeWhileD)
        show "dropWhile (\<lambda>c. c \<noteq> NL) start = [] \<or> hd (dropWhile (\<lambda>c. c \<noteq> NL) start) = NL"
          using hd_dropWhile[of "\<lambda>c. c \<noteq> NL" start] by blast
      qed
      then have id: "length ?id \<le> 85"
        using assms(3) less(4) by (auto simp: list_ok_def min_le_iff_disj split: option.splits)
      obtain ret kr d1 where c: "command_to_supplicant k ?cmd 128 d = (ret, kr, d1)" using prod_cases3 by blast
      have fc: "fits (CMD_LEN + 1) ?cmd = Some ?cmd" using id by simp
      have eq: "exist_loop k ssid kt len net_id flag ptr d =
         (if ret \<noteq> 0 then Some (Returns (- 1, ?id, d1))
          else if kr = Some kt then Some (Returns (?flag + 1, ?id, d1))
          else (case strchr NL start of None \<Rightarrow> Some (Returns (?flag, ?id, d1))
                | Some (_, rest) \<Rightarrow> exist_loop k ssid kt len ?id ?flag (NL # rest) d1))"
        using Some bs tab ls fc c by (subst exist_loop.simps) (simp only: option.case prod.case Let_def not_True_eq_False if_False)
      obtain n0 f0 where n0: "length n0 \<le> 85" and e0: "exist_loop k ssid kt len net_id flag ptr d =
         (if ret \<noteq> 0 then Some (Returns (- 1, n0, d1))
          else if kr = Some kt then Some (Returns (f0 + 1, n0, d1))
          else (case strchr NL start of None \<Rightarrow> Some (Returns (f0, n0, d1))
                | Some (_, rest) \<Rightarrow> exist_loop k ssid kt len n0 f0 (NL # rest) d1))"
        using eq id by blast
      show ?thesis
      proof (cases "strchr NL start")
        case None
        then show ?thesis using e0 n0 command_frame[OF c] by simp
      next
        case (Some ar)
        obtain a rest where ar: "ar = (a, rest)" by fastforce
        show ?thesis
          using e0 n0 command_frame[OF c] Some ar next_ptr[OF _ n0 command_frame[OF c], of a rest f0] by simp
      qed
    qed
  qed
qed

text \<open>The list that is fetched in this state, when it is.\<close>

definition lists_ok :: "'s wpa_os \<Rightarrow> 's wpa_dev \<Rightarrow> bool" where
  "lists_ok k d \<longleftrightarrow> (case list_networks k d of (ret, reply, _) \<Rightarrow> ret = 0 \<longrightarrow> list_ok reply)"

lemma exist_returns:
  assumes "NL \<notin> set ssid" "lists_ok k d"
  shows "\<exists>x netid d'. wpa_conf_is_ap_exist k ssid sec len d = Returns (x, netid, d') \<and> length netid \<le> 85 \<and> cmd_frame d d'"
proof (cases "ssid = []")
  case False
  obtain ret reply d1 where l: "list_networks k d = (ret, reply, d1)" using prod_cases3 by blast
  have f: "cmd_frame d d1"
    using l command_frame by (fastforce simp: list_networks_def split: prod.splits)
  show ?thesis
  proof (cases "ret = 0")
    case True
    then show ?thesis
      using l False f assms(2) exist_loop_returns[of ssid reply "[]" reply "[]" k "key_type_of sec" len 0 d1] assms(1) cmd_frame_trans[OF f]
      by (fastforce simp: wpa_conf_is_ap_exist_def lists_ok_def)
  qed (use l False f in \<open>simp add: wpa_conf_is_ap_exist_def\<close>)
qed (simp add: wpa_conf_is_ap_exist_def cmd_frame_refl)

end
