(* ===== verification/Wpa_Properties.thy ===== *)
theory Wpa_Properties
  imports Wpa_Safety
begin

text \<open>
  What the station's platform promises to the station, and where the supplicant's lists and
  replies are read differently from what was meant.
\<close>

section \<open>A kernel and a supplicant to run against\<close>

text \<open>
  Every command is answered by a table and logged; the interface has an address, and everything
  that can fail succeeds.
\<close>

definition recorder :: "(string \<Rightarrow> string) \<Rightarrow> string list wpa_os" where
  "recorder reply = \<lparr>os_open = Pair True, os_attach = Pair True, os_request = (\<lambda>cmd log. ((0, reply cmd), log @ [cmd])),
     os_pending = Pair 0, os_socketpair = Pair (Some (3, 4)), os_popen = (\<lambda>_. Pair (Some 1)), os_system = (\<lambda>_ log. log),
     os_access = (\<lambda>_. Pair True), os_ifaddrs = Pair [(''lo'', Family_Inet), (''wlan0'', Family_Inet)], os_time = Pair 1000,
     os_sleep = (\<lambda>_ log. log), os_thread = Pair True, os_malloc = Pair True, os_room = 8, os_getfl = True, os_setfl = True,
     os_garbage = 0, os_socket = Pair True, os_if_flags = (\<lambda>_ _. Pair True), os_set_hw = (\<lambda>_ _. Pair True),
     os_get_hw = (\<lambda>_. Pair (Some [0, 1, 2, 3, 4, 5]))\<rparr>"

definition demo_dev :: "incoming list \<Rightarrow> string list wpa_dev" where
  "demo_dev inc = (sta_wpa_inf_static inc [])\<lparr>sta_wpa_init_flag := True, sta_pid := True, threads := 1,
     sta_event_handle := Some \<lparr>evt_socket = (5, 6), evt_socket_enable = True, evt_bytes = [], evt_room = 8,
       evt_getfl_ok = True, evt_setfl_ok = True\<rparr>,
     sta_wpa_event_cb := True, ctrl_conn := True, monitor_conn := True, exit_sockets := (3, 4)\<rparr>"

definition demo_join :: "incoming list" where
  "demo_join = [Message ''<3>CTRL-EVENT-SCAN-STARTED '', Message ''<3>CTRL-EVENT-CONNECTED - Connection completed'']"

lemmas demo_dev_defs = demo_dev_def sta_wpa_inf_static_def

lemma demo_dev_sel [simp]:
  "monitor_conn (demo_dev inc)" "ctrl_conn (demo_dev inc)" "threads (demo_dev inc) = 1" "incoming (demo_dev inc) = inc"
  "sta_wpa_event_cb (demo_dev inc)" "notified (demo_dev inc) = []" "os (demo_dev inc) = []"
  "sta_event_handle (demo_dev inc) = Some \<lparr>evt_socket = (5, 6), evt_socket_enable = True, evt_bytes = [], evt_room = 8,
     evt_getfl_ok = True, evt_setfl_ok = True\<rparr>"
  by (simp_all add: demo_dev_defs)

lemma demo_dev_ready: "ready (demo_dev inc) \<longleftrightarrow> (\<forall>m. Message m \<in> set inc \<longrightarrow> length m < EVENT_BUF_SIZE - 1)"
  by (auto simp: ready_def messages_fit_def items_def demo_dev_defs)

section \<open>Connecting\<close>

lemma connect_to_ap_returns:
  assumes "ready d" "para_fits cn" "cn_ssid cn = Some ssid" "NL \<notin> set ssid" "lists_ok k d"
  shows "\<exists>r d'. linux_supplicant_connect_to_ap k cn d = Returns (r, d') \<and> r \<in> connect_codes \<and>
    told r {WIFI_CONNECTED, WIFI_DHCP_SUCCESS} d' \<and> sta_wpa_event_cb d' = sta_wpa_event_cb d"
proof -
  obtain x netid d1 where e: "wpa_conf_is_ap_exist k ssid (cn_sec cn) (CMD_MAX_LEN + 1) d = Returns (x, netid, d1)"
    "length netid \<le> 85" "cmd_frame d d1"
    using exist_returns[OF assms(4,5)] by blast
  have new: "\<exists>r d'. connect_new k cn d2 = Returns (r, d') \<and> r \<in> connect_codes \<and>
      told r {WIFI_CONNECTED, WIFI_DHCP_SUCCESS} d' \<and> sta_wpa_event_cb d' = sta_wpa_event_cb d" if "cmd_frame d d2" for d2
    using connect_new_returns[OF ready_cmd[OF that assms(1)] assms(2)] cmd_frame_told[OF that] by (fastforce simp: told_def)
  have cb: "sta_wpa_event_cb d1 = sta_wpa_event_cb d" using cmd_frame_told[OF e(3)] by simp
  consider "x \<le> 0" | "x = 3" | "0 < x" "x \<noteq> 3" by linarith
  then show ?thesis
  proof cases
    case 1
    then show ?thesis using e(1) assms(3) new[OF e(3)] by (simp add: linux_supplicant_connect_to_ap_def)
  next
    case 2
    then show ?thesis using e(1) assms(3) cb
      by (simp add: linux_supplicant_connect_to_ap_def told_def connect_codes_def wpas_event_notify_to_sta_dev_def upd_events_def)
  next
    case 3
    obtain r d2 where r: "remove_network k netid d1 = Some (r, d2)" "cmd_frame d1 d2"
      using remove_network_returns[OF e(2)] by blast
    have f: "cmd_frame d d2" by (rule cmd_frame_trans[OF e(3) r(2)])
    have cb2: "sta_wpa_event_cb d2 = sta_wpa_event_cb d" using cmd_frame_told[OF f] by simp
    have eq: "linux_supplicant_connect_to_ap k cn d =
       (if c_true r then Returns (WMG_STATUS_FAIL, wpas_event_notify_to_sta_dev WIFI_DISCONNECTED d2) else connect_new k cn d2)"
      using e(1) assms(3) 3 r(1) by (simp add: linux_supplicant_connect_to_ap_def)
    show ?thesis
      using eq cb2 new[OF f]
      by (cases "c_true r") (auto simp: told_def connect_codes_def wpas_event_notify_to_sta_dev_def upd_events_def)
  qed
qed

text \<open>
  A connect on a platform that is ready comes back and is defined, whatever the supplicant answers to
  the commands and whatever messages arrive meanwhile, as long as these are finitely many and none of them is longer
  than 2046 characters: it ends with success, failure or \<open>WMG_STATUS_NOT_READY\<close>, and when it succeeds the
  last event that the station was told is the one of an acquired address, or of a connection that was
  there before. The name must be shorter than its array of 64 bytes and have no newline, the
  passphrase shorter than 64, and the list printed with numbers of reasonable length. With no end to
  the messages the call may wait for ever: \<open>Wpa_Loop\<close> says when.
\<close>

theorem connect_returns:
  assumes "ready d" "para_fits cn" "cn_ssid cn = Some ssid" "NL \<notin> set ssid" "lists_ok k d"
  shows "\<exists>r d'. linux_supplicant_connect_to_ap k cn d = Returns (r, d') \<and>
    r \<in> {WMG_STATUS_SUCCESS, WMG_STATUS_FAIL, WMG_STATUS_NOT_READY} \<and>
    (r = WMG_STATUS_SUCCESS \<and> sta_wpa_event_cb d \<longrightarrow>
       notified d' \<noteq> [] \<and> last (notified d') \<in> {WIFI_CONNECTED, WIFI_DHCP_SUCCESS})"
  using connect_to_ap_returns[OF assms] by (auto simp: told_def connect_codes_def)

lemma OK_is_a_list: "list_ok ''OK''"
proof -
  have "NL \<notin> set ''OK''" by simp
  then have "\<not> is_line l ''OK''" for l by (metis is_line_def in_set_conv_decomp)
  then show ?thesis by (simp add: list_ok_def)
qed

lemma recorder_lists_ok: "ctrl_conn d \<Longrightarrow> lists_ok (recorder (\<lambda>_. ''OK'' @ [NL])) d"
  using OK_is_a_list
  by (simp add: lists_ok_def list_networks_def command_to_supplicant_def wifi_send_command_def on_os_def recorder_def
      starts_def strip_newline_def)

theorem connect_returns_witness:
  "\<exists>r d'. linux_supplicant_connect_to_ap (recorder (\<lambda>_. ''OK'' @ [NL])) demo_cn (demo_dev demo_join) = Returns (r, d') \<and>
     r \<in> {WMG_STATUS_SUCCESS, WMG_STATUS_FAIL, WMG_STATUS_NOT_READY} \<and>
     (r = WMG_STATUS_SUCCESS \<and> sta_wpa_event_cb (demo_dev demo_join) \<longrightarrow>
        notified d' \<noteq> [] \<and> last (notified d') \<in> {WIFI_CONNECTED, WIFI_DHCP_SUCCESS})"
proof (rule connect_returns)
  show "ready (demo_dev demo_join)" by (simp add: demo_dev_ready demo_join_def)
  show "para_fits demo_cn" "cn_ssid demo_cn = Some ''home''" by (simp_all add: para_fits_def demo_cn_def)
  show "lists_ok (recorder (\<lambda>_. ''OK'' @ [NL])) (demo_dev demo_join)" by (rule recorder_lists_ok) (simp add: demo_dev_defs)
qed simp

section \<open>The station on this platform\<close>

lemma last_target_last: "evs \<noteq> [] \<Longrightarrow> event_target (last evs) = Some t \<Longrightarrow> last_target evs st = t"
proof (induction evs arbitrary: st)
  case (Cons ev evs)
  show ?case
  proof (cases "evs = []")
    case True
    then show ?thesis using Cons.prems by (simp add: last_target_def map_filter_simps)
  next
    case False
    then show ?thesis using Cons by (simp add: last_target_Cons)
  qed
qed simp

text \<open>A call of the station that the platform answers.\<close>

lemma sta_plat_linux:
  assumes "plat e = Returns (d, m)" "f (d\<lparr>notified := []\<rparr>, m) = Returns (r, d', m')"
  shows "\<exists>obj' e'. sta_plat (plat_call f dflt) obj e = (r, obj', e') \<and> plat e' = Returns (d', m') \<and>
    sta_state obj' = last_target (notified d') (sta_state obj)"
proof -
  have frame: "plat (snd (sta_events evs (ob, e1))) = plat e1" for evs ob and e1 :: "'a linux_plat env"
    by (induction evs arbitrary: ob e1) (simp_all add: sta_events_def sta_wpa_event_notify_def invoke_cb_def split: option.splits)
  let ?e = "e\<lparr>plat := Returns (d', m')\<rparr>"
  obtain obj' e' where se: "sta_events (notified d') (obj, ?e) = (obj', e')" by fastforce
  have "sta_plat (plat_call f dflt) obj e = (r, obj', e')"
    using assms se by (simp add: sta_plat_def plat_call_def)
  then show ?thesis
    using frame[of "notified d'" obj ?e] sta_events_effect[of "notified d'" obj ?e] se by simp
qed

text \<open>
  C10. The station's state agrees with what a connect reports, on this platform. The station is enabled
  and not busy and has told the platform its callback; the platform is ready: its pipe is open, has room for
  three events and can be emptied; finitely many messages arrive during the call, each shorter than
  the event buffer; name and passphrase are shorter than their arrays of 64 bytes, the name is not
  empty and has no newline, and the supplicant's list of networks is one that the code can read. Then the call
  comes back without blocking or undefined behaviour, and when it reports success the station
  is connected or has its address.
\<close>

theorem station_connects_on_linux:
  assumes "sta_init_flag obj" "sta_enable obj" "sta_state obj \<noteq> WIFI_STA_CONNECTING" "sta_state obj \<noteq> WIFI_STA_OBTAINING_IP"
    and "sta_platform_inf obj = Some (linux_sta_inf k)" "plat e = Returns (d, m)"
    and "sta_wpa_event_cb d" "ready d" "para_fits cn" "cn_ssid cn = Some ssid" "ssid \<noteq> []" "NL \<notin> set ssid"
    and "lists_ok k (d\<lparr>notified := []\<rparr>)"
  shows "\<exists>ret obj' e' d'. sta_connect (Some cn) cb obj e = Some (ret, ret, obj', e') \<and> plat e' = Returns (d', m) \<and>
    (ret = WMG_STATUS_SUCCESS \<longrightarrow> sta_state obj' = WIFI_STA_CONNECTED \<or> sta_state obj' = WIFI_STA_NET_CONNECTED)"
proof -
  let ?d = "d\<lparr>notified := []\<rparr>"
  have "ready ?d" using assms(8) by (simp add: ready_def messages_fit_def items_def)
  then obtain r d' where r: "linux_supplicant_connect_to_ap k cn ?d = Returns (r, d')" "told r {WIFI_CONNECTED, WIFI_DHCP_SUCCESS} d'"
    "sta_wpa_event_cb d'" using connect_to_ap_returns[of ?d cn ssid k] assms by auto
  let ?f = "\<lambda>(d, m). map_outcome_of (\<lambda>(r, d). (r, d, m)) (linux_supplicant_connect_to_ap k cn d)"
  obtain obj' e' where o: "sta_plat (plat_call ?f (- 1)) (obj\<lparr>sta_state := WIFI_STA_CONNECTING\<rparr>) e = (r, obj', e')"
    "plat e' = Returns (d', m)" "sta_state obj' = last_target (notified d') WIFI_STA_CONNECTING"
    using sta_plat_linux[of e d m ?f r d' m "- 1" "obj\<lparr>sta_state := WIFI_STA_CONNECTING\<rparr>"] assms(6) r(1) by auto
  have "sta_connect (Some cn) cb obj e = Some (r, r, obj', e')"
    using assms o(1) by (simp add: sta_connect_def linux_sta_inf_def both_def)
  moreover have "sta_state obj' = WIFI_STA_CONNECTED \<or> sta_state obj' = WIFI_STA_NET_CONNECTED" if "r = WMG_STATUS_SUCCESS"
    using that r(2,3) o(3) last_target_last[of "notified d'"] by (auto simp: told_def)
  ultimately show ?thesis using o(2) by blast
qed

definition demo_station :: "incoming list \<Rightarrow> string list linux_plat wmg_sta_object" where
  "demo_station inc = sta_object_static\<lparr>sta_init_flag := True, sta_enable := True,
     sta_platform_inf := Some (linux_sta_inf (recorder (\<lambda>_. ''OK'' @ [NL])))\<rparr>"

definition demo_linux :: "incoming list \<Rightarrow> string list linux_plat env" where
  "demo_linux inc = \<lparr>plat = Returns (demo_dev inc, Map.empty), calls = []\<rparr>"

theorem station_connects_on_linux_witness:
  "\<exists>ret obj' e' d'. sta_connect (Some demo_cn) 0 (demo_station demo_join) (demo_linux demo_join) = Some (ret, ret, obj', e') \<and>
     plat e' = Returns (d', Map.empty) \<and>
     (ret = WMG_STATUS_SUCCESS \<longrightarrow> sta_state obj' = WIFI_STA_CONNECTED \<or> sta_state obj' = WIFI_STA_NET_CONNECTED)"
proof (rule station_connects_on_linux)
  show "sta_platform_inf (demo_station demo_join) = Some (linux_sta_inf (recorder (\<lambda>_. ''OK'' @ [NL])))"
    by (simp add: demo_station_def)
  show "plat (demo_linux demo_join) = Returns (demo_dev demo_join, Map.empty)" by (simp add: demo_linux_def)
  show "ready (demo_dev demo_join)" by (simp add: demo_dev_ready demo_join_def)
  show "para_fits demo_cn" "cn_ssid demo_cn = Some ''home''" by (simp_all add: para_fits_def demo_cn_def)
  show "lists_ok (recorder (\<lambda>_. ''OK'' @ [NL])) (demo_dev demo_join\<lparr>notified := []\<rparr>)"
    by (rule recorder_lists_ok) (simp add: demo_dev_defs)
qed (simp_all add: demo_station_def sta_object_static_def demo_dev_defs)

text \<open>A supplicant that accepts every command, and says nothing else.\<close>

definition accepts :: "'s wpa_os \<Rightarrow> bool" where
  "accepts k \<longleftrightarrow> (\<forall>cmd s. fst (os_request k cmd s) = (0, ''OK'' @ [NL]))"

lemma accepted:
  assumes "accepts k" "ctrl_conn d" "cmd \<noteq> []" "4 \<le> n"
  obtains s where "command_to_supplicant k cmd n d = (0, Some ''OK'', d\<lparr>os := s\<rparr>)"
proof -
  have "fst (os_request k cmd (os d)) = (0, ''OK'' @ [NL])" using assms(1) by (simp add: accepts_def)
  then obtain s where s: "os_request k cmd (os d) = ((0, ''OK'' @ [NL]), s)"
    by (cases "os_request k cmd (os d)") simp
  have "take (n - 1) (''OK'' @ [NL]) = ''OK'' @ [NL]" using assms(4) by simp
  then show ?thesis
    using that[of s] assms(2,3) s by (simp add: command_to_supplicant_def wifi_send_command_def on_os_def starts_def strip_newline_def)
qed

lemma cmd_then_accepted:
  assumes "accepts k" "ctrl_conn d" "cmd \<noteq> []" "length cmd \<le> CMD_MAX_LEN"
  obtains s where "\<And>f. cmd_then k cmd f d = f (d\<lparr>os := s\<rparr>)"
proof -
  obtain s where "command_to_supplicant k cmd EVENT_BUF_SIZE d = (0, Some ''OK'', d\<lparr>os := s\<rparr>)"
    using accepted[OF assms(1-3), of EVENT_BUF_SIZE] by auto
  then show ?thesis using that[of s] assms(4) by (simp add: cmd_then_def fits_def)
qed

lemma connect_wait_silent:
  assumes "sta_event_handle d = Some h" "evt_bytes h = []" "evt_socket_enable h" "threads d = 0 \<or> monitor_conn d \<and> incoming d = []"
  shows "connect_wait k n ret d = Returns (ret, d)"
proof (induction "EVENT_TRY_MAX - n" arbitrary: n)
  case 0
  then show ?case by (subst connect_wait.simps) simp
next
  case (Suc m)
  have "d\<lparr>sta_event_handle := Some h\<rparr> = d" using assms(1) by (cases d) simp
  then have "evt_await k d = Returns (0, None, d)"
    using assms by (subst evt_await.simps) (auto simp: evt_read_def)
  then show ?case using Suc(1)[of "Suc n"] Suc(2) by (subst connect_wait.simps) simp
qed

lemma no_tab_or_newline:
  assumes "start = drop i ''OK''"
  shows "\<not> starts [TAB] (drop n start)" "strchr NL start = None"
proof -
  have s: "set start \<subseteq> {CHR ''O'', CHR ''K''}" using assms set_drop_subset[of i "''OK''"] by auto
  then show "strchr NL start = None" by (auto simp: strchr_None)
  show "\<not> starts [TAB] (drop n start)"
  proof
    assume "starts [TAB] (drop n start)"
    then have "TAB \<in> set (drop n start)" by (auto simp: starts_iff)
    then show False using s set_drop_subset[of n start] by auto
  qed
qed

lemma exist_loop_OK: "exist_loop k ssid kt len [] 0 ''OK'' d = Some (Returns (0, [], d))"
proof (cases "strstr ssid ''OK''")
  case None
  then show ?thesis by (subst exist_loop.simps) simp
next
  case (Some bs)
  obtain before start where bs: "bs = (before, start)" by fastforce
  then have "''OK'' = before @ start" using strstr_Some[of ssid "''OK''" before start] Some by simp
  then have "start = drop (length before) ''OK''" by simp
  note no_tab_or_newline[OF this]
  then show ?thesis using Some bs by (subst exist_loop.simps) simp
qed

lemma accepted_select:
  assumes "accepts k" "ctrl_conn d" "cn_ssid cn = Some ssid" "length ssid < 64" "cn_password cn = Some p" "length p < 64"
    and "check_wpa_password (Some p) = 0" "cn_sec cn = WIFI_SEC_WPA2_PSK"
  obtains s where "wpas_select_network k cn d = Some (0, ''OK'', d\<lparr>os := s\<rparr>)"
proof -
  obtain s2 where add: "command_to_supplicant k ''ADD_NETWORK'' 8 d = (0, Some ''OK'', d\<lparr>os := s2\<rparr>)"
    using accepted[OF assms(1,2), of "''ADD_NETWORK''" 8] by auto
  have step: thesis if "cmd \<noteq> []" "length cmd \<le> CMD_MAX_LEN" "\<And>s'. (\<And>f. cmd_then k cmd f (d\<lparr>os := s\<rparr>) = f (d\<lparr>os := s'\<rparr>)) \<Longrightarrow> thesis"
    for cmd s thesis
    by (rule cmd_then_accepted[of k "d\<lparr>os := s\<rparr>" cmd]) (use assms(1,2) that in auto)
  define pre where "pre = ''SET_NETWORK '' @ ''OK'' @ '' ''"
  obtain s3 where c3: "\<And>f. cmd_then k (pre @ ''ssid '' @ quoted ssid) f (d\<lparr>os := s2\<rparr>) = f (d\<lparr>os := s3\<rparr>)"
    by (rule step[of "pre @ ''ssid '' @ quoted ssid" s2]) (use assms(4) in \<open>auto simp: quoted_def pre_def\<close>)
  obtain s4 where c4: "\<And>f. cmd_then k (pre @ ''scan_ssid 1'') f (d\<lparr>os := s3\<rparr>) = f (d\<lparr>os := s4\<rparr>)"
    by (rule step[of "pre @ ''scan_ssid 1''" s3]) (auto simp: pre_def)
  obtain s5 where c5: "\<And>f. cmd_then k (pre @ ''key_mgmt WPA-PSK'') f (d\<lparr>os := s4\<rparr>) = f (d\<lparr>os := s5\<rparr>)"
    by (rule step[of "pre @ ''key_mgmt WPA-PSK''" s4]) (auto simp: pre_def)
  obtain s6 where c6: "\<And>f. cmd_then k (pre @ ''psk '' @ quoted p) f (d\<lparr>os := s5\<rparr>) = f (d\<lparr>os := s6\<rparr>)"
    by (rule step[of "pre @ ''psk '' @ quoted p" s5]) (use assms(6) in \<open>auto simp: quoted_def pre_def\<close>)
  obtain s7 where c7: "\<And>f. cmd_then k (''SELECT_NETWORK '' @ ''OK'') f (d\<lparr>os := s6\<rparr>) = f (d\<lparr>os := s7\<rparr>)"
    by (rule step[of "''SELECT_NETWORK '' @ ''OK''" s6]) auto
  have sel: "select_security k cn pre f (d\<lparr>os := s4\<rparr>) = f (d\<lparr>os := s6\<rparr>)" for f
    by (simp only: select_security_def assms(5,7,8) wifi_secure.case c5 c6 option.case if_False not_True_eq_False refl)
  show ?thesis
    by (rule that[of s7])
      (simp only: wpas_select_network_def add prod.case option.case Let_def pre_def[symmetric] refl not_True_eq_False if_False
        assms(3) bind.simps c3 c4 sel c7)
qed

lemma silent_connect:
  assumes "accepts k" "ctrl_conn d" "ready d" "threads d = 0 \<or> monitor_conn d \<and> incoming d = []"
    and "cn_ssid cn = Some ssid" "length ssid < 64" "cn_password cn = Some p" "length p < 64"
    and "check_wpa_password (Some p) = 0" "cn_sec cn = WIFI_SEC_WPA2_PSK" "ssid \<noteq> []"
  shows "\<exists>d'. linux_supplicant_connect_to_ap k cn d = Returns (WMG_STATUS_FAIL, d') \<and> notified d' = notified d"
proof -
  obtain s1 where "command_to_supplicant k ''LIST_NETWORKS'' REPLY_BUF_SIZE d = (0, Some ''OK'', d\<lparr>os := s1\<rparr>)"
    by (rule accepted[OF assms(1,2), of "''LIST_NETWORKS''" REPLY_BUF_SIZE]) auto
  then have l: "list_networks k d = (0, ''OK'', d\<lparr>os := s1\<rparr>)" by (simp add: list_networks_def)
  let ?d1 = "d\<lparr>os := s1\<rparr>"
  have e: "wpa_conf_is_ap_exist k ssid (cn_sec cn) (CMD_MAX_LEN + 1) d = Returns (0, [], ?d1)"
    using l assms(11) exist_loop_OK[of k ssid _ _ ?d1] by (simp add: wpa_conf_is_ap_exist_def)
  obtain h where h: "sta_event_handle d = Some h" "evt_socket_enable h" "evt_getfl_ok h" "evt_setfl_ok h"
    using assms(3) by (auto simp: ready_def)
  let ?d2 = "?d1\<lparr>sta_event_handle := Some (h\<lparr>evt_bytes := []\<rparr>), new_ssid := ssid\<rparr>"
  obtain s where sel: "wpas_select_network k cn ?d2 = Some (0, ''OK'', ?d2\<lparr>os := s\<rparr>)"
    by (rule accepted_select[OF assms(1) _ assms(5-10), of ?d2]) (use assms(2) in simp)
  let ?d3 = "?d2\<lparr>os := s\<rparr>"
  have w: "connect_wait k 0 WMG_STATUS_FAIL ?d3 = Returns (WMG_STATUS_FAIL, ?d3)"
    by (rule connect_wait_silent[where h = "h\<lparr>evt_bytes := []\<rparr>"]) (use assms(4) h(2) in auto)
  obtain s8 where "command_to_supplicant k ''REMOVE_NETWORK OK'' EVENT_BUF_SIZE ?d3 = (0, Some ''OK'', ?d3\<lparr>os := s8\<rparr>)"
    by (rule accepted[OF assms(1), of ?d3 "''REMOVE_NETWORK OK''" EVENT_BUF_SIZE]) (use assms(2) in auto)
  then have "remove_network k ''OK'' ?d3 = Some (0, ?d3\<lparr>os := s8\<rparr>)" by (simp add: remove_network_def fits_def)
  then have fin: "connect_finish k ''OK'' ?d3 = Returns (WMG_STATUS_FAIL, ?d3\<lparr>os := s8\<rparr>)"
    using w by (simp add: connect_finish_def)
  have "connect_new k cn ?d1 = Returns (WMG_STATUS_FAIL, ?d3\<lparr>os := s8\<rparr>)"
    using h assms(5,6) sel fin by (simp add: connect_new_def evt_socket_clear_def fits_def)
  then show ?thesis using e assms(5) by (simp add: linux_supplicant_connect_to_ap_def)
qed

text \<open>
  A connect to which the supplicant only says OK fails after five waits without an event, and the
  station stays in \<open>WIFI_STA_CONNECTING\<close>: every later connect is refused without asking.
\<close>

theorem silent_connect_sticks:
  assumes "sta_init_flag obj" "sta_enable obj" "sta_state obj \<noteq> WIFI_STA_CONNECTING" "sta_state obj \<noteq> WIFI_STA_OBTAINING_IP"
    and "sta_platform_inf obj = Some (linux_sta_inf k)" "plat e = Returns (d, m)"
    and "accepts k" "ctrl_conn d" "ready d" "threads d = 0 \<or> monitor_conn d \<and> incoming d = []"
    and "cn_ssid cn = Some ssid" "ssid \<noteq> []" "length ssid < 64"
    and "cn_sec cn = WIFI_SEC_WPA2_PSK" "cn_password cn = Some p" "length p < 64" "check_wpa_password (Some p) = 0"
  shows "\<exists>obj' e'. sta_connect (Some cn) cb obj e = Some (WMG_STATUS_FAIL, WMG_STATUS_FAIL, obj', e') \<and>
    sta_state obj' = WIFI_STA_CONNECTING \<and>
    sta_connect param cb2 obj' e' = Some (WMG_STATUS_UNHANDLED, WMG_STATUS_UNHANDLED, obj', e')"
proof -
  let ?d = "d\<lparr>notified := []\<rparr>"
  have "ready ?d" using assms(9) by (simp add: ready_def messages_fit_def items_def)
  then obtain d' where d': "linux_supplicant_connect_to_ap k cn ?d = Returns (WMG_STATUS_FAIL, d')" "notified d' = []"
    using silent_connect[OF assms(7), of ?d cn ssid p] assms by auto
  have "sta_connect (Some cn) cb obj e =
      Some (WMG_STATUS_FAIL, WMG_STATUS_FAIL, obj\<lparr>sta_state := WIFI_STA_CONNECTING\<rparr>, e\<lparr>plat := Returns (d', m)\<rparr>)"
    using assms(1-6,11,12) d'
    by (simp add: sta_connect_def linux_sta_inf_def both_def sta_plat_def plat_call_def sta_events_def)
  then show ?thesis using assms(1,2) by (simp add: sta_connect_def both_def)
qed

theorem silent_connect_sticks_witness:
  "\<exists>obj' e'. sta_connect (Some demo_cn) 0 (demo_station []) (demo_linux []) = Some (WMG_STATUS_FAIL, WMG_STATUS_FAIL, obj', e') \<and>
     sta_state obj' = WIFI_STA_CONNECTING \<and>
     sta_connect (Some demo_cn) 0 obj' e' = Some (WMG_STATUS_UNHANDLED, WMG_STATUS_UNHANDLED, obj', e')"
proof (rule silent_connect_sticks)
  show "sta_platform_inf (demo_station []) = Some (linux_sta_inf (recorder (\<lambda>_. ''OK'' @ [NL])))"
    by (simp add: demo_station_def)
  show "plat (demo_linux []) = Returns (demo_dev [], Map.empty)" by (simp add: demo_linux_def)
  show "ready (demo_dev [])" by (simp add: demo_dev_ready)
  show "accepts (recorder (\<lambda>_. ''OK'' @ [NL]))" by (simp add: accepts_def recorder_def)
  show "check_wpa_password (Some ''secret'') = 0" by (simp add: check_wpa_password_def)
  show "cn_ssid demo_cn = Some ''home''" by (simp add: demo_cn_def)
qed (simp_all add: demo_station_def sta_object_static_def demo_dev_defs demo_cn_def)

end
