(* ===== verification/Wpa_Messages.thy ===== *)
theory Wpa_Messages
  imports Wpa_Properties
begin

text \<open>
  The listening thread over many messages: what a supplicant that sends them causes, as long as
  there is room in the event pipe, and what happens when nobody reads it. And a scan from
  the request to the caller's array.
\<close>

section \<open>The thread's loop\<close>

text \<open>At most \<open>n\<close> rounds, none when the thread has ended.\<close>

fun listen_rounds :: "'s wpa_os \<Rightarrow> nat \<Rightarrow> 's wpa_dev \<Rightarrow> 's wpa_dev outcome" where
  "listen_rounds k 0 d = Returns d"
| "listen_rounds k (Suc n) d =
     (if threads d = 0 then Returns d else bind_outcome (wpas_event_round k d) (listen_rounds k n))"

text \<open>What a message stands for once its level is removed.\<close>

definition event_of_message :: "string \<Rightarrow> wifi_sta_event option" where
  "event_of_message m = (case strip_level m of None \<Rightarrow> None | Some (_, s) \<Rightarrow> message_event s)"

definition proper :: "string \<Rightarrow> bool" where
  "proper m \<longleftrightarrow> m \<noteq> [] \<and> length m < EVENT_BUF_SIZE - 1"

lemma message_event_Nil: "message_event [] = None"
  by (simp add: message_event_def starts_def)

lemma strip_level_length: "strip_level m = Some (n, s) \<Longrightarrow> n = int (length s)"
  by (auto simp: strip_level_def split: if_splits option.splits prod.splits)

text \<open>The round of a proper message is the dispatch of its text.\<close>

lemma message_round:
  assumes "proper m" "monitor_conn d" "incoming d = Message m # rest"
  obtains s where "event_of_message m = message_event s"
    "wpas_event_round k d = bind_outcome (wpas_dispatch_event k s (d\<lparr>incoming := rest\<rparr>))
       (\<lambda>(ret, d). Returns (if c_true ret then d\<lparr>threads := threads d - 1\<rparr> else d))"
proof -
  obtain r where r: "strip_level m = Some r" using strip_level_fits[of m] assms(1) by (auto simp: proper_def)
  obtain n s where ns: "r = (n, s)" by fastforce
  have n: "n = int (length s)" using strip_level_length[of m n s] r ns by simp
  have m: "m \<noteq> []" "take (EVENT_BUF_SIZE - 1) m = m" using assms(1) by (auto simp: proper_def)
  have w: "wifi_wait_on_socket d = Returns ((n, s), d\<lparr>incoming := rest\<rparr>)"
    using assms(2,3) m r ns by (simp add: wifi_wait_on_socket_def Let_def)
  have e: "event_of_message m = message_event s" using r ns by (simp add: event_of_message_def)
  show ?thesis
  proof (rule that[OF e])
    have "wpas_dispatch_event k [] d = Returns (0, d)" for d :: "'a wpa_dev" by (simp add: wpas_dispatch_event_def)
    then show "wpas_event_round k d = bind_outcome (wpas_dispatch_event k s (d\<lparr>incoming := rest\<rparr>))
       (\<lambda>(ret, d). Returns (if c_true ret then d\<lparr>threads := threads d - 1\<rparr> else d))"
      using w n by (cases s) (simp_all add: wpas_event_round_def c_true_def)
  qed
qed

section \<open>Nothing else arrives\<close>

text \<open>Commands are answered in time: no timeout puts a byte on the exit socket.\<close>

definition punctual :: "'s wpa_os \<Rightarrow> bool" where
  "punctual k \<longleftrightarrow> (\<forall>cmd s. fst (fst (os_request k cmd s)) \<noteq> - 2)"

lemma punctual_command:
  assumes "punctual k" "command_to_supplicant k cmd n d = (r, t, d')"
  shows "\<exists>s. d' = d\<lparr>os := s\<rparr>"
proof -
  obtain ret reply s where q: "os_request k cmd (os d) = ((ret, reply), s)" by (metis surj_pair)
  then have "ret \<noteq> - 2" using assms(1) by (metis fst_conv punctual_def)
  then have "d' = d\<lparr>os := os d\<rparr> \<or> d' = d\<lparr>os := s\<rparr>"
    using assms(2) q by (auto simp: command_to_supplicant_def wifi_send_command_def on_os_def Let_def split: if_splits)
  then show ?thesis by blast
qed

lemma notify_incoming: "wpas_event_notify e d = Returns d' \<Longrightarrow> incoming d' = incoming d"
  by (auto simp: notify_Returns)

lemma run_udhcpc_incoming:
  assumes "\<And>d. incoming (keep d) = incoming d" "run_udhcpc keep k d = Returns d'"
  shows "incoming d' = incoming d"
proof -
  obtain s1 where s1: "start_udhcpc k d = d\<lparr>os := s1\<rparr>" using start_udhcpc_frame[of k d] by auto
  obtain ip d2 where ip: "is_ip_exist k (d\<lparr>os := s1\<rparr>) = (ip, d2)" by fastforce
  then obtain s2 where s2: "d2 = d\<lparr>os := s2\<rparr>" using ip_frame[OF ip] by auto
  show ?thesis
    using assms s1 ip s2 notify_incoming by (fastforce simp: run_udhcpc_def bind_Returns split: if_splits)
qed

lemma try_start_udhcpc_incoming:
  assumes "try_start_udhcpc k d = Returns d'"
  shows "incoming d' = incoming d"
proof -
  obtain now d1 where t: "on_os (os_time k) d = (now, d1)" by fastforce
  then obtain s1 where s1: "d1 = d\<lparr>os := s1\<rparr>" using on_os_eq[OF t] by auto
  let ?d = "os_do (os_sleep k 1000000) d1"
  obtain d2 where d2: "wpas_event_notify WIFI_DHCP_START ?d = Returns d2"
    using assms t by (auto simp: try_start_udhcpc_def bind_Returns)
  obtain ip d3 where ip: "is_ip_exist k d2 = (ip, d3)" by fastforce
  have f: "incoming d3 = incoming d" using s1 notify_incoming[OF d2] ip_frame[OF ip] by (auto simp: os_do_def)
  have "run_udhcpc (\<lambda>d. d\<lparr>old_ssid := new_ssid d, last_time := now\<rparr>) k d3 = Returns d' \<or>
      run_udhcpc (\<lambda>d. d\<lparr>last_time := now\<rparr>) k d3 = Returns d' \<or> wpas_event_notify WIFI_DHCP_SUCCESS d3 = Returns d'"
    using assms t d2 ip by (simp add: try_start_udhcpc_def split: if_splits)
  then have "incoming d' = incoming d3"
  proof (elim disjE)
    assume "run_udhcpc (\<lambda>d. d\<lparr>old_ssid := new_ssid d, last_time := now\<rparr>) k d3 = Returns d'"
    then show ?thesis by (rule run_udhcpc_incoming[rotated]) simp
  next
    assume "run_udhcpc (\<lambda>d. d\<lparr>last_time := now\<rparr>) k d3 = Returns d'"
    then show ?thesis by (rule run_udhcpc_incoming[rotated]) simp
  qed (rule notify_incoming)
  then show ?thesis using f by simp
qed

lemma dispatch_name_incoming:
  assumes "punctual k" "dispatch_name k name d = Returns (r, d')"
  shows "incoming d' = incoming d"
proof -
  have rc: "incoming (snd (linux_sta_wpa_cmd_reconnect k d)) = incoming d"
    and dc: "incoming (snd (linux_sta_wpa_cmd_disconnect k d)) = incoming d" for d
    using punctual_command[OF assms(1)]
    by (fastforce simp: linux_sta_wpa_cmd_reconnect_def linux_sta_wpa_cmd_disconnect_def split: prod.splits)+
  show ?thesis
    using assms(2) unfolding dispatch_name_def Let_def bind_Returns
    by (auto simp: bind_Returns rc dc split: if_split_asm dest!: notify_incoming try_start_udhcpc_incoming)
qed

lemma dispatch_incoming:
  assumes "punctual k" "wpas_dispatch_event k s d = Returns (r, d')"
  shows "incoming d' = incoming d"
  using assms(2) dispatch_name_incoming[OF assms(1)]
  by (auto simp: wpas_dispatch_event_def bind_Returns split: if_splits option.splits dest!: notify_incoming)

section \<open>Many messages\<close>

text \<open>A round of a proper message that does not end the thread.\<close>

lemma proper_round:
  assumes "punctual k" "proper m" "monitor_conn d" "incoming d = Message m # rest"
    and "event_of_message m \<noteq> Some WIFI_TERMINATING" "room_for (needs (event_of_message m)) d"
  shows "\<exists>d' es. wpas_event_round k d = Returns d' \<and> emits es (d\<lparr>incoming := rest\<rparr>) d' \<and> reports (event_of_message m) es \<and>
    incoming d' = rest"
proof -
  let ?d = "d\<lparr>incoming := rest\<rparr>"
  obtain s where s: "event_of_message m = message_event s"
    "wpas_event_round k d = bind_outcome (wpas_dispatch_event k s ?d)
       (\<lambda>(ret, d). Returns (if c_true ret then d\<lparr>threads := threads d - 1\<rparr> else d))"
    by (rule message_round[OF assms(2-4)])
  have "room_for (needs (message_event s)) ?d" using assms(6) s(1) by (simp add: room_for_def)
  then obtain r d' es where d': "wpas_dispatch_event k s ?d = Returns (r, d')" "emits es ?d d'" "reports (message_event s) es"
    using dispatch_emits by blast
  have "r = 0"
  proof (rule ccontr)
    assume "r \<noteq> 0"
    then have e: "event_name s = Some ''TERMINATING''" using dispatch_link[OF d'(1)] by auto
    have "starts ''CTRL-EVENT-'' s"
      using d'(1) \<open>r \<noteq> 0\<close> by (auto simp: wpas_dispatch_event_def bind_Returns split: if_splits)
    then have "message_event s = Some WIFI_TERMINATING" using e by (simp add: message_event_def named_event_def)
    then show False using assms(5) s(1) by simp
  qed
  then show ?thesis using s d' dispatch_incoming[OF assms(1) d'(1)] by (auto simp: c_true_def)
qed

text \<open>All the messages handled: what they stand for is behind what was in the pipe and what the station knew.\<close>

definition handled :: "string list \<Rightarrow> 's wpa_dev \<Rightarrow> 's wpa_dev \<Rightarrow> bool" where
  "handled ms d d' \<longleftrightarrow>
     (\<exists>ess. list_all2 (\<lambda>m. reports (event_of_message m)) ms ess \<and>
        sta_event_handle d' = map_option (\<lambda>h. h\<lparr>evt_bytes := evt_bytes h @ map event_byte (concat ess)\<rparr>) (sta_event_handle d) \<and>
        notified d' = notified d @ (if sta_wpa_event_cb d then concat ess else []))"

definition harmless :: "string \<Rightarrow> bool" where
  "harmless m \<longleftrightarrow> proper m \<and> event_of_message m \<noteq> Some WIFI_TERMINATING"

definition all_need :: "string list \<Rightarrow> nat" where
  "all_need ms = sum_list (map (\<lambda>m. needs (event_of_message m)) ms)"

lemma reports_length: "reports e es \<Longrightarrow> length es = needs e"
  by (auto simp: reports_def needs_def split: option.splits if_splits)

lemma listen_handles:
  assumes "punctual k" "monitor_conn d" "0 < threads d" "incoming d = map Message ms @ rest"
    and "list_all harmless ms" "room_for (all_need ms) d"
  shows "\<exists>d'. listen_rounds k (length ms) d = Returns d' \<and> handled ms d d' \<and> incoming d' = rest"
  using assms(2-)
proof (induction ms arbitrary: d)
  case Nil
  then show ?case by (cases "sta_event_handle d") (auto simp: handled_def)
next
  case (Cons m ms)
  let ?d = "d\<lparr>incoming := map Message ms @ rest\<rparr>"
  have m: "proper m" "event_of_message m \<noteq> Some WIFI_TERMINATING" using Cons(5) by (simp_all add: harmless_def)
  have "room_for (needs (event_of_message m)) d" by (rule room_for_less[OF Cons(6)]) (simp add: all_need_def)
  then obtain d1 es where r: "wpas_event_round k d = Returns d1" "emits es ?d d1" "reports (event_of_message m) es"
    "incoming d1 = map Message ms @ rest"
    using proper_round[OF assms(1) m(1) Cons(2) _ m(2), of "map Message ms @ rest"] Cons(4) by auto
  have "room_for (all_need (m # ms)) ?d" using Cons(6) by (simp add: room_for_def)
  then have "room_for (all_need (m # ms) - length es) d1"
    by (rule emits_room[OF _ r(2)]) (simp add: all_need_def reports_length[OF r(3)])
  then have room: "room_for (all_need ms) d1" using reports_length[OF r(3)] by (simp add: all_need_def)
  have t: "monitor_conn d1" "0 < threads d1" using r(2) Cons(2,3) by (auto simp: emits_def link_frame_def)
  obtain d' where d': "listen_rounds k (length ms) d1 = Returns d'" "handled ms d1 d'" "incoming d' = rest"
    using Cons(1)[OF t r(4) _ room] Cons(5) by auto
  obtain ess where ess: "list_all2 (\<lambda>m. reports (event_of_message m)) ms ess"
    "sta_event_handle d' = map_option (\<lambda>h. h\<lparr>evt_bytes := evt_bytes h @ map event_byte (concat ess)\<rparr>) (sta_event_handle d1)"
    "notified d' = notified d1 @ (if sta_wpa_event_cb d1 then concat ess else [])"
    using d'(2) by (auto simp: handled_def)
  have "handled (m # ms) d d'"
    unfolding handled_def
    by (rule exI[of _ "es # ess"]) (use ess r(2,3) in \<open>cases "sta_event_handle d"; auto simp: emits_def\<close>)
  then show ?case using r(1) d' Cons(3) by auto
qed

section \<open>A pipe without room\<close>

text \<open>The pipe is open and has room for \<open>n\<close> events at most.\<close>

definition tight :: "nat \<Rightarrow> 's wpa_dev \<Rightarrow> bool" where
  "tight n d \<longleftrightarrow> (\<exists>h. sta_event_handle d = Some h \<and> evt_socket_enable h \<and> evt_room h \<le> length (evt_bytes h) + n)"

lemma tight_os [simp]: "tight n (d\<lparr>os := s\<rparr>) = tight n d"
  by (simp add: tight_def)

lemma tight_mono: "tight m d \<Longrightarrow> m \<le> n \<Longrightarrow> tight n d"
  by (auto simp: tight_def)

lemma room_or_tight: "room_for 0 d \<Longrightarrow> room_for n d \<or> 0 < n \<and> tight (n - 1) d"
  by (auto simp: room_for_def tight_def)

lemma emits_tight: "tight n d \<Longrightarrow> emits es d d' \<Longrightarrow> length es \<le> n \<Longrightarrow> tight (n - length es) d'"
  by (auto simp: tight_def emits_def)

lemma notify_tight: "tight 0 d \<Longrightarrow> wpas_event_notify e d = Blocks"
  by (auto simp: tight_def wpas_event_notify_def evt_send_def)

text \<open>Of several notices one behind the other a full pipe stops one.\<close>

lemma notify_then_blocks:
  assumes "tight (Suc n) d" "\<And>d'. tight n d' \<Longrightarrow> f d' = Blocks"
  shows "bind_outcome (wpas_event_notify e d) f = Blocks"
proof (cases "wpas_event_notify e d")
  case (Returns d')
  then have "tight n d'"
    using assms(1) by (auto simp: tight_def wpas_event_notify_def evt_send_def wpas_event_notify_to_sta_dev_def upd_events_def
        bind_Returns split: if_splits)
  then show ?thesis using Returns assms(2) by simp
qed (use assms(1) in \<open>auto simp: tight_def wpas_event_notify_def evt_send_def split: if_splits\<close>)

lemma run_udhcpc_blocks: "tight 0 d \<Longrightarrow> run_udhcpc keep k d = Blocks"
  using start_udhcpc_frame[of k d] ip_frame[of k "start_udhcpc k d"]
  by (auto simp: run_udhcpc_def notify_tight split: prod.split)

lemma try_start_udhcpc_blocks:
  assumes "tight 1 d"
  shows "try_start_udhcpc k d = Blocks"
proof -
  obtain now d1 where t: "on_os (os_time k) d = (now, d1)" by fastforce
  then obtain s1 where s1: "d1 = d\<lparr>os := s1\<rparr>" using on_os_eq[OF t] by auto
  have "tight (Suc 0) (os_do (os_sleep k 1000000) d1)" using assms s1 by (simp add: os_do_def)
  then show ?thesis
    unfolding try_start_udhcpc_def t Let_def prod.case
    by (rule notify_then_blocks) (auto simp: run_udhcpc_blocks notify_tight split: prod.split dest!: ip_frame)
qed

lemma dispatch_name_blocks:
  assumes "needs (named_event name) = Suc n" "tight n d"
  shows "dispatch_name k name d = Blocks"
proof (cases "name = ''CONNECTED''")
  case True
  then have "tight (Suc 1) d" using assms by (simp add: named_event_def needs_def numeral_2_eq_2)
  then show ?thesis
    using True notify_then_blocks[of 1 d "\<lambda>d. bind_outcome (try_start_udhcpc k d) (\<lambda>d. Returns (0, d))" WIFI_CONNECTED]
    by (simp add: dispatch_name_def try_start_udhcpc_blocks)
next
  case False
  then have "tight 0 d" using assms by (auto simp: named_event_def needs_def split: if_splits)
  then show ?thesis using False assms(1)
    by (auto simp: dispatch_name_def notify_tight named_event_def needs_def split: if_splits)
qed

lemma dispatch_blocks:
  assumes "needs (message_event s) = Suc n" "tight n d"
  shows "wpas_dispatch_event k s d = Blocks"
proof -
  have ne: "s \<noteq> []" using assms(1) message_event_Nil by (auto simp: needs_def)
  show ?thesis
  proof (cases "starts ''CTRL-EVENT-'' s")
    case True
    then obtain name where name: "event_name s = Some name" "needs (named_event name) = Suc n"
      using assms(1) by (cases "event_name s") (auto simp: message_event_def needs_def)
    then show ?thesis using True ne dispatch_name_blocks[OF name(2) assms(2)] by (simp add: wpas_dispatch_event_def)
  next
    case False
    then have p: "starts ''WPA:'' s \<and> strstr ''pre-shared key may be incorrect'' s \<noteq> None" "n = 0"
      using assms(1) by (auto simp: message_event_def needs_def split: if_splits)
    have "tight 0 (d\<lparr>sta_auth_fail_cnt := sta_auth_fail_cnt d + 1\<rparr>)" using assms(2) p(2) by (simp add: tight_def)
    from notify_tight[OF this] show ?thesis
      using False ne p(1) by (simp only: wpas_dispatch_event_def if_False if_True not_False_eq_True bind_outcome.simps simp_thms)
  qed
qed

lemma round_blocks:
  assumes "proper m" "monitor_conn d" "incoming d = Message m # rest" "needs (event_of_message m) = Suc n" "tight n d"
  shows "wpas_event_round k d = Blocks"
proof -
  let ?d = "d\<lparr>incoming := rest\<rparr>"
  obtain s where s: "event_of_message m = message_event s"
    "wpas_event_round k d = bind_outcome (wpas_dispatch_event k s ?d)
       (\<lambda>(ret, d). Returns (if c_true ret then d\<lparr>threads := threads d - 1\<rparr> else d))"
    by (rule message_round[OF assms(1-3)])
  have "tight n ?d" using assms(5) by (simp add: tight_def)
  then show ?thesis using dispatch_blocks[of s n ?d k] assms(4) s by simp
qed

lemma listen_blocks:
  assumes "punctual k" "monitor_conn d" "0 < threads d" "incoming d = map Message ms @ rest" "list_all harmless ms"
    and "n < all_need ms" "tight n d" "room_for 0 d"
  shows "listen_rounds k (length ms) d = Blocks"
  using assms(2-)
proof (induction ms arbitrary: d n)
  case Nil
  then show ?case by (simp add: all_need_def)
next
  case (Cons m ms)
  let ?d = "d\<lparr>incoming := map Message ms @ rest\<rparr>" and ?n = "needs (event_of_message m)"
  have m: "proper m" "event_of_message m \<noteq> Some WIFI_TERMINATING" using Cons.prems(4) by (simp_all add: harmless_def)
  have inc: "incoming d = Message m # map Message ms @ rest" using Cons.prems(3) by simp
  show ?case
  proof (cases "room_for ?n d")
    case False
    then have "0 < ?n" "tight (?n - 1) d" using room_or_tight[OF Cons.prems(7), of ?n] by auto
    then have "wpas_event_round k d = Blocks" using round_blocks[OF m(1) Cons.prems(1) inc, of "?n - 1"] by simp
    then show ?thesis using Cons.prems(2) by simp
  next
    case True
    then obtain d1 es where r: "wpas_event_round k d = Returns d1" "emits es ?d d1" "reports (event_of_message m) es"
      "incoming d1 = map Message ms @ rest"
      using proper_round[OF assms(1) m(1) Cons.prems(1) inc m(2)] by blast
    have len: "length es = ?n" by (rule reports_length[OF r(3)])
    have le: "?n \<le> n" using True Cons.prems(6) by (auto simp: room_for_def tight_def)
    have "tight n ?d" using Cons.prems(6) by (simp add: tight_def)
    from emits_tight[OF this r(2)] have "tight (n - ?n) d1" using le len by simp
    moreover have "n - ?n < all_need ms" using Cons.prems(5) le by (simp add: all_need_def)
    moreover have "monitor_conn d1" "0 < threads d1" using r(2) Cons.prems(1,2) by (auto simp: emits_def link_frame_def)
    moreover have "room_for ?n ?d" using True by (simp add: room_for_def)
    with emits_room[OF this r(2)] len have "room_for 0 d1" by simp
    ultimately have "listen_rounds k (length ms) d1 = Blocks"
      using Cons.IH[of d1 "n - ?n"] r(4) Cons.prems(4) by simp
    then show ?thesis using r(1) Cons.prems(2) by simp
  qed
qed

text \<open>
  C12. What a sequence of messages of the supplicant leads to, while nobody reads the event pipe and
  commands are answered in time. The messages are not empty, shorter than the event buffer, and none says that the
  supplicant ends. The events they stand for are known: one for each message that stands for one, and
  behind a connection the start of the client and its end. When the pipe has room for them all, the thread
  takes one message in each round, puts its events into the pipe and tells the station the same events
  in the same order; messages that stand for nothing leave no trace. When it has not, the thread
  is stuck in a write before it has handled them all.
\<close>

theorem messages_reach_station:
  assumes "punctual k" "monitor_conn d" "0 < threads d" "incoming d = map Message ms @ rest" "list_all harmless ms"
    and "sta_event_handle d = Some h" "evt_socket_enable h" "length (evt_bytes h) \<le> evt_room h" "sta_wpa_event_cb d"
  shows "if length (evt_bytes h) + all_need ms \<le> evt_room h
    then \<exists>d' ess. listen_rounds k (length ms) d = Returns d' \<and> incoming d' = rest \<and>
      list_all2 (\<lambda>m. reports (event_of_message m)) ms ess \<and> notified d' = notified d @ concat ess \<and>
      sta_event_handle d' = Some (h\<lparr>evt_bytes := evt_bytes h @ map event_byte (concat ess)\<rparr>)
    else listen_rounds k (length ms) d = Blocks"
proof (cases "length (evt_bytes h) + all_need ms \<le> evt_room h")
  case True
  then have "room_for (all_need ms) d" using assms(6,7) by (simp add: room_for_def)
  from listen_handles[OF assms(1-5) this] show ?thesis using True assms(6,9) by (auto simp: handled_def)
next
  case False
  have r: "room_for 0 d" using assms(6-8) by (simp add: room_for_def)
  from room_or_tight[OF r, of "all_need ms"] False assms(6)
  have "tight (all_need ms - 1) d" "all_need ms - 1 < all_need ms" by (auto simp: room_for_def)
  from listen_blocks[OF assms(1-5) this(2,1) r] show ?thesis using False by simp
qed

lemma demo_handle_room: "n \<le> 8 \<Longrightarrow> room_for n (demo_dev inc)"
  by (simp add: room_for_def demo_dev_defs)

lemma recorder_punctual: "punctual (recorder f)"
  by (simp add: punctual_def recorder_def)

theorem messages_reach_station_witness:
  "(\<exists>d' ess. listen_rounds (recorder (\<lambda>_. ''OK'')) 2
      (demo_dev (map Message [''<3>CTRL-EVENT-SCAN-RESULTS '', ''<2>CTRL-EVENT-BSS-ADDED 1''] @ [Quiet])) = Returns d' \<and>
     incoming d' = [Quiet] \<and> ess = [[WIFI_SCAN_RESULTS], []] \<and> notified d' = concat ess) \<and>
   listen_rounds (recorder (\<lambda>_. ''OK'')) 9
      (demo_dev (map Message (replicate 9 ''<3>CTRL-EVENT-SCAN-RESULTS '') @ [])) = Blocks"
proof -
  let ?ms = "[''<3>CTRL-EVENT-SCAN-RESULTS '', ''<2>CTRL-EVENT-BSS-ADDED 1'']" and ?ms9 = "replicate 9 ''<3>CTRL-EVENT-SCAN-RESULTS ''"
  obtain h where h: "\<And>inc. sta_event_handle (demo_dev inc) = Some h" "evt_socket_enable h" "evt_bytes h = []" "evt_room h = 8"
    by (simp add: demo_dev_defs)
  have e: "event_of_message ''<3>CTRL-EVENT-SCAN-RESULTS '' = Some WIFI_SCAN_RESULTS"
    "event_of_message ''<2>CTRL-EVENT-BSS-ADDED 1'' = None"
    by (simp_all add: event_of_message_def strip_level_def starts_def strchr_def message_event_def event_name_def named_event_def)
  have hm: "list_all harmless ?ms" "list_all harmless ?ms9" by (simp_all add: list_all_iff harmless_def proper_def e)
  have n: "all_need ?ms = 1" "all_need ?ms9 = 9" by (simp_all add: all_need_def needs_def e sum_list_replicate)
  have t: "monitor_conn (demo_dev inc)" "0 < threads (demo_dev inc)" "sta_wpa_event_cb (demo_dev inc)"
    "length (evt_bytes h) \<le> evt_room h" "notified (demo_dev inc) = []" for inc
    using h by (simp_all add: demo_dev_defs)
  have i: "incoming (demo_dev inc) = inc" for inc by (simp add: demo_dev_defs)
  note r = messages_reach_station[OF recorder_punctual t(1,2) i _ h(1,2) t(4,3)]
  from r[OF hm(1), of "\<lambda>_. ''OK''" "[Quiet]"] n(1) h(3,4)
  obtain d' ess where *: "listen_rounds (recorder (\<lambda>_. ''OK'')) (length ?ms) (demo_dev (map Message ?ms @ [Quiet])) = Returns d'"
    "incoming d' = [Quiet]" "list_all2 (\<lambda>m. reports (event_of_message m)) ?ms ess" "notified d' = concat ess"
    by (auto simp: t(5) simp del: listen_rounds.simps)
  have "ess = [[WIFI_SCAN_RESULTS], []]" using *(3) by (auto simp: list_all2_Cons1 e reports_def)
  moreover have "listen_rounds (recorder (\<lambda>_. ''OK'')) (length ?ms9) (demo_dev (map Message ?ms9 @ [])) = Blocks"
    using r[OF hm(2), of "\<lambda>_. ''OK''" "[]"] n(2) h(3,4) by (simp del: listen_rounds.simps)
  ultimately show ?thesis using * by (auto simp: numeral_2_eq_2 simp del: listen_rounds.simps)
qed

section \<open>Nobody reads\<close>

text \<open>A message that stands for one event.\<close>

definition single :: "string \<Rightarrow> bool" where
  "single m \<longleftrightarrow> harmless m \<and> (\<exists>e. event_of_message m = Some e \<and> e \<noteq> WIFI_CONNECTED)"

text \<open>
  The thread waits for ever on a pipe that nobody reads: only connecting and scanning read it,
  so that on a station that does neither, as many messages with an event as the pipe has room for
  leave the thread stuck in the write at the next one. Later events do not reach the station.
\<close>

theorem unread_pipe_stops_thread:
  assumes "punctual k" "monitor_conn d" "0 < threads d" "incoming d = map Message ms @ rest" "list_all single ms"
    and "sta_event_handle d = Some h" "evt_socket_enable h" "length (evt_bytes h) \<le> evt_room h"
    and "evt_room h - length (evt_bytes h) < length ms"
  shows "listen_rounds k (length ms) d = Blocks"
proof -
  have "all_need ms = length ms"
    using assms(5) by (induction ms) (auto simp: all_need_def single_def needs_def)
  moreover have "tight (evt_room h - length (evt_bytes h)) d" using assms(6,7) by (auto simp: tight_def)
  moreover have "room_for 0 d" using assms(6-8) by (simp add: room_for_def)
  moreover have "list_all harmless ms" using assms(5) by (auto simp: list_all_iff single_def)
  ultimately show ?thesis using listen_blocks[OF assms(1-4), of "evt_room h - length (evt_bytes h)"] assms(9) by simp
qed

theorem unread_pipe_stops_thread_witness:
  "listen_rounds (recorder (\<lambda>_. ''OK'')) 9 (demo_dev (map Message (replicate 9 ''<3>CTRL-EVENT-SCAN-STARTED '') @ [])) = Blocks"
proof -
  have e: "event_of_message ''<3>CTRL-EVENT-SCAN-STARTED '' = Some WIFI_SCAN_STARTED"
    by (simp add: event_of_message_def strip_level_def starts_def strchr_def message_event_def event_name_def named_event_def)
  have "list_all single (replicate 9 ''<3>CTRL-EVENT-SCAN-STARTED '')"
    by (simp add: list_all_iff single_def harmless_def proper_def e)
  then show ?thesis
    using unread_pipe_stops_thread[OF recorder_punctual, of "demo_dev (map Message (replicate 9 ''<3>CTRL-EVENT-SCAN-STARTED '') @ [])"
        "replicate 9 ''<3>CTRL-EVENT-SCAN-STARTED ''" "[]" _ "\<lambda>_. ''OK''"]
    by (simp del: listen_rounds.simps)
qed

end
