(* ===== verification/Wpa_Requests.thy ===== *)
theory Wpa_Requests
  imports Wpa_Messages
begin

text \<open>
  Requests from end to end: a scan from the command to the caller's array, and the commands that
  configure a network.
\<close>

section \<open>Fetching the results of a scan\<close>

text \<open>At most \<open>n\<close> attempts, as a counter that were not reset would have it.\<close>

fun fetch_within :: "nat \<Rightarrow> 's wpa_os \<Rightarrow> 's wpa_dev \<Rightarrow> (string \<times> 's wpa_dev) option" where
  "fetch_within 0 k d = None"
| "fetch_within (Suc n) k d =
     (case command_to_supplicant k ''SCAN_RESULTS'' SCAN_BUF_LEN d of
        (ret, reply, d) \<Rightarrow>
          if ret \<noteq> 0 then fetch_within n k (os_do (os_sleep k 1000000) d)
          else Some ((case reply of None \<Rightarrow> [] | Some r \<Rightarrow> r), d))"

lemma fetch_within_fetches: "fetch_within n k d = Some x \<Longrightarrow> fetch_scan_results k d = Some x"
proof (induction n arbitrary: d)
  case (Suc n)
  obtain ret reply d1 where "command_to_supplicant k ''SCAN_RESULTS'' SCAN_BUF_LEN d = (ret, reply, d1)"
    using prod_cases3 by blast
  then show ?case using Suc by (subst fetch_scan_results.simps) (auto split: if_splits)
qed simp

lemma fetch_within_enough:
  assumes "fetch_scan_results k d = Some x"
  shows "\<exists>n. fetch_within n k d = Some x"
proof (rule fetch_scan_results.raw_induct[where P = "\<lambda>k d x. \<exists>n. fetch_within n k d = Some x", OF _ assms])
  fix f k d x
  assume 1: "\<And>k d x. f k d = Some x \<Longrightarrow> \<exists>n. fetch_within n k d = Some x"
    "(case command_to_supplicant k ''SCAN_RESULTS'' SCAN_BUF_LEN d of
        (ret, reply, d) \<Rightarrow>
          if ret \<noteq> 0 then f k (os_do (os_sleep k 1000000) d)
          else Some ((case reply of None \<Rightarrow> [] | Some r \<Rightarrow> r), d)) = Some x"
  obtain ret reply d1 where c: "command_to_supplicant k ''SCAN_RESULTS'' SCAN_BUF_LEN d = (ret, reply, d1)"
    using prod_cases3 by blast
  show "\<exists>n. fetch_within n k d = Some x"
  proof (cases "ret = 0")
    case True
    then have "fetch_within (Suc 0) k d = Some x" using 1(2) c by simp
    then show ?thesis by blast
  next
    case False
    then have "f k (os_do (os_sleep k 1000000) d1) = Some x" using 1(2) c by simp
    then obtain n where "fetch_within n k (os_do (os_sleep k 1000000) d1) = Some x" using 1(1) by blast
    then have "fetch_within (Suc n) k d = Some x" using c False by simp
    then show ?thesis by blast
  qed
qed

text \<open>
  Fetching the results of a scan ends exactly when some number of attempts is enough: there is
  no bound on them, although the code counts to two, and a supplicant that never answers the
  command keeps the caller for ever.
\<close>

theorem fetch_retries_without_bound:
  "fetch_scan_results k d = Some x \<longleftrightarrow> (\<exists>n. fetch_within n k d = Some x)"
  using fetch_within_fetches fetch_within_enough by blast

section \<open>A scan\<close>

definition answers :: "'s wpa_os \<Rightarrow> string \<Rightarrow> string \<Rightarrow> bool" where
  "answers k cmd reply \<longleftrightarrow> (\<forall>s. fst (os_request k cmd s) = (0, reply))"

lemma answered:
  assumes "answers k cmd (r @ [NL])" "cmd \<noteq> []" "ctrl_conn d" "length r + 1 < n" "\<not> starts ''FAIL'' (r @ [NL])"
  obtains s where "command_to_supplicant k cmd n d = (0, Some r, d\<lparr>os := s\<rparr>)"
proof -
  have "fst (os_request k cmd (os d)) = (0, r @ [NL])" using assms(1) by (simp add: answers_def)
  then obtain s where s: "os_request k cmd (os d) = ((0, r @ [NL]), s)" by (cases "os_request k cmd (os d)") simp
  have "take (n - 1) (r @ [NL]) = r @ [NL]" using assms(4) by simp
  then show ?thesis
    using that[of s] assms(2,3,5) s
    by (simp add: command_to_supplicant_def wifi_send_command_def on_os_def strip_newline_def)
qed

text \<open>A thread that listens, with an open pipe of which nothing is to be read.\<close>

definition listening :: "incoming list \<Rightarrow> 's wpa_dev \<Rightarrow> bool" where
  "listening inc d \<longleftrightarrow> ctrl_conn d \<and> monitor_conn d \<and> 0 < threads d \<and> incoming d = inc \<and>
     (\<exists>h. sta_event_handle d = Some h \<and> evt_socket_enable h \<and> evt_bytes h = [] \<and> 0 < evt_room h)"

lemma listening_os: "listening inc (d\<lparr>os := s\<rparr>) \<longleftrightarrow> listening inc d"
  by (simp add: listening_def)

text \<open>Waiting while a message arrives: its event is read, and one that stands for nothing is passed over.\<close>

lemma await_message:
  assumes "punctual k" "listening (Message m # rest) d" "harmless m" "event_of_message m \<noteq> Some WIFI_CONNECTED"
  shows "\<exists>d'. listening rest d' \<and>
    evt_await k d = (case event_of_message m of None \<Rightarrow> evt_await k d' | Some e \<Rightarrow> Returns (1, Some (sta_event_num e), d'))"
proof -
  obtain h where h: "sta_event_handle d = Some h" "evt_socket_enable h" "evt_bytes h = []" "0 < evt_room h"
    "ctrl_conn d" "monitor_conn d" "0 < threads d" "incoming d = Message m # rest"
    using assms(2) by (auto simp: listening_def)
  have m: "proper m" "event_of_message m \<noteq> Some WIFI_TERMINATING" using assms(3) by (simp_all add: harmless_def)
  have "room_for (needs (event_of_message m)) d"
    using h assms(4) by (auto simp: room_for_def needs_def split: option.split)
  then obtain d1 es where r: "wpas_event_round k d = Returns d1" "emits es (d\<lparr>incoming := rest\<rparr>) d1"
    "reports (event_of_message m) es" "incoming d1 = rest"
    using proper_round[OF assms(1) m(1) h(6,8) m(2)] by blast
  have e: "evt_await k d = evt_await k d1"
    using h r(1) by (subst evt_await.simps) simp
  have d1: "sta_event_handle d1 = Some (h\<lparr>evt_bytes := map event_byte es\<rparr>)" "ctrl_conn d1" "monitor_conn d1" "0 < threads d1"
    using r(2) h by (auto simp: emits_def link_frame_def)
  show ?thesis
  proof (cases "event_of_message m")
    case None
    then have "listening rest d1" using d1 r(3,4) h by (simp add: listening_def reports_def)
    then show ?thesis using e None by auto
  next
    case (Some ev)
    then have es: "es = [ev]" using r(3) assms(4) by (auto simp: reports_def)
    let ?d = "d1\<lparr>sta_event_handle := Some (h\<lparr>evt_bytes := []\<rparr>)\<rparr>"
    have "evt_await k d1 = Returns (1, Some (sta_event_num ev), ?d)"
      using d1(1) h(2) es by (subst evt_await.simps) (simp add: evt_read_def event_byte_def)
    moreover have "listening rest ?d" using d1 r(4) h by (simp add: listening_def)
    ultimately show ?thesis using e Some by auto
  qed
qed

text \<open>Messages that may come before the results of a scan, and how many of them count.\<close>

definition passing :: "string \<Rightarrow> bool" where
  "passing m \<longleftrightarrow> harmless m \<and> event_of_message m \<notin> {Some WIFI_CONNECTED, Some WIFI_SCAN_RESULTS, Some WIFI_SCAN_FAILED}"

definition counted :: "string list \<Rightarrow> nat" where
  "counted ms = length (filter (\<lambda>m. event_of_message m \<noteq> None) ms)"

definition scan_message :: "string \<Rightarrow> bool" where
  "scan_message m \<longleftrightarrow> proper m \<and> event_of_message m = Some WIFI_SCAN_RESULTS"

lemma await_passes:
  assumes "evt_await k d = evt_await k d'" "n < SCAN_TRY_MAX"
  shows "scan_wait k n e d = scan_wait k n e d'"
  using assms by (simp add: scan_wait.simps[of k n e d] scan_wait.simps[of k n e d'])

lemma scan_wait_finds:
  assumes "punctual k" "listening (map Message pre @ Message m # rest) d" "list_all passing pre" "scan_message m"
    and "n + counted pre < SCAN_TRY_MAX"
  shows "\<exists>d'. scan_wait k n e d = Returns (Scan_Done, d') \<and> listening rest d'"
  using assms(2,3,5)
proof (induction pre arbitrary: d n e)
  case Nil
  have m: "harmless m" "event_of_message m = Some WIFI_SCAN_RESULTS"
    using assms(4) by (auto simp: scan_message_def harmless_def)
  have l: "listening (Message m # rest) d" using Nil(1) by simp
  obtain d1 where "listening rest d1" "evt_await k d = Returns (1, Some (sta_event_num WIFI_SCAN_RESULTS), d1)"
    using await_message[OF assms(1) l m(1)] m(2) by auto
  then show ?case using Nil(3) by (subst scan_wait.simps) simp
next
  case (Cons p pre)
  have p: "harmless p" "event_of_message p \<noteq> Some WIFI_CONNECTED" using Cons(3) by (auto simp: passing_def)
  have l: "listening (Message p # map Message pre @ Message m # rest) d" using Cons(2) by simp
  have n: "n < SCAN_TRY_MAX" using Cons(4) by simp
  obtain d1 where d1: "listening (map Message pre @ Message m # rest) d1"
    "evt_await k d = (case event_of_message p of None \<Rightarrow> evt_await k d1 | Some e \<Rightarrow> Returns (1, Some (sta_event_num e), d1))"
    using await_message[OF assms(1) l p] by blast
  show ?case
  proof (cases "event_of_message p")
    case None
    then have "scan_wait k n e d = scan_wait k n e d1" using await_passes[of k d d1 n e] d1(2) n by simp
    then show ?thesis using Cons(1)[OF d1(1), of n e] Cons(3,4) None by (simp add: counted_def)
  next
    case (Some ev)
    then have ne: "ev \<noteq> WIFI_SCAN_RESULTS" "ev \<noteq> WIFI_SCAN_FAILED" using Cons(3) by (auto simp: passing_def)
    have "scan_wait k n e d = scan_wait k (Suc n) (sta_event_num ev) d1"
      using d1(2) Some n ne by (subst scan_wait.simps) (simp del: sta_event_num.simps)
    then show ?thesis using Cons(1)[OF d1(1), of "Suc n" "sta_event_num ev"] Cons(3,4) Some by (simp add: counted_def)
  qed
qed

text \<open>A text without quotes and backslashes is not changed.\<close>

lemma no_slashes: "QUOTE \<notin> set s \<Longrightarrow> BACKSLASH \<notin> set s \<Longrightarrow> remove_slash_from_scan_results s = Some s"
  by (simp add: remove_slash_from_scan_results_def drop_slash_none strchr_None)

lemma scan_finds:
  assumes "punctual k" "listening (map Message pre @ Message m # rest) d" "list_all passing pre" "scan_message m"
    and "counted pre < SCAN_TRY_MAX" "answers k ''SCAN'' (''OK'' @ [NL])"
  shows "\<exists>d'. scan_once k 0 (- 1) d = Returns (True, d') \<and> listening rest d'"
proof -
  obtain h where h: "sta_event_handle d = Some h" "evt_socket_enable h" "evt_bytes h = []" "0 < evt_room h"
    "ctrl_conn d" using assms(2) by (auto simp: listening_def)
  have c: "snd (evt_socket_clear h) = h" using h(3) by (simp add: evt_socket_clear_def)
  have same: "d\<lparr>sta_event_handle := Some h\<rparr> = d" using h(1) by (cases d) simp
  obtain s where s: "command_to_supplicant k ''SCAN'' SCAN_BUF_LEN d = (0, Some ''OK'', d\<lparr>os := s\<rparr>)"
    by (rule answered[OF assms(6), where n = SCAN_BUF_LEN and d = d]) (use h(5) in \<open>auto simp: starts_def\<close>)
  have l: "listening (map Message pre @ Message m # rest) (d\<lparr>os := s\<rparr>)" using assms(2) by (simp add: listening_os)
  obtain d' where "scan_wait k 0 (- 1) (d\<lparr>os := s\<rparr>) = Returns (Scan_Done, d')" "listening rest d'"
    using scan_wait_finds[OF assms(1) l assms(3,4), of 0 "- 1"] assms(5) by auto
  then show ?thesis using h(1) c s by (subst scan_once.simps) (simp add: same)
qed


definition scan_replies :: "string \<Rightarrow> string" where
  "scan_replies cmd =
     (if cmd = ''SCAN_RESULTS'' then (''bssid'' @ NL # scan_table [demo_row, demo_row]) @ [NL] else ''OK'' @ [NL])"

definition demo_scan :: "incoming list" where
  "demo_scan = map Message [''<3>CTRL-EVENT-SCAN-STARTED ''] @ Message ''<3>CTRL-EVENT-SCAN-RESULTS '' # []"

lemma demo_events:
  "event_of_message ''<3>CTRL-EVENT-SCAN-STARTED '' = Some WIFI_SCAN_STARTED"
  "event_of_message ''<3>CTRL-EVENT-SCAN-RESULTS '' = Some WIFI_SCAN_RESULTS"
  by (simp_all add: event_of_message_def strip_level_def starts_def strchr_def message_event_def event_name_def named_event_def)

lemma recorder_answers: "answers (recorder f) cmd (f cmd)"
  by (simp add: answers_def recorder_def)

lemma demo_listening: "listening inc (demo_dev inc)"
  by (simp add: listening_def)


section \<open>Configuring a network\<close>

text \<open>The commands that configure a network with the number \<open>nid\<close>, in their order.\<close>

fun security_commands :: "wifi_secure \<Rightarrow> string \<Rightarrow> string \<Rightarrow> string list" where
  "security_commands WIFI_SEC_NONE nid p = [''SET_NETWORK '' @ nid @ '' key_mgmt NONE'']"
| "security_commands WIFI_SEC_WEP nid p =
     [''SET_NETWORK '' @ nid @ '' key_mgmt NONE'',
      ''SET_NETWORK '' @ nid @ '' wep_key0 '' @ (if length p = 10 \<or> length p = 26 then p else quoted p),
      ''SET_NETWORK '' @ nid @ '' auth_alg OPEN SHARED'']"
| "security_commands sec nid p =
     [''SET_NETWORK '' @ nid @ '' key_mgmt WPA-PSK'', ''SET_NETWORK '' @ nid @ '' psk '' @ quoted p]"

definition network_commands :: "wifi_secure \<Rightarrow> string \<Rightarrow> string \<Rightarrow> string \<Rightarrow> string list" where
  "network_commands sec nid ssid p =
     [''ADD_NETWORK'', ''SET_NETWORK '' @ nid @ '' ssid '' @ quoted ssid, ''SET_NETWORK '' @ nid @ '' scan_ssid 1''] @
     security_commands sec nid p @ [''SELECT_NETWORK '' @ nid]"

text \<open>The passphrases that are accepted for a kind of security.\<close>

definition key_ok :: "wifi_secure \<Rightarrow> string \<Rightarrow> bool" where
  "key_ok sec p \<longleftrightarrow>
     (case sec of WIFI_SEC_NONE \<Rightarrow> True
      | WIFI_SEC_WEP \<Rightarrow> length p \<in> {5, 10, 13, 26}
      | _ \<Rightarrow> check_wpa_password (Some p) = 0)"

lemma cmd_then_recorded:
  assumes "f cmd = ''OK'' @ [NL]" "ctrl_conn d" "cmd \<noteq> []" "length cmd \<le> CMD_MAX_LEN"
  shows "cmd_then (recorder f) cmd g d = g (d\<lparr>os := os d @ [cmd]\<rparr>)"
  using assms
  by (simp add: cmd_then_def fits_def command_to_supplicant_def wifi_send_command_def on_os_def recorder_def
      starts_def strip_newline_def)

text \<open>
  C35. Connecting configures exactly the network that was asked for: a supplicant that accepts all
  is sent the commands that add a network, set its name, its kind of security and its key, and
  select it, in this order and with nothing in between, and the number of the network is the
  one the supplicant gave.
\<close>

theorem select_sends_commands:
  assumes "ctrl_conn d" "f ''ADD_NETWORK'' = dec num @ [NL]" "num < 10 ^ 6" "\<forall>cmd. cmd \<noteq> ''ADD_NETWORK'' \<longrightarrow> f cmd = ''OK'' @ [NL]"
    and "cn_ssid cn = Some ssid" "length ssid < 64" "cn_password cn = Some p" "length p < 64" "key_ok (cn_sec cn) p"
  shows "wpas_select_network (recorder f) cn d =
    Some (0, dec num, d\<lparr>os := os d @ network_commands (cn_sec cn) (dec num) ssid p\<rparr>)"
proof -
  let ?k = "recorder f" and ?n = "dec num"
  have n: "?n \<noteq> []" "length ?n \<le> 6" "last ?n \<noteq> NL" "\<not> starts ''FAIL'' (?n @ [NL])"
  proof -
    show ne: "?n \<noteq> []" by (rule dec_not_Nil)
    show "length ?n \<le> 6" using length_dec_le[of num 6] assms(3) by simp
    have d: "\<forall>c \<in> set ?n. is_digit c" using dec_digits[of num] by (simp add: list_all_iff)
    then have "is_digit (last ?n)" "is_digit (hd ?n)" using ne by simp_all
    then show "last ?n \<noteq> NL" "\<not> starts ''FAIL'' (?n @ [NL])"
      using ne by (cases ?n; auto simp: starts_def is_digit_def)+
  qed
  have add: "command_to_supplicant ?k ''ADD_NETWORK'' 8 d = (0, Some ?n, d\<lparr>os := os d @ [''ADD_NETWORK'']\<rparr>)"
    using assms(1,2) n by (simp add: command_to_supplicant_def wifi_send_command_def on_os_def recorder_def strip_newline_def)
  define pre where "pre = ''SET_NETWORK '' @ ?n @ '' ''"
  have step: "cmd_then ?k cmd g (d\<lparr>os := log\<rparr>) = g (d\<lparr>os := log @ [cmd]\<rparr>)"
    if "take 2 cmd = ''SE''" "length cmd \<le> CMD_MAX_LEN" for cmd g log
  proof -
    have "cmd \<noteq> ''ADD_NETWORK''" "cmd \<noteq> []" using that(1) by auto
    then show ?thesis using cmd_then_recorded[of f cmd "d\<lparr>os := log\<rparr>" g] assms(1,4) that(2) by simp
  qed
  have st: "cmd_then ?k (pre @ x) g (d\<lparr>os := log\<rparr>) = g (d\<lparr>os := log @ [''SET_NETWORK '' @ ?n @ CHR '' '' # x]\<rparr>)"
    if "length x \<le> 80" for x g log
    using step[of "pre @ x" g log] n that by (simp add: pre_def)
  have sec: "select_security ?k cn pre g (d\<lparr>os := log\<rparr>) = g (d\<lparr>os := log @ security_commands (cn_sec cn) ?n p\<rparr>)" for g log
  proof (cases "cn_sec cn")
    case WIFI_SEC_WEP
    then show ?thesis using assms(7-9) by (auto simp: select_security_def st quoted_def key_ok_def)
  qed (use assms(7-9) in \<open>simp_all add: select_security_def st quoted_def key_ok_def\<close>)
  have sel: "cmd_then ?k (''SELECT_NETWORK '' @ ?n) g (d\<lparr>os := log\<rparr>) = g (d\<lparr>os := log @ [''SELECT_NETWORK '' @ ?n]\<rparr>)" for g log
    by (rule step) (use n in simp_all)
  have q: "length (''ssid '' @ quoted ssid) \<le> 80" "length ''scan_ssid 1'' \<le> 80" using assms(6) by (simp_all add: quoted_def)
  have "wpas_select_network ?k cn d = Some (0, ?n, d\<lparr>os := ((((os d @ [''ADD_NETWORK'']) @
      [''SET_NETWORK '' @ ?n @ CHR '' '' # (''ssid '' @ quoted ssid)]) @ [''SET_NETWORK '' @ ?n @ CHR '' '' # ''scan_ssid 1'']) @
      security_commands (cn_sec cn) ?n p) @ [''SELECT_NETWORK '' @ ?n]\<rparr>)"
    by (simp only: wpas_select_network_def add prod.case option.case Let_def pre_def[symmetric] refl not_True_eq_False if_False
        assms(5) bind.simps st[OF q(1)] st[OF q(2)] sec sel)
  then show ?thesis by (simp add: network_commands_def)
qed

theorem select_sends_commands_witness:
  "wpas_select_network (recorder (\<lambda>cmd. if cmd = ''ADD_NETWORK'' then dec 7 @ [NL] else ''OK'' @ [NL])) demo_cn (demo_dev []) =
     Some (0, dec 7, (demo_dev [])\<lparr>os := network_commands WIFI_SEC_WPA2_PSK (dec 7) ''home'' ''secret''\<rparr>)"
  using select_sends_commands[of "demo_dev []" "\<lambda>cmd. if cmd = ''ADD_NETWORK'' then dec 7 @ [NL] else ''OK'' @ [NL]" 7 demo_cn
      "''home''" "''secret''"]
  by (simp add: demo_cn_def key_ok_def check_wpa_password_def)

end
