(* ===== verification/Wpa_Replies.thy ===== *)
theory Wpa_Replies
  imports Wpa_Requests
begin

text \<open>
  What is read back out of the supplicant's and the kernel's answers: hardware addresses, the list
  of saved networks, the numbers behind names, the status; and where the readers go wrong.
\<close>

section \<open>Hardware addresses\<close>

lemma hex_value_char: "n < 16 \<Longrightarrow> hex_value (hex_char n) = of_nat n"
  by (auto simp: hex_value_def hex_char_def is_digit_def)

lemma nibbles: "unat (drop_bit 4 b) < 16" "unat (b AND 15) < 16" for b :: byte
proof -
  have "unat b < 256" using unsigned_less[of b] by simp
  then show "unat (drop_bit 4 b) < 16" by (simp add: unat_drop_bit_eq drop_bit_eq_div[of 4 "unat b"])
  have "b AND 15 = take_bit 4 b" by (simp add: take_bit_eq_mask mask_eq_exp_minus_1)
  then have "unat (b AND 15) = take_bit 4 (unat b)" by (simp only: unsigned_take_bit_eq)
  then show "unat (b AND 15) < 16" using take_bit_nat_less_exp[of 4 "unat b"] by simp
qed

lemma char2uint8_hex: "char2uint8 (hex_byte b) = b"
proof -
  have m: "b AND 15 = take_bit 4 b" by (simp add: take_bit_eq_mask mask_eq_exp_minus_1)
  have "push_bit 4 (drop_bit 4 b) OR (b AND 15) = b" unfolding m by (rule bit_word_eqI) (auto simp: bit_simps)
  then show ?thesis using nibbles[of b] by (simp add: char2uint8_def hex_byte_def hex_value_char)
qed

lemma hex_char_range: "n < 16 \<Longrightarrow> hex_char n \<noteq> CHR '':''"
proof -
  assume "n < 16"
  then have "of_char (hex_char n) \<noteq> (58 :: nat)" by (auto simp: hex_char_def)
  then show ?thesis by auto
qed

lemma hex_byte_colon: "hex_byte b \<noteq> []" "set (hex_byte b) \<inter> set '':'' = {}"
  using nibbles[of b] by (simp_all add: hex_byte_def hex_char_range)

lemma token_bytes_end: "token_bytes f ds n [] = Some []"
proof -
  have "strtok ds [] = None" by (simp add: strtok_none)
  then show ?thesis by (cases n) simp_all
qed

lemma colon_text_bytes:
  "length bs \<le> n \<Longrightarrow> token_bytes (\<lambda>t. Some (char2uint8 t)) '':'' n (colon_text bs) = Some bs"
proof (induction bs arbitrary: n rule: colon_text.induct)
  case 1
  show ?case by (simp add: token_bytes_end)
next
  case (2 b)
  then obtain m where "n = Suc m" by (cases n) auto
  then show ?case using strtok_field(2)[OF hex_byte_colon, of "CHR '':''"] by (simp add: char2uint8_hex token_bytes_end)
next
  case (3 b c bs)
  then obtain m where m: "n = Suc m" "length (c # bs) \<le> m" by (cases n) auto
  have "strtok '':'' (hex_byte b @ CHR '':'' # colon_text (c # bs)) = Some (hex_byte b, colon_text (c # bs))"
    using strtok_field(1)[OF hex_byte_colon, of "CHR '':''"] by simp
  then show ?case using 3(1)[OF m(2)] m(1) by (simp add: char2uint8_hex)
qed

text \<open>
  The hardware address that the kernel gives is the one the caller gets: printing the six bytes
  in hexadecimal and reading the text back changes none of them.
\<close>

theorem get_mac_reads_address:
  assumes "fst (os_socket k (os d))" "fst (os_get_hw k (take 15 ifname) (snd (os_socket k (os d)))) = Some hw"
    and "length hw = 6" "6 \<le> length old"
  shows "\<exists>s. linux_get_mac k ifname (Some old) d = Some (WMG_STATUS_SUCCESS, Some (hw @ drop 6 old), d\<lparr>os := s\<rparr>)"
proof -
  obtain s1 where s1: "os_socket k (os d) = (True, s1)" using assms(1) by (cases "os_socket k (os d)") simp
  then obtain s2 where s2: "os_get_hw k (take 15 ifname) s1 = (Some hw, s2)"
    using assms(2) by (cases "os_get_hw k (take 15 ifname) s1") simp
  have t: "take 6 hw = hw" "fits 32 (colon_text hw) = Some (colon_text hw)" "length old < length hw \<longleftrightarrow> False"
    using assms(3,4) length_colon_text[of hw] by simp_all
  have b: "token_bytes (\<lambda>t. Some (char2uint8 t)) '':'' 6 (colon_text hw) = Some hw"
    by (rule colon_text_bytes) (simp add: assms(3))
  have "linux_common_get_mac k (Some ifname) (Some old) (os d) = Some (WMG_STATUS_SUCCESS, Some (overlay hw old), s2)"
    by (simp add: linux_common_get_mac_def s1 s2 t b del: token_bytes.simps)
  then show ?thesis by (auto simp: linux_get_mac_def overlay_def assms(3) c_true_def)
qed

theorem get_mac_reads_address_witness:
  "\<exists>s. linux_get_mac (recorder (\<lambda>_. [])) ''wlan0'' (Some (replicate 6 255)) (demo_dev []) =
     Some (WMG_STATUS_SUCCESS, Some [0, 1, 2, 3, 4, 5], (demo_dev [])\<lparr>os := s\<rparr>)"
  using get_mac_reads_address[of "recorder (\<lambda>_. [])" "demo_dev []" "''wlan0''" "[0, 1, 2, 3, 4, 5]" "replicate 6 255"]
  by (simp add: recorder_def)

section \<open>The list of saved networks\<close>

text \<open>The list as \<open>LIST_NETWORKS\<close> prints it, without the newline at its end.\<close>

abbreviation "list_header \<equiv> ''network id / ssid / bssid / flags''"

definition network_line :: "wifi_sta_list_nod \<Rightarrow> string" where
  "network_line n = dec_int (nod_id n) @ TAB # nod_ssid n @ TAB # nod_bssid n @ TAB # nod_flags n"

fun networks_text :: "wifi_sta_list_nod list \<Rightarrow> string" where
  "networks_text [] = []"
| "networks_text [n] = network_line n"
| "networks_text (n # ns) = network_line n @ NL # networks_text ns"

text \<open>Fields that the reader can tell apart and has room for; the flags may be missing.\<close>

definition field_ok :: "nat \<Rightarrow> string \<Rightarrow> bool" where
  "field_ok n s \<longleftrightarrow> set s \<inter> {TAB, NL, CHR 0x27} = {} \<and> length s < n"

definition nod_ok :: "wifi_sta_list_nod \<Rightarrow> bool" where
  "nod_ok n \<longleftrightarrow> 0 \<le> nod_id n \<and> nod_id n < 2 ^ 31 \<and> field_ok 64 (nod_ssid n) \<and> nod_ssid n \<noteq> [] \<and>
     field_ok 48 (nod_bssid n) \<and> nod_bssid n \<noteq> [] \<and> field_ok 16 (nod_flags n)"

definition shown :: "wifi_sta_list_nod \<Rightarrow> wifi_sta_list_nod" where
  "shown n = (if nod_flags n = [] then n\<lparr>nod_flags := ''NULL''\<rparr> else n)"

lemma dec_field: "set (dec_int i) \<inter> {TAB, NL, CHR 0x27} = {}" "dec_int i \<noteq> []"
proof -
  have "list_all is_digit (dec n)" for n by (rule dec_digits)
  then have "set (dec n) \<inter> {TAB, NL, CHR 0x27} = {}" for n
    by (fastforce simp: list_all_iff is_digit_def)
  then show "set (dec_int i) \<inter> {TAB, NL, CHR 0x27} = {}" by (simp add: dec_int_def)
qed (simp add: dec_int_def dec_not_Nil)

text \<open>A field in front of a delimiter, and at the end.\<close>

lemma tok_field:
  assumes "set t \<inter> {TAB, NL, CHR 0x27} = {}" "t \<noteq> []" "set ds \<subseteq> {TAB, NL, CHR 0x27}" "c \<in> set ds"
  shows "strtok ds (t @ c # r) = Some (t, r)" "strtok ds t = Some (t, [])"
  using strtok_field[OF assms(2) _ assms(4)] assms(1,3) by blast+

lemma next_tok_Some: "strtok ds s = Some x \<Longrightarrow> next_tok ds s = (Some (fst x), snd x)"
  by (cases x) (simp add: next_tok_def)

lemma next_tok_Nil: "next_tok ds [] = (None, [])"
  by (simp add: next_tok_def strtok_def)

lemma list_node_line:
  assumes "nod_ok n"
  shows "list_node (network_line n) old = Some (shown n)"
proof -
  note ok = assms[unfolded nod_ok_def field_ok_def]
  have sub: "set delim_item \<subseteq> {TAB, NL, CHR 0x27}" "TAB \<in> set delim_item" by auto
  have t1: "strtok delim_item (network_line n) = Some (dec_int (nod_id n), nod_ssid n @ TAB # nod_bssid n @ TAB # nod_flags n)"
    unfolding network_line_def by (rule tok_field[OF dec_field sub])
  have t2: "strtok delim_item (nod_ssid n @ TAB # nod_bssid n @ TAB # nod_flags n) = Some (nod_ssid n, nod_bssid n @ TAB # nod_flags n)"
    by (rule tok_field[OF _ _ sub]) (use ok in simp_all)
  have t3: "strtok delim_item (nod_bssid n @ TAB # nod_flags n) = Some (nod_bssid n, nod_flags n)"
    by (rule tok_field[OF _ _ sub]) (use ok in simp_all)
  have t4: "fst (next_tok delim_item (nod_flags n)) = (if nod_flags n = [] then None else Some (nod_flags n))"
  proof (cases "nod_flags n = []")
    case False
    have "strtok delim_item (nod_flags n) = Some (nod_flags n, [])"
      by (rule tok_field[OF _ False sub]) (use ok in simp)
    then show ?thesis using False by (simp add: next_tok_Some)
  qed (simp add: next_tok_Nil)
  have i: "atoi_str (dec_int (nod_id n)) = Some (nod_id n)" using ok by (simp add: atoi_str_dec_int)
  obtain x r where x: "next_tok delim_item (nod_flags n) = (x, r)" by fastforce
  have sh: "shown n = \<lparr>nod_id = nod_id n, nod_ssid = nod_ssid n, nod_bssid = nod_bssid n,
      nod_flags = (if nod_flags n = [] then ''NULL'' else nod_flags n)\<rparr>" by (cases n) (simp add: shown_def)
  show ?thesis
    using t4 x i ok
    by (simp add: list_node_def next_tok_Some[OF t1] next_tok_Some[OF t2] next_tok_Some[OF t3] sh fits_def)
qed

lemma line_fields:
  assumes "nod_ok n"
  shows "set (network_line n) \<inter> {NL, CHR 0x27} = {}" "network_line n \<noteq> []"
  using assms dec_field[of "nod_id n"] by (auto simp: nod_ok_def field_ok_def network_line_def)

lemma list_entries_text:
  assumes "list_all nod_ok ns"
  shows "list_entries k (networks_text ns) = map network_line (take k ns)"
  using assms
proof (induction ns arbitrary: k rule: networks_text.induct)
  case 1
  have "strtok delim_entry [] = None" by (simp add: strtok_none)
  then show ?case by (cases k) simp_all
next
  case (2 n)
  have t: "strtok delim_entry (network_line n) = Some (network_line n, [])"
    by (rule strtok_field(2)[where c = NL]) (use 2 line_fields[of n] in auto)
  have e: "list_entries j [] = []" for j by (cases j) (simp_all add: strtok_def)
  show ?case by (cases k) (simp_all add: t e)
next
  case (3 n m ns)
  have t: "strtok delim_entry (network_line n @ NL # networks_text (m # ns)) = Some (network_line n, networks_text (m # ns))"
    by (rule strtok_field(1)) (use 3(2) line_fields[of n] in auto)
  show ?case using 3 t by (cases k) simp_all
qed

lemma list_nodes_lines:
  assumes "list_all nod_ok ns" "length ns \<le> length old"
  shows "list_nodes (map network_line ns) old = Some (map shown ns @ drop (length ns) old)"
  using assms
proof (induction ns arbitrary: old)
  case (Cons n ns)
  then obtain o' old' where "old = o' # old'" by (cases old) auto
  then show ?case using Cons by (simp add: list_node_line)
qed simp

lemma header_length: "length list_header = 33"
  by simp

text \<open>
  C38. Listing gives the caller the networks that the supplicant lists: for a list of well-formed
  entries the call succeeds, stores as many of them as the caller has places for, unchanged but
  for the text NULL where there are no flags, and counts what it stored.
\<close>

theorem list_networks_roundtrip:
  assumes "answers k ''LIST_NETWORKS'' ((list_header @ NL # networks_text ns) @ [NL])" "ctrl_conn d"
    and "length (list_header @ NL # networks_text ns) + 1 < REPLY_BUF_SIZE"
    and "list_all nod_ok ns" "0 \<le> list_num l" "list_num l < int LIST_ENTRY_NUME_MAX" "nat (list_num l) \<le> length (list_nod l)"
    and "networks_text ns \<noteq> []"
  shows "\<exists>s. linux_supplicant_list_networks k (Some l) d =
    Some (0, Some (l\<lparr>list_nod := map shown (take (nat (list_num l)) ns) @ drop (min (length ns) (nat (list_num l))) (list_nod l),
                     sys_list_num := int (min (length ns) (nat (list_num l)))\<rparr>), d\<lparr>os := s\<rparr>)"
proof -
  let ?t = "list_header @ NL # networks_text ns" and ?m = "nat (list_num l)"
  obtain s where s: "command_to_supplicant k ''LIST_NETWORKS'' REPLY_BUF_SIZE d = (0, Some ?t, d\<lparr>os := s\<rparr>)"
    by (rule answered[OF assms(1) _ assms(2,3)]) (simp_all add: starts_def)
  have ln: "list_networks k d = (0, ?t, d\<lparr>os := s\<rparr>)" by (simp only: list_networks_def s prod.case Let_def option.case)
  have len: "\<not> length ?t < 34" by simp
  have dr: "drop 34 ?t = networks_text ns" by simp
  have es: "list_entries ?m (networks_text ns) = map network_line (take ?m ns)" by (rule list_entries_text[OF assms(4)])
  have ne: "length (map network_line (take ?m ns)) \<noteq> LIST_ENTRY_NUME_MAX" using assms(6) by simp
  have ok: "list_all nod_ok (take ?m ns)" using assms(4) by (auto simp: list_all_iff dest: in_set_takeD)
  have nodes: "list_nodes (map network_line (take ?m ns)) (list_nod l) =
      Some (map shown (take ?m ns) @ drop (length (take ?m ns)) (list_nod l))"
    by (rule list_nodes_lines[OF ok]) (use assms(7) in simp)
  have big: "\<not> int LIST_ENTRY_NUME_MAX < list_num l" using assms(6) by simp
  show ?thesis
    by (rule exI[of _ s])
      (simp only: linux_supplicant_list_networks_def option.case Let_def big ln prod.case refl not_True_eq_False if_False len dr es ne nodes bind.simps,
        simp add: min.commute)
qed

definition demo_nods :: "wifi_sta_list_nod list" where
  "demo_nods = [\<lparr>nod_id = 0, nod_ssid = ''home'', nod_bssid = ''any'', nod_flags = ''[CURRENT]''\<rparr>,
     \<lparr>nod_id = 1, nod_ssid = ''work'', nod_bssid = ''any'', nod_flags = ''[DISABLED]''\<rparr>]"

definition list_replies :: "string \<Rightarrow> string" where
  "list_replies cmd = (if cmd = ''LIST_NETWORKS'' then (list_header @ NL # networks_text demo_nods) @ [NL] else ''WPA-PSK'' @ [NL])"

lemma list_replies_answers: "answers (recorder list_replies) ''LIST_NETWORKS'' ((list_header @ NL # networks_text demo_nods) @ [NL])"
  using recorder_answers[of list_replies "''LIST_NETWORKS''"] by (simp add: list_replies_def)

lemma demo_nods_ok: "list_all nod_ok demo_nods"
  by (simp add: demo_nods_def nod_ok_def field_ok_def)

lemma demo_nods_text:
  "networks_text demo_nods = ''0'' @ TAB # ''home'' @ TAB # ''any'' @ TAB # ''[CURRENT]'' @ NL # ''1'' @ TAB # ''work'' @ TAB # ''any'' @ TAB # ''[DISABLED]''"
  by (simp add: demo_nods_def network_line_def dec_int_def dec.simps char_of_def bit_0)

theorem list_networks_roundtrip_witness:
  "\<exists>s l'. linux_supplicant_list_networks (recorder list_replies) (Some \<lparr>list_nod = demo_nods, list_num = 1, sys_list_num = 0\<rparr>) (demo_dev []) =
     Some (0, Some l', (demo_dev [])\<lparr>os := s\<rparr>) \<and> list_nod l' = demo_nods \<and> sys_list_num l' = 1"
proof -
  let ?l = "\<lparr>list_nod = demo_nods, list_num = 1, sys_list_num = 0\<rparr>"
  have len: "length (list_header @ NL # networks_text demo_nods) + 1 < REPLY_BUF_SIZE" by (simp add: demo_nods_text)
  have ne: "networks_text demo_nods \<noteq> []" by (simp add: demo_nods_text)
  have n: "length demo_nods = 2" "map shown (take 1 demo_nods) @ drop 1 demo_nods = demo_nods" by (simp_all add: demo_nods_def shown_def)
  obtain s where "linux_supplicant_list_networks (recorder list_replies) (Some ?l) (demo_dev []) =
    Some (0, Some (?l\<lparr>list_nod := map shown (take (nat (list_num ?l)) demo_nods) @ drop (min (length demo_nods) (nat (list_num ?l))) (list_nod ?l),
                     sys_list_num := int (min (length demo_nods) (nat (list_num ?l)))\<rparr>), (demo_dev [])\<lparr>os := s\<rparr>)"
    using list_networks_roundtrip[OF list_replies_answers _ len demo_nods_ok _ _ _ ne, of "demo_dev []" ?l] n(1) by auto
  then show ?thesis using n by (intro exI[of _ s] exI[of _ "?l\<lparr>sys_list_num := 1\<rparr>"]) simp
qed

section \<open>The number behind a name\<close>

lemma ssid_loop_end: "ssid_loop ssid [] = Some None"
  by (subst ssid_loop.simps) (simp add: next_tok_Nil)

text \<open>With flags in every entry, four tokens are an entry.\<close>

lemma ssid_loop_text:
  assumes "list_all nod_ok ns" "list_all (\<lambda>n. nod_flags n \<noteq> []) ns"
  shows "ssid_loop ssid (networks_text ns) = Some (map_option nod_id (List.find (\<lambda>n. nod_ssid n = ssid) ns))"
proof -
  have entry: "ssid_loop ssid (network_line n @ r) = (if nod_ssid n = ssid then Some (Some (nod_id n)) else ssid_loop ssid (tl r))"
    if "nod_ok n" "nod_flags n \<noteq> []" "r = [] \<or> hd r = NL" for n r
  proof -
    note ok = that(1)[unfolded nod_ok_def field_ok_def]
    have sub: "set delim_both \<subseteq> {TAB, NL, CHR 0x27}" "TAB \<in> set delim_both" "NL \<in> set delim_both" by auto
    have t1: "strtok delim_both (network_line n @ r) = Some (dec_int (nod_id n), nod_ssid n @ TAB # nod_bssid n @ TAB # nod_flags n @ r)"
      using tok_field(1)[OF dec_field sub(1,2)] by (simp add: network_line_def)
    have t2: "strtok delim_both (nod_ssid n @ TAB # nod_bssid n @ TAB # nod_flags n @ r) = Some (nod_ssid n, nod_bssid n @ TAB # nod_flags n @ r)"
      by (rule tok_field(1)[OF _ _ sub(1,2)]) (use ok in simp_all)
    have t3: "strtok delim_both (nod_bssid n @ TAB # nod_flags n @ r) = Some (nod_bssid n, nod_flags n @ r)"
      by (rule tok_field(1)[OF _ _ sub(1,2)]) (use ok in simp_all)
    have t4: "strtok delim_both (nod_flags n @ r) = Some (nod_flags n, tl r)"
    proof (cases r)
      case Nil
      have "strtok delim_both (nod_flags n) = Some (nod_flags n, [])" by (rule tok_field(2)[OF _ that(2) sub(1,3)]) (use ok in simp)
      then show ?thesis using Nil by simp
    next
      case (Cons c r')
      have "strtok delim_both (nod_flags n @ NL # r') = Some (nod_flags n, r')" by (rule tok_field(1)[OF _ that(2) sub(1,3)]) (use ok in simp)
      then show ?thesis using Cons that(3) by simp
    qed
    have i: "atoi_str (dec_int (nod_id n)) = Some (nod_id n)" using ok by (simp add: atoi_str_dec_int)
    show ?thesis
      by (subst ssid_loop.simps) (simp add: next_tok_Some[OF t1] t2 next_tok_Some[OF t3] next_tok_Some[OF t4] i)
  qed
  show ?thesis
    using assms
  proof (induction ns rule: networks_text.induct)
    case (2 n)
    then show ?case using entry[of n "[]"] by (simp add: ssid_loop_end)
  next
    case (3 n m ns)
    then show ?case using entry[of n "NL # networks_text (m # ns)"] by simp
  qed (simp add: ssid_loop_end)
qed

lemma list_fetched:
  assumes "answers k ''LIST_NETWORKS'' ((list_header @ NL # t) @ [NL])" "ctrl_conn d" "length (list_header @ NL # t) + 1 < REPLY_BUF_SIZE"
  obtains s where "list_networks k d = (0, list_header @ NL # t, d\<lparr>os := s\<rparr>)"
proof -
  obtain s where "command_to_supplicant k ''LIST_NETWORKS'' REPLY_BUF_SIZE d = (0, Some (list_header @ NL # t), d\<lparr>os := s\<rparr>)"
    by (rule answered[OF assms(1) _ assms(2,3)]) (simp_all add: starts_def)
  then show ?thesis using that[of s] by (simp only: list_networks_def prod.case Let_def option.case)
qed

lemma ssid2netid_of_list:
  assumes "list_networks k d = (0, list_header @ NL # t, d')"
  shows "wpa_conf_ssid2netid k ssid d = map_option (\<lambda>id. (id, d')) (ssid_loop ssid t)"
proof -
  have "\<not> length (list_header @ NL # t) < 34" "drop 34 (list_header @ NL # t) = t" by simp_all
  then show ?thesis by (simp only: wpa_conf_ssid2netid_def assms prod.case Let_def refl not_True_eq_False if_False simp_thms)
qed

text \<open>
  A name is turned into the number of the first network that has it, and into none when there
  is no such network, provided that every entry of the list has flags.
\<close>

theorem ssid2netid_finds_network:
  assumes "answers k ''LIST_NETWORKS'' ((list_header @ NL # networks_text ns) @ [NL])" "ctrl_conn d"
    and "length (list_header @ NL # networks_text ns) + 1 < REPLY_BUF_SIZE"
    and "list_all nod_ok ns" "list_all (\<lambda>n. nod_flags n \<noteq> []) ns"
  shows "\<exists>s. wpa_conf_ssid2netid k ssid d =
    Some (map_option nod_id (List.find (\<lambda>n. nod_ssid n = ssid) ns), d\<lparr>os := s\<rparr>)"
proof -
  obtain s where "list_networks k d = (0, list_header @ NL # networks_text ns, d\<lparr>os := s\<rparr>)"
    by (rule list_fetched[OF assms(1-3)])
  then show ?thesis by (intro exI[of _ s]) (simp add: ssid2netid_of_list ssid_loop_text[OF assms(4,5)])
qed

theorem ssid2netid_finds_network_witness:
  "\<exists>s. wpa_conf_ssid2netid (recorder list_replies) ''work'' (demo_dev []) = Some (Some 1, (demo_dev [])\<lparr>os := s\<rparr>)"
proof -
  have "length (list_header @ NL # networks_text demo_nods) + 1 < REPLY_BUF_SIZE" by (simp add: demo_nods_text)
  then show ?thesis
    using ssid2netid_finds_network[OF list_replies_answers, of "demo_dev []" "''work''"] demo_nods_ok by (simp add: demo_nods_def)
qed

text \<open>
  Without flags, as the supplicant prints a network that is neither current nor disabled, the
  reader takes the next number for the flags and is out of step: of two such networks the second
  is not found, whatever its name, so that it cannot be removed by name.
\<close>

theorem ssid2netid_out_of_step:
  assumes "answers k ''LIST_NETWORKS'' ((list_header @ NL # networks_text [n1, n2]) @ [NL])" "ctrl_conn d"
    and "length (list_header @ NL # networks_text [n1, n2]) + 1 < REPLY_BUF_SIZE"
    and "nod_ok n1" "nod_ok n2" "nod_flags n1 = []" "nod_flags n2 = []" "nod_ssid n1 \<noteq> nod_ssid n2" "nod_bssid n2 \<noteq> nod_ssid n2"
    and "atoi_str (nod_ssid n2) \<noteq> None"
  shows "\<exists>s. wpa_conf_ssid2netid k (nod_ssid n2) d = Some (None, d\<lparr>os := s\<rparr>)"
proof -
  obtain s where s: "list_networks k d = (0, list_header @ NL # networks_text [n1, n2], d\<lparr>os := s\<rparr>)"
    by (rule list_fetched[OF assms(1-3)])
  note ok1 = assms(4)[unfolded nod_ok_def field_ok_def] and ok2 = assms(5)[unfolded nod_ok_def field_ok_def]
  have sub: "set delim_both \<subseteq> {TAB, NL, CHR 0x27}" "TAB \<in> set delim_both" "NL \<in> set delim_both" by auto
  let ?r2 = "nod_ssid n2 @ TAB # nod_bssid n2 @ TAB # []"
  let ?r = "dec_int (nod_id n2) @ TAB # ?r2"
  have whole: "networks_text [n1, n2] = dec_int (nod_id n1) @ TAB # nod_ssid n1 @ TAB # nod_bssid n1 @ TAB # NL # ?r"
    using assms(6,7) by (simp add: network_line_def)
  have skip: "strtok delim_both (NL # x) = strtok delim_both x" for x by (rule strtok_skip) simp
  have t1: "strtok delim_both (dec_int (nod_id n1) @ TAB # x) = Some (dec_int (nod_id n1), x)" for x
    by (rule tok_field(1)[OF dec_field sub(1,2)])
  have t2: "strtok delim_both (nod_ssid n1 @ TAB # x) = Some (nod_ssid n1, x)" for x
    by (rule tok_field(1)[OF _ _ sub(1,2)]) (use ok1 in simp_all)
  have t3: "strtok delim_both (nod_bssid n1 @ TAB # x) = Some (nod_bssid n1, x)" for x
    by (rule tok_field(1)[OF _ _ sub(1,2)]) (use ok1 in simp_all)
  have t4: "strtok delim_both (NL # ?r) = Some (dec_int (nod_id n2), ?r2)"
    unfolding skip by (rule tok_field(1)[OF dec_field sub(1,2)])
  have t5: "strtok delim_both (nod_ssid n2 @ TAB # x) = Some (nod_ssid n2, x)" for x
    by (rule tok_field(1)[OF _ _ sub(1,2)]) (use ok2 in simp_all)
  have t6: "strtok delim_both (nod_bssid n2 @ TAB # x) = Some (nod_bssid n2, x)" for x
    by (rule tok_field(1)[OF _ _ sub(1,2)]) (use ok2 in simp_all)
  obtain j where j: "atoi_str (nod_ssid n2) = Some j" using assms(10) by blast
  have i: "atoi_str (dec_int (nod_id n1)) = Some (nod_id n1)" using ok1 by (simp add: atoi_str_dec_int)
  have second: "ssid_loop (nod_ssid n2) ?r2 = Some None"
    using assms(9) by (subst ssid_loop.simps) (simp add: next_tok_Some[OF t5] t6 j next_tok_Nil ssid_loop_end)
  have "ssid_loop (nod_ssid n2) (networks_text [n1, n2]) = ssid_loop (nod_ssid n2) ?r2"
    unfolding whole using assms(8)
    by (subst ssid_loop.simps) (simp add: next_tok_Some[OF t1] t2 i next_tok_Some[OF t3] next_tok_Some[OF t4])
  then show ?thesis using s second by (intro exI[of _ s]) (simp add: ssid2netid_of_list)
qed

definition bare_nod :: "int \<Rightarrow> string \<Rightarrow> wifi_sta_list_nod" where
  "bare_nod i s = \<lparr>nod_id = i, nod_ssid = s, nod_bssid = ''any'', nod_flags = []\<rparr>"

definition bare_replies :: "string \<Rightarrow> string" where
  "bare_replies cmd = (list_header @ NL # networks_text [bare_nod 0 ''home'', bare_nod 1 ''work'']) @ [NL]"

theorem ssid2netid_out_of_step_witness:
  "\<exists>s. wpa_conf_ssid2netid (recorder bare_replies) ''work'' (demo_dev []) = Some (None, (demo_dev [])\<lparr>os := s\<rparr>)"
proof -
  have a: "answers (recorder bare_replies) ''LIST_NETWORKS''
      ((list_header @ NL # networks_text [bare_nod 0 ''home'', bare_nod 1 ''work'']) @ [NL])"
    using recorder_answers[of bare_replies "''LIST_NETWORKS''"] by (simp add: bare_replies_def)
  have len: "length (list_header @ NL # networks_text [bare_nod 0 ''home'', bare_nod 1 ''work'']) + 1 < REPLY_BUF_SIZE"
    by (simp add: bare_nod_def network_line_def dec_int_def dec.simps)
  have ok: "nod_ok (bare_nod 0 ''home'')" "nod_ok (bare_nod 1 ''work'')" by (simp_all add: nod_ok_def field_ok_def bare_nod_def)
  have num: "atoi_str ''work'' \<noteq> None"
    by (simp add: atoi_str_def atoi_def is_space_def is_digit_def int_range_def)
  show ?thesis
    using ssid2netid_out_of_step[OF a _ len ok, of "demo_dev []"] num by (simp add: bare_nod_def)
qed

section \<open>A name that ends like another one\<close>

text \<open>
  A saved network whose name only ends with the requested one is taken for it: when the list
  has such a line, of the network in use and with the same kind of key, before any other
  occurrence of the name, connecting reports success and a connection at once, without a network
  of that name being configured or selected.
\<close>

theorem suffix_taken_for_network:
  assumes "list_networks k d = (0, reply, d1)" "cn_ssid cn = Some ssid" "ssid \<noteq> []" "NL \<notin> set ssid"
    and "strstr ssid reply = Some (header @ NL # num @ TAB # prefix, ssid @ TAB # bssid @ TAB # ''[CURRENT]'' @ rest)"
    and "rest = [] \<or> hd rest = NL" "NL \<notin> set (num @ prefix @ bssid)" "TAB \<notin> set num" "num \<noteq> []" "length num \<le> 85"
    and "command_to_supplicant k (''GET_NETWORK '' @ num @ '' key_mgmt'') 128 d1 = (0, Some (key_type_of (cn_sec cn)), d2)"
  shows "linux_supplicant_connect_to_ap k cn d = Returns (WMG_STATUS_SUCCESS, wpas_event_notify_to_sta_dev WIFI_CONNECTED d2)"
proof -
  let ?start = "ssid @ TAB # bssid @ TAB # ''[CURRENT]'' @ rest"
  let ?line = "(num @ TAB # prefix) @ ssid @ TAB # bssid @ TAB # ''[CURRENT]''"
  have tk: "takeWhile (\<lambda>c. c \<noteq> NL) (w @ r) = w" if "NL \<notin> set w" "r = [] \<or> hd r = NL" for w r
    using that by (cases r) (auto simp: takeWhile_append)
  have ll: "last_line (header @ NL # num @ TAB # prefix) = Some (num @ TAB # prefix)"
    using tk[of "rev prefix @ TAB # rev num" "NL # rev header"] assms(7) by (simp add: last_line_def)
  have start: "takeWhile (\<lambda>c. c \<noteq> NL) ?start = ssid @ TAB # bssid @ TAB # ''[CURRENT]''"
    using tk[of "ssid @ TAB # bssid @ TAB # ''[CURRENT]''" rest] assms(4,6,7) by simp
  have tabbed: "starts [TAB] (drop (length ssid) ?start)" by (simp add: starts_def)
  have "?line = (num @ TAB # prefix @ ssid @ TAB # bssid @ TAB # ''['') @ ''CURRENT'' @ '']''" by simp
  then have cur: "strstr ''CURRENT'' ?line \<noteq> None" using strstr_None by blast
  have tok: "strtok [TAB] ?line = Some (num, prefix @ ssid @ TAB # bssid @ TAB # ''[CURRENT]'')"
    using strtok_field(1)[of num "[TAB]" TAB "prefix @ ssid @ TAB # bssid @ TAB # ''[CURRENT]''"] assms(8,9) by auto
  have num: "take (CMD_MAX_LEN + 1 - 1) num = num" using assms(10) by simp
  have fit: "fits (CMD_LEN + 1) (''GET_NETWORK '' @ num @ '' key_mgmt'') = Some (''GET_NETWORK '' @ num @ '' key_mgmt'')"
    using assms(10) by simp
  have loop: "exist_loop k ssid (key_type_of (cn_sec cn)) (CMD_MAX_LEN + 1) [] 0 reply d1 = Some (Returns (3, num, d2))"
    by (subst exist_loop.simps)
      (simp only: assms(5) option.case prod.case tabbed not_True_eq_False if_False ll Let_def start tok num fit assms(11)
        cur if_True not_False_eq_True refl, simp)
  show ?thesis
    using assms(1-3) loop by (simp add: linux_supplicant_connect_to_ap_def wpa_conf_is_ap_exist_def)
qed

theorem suffix_taken_for_network_witness:
  "\<exists>d2. linux_supplicant_connect_to_ap (recorder list_replies) (demo_cn\<lparr>cn_ssid := Some ''ome''\<rparr>) (demo_dev []) =
     Returns (WMG_STATUS_SUCCESS, wpas_event_notify_to_sta_dev WIFI_CONNECTED d2)"
proof -
  let ?cn = "demo_cn\<lparr>cn_ssid := Some ''ome''\<rparr>"
  let ?rest = "NL # ''1'' @ TAB # ''work'' @ TAB # ''any'' @ TAB # ''[DISABLED]''"
  have len: "length (list_header @ NL # networks_text demo_nods) + 1 < REPLY_BUF_SIZE" by (simp add: demo_nods_text)
  obtain s where s: "list_networks (recorder list_replies) (demo_dev []) = (0, list_header @ NL # networks_text demo_nods, (demo_dev [])\<lparr>os := s\<rparr>)"
    by (rule list_fetched[OF list_replies_answers _ len, of "demo_dev []"]) simp_all
  let ?d1 = "(demo_dev [])\<lparr>os := s\<rparr>" and ?cmd = "''GET_NETWORK '' @ ''0'' @ '' key_mgmt''"
  have "answers (recorder list_replies) ?cmd (''WPA-PSK'' @ [NL])"
    using recorder_answers[of list_replies ?cmd] by (simp add: list_replies_def)
  then obtain s2 where c: "command_to_supplicant (recorder list_replies) ?cmd 128 ?d1 = (0, Some ''WPA-PSK'', ?d1\<lparr>os := s2\<rparr>)"
    by (rule answered[where n = 128 and d = ?d1]) (auto simp: starts_def)
  have key: "key_type_of (cn_sec ?cn) = ''WPA-PSK''" by (simp add: key_type_of_def demo_cn_def)
  have f: "strstr ''ome'' (list_header @ NL # networks_text demo_nods) =
      Some (list_header @ NL # ''0'' @ TAB # ''h'', ''ome'' @ TAB # ''any'' @ TAB # ''[CURRENT]'' @ ?rest)"
    by (simp add: demo_nods_text strstr.simps starts_def)
  show ?thesis
    using suffix_taken_for_network[OF s _ _ _ f _ _ _ _ _ c[folded key]] by auto
qed

section \<open>The status\<close>

text \<open>Lines without the reader's delimiters, joined by newlines.\<close>

definition status_line :: "string \<Rightarrow> bool" where
  "status_line l \<longleftrightarrow> l \<noteq> [] \<and> NL \<notin> set l \<and> CHR 0x27 \<notin> set l"

fun join_lines :: "string list \<Rightarrow> string" where
  "join_lines [] = []"
| "join_lines [l] = l"
| "join_lines (l # ls) = l @ NL # join_lines ls"

fun status_fold :: "string list \<Rightarrow> status_fields \<Rightarrow> status_fields option option" where
  "status_fold [] f = Some (Some f)"
| "status_fold (l # ls) f =
     (case status_token l f of None \<Rightarrow> None | Some None \<Rightarrow> Some None | Some (Some f) \<Rightarrow> status_fold ls f)"

lemma status_tokens_lines:
  "list_all status_line ls \<Longrightarrow> status_tokens (join_lines ls) f = status_fold ls f"
proof (induction ls arbitrary: f rule: join_lines.induct)
  case 1
  have "strtok [CHR 0x27, NL] [] = None" by (simp add: strtok_none)
  then show ?case by (subst status_tokens.simps) simp
next
  case (2 l)
  have t: "strtok [CHR 0x27, NL] l = Some (l, [])"
    by (rule strtok_field(2)[where c = NL]) (use 2 in \<open>auto simp: status_line_def\<close>)
  have e: "status_tokens [] f = Some (Some f)" for f by (subst status_tokens.simps) (simp add: strtok_def)
  show ?case by (subst status_tokens.simps) (simp add: t e split: option.split)
next
  case (3 l m ls)
  have t: "strtok [CHR 0x27, NL] (l @ NL # join_lines (m # ls)) = Some (l, join_lines (m # ls))"
    by (rule strtok_field(1)) (use 3(2) in \<open>auto simp: status_line_def\<close>)
  show ?case using 3 by (subst status_tokens.simps) (simp add: t split: option.split)
qed

text \<open>An address of four bytes as the supplicant prints it.\<close>

fun dotted :: "byte list \<Rightarrow> string" where
  "dotted [] = []"
| "dotted [b] = dec (unat b)"
| "dotted (b # bs) = dec (unat b) @ CHR ''.'' # dotted bs"

lemma dotted_bytes:
  "length bs \<le> n \<Longrightarrow> token_bytes (\<lambda>t. map_option word_of_int (atoi_str t)) ''.'' n (dotted bs) = Some bs"
proof (induction bs arbitrary: n rule: dotted.induct)
  case (2 b)
  then obtain m where m: "n = Suc m" by (cases n) auto
  have a: "atoi_str (dec (unat b)) = Some (uint b)" using atoi_str_dec[of "unat b"] unsigned_less[of b, where 'a = nat] by simp
  have "\<forall>c \<in> set (dec (unat b)). c \<noteq> CHR ''.''" using dec_digits[of "unat b"] by (auto simp: list_all_iff is_digit_def)
  then have "strtok ''.'' (dec (unat b)) = Some (dec (unat b), [])"
    by (intro strtok_field(2)[where c = "CHR ''.''"]) (auto simp: dec_not_Nil)
  then show ?case using m a by (simp add: token_bytes_end)
next
  case (3 b c bs)
  then obtain m where m: "n = Suc m" "length (c # bs) \<le> m" by (cases n) auto
  have a: "atoi_str (dec (unat b)) = Some (uint b)" using atoi_str_dec[of "unat b"] unsigned_less[of b, where 'a = nat] by simp
  have "\<forall>c \<in> set (dec (unat b)). c \<noteq> CHR ''.''" using dec_digits[of "unat b"] by (auto simp: list_all_iff is_digit_def)
  then have "strtok ''.'' (dec (unat b) @ CHR ''.'' # dotted (c # bs)) = Some (dec (unat b), dotted (c # bs))"
    by (intro strtok_field(1)) (auto simp: dec_not_Nil)
  then show ?case using 3(1)[OF m(2)] m(1) a by simp
qed (simp add: token_bytes_end)

text \<open>What \<open>STATUS\<close> prints of an established connection.\<close>

definition status_lines :: "wifi_sta_info \<Rightarrow> string \<Rightarrow> string list" where
  "status_lines i key_mgmt =
     [''bssid='' @ colon_text (info_bssid i), ''freq='' @ dec_int (info_freq i), ''ssid='' @ info_ssid i, ''id='' @ dec_int (info_id i),
      ''mode=station'', ''key_mgmt='' @ key_mgmt, ''wpa_state=COMPLETED'', ''ip_address='' @ dotted (info_ip i),
      ''address='' @ colon_text (info_mac i)]"

definition info_ok :: "wifi_sta_info \<Rightarrow> bool" where
  "info_ok i \<longleftrightarrow> length (info_bssid i) = 6 \<and> length (info_mac i) = 6 \<and> length (info_ip i) = 4 \<and>
     \<bar>info_id i\<bar> < 10 ^ 9 \<and> \<bar>info_freq i\<bar> < 10 ^ 9 \<and>
     length (info_ssid i) < 64 \<and> NL \<notin> set (info_ssid i) \<and> CHR 0x27 \<notin> set (info_ssid i)"

lemma colon_chars: "set (colon_text bs) \<inter> {NL, CHR 0x27} = {}"
proof -
  have h: "hex_char n \<noteq> NL \<and> hex_char n \<noteq> CHR 0x27" if "n < 16" for n
  proof -
    have "of_char (hex_char n) \<noteq> (10 :: nat)" "of_char (hex_char n) \<noteq> (39 :: nat)" using that by (auto simp: hex_char_def)
    then show ?thesis by auto
  qed
  have b: "set (hex_byte b) \<inter> {NL, CHR 0x27} = {}" for b using h nibbles[of b] by (simp add: hex_byte_def)
  show ?thesis using b by (induction bs rule: colon_text.induct) auto
qed

lemma dotted_chars: "set (dotted bs) \<inter> {NL, CHR 0x27} = {}" and length_dotted: "length (dotted bs) \<le> 4 * length bs"
proof -
  have "list_all is_digit (dec n)" for n by (rule dec_digits)
  then have d: "set (dec n) \<inter> {NL, CHR 0x27} = {}" for n by (fastforce simp: list_all_iff is_digit_def)
  show "set (dotted bs) \<inter> {NL, CHR 0x27} = {}" using d by (induction bs rule: dotted.induct) auto
  have l: "length (dec (unat b)) \<le> 3" for b :: byte
    using length_dec_le[of "unat b" 3] unsigned_less[of b, where 'a = nat] by simp
  show "length (dotted bs) \<le> 4 * length bs"
  proof (induction bs rule: dotted.induct)
    case (2 b)
    then show ?case using l[of b] by simp
  next
    case (3 b c bs)
    then show ?case using l[of b] by simp
  qed simp
qed

lemma status_lines_ok:
  assumes "info_ok i" "NL \<notin> set key_mgmt" "CHR 0x27 \<notin> set key_mgmt"
  shows "list_all status_line (status_lines i key_mgmt)"
  using assms colon_chars[of "info_bssid i"] colon_chars[of "info_mac i"] dotted_chars[of "info_ip i"]
    dec_field(1)[of "info_freq i"] dec_field(1)[of "info_id i"]
  by (simp add: status_lines_def status_line_def info_ok_def)

lemma status_fold_lines:
  assumes "info_ok i" "length key_mgmt < 32"
  shows "status_fold (status_lines i key_mgmt) f = Some (Some \<lparr>f_id = dec_int (info_id i), f_freq = dec_int (info_freq i),
     f_bssid = colon_text (info_bssid i), f_ssid = info_ssid i, f_mac = colon_text (info_mac i), f_ip = dotted (info_ip i),
     f_sec = key_mgmt\<rparr>)"
proof -
  note ok = assms(1)[unfolded info_ok_def]
  have len: "length (dec_int (info_id i)) < 32" "length (dec_int (info_freq i)) < 32"
    using ok length_dec_int[of "info_id i" 9] length_dec_int[of "info_freq i" 9] by simp_all
  have c: "length (colon_text (info_bssid i)) < 48" "length (colon_text (info_mac i)) < 32"
    using ok length_colon_text[of "info_bssid i"] length_colon_text[of "info_mac i"] by simp_all
  have d: "length (dotted (info_ip i)) < 32" using ok length_dotted[of "info_ip i"] by simp
  show ?thesis
    using ok len c d assms(2) by (cases f) (simp add: status_lines_def status_token_def starts_def fits_def)
qed

text \<open>
  C37. The status is read back as it was printed: the number, the frequency, both hardware addresses,
  the name and the four bytes of the address of an established connection, in whatever state the
  caller's structure was; but of the kinds of key only WPA2 is recognised, and a network
  with WPA is reported as open.
\<close>

theorem status_roundtrip:
  assumes "info_ok i" "info_sec i = status_sec key_mgmt" "key_mgmt \<in> {''WPA2-PSK'', ''WPA-PSK'', ''NONE''}"
    and "strstr ''wpa_state'' (join_lines (status_lines i key_mgmt)) = Some (before, ''wpa_state=COMPLETED'' @ rest)"
    and "length (info_bssid old) = 6" "length (info_mac old) = 6" "length (info_ip old) = 4"
  shows "wpa_parse_status_info (join_lines (status_lines i key_mgmt)) old = Some (0, i) \<and>
    (info_sec i = WIFI_SEC_NONE \<longleftrightarrow> key_mgmt \<noteq> ''WPA2-PSK'')"
proof -
  note ok = assms(1)[unfolded info_ok_def]
  have km: "NL \<notin> set key_mgmt" "CHR 0x27 \<notin> set key_mgmt" "length key_mgmt < 32" using assms(3) by auto
  have t: "status_tokens (join_lines (status_lines i key_mgmt)) f = Some (Some \<lparr>f_id = dec_int (info_id i), f_freq = dec_int (info_freq i),
     f_bssid = colon_text (info_bssid i), f_ssid = info_ssid i, f_mac = colon_text (info_mac i), f_ip = dotted (info_ip i),
     f_sec = key_mgmt\<rparr>)" for f
    using status_tokens_lines[OF status_lines_ok[OF assms(1) km(1,2)]] status_fold_lines[OF assms(1) km(3)] by simp
  have n: "atoi_str (dec_int (info_id i)) = Some (info_id i)" "atoi_str (dec_int (info_freq i)) = Some (info_freq i)"
    using ok by (simp_all add: atoi_str_dec_int abs_less_iff)
  have b: "token_bytes (\<lambda>t. Some (char2uint8 t)) '':'' 6 (colon_text (info_bssid i)) = Some (info_bssid i)"
    "token_bytes (\<lambda>t. Some (char2uint8 t)) '':'' 6 (colon_text (info_mac i)) = Some (info_mac i)"
    "token_bytes (\<lambda>t. map_option word_of_int (atoi_str t)) ''.'' 4 (dotted (info_ip i)) = Some (info_ip i)"
    using ok by (simp_all add: colon_text_bytes dotted_bytes)
  have o: "overlay (info_bssid i) (info_bssid old) = info_bssid i" "overlay (info_mac i) (info_mac old) = info_mac i"
    "overlay (info_ip i) (info_ip old) = info_ip i"
    using ok assms(5-7) by (simp_all add: overlay_def)
  have st: "starts ''COMPLETED'' (drop 10 (''wpa_state=COMPLETED'' @ rest))" by (simp add: starts_def)
  have "wpa_parse_status_info (join_lines (status_lines i key_mgmt)) old = Some (0, i)"
    by (simp only: wpa_parse_status_info_def assms(4) option.case prod.case st not_True_eq_False if_False t bind.simps status_fields.select_convs n b o)
      (cases i, simp add: assms(2)[symmetric])
  moreover have "info_sec i = WIFI_SEC_NONE \<longleftrightarrow> key_mgmt \<noteq> ''WPA2-PSK''"
    using assms(2,3) by (auto simp: status_sec_def)
  ultimately show ?thesis ..
qed

definition demo_info :: wifi_sta_info where
  "demo_info = \<lparr>info_id = 0, info_freq = 2412, info_bssid = [1, 2, 3, 4, 5, 6], info_ssid = ''home'',
     info_mac = [6, 5, 4, 3, 2, 1], info_ip = [192, 168, 1, 7], info_sec = WIFI_SEC_NONE\<rparr>"

theorem status_roundtrip_witness:
  "wpa_parse_status_info (join_lines (status_lines demo_info ''WPA-PSK'')) demo_info = Some (0, demo_info)"
proof -
  have ok: "info_ok demo_info" by (simp add: info_ok_def demo_info_def)
  have "\<exists>before rest. strstr ''wpa_state'' (join_lines (status_lines demo_info ''WPA-PSK'')) = Some (before, ''wpa_state=COMPLETED'' @ rest)"
    by (simp add: status_lines_def demo_info_def hex_byte_def hex_char_def dec_int_def dec.simps strstr.simps starts_def char_of_def bit_0)
  then obtain before rest where
    "strstr ''wpa_state'' (join_lines (status_lines demo_info ''WPA-PSK'')) = Some (before, ''wpa_state=COMPLETED'' @ rest)" by blast
  then show ?thesis
    using status_roundtrip[of demo_info "''WPA-PSK''" before rest demo_info] ok by (simp add: demo_info_def status_sec_def)
qed

end
