(* ===== verification/Wpa_Saved.thy ===== *)
theory Wpa_Saved
  imports Wpa_Replies
begin

text \<open>
  The rest of \<open>linux_wpa.c\<close>: the requests about saved networks that the platform offers and the station
  does not make: the highest priority, the network in use, enabling all, removing the last one; the search in
  a status, the file of entropy, and the names of events.
\<close>

section \<open>Names of events\<close>

definition wmg_sta_event_to_str :: "wifi_sta_event \<Rightarrow> string" where
  "wmg_sta_event_to_str e =
     (case e of
        WIFI_DISCONNECTED \<Rightarrow> ''DISCONNECTED''
      | WIFI_SCAN_STARTED \<Rightarrow> ''SCAN_STARTED''
      | WIFI_SCAN_FAILED \<Rightarrow> ''SCAN_FAILED''
      | WIFI_SCAN_RESULTS \<Rightarrow> ''SCAN_RESULTS''
      | WIFI_NETWORK_NOT_FOUND \<Rightarrow> ''NETWORK_NOT_FOUND''
      | WIFI_PASSWORD_INCORRECT \<Rightarrow> ''PASSWORD_INCORRECT''
      | WIFI_ASSOC_REJECT \<Rightarrow> ''ASSOC_REJECT''
      | WIFI_CONNECTED \<Rightarrow> ''CONNECTED''
      | WIFI_TERMINATING \<Rightarrow> ''TERMINATING''
      | _ \<Rightarrow> ''UNKNOWN'')"

section \<open>The file of entropy\<close>

text \<open>
  The calls for that one file: \<open>access\<close> with whether the error is that of missing rights, \<open>chmod\<close> with the
  mode, and whether opening and writing all bytes worked.
\<close>

record 's entropy_os =
  ent_access :: "'s \<Rightarrow> (int \<times> bool) \<times> 's"
  ent_chmod :: "nat \<Rightarrow> 's \<Rightarrow> int \<times> 's"
  ent_open :: "'s \<Rightarrow> bool \<times> 's"
  ent_write :: "byte list \<Rightarrow> 's \<Rightarrow> bool \<times> 's"
  ent_close :: "'s \<Rightarrow> 's"
  ent_unlink :: "'s \<Rightarrow> 's"

definition dummy_key :: "byte list" where
  "dummy_key = [0x02, 0x11, 0xbe, 0x33, 0x43, 0x35, 0x68, 0x47, 0x84, 0x99, 0xa9, 0x2b, 0x1c, 0xd3, 0xee, 0xff, 0xf1, 0xe2, 0xf3, 0xf4, 0xf5]"

text \<open>The mode 0660 is 432.\<close>

definition ensure_entropy_file_exists :: "'s entropy_os \<Rightarrow> 's \<Rightarrow> int \<times> 's" where
  "ensure_entropy_file_exists k s =
     (let ((ret, eacces), s) = ent_access k s
      in if ret = 0 then (0, s)
         else if eacces then let (r, s) = ent_chmod k 432 s in (if r \<noteq> 0 then - 1 else 0, s)
         else
           let (ok, s) = ent_open k s
           in if \<not> ok then (- 1, s)
              else
                let (ok, s) = ent_write k dummy_key s; s = ent_close k s
                in if \<not> ok then (- 1, s)
                   else
                     let (r, s) = ent_chmod k 432 s
                     in if r < 0 then (- 1, ent_unlink k s) else (0, s))"

section \<open>A field of a status\<close>

text \<open>
  The result and what is copied to the caller's array, without a NUL. Without a newline behind the field the
  length is a difference from NULL; an offset behind the text is undefined as well.
\<close>

definition search_status_str :: "string option \<Rightarrow> string option \<Rightarrow> nat \<Rightarrow> bool \<Rightarrow> (int \<times> string) option" where
  "search_status_str status str off obj =
     (case (status, str) of
        (Some st, Some w) \<Rightarrow>
          if st = [] \<or> off = 0 \<or> \<not> obj then Some (- 1, [])
          else (case strstr w st of
                  None \<Rightarrow> Some (- 1, [])
                | Some (_, pos) \<Rightarrow>
                    if length pos < off then None
                    else map_option (\<lambda>(v, _). (0, take (if starts ''ssid='' w then SSID_MAX_LEN else BSSID_MAX_LEN) v)) (strchr NL (drop off pos)))
      | _ \<Rightarrow> Some (- 1, []))"

section \<open>Going through the list\<close>

abbreviation "NET_ID_LEN \<equiv> 10 :: nat"

text \<open>What is in front of the next tab becomes the number, if it fits; else the last number stays.\<close>

definition line_id :: "string \<Rightarrow> string \<Rightarrow> string" where
  "line_id i s = (case strchr TAB s of Some (j, _) \<Rightarrow> if length j \<le> NET_ID_LEN then j else i | None \<Rightarrow> i)"

definition line_has_id :: "string \<Rightarrow> bool" where
  "line_has_id s = (case strchr TAB s of Some (j, _) \<Rightarrow> length j \<le> NET_ID_LEN | None \<Rightarrow> False)"

text \<open>The loop of \<open>wpa_conf_get_max_priority\<close>, at the start of a line. The array of the number is not set at first.\<close>

function priority_loop :: "'s wpa_os \<Rightarrow> string option \<Rightarrow> int \<Rightarrow> string \<Rightarrow> 's wpa_dev \<Rightarrow> (int \<times> 's wpa_dev) option" where
  "priority_loop k i mx s d =
     (case (if line_has_id s then Some (line_id [] s) else i) of
        None \<Rightarrow> None
      | Some i \<Rightarrow>
          (case command_to_supplicant k (''GET_NETWORK '' @ i @ '' priority'') 32 d of
             (ret, reply, d) \<Rightarrow>
               if ret \<noteq> 0 then Some (- 1, d)
               else (case atoi_str (the reply) of
                       None \<Rightarrow> None
                     | Some val \<Rightarrow>
                         (case strchr NL s of
                            None \<Rightarrow> Some (max val mx, d)
                          | Some (_, rest) \<Rightarrow> priority_loop k (Some i) (max val mx) rest d))))"
  by pat_completeness auto
termination
  by (relation "measure (\<lambda>(_, _, _, s, _). length s)") (auto dest: strchr_shorter)

declare priority_loop.simps [simp del]

definition wpa_conf_get_max_priority :: "'s wpa_os \<Rightarrow> 's wpa_dev \<Rightarrow> (int \<times> 's wpa_dev) option" where
  "wpa_conf_get_max_priority k d =
     (let (ret, reply, d) = list_networks k d
      in if ret \<noteq> 0 then Some (- 1, d)
         else (case strchr NL reply of None \<Rightarrow> Some (0, d) | Some (_, rest) \<Rightarrow> priority_loop k None 0 rest d))"

text \<open>
  The loop that enables every network. The replies go to the buffer that is gone through; \<open>p\<close> is the start of a
  line in it.
\<close>

function enable_loop :: "'s wpa_os \<Rightarrow> string \<Rightarrow> nat \<Rightarrow> string \<Rightarrow> 's wpa_dev \<Rightarrow> (int \<times> 's wpa_dev) option" where
  "enable_loop k i p b d =
     (case c_str (drop p b) of
        None \<Rightarrow> None
      | Some s \<Rightarrow>
          (case command_to_supplicant k (''ENABLE_NETWORK '' @ line_id i s) REPLY_BUF_SIZE d of
             (ret, reply, d) \<Rightarrow>
               if ret \<noteq> 0 then Some (- 1, d)
               else (case c_str (drop p (put_reply b (the reply))) of
                       None \<Rightarrow> None
                     | Some s' \<Rightarrow>
                         (case strchr NL s' of
                            None \<Rightarrow> Some (0, d)
                          | Some (l, _) \<Rightarrow> enable_loop k (line_id i s) (p + length l + 1) (put_reply b (the reply)) d))))"
  by pat_completeness auto
termination
  by (relation "measure (\<lambda>(_, _, p, b, _). Suc (length b) - p)") (auto simp: length_put_reply dest!: c_str_length)

declare enable_loop.simps [simp del]

definition wpa_conf_enable_all_networks :: "'s wpa_os \<Rightarrow> 's wpa_dev \<Rightarrow> (int \<times> 's wpa_dev) option" where
  "wpa_conf_enable_all_networks k d =
     (let (ret, reply, d) = list_networks k d
      in if ret \<noteq> 0 then Some (- 1, d)
         else do {
           (ret, d) \<leftarrow> (case strchr NL reply of
              None \<Rightarrow> Some (0, d)
            | Some (l, _) \<Rightarrow> enable_loop k [] (length l + 1) (put_reply (replicate REPLY_BUF_SIZE (CHR 0x00)) reply) d);
           if ret \<noteq> 0 then Some (- 1, d)
           else let (ret, _, d) = command_to_supplicant k ''SAVE_CONFIG'' REPLY_BUF_SIZE d in Some (if ret \<noteq> 0 then - 1 else 0, d)
         })"

text \<open>The number of the last line that has one.\<close>

function last_id :: "string \<Rightarrow> string \<Rightarrow> string" where
  "last_id i s = (case strchr NL s of None \<Rightarrow> line_id i s | Some (_, rest) \<Rightarrow> last_id (line_id i s) rest)"
  by pat_completeness auto
termination by (relation "measure (\<lambda>(_, s). length s)") (auto dest: strchr_shorter)

declare last_id.simps [simp del]

definition wpa_conf_remove_maxnetid_network :: "'s wpa_os \<Rightarrow> 's wpa_dev \<Rightarrow> int \<times> 's wpa_dev" where
  "wpa_conf_remove_maxnetid_network k d =
     (let (ret, reply, d) = list_networks k d
      in if ret \<noteq> 0 then (- 1, d)
         else
           let i = (case strchr NL reply of None \<Rightarrow> [] | Some (_, rest) \<Rightarrow> last_id [] rest);
               (ret, _, d) = command_to_supplicant k (''REMOVE_NETWORK '' @ i) REPLY_BUF_SIZE d
           in if ret \<noteq> 0 then (- 1, d)
              else let (ret, _, d) = command_to_supplicant k ''SAVE_CONFIG'' REPLY_BUF_SIZE d in (if ret \<noteq> 0 then - 1 else 0, d))"

section \<open>The network in use\<close>

text \<open>
  The name behind the first mark of the network in use that ends its line; a mark that does not is passed.
  The line begins behind the last newline in front of it; without one, or without a name, NULL is used.
\<close>

function connected_name :: "string \<Rightarrow> string option option" where
  "connected_name s =
     (case strstr ''[CURRENT]'' s of
        None \<Rightarrow> Some None
      | Some (before, start) \<Rightarrow>
          if drop 9 start \<noteq> [] \<and> hd (drop 9 start) \<noteq> NL then connected_name (drop 9 start)
          else (case last_line before of
                  None \<Rightarrow> None
                | Some l \<Rightarrow> map_option Some (fst (next_tok [TAB] (snd (next_tok [TAB] (l @ takeWhile (\<lambda>c. c \<noteq> NL) start)))))))"
  by pat_completeness auto
termination by (relation "measure length") (auto dest: strstr_Some)

declare connected_name.simps [simp del]

text \<open>The name that the caller's array gets, if any.\<close>

definition wpa_conf_is_ap_connected :: "'s wpa_os \<Rightarrow> 's wpa_dev \<Rightarrow> (int \<times> string option \<times> 's wpa_dev) option" where
  "wpa_conf_is_ap_connected k d =
     (let (ret, reply, d) = list_networks k d
      in if ret \<noteq> 0 then Some (- 1, None, d)
         else do {
           name \<leftarrow> connected_name reply;
           let (ip, d) = is_ip_exist k d;
           Some (if 0 < ip \<and> name \<noteq> None then ip else of_bool (name \<noteq> None), name, d)
         })"

text \<open>
  The number of the network in use: the first token of the line of the first mark. \<open>len\<close> is the size of the
  caller's array, \<open>None\<close> for NULL.
\<close>

definition current_id :: "int option \<Rightarrow> string \<Rightarrow> (int \<times> string option) option" where
  "current_id len reply =
     (case strstr ''CURRENT'' reply of
        None \<Rightarrow> Some (0, None)
      | Some (before, start) \<Rightarrow>
          map_option (\<lambda>l. (1, case (fst (next_tok [TAB] (l @ takeWhile (\<lambda>c. c \<noteq> NL) start)), len) of
              (Some p, Some n) \<Rightarrow> if 0 < n then Some (take (nat n - 1) p) else None
            | _ \<Rightarrow> None)) (last_line before))"

definition wpa_conf_get_netid_connected :: "'s wpa_os \<Rightarrow> int option \<Rightarrow> 's wpa_dev \<Rightarrow> (int \<times> string option \<times> 's wpa_dev) option" where
  "wpa_conf_get_netid_connected k len d =
     (let (ret, reply, d) = list_networks k d
      in if ret \<noteq> 0 then Some (- 1, None, d) else map_option (\<lambda>(r, net_id). (r, net_id, d)) (current_id len reply))"

definition wpa_conf_get_ap_connected :: "'s wpa_os \<Rightarrow> int option \<Rightarrow> 's wpa_dev \<Rightarrow> (int \<times> string option \<times> 's wpa_dev) option" where
  "wpa_conf_get_ap_connected k len d =
     (let (ret, reply, d) = list_networks k d
      in if ret \<noteq> 0 then Some (- 1, None, d) else map_option (\<lambda>(r, net_id). (r, net_id, d)) (current_id len reply))"

section \<open>The requests\<close>

text \<open>Those of \<open>linux_platform_extension\<close> that ask for saved networks; with what the caller's array gets.\<close>

datatype conf_request = CONF_IS_AP_EXIST string wifi_secure nat | CONF_GET_MAX_PRORITY | CONF_IS_AP_CONNECTED
| CONF_GET_NETID_CONNECTED "int option" | CONF_GET_AP_CONNECTED "int option" | CONF_ENABLE_ALL_NETWORKS | CONF_REMOVE_MAXNETID_NETWORK

fun linux_conf_extension :: "'s wpa_os \<Rightarrow> conf_request \<Rightarrow> 's wpa_dev \<Rightarrow> (int \<times> string option \<times> 's wpa_dev) outcome" where
  "linux_conf_extension k (CONF_IS_AP_EXIST ssid key_mgmt len) d =
     map_outcome_of (\<lambda>(r, net_id, d). (r, Some net_id, d)) (wpa_conf_is_ap_exist k ssid key_mgmt len d)"
| "linux_conf_extension k CONF_GET_MAX_PRORITY d = map_outcome_of (\<lambda>(r, d). (r, None, d)) (outcome_of_option (wpa_conf_get_max_priority k d))"
| "linux_conf_extension k CONF_IS_AP_CONNECTED d = outcome_of_option (wpa_conf_is_ap_connected k d)"
| "linux_conf_extension k (CONF_GET_NETID_CONNECTED len) d = outcome_of_option (wpa_conf_get_netid_connected k len d)"
| "linux_conf_extension k (CONF_GET_AP_CONNECTED len) d = outcome_of_option (wpa_conf_get_ap_connected k len d)"
| "linux_conf_extension k CONF_ENABLE_ALL_NETWORKS d = map_outcome_of (\<lambda>(r, d). (r, None, d)) (outcome_of_option (wpa_conf_enable_all_networks k d))"
| "linux_conf_extension k CONF_REMOVE_MAXNETID_NETWORK d = (let (r, d) = wpa_conf_remove_maxnetid_network k d in Returns (r, None, d))"

definition linux_command_to_supplicant :: "'s wpa_os \<Rightarrow> string \<Rightarrow> nat \<Rightarrow> 's wpa_dev \<Rightarrow> int \<times> string option \<times> 's wpa_dev" where
  "linux_command_to_supplicant k cmd reply_len d = command_to_supplicant k cmd reply_len d"
section \<open>The highest priority\<close>

lemma line_id_line:
  assumes "nod_ok n"
  shows "line_has_id (network_line n @ r)" "line_id i (network_line n @ r) = dec_int (nod_id n)"
proof -
  have t: "TAB \<notin> set (dec_int (nod_id n))" using dec_field(1)[of "nod_id n"] by blast
  have "length (dec_int (nod_id n)) \<le> NET_ID_LEN" using assms length_dec_le[of "nat (nod_id n)" 10] by (auto simp: nod_ok_def dec_int_def)
  moreover have "strchr TAB (network_line n @ r) = Some (dec_int (nod_id n), nod_ssid n @ TAB # nod_bssid n @ TAB # nod_flags n @ r)"
    using t by (simp add: strchr_Some network_line_def)
  ultimately show "line_has_id (network_line n @ r)" "line_id i (network_line n @ r) = dec_int (nod_id n)"
    by (simp_all add: line_has_id_def line_id_def)
qed

text \<open>One turn of the loop, at a line that is followed by a newline or by nothing.\<close>

lemma priority_loop_line:
  assumes "nod_ok n" "ctrl_conn d" "answers k (''GET_NETWORK '' @ dec_int (nod_id n) @ '' priority'') (dec_int v @ [NL])" "0 \<le> v" "v < 2 ^ 31"
    and "r = [] \<or> (\<exists>t. r = NL # t)"
  obtains s where "priority_loop k i mx (network_line n @ r) d =
    (if r = [] then Some (max v mx, d\<lparr>os := s\<rparr>) else priority_loop k (Some (dec_int (nod_id n))) (max v mx) (tl r) (d\<lparr>os := s\<rparr>))"
proof -
  have "length (dec_int v) + 1 < 32" "\<not> starts ''FAIL'' (dec_int v @ [NL])"
  proof -
    show "length (dec_int v) + 1 < 32" using length_dec_int[of v 10] assms(4,5) by simp
    have "hd (dec_int v) \<noteq> CHR ''F''" "dec_int v \<noteq> []"
    proof -
      show ne: "dec_int v \<noteq> []" by (simp add: dec_int_def dec_not_Nil)
      have "list_all is_digit (dec_int v)" using assms(4) dec_digits by (simp add: dec_int_def)
      then have "is_digit (hd (dec_int v))" using ne by (cases "dec_int v") auto
      then show "hd (dec_int v) \<noteq> CHR ''F''" by (auto simp: is_digit_def)
    qed
    then show "\<not> starts ''FAIL'' (dec_int v @ [NL])" by (cases "dec_int v") (auto simp: starts_iff)
  qed
  then obtain s where c: "command_to_supplicant k (''GET_NETWORK '' @ dec_int (nod_id n) @ '' priority'') 32 d = (0, Some (dec_int v), d\<lparr>os := s\<rparr>)"
    using answered[OF assms(3) _ assms(2)] by blast
  have nl: "NL \<notin> set (network_line n)" using line_fields(1)[OF assms(1)] by blast
  have "strchr NL (network_line n @ r) = (if r = [] then None else Some (network_line n, tl r))"
    using assms(6) nl by (auto simp: strchr_None strchr_Some)
  then have "priority_loop k i mx (network_line n @ r) d =
    (if r = [] then Some (max v mx, d\<lparr>os := s\<rparr>) else priority_loop k (Some (dec_int (nod_id n))) (max v mx) (tl r) (d\<lparr>os := s\<rparr>))"
    using atoi_str_dec_int[of v] assms(4,5)
    by (subst priority_loop.simps) (simp only: line_id_line[OF assms(1)] if_True option.case c prod.case, simp)
  then show ?thesis by (rule that)
qed

lemma priority_loop_text:
  assumes "list_all nod_ok ns" "ns \<noteq> []" "ctrl_conn d"
    and "\<forall>n \<in> set ns. answers k (''GET_NETWORK '' @ dec_int (nod_id n) @ '' priority'') (dec_int (prio (nod_id n)) @ [NL]) \<and>
           0 \<le> prio (nod_id n) \<and> prio (nod_id n) < 2 ^ 31"
  shows "\<exists>s. priority_loop k i mx (networks_text ns) d = Some (Max (insert mx ((\<lambda>n. prio (nod_id n)) ` set ns)), d\<lparr>os := s\<rparr>)"
  using assms
proof (induction ns arbitrary: i mx d rule: networks_text.induct)
  case (2 n)
  obtain s where "priority_loop k i mx (network_line n @ []) d = Some (max (prio (nod_id n)) mx, d\<lparr>os := s\<rparr>)"
    using priority_loop_line[of n d k "prio (nod_id n)" "[]" i mx] 2 by auto
  then show ?case by (auto simp: max.commute)
next
  case (3 n m ns)
  obtain s where s: "priority_loop k i mx (network_line n @ NL # networks_text (m # ns)) d =
      priority_loop k (Some (dec_int (nod_id n))) (max (prio (nod_id n)) mx) (networks_text (m # ns)) (d\<lparr>os := s\<rparr>)"
    using priority_loop_line[of n d k "prio (nod_id n)" "NL # networks_text (m # ns)" i mx] 3(2-) by auto
  obtain s' where "priority_loop k (Some (dec_int (nod_id n))) (max (prio (nod_id n)) mx) (networks_text (m # ns)) (d\<lparr>os := s\<rparr>) =
      Some (Max (insert (max (prio (nod_id n)) mx) ((\<lambda>n. prio (nod_id n)) ` set (m # ns))), d\<lparr>os := s'\<rparr>)"
    using 3(1)[of "d\<lparr>os := s\<rparr>" "Some (dec_int (nod_id n))" "max (prio (nod_id n)) mx"] 3(2-) by auto
  moreover have "Max (insert (max (prio (nod_id n)) mx) ((\<lambda>n. prio (nod_id n)) ` set (m # ns))) = Max (insert mx ((\<lambda>n. prio (nod_id n)) ` set (n # m # ns)))"
    by (simp add: max.assoc max.left_commute)
  ultimately show ?case using s by auto
qed simp

text \<open>
  The highest priority of the networks that the supplicant lists is found, and 0 when all are lower.
\<close>
theorem highest_priority_found:
  assumes "answers k ''LIST_NETWORKS'' ((list_header @ NL # networks_text ns) @ [NL])" "ctrl_conn d"
    and "length (list_header @ NL # networks_text ns) + 1 < REPLY_BUF_SIZE" "list_all nod_ok ns" "ns \<noteq> []"
    and "\<forall>n \<in> set ns. answers k (''GET_NETWORK '' @ dec_int (nod_id n) @ '' priority'') (dec_int (prio (nod_id n)) @ [NL]) \<and>
           0 \<le> prio (nod_id n) \<and> prio (nod_id n) < 2 ^ 31"
  shows "\<exists>s. wpa_conf_get_max_priority k d = Some (Max (insert 0 ((\<lambda>n. prio (nod_id n)) ` set ns)), d\<lparr>os := s\<rparr>)"
proof -
  obtain s where l: "list_networks k d = (0, list_header @ NL # networks_text ns, d\<lparr>os := s\<rparr>)" by (rule list_fetched[OF assms(1-3)])
  have "strchr NL (list_header @ NL # networks_text ns) = Some (list_header, networks_text ns)" by (subst strchr_Some) simp
  then show ?thesis
    using priority_loop_text[of ns "d\<lparr>os := s\<rparr>" k prio None 0] assms(2,4-6) by (auto simp: wpa_conf_get_max_priority_def l)
qed

end
