(* ===== verification/Wpa_Loop.thy ===== *)
theory Wpa_Loop
  imports Wpa_Properties
begin

text \<open>
  When the loop of \<open>linux_supplicant_connect_to_ap\<close> that waits for a connection ends. The counter
  \<open>try_cnt\<close> bounds it only in part: three events do not count, so that a supplicant which keeps sending
  them keeps the caller for ever. The loop is stated here over the results of its reads, however many
  there are, and tied to the loop over the device, which sees finitely many messages.
\<close>

section \<open>The loop over the results of its reads\<close>

type_synonym event_read = "int \<times> int option"

text \<open>What \<open>evt_read\<close> returned and the event it stored; \<open>None\<close> is a loop that waits for its next read.\<close>

fun connect_loop :: "event_read list \<Rightarrow> nat \<Rightarrow> int \<Rightarrow> int option" where
  "connect_loop rs try_cnt ret =
     (if EVENT_TRY_MAX \<le> try_cnt then Some ret
      else (case rs of
              [] \<Rightarrow> None
            | (r, ev) # rs \<Rightarrow>
                if 0 < r
                then (if ev = Some (sta_event_num WIFI_CONNECTED) then connect_loop rs try_cnt WMG_STATUS_NOT_READY
                      else if ev = Some (sta_event_num WIFI_DHCP_START) then connect_loop rs try_cnt WMG_STATUS_NOT_READY
                      else if ev = Some (sta_event_num WIFI_DHCP_TIMEOUT) then Some WMG_STATUS_FAIL
                      else if ev = Some (sta_event_num WIFI_DHCP_SUCCESS) then Some WMG_STATUS_SUCCESS
                      else if ev = Some (sta_event_num WIFI_PASSWORD_INCORRECT) then Some ret
                      else if ev = Some (sta_event_num WIFI_NETWORK_NOT_FOUND) then connect_loop rs try_cnt ret
                      else if ev = Some (sta_event_num WIFI_ASSOC_REJECT) then Some ret
                      else connect_loop rs (Suc try_cnt) ret)
                else connect_loop rs (Suc try_cnt) ret))"

declare connect_loop.simps [simp del]

text \<open>A read decides the call, is on the way to a connection, or counts.\<close>

definition decides :: "event_read \<Rightarrow> bool" where
  "decides = (\<lambda>(r, ev). 0 < r \<and> ev \<in> Some ` sta_event_num `
     {WIFI_DHCP_TIMEOUT, WIFI_DHCP_SUCCESS, WIFI_PASSWORD_INCORRECT, WIFI_ASSOC_REJECT})"

definition on_the_way :: "event_read \<Rightarrow> bool" where
  "on_the_way = (\<lambda>(r, ev). 0 < r \<and> ev \<in> Some ` sta_event_num `
     {WIFI_CONNECTED, WIFI_DHCP_START, WIFI_NETWORK_NOT_FOUND})"

definition counts :: "event_read \<Rightarrow> bool" where
  "counts x \<longleftrightarrow> \<not> decides x \<and> \<not> on_the_way x"

text \<open>The result of a read that decides, and the result so far behind one that does not.\<close>

definition verdict :: "event_read \<Rightarrow> int \<Rightarrow> int" where
  "verdict = (\<lambda>(_, ev) ret. if ev = Some (sta_event_num WIFI_DHCP_TIMEOUT) then WMG_STATUS_FAIL
     else if ev = Some (sta_event_num WIFI_DHCP_SUCCESS) then WMG_STATUS_SUCCESS else ret)"

definition so_far :: "event_read \<Rightarrow> int \<Rightarrow> int" where
  "so_far = (\<lambda>(r, ev) ret. if 0 < r \<and> ev \<in> Some ` sta_event_num ` {WIFI_CONNECTED, WIFI_DHCP_START}
     then WMG_STATUS_NOT_READY else ret)"

lemma connect_loop_full: "5 \<le> n \<Longrightarrow> connect_loop rs n ret = Some ret"
  by (subst connect_loop.simps) simp

lemma connect_loop_Nil: "n < 5 \<Longrightarrow> connect_loop [] n ret = None"
  by (subst connect_loop.simps) simp

lemma connect_loop_Cons:
  "n < 5 \<Longrightarrow> connect_loop (x # rs) n ret =
     (if decides x then Some (verdict x ret)
      else connect_loop rs (if counts x then Suc n else n) (so_far x ret))"
  by (cases x, subst connect_loop.simps) (auto simp: decides_def on_the_way_def counts_def verdict_def so_far_def)

lemma connect_loop_ends:
  "n \<le> 5 \<Longrightarrow> connect_loop rs n ret \<noteq> None \<longleftrightarrow> list_ex decides rs \<or> 5 \<le> n + length (filter counts rs)"
proof (induction rs arbitrary: n ret)
  case Nil
  then show ?case by (cases "n = 5") (simp_all add: connect_loop_full connect_loop_Nil)
next
  case (Cons x rs)
  show ?case
  proof (cases "n = 5")
    case True
    then show ?thesis by (simp add: connect_loop_full)
  next
    case False
    then show ?thesis
      using Cons.prems Cons.IH[of "if counts x then Suc n else n"] by (simp add: connect_loop_Cons)
  qed
qed

section \<open>The loop over the device\<close>

text \<open>What the loop does with the counters of the device behind a read, and a sequence of its reads.\<close>

definition count_event :: "event_read \<Rightarrow> 's wpa_dev \<Rightarrow> 's wpa_dev" where
  "count_event = (\<lambda>(r, ev) d.
     if 0 < r \<and> ev = Some (sta_event_num WIFI_PASSWORD_INCORRECT) then d\<lparr>sta_auth_fail_cnt := sta_auth_fail_cnt d + 1\<rparr>
     else if 0 < r \<and> ev = Some (sta_event_num WIFI_NETWORK_NOT_FOUND) then d\<lparr>sta_net_not_found_cnt := sta_net_not_found_cnt d + 1\<rparr>
     else if 0 < r \<and> ev = Some (sta_event_num WIFI_ASSOC_REJECT) then d\<lparr>sta_assoc_reject_cnt := sta_assoc_reject_cnt d + 1\<rparr>
     else d)"

inductive reads :: "'s wpa_os \<Rightarrow> 's wpa_dev \<Rightarrow> event_read list \<Rightarrow> 's wpa_dev \<Rightarrow> bool" for k where
  no_read: "reads k d [] d"
| one_read: "evt_await k d = Returns (r, ev, d1) \<Longrightarrow> reads k (count_event (r, ev) d1) rs d' \<Longrightarrow> reads k d ((r, ev) # rs) d'"

inductive_simps reads_Nil: "reads k d [] d'"

lemma event_nums [simp]: "sta_event_num a = sta_event_num b \<longleftrightarrow> a = b"
  by (cases a; cases b) simp_all

lemma connect_wait_Cons:
  assumes "n < 5" "evt_await k d = Returns (r, ev, d1)"
  shows "connect_wait k n ret d =
    (if decides (r, ev) then Returns (verdict (r, ev) ret, count_event (r, ev) d1)
     else connect_wait k (if counts (r, ev) then Suc n else n) (so_far (r, ev) ret) (count_event (r, ev) d1))"
  using assms
  by (subst connect_wait.simps) (auto simp: decides_def on_the_way_def counts_def verdict_def so_far_def count_event_def)

lemma connect_wait_reads:
  "connect_wait k n ret d = Returns (ret', d') \<Longrightarrow> n \<le> 5 \<Longrightarrow>
    \<exists>rs. reads k d rs d' \<and> connect_loop rs n ret = Some ret' \<and> (\<forall>i < length rs. connect_loop (take i rs) n ret = None)"
proof (induction k n ret d rule: connect_wait.induct)
  case (1 k n ret d)
  show ?case
  proof (cases "n = 5")
    case True
    then have "ret' = ret" "d' = d" using 1(5) by (simp_all add: connect_wait.simps)
    then show ?thesis using True connect_loop_full[of n "[]"] by (intro exI[of _ "[]"]) (auto intro: no_read)
  next
    case False
    then have n: "n < 5" using 1(6) by simp
    obtain r ev d1 where a: "evt_await k d = Returns (r, ev, d1)"
      using 1(5) n by (subst (asm) connect_wait.simps) (auto split: outcome.splits)
    note st = connect_wait_Cons[OF n a, of ret]
    have "\<not> EVENT_TRY_MAX \<le> n" using n by simp
    note ih = 1(1-4)[OF this a refl refl]
    show ?thesis
    proof (cases "decides (r, ev)")
      case True
      then have "connect_loop [(r, ev)] n ret = Some ret'" "reads k d [(r, ev)] d'"
        using 1(5) st n by (auto simp: connect_loop_Cons intro: one_read[OF a] no_read)
      then show ?thesis using n by (intro exI[of _ "[(r, ev)]"]) (simp add: connect_loop_Nil)
    next
      case no: False
      let ?n = "if counts (r, ev) then Suc n else n" and ?d = "count_event (r, ev) d1" and ?ret = "so_far (r, ev) ret"
      have run: "connect_wait k ?n ?ret ?d = Returns (ret', d')" using 1(5) st no by simp
      have "\<exists>rs. reads k ?d rs d' \<and> connect_loop rs ?n ?ret = Some ret' \<and>
          (\<forall>i < length rs. connect_loop (take i rs) ?n ?ret = None)"
      proof (cases "0 < r")
        case r: True
        consider "ev = Some (sta_event_num WIFI_CONNECTED) \<or> ev = Some (sta_event_num WIFI_DHCP_START)"
          | "ev = Some (sta_event_num WIFI_NETWORK_NOT_FOUND)" | "counts (r, ev)"
          using no r by (auto simp: counts_def on_the_way_def)
        then show ?thesis
        proof cases
          case 1
          with r have e: "\<not> counts (r, ev)" "?d = d1" "?ret = WMG_STATUS_NOT_READY"
            by (auto simp: counts_def on_the_way_def count_event_def so_far_def)
          show ?thesis using ih(1)[OF r 1] run n unfolding e(2,3) by (simp add: e(1))
        next
          case 2
          with r have e: "\<not> counts (r, ev)" "?d = d1\<lparr>sta_net_not_found_cnt := sta_net_not_found_cnt d1 + 1\<rparr>" "?ret = ret"
            by (auto simp: counts_def on_the_way_def count_event_def so_far_def)
          have "?n = n" using e(1) by simp
          then show ?thesis using ih(2)[OF r] 2 run n unfolding e(2,3) by simp
        next
          case 3
          then have v: "ev \<notin> Some ` sta_event_num ` {WIFI_CONNECTED, WIFI_DHCP_START, WIFI_DHCP_TIMEOUT, WIFI_DHCP_SUCCESS,
              WIFI_PASSWORD_INCORRECT, WIFI_NETWORK_NOT_FOUND, WIFI_ASSOC_REJECT}"
            using r by (auto simp: counts_def on_the_way_def decides_def)
          then have e: "?d = d1" "?ret = ret" by (auto simp: count_event_def so_far_def)
          show ?thesis using ih(3)[OF r] v run n 3 unfolding e by simp
        qed
      next
        case r: False
        then have e: "counts (r, ev)" "?d = d1" "?ret = ret"
          by (auto simp: counts_def on_the_way_def decides_def count_event_def so_far_def)
        show ?thesis using ih(4)[OF r] run n unfolding e(2,3) by (simp add: e(1))
      qed
      then obtain rs where rs: "reads k ?d rs d'" "connect_loop rs ?n ?ret = Some ret'"
          "\<forall>i < length rs. connect_loop (take i rs) ?n ?ret = None" by blast
      have "connect_loop (take i ((r, ev) # rs)) n ret = None" if "i < length ((r, ev) # rs)" for i
        using that n no rs(3) by (cases i) (simp_all add: connect_loop_Nil connect_loop_Cons)
      then show ?thesis
        using rs n no one_read[OF a rs(1)] by (intro exI[of _ "(r, ev) # rs"]) (auto simp: connect_loop_Cons)
    qed
  qed
qed

text \<open>
  C11. When the wait of a connect ends. It ends, on a sequence of reads, exactly when one of them decides
  (the address is acquired or was not, the passphrase is wrong, the association is refused) or five of
  them count (nothing was read, or another event); a connection, the start of the client and a network that
  is not found do neither, so that the wait lasts for ever while only they are read. And the wait on
  the device, when it returns, has made such a sequence of reads, returns what the sequence
  gives, and not one read before it had ended.
\<close>

theorem connect_wait_ends:
  "((\<exists>n. connect_loop (map f [0..<n]) 0 WMG_STATUS_FAIL \<noteq> None) \<longleftrightarrow>
      (\<exists>i. decides (f i)) \<or> (\<exists>n. 5 \<le> length (filter counts (map f [0..<n])))) \<and>
   ((\<forall>i. on_the_way (f i)) \<longrightarrow> (\<forall>n. connect_loop (map f [0..<n]) 0 WMG_STATUS_FAIL = None)) \<and>
   (connect_wait k 0 WMG_STATUS_FAIL d = Returns (ret, d') \<longrightarrow>
      (\<exists>rs. reads k d rs d' \<and> connect_loop rs 0 WMG_STATUS_FAIL = Some ret \<and>
         (\<forall>i < length rs. connect_loop (take i rs) 0 WMG_STATUS_FAIL = None)))"
proof (intro conjI impI)
  have ends: "connect_loop (map f [0..<n]) 0 WMG_STATUS_FAIL \<noteq> None \<longleftrightarrow>
      (\<exists>i < n. decides (f i)) \<or> 5 \<le> length (filter counts (map f [0..<n]))" for n
    using connect_loop_ends[of 0 "map f [0..<n]" WMG_STATUS_FAIL] by (auto simp: list_ex_iff)
  show "(\<exists>n. connect_loop (map f [0..<n]) 0 WMG_STATUS_FAIL \<noteq> None) \<longleftrightarrow>
      (\<exists>i. decides (f i)) \<or> (\<exists>n. 5 \<le> length (filter counts (map f [0..<n])))"
    using ends by (metis lessI)
  show "\<forall>n. connect_loop (map f [0..<n]) 0 WMG_STATUS_FAIL = None" if way: "\<forall>i. on_the_way (f i)"
  proof
    fix n
    have "\<not> decides (f i)" "\<not> counts (f i)" for i
      using way by (auto simp: counts_def decides_def on_the_way_def split: prod.splits dest!: spec[of _ i])
    then show "connect_loop (map f [0..<n]) 0 WMG_STATUS_FAIL = None" using ends[of n] by (simp add: filter_False)
  qed
qed (use connect_wait_reads in blast)

text \<open>
  A supplicant that keeps connecting keeps the caller waiting; one that stays silent lets it go, and the
  messages of a connection, once they have all come, end the wait on the device.
\<close>

theorem connect_wait_ends_witness:
  "(\<forall>n. connect_loop (map (\<lambda>_. (1, Some (sta_event_num WIFI_CONNECTED))) [0..<n]) 0 WMG_STATUS_FAIL = None) \<and>
   (\<exists>n. connect_loop (map (\<lambda>_. (0, None)) [0..<n]) 0 WMG_STATUS_FAIL \<noteq> None) \<and>
   (\<exists>ret d' rs. connect_wait (recorder (\<lambda>_. ''OK'')) 0 WMG_STATUS_FAIL (demo_dev demo_join) = Returns (ret, d') \<and>
      reads (recorder (\<lambda>_. ''OK'')) (demo_dev demo_join) rs d' \<and> connect_loop rs 0 WMG_STATUS_FAIL = Some ret)"
proof -
  have w: "waiting (demo_dev demo_join)"
    by (auto simp: waiting_def messages_fit_def items_def demo_dev_defs demo_join_def)
  obtain ret d' where r: "connect_wait (recorder (\<lambda>_. ''OK'')) 0 WMG_STATUS_FAIL (demo_dev demo_join) = Returns (ret, d')"
    using connect_wait_returns[OF w, of WMG_STATUS_FAIL "recorder (\<lambda>_. ''OK'')" 0] by blast
  have c: "\<exists>n. 5 \<le> length (filter counts (map (\<lambda>_. (0, None)) [0..<n]))"
    by (rule exI[of _ 5]) (simp add: counts_def decides_def on_the_way_def)
  have w: "\<forall>i :: nat. on_the_way (1, Some (sta_event_num WIFI_CONNECTED))" by (simp add: on_the_way_def)
  note a = connect_wait_ends[of "\<lambda>_. (1, Some (sta_event_num WIFI_CONNECTED))" "recorder (\<lambda>_. ''OK'')" "demo_dev demo_join" ret d']
    and b = connect_wait_ends[of "\<lambda>_. (0, None)" "recorder (\<lambda>_. ''OK'')" "demo_dev demo_join" ret d']
  have "\<forall>n. connect_loop (map (\<lambda>_. (1, Some (sta_event_num WIFI_CONNECTED))) [0..<n]) 0 WMG_STATUS_FAIL = None"
    using mp[OF conjunct1[OF conjunct2[OF a]] w] .
  moreover have "\<exists>n. connect_loop (map (\<lambda>_. (0, None)) [0..<n]) 0 WMG_STATUS_FAIL \<noteq> None"
    using conjunct1[OF b] c by blast
  ultimately show ?thesis using mp[OF conjunct2[OF conjunct2[OF a]] r] r by blast
qed

end
