(* ===== verification/Linkd.thy ===== *)
theory Linkd
  imports Wmg_Types
begin

text \<open>
  Network configuration, \<open>wifi/linkd.c\<close>: a protocol thread waits for a name and a passphrase
  from the user's phone and hands them over through a callback; the caller looks at the result
  once a second and takes what is there. The threads themselves are not in this repository but
  for weak substitutes that report failure; what a thread does is the list of the callbacks it
  makes before the caller's first look and in each second after it.
\<close>

section \<open>State\<close>

abbreviation "SSID_ARRAY \<equiv> 64 :: nat"
abbreviation "PSK_MAX_LEN \<equiv> 32 :: nat"
abbreviation "DEFAULT_SECOND \<equiv> 180 :: nat"

datatype wmg_linkd_state = WMG_LINKD_IDEL | WMG_LINKD_RUNNING | WMG_LINKD_OFF

datatype wmg_linkd_result_state = WMG_LINKD_RESULT_SUCCESS | WMG_LINKD_RESULT_FAIL | WMG_LINKD_RESULT_INVALIN

text \<open>\<open>linkd_thread\<close> is the thread's id, \<open>- 1\<close> for none; \<open>linkd_cancelled\<close> are the threads given to \<open>pthread_cancel\<close>.\<close>

record wmg_linkd_object =
  linkd_state :: wmg_linkd_state
  linkd_mode_state :: wifi_linkd_mode
  result_cb_set :: bool
  ssid_result :: string
  psk_result :: string
  result_state :: wmg_linkd_result_state
  linkd_thread :: int
  linkd_cancelled :: "int list"

definition linkd_object_static :: wmg_linkd_object where
  "linkd_object_static = \<lparr>linkd_state = WMG_LINKD_OFF, linkd_mode_state = WMG_LINKD_MODE_NONE,
     result_cb_set = False, ssid_result = replicate SSID_ARRAY (CHR 0x00), psk_result = replicate PSK_MAX_LEN (CHR 0x00),
     result_state = WMG_LINKD_RESULT_INVALIN, linkd_thread = - 1, linkd_cancelled = []\<rparr>"

text \<open>What a thread hands to the callback: NULL, or a name and a passphrase.\<close>

type_synonym linkd_report = "(string \<times> string) option"

section \<open>Operations\<close>

text \<open>Both lengths are compared with the size of the array for names; writing out of the other one is \<open>None\<close>.\<close>

definition linkd_mode_result_cb :: "linkd_report \<Rightarrow> wmg_linkd_object \<Rightarrow> wmg_linkd_object option" where
  "linkd_mode_result_cb r l =
     (case r of
        None \<Rightarrow> Some (l\<lparr>result_state := WMG_LINKD_RESULT_FAIL\<rparr>)
      | Some (ssid, psk) \<Rightarrow>
          if SSID_ARRAY < length ssid \<or> SSID_ARRAY < length psk
          then Some (l\<lparr>result_state := WMG_LINKD_RESULT_FAIL\<rparr>)
          else if PSK_MAX_LEN < length psk then None
          else Some (l\<lparr>ssid_result := strncpy (ssid_result l) ssid (length ssid),
                       psk_result := strncpy (psk_result l) psk (length psk),
                       result_state := WMG_LINKD_RESULT_SUCCESS\<rparr>))"

fun linkd_reports :: "linkd_report list \<Rightarrow> wmg_linkd_object \<Rightarrow> wmg_linkd_object option" where
  "linkd_reports [] l = Some l"
| "linkd_reports (r # rs) l = Option.bind (linkd_mode_result_cb r l) (linkd_reports rs)"

text \<open>The weak substitutes of the four protocol threads.\<close>

definition weak_main_loop :: "linkd_report list" where
  "weak_main_loop = [None]"

definition wmg_linkd_init :: "wmg_linkd_object \<Rightarrow> int \<times> wmg_linkd_object" where
  "wmg_linkd_init l = (WMG_STATUS_FAIL, l\<lparr>linkd_state := WMG_LINKD_IDEL, result_cb_set := True\<rparr>)"

text \<open>\<open>tid\<close> is what \<open>pthread_create\<close> gives, \<open>None\<close> when it fails.\<close>

definition wmg_linkd_protocol_enable :: "int option \<Rightarrow> wifi_linkd_mode \<Rightarrow> wmg_linkd_object \<Rightarrow> int \<times> wmg_linkd_object" where
  "wmg_linkd_protocol_enable tid mode l =
     (if linkd_state l = WMG_LINKD_OFF then (WMG_STATUS_FAIL, l)
      else if linkd_state l \<noteq> WMG_LINKD_IDEL then (WMG_STATUS_BUSY, l)
      else if mode = WMG_LINKD_MODE_NONE \<or> tid = None
      then (WMG_STATUS_FAIL, l\<lparr>linkd_state := WMG_LINKD_IDEL, linkd_mode_state := WMG_LINKD_MODE_NONE\<rparr>)
      else (WMG_STATUS_SUCCESS, l\<lparr>linkd_thread := the tid, linkd_state := WMG_LINKD_RUNNING, linkd_mode_state := mode\<rparr>))"

text \<open>The waiting loop: the seconds left, the thread's later reports, and the state.\<close>

fun linkd_wait :: "nat \<Rightarrow> linkd_report list list \<Rightarrow> wmg_linkd_object \<Rightarrow> (nat \<times> linkd_report list list \<times> wmg_linkd_object) option" where
  "linkd_wait 0 arr l = Some (0, arr, l)"
| "linkd_wait (Suc n) arr l =
     (if result_state l = WMG_LINKD_RESULT_INVALIN
      then (case arr of
              [] \<Rightarrow> linkd_wait n [] l
            | rs # arr \<Rightarrow> Option.bind (linkd_reports rs l) (linkd_wait n arr))
      else Some (Suc n, arr, l))"

text \<open>
  The caller's two arrays come and go; \<open>None\<close> in the result stands for the NULL that is stored on a
  timeout. The last assignment of the code is a comparison and stores nothing.
\<close>

definition wmg_linkd_protocol_get_results ::
    "string \<times> string \<Rightarrow> int \<Rightarrow> linkd_report list list \<Rightarrow> wmg_linkd_object
      \<Rightarrow> (int \<times> (string \<times> string) option \<times> linkd_report list list \<times> wmg_linkd_object) option" where
  "wmg_linkd_protocol_get_results bufs second arr l =
     do {
       (wait_second, arr, l) \<leftarrow> linkd_wait (if 0 < second then nat second else DEFAULT_SECOND) arr l;
       if int wait_second < 0
       then Some (WMG_STATUS_TIMEOUT, None, arr, l\<lparr>linkd_cancelled := linkd_cancelled l @ [linkd_thread l]\<rparr>)
       else if result_state l = WMG_LINKD_RESULT_SUCCESS
       then do {
         ssid \<leftarrow> c_str (ssid_result l);
         psk \<leftarrow> c_str (psk_result l);
         if length (fst bufs) < length ssid \<or> length (snd bufs) < length psk then None
         else Some (WMG_STATUS_SUCCESS,
           Some (strncpy (fst bufs) ssid (length ssid), strncpy (snd bufs) psk (length psk)), arr, l)
       }
       else Some (WMG_STATUS_FAIL, Some bufs, arr, l)
     }"

definition wmg_linkd_deinit :: "wmg_linkd_object \<Rightarrow> wmg_linkd_object" where
  "wmg_linkd_deinit l =
     l\<lparr>linkd_thread := - 1, linkd_mode_state := WMG_LINKD_MODE_NONE,
       ssid_result := replicate SSID_ARRAY (CHR 0x00), psk_result := replicate PSK_MAX_LEN (CHR 0x00),
       result_state := WMG_LINKD_RESULT_INVALIN, linkd_state := WMG_LINKD_OFF\<rparr>"

text \<open>
  The whole call. \<open>now\<close> are the reports before the first look at the result, \<open>arr\<close> those of the
  seconds after it; the reports that came too late are part of the result.
\<close>

definition wmg_linkd_protocol ::
    "int option \<Rightarrow> linkd_report list \<Rightarrow> linkd_report list list \<Rightarrow> wifi_linkd_mode \<Rightarrow> int \<Rightarrow> string \<times> string
      \<Rightarrow> wmg_linkd_object \<Rightarrow> (int \<times> (string \<times> string) option \<times> linkd_report list list \<times> wmg_linkd_object) option" where
  "wmg_linkd_protocol tid now arr mode second bufs l =
     (let l = (if linkd_state l = WMG_LINKD_OFF then snd (wmg_linkd_init l) else l)
      in if mode = WMG_LINKD_MODE_NONE then Some (WMG_STATUS_FAIL, Some bufs, [], l)
         else let (ret, l) = wmg_linkd_protocol_enable tid mode l
              in if ret \<noteq> WMG_STATUS_SUCCESS then Some (ret, Some bufs, [], l)
                 else do {
                   l \<leftarrow> linkd_reports now l;
                   (ret, out, arr, l) \<leftarrow> wmg_linkd_protocol_get_results bufs second arr l;
                   Some (ret, out, arr, wmg_linkd_deinit l)
                 })"

section \<open>The arrays\<close>

text \<open>The arrays keep their sizes; between calls a started object is idle or off.\<close>

definition linkd_ok :: "wmg_linkd_object \<Rightarrow> bool" where
  "linkd_ok l \<longleftrightarrow> length (ssid_result l) = SSID_ARRAY \<and> length (psk_result l) = PSK_MAX_LEN"

definition linkd_rest :: "wmg_linkd_object \<Rightarrow> bool" where
  "linkd_rest l \<longleftrightarrow> linkd_ok l \<and> linkd_state l \<noteq> WMG_LINKD_RUNNING"

lemma length_strncpy: "n \<le> length dst \<Longrightarrow> length (strncpy dst src n) = length dst"
  by (simp add: strncpy_def)

lemma result_cb_ok:
  assumes "linkd_mode_result_cb r l = Some l'"
  shows "(linkd_ok l \<longrightarrow> linkd_ok l') \<and> linkd_state l' = linkd_state l \<and> linkd_thread l' = linkd_thread l \<and>
    linkd_cancelled l' = linkd_cancelled l \<and> result_state l' \<noteq> WMG_LINKD_RESULT_INVALIN"
  using assms by (auto simp: linkd_mode_result_cb_def linkd_ok_def length_strncpy split: option.splits if_splits)

lemma reports_ok:
  "linkd_reports rs l = Some l' \<Longrightarrow> (linkd_ok l \<longrightarrow> linkd_ok l') \<and> linkd_state l' = linkd_state l \<and>
     linkd_cancelled l' = linkd_cancelled l"
proof (induction rs arbitrary: l)
  case (Cons r rs)
  then obtain l1 where "linkd_mode_result_cb r l = Some l1" "linkd_reports rs l1 = Some l'"
    by (auto split: Option.bind_splits)
  then show ?case using result_cb_ok[of r l l1] Cons.IH[of l1] by auto
qed simp

lemma wait_ok:
  "linkd_wait n arr l = Some (k, arr', l') \<Longrightarrow> (linkd_ok l \<longrightarrow> linkd_ok l') \<and> linkd_state l' = linkd_state l \<and>
     linkd_cancelled l' = linkd_cancelled l \<and> k \<le> n"
proof (induction n arr l rule: linkd_wait.induct)
  case (2 n arr l)
  show ?case
  proof (cases "result_state l = WMG_LINKD_RESULT_INVALIN")
    case True
    show ?thesis
    proof (cases arr)
      case Nil
      then show ?thesis using 2(1)[OF True Nil] 2(3) True by auto
    next
      case (Cons rs arr1)
      then obtain l1 where l1: "linkd_reports rs l = Some l1" "linkd_wait n arr1 l1 = Some (k, arr', l')"
        using 2(3) True by (auto split: Option.bind_splits)
      then show ?thesis using 2(2)[OF True Cons] reports_ok[OF l1(1)] by auto
    qed
  qed (use 2(3) in auto)
qed simp

text \<open>A second report changes nothing but what is stored; waiting ends at the first one.\<close>

lemma wait_quiet:
  assumes "result_state l = WMG_LINKD_RESULT_INVALIN"
  shows "linkd_wait (k + n) (replicate k [] @ arr) l = linkd_wait n arr l"
  using assms by (induction k) simp_all

lemma wait_never:
  assumes "result_state l = WMG_LINKD_RESULT_INVALIN" "list_all (\<lambda>rs. rs = []) (take n arr)"
  shows "linkd_wait n arr l = Some (0, drop n arr, l)"
  using assms
proof (induction n arbitrary: arr)
  case (Suc n)
  then show ?case by (cases arr) auto
qed simp

section \<open>A call\<close>

text \<open>Reports whose texts fit their arrays, or are refused for their length.\<close>

definition report_fits :: "linkd_report \<Rightarrow> bool" where
  "report_fits r = (case r of None \<Rightarrow> True
     | Some (ssid, psk) \<Rightarrow> (length ssid < SSID_ARRAY \<and> length psk < PSK_MAX_LEN \<or> SSID_ARRAY < length ssid \<or> SSID_ARRAY < length psk))"

text \<open>The arrays hold C strings.\<close>

definition arrays_ok :: "wmg_linkd_object \<Rightarrow> bool" where
  "arrays_ok l \<longleftrightarrow> linkd_ok l \<and> last (ssid_result l) = CHR 0x00 \<and> last (psk_result l) = CHR 0x00"

lemma last_strncpy: "length src < length dst \<Longrightarrow> last (strncpy dst src (length src)) = last dst"
  by (simp add: strncpy_def)

lemma result_cb_fits:
  assumes "report_fits r" "arrays_ok l"
  shows "\<exists>l'. linkd_mode_result_cb r l = Some l' \<and> arrays_ok l'"
proof (cases r)
  case None
  then show ?thesis using assms by (simp add: linkd_mode_result_cb_def arrays_ok_def linkd_ok_def)
next
  case (Some p)
  obtain ssid psk where p: "p = (ssid, psk)" by fastforce
  show ?thesis
    using assms Some p by (auto simp: linkd_mode_result_cb_def arrays_ok_def linkd_ok_def report_fits_def length_strncpy last_strncpy)
qed

lemma reports_fit:
  "list_all report_fits rs \<Longrightarrow> arrays_ok l \<Longrightarrow> \<exists>l'. linkd_reports rs l = Some l' \<and> arrays_ok l'"
proof (induction rs arbitrary: l)
  case (Cons r rs)
  then obtain l1 where "linkd_mode_result_cb r l = Some l1" "arrays_ok l1" using result_cb_fits by fastforce
  then show ?case using Cons by simp
qed simp

lemma wait_fits:
  "list_all (list_all report_fits) arr \<Longrightarrow> arrays_ok l \<Longrightarrow>
     \<exists>k arr' l'. linkd_wait n arr l = Some (k, arr', l') \<and> arrays_ok l'"
proof (induction n arr l rule: linkd_wait.induct)
  case (2 n arr l)
  show ?case
  proof (cases "result_state l = WMG_LINKD_RESULT_INVALIN")
    case True
    show ?thesis
    proof (cases arr)
      case Nil
      then show ?thesis using 2(1)[OF True Nil] 2(3,4) True by simp
    next
      case (Cons rs arr1)
      then obtain l1 where "linkd_reports rs l = Some l1" "arrays_ok l1"
        using 2(3,4) reports_fit[of rs l] by auto
      then show ?thesis using 2(2)[OF True Cons, of l1] 2(3) Cons True by simp
    qed
  qed (use 2(4) in auto)
qed simp

lemma arrays_c_str:
  assumes "arrays_ok l"
  shows "\<exists>s p. c_str (ssid_result l) = Some s \<and> length s < SSID_ARRAY \<and> c_str (psk_result l) = Some p \<and> length p < PSK_MAX_LEN"
proof -
  have c: "\<exists>t. c_str a = Some t \<and> length t < length a" if "last a = CHR 0x00" "a \<noteq> []" for a
  proof -
    have n: "CHR 0x00 \<in> set a" using that last_in_set[OF that(2)] by simp
    then have "dropWhile (\<lambda>c. c \<noteq> CHR 0x00) a \<noteq> []" by (auto simp: dropWhile_eq_Nil_conv)
    moreover have "length a = length (takeWhile (\<lambda>c. c \<noteq> CHR 0x00) a) + length (dropWhile (\<lambda>c. c \<noteq> CHR 0x00) a)"
      by (metis length_append takeWhile_dropWhile_id)
    ultimately have "length (takeWhile (\<lambda>c. c \<noteq> CHR 0x00) a) < length a" by simp
    then show ?thesis using n by (simp add: c_str_def)
  qed
  have "ssid_result l \<noteq> []" "psk_result l \<noteq> []" using assms by (auto simp: arrays_ok_def linkd_ok_def)
  then show ?thesis using assms c[of "ssid_result l"] c[of "psk_result l"] by (auto simp: arrays_ok_def linkd_ok_def)
qed

text \<open>The seconds that were waited, and what the thread still reports after them.\<close>

lemma wait_took: "linkd_wait n arr l = Some (k, arr', l') \<Longrightarrow> k \<le> n \<and> arr' = drop (n - k) arr"
proof (induction n arr l rule: linkd_wait.induct)
  case (2 n arr l)
  show ?case
  proof (cases "result_state l = WMG_LINKD_RESULT_INVALIN")
    case True
    show ?thesis
    proof (cases arr)
      case Nil
      then show ?thesis using 2(1)[OF True Nil] 2(3) True by auto
    next
      case (Cons rs arr1)
      then obtain l1 where l1: "linkd_reports rs l = Some l1" "linkd_wait n arr1 l1 = Some (k, arr', l')"
        using 2(3) True by (auto split: Option.bind_splits)
      then show ?thesis using 2(2)[OF True Cons l1] Cons by (simp add: Suc_diff_le)
    qed
  qed (use 2(3) in auto)
qed simp

text \<open>
  C39. How a configuration call ends, for every mode, whether or not the object is in use and a thread can be
  made. The reports of the thread fit their arrays (or are refused for their length), those of the caller have
  64 and 32 bytes. The call is defined and ends. Without a mode, and without a thread, it fails at once; while another
  call runs it answers \<open>WMG_STATUS_BUSY\<close> and changes nothing. Otherwise it waits at most the given
  number of seconds (180 by default), its status is success or failure, and the object is off with its
  result cleared; a call that failed at once leaves it idle. It never answers \<open>WMG_STATUS_TIMEOUT\<close> and never
  cancels the thread, since its counter stops at zero and the code asks for less. Not
  among the reports that fit are a passphrase of 32 to 64 bytes, which leaves no NUL or overruns its array, and a
  name of exactly 64.
\<close>

theorem linkd_call_ends:
  assumes "arrays_ok l" "list_all report_fits now" "list_all (list_all report_fits) arr"
    and "SSID_ARRAY \<le> length (fst bufs)" "PSK_MAX_LEN \<le> length (snd bufs)"
  shows "\<exists>ret out late l'. wmg_linkd_protocol tid now arr mode second bufs l = Some (ret, Some out, late, l') \<and>
    arrays_ok l' \<and> linkd_cancelled l' = linkd_cancelled l \<and>
    (if mode = WMG_LINKD_MODE_NONE
     then ret = WMG_STATUS_FAIL \<and> out = bufs \<and>
       linkd_state l' = (if linkd_state l = WMG_LINKD_OFF then WMG_LINKD_IDEL else linkd_state l)
     else if linkd_state l = WMG_LINKD_RUNNING then ret = WMG_STATUS_BUSY \<and> out = bufs \<and> l' = l
     else if tid = None then ret = WMG_STATUS_FAIL \<and> out = bufs \<and> linkd_state l' = WMG_LINKD_IDEL
     else (ret = WMG_STATUS_SUCCESS \<or> ret = WMG_STATUS_FAIL) \<and> linkd_state l' = WMG_LINKD_OFF \<and>
       result_state l' = WMG_LINKD_RESULT_INVALIN \<and>
       (\<exists>w \<le> if 0 < second then nat second else DEFAULT_SECOND. late = drop w arr))"
proof (cases "mode = WMG_LINKD_MODE_NONE \<or> linkd_state l = WMG_LINKD_RUNNING \<or> tid = None")
  case True
  obtain a b where "bufs = (a, b)" by (cases bufs)
  with True show ?thesis
    using assms(1)
    by (cases "linkd_state l"; cases tid; cases "mode = WMG_LINKD_MODE_NONE") (auto simp: wmg_linkd_protocol_def wmg_linkd_protocol_enable_def wmg_linkd_init_def
        arrays_ok_def linkd_ok_def)
next
  case False
  then obtain t where t: "tid = Some t" by auto
  let ?n = "if 0 < second then nat second else DEFAULT_SECOND"
  define l0 where "l0 = (if linkd_state l = WMG_LINKD_OFF then snd (wmg_linkd_init l) else l)"
  define l1 where "l1 = l0\<lparr>linkd_thread := t, linkd_state := WMG_LINKD_RUNNING, linkd_mode_state := mode\<rparr>"
  have e: "wmg_linkd_protocol_enable tid mode l0 = (WMG_STATUS_SUCCESS, l1)"
    using False t by (cases "linkd_state l") (simp_all add: l1_def l0_def wmg_linkd_protocol_enable_def wmg_linkd_init_def)
  have a1: "arrays_ok l1" "linkd_cancelled l1 = linkd_cancelled l"
    using assms(1) by (simp_all add: l1_def l0_def wmg_linkd_init_def arrays_ok_def linkd_ok_def)
  obtain l2 where l2: "linkd_reports now l1 = Some l2" "arrays_ok l2" using reports_fit[OF assms(2) a1(1)] by blast
  obtain k late l3 where l3: "linkd_wait ?n arr l2 = Some (k, late, l3)" "arrays_ok l3"
    using wait_fits[OF assms(3) l2(2)] by blast
  obtain s p where c: "c_str (ssid_result l3) = Some s" "length s < SSID_ARRAY" "c_str (psk_result l3) = Some p" "length p < PSK_MAX_LEN"
    using arrays_c_str[OF l3(2)] by blast
  have can: "linkd_cancelled l3 = linkd_cancelled l" using wait_ok[OF l3(1)] reports_ok[OF l2(1)] a1(2) by simp
  have "\<exists>ret out. wmg_linkd_protocol_get_results bufs second arr l2 = Some (ret, Some out, late, l3) \<and>
      (ret = WMG_STATUS_SUCCESS \<or> ret = WMG_STATUS_FAIL)"
    using l3(1) c assms(4,5) by (simp add: wmg_linkd_protocol_get_results_def)
  then obtain ret out where g: "wmg_linkd_protocol_get_results bufs second arr l2 = Some (ret, Some out, late, l3)"
      "ret = WMG_STATUS_SUCCESS \<or> ret = WMG_STATUS_FAIL" by blast
  have run: "wmg_linkd_protocol tid now arr mode second bufs l = Some (ret, Some out, late, wmg_linkd_deinit l3)"
    using False e l2(1) g(1) by (simp add: wmg_linkd_protocol_def l0_def[symmetric])
  have ok: "arrays_ok (wmg_linkd_deinit l3)" by (simp add: wmg_linkd_deinit_def arrays_ok_def linkd_ok_def)
  have w: "\<exists>w \<le> ?n. late = drop w arr" using wait_took[OF l3(1)] by (intro exI[of _ "?n - k"]) simp
  show ?thesis
    using run ok can g(2) w False by (auto simp: wmg_linkd_deinit_def)
qed

text \<open>What a fresh caller's array holds after a copy without the NUL.\<close>

lemma c_str_copied:
  assumes "CHR 0x00 \<notin> set t" "length t < n"
  shows "c_str (strncpy (replicate n (CHR 0x00)) t (length t)) = Some t"
proof -
  obtain k where k: "n - length t = Suc k" using assms(2) by (metis Suc_diff_Suc)
  have "strncpy (replicate n (CHR 0x00)) t (length t) = t @ CHR 0x00 # replicate k (CHR 0x00)"
    using k by (simp add: strncpy_def)
  then show ?thesis using assms(1) by (simp add: c_str_NUL)
qed

definition cleared :: "wmg_linkd_object \<Rightarrow> bool" where
  "cleared l \<longleftrightarrow> ssid_result l = replicate SSID_ARRAY (CHR 0x00) \<and> psk_result l = replicate PSK_MAX_LEN (CHR 0x00) \<and>
     result_state l = WMG_LINKD_RESULT_INVALIN \<and> linkd_state l \<noteq> WMG_LINKD_RUNNING"

lemma cleared_static: "cleared linkd_object_static"
  by (simp add: cleared_def linkd_object_static_def)

lemma cleared_deinit: "cleared (wmg_linkd_deinit l)"
  by (simp add: cleared_def wmg_linkd_deinit_def)

text \<open>The object in which a stored pair waits to be fetched.\<close>

lemma fetch_stored:
  assumes "result_state l = WMG_LINKD_RESULT_SUCCESS" "c_str (ssid_result l) = Some ssid" "c_str (psk_result l) = Some psk"
    "length ssid < n" "length psk < m" "CHR 0x00 \<notin> set ssid" "CHR 0x00 \<notin> set psk"
  shows "\<exists>a b. wmg_linkd_protocol_get_results (replicate n (CHR 0x00), replicate m (CHR 0x00)) second arr l =
      Some (WMG_STATUS_SUCCESS, Some (a, b), arr, l) \<and> c_str a = Some ssid \<and> c_str b = Some psk"
proof -
  have "linkd_wait w arr l = Some (w, arr, l)" for w using assms(1) by (cases w) simp_all
  then show ?thesis
    using assms c_str_copied[of ssid n] c_str_copied[of psk m] by (simp add: wmg_linkd_protocol_get_results_def)
qed

lemma report_stored:
  assumes "cleared l" "length ssid < SSID_ARRAY" "length psk < PSK_MAX_LEN" "CHR 0x00 \<notin> set ssid" "CHR 0x00 \<notin> set psk"
  shows "\<exists>l'. linkd_mode_result_cb (Some (ssid, psk)) l = Some l' \<and> result_state l' = WMG_LINKD_RESULT_SUCCESS \<and>
    c_str (ssid_result l') = Some ssid \<and> c_str (psk_result l') = Some psk"
  using assms c_str_copied[of ssid SSID_ARRAY] c_str_copied[of psk PSK_MAX_LEN]
  by (simp add: linkd_mode_result_cb_def cleared_def)

lemma protocol_started:
  assumes "mode \<noteq> WMG_LINKD_MODE_NONE" "linkd_state l \<noteq> WMG_LINKD_RUNNING"
  shows "\<exists>l1. ssid_result l1 = ssid_result l \<and> psk_result l1 = psk_result l \<and> result_state l1 = result_state l \<and>
    wmg_linkd_protocol (Some tid) [] arr mode second bufs l =
      map_option (\<lambda>(ret, out, arr, l). (ret, out, arr, wmg_linkd_deinit l))
        (wmg_linkd_protocol_get_results bufs second arr l1)"
proof -
  define l0 where "l0 = (if linkd_state l = WMG_LINKD_OFF then snd (wmg_linkd_init l) else l)"
  define l1 where "l1 = l0\<lparr>linkd_thread := tid, linkd_state := WMG_LINKD_RUNNING, linkd_mode_state := mode\<rparr>"
  have e: "wmg_linkd_protocol_enable (Some tid) mode l0 = (WMG_STATUS_SUCCESS, l1)"
    using assms by (cases "linkd_state l") (simp_all add: l1_def l0_def wmg_linkd_protocol_enable_def wmg_linkd_init_def)
  show ?thesis
    by (rule exI[of _ l1])
      (use assms(1) e in \<open>auto simp: wmg_linkd_protocol_def l0_def[symmetric] l1_def wmg_linkd_init_def map_option_case
         split: option.splits Option.bind_splits\<close>, simp_all add: l0_def wmg_linkd_init_def)
qed


text \<open>
  A report that comes after the waiting time is not lost but answers the next call: the first
  call fails and leaves its thread running; the thread then stores its pair; the next call, in
  whatever mode, returns that pair as its own without waiting for its thread, since starting does
  not clear the result.
\<close>

theorem linkd_late_result:
  assumes "cleared l" "mode \<noteq> WMG_LINKD_MODE_NONE" "mode' \<noteq> WMG_LINKD_MODE_NONE"
    and "length ssid < SSID_ARRAY" "length psk < PSK_MAX_LEN" "CHR 0x00 \<notin> set ssid" "CHR 0x00 \<notin> set psk"
    and "length ssid < n" "length psk < m"
  shows "\<exists>l1 l2 a b l3. wmg_linkd_protocol (Some tid) [] [] mode second bufs l = Some (WMG_STATUS_FAIL, Some bufs, [], l1) \<and>
    linkd_cancelled l1 = linkd_cancelled l \<and>
    linkd_mode_result_cb (Some (ssid, psk)) l1 = Some l2 \<and>
    wmg_linkd_protocol (Some tid') [] arr mode' second' (replicate n (CHR 0x00), replicate m (CHR 0x00)) l2 =
      Some (WMG_STATUS_SUCCESS, Some (a, b), arr, l3) \<and> c_str a = Some ssid \<and> c_str b = Some psk"
proof -
  have run: "linkd_state l \<noteq> WMG_LINKD_RUNNING" and inv: "result_state l = WMG_LINKD_RESULT_INVALIN"
    using assms(1) by (simp_all add: cleared_def)
  define l0 where "l0 = (if linkd_state l = WMG_LINKD_OFF then snd (wmg_linkd_init l) else l)"
  define l01 where "l01 = l0\<lparr>linkd_thread := tid, linkd_state := WMG_LINKD_RUNNING, linkd_mode_state := mode\<rparr>"
  define l1 where "l1 = wmg_linkd_deinit l01"
  have e: "wmg_linkd_protocol_enable (Some tid) mode l0 = (WMG_STATUS_SUCCESS, l01)"
    using assms(2) run by (cases "linkd_state l") (simp_all add: l01_def l0_def wmg_linkd_protocol_enable_def wmg_linkd_init_def)
  have i0: "result_state l01 = WMG_LINKD_RESULT_INVALIN" "linkd_cancelled l01 = linkd_cancelled l"
    using inv by (simp_all add: l01_def l0_def wmg_linkd_init_def)
  have "wmg_linkd_protocol_get_results bufs second [] l01 = Some (WMG_STATUS_FAIL, Some bufs, [], l01)"
    using wait_never[OF i0(1), of _ "[]"] i0(1) by (simp add: wmg_linkd_protocol_get_results_def)
  then have first: "wmg_linkd_protocol (Some tid) [] [] mode second bufs l = Some (WMG_STATUS_FAIL, Some bufs, [], l1)"
    using assms(2) e by (simp add: wmg_linkd_protocol_def l0_def[symmetric] l1_def)
  have c1: "cleared l1" "linkd_cancelled l1 = linkd_cancelled l"
    using i0(2) cleared_deinit[of l01] by (simp_all add: l1_def wmg_linkd_deinit_def)
  obtain l2 where l2: "linkd_mode_result_cb (Some (ssid, psk)) l1 = Some l2" "result_state l2 = WMG_LINKD_RESULT_SUCCESS"
    "c_str (ssid_result l2) = Some ssid" "c_str (psk_result l2) = Some psk"
    using report_stored[OF c1(1) assms(4-7)] by blast
  have run2: "linkd_state l2 \<noteq> WMG_LINKD_RUNNING" using result_cb_ok[OF l2(1)] c1(1) by (simp add: cleared_def)
  obtain l2' where l2': "ssid_result l2' = ssid_result l2" "psk_result l2' = psk_result l2" "result_state l2' = result_state l2"
    "wmg_linkd_protocol (Some tid') [] arr mode' second' (replicate n (CHR 0x00), replicate m (CHR 0x00)) l2 =
      map_option (\<lambda>(ret, out, arr, l). (ret, out, arr, wmg_linkd_deinit l))
        (wmg_linkd_protocol_get_results (replicate n (CHR 0x00), replicate m (CHR 0x00)) second' arr l2')"
    using protocol_started[OF assms(3) run2] by blast
  obtain a b where "wmg_linkd_protocol_get_results (replicate n (CHR 0x00), replicate m (CHR 0x00)) second' arr l2' =
      Some (WMG_STATUS_SUCCESS, Some (a, b), arr, l2')" "c_str a = Some ssid" "c_str b = Some psk"
    using fetch_stored[of l2' ssid psk n m second' arr] l2 l2'(1-3) assms(6-9) by auto
  then show ?thesis using first c1(2) l2(1) l2'(4) by auto
qed

text \<open>
  A passphrase of 33 to 64 characters passes the check, which compares it with the size of the array
  for names, and is written over what follows its own array of 32 bytes.
\<close>

theorem linkd_long_passphrase:
  assumes "length ssid \<le> SSID_ARRAY" "PSK_MAX_LEN < length psk" "length psk \<le> SSID_ARRAY"
  shows "linkd_mode_result_cb (Some (ssid, psk)) l = None"
  using assms by (simp add: linkd_mode_result_cb_def)

section \<open>Witnesses\<close>

abbreviation "zeros \<equiv> (replicate 64 (CHR 0x00), replicate 64 (CHR 0x00))"

theorem linkd_call_ends_witness:
  "(\<exists>ret out late l'. wmg_linkd_protocol (Some 7) weak_main_loop [] WMG_LINKD_MODE_BLE 5 zeros linkd_object_static =
     Some (ret, Some out, late, l') \<and> linkd_state l' = WMG_LINKD_OFF) \<and>
   (\<exists>out late l'. wmg_linkd_protocol (Some 7) weak_main_loop [] WMG_LINKD_MODE_BLE 5 zeros
     (linkd_object_static\<lparr>linkd_state := WMG_LINKD_RUNNING\<rparr>) = Some (WMG_STATUS_BUSY, Some out, late, l'))"
proof -
  have a: "arrays_ok linkd_object_static" "arrays_ok (linkd_object_static\<lparr>linkd_state := WMG_LINKD_RUNNING\<rparr>)"
    by (simp_all add: arrays_ok_def linkd_ok_def linkd_object_static_def)
  have f: "list_all report_fits weak_main_loop" by (simp add: weak_main_loop_def report_fits_def)
  show ?thesis
    using linkd_call_ends[OF a(1) f, of "[]" zeros "Some 7" WMG_LINKD_MODE_BLE 5]
      linkd_call_ends[OF a(2) f, of "[]" zeros "Some 7" WMG_LINKD_MODE_BLE 5]
    by (auto simp: linkd_object_static_def)
qed


theorem linkd_late_result_witness:
  "\<exists>l1 l2 a b l3. wmg_linkd_protocol (Some 7) [] [] WMG_LINKD_MODE_SOFTAP 5 zeros linkd_object_static = Some (WMG_STATUS_FAIL, Some zeros, [], l1) \<and>
    linkd_mode_result_cb (Some (''home'', ''secret99'')) l1 = Some l2 \<and>
    wmg_linkd_protocol (Some 8) [] [] WMG_LINKD_MODE_BLE 5 zeros l2 = Some (WMG_STATUS_SUCCESS, Some (a, b), [], l3) \<and>
    c_str a = Some ''home''"
  using linkd_late_result[OF cleared_static, of WMG_LINKD_MODE_SOFTAP WMG_LINKD_MODE_BLE "''home''" "''secret99''" 64 64 7 5 zeros 8 "[]" 5]
  by auto

end
