(* ===== verification/Hapd_Ctrl.thy ===== *)
theory Hapd_Ctrl
  imports Event_Pipe Linux_Common Wmg_Ap
begin

text \<open>
  The access point's platform on Linux, \<open>wifi/linux_hapd.c\<close>, part one: its state, the two control
  connections to \<open>hostapd\<close>, the list of devices that joined, and the thread that listens to
  \<open>hostapd\<close>.
\<close>

section \<open>State\<close>

text \<open>
  The list of devices hangs on a head node. \<open>Freed_List\<close>: the nodes were freed and the pointer to the
  head still stands; using it is undefined.
\<close>

datatype dev_list = No_List | Freed_List | Devices "string list"

text \<open>The copy of the last configuration that was set, in two static arrays.\<close>

record global_ap_config =
  global_ssid :: string
  global_psk :: string
  global_sec :: wifi_secure
  global_channel :: "8 word"
  ap_config_enable :: bool

text \<open>
  The object \<open>ap_hapd_inf_object\<close> and the file's static variables. \<open>ap_pid\<close> says that a thread id is
  stored, \<open>hapd_threads\<close> how many listening threads run. \<open>hapd_notified\<close> are the events given to
  the access point's callback, oldest first; \<open>hapd_incoming\<close> is what the monitor connection
  will give.
\<close>

record 's hapd_dev =
  ap_hapd_init_flag :: bool
  ap_hapd_exist :: bool
  ap_pid :: bool
  hapd_threads :: nat
  ap_event_handle :: "event_handle option"
  ap_hapd_event_cb :: bool
  ap_dev_list :: dev_list
  ap_sta_num :: "32 word"
  global_ap :: global_ap_config
  hapd_ctrl_conn :: bool
  hapd_monitor_conn :: bool
  hapd_exit_sockets :: "int \<times> int"
  hapd_incoming :: "incoming list"
  hapd_notified :: "wifi_ap_event list"
  hapd_os :: 's

definition on_hos :: "('s \<Rightarrow> 'a \<times> 's) \<Rightarrow> 's hapd_dev \<Rightarrow> 'a \<times> 's hapd_dev" where
  "on_hos f d = (let (x, s) = f (hapd_os d) in (x, d\<lparr>hapd_os := s\<rparr>))"

definition hos_do :: "('s \<Rightarrow> 's) \<Rightarrow> 's hapd_dev \<Rightarrow> 's hapd_dev" where
  "hos_do f d = d\<lparr>hapd_os := f (hapd_os d)\<rparr>"

section \<open>Commands\<close>

text \<open>
  The result and what was written to the reply buffer. After a timeout a byte is written to the
  exit socket; nobody reads it there.
\<close>

definition hapd_send_command ::
    "'s wpa_os \<Rightarrow> string \<Rightarrow> nat \<Rightarrow> 's hapd_dev \<Rightarrow> int \<times> string option \<times> 's hapd_dev" where
  "hapd_send_command k cmd reply_len d =
     (if \<not> hapd_ctrl_conn d then (- 1, None, d)
      else let ((ret, reply), d) = on_hos (os_request k cmd) d;
               reply = take reply_len reply
           in if ret = - 2
              then let (n, d) = on_hos (os_pending k) d
                   in (- 2, None, d\<lparr>hapd_incoming := take n (hapd_incoming d) @ Exit_Signal # drop n (hapd_incoming d)\<rparr>)
              else if ret < 0 then (- 1, None, d)
              else if starts ''FAIL'' reply then (- 1, Some reply, d)
              else (0, Some reply, d))"

definition command_to_hostapd ::
    "'s wpa_os \<Rightarrow> string \<Rightarrow> nat \<Rightarrow> 's hapd_dev \<Rightarrow> int \<times> string option \<times> 's hapd_dev" where
  "command_to_hostapd k cmd reply_len d =
     (if cmd = [] then (- 1, None, d)
      else let (ret, reply, d) = hapd_send_command k cmd (reply_len - 1) d
           in if ret \<noteq> 0 then (- 1, reply, d)
              else (0, map_option strip_newline reply, d))"

definition linux_ap_hapd_cmd_enable :: "'s wpa_os \<Rightarrow> 's hapd_dev \<Rightarrow> int \<times> 's hapd_dev" where
  "linux_ap_hapd_cmd_enable k d =
     (let (ret, _, d) = command_to_hostapd k ''ENABLE'' EVENT_BUF_SIZE d in (ret, d))"

definition linux_ap_hapd_cmd_disable :: "'s wpa_os \<Rightarrow> 's hapd_dev \<Rightarrow> int \<times> 's hapd_dev" where
  "linux_ap_hapd_cmd_disable k d =
     (let (ret, _, d) = command_to_hostapd k ''DISABLE'' EVENT_BUF_SIZE d in (ret, d))"

definition linux_ap_hapd_cmd_reload :: "'s wpa_os \<Rightarrow> 's hapd_dev \<Rightarrow> int \<times> 's hapd_dev" where
  "linux_ap_hapd_cmd_reload k d =
     (let (ret, _, d) = command_to_hostapd k ''RELOAD'' EVENT_BUF_SIZE d in (ret, d))"

text \<open>0: the access point is on the air, 1: it is not, - 1: it is not known.\<close>

definition linux_ap_hapd_cmd_status :: "'s wpa_os \<Rightarrow> 's hapd_dev \<Rightarrow> int \<times> 's hapd_dev" where
  "linux_ap_hapd_cmd_status k d =
     (let (ret, reply, d) = command_to_hostapd k ''STATUS'' EVENT_BUF_SIZE d;
          reply = (case reply of None \<Rightarrow> [] | Some r \<Rightarrow> r)
      in if c_true ret then (- 1, d)
         else if strstr ''state=ENABLED'' reply \<noteq> None then (0, d)
         else if strstr ''state=DISABLED'' reply \<noteq> None then (1, d)
         else (- 1, d))"

section \<open>Opening and closing the connections\<close>

fun open_hapd :: "nat \<Rightarrow> 's wpa_os \<Rightarrow> 's hapd_dev \<Rightarrow> bool \<times> 's hapd_dev" where
  "open_hapd n k d =
     (let (ok, d) = on_hos (os_open k) d
      in if ok then (True, d)
         else (case n of 0 \<Rightarrow> (False, d) | Suc n \<Rightarrow> open_hapd n k (hos_do (os_sleep k 100000) d)))"

declare open_hapd.simps [simp del]

definition hostapd_connect_on_socket_path :: "'s wpa_os \<Rightarrow> 's hapd_dev \<Rightarrow> int \<times> 's hapd_dev" where
  "hostapd_connect_on_socket_path k d =
     (let (ok, d) = open_hapd 30 k d; d = d\<lparr>hapd_ctrl_conn := ok\<rparr>
      in if \<not> ok then (- 1, d)
         else let (ok, d) = on_hos (os_open k) d; d = d\<lparr>hapd_monitor_conn := ok\<rparr>
              in if \<not> ok then (- 1, d\<lparr>hapd_ctrl_conn := False\<rparr>)
                 else let (ok, d) = on_hos (os_attach k) d
                      in if \<not> ok then (- 1, d\<lparr>hapd_ctrl_conn := False, hapd_monitor_conn := False\<rparr>)
                         else let (fds, d) = on_hos (os_socketpair k) d
                              in case fds of
                                   None \<Rightarrow> (- 1, d\<lparr>hapd_ctrl_conn := False, hapd_monitor_conn := False\<rparr>)
                                 | Some fds \<Rightarrow>
                                     (0, d\<lparr>hapd_exit_sockets := fds,
                                           hapd_incoming := filter (\<lambda>i. i \<noteq> Exit_Signal) (hapd_incoming d)\<rparr>))"

definition hapd_close_sockets :: "'s hapd_dev \<Rightarrow> 's hapd_dev" where
  "hapd_close_sockets d =
     d\<lparr>hapd_monitor_conn := False, hapd_ctrl_conn := False,
       hapd_exit_sockets := (if 0 \<le> fst (hapd_exit_sockets d) then - 1 else fst (hapd_exit_sockets d),
                             if 0 \<le> snd (hapd_exit_sockets d) then - 1 else snd (hapd_exit_sockets d))\<rparr>"

section \<open>The devices that joined\<close>

abbreviation "BSSID_LEN \<equiv> 47 :: nat"

text \<open>The newest device comes first. Without a head node the result is - 1.\<close>

definition wmg_sta_device_add :: "'s wpa_os \<Rightarrow> string \<Rightarrow> 's hapd_dev \<Rightarrow> (int \<times> 's hapd_dev) option" where
  "wmg_sta_device_add k bssid d =
     (case ap_dev_list d of
        No_List \<Rightarrow> Some (- 1, d)
      | l \<Rightarrow>
          let (ok, d) = on_hos (os_malloc k) d
          in if \<not> ok then Some (- 1, d)
             else (case l of
                     Devices bs \<Rightarrow> Some (0, d\<lparr>ap_dev_list := Devices (take BSSID_LEN bssid # bs)\<rparr>)
                   | _ \<Rightarrow> None))"

fun unlink_device :: "string \<Rightarrow> string list \<Rightarrow> int \<times> string list" where
  "unlink_device bssid [] = (- 1, [])"
| "unlink_device bssid (p # ps) =
     (if take BSSID_LEN p = take BSSID_LEN bssid then (0, ps)
      else let (ret, ps) = unlink_device bssid ps in (ret, p # ps))"

definition wmg_sta_device_remove :: "string \<Rightarrow> 's hapd_dev \<Rightarrow> (int \<times> 's hapd_dev) option" where
  "wmg_sta_device_remove bssid d =
     (case ap_dev_list d of
        Devices bs \<Rightarrow> let (ret, bs) = unlink_device bssid bs in Some (ret, d\<lparr>ap_dev_list := Devices bs\<rparr>)
      | _ \<Rightarrow> None)"

text \<open>Printing goes through the list: there must be one.\<close>

definition wmg_sta_device_print :: "'s hapd_dev \<Rightarrow> 's hapd_dev option" where
  "wmg_sta_device_print d = (case ap_dev_list d of Devices _ \<Rightarrow> Some d | _ \<Rightarrow> None)"

section \<open>Events\<close>

fun ap_event_num :: "wifi_ap_event \<Rightarrow> int" where
  "ap_event_num WIFI_AP_ENABLED = 1"
| "ap_event_num WIFI_AP_DISABLED = 2"
| "ap_event_num WIFI_AP_STA_DISCONNECTED = 3"
| "ap_event_num WIFI_AP_STA_CONNECTED = 4"
| "ap_event_num WIFI_AP_UNKNOWN = 5"

definition hapd_event_notify_to_ap_dev :: "wifi_ap_event \<Rightarrow> 's hapd_dev \<Rightarrow> 's hapd_dev" where
  "hapd_event_notify_to_ap_dev event d =
     (if ap_hapd_event_cb d then d\<lparr>hapd_notified := hapd_notified d @ [event]\<rparr> else d)"

text \<open>The event goes into the pipe first, and waits there when the pipe is full.\<close>

definition hapd_event_notify :: "wifi_ap_event \<Rightarrow> 's hapd_dev \<Rightarrow> 's hapd_dev outcome" where
  "hapd_event_notify event d =
     (case ap_event_handle d of
        None \<Rightarrow> Crash
      | Some h \<Rightarrow>
          bind_outcome (evt_send (ap_event_num event) h)
            (\<lambda>(_, h). Returns (hapd_event_notify_to_ap_dev event (d\<lparr>ap_event_handle := Some h\<rparr>))))"

text \<open>
  The device that joined or left is what stands behind the first space of the message. The
  result is 0 for every message.
\<close>

definition hapd_dispatch_event :: "'s wpa_os \<Rightarrow> string \<Rightarrow> 's hapd_dev \<Rightarrow> (int \<times> 's hapd_dev) outcome" where
  "hapd_dispatch_event k event_str d =
     (let notify = (\<lambda>event d. map_outcome_of (Pair 0) (hapd_event_notify event d));
          listed = (\<lambda>r. bind_outcome (outcome_of_option (Option.bind r wmg_sta_device_print)))
      in if event_str = [] then Returns (0, d)
         else if strstr ''AP-ENABLED'' event_str \<noteq> None then notify WIFI_AP_ENABLED d
         else if strstr ''AP-DISABLED'' event_str \<noteq> None then notify WIFI_AP_DISABLED d
         else if strstr ''AP-STA-CONNECTED'' event_str \<noteq> None
         then (case strchr (CHR '' '') event_str of
                 None \<Rightarrow> notify WIFI_AP_STA_CONNECTED d
               | Some (_, event_data) \<Rightarrow>
                   listed (map_option (\<lambda>(ret, d). if ret = 0 then d\<lparr>ap_sta_num := ap_sta_num d + 1\<rparr> else d)
                            (wmg_sta_device_add k event_data d))
                     (notify WIFI_AP_STA_CONNECTED))
         else if strstr ''AP-STA-DISCONNECTED'' event_str \<noteq> None
         then (case strchr (CHR '' '') event_str of
                 None \<Rightarrow> notify WIFI_AP_STA_DISCONNECTED d
               | Some (_, event_data) \<Rightarrow>
                   listed (map_option (\<lambda>(ret, d). if ret = 0 then d\<lparr>ap_sta_num := ap_sta_num d - 1\<rparr> else d)
                            (wmg_sta_device_remove event_data d))
                     (notify WIFI_AP_STA_DISCONNECTED))
         else Returns (0, d))"

section \<open>The listening thread\<close>

definition hapd_wait_on_socket :: "'s hapd_dev \<Rightarrow> ((int \<times> string) \<times> 's hapd_dev) outcome" where
  "hapd_wait_on_socket d =
     (if \<not> hapd_monitor_conn d then Returns (fabricated '' - connection closed'', d)
      else (case dropWhile (\<lambda>i. i = Quiet) (hapd_incoming d) of
              [] \<Rightarrow> Blocks
            | item # rest \<Rightarrow>
                let (result, buf) = wifi_ctrl_recv item;
                    d = d\<lparr>hapd_incoming := (if item = Exit_Signal then item # rest else rest)\<rparr>
                in if result = - 2 then Returns (fabricated '' - connection closed'', d)
                   else if result < 0 then Returns (fabricated '' - recv error'', d)
                   else if result = 0 \<and> length buf = 0 then Returns (fabricated '' - signal 0 received'', d)
                   else (case strip_level buf of None \<Rightarrow> Crash | Some r \<Rightarrow> Returns (r, d))))"

text \<open>One round of the thread, which ends when the dispatcher's result is not zero.\<close>

definition hapd_event_round :: "'s wpa_os \<Rightarrow> 's hapd_dev \<Rightarrow> 's hapd_dev outcome" where
  "hapd_event_round k d =
     bind_outcome (hapd_wait_on_socket d) (\<lambda>((size, buf), d).
       if 0 < size
       then bind_outcome (hapd_dispatch_event k buf d)
              (\<lambda>(ret, d). Returns (if c_true ret then d\<lparr>hapd_threads := hapd_threads d - 1\<rparr> else d))
       else Returns d)"

end
