(* ===== verification/Linux_Hapd.thy ===== *)
theory Linux_Hapd
  imports Hapd_Ctrl
begin

text \<open>
  The access point's platform, part two: the functions of \<open>linux_hapd.c\<close> behind the access point's
  interface record. Starting and stopping \<open>hostapd\<close>, the commands that configure it, switching the
  access point on and off, reading its configuration back; and the record itself, over a
  platform whose state is an outcome.
\<close>

section \<open>Setting the configuration\<close>

abbreviation "SSID_MAX_LEN \<equiv> 64 :: nat"
abbreviation "PSK_MAX_LEN \<equiv> 32 :: nat"
abbreviation "STA_MAX_NUM \<equiv> 20 :: nat"

text \<open>A command of the sequence, in an array of 101 bytes, and what follows when it is accepted.\<close>

definition hapd_then ::
    "'s wpa_os \<Rightarrow> string \<Rightarrow> ('s hapd_dev \<Rightarrow> (int \<times> 's hapd_dev) option) \<Rightarrow> 's hapd_dev \<Rightarrow> (int \<times> 's hapd_dev) option" where
  "hapd_then k cmd next d =
     (case fits (CMD_MAX_LEN + 1) cmd of
        None \<Rightarrow> None
      | Some cmd \<Rightarrow>
          let (ret, _, d) = command_to_hostapd k cmd EVENT_BUF_SIZE d
          in if c_true ret then Some (WMG_STATUS_FAIL, d) else next d)"

text \<open>The commands for a passphrase; \<open>wpa\<close> is 1 or 2.\<close>

definition set_passphrase ::
    "'s wpa_os \<Rightarrow> string \<Rightarrow> string option \<Rightarrow> ('s hapd_dev \<Rightarrow> (int \<times> 's hapd_dev) option) \<Rightarrow> 's hapd_dev \<Rightarrow> (int \<times> 's hapd_dev) option" where
  "set_passphrase k wpa psk next d =
     (case psk of
        None \<Rightarrow> Some (WMG_STATUS_FAIL, d)
      | Some psk \<Rightarrow>
          hapd_then k (''SET wpa '' @ wpa)
            (hapd_then k ''SET wpa_key_mgmt WPA-PSK'' (\<lambda>d.
               if length psk < 8 then Some (WMG_STATUS_FAIL, d)
               else hapd_then k ''SET rsn_pairwise CCMP'' (hapd_then k (''SET wpa_passphrase '' @ psk) next) d)) d)"

definition set_security ::
    "'s wpa_os \<Rightarrow> wifi_ap_config \<Rightarrow> ('s hapd_dev \<Rightarrow> (int \<times> 's hapd_dev) option) \<Rightarrow> 's hapd_dev \<Rightarrow> (int \<times> 's hapd_dev) option" where
  "set_security k c next d =
     (case ap_sec c of
        WIFI_SEC_NONE \<Rightarrow> hapd_then k ''SET wpa 0'' next d
      | WIFI_SEC_WEP \<Rightarrow>
          hapd_then k ''SET wep_default_key 0'' (\<lambda>d.
            case ap_psk c of
              None \<Rightarrow> None
            | Some psk \<Rightarrow>
                if length psk = 10 \<or> length psk = 26 then hapd_then k (''SET wep_key0 '' @ psk) next d
                else if length psk = 5 \<or> length psk = 13
                then hapd_then k (''SET wep_key0 '' @ [QUOTE] @ psk @ [QUOTE]) next d
                else Some (WMG_STATUS_FAIL, d)) d
      | WIFI_SEC_WPA_PSK \<Rightarrow> set_passphrase k ''1'' (ap_psk c) next d
      | WIFI_SEC_WPA2_PSK \<Rightarrow> set_passphrase k ''2'' (ap_psk c) next d)"

text \<open>
  Both texts are copied without a look at their length: the array for the passphrase has 32 bytes,
  while a passphrase may have 63 characters.
\<close>

definition keep_config :: "wifi_ap_config \<Rightarrow> 's hapd_dev \<Rightarrow> (int \<times> 's hapd_dev) option" where
  "keep_config c d =
     do {
       ssid \<leftarrow> (case ap_ssid c of None \<Rightarrow> Some (global_ssid (global_ap d)) | Some s \<Rightarrow> fits SSID_MAX_LEN s);
       psk \<leftarrow> (case ap_psk c of None \<Rightarrow> Some (global_psk (global_ap d)) | Some p \<Rightarrow> fits PSK_MAX_LEN p);
       Some (WMG_STATUS_SUCCESS, d\<lparr>global_ap := \<lparr>global_ssid = ssid, global_psk = psk, global_sec = ap_sec c,
         global_channel = ap_channel c, ap_config_enable = True\<rparr>\<rparr>)
     }"

definition linux_ap_hapd_set_config ::
    "'s wpa_os \<Rightarrow> wifi_ap_config option \<Rightarrow> 's hapd_dev \<Rightarrow> (int \<times> 's hapd_dev) option" where
  "linux_ap_hapd_set_config k ap_config d =
     (case ap_config of
        None \<Rightarrow> Some (WMG_STATUS_FAIL, d)
      | Some c \<Rightarrow>
          (case ap_ssid c of
             None \<Rightarrow> Some (WMG_STATUS_FAIL, d)
           | Some ssid \<Rightarrow>
               hapd_then k (''SET ssid '' @ ssid) (\<lambda>d.
                 if ap_channel c < 14
                 then hapd_then k (''SET channel '' @ dec (unat (ap_channel c))) (set_security k c (keep_config c)) d
                 else Some (WMG_STATUS_FAIL, d)) d))"

section \<open>Switching the access point on and off\<close>

definition linux_ap_hapd_enable ::
    "'s wpa_os \<Rightarrow> wifi_ap_config option \<Rightarrow> 's hapd_dev \<Rightarrow> (int \<times> 's hapd_dev) option" where
  "linux_ap_hapd_enable k ap_config d =
     (let (status, d) = linux_ap_hapd_cmd_status k d;
          (ret, d) = (if status = 0 then linux_ap_hapd_cmd_disable k d else (0, d))
      in if status \<noteq> 1 \<and> status \<noteq> 0 then Some (WMG_STATUS_FAIL, d)
         else if c_true ret then Some (WMG_STATUS_FAIL, d)
         else do {
           (ret, d) \<leftarrow> linux_ap_hapd_set_config k ap_config d;
           if c_true ret then Some (WMG_STATUS_FAIL, d)
           else let (ret, d) = linux_ap_hapd_cmd_enable k d
                in if c_true ret then Some (WMG_STATUS_FAIL, d)
                   else let d = hos_do (os_system k ''ifconfig wlan0 192.168.5.10'') d;
                            d = hos_do (os_system k ''killall udhcpc'') d;
                            d = hos_do (os_system k ''killall dhcpcd'') d;
                            d = hos_do (os_system k ''killall -9 dnsmasq'') d;
                            d = hos_do (os_sleep k 500000) d
                        in Some (WMG_STATUS_SUCCESS, hos_do (os_system k ''dnsmasq -C /etc/dnsmasq.conf'') d)
         })"

definition linux_ap_hapd_disable :: "'s wpa_os \<Rightarrow> 's hapd_dev \<Rightarrow> int \<times> 's hapd_dev" where
  "linux_ap_hapd_disable k d =
     (let (status, d) = linux_ap_hapd_cmd_status k d
      in if status = 1 then (WMG_STATUS_SUCCESS, d)
         else let (ret, d) = linux_ap_hapd_cmd_disable k d
              in if c_true ret then (WMG_STATUS_FAIL, d)
                 else (WMG_STATUS_SUCCESS,
                   hos_do (os_system k ''pidof dnsmasq | xargs kill -9'') (hos_do (os_system k ''ifconfig wlan0 0.0.0.0'') d)))"

section \<open>Reading the configuration back\<close>

text \<open>
  The caller's structure: arrays with all their bytes, or NULL. \<open>strcpy\<close> must find room there; the
  security is not filled in.
\<close>

record ap_config_out =
  out_ssid :: "string option"
  out_psk :: "string option"
  out_sec :: wifi_secure
  out_channel :: "8 word"
  out_dev_list :: "string option list"
  out_sta_num :: "8 word"

definition strcpy :: "string option \<Rightarrow> string \<Rightarrow> string option" where
  "strcpy dst src =
     (case dst of
        None \<Rightarrow> None
      | Some a \<Rightarrow> if length src < length a then Some (src @ CHR 0x00 # drop (Suc (length src)) a) else None)"

text \<open>One token; a name that is too long ends the function. The result is what the caller finds.\<close>

definition ap_token :: "string \<Rightarrow> ap_config_out \<Rightarrow> (bool \<times> ap_config_out) option" where
  "ap_token pch c =
     (if starts ''ssid[0]='' pch
      then if SSID_MAX_LEN < length (drop 8 pch) then Some (False, c)
           else map_option (\<lambda>a. (True, c\<lparr>out_ssid := Some a\<rparr>)) (strcpy (out_ssid c) (drop 8 pch))
      else if starts ''channel='' pch
      then map_option (\<lambda>v. (True, c\<lparr>out_channel := word_of_int v\<rparr>)) (atoi_str (drop 8 pch))
      else if starts ''num_sta[0]='' pch
      then map_option (\<lambda>v. (True, c\<lparr>out_sta_num := word_of_int v\<rparr>)) (atoi_str (drop 11 pch))
      else Some (True, c))"

text \<open>The delimiters are the newline and, by the way they are written, the single quote.\<close>

function ap_tokens :: "string \<Rightarrow> ap_config_out \<Rightarrow> (int \<times> ap_config_out) option" where
  "ap_tokens s c =
     (case strtok [CHR 0x27, NL] s of
        None \<Rightarrow> Some (0, c)
      | Some (pch, r) \<Rightarrow>
          (case ap_token pch c of
             None \<Rightarrow> None
           | Some (ok, c) \<Rightarrow> if ok then ap_tokens r c else Some (- 1, c)))"
  by pat_completeness auto
termination by (relation "measure (\<lambda>(s, _). length s)") (auto dest: strtok_shorter)

declare ap_tokens.simps [simp del]

text \<open>A reply in which nothing is said about the state is logged as invalid and counts as parsed.\<close>

definition parse_ap_config :: "string \<Rightarrow> ap_config_out \<Rightarrow> (int \<times> ap_config_out) option" where
  "parse_ap_config reply c =
     (case strstr ''state'' reply of
        None \<Rightarrow> Some (0, c)
      | Some (_, pos) \<Rightarrow> if \<not> starts ''ENABLED'' (drop 6 pos) then Some (- 1, c) else ap_tokens reply c)"

text \<open>At most as many devices as the caller's list has places; 47 bytes are written for each.\<close>

fun copy_devices :: "string list \<Rightarrow> string option list \<Rightarrow> string option list option" where
  "copy_devices [] ps = Some ps"
| "copy_devices (b # bs) [] = Some []"
| "copy_devices (b # bs) (p # ps) =
     do {
       a \<leftarrow> p;
       if length a < BSSID_LEN then None
       else do { ps \<leftarrow> copy_devices bs ps; Some (Some (strncpy a b BSSID_LEN) # ps) }
     }"

definition linux_ap_hapd_get_config ::
    "'s wpa_os \<Rightarrow> ap_config_out \<Rightarrow> 's hapd_dev \<Rightarrow> (int \<times> ap_config_out \<times> 's hapd_dev) option" where
  "linux_ap_hapd_get_config k c d =
     (case command_to_hostapd k ''STATUS'' EVENT_BUF_SIZE d of
        (ret, reply, d) \<Rightarrow>
          let reply = (case reply of None \<Rightarrow> [] | Some r \<Rightarrow> r)
          in if c_true ret then Some (- 1, c, d)
             else if strstr ''state=DISABLED'' reply \<noteq> None then Some (WMG_STATUS_FAIL, c, d)
             else do {
               (ret, c) \<leftarrow> parse_ap_config reply c;
               if c_true ret then Some (WMG_STATUS_FAIL, c, d)
               else if \<not> ap_config_enable (global_ap d) then Some (WMG_STATUS_FAIL, c, d)
               else do {
                 psk \<leftarrow> strcpy (out_psk c) (global_psk (global_ap d));
                 bs \<leftarrow> (case ap_dev_list d of Devices bs \<Rightarrow> Some bs | _ \<Rightarrow> None);
                 ps \<leftarrow> copy_devices bs (out_dev_list c);
                 Some (WMG_STATUS_SUCCESS, c\<lparr>out_psk := Some psk, out_dev_list := ps\<rparr>, d)
               }
             })"

section \<open>Starting and stopping\<close>

definition hapd_inf_static :: "incoming list \<Rightarrow> 's \<Rightarrow> 's hapd_dev" where
  "hapd_inf_static inc s = \<lparr>ap_hapd_init_flag = False, ap_hapd_exist = False, ap_pid = False, hapd_threads = 0,
     ap_event_handle = None, ap_hapd_event_cb = False, ap_dev_list = No_List, ap_sta_num = 0,
     global_ap = \<lparr>global_ssid = [], global_psk = [], global_sec = WIFI_SEC_NONE, global_channel = 0, ap_config_enable = False\<rparr>,
     hapd_ctrl_conn = False, hapd_monitor_conn = False, hapd_exit_sockets = (0, 0), hapd_incoming = inc,
     hapd_notified = [], hapd_os = s\<rparr>"

text \<open>The access point passes its callback, which is not NULL.\<close>

definition linux_ap_hapd_init :: "'s wpa_os \<Rightarrow> 's hapd_dev \<Rightarrow> int \<times> 's hapd_dev" where
  "linux_ap_hapd_init k d =
     (if ap_hapd_init_flag d then (WMG_STATUS_SUCCESS, d)
      else let (ok, d) = on_hos (os_malloc k) d
           in if \<not> ok then (WMG_STATUS_NOMEM, d\<lparr>ap_dev_list := No_List\<rparr>)
              else let (ok, d) = on_hos (os_malloc k) (d\<lparr>ap_dev_list := Devices []\<rparr>)
                   in if \<not> ok then (WMG_STATUS_FAIL, d\<lparr>ap_event_handle := None, ap_dev_list := Freed_List\<rparr>)
                      else (WMG_STATUS_SUCCESS,
                        d\<lparr>ap_event_handle := Some \<lparr>evt_socket = (- 1, - 1), evt_socket_enable = False, evt_bytes = [],
                            evt_room = os_room k, evt_getfl_ok = os_getfl k, evt_setfl_ok = os_setfl k\<rparr>,
                          ap_hapd_event_cb := True, ap_hapd_init_flag := True\<rparr>))"

text \<open>Asking for a process, killing it and asking again after a pause; \<open>False\<close>: it is still there.\<close>

definition kill_process :: "'s wpa_os \<Rightarrow> string \<Rightarrow> 's hapd_dev \<Rightarrow> int \<times> 's hapd_dev" where
  "kill_process k name d =
     (let (e, d) = on_hos (check_process_is_exist k name 7) d
      in if e \<noteq> 1 then (0, d)
         else let d = hos_do (os_system k (''pidof '' @ name @ '' | xargs kill -9'')) d;
                  (e, d) = on_hos (check_process_is_exist k name 7) (hos_do (os_sleep k 1000000) d)
              in (if e = 1 then - 1 else 1, d))"

text \<open>
  The nodes are freed first, while the thread still runs and may come between; then the thread, the pipe and
  the connections.
\<close>

definition free_devices :: "'s hapd_dev \<Rightarrow> 's hapd_dev option" where
  "free_devices d =
     (if ap_dev_list d = Freed_List then None
      else Some (d\<lparr>ap_dev_list := (if ap_dev_list d = No_List then No_List else Freed_List), ap_sta_num := 0\<rparr>))"

definition hapd_release :: "'s hapd_dev \<Rightarrow> 's hapd_dev option" where
  "hapd_release d =
     do {
       d \<leftarrow> free_devices d;
       let d = (if ap_pid d then d\<lparr>hapd_threads := hapd_threads d - 1, ap_pid := False\<rparr> else d);
       h \<leftarrow> ap_event_handle d;
       Some (hapd_close_sockets (d\<lparr>ap_event_handle := Some (evt_socket_exit h)\<rparr>))
     }"

text \<open>
  When \<open>hostapd\<close> cannot be killed the function returns there, and the object stays initialised with
  its list freed.
\<close>

definition linux_ap_hapd_deinit :: "'s wpa_os \<Rightarrow> 's hapd_dev \<Rightarrow> 's hapd_dev option" where
  "linux_ap_hapd_deinit k d =
     (if \<not> ap_hapd_init_flag d then Some d
      else (case hapd_release d of
              None \<Rightarrow> None
            | Some d \<Rightarrow>
                let (killed, d) = kill_process k ''hostapd'' d
                in if killed = - 1 then Some d
                   else let d = (if killed = 1 then d\<lparr>ap_hapd_exist := False\<rparr> else d);
                            (_, d) = kill_process k ''dnsmasq'' d;
                            d = hos_do (os_system k ''ifconfig wlan0 down'') d
                        in Some (d\<lparr>ap_event_handle := None, ap_hapd_event_cb := False, ap_hapd_init_flag := False\<rparr>)))"

text \<open>A start of \<open>hostapd\<close>, and up to five looks for it; there are \<open>try_times\<close> such tries.\<close>

fun wait_hostapd :: "nat \<Rightarrow> 's wpa_os \<Rightarrow> 's hapd_dev \<Rightarrow> int \<times> 's hapd_dev" where
  "wait_hostapd 0 k d = (0, d)"
| "wait_hostapd (Suc n) k d =
     (let (ret, d) = on_hos (check_process_is_exist k ''hostapd'' 7) (hos_do (os_sleep k 1000000) d)
      in if c_true ret then (ret, d) else wait_hostapd n k d)"

fun start_hostapd :: "nat \<Rightarrow> 's wpa_os \<Rightarrow> 's hapd_dev \<Rightarrow> int \<times> 's hapd_dev" where
  "start_hostapd 0 k d = (- 1, d)"
| "start_hostapd (Suc try_times) k d =
     (let d = hos_do (os_system k ''hostapd /data/hostapd.conf &'') d;
          (ret, d) = wait_hostapd 5 k d
      in if ret = 0 then start_hostapd try_times k d else (0, d))"

definition stop_supplicant :: "'s wpa_os \<Rightarrow> 's hapd_dev \<Rightarrow> bool \<times> 's hapd_dev" where
  "stop_supplicant k d =
     (let (e, d) = on_hos (check_process_is_exist k ''wpa_supplicant'' 14) d
      in if e \<noteq> 1 then (True, d)
         else let d = hos_do (os_system k ''pidof wpa_supplicant | xargs kill -9'') d;
                  (e, d) = on_hos (check_process_is_exist k ''wpa_supplicant'' 14) d
              in if e \<noteq> 1 then (True, d)
                 else let (e, d) = on_hos (check_process_is_exist k ''wpa_supplicant'' 14) (hos_do (os_sleep k 1000000) d)
                      in (e \<noteq> 1, d))"

text \<open>The event pipe and the listening thread, once the connections are open.\<close>

definition hapd_start_thread :: "'s wpa_os \<Rightarrow> 's hapd_dev \<Rightarrow> (int \<times> 's hapd_dev) option" where
  "hapd_start_thread k d =
     (case ap_event_handle d of
        None \<Rightarrow> None
      | Some h \<Rightarrow>
          let (sp, d) = on_hos (os_socketpair k) d;
              (ret, h) = evt_socket_init sp h;
              d = d\<lparr>ap_event_handle := Some h\<rparr>
          in if ret \<noteq> 0 then Some (WMG_STATUS_FAIL, hapd_close_sockets d)
             else let (_, h) = evt_socket_clear h;
                      (ok, d) = on_hos (os_thread k) (d\<lparr>ap_event_handle := Some h\<rparr>)
                  in if \<not> ok
                     then Some (WMG_STATUS_FAIL, hapd_close_sockets (d\<lparr>ap_event_handle := Some (evt_socket_exit h)\<rparr>))
                     else Some (WMG_STATUS_SUCCESS, d\<lparr>ap_pid := True, hapd_threads := Suc (hapd_threads d)\<rparr>))"

definition linux_connect_to_hostapd :: "'s wpa_os \<Rightarrow> 's hapd_dev \<Rightarrow> (int \<times> 's hapd_dev) option" where
  "linux_connect_to_hostapd k d =
     (let (ok, d) = stop_supplicant k d
      in if \<not> ok then Some (WMG_STATUS_FAIL, d)
         else
           let (e, d) = on_hos (check_process_is_exist k ''hostapd'' 7) d;
               (started, d) = (if e = 0 then start_hostapd 2 k d else (0, d))
           in if started \<noteq> 0 then Some (WMG_STATUS_FAIL, d)
              else let (there, d) = on_hos (os_access k ''/var/run/hostapd'') d
                   in if \<not> there then Some (- 1, d)
                      else let (ret, d) = hostapd_connect_on_socket_path k d
                           in if ret \<noteq> 0 then Some (WMG_STATUS_FAIL, d) else hapd_start_thread k d)"

section \<open>The interface record\<close>

text \<open>The caller's buffers, by what they hold.\<close>

datatype hapd_cell = Config_Cell ap_config_out | Address_Cell "byte list"

type_synonym hapd_memory = "buf \<Rightarrow> hapd_cell option"

definition read_address :: "buf option \<Rightarrow> hapd_memory \<Rightarrow> byte list option" where
  "read_address b m = (case Option.bind b m of Some (Address_Cell bs) \<Rightarrow> Some bs | _ \<Rightarrow> None)"

fun hapd_platform_extension ::
    "'s wpa_os \<Rightarrow> hapd_request \<Rightarrow> 's hapd_dev \<times> hapd_memory \<Rightarrow> (int \<times> 's hapd_dev \<times> hapd_memory) outcome" where
  "hapd_platform_extension k HAPD_CMD_SEND_DISABLE_TO_HAPD (d, m) =
     (let (ret, d) = linux_ap_hapd_cmd_disable k d in Returns (ret, d, m))"
| "hapd_platform_extension k (HAPD_CMD_GET_CONFIG b) (d, m) =
     (case m b of
        Some (Config_Cell c) \<Rightarrow>
          map_outcome_of (\<lambda>(ret, c, d). (ret, d, m(b \<mapsto> Config_Cell c))) (outcome_of_option (linux_ap_hapd_get_config k c d))
      | _ \<Rightarrow> Crash)"
| "hapd_platform_extension k (HAPD_CMD_SET_MAC (ifname, b)) (d, m) =
     map_outcome_of (\<lambda>(ret, s). (if c_true ret then WMG_STATUS_FAIL else WMG_STATUS_SUCCESS, d\<lparr>hapd_os := s\<rparr>, m))
       (outcome_of_option (linux_common_set_mac k ifname (read_address b m) (hapd_os d)))"
| "hapd_platform_extension k (HAPD_CMD_GET_MAC (ifname, b)) (d, m) =
     map_outcome_of (\<lambda>(ret, mac, s). (if c_true ret then WMG_STATUS_FAIL else WMG_STATUS_SUCCESS, d\<lparr>hapd_os := s\<rparr>,
         case (b, mac) of (Some b, Some mac) \<Rightarrow> m(b \<mapsto> Address_Cell mac) | _ \<Rightarrow> m))
       (outcome_of_option (linux_common_get_mac k (Some ifname) (read_address b m) (hapd_os d)))"

text \<open>The platform as the access point sees it; one that does not come back stays as it is.\<close>

type_synonym 's hapd_plat = "('s hapd_dev \<times> hapd_memory) outcome"

definition hapd_call ::
    "('s hapd_dev \<times> hapd_memory \<Rightarrow> ('r \<times> 's hapd_dev \<times> hapd_memory) outcome) \<Rightarrow> 'r \<Rightarrow> 's hapd_plat
      \<Rightarrow> 'r \<times> wifi_ap_event list \<times> 's hapd_plat" where
  "hapd_call f dflt p =
     (case p of
        Returns (d, m) \<Rightarrow>
          (case f (d\<lparr>hapd_notified := []\<rparr>, m) of
             Returns (r, d, m) \<Rightarrow> (r, hapd_notified d, Returns (d, m))
           | Blocks \<Rightarrow> (dflt, [], Blocks)
           | Crash \<Rightarrow> (dflt, [], Crash))
      | Blocks \<Rightarrow> (dflt, [], Blocks)
      | Crash \<Rightarrow> (dflt, [], Crash))"

definition linux_ap_inf :: "'s wpa_os \<Rightarrow> 's hapd_plat ap_inf" where
  "linux_ap_inf k = \<lparr>
     ap_hapd_init = Some (\<lambda>p. let (r, _, p) = hapd_call (\<lambda>(d, m). let (r, d) = linux_ap_hapd_init k d in Returns (r, d, m)) (- 1) p in (r, p)),
     ap_hapd_deinit = Some (\<lambda>p. snd (hapd_call (\<lambda>(d, m). map_outcome_of (\<lambda>d. ((), d, m)) (outcome_of_option (linux_ap_hapd_deinit k d))) () p)),
     ap_hapd_connect = hapd_call (\<lambda>(d, m). map_outcome_of (\<lambda>(r, d). (r, d, m)) (outcome_of_option (linux_connect_to_hostapd k d))) (- 1),
     ap_hapd_enable = (\<lambda>c. hapd_call (\<lambda>(d, m). map_outcome_of (\<lambda>(r, d). (r, d, m)) (outcome_of_option (linux_ap_hapd_enable k c d))) (- 1)),
     ap_hapd_disable = hapd_call (\<lambda>(d, m). let (r, d) = linux_ap_hapd_disable k d in Returns (r, d, m)) (- 1),
     ap_platform_extension = (\<lambda>req. hapd_call (hapd_platform_extension k req) (- 1))\<rparr>"

end
