(* ===== verification/Linux_Mac.thy ===== *)
theory Linux_Mac
  imports Linux_Common
begin

text \<open>
  When the two functions for the hardware address, which the three platforms share, are defined: the
  name of the interface fits the array it is copied into, and the caller gives six bytes.
\<close>

definition name_fits :: "string \<Rightarrow> bool" where
  "name_fits ifname \<longleftrightarrow> length ifname < 16"

definition six_bytes :: "byte list option \<Rightarrow> bool" where
  "six_bytes mac \<longleftrightarrow> (\<exists>bs. mac = Some bs \<and> 6 \<le> length bs)"

lemma set_mac_defined:
  assumes "name_fits ifname" "six_bytes mac"
  shows "\<exists>ret s'. linux_common_set_mac k ifname mac s = Some (ret, s') \<and> (ret = WMG_STATUS_SUCCESS \<or> ret = WMG_STATUS_FAIL)"
  using assms by (auto simp: linux_common_set_mac_def name_fits_def six_bytes_def fits_def Let_def split: prod.split)

lemma token_bytes_total: "\<exists>bs. token_bytes (\<lambda>t. Some (f t)) ds n s = Some bs \<and> length bs \<le> n"
proof (induction n arbitrary: s)
  case (Suc n)
  show ?case
  proof (cases "strtok ds s")
    case (Some x)
    obtain t r where x: "x = (t, r)" by fastforce
    from Suc[of r] show ?thesis using Some x by auto
  qed simp
qed simp

lemma get_mac_defined:
  assumes "six_bytes mac"
  shows "\<exists>ret mac' s'. linux_common_get_mac k (Some ifname) mac s = Some (ret, mac', s') \<and> six_bytes mac' \<and>
    (ret = WMG_STATUS_SUCCESS \<or> ret = WMG_STATUS_FAIL)"
proof -
  obtain old where old: "mac = Some old" "6 \<le> length old" using assms by (auto simp: six_bytes_def)
  have t: "length (colon_text (take 6 hw)) < 32" for hw :: "byte list"
    using length_colon_text[of "take 6 hw"] by simp
  obtain ok s1 where s1: "os_socket k s = (ok, s1)" by fastforce
  obtain hw s2 where s2: "os_get_hw k (take 15 ifname) s1 = (hw, s2)" by fastforce
  show ?thesis
  proof (cases "ok \<and> hw \<noteq> None")
    case True
    then obtain h where h: "hw = Some h" by auto
    obtain bs where bs: "token_bytes (\<lambda>t. Some (char2uint8 t)) '':'' 6 (colon_text (take 6 h)) = Some bs" "length bs \<le> 6"
      using token_bytes_total by blast
    have "linux_common_get_mac k (Some ifname) mac s = Some (WMG_STATUS_SUCCESS, Some (overlay bs old), s2)"
      using True s1 s2 h t[of h] bs old by (simp add: linux_common_get_mac_def fits_def del: token_bytes.simps)
    moreover have "six_bytes (Some (overlay bs old))" using bs(2) old(2) by (simp add: six_bytes_def overlay_def)
    ultimately show ?thesis by blast
  next
    case False
    then show ?thesis using assms s1 s2 by (auto simp: linux_common_get_mac_def split: option.split)
  qed
qed

end
