(* ===== verification/Hapd_Safety.thy ===== *)
theory Hapd_Safety
  imports Linux_Hapd Linux_Mac Wpa_Properties
begin

text \<open>
  What each function of the access point's platform leaves unchanged, the invariant of its object,
  and that in every state its calls and messages can reach nothing is undefined.
\<close>

section \<open>Frames\<close>

text \<open>A command changes the daemon, and what is still to come by a byte on the exit socket.\<close>

definition hapd_frame :: "'s hapd_dev \<Rightarrow> 's hapd_dev \<Rightarrow> bool" where
  "hapd_frame d d' \<longleftrightarrow>
     (\<exists>s inc. d' = d\<lparr>hapd_os := s, hapd_incoming := inc\<rparr> \<and> set inc \<subseteq> insert Exit_Signal (set (hapd_incoming d)))"

lemma hapd_frame_refl [simp]: "hapd_frame d d"
  unfolding hapd_frame_def by (rule exI[of _ "hapd_os d"], rule exI[of _ "hapd_incoming d"]) auto

lemma hapd_frame_trans: "hapd_frame d d1 \<Longrightarrow> hapd_frame d1 d' \<Longrightarrow> hapd_frame d d'"
  by (fastforce simp: hapd_frame_def)

lemma hapd_frame_os [simp]: "hapd_frame d (d\<lparr>hapd_os := s\<rparr>)"
  unfolding hapd_frame_def by (rule exI[of _ s], rule exI[of _ "hapd_incoming d"]) auto

lemma on_hos_frame: "on_hos f d = (x, d') \<Longrightarrow> hapd_frame d d'"
  by (auto simp: on_hos_def split: prod.splits)

lemma hos_do_frame [simp]: "hapd_frame d (hos_do f d)"
  by (simp add: hos_do_def)

lemma send_hapd_frame: "hapd_send_command k cmd n d = (r, t, d') \<Longrightarrow> hapd_frame d d'"
proof -
  assume *: "hapd_send_command k cmd n d = (r, t, d')"
  obtain ret reply s where q: "os_request k cmd (hapd_os d) = ((ret, reply), s)" by (metis surj_pair)
  obtain p s' where p: "os_pending k s = (p, s')" by fastforce
  have "set (take p xs @ Exit_Signal # drop p xs) = insert Exit_Signal (set xs)" for xs
    by (metis Un_insert_right append_take_drop_id list.simps(15) set_append)
  then have "hapd_frame d (d\<lparr>hapd_os := s', hapd_incoming := take p (hapd_incoming d) @ Exit_Signal # drop p (hapd_incoming d)\<rparr>)"
    unfolding hapd_frame_def by blast
  then show ?thesis
    using * q p by (auto simp: hapd_send_command_def on_hos_def Let_def split: if_splits)
qed

lemma command_hapd_frame: "command_to_hostapd k cmd n d = (r, t, d') \<Longrightarrow> hapd_frame d d'"
  using send_hapd_frame by (fastforce simp: command_to_hostapd_def Let_def split: if_splits prod.splits)

lemma status_frame: "linux_ap_hapd_cmd_status k d = (r, d') \<Longrightarrow> hapd_frame d d'"
  by (auto simp: linux_ap_hapd_cmd_status_def Let_def split: prod.splits if_splits dest: command_hapd_frame)

lemma hapd_disable_frame: "linux_ap_hapd_cmd_disable k d = (r, d') \<Longrightarrow> hapd_frame d d'"
  by (auto simp: linux_ap_hapd_cmd_disable_def split: prod.splits dest: command_hapd_frame)

lemma hapd_enable_frame: "linux_ap_hapd_cmd_enable k d = (r, d') \<Longrightarrow> hapd_frame d d'"
  by (auto simp: linux_ap_hapd_cmd_enable_def split: prod.splits dest: command_hapd_frame)

lemma kill_frame: "kill_process k name d = (r, d') \<Longrightarrow> hapd_frame d d'"
  by (auto simp: kill_process_def on_hos_def hos_do_def split: prod.splits if_splits)

lemma wait_hostapd_frame: "wait_hostapd n k d = (r, d') \<Longrightarrow> hapd_frame d d'"
  by (induction n arbitrary: d)
    (auto simp: on_hos_def hos_do_def split: prod.splits if_splits intro: hapd_frame_trans[OF hapd_frame_os])

lemma start_hostapd_frame: "start_hostapd n k d = (r, d') \<Longrightarrow> hapd_frame d d'"
proof (induction n arbitrary: d)
  case (Suc n)
  obtain v d1 where w: "wait_hostapd 5 k (hos_do (os_system k ''hostapd /data/hostapd.conf &'') d) = (v, d1)" by fastforce
  have f: "hapd_frame d d1" by (rule hapd_frame_trans[OF hos_do_frame wait_hostapd_frame[OF w]])
  show ?case using Suc w f by (auto split: if_splits intro: hapd_frame_trans[OF f])
qed simp

lemma stop_supplicant_frame: "stop_supplicant k d = (r, d') \<Longrightarrow> hapd_frame d d'"
  by (auto simp: stop_supplicant_def on_hos_def hos_do_def split: prod.splits if_splits)

lemma open_hapd_frame: "open_hapd n k d = (r, d') \<Longrightarrow> hapd_frame d d'"
proof (induction n arbitrary: d)
  case 0
  then show ?case by (subst (asm) open_hapd.simps) (auto split: prod.splits if_splits dest: on_hos_frame)
next
  case (Suc n)
  obtain ok d1 where o: "on_hos (os_open k) d = (ok, d1)" by fastforce
  show ?case
  proof (cases ok)
    case True
    then show ?thesis using Suc(2) o by (subst (asm) open_hapd.simps) (auto dest: on_hos_frame)
  next
    case False
    then have "open_hapd n k (hos_do (os_sleep k 100000) d1) = (r, d')"
      using Suc(2) o by (subst (asm) open_hapd.simps) simp
    then show ?thesis
      by (rule hapd_frame_trans[OF hapd_frame_trans[OF on_hos_frame[OF o] hos_do_frame] Suc(1)])
  qed
qed

section \<open>The invariant\<close>

text \<open>
  An initialised object has a list of devices whose addresses fit their arrays, and a handle; one
  that is not has no connection. The two static arrays hold a text.
\<close>

definition hapd_ok :: "'s hapd_dev \<Rightarrow> bool" where
  "hapd_ok d \<longleftrightarrow>
     (if ap_hapd_init_flag d
      then (\<exists>bs h. ap_dev_list d = Devices bs \<and> list_all (\<lambda>b. length b \<le> BSSID_LEN) bs \<and> ap_sta_num d = of_nat (length bs) \<and>
              ap_event_handle d = Some h)
      else \<not> hapd_monitor_conn d \<and> ap_sta_num d = 0) \<and>
     length (global_ssid (global_ap d)) < SSID_MAX_LEN \<and> length (global_psk (global_ap d)) < PSK_MAX_LEN \<and>
     (\<forall>m. Message m \<in> set (hapd_incoming d) \<longrightarrow> length m < EVENT_BUF_SIZE - 1)"

lemma hapd_ok_cmd: "hapd_frame d d' \<Longrightarrow> hapd_ok d \<Longrightarrow> hapd_ok d'"
  by (auto simp: hapd_frame_def hapd_ok_def)

lemma frame_flags:
  assumes "hapd_frame d d'"
  shows "ap_hapd_init_flag d' = ap_hapd_init_flag d" "ap_event_handle d' = ap_event_handle d" "ap_dev_list d' = ap_dev_list d"
    "ap_sta_num d' = ap_sta_num d" "global_ap d' = global_ap d" "hapd_monitor_conn d' = hapd_monitor_conn d"
    "hapd_threads d' = hapd_threads d" "ap_pid d' = ap_pid d" "hapd_notified d' = hapd_notified d"
    "ap_hapd_event_cb d' = ap_hapd_event_cb d" "hapd_ctrl_conn d' = hapd_ctrl_conn d"
  using assms by (auto simp: hapd_frame_def)
section \<open>Each function keeps it\<close>

lemma hapd_init_ok:
  assumes "hapd_ok d" "linux_ap_hapd_init k d = (r, d')"
  shows "hapd_ok d' \<and> hapd_threads d' = hapd_threads d"
  using assms by (auto simp: linux_ap_hapd_init_def on_hos_def hapd_ok_def split: if_splits prod.splits)

text \<open>The connection of an initialised object.\<close>

lemma hapd_ok_conn:
  "hapd_ok d \<Longrightarrow> ap_hapd_init_flag d \<Longrightarrow>
    hapd_ok (d\<lparr>hapd_ctrl_conn := a, hapd_monitor_conn := b, hapd_exit_sockets := c\<rparr>)"
  by (simp add: hapd_ok_def)

lemma socket_path_ok:
  assumes "hapd_ok d" "ap_hapd_init_flag d" "hostapd_connect_on_socket_path k d = (r, d')"
  shows "hapd_ok d' \<and> ap_hapd_init_flag d' \<and> ap_event_handle d' = ap_event_handle d \<and> hapd_threads d' = hapd_threads d"
proof -
  obtain ok d1 where o: "open_hapd 30 k d = (ok, d1)" by fastforce
  note f = open_hapd_frame[OF o]
  have d1: "hapd_ok d1" "ap_hapd_init_flag d1" "ap_event_handle d1 = ap_event_handle d" "hapd_threads d1 = hapd_threads d"
    using hapd_ok_cmd[OF f assms(1)] frame_flags[OF f] assms(2) by simp_all
  then show ?thesis
    using assms(3) o
    by (auto simp: hostapd_connect_on_socket_path_def on_hos_def hapd_ok_def Let_def split: prod.splits if_splits option.splits)
qed

definition returns_ok :: "(int \<times> 's hapd_dev) option \<Rightarrow> bool" where
  "returns_ok r \<longleftrightarrow> (\<exists>ret d. r = Some (ret, d) \<and> hapd_ok d)"

lemma returns_ok_Some [simp]: "returns_ok (Some (r, d)) \<longleftrightarrow> hapd_ok d"
  by (simp add: returns_ok_def)

lemma start_thread_ok:
  assumes "hapd_ok d" "ap_hapd_init_flag d"
  shows "returns_ok (hapd_start_thread k d)"
proof -
  obtain h where h: "ap_event_handle d = Some h" using assms by (auto simp: hapd_ok_def)
  obtain sp s1 where s1: "os_socketpair k (hapd_os d) = (sp, s1)" by fastforce
  obtain r h1 where h1: "evt_socket_init sp h = (r, h1)" by fastforce
  obtain r2 h2 where h2: "evt_socket_clear h1 = (r2, h2)" by fastforce
  obtain ok s2 where s2: "os_thread k s1 = (ok, s2)" by fastforce
  have e: "on_hos (os_socketpair k) d = (sp, d\<lparr>hapd_os := s1\<rparr>)"
    "on_hos (os_thread k) (d\<lparr>hapd_os := s1, ap_event_handle := Some h2\<rparr>) = (ok, d\<lparr>hapd_os := s2, ap_event_handle := Some h2\<rparr>)"
    using s1 s2 by (simp_all add: on_hos_def)
  have k: "hapd_ok (d\<lparr>hapd_os := s, ap_event_handle := Some x\<rparr>)" "hapd_ok (hapd_close_sockets (d\<lparr>hapd_os := s, ap_event_handle := Some x\<rparr>))"
    "hapd_ok (d\<lparr>hapd_os := s, ap_event_handle := Some x, ap_pid := p, hapd_threads := n\<rparr>)" for s x p n
    using assms by (auto simp: hapd_ok_def hapd_close_sockets_def)
  show ?thesis using h h1 h2 e k by (simp add: hapd_start_thread_def Let_def)
qed

lemma hapd_connect_ok:
  assumes "hapd_ok d" "ap_hapd_init_flag d"
  shows "returns_ok (linux_connect_to_hostapd k d)"
proof -
  obtain ok1 d1 where s1: "stop_supplicant k d = (ok1, d1)" by fastforce
  obtain e d2 where s2: "on_hos (check_process_is_exist k ''hostapd'' 7) d1 = (e, d2)" by fastforce
  obtain st d3 where s3: "(if e = 0 then start_hostapd 2 k d2 else (0, d2)) = (st, d3)" by fastforce
  obtain there d4 where s4: "on_hos (os_access k ''/var/run/hostapd'') d3 = (there, d4)" by fastforce
  obtain r5 d5 where s5: "hostapd_connect_on_socket_path k d4 = (r5, d5)" by fastforce
  have f3: "hapd_frame d2 d3" using s3 start_hostapd_frame by (auto split: if_splits)
  have f: "hapd_frame d d3"
    by (rule hapd_frame_trans[OF hapd_frame_trans[OF stop_supplicant_frame[OF s1] on_hos_frame[OF s2]] f3])
  note f4 = hapd_frame_trans[OF f on_hos_frame[OF s4]]
  have ok: "hapd_ok d1" "hapd_ok d3" "hapd_ok d4"
    using hapd_ok_cmd[OF stop_supplicant_frame[OF s1] assms(1)] hapd_ok_cmd[OF f assms(1)] hapd_ok_cmd[OF f4 assms(1)] by simp_all
  have d5: "hapd_ok d5" "ap_hapd_init_flag d5"
    using socket_path_ok[OF ok(3) _ s5] frame_flags(1)[OF f4] assms(2) by auto
  show ?thesis
    using ok d5 start_thread_ok[OF d5, of k] s1 s2 s3 s4 s5 by (simp add: linux_connect_to_hostapd_def)
qed

text \<open>A configuration whose texts the arrays have room for.\<close>

definition config_fits :: "wifi_ap_config \<Rightarrow> bool" where
  "config_fits c \<longleftrightarrow> (\<forall>s. ap_ssid c = Some s \<longrightarrow> length s < SSID_MAX_LEN) \<and> (\<forall>p. ap_psk c = Some p \<longrightarrow> length p < PSK_MAX_LEN) \<and>
     (ap_sec c = WIFI_SEC_WEP \<longrightarrow> ap_psk c \<noteq> None)"

lemma hapd_then_ok:
  assumes "length cmd \<le> CMD_MAX_LEN" "hapd_ok d" "\<And>e. hapd_ok e \<Longrightarrow> returns_ok (g e)"
  shows "returns_ok (hapd_then k cmd g d)"
proof -
  obtain r t d1 where c: "command_to_hostapd k cmd EVENT_BUF_SIZE d = (r, t, d1)" by (metis surj_pair)
  have "hapd_ok d1" by (rule hapd_ok_cmd[OF command_hapd_frame[OF c] assms(2)])
  then show ?thesis using assms(1,3) c by (simp add: hapd_then_def fits_def)
qed

lemma keep_config_ok: "config_fits c \<Longrightarrow> hapd_ok d \<Longrightarrow> returns_ok (keep_config c d)"
  by (cases "ap_ssid c"; cases "ap_psk c") (auto simp: keep_config_def config_fits_def fits_def hapd_ok_def)

lemma set_passphrase_ok:
  assumes "length wpa \<le> 10" "\<And>p. psk = Some p \<Longrightarrow> length p < PSK_MAX_LEN" "\<And>e. hapd_ok e \<Longrightarrow> returns_ok (g e)" "hapd_ok d"
  shows "returns_ok (set_passphrase k wpa psk g d)"
  using assms by (cases psk) (auto simp: set_passphrase_def intro!: hapd_then_ok)

lemma set_security_ok:
  assumes "config_fits c" "hapd_ok d" "\<And>e. hapd_ok e \<Longrightarrow> returns_ok (g e)"
  shows "returns_ok (set_security k c g d)"
proof (cases "ap_sec c")
  case WIFI_SEC_WEP
  then obtain p where "ap_psk c = Some p" "length p < PSK_MAX_LEN" using assms(1) by (auto simp: config_fits_def)
  then show ?thesis using WIFI_SEC_WEP assms(2,3) by (auto simp: set_security_def intro!: hapd_then_ok)
next
  case WIFI_SEC_NONE
  then show ?thesis using assms(2,3) by (auto simp: set_security_def intro!: hapd_then_ok)
qed (use assms in \<open>auto simp: set_security_def config_fits_def intro!: set_passphrase_ok\<close>)

lemma set_config_ok:
  assumes "hapd_ok d" "\<And>c. cfg = Some c \<Longrightarrow> config_fits c"
  shows "returns_ok (linux_ap_hapd_set_config k cfg d)"
proof (cases "\<exists>c ssid. cfg = Some c \<and> ap_ssid c = Some ssid")
  case False
  then show ?thesis using assms(1) by (auto simp: linux_ap_hapd_set_config_def split: option.split)
next
  case True
  then obtain c ssid where c: "cfg = Some c" "ap_ssid c = Some ssid" by blast
  have fit: "config_fits c" "length ssid < SSID_MAX_LEN" using assms(2)[OF c(1)] c(2) by (auto simp: config_fits_def)
  have "length (dec (unat (ap_channel c))) \<le> 2" if "ap_channel c < 14"
  proof -
    have "unat (ap_channel c) < 14" using that by (simp add: word_less_nat_alt)
    then show ?thesis using length_dec_le[of "unat (ap_channel c)" 2] by simp
  qed
  then show ?thesis
    using c fit by (auto simp: linux_ap_hapd_set_config_def intro!: hapd_then_ok set_security_ok keep_config_ok assms(1))
qed

lemma hapd_enable_ok:
  assumes "hapd_ok d" "\<And>c. cfg = Some c \<Longrightarrow> config_fits c"
  shows "returns_ok (linux_ap_hapd_enable k cfg d)"
proof -
  obtain st d1 where s: "linux_ap_hapd_cmd_status k d = (st, d1)" by fastforce
  obtain r d2 where r: "(if st = 0 then linux_ap_hapd_cmd_disable k d1 else (0, d1)) = (r, d2)" by fastforce
  have "hapd_frame d1 d2" using r hapd_disable_frame by (auto split: if_splits)
  then have d2: "hapd_ok d2" by (rule hapd_ok_cmd[OF hapd_frame_trans[OF status_frame[OF s]] assms(1)])
  obtain r3 d3 where d3: "linux_ap_hapd_set_config k cfg d2 = Some (r3, d3)" "hapd_ok d3"
    using set_config_ok[OF d2, of cfg k] assms(2) by (auto simp: returns_ok_def)
  obtain r4 d4 where e: "linux_ap_hapd_cmd_enable k d3 = (r4, d4)" by fastforce
  have "hapd_ok d4" by (rule hapd_ok_cmd[OF hapd_enable_frame[OF e] d3(2)])
  moreover have "hapd_ok (hos_do f x)" if "hapd_ok x" for f and x :: "'a hapd_dev" by (rule hapd_ok_cmd[OF hos_do_frame that])
  ultimately show ?thesis using s r d2 d3 e by (simp add: linux_ap_hapd_enable_def Let_def)
qed
lemma hapd_off_ok:
  assumes "hapd_ok d" "linux_ap_hapd_disable k d = (r, d')"
  shows "hapd_ok d'"
proof -
  obtain st d1 where s: "linux_ap_hapd_cmd_status k d = (st, d1)" by fastforce
  obtain v d2 where v: "linux_ap_hapd_cmd_disable k d1 = (v, d2)" by fastforce
  have "hapd_ok d1" "hapd_ok d2"
    using hapd_ok_cmd[OF status_frame[OF s] assms(1)] hapd_ok_cmd[OF hapd_frame_trans[OF status_frame[OF s] hapd_disable_frame[OF v]] assms(1)]
    by simp_all
  moreover have "hapd_ok (hos_do f x)" if "hapd_ok x" for f and x :: "'a hapd_dev" by (rule hapd_ok_cmd[OF hos_do_frame that])
  ultimately show ?thesis using assms(2) s v by (auto simp: linux_ap_hapd_disable_def split: if_splits)
qed

lemma hapd_get_ok: "linux_ap_hapd_get_config k c d = Some (r, c', d') \<Longrightarrow> hapd_frame d d'"
  by (auto simp: linux_ap_hapd_get_config_def bind_eq_Some_conv split: prod.splits if_splits option.splits dest: command_hapd_frame)

text \<open>After the kill and the pause, hostapd is gone.\<close>

definition killable :: "'s wpa_os \<Rightarrow> bool" where
  "killable k \<longleftrightarrow> (\<forall>s. fst (check_process_is_exist k ''hostapd'' 7
     (os_sleep k 1000000 (os_system k ''pidof hostapd | xargs kill -9'' s))) \<noteq> 1)"

lemma killable_kills:
  assumes "killable k" "kill_process k ''hostapd'' d = (r, d')"
  shows "r \<noteq> - 1"
proof -
  obtain e s1 where e: "check_process_is_exist k ''hostapd'' 7 (hapd_os d) = (e, s1)" by fastforce
  obtain e2 s2 where e2: "check_process_is_exist k ''hostapd'' 7
      (os_sleep k 1000000 (os_system k ''pidof hostapd | xargs kill -9'' s1)) = (e2, s2)" by fastforce
  have "e2 \<noteq> 1" using assms(1) e2 unfolding killable_def by (metis fst_conv)
  then show ?thesis
    using assms(2) e e2 by (auto simp: kill_process_def on_hos_def hos_do_def split: if_splits)
qed

lemma hapd_release_effect:
  assumes "ap_dev_list d = Devices bs" "ap_event_handle d = Some h"
  shows "\<exists>d2. hapd_release d = Some d2 \<and> global_ap d2 = global_ap d \<and> ap_sta_num d2 = 0 \<and> \<not> hapd_monitor_conn d2 \<and>
    hapd_incoming d2 = hapd_incoming d \<and> ap_dev_list d2 = Freed_List \<and> ap_hapd_init_flag d2 = ap_hapd_init_flag d \<and>
    hapd_threads d2 = (if ap_pid d then hapd_threads d - 1 else hapd_threads d) \<and> hapd_os d2 = hapd_os d"
  using assms by (cases "ap_pid d") (simp_all add: hapd_release_def free_devices_def hapd_close_sockets_def Let_def)

lemma hapd_deinit_ok:
  assumes "hapd_ok d"
  shows "\<exists>d'. linux_ap_hapd_deinit k d = Some d' \<and> (killable k \<longrightarrow> hapd_ok d')"
proof (cases "ap_hapd_init_flag d")
  case True
  then obtain bs h where bs: "ap_dev_list d = Devices bs" "ap_event_handle d = Some h" using assms by (auto simp: hapd_ok_def)
  then obtain d2 where d2: "hapd_release d = Some d2" "global_ap d2 = global_ap d" "ap_sta_num d2 = 0" "\<not> hapd_monitor_conn d2"
    "hapd_incoming d2 = hapd_incoming d"
    using hapd_release_effect by blast
  obtain r d3 where k1: "kill_process k ''hostapd'' d2 = (r, d3)" by fastforce
  let ?d3 = "if r = 1 then d3\<lparr>ap_hapd_exist := False\<rparr> else d3"
  obtain r4 d4 where k2: "kill_process k ''dnsmasq'' ?d3 = (r4, d4)" by fastforce
  have d3: "global_ap d3 = global_ap d" "ap_sta_num d3 = 0" "\<not> hapd_monitor_conn d3"
    "\<forall>m. Message m \<in> set (hapd_incoming d3) \<longrightarrow> Message m \<in> set (hapd_incoming d)"
    using kill_frame[OF k1] d2 by (auto simp: hapd_frame_def)
  have d4: "global_ap d4 = global_ap d" "ap_sta_num d4 = 0" "\<not> hapd_monitor_conn d4"
    "\<forall>m. Message m \<in> set (hapd_incoming d4) \<longrightarrow> Message m \<in> set (hapd_incoming d)"
    using kill_frame[OF k2] d3 by (auto simp: hapd_frame_def split: if_splits)
  let ?d5 = "(hos_do (os_system k ''ifconfig wlan0 down'') d4)\<lparr>ap_event_handle := None, ap_hapd_event_cb := False, ap_hapd_init_flag := False\<rparr>"
  have "linux_ap_hapd_deinit k d = (if r = - 1 then Some d3 else Some ?d5)"
    using True d2(1) k1 k2 by (simp add: linux_ap_hapd_deinit_def)
  moreover have "r \<noteq> - 1" if "killable k" using killable_kills[OF that k1] .
  moreover have "hapd_ok ?d5" using assms d4 by (auto simp: hapd_ok_def hos_do_def)
  ultimately show ?thesis by auto
qed (use assms in \<open>simp add: linux_ap_hapd_deinit_def\<close>)

section \<open>Messages\<close>

definition never_crashes :: "(int \<times> 's hapd_dev) outcome \<Rightarrow> bool" where
  "never_crashes r \<longleftrightarrow> r \<noteq> Crash \<and> (\<forall>ret d. r = Returns (ret, d) \<longrightarrow> hapd_ok d)"

lemma hapd_notify_ok:
  assumes "hapd_ok d" "ap_hapd_init_flag d"
  shows "never_crashes (map_outcome_of (Pair 0) (hapd_event_notify e d))"
proof -
  obtain h where h: "ap_event_handle d = Some h" using assms by (auto simp: hapd_ok_def)
  have "hapd_ok (hapd_event_notify_to_ap_dev e (d\<lparr>ap_event_handle := Some h'\<rparr>))" for h'
    using assms by (auto simp: hapd_ok_def hapd_event_notify_to_ap_dev_def)
  then show ?thesis
    using h by (cases "evt_send (ap_event_num e) h") (auto simp: never_crashes_def hapd_event_notify_def evt_send_def split: if_splits)
qed

lemma unlink_length:
  "unlink_device a bs = (r, bs') \<Longrightarrow> list_all (\<lambda>b. length b \<le> n) bs \<Longrightarrow>
    list_all (\<lambda>b. length b \<le> n) bs' \<and> length bs = (if r = 0 then Suc (length bs') else length bs')"
proof (induction bs arbitrary: r bs')
  case (Cons p ps)
  obtain r1 ps1 where "unlink_device a ps = (r1, ps1)" by fastforce
  then show ?case using Cons by (auto split: if_splits)
qed simp

lemma hapd_dispatch_ok:
  assumes "hapd_ok d" "ap_hapd_init_flag d"
  shows "never_crashes (hapd_dispatch_event k s d)"
proof -
  obtain bs where bs: "ap_dev_list d = Devices bs" "list_all (\<lambda>b. length b \<le> BSSID_LEN) bs" "ap_sta_num d = of_nat (length bs)"
    using assms by (auto simp: hapd_ok_def)
  have n: "never_crashes (map_outcome_of (Pair 0) (hapd_event_notify e d))" for e by (rule hapd_notify_ok[OF assms])
  have id: "never_crashes (Returns (0, d))" using assms(1) by (simp add: never_crashes_def)
  have add: "never_crashes (bind_outcome (outcome_of_option (Option.bind
      (map_option (\<lambda>(ret, d). if ret = 0 then d\<lparr>ap_sta_num := ap_sta_num d + 1\<rparr> else d) (wmg_sta_device_add k a d))
      wmg_sta_device_print)) (\<lambda>d. map_outcome_of (Pair 0) (hapd_event_notify e d)))" for a e
  proof -
    obtain ok s where m: "os_malloc k (hapd_os d) = (ok, s)" by fastforce
    let ?d = "if ok then d\<lparr>hapd_os := s, ap_dev_list := Devices (take BSSID_LEN a # bs), ap_sta_num := ap_sta_num d + 1\<rparr> else d\<lparr>hapd_os := s\<rparr>"
    have "hapd_ok ?d" "ap_hapd_init_flag ?d" using assms bs by (auto simp: hapd_ok_def)
    from hapd_notify_ok[OF this, of e] show ?thesis
      using m bs(1) by (auto simp: wmg_sta_device_add_def wmg_sta_device_print_def on_hos_def split: if_splits)
  qed
  have rem: "never_crashes (bind_outcome (outcome_of_option (Option.bind
      (map_option (\<lambda>(ret, d). if ret = 0 then d\<lparr>ap_sta_num := ap_sta_num d - 1\<rparr> else d) (wmg_sta_device_remove a d))
      wmg_sta_device_print)) (\<lambda>d. map_outcome_of (Pair 0) (hapd_event_notify e d)))" for a e
  proof -
    obtain r bs' where u: "unlink_device a bs = (r, bs')" by fastforce
    note l = unlink_length[OF u bs(2)]
    let ?d = "if r = 0 then d\<lparr>ap_dev_list := Devices bs', ap_sta_num := ap_sta_num d - 1\<rparr> else d\<lparr>ap_dev_list := Devices bs'\<rparr>"
    have "hapd_ok ?d" "ap_hapd_init_flag ?d" using assms bs l by (auto simp: hapd_ok_def)
    from hapd_notify_ok[OF this, of e] show ?thesis
      using u bs(1) by (auto simp: wmg_sta_device_remove_def wmg_sta_device_print_def split: if_splits)
  qed
  show ?thesis
    unfolding hapd_dispatch_event_def Let_def
    by (simp add: n id add rem split: option.split)
qed
text \<open>Without a connection a round does nothing: the notice that it is closed says nothing to the dispatcher.\<close>

lemma closed_text:
  "strstr ''AP-ENABLED'' (''CTRL-EVENT-TERMINATING '' @ '' - connection closed'') = None"
  "strstr ''AP-DISABLED'' (''CTRL-EVENT-TERMINATING '' @ '' - connection closed'') = None"
  "strstr ''AP-STA-CONNECTED'' (''CTRL-EVENT-TERMINATING '' @ '' - connection closed'') = None"
  "strstr ''AP-STA-DISCONNECTED'' (''CTRL-EVENT-TERMINATING '' @ '' - connection closed'') = None"
  by (simp_all add: strstr.simps starts_def)

lemma closed_dispatch: "hapd_dispatch_event k (''CTRL-EVENT-TERMINATING '' @ '' - connection closed'') d = Returns (0, d)"
  by (simp only: hapd_dispatch_event_def Let_def closed_text) simp

lemma closed_round:
  assumes "\<not> hapd_monitor_conn d"
  shows "hapd_event_round k d = Returns d"
  using assms closed_dispatch[of k d] by (simp add: hapd_event_round_def hapd_wait_on_socket_def fabricated_def c_true_def)

lemma hapd_wait_ok:
  assumes "hapd_ok d"
  shows "hapd_wait_on_socket d \<noteq> Crash \<and>
    (\<forall>r d'. hapd_wait_on_socket d = Returns (r, d') \<longrightarrow> (\<exists>inc. d' = d\<lparr>hapd_incoming := inc\<rparr> \<and> set inc \<subseteq> set (hapd_incoming d)))"
proof (cases "hapd_monitor_conn d")
  case False
  then have "hapd_wait_on_socket d = Returns (fabricated '' - connection closed'', d)" by (simp add: hapd_wait_on_socket_def)
  then show ?thesis by (auto intro!: exI[of _ "hapd_incoming d"])
next
  case True
  show ?thesis
  proof (cases "dropWhile (\<lambda>i. i = Quiet) (hapd_incoming d)")
    case Nil
    then have "hapd_wait_on_socket d = Blocks" using True by (simp only: hapd_wait_on_socket_def simp_thms if_False list.case)
    then show ?thesis by simp
  next
    case (Cons item rest)
    then have sub: "set (item # rest) \<subseteq> set (hapd_incoming d)" by (metis set_dropWhileD subsetI)
    have fits: "strip_level buf \<noteq> None" if "wifi_ctrl_recv item = (result, buf)" "\<not> result < 0" for result buf
    proof (cases item)
      case (Message m)
      then have "length m < EVENT_BUF_SIZE - 1" using assms sub by (auto simp: hapd_ok_def split: if_splits)
      then have "length buf < EVENT_BUF_SIZE - 1" using that Message by auto
      then show ?thesis by (auto simp: strip_level_def split: option.splits prod.splits)
    qed (use that in auto)
    have inc: "\<exists>inc. d\<lparr>hapd_incoming := (if item = Exit_Signal then item # rest else rest)\<rparr> = d\<lparr>hapd_incoming := inc\<rparr> \<and>
        set inc \<subseteq> set (hapd_incoming d)" 
      by (rule exI[of _ "if item = Exit_Signal then item # rest else rest"]) (use sub in auto)
    obtain result buf where r: "wifi_ctrl_recv item = (result, buf)" by fastforce
    let ?d = "d\<lparr>hapd_incoming := (if item = Exit_Signal then item # rest else rest)\<rparr>"
    have "hapd_wait_on_socket d =
      (if result = - 2 then Returns (fabricated '' - connection closed'', ?d)
       else if result < 0 then Returns (fabricated '' - recv error'', ?d)
       else if result = 0 \<and> length buf = 0 then Returns (fabricated '' - signal 0 received'', ?d)
       else (case strip_level buf of None \<Rightarrow> Crash | Some r \<Rightarrow> Returns (r, ?d)))"
      using True Cons r by (simp only: hapd_wait_on_socket_def simp_thms if_False list.case Let_def prod.case)
    then consider x where "hapd_wait_on_socket d = Returns (x, ?d)"
      | "\<not> result < 0" "hapd_wait_on_socket d = (case strip_level buf of None \<Rightarrow> Crash | Some r \<Rightarrow> Returns (r, ?d))"
      by (auto split: if_splits)
    then show ?thesis
    proof cases
      case 1
      then show ?thesis using inc by auto
    next
      case 2
      then obtain x where "strip_level buf = Some x" using fits[OF r] by auto
      then show ?thesis using 2 inc by auto
    qed
  qed
qed

lemma hapd_round_ok:
  assumes "hapd_ok d"
  shows "hapd_event_round k d \<noteq> Crash \<and> (\<forall>d'. hapd_event_round k d = Returns d' \<longrightarrow> hapd_ok d')"
proof (cases "ap_hapd_init_flag d")
  case False
  then have "\<not> hapd_monitor_conn d" using assms by (simp add: hapd_ok_def)
  then show ?thesis using closed_round[of d k] assms by simp
next
  case True
  show ?thesis
  proof (cases "hapd_wait_on_socket d")
    case (Returns x)
    obtain n s d1 where x: "x = ((n, s), d1)" by (metis surj_pair)
    obtain inc where d1: "d1 = d\<lparr>hapd_incoming := inc\<rparr>" "set inc \<subseteq> set (hapd_incoming d)"
      using hapd_wait_ok[OF assms] Returns x by blast
    then have ok: "hapd_ok d1" "ap_hapd_init_flag d1" using assms True by (auto simp: hapd_ok_def)
    have t: "hapd_ok (e\<lparr>hapd_threads := j\<rparr>)" if "hapd_ok e" for e :: "'a hapd_dev" and j using that by (auto simp: hapd_ok_def)
    show ?thesis
      using Returns x ok(1) hapd_dispatch_ok[OF ok, of k s] t
      by (cases "hapd_dispatch_event k s d1") (auto simp: hapd_event_round_def never_crashes_def)
  qed (use hapd_wait_ok[OF assms] in \<open>auto simp: hapd_event_round_def\<close>)
qed

section \<open>Reachable states\<close>

text \<open>
  What the access point object and the thread do to the platform, in any order: calls as the
  object makes them (it connects only what is initialised), and rounds of the thread. Messages
  arrive at any time and are shorter than the buffer; the calls for the hardware address, and the
  system by itself, change the system's state. A call is one step: what a message does to one that is
  under way is said where it matters.
\<close>

inductive hapd_step :: "'s wpa_os \<Rightarrow> 's hapd_dev \<Rightarrow> 's hapd_dev \<Rightarrow> bool" for k where
  step_init: "linux_ap_hapd_init k d = (r, d') \<Longrightarrow> hapd_step k d d'"
| step_connect: "ap_hapd_init_flag d \<Longrightarrow> linux_connect_to_hostapd k d = Some (r, d') \<Longrightarrow> hapd_step k d d'"
| step_enable: "(\<And>c. cfg = Some c \<Longrightarrow> config_fits c) \<Longrightarrow> linux_ap_hapd_enable k cfg d = Some (r, d') \<Longrightarrow> hapd_step k d d'"
| step_disable: "linux_ap_hapd_disable k d = (r, d') \<Longrightarrow> hapd_step k d d'"
| step_get: "linux_ap_hapd_get_config k c d = Some (r, c', d') \<Longrightarrow> hapd_step k d d'"
| step_deinit: "linux_ap_hapd_deinit k d = Some d' \<Longrightarrow> hapd_step k d d'"
| step_round: "hapd_event_round k d = Returns d' \<Longrightarrow> hapd_step k d d'"
| step_system: "hapd_step k d (d\<lparr>hapd_os := s\<rparr>)"
| step_message: "length m < EVENT_BUF_SIZE - 1 \<Longrightarrow> hapd_step k d (d\<lparr>hapd_incoming := hapd_incoming d @ [Message m]\<rparr>)"

inductive hapd_reachable :: "'s wpa_os \<Rightarrow> 's \<Rightarrow> 's hapd_dev \<Rightarrow> bool" for k s where
  hapd_start: "hapd_reachable k s (hapd_inf_static [] s)"
| hapd_next: "hapd_reachable k s d \<Longrightarrow> hapd_step k d d' \<Longrightarrow> hapd_reachable k s d'"

lemma hapd_step_ok: "hapd_step k d d' \<Longrightarrow> killable k \<Longrightarrow> hapd_ok d \<Longrightarrow> hapd_ok d'"
proof (induction rule: hapd_step.induct)
  case (step_connect d r d')
  then show ?case using hapd_connect_ok[of d k] by (simp add: returns_ok_def)
next
  case (step_enable cfg d r d')
  then show ?case using hapd_enable_ok[of d cfg k] by (simp add: returns_ok_def)
next
  case (step_deinit d d')
  then show ?case using hapd_deinit_ok[of d k] by auto
next
  case (step_message m d)
  then show ?case by (auto simp: hapd_ok_def)
next
  case (step_system d s)
  then show ?case by (metis hapd_ok_cmd hapd_frame_os)
qed (use hapd_init_ok hapd_off_ok hapd_get_ok hapd_ok_cmd hapd_round_ok in \<open>blast+\<close>)

lemma hapd_reachable_ok: "hapd_reachable k s d \<Longrightarrow> killable k \<Longrightarrow> hapd_ok d"
proof (induction rule: hapd_reachable.induct)
  case hapd_start
  then show ?case by (simp add: hapd_ok_def hapd_inf_static_def)
qed (blast intro: hapd_step_ok)

text \<open>
  C17. The platform's object is well formed in every state that calls and messages can reach, as long
  as a hostapd that is killed is gone: an initialised object has its list, with addresses that fit
  their arrays and as many as it counts, and its handle; one that is not has no connection and
  counts none; the static arrays hold their texts with the NUL.
\<close>

theorem hapd_reachable_typed:
  assumes "hapd_reachable k s d" "killable k"
  shows "(if ap_hapd_init_flag d
      then \<exists>bs h. ap_dev_list d = Devices bs \<and> (\<forall>b \<in> set bs. length b < 48) \<and> ap_sta_num d = of_nat (length bs) \<and>
             ap_event_handle d = Some h
      else \<not> hapd_monitor_conn d \<and> ap_sta_num d = 0) \<and>
    length (global_ssid (global_ap d)) < 64 \<and> length (global_psk (global_ap d)) < 32"
  using hapd_reachable_ok[OF assms] by (fastforce simp: hapd_ok_def list_all_iff split: if_splits)

text \<open>A kernel with hostapd running, where a kill works.\<close>

definition lab :: "string list wpa_os" where
  "lab = (recorder (\<lambda>_. ''OK''))\<lparr>os_system := \<lambda>cmd log. log @ [cmd],
     os_popen := \<lambda>cmd log. (Some (if cmd = ''ps | grep hostapd | grep -v grep'' \<and> log = [] then 1 else 0), log)\<rparr>"

lemma lab_killable: "killable lab"
  by (simp add: killable_def lab_def recorder_def check_process_is_exist_def)

definition lab_up :: "string list hapd_dev" where
  "lab_up = snd (the (linux_connect_to_hostapd lab (snd (linux_ap_hapd_init lab (hapd_inf_static [] [])))))"

lemma lab_up_reachable: "hapd_reachable lab [] lab_up" "ap_hapd_init_flag lab_up" "hapd_monitor_conn lab_up"
proof -
  obtain r d where i: "linux_ap_hapd_init lab (hapd_inf_static [] []) = (r, d)" by fastforce
  have d: "hapd_reachable lab [] d" by (rule hapd_next[OF hapd_start step_init[OF i]])
  have f: "ap_hapd_init_flag d" using i by (auto simp: linux_ap_hapd_init_def hapd_inf_static_def on_hos_def lab_def recorder_def)
  obtain r2 d2 where c: "linux_connect_to_hostapd lab d = Some (r2, d2)"
    using hapd_connect_ok[OF hapd_reachable_ok[OF d lab_killable] f, of lab] by (auto simp: returns_ok_def)
  have "lab_up = d2" using i c by (simp add: lab_up_def)
  then show "hapd_reachable lab [] lab_up" using hapd_next[OF d step_connect[OF f c]] by simp
  show "ap_hapd_init_flag lab_up" "hapd_monitor_conn lab_up"
    by (simp_all add: lab_up_def linux_connect_to_hostapd_def linux_ap_hapd_init_def hapd_inf_static_def on_hos_def hos_do_def lab_def
        recorder_def stop_supplicant_def check_process_is_exist_def hostapd_connect_on_socket_path_def open_hapd.simps
        hapd_start_thread_def evt_socket_init_def evt_socket_clear_def)
qed

theorem hapd_reachable_typed_witness:
  "\<exists>bs h. ap_dev_list lab_up = Devices bs \<and> (\<forall>b \<in> set bs. length b < 48) \<and> ap_sta_num lab_up = of_nat (length bs) \<and>
     ap_event_handle lab_up = Some h"
  using hapd_reachable_typed[OF lab_up_reachable(1) lab_killable] lab_up_reachable(2) by simp

end
