(* ===== verification/Hapd_Messages.thy ===== *)
theory Hapd_Messages
  imports Hapd_Safety Wpa_Messages
begin

text \<open>
  The listening thread of the access point over many messages: the list of devices it keeps, the
  events it reports, where it gets stuck and how it goes on for ever.
\<close>

section \<open>What hostapd says\<close>

text \<open>
  The messages of \<open>hostapd\<close> that the thread reacts to, with the address of the device, and every
  other message.
\<close>

datatype ap_report = Ap_Started | Ap_Stopped | Joined string | Left string | Other_Report string

fun report_text :: "ap_report \<Rightarrow> string" where
  "report_text Ap_Started = ''<3>AP-ENABLED ''"
| "report_text Ap_Stopped = ''<3>AP-DISABLED ''"
| "report_text (Joined a) = ''<3>AP-STA-CONNECTED '' @ a"
| "report_text (Left a) = ''<3>AP-STA-DISCONNECTED '' @ a"
| "report_text (Other_Report m) = m"

definition address :: "string \<Rightarrow> bool" where
  "address a \<longleftrightarrow> length a \<le> BSSID_LEN \<and> set a \<subseteq> set ''0123456789abcdef:''"

definition silent_text :: "string \<Rightarrow> bool" where
  "silent_text s \<longleftrightarrow> strstr ''AP-ENABLED'' s = None \<and> strstr ''AP-DISABLED'' s = None \<and>
     strstr ''AP-STA-CONNECTED'' s = None \<and> strstr ''AP-STA-DISCONNECTED'' s = None"

fun report_ok :: "ap_report \<Rightarrow> bool" where
  "report_ok (Joined a) = address a"
| "report_ok (Left a) = address a"
| "report_ok (Other_Report m) = (m \<noteq> [] \<and> length m < EVENT_BUF_SIZE - 1 \<and> (\<exists>n s. strip_level m = Some (n, s) \<and> silent_text s))"
| "report_ok _ = True"

section \<open>What should follow\<close>

fun members :: "ap_report \<Rightarrow> string list \<Rightarrow> string list" where
  "members (Joined a) bs = a # bs"
| "members (Left a) bs = remove1 a bs"
| "members _ bs = bs"

fun report_event :: "ap_report \<Rightarrow> wifi_ap_event option" where
  "report_event Ap_Started = Some WIFI_AP_ENABLED"
| "report_event Ap_Stopped = Some WIFI_AP_DISABLED"
| "report_event (Joined _) = Some WIFI_AP_STA_CONNECTED"
| "report_event (Left _) = Some WIFI_AP_STA_DISCONNECTED"
| "report_event (Other_Report _) = None"

fun report_events :: "ap_report list \<Rightarrow> wifi_ap_event list" where
  "report_events [] = []"
| "report_events (r # rs) = (case report_event r of None \<Rightarrow> report_events rs | Some e \<Rightarrow> e # report_events rs)"

section \<open>Reading the messages\<close>

lemma strstr_absent: "c \<in> set w \<Longrightarrow> c \<notin> set s \<Longrightarrow> strstr w s = None"
  by (auto simp: strstr_None)

lemma address_chars:
  assumes "address a"
  shows "CHR ''L'' \<notin> set a" "CHR ''A'' \<notin> set a" "CHR '' '' \<notin> set a" "CHR ''>'' \<notin> set a"
  using assms by (auto simp: address_def)

lemma joined_text:
  assumes "address a"
  shows "strstr ''AP-ENABLED'' (''AP-STA-CONNECTED '' @ a) = None" "strstr ''AP-DISABLED'' (''AP-STA-CONNECTED '' @ a) = None"
    "strstr ''AP-STA-CONNECTED'' (''AP-STA-CONNECTED '' @ a) \<noteq> None"
    "strchr (CHR '' '') (''AP-STA-CONNECTED '' @ a) = Some (''AP-STA-CONNECTED'', a)"
proof -
  show "strstr ''AP-ENABLED'' (''AP-STA-CONNECTED '' @ a) = None"
    by (rule strstr_absent[of "CHR ''L''"]) (use address_chars[OF assms] in simp_all)
  show "strstr ''AP-DISABLED'' (''AP-STA-CONNECTED '' @ a) = None"
    by (rule strstr_absent[of "CHR ''L''"]) (use address_chars[OF assms] in simp_all)
  show "strstr ''AP-STA-CONNECTED'' (''AP-STA-CONNECTED '' @ a) \<noteq> None"
    by (subst strstr.simps) (simp add: starts_def)
qed (simp add: strchr_def)

lemma left_text:
  assumes "address a"
  shows "strstr ''AP-ENABLED'' (''AP-STA-DISCONNECTED '' @ a) = None" "strstr ''AP-DISABLED'' (''AP-STA-DISCONNECTED '' @ a) = None"
    "strstr ''AP-STA-CONNECTED'' (''AP-STA-DISCONNECTED '' @ a) = None"
    "strstr ''AP-STA-DISCONNECTED'' (''AP-STA-DISCONNECTED '' @ a) \<noteq> None"
    "strchr (CHR '' '') (''AP-STA-DISCONNECTED '' @ a) = Some (''AP-STA-DISCONNECTED'', a)"
proof -
  show "strstr ''AP-ENABLED'' (''AP-STA-DISCONNECTED '' @ a) = None"
    by (rule strstr_absent[of "CHR ''L''"]) (use address_chars[OF assms] in simp_all)
  show "strstr ''AP-DISABLED'' (''AP-STA-DISCONNECTED '' @ a) = None"
    by (rule strstr_absent[of "CHR ''L''"]) (use address_chars[OF assms] in simp_all)
  have "strstr ''AP-STA-CONNECTED'' a = None"
    by (rule strstr_absent[of "CHR ''A''"]) (use address_chars[OF assms] in simp_all)
  then show "strstr ''AP-STA-CONNECTED'' (''AP-STA-DISCONNECTED '' @ a) = None"
    by (simp add: strstr.simps[of _ "_ # _"] starts_def)
  show "strstr ''AP-STA-DISCONNECTED'' (''AP-STA-DISCONNECTED '' @ a) \<noteq> None"
    by (subst strstr.simps) (simp add: starts_def)
qed (simp add: strchr_def)

lemma level_stripped [simp]: "strip_level (''<3>'' @ s) = Some (int (length s), s)"
  by (simp add: strip_level_def starts_def strchr_def)

lemma unlink_remove:
  assumes "length a \<le> BSSID_LEN" "list_all (\<lambda>b. length b \<le> BSSID_LEN) bs"
  shows "unlink_device a bs = (if a \<in> set bs then 0 else - 1, remove1 a bs)"
  using assms by (induction bs) auto

section \<open>One round\<close>

text \<open>The devices and their number agree, and every address fits its array.\<close>

definition devices :: "string list \<Rightarrow> 's hapd_dev \<Rightarrow> bool" where
  "devices bs d \<longleftrightarrow> ap_dev_list d = Devices bs \<and> ap_sta_num d = of_nat (length bs) \<and> list_all (\<lambda>b. length b \<le> BSSID_LEN) bs"

definition report_room :: "nat \<Rightarrow> 's hapd_dev \<Rightarrow> bool" where
  "report_room n d \<longleftrightarrow> (\<exists>h. ap_event_handle d = Some h \<and> evt_socket_enable h \<and> length (evt_bytes h) + n \<le> evt_room h)"

definition ap_byte :: "wifi_ap_event \<Rightarrow> byte" where
  "ap_byte e = word_of_int (ap_event_num e)"

text \<open>What a number of events leaves: they are in the pipe and known to the access point.\<close>

definition ap_told :: "wifi_ap_event list \<Rightarrow> 's hapd_dev \<Rightarrow> 's hapd_dev \<Rightarrow> bool" where
  "ap_told es d d' \<longleftrightarrow>
     ap_event_handle d' = map_option (\<lambda>h. h\<lparr>evt_bytes := evt_bytes h @ map ap_byte es\<rparr>) (ap_event_handle d) \<and>
     hapd_notified d' = hapd_notified d @ (if ap_hapd_event_cb d then es else []) \<and>
     ap_hapd_event_cb d' = ap_hapd_event_cb d \<and> hapd_monitor_conn d' = hapd_monitor_conn d \<and>
     hapd_threads d' = hapd_threads d"

lemma ap_told_trans: "ap_told es d d1 \<Longrightarrow> ap_told fs d1 d' \<Longrightarrow> ap_told (es @ fs) d d'"
  by (cases "ap_event_handle d") (auto simp: ap_told_def)

lemma ap_told_Nil: "ap_told [] d d"
  by (cases "ap_event_handle d") (auto simp: ap_told_def)

lemma hapd_notify_room:
  assumes "ap_event_handle d = Some h" "evt_socket_enable h"
  shows "hapd_event_notify e d =
    (if length (evt_bytes h) < evt_room h
     then Returns (d\<lparr>ap_event_handle := Some (h\<lparr>evt_bytes := evt_bytes h @ [ap_byte e]\<rparr>),
                     hapd_notified := hapd_notified d @ (if ap_hapd_event_cb d then [e] else [])\<rparr>)
     else Blocks)"
  using assms by (simp add: hapd_event_notify_def evt_send_def hapd_event_notify_to_ap_dev_def ap_byte_def)

text \<open>The dispatch of one message: what it puts into the list, and what it tells.\<close>

definition event_list :: "ap_report \<Rightarrow> wifi_ap_event list" where
  "event_list r = (case report_event r of None \<Rightarrow> [] | Some e \<Rightarrow> [e])"

lemma report_events_Cons: "report_events (r # rs) = event_list r @ report_events rs"
  by (simp add: event_list_def split: option.splits)

fun report_body :: "ap_report \<Rightarrow> string" where
  "report_body Ap_Started = ''AP-ENABLED ''"
| "report_body Ap_Stopped = ''AP-DISABLED ''"
| "report_body (Joined a) = ''AP-STA-CONNECTED '' @ a"
| "report_body (Left a) = ''AP-STA-DISCONNECTED '' @ a"
| "report_body (Other_Report m) = (case strip_level m of Some (_, s) \<Rightarrow> s | None \<Rightarrow> [])"

lemma started_text:
  "strstr ''AP-ENABLED'' ''AP-ENABLED '' \<noteq> None" "strstr ''AP-ENABLED'' ''AP-DISABLED '' = None"
  "strstr ''AP-DISABLED'' ''AP-DISABLED '' \<noteq> None"
  by (simp_all add: strstr.simps starts_def)

lemma hapd_dispatch_members:
  assumes "report_ok r" "devices bs d" "ap_event_handle d = Some h" "evt_socket_enable h" "\<forall>s. fst (os_malloc k s)"
    and "length (evt_bytes h) + length (event_list r) \<le> evt_room h"
  shows "\<exists>d'. hapd_dispatch_event k (report_body r) d = Returns (0, d') \<and> devices (members r bs) d' \<and>
    ap_told (event_list r) d d' \<and> hapd_incoming d' = hapd_incoming d"
proof (cases r)
  case Ap_Started
  then show ?thesis using assms started_text
    by (simp add: hapd_dispatch_event_def hapd_notify_room event_list_def ap_told_def devices_def)
next
  case Ap_Stopped
  then show ?thesis using assms started_text
    by (simp add: hapd_dispatch_event_def hapd_notify_room event_list_def ap_told_def devices_def)
next
  case (Joined a)
  obtain s where s: "os_malloc k (hapd_os d) = (True, s)" using assms(5) by (metis prod.collapse)
  have a: "address a" "take 47 a = a" using assms(1) Joined by (simp_all add: address_def)
  then show ?thesis using assms(2-4,6) Joined s joined_text[OF a(1)]
    by (simp add: hapd_dispatch_event_def hapd_notify_room event_list_def ap_told_def devices_def wmg_sta_device_add_def
        wmg_sta_device_print_def on_hos_def address_def)
next
  case (Left a)
  have a: "address a" "length a \<le> BSSID_LEN" using assms(1) Left by (simp_all add: address_def)
  have "(of_nat (length bs - 1) :: 32 word) = of_nat (length bs) - 1" if "a \<in> set bs"
    using that by (cases bs) auto
  then show ?thesis using assms(2-4,6) Left a left_text[OF a(1)] unlink_remove[OF a(2), of bs]
    by (auto simp: hapd_dispatch_event_def hapd_notify_room event_list_def ap_told_def devices_def wmg_sta_device_remove_def
        wmg_sta_device_print_def length_remove1 list_all_iff remove1_idem dest: notin_set_remove1)
next
  case (Other_Report m)
  then obtain n s where "strip_level m = Some (n, s)" "silent_text s" using assms(1) by auto
  then show ?thesis using assms(2) Other_Report
    by (auto simp: hapd_dispatch_event_def silent_text_def event_list_def ap_told_Nil)
qed

lemma hapd_wait_report:
  assumes "report_ok r" "hapd_monitor_conn d" "hapd_incoming d = Message (report_text r) # rest"
  shows "\<exists>n. hapd_wait_on_socket d = Returns ((n, report_body r), d\<lparr>hapd_incoming := rest\<rparr>) \<and> n = int (length (report_body r))"
proof -
  have t: "report_text r \<noteq> []" "length (report_text r) < EVENT_BUF_SIZE - 1"
    using assms(1) by (cases r; auto simp: address_def)+
  have "strip_level (report_text r) = Some (int (length (report_body r)), report_body r)"
  proof (cases r)
    case (Other_Report m)
    then obtain n s where ns: "strip_level m = Some (n, s)" using assms(1) by auto
    then have "n = int (length s)" by (auto simp: strip_level_def split: if_splits option.splits prod.splits)
    then show ?thesis using Other_Report ns by simp
  qed (use level_stripped in \<open>auto simp: strip_level_def starts_def strchr_def\<close>)
  then show ?thesis using assms(2,3) t by (simp add: hapd_wait_on_socket_def Let_def)
qed

lemma hapd_round_members:
  assumes "report_ok r" "hapd_monitor_conn d" "hapd_incoming d = Message (report_text r) # rest"
    and "devices bs d" "\<forall>s. fst (os_malloc k s)" "report_room (length (event_list r)) d"
  shows "\<exists>d'. hapd_event_round k d = Returns d' \<and> devices (members r bs) d' \<and> ap_told (event_list r) d d' \<and> hapd_incoming d' = rest"
proof -
  let ?d = "d\<lparr>hapd_incoming := rest\<rparr>"
  obtain h where h: "ap_event_handle d = Some h" "evt_socket_enable h" "length (evt_bytes h) + length (event_list r) \<le> evt_room h"
    using assms(6) by (auto simp: report_room_def)
  have w: "hapd_wait_on_socket d = Returns ((int (length (report_body r)), report_body r), ?d)"
    using hapd_wait_report[OF assms(1-3)] by auto
  have "devices bs ?d" using assms(4) by (simp add: devices_def)
  then obtain d' where d': "hapd_dispatch_event k (report_body r) ?d = Returns (0, d')" "devices (members r bs) d'"
    "ap_told (event_list r) ?d d'" "hapd_incoming d' = rest"
    using hapd_dispatch_members[OF assms(1) _ _ h(2) assms(5) h(3), of bs ?d] h(1) by auto
  have t: "ap_told (event_list r) d d'" using d'(3) by (simp add: ap_told_def)
  show ?thesis
  proof (cases "report_body r = []")
    case True
    then have "hapd_event_round k d = Returns ?d" using w by (simp add: hapd_event_round_def)
    moreover have "d' = ?d" using d'(1) True by (simp add: hapd_dispatch_event_def)
    ultimately show ?thesis using d'(2,4) t by auto
  next
    case False
    then show ?thesis using w d' t by (auto simp: hapd_event_round_def c_true_def)
  qed
qed
section \<open>Many rounds\<close>

text \<open>At most \<open>n\<close> rounds, none when the thread has ended.\<close>

fun hapd_listen :: "'s wpa_os \<Rightarrow> nat \<Rightarrow> 's hapd_dev \<Rightarrow> 's hapd_dev outcome" where
  "hapd_listen k 0 d = Returns d"
| "hapd_listen k (Suc n) d =
     (if hapd_threads d = 0 then Returns d else bind_outcome (hapd_event_round k d) (hapd_listen k n))"

lemma hapd_listen_members:
  assumes "hapd_monitor_conn d" "0 < hapd_threads d" "hapd_incoming d = map (Message \<circ> report_text) rs @ rest"
    and "list_all report_ok rs" "\<forall>s. fst (os_malloc k s)" "devices bs d" "report_room (length (report_events rs)) d"
  shows "\<exists>d'. hapd_listen k (length rs) d = Returns d' \<and> devices (fold members rs bs) d' \<and>
    ap_told (report_events rs) d d' \<and> hapd_incoming d' = rest"
  using assms(1-4,6,7)
proof (induction rs arbitrary: d bs)
  case Nil
  then show ?case by (simp add: ap_told_Nil)
next
  case (Cons r rs)
  have room: "report_room (length (event_list r)) d"
    using Cons(7) by (auto simp: report_room_def report_events_Cons simp del: report_events.simps)
  obtain d1 where d1: "hapd_event_round k d = Returns d1" "devices (members r bs) d1" "ap_told (event_list r) d d1"
    "hapd_incoming d1 = map (Message \<circ> report_text) rs @ rest"
    using hapd_round_members[OF _ Cons(2) _ Cons(6) assms(5) room] Cons(4,5) by auto
  have t: "hapd_monitor_conn d1" "0 < hapd_threads d1" using d1(3) Cons(2,3) by (simp_all add: ap_told_def)
  have "report_room (length (report_events rs)) d1"
    using Cons(7) d1(3) by (auto simp: report_room_def ap_told_def report_events_Cons simp del: report_events.simps)
  then obtain d' where d': "hapd_listen k (length rs) d1 = Returns d'" "devices (fold members rs (members r bs)) d'"
    "ap_told (report_events rs) d1 d'" "hapd_incoming d' = rest"
    using Cons(1)[OF t d1(4) _ d1(2)] Cons(5) by auto
  then show ?case
    using d1(1) Cons(3) ap_told_trans[OF d1(3) d'(3)] by (simp add: report_events_Cons del: report_events.simps)
qed

section \<open>A device to run against\<close>

definition demo_ap_handle :: event_handle where
  "demo_ap_handle = \<lparr>evt_socket = (5, 6), evt_socket_enable = True, evt_bytes = [], evt_room = 8,
     evt_getfl_ok = True, evt_setfl_ok = True\<rparr>"

definition demo_hapd :: "incoming list \<Rightarrow> string list hapd_dev" where
  "demo_hapd inc = (hapd_inf_static inc [])\<lparr>ap_hapd_init_flag := True, ap_pid := True, hapd_threads := 1,
     ap_event_handle := Some demo_ap_handle,
     ap_hapd_event_cb := True, ap_dev_list := Devices [], hapd_ctrl_conn := True, hapd_monitor_conn := True,
     hapd_exit_sockets := (3, 4)\<rparr>"

lemmas demo_hapd_defs = demo_hapd_def hapd_inf_static_def

lemma demo_hapd_sel [simp]:
  "hapd_monitor_conn (demo_hapd inc)" "hapd_ctrl_conn (demo_hapd inc)" "hapd_threads (demo_hapd inc) = 1"
  "hapd_incoming (demo_hapd inc) = inc" "ap_hapd_event_cb (demo_hapd inc)" "hapd_notified (demo_hapd inc) = []"
  "hapd_os (demo_hapd inc) = []" "ap_event_handle (demo_hapd inc) = Some demo_ap_handle"
  "ap_dev_list (demo_hapd inc) = Devices []" "ap_sta_num (demo_hapd inc) = 0"
  by (simp_all add: demo_hapd_defs)

lemma recorder_malloc: "\<forall>s. fst (os_malloc (recorder f) s)"
  by (simp add: recorder_def)

section \<open>Nobody reads the pipe\<close>

lemma hapd_dispatch_blocks:
  assumes "report_ok r" "devices bs d" "ap_event_handle d = Some h" "evt_socket_enable h" "\<forall>s. fst (os_malloc k s)"
    and "evt_room h \<le> length (evt_bytes h)" "report_event r \<noteq> None"
  shows "hapd_dispatch_event k (report_body r) d = Blocks"
proof (cases r)
  case Ap_Started
  then show ?thesis using assms started_text by (simp add: hapd_dispatch_event_def hapd_notify_room)
next
  case Ap_Stopped
  then show ?thesis using assms started_text by (simp add: hapd_dispatch_event_def hapd_notify_room)
next
  case (Joined a)
  obtain s where s: "os_malloc k (hapd_os d) = (True, s)" using assms(5) by (metis prod.collapse)
  have a: "address a" using assms(1) Joined by simp
  then show ?thesis using assms(2-4,6) Joined s joined_text[OF a(1)]
    by (simp add: hapd_dispatch_event_def hapd_notify_room devices_def wmg_sta_device_add_def wmg_sta_device_print_def on_hos_def)
next
  case (Left a)
  have a: "address a" using assms(1) Left by simp
  show ?thesis using assms(2-4,6) Left left_text[OF a(1)]
    by (cases "unlink_device a bs")
      (simp add: hapd_dispatch_event_def hapd_notify_room devices_def wmg_sta_device_remove_def wmg_sta_device_print_def)
qed (use assms(7) in simp)

lemma hapd_listen_blocks:
  assumes "hapd_monitor_conn d" "0 < hapd_threads d" "hapd_incoming d = map (Message \<circ> report_text) rs @ rest"
    and "list_all report_ok rs" "\<forall>s. fst (os_malloc k s)" "devices bs d"
    and "ap_event_handle d = Some h" "evt_socket_enable h" "length (evt_bytes h) \<le> evt_room h"
    and "evt_room h < length (evt_bytes h) + length (report_events rs)"
  shows "hapd_listen k (length rs) d = Blocks"
  using assms(1-4,6-10)
proof (induction rs arbitrary: d bs h)
  case Nil
  then show ?case by simp
next
  case (Cons r rs)
  have inc: "hapd_incoming d = Message (report_text r) # map (Message \<circ> report_text) rs @ rest" using Cons(4) by simp
  have r: "report_ok r" using Cons(5) by simp
  show ?case
  proof (cases "report_event r \<noteq> None \<and> evt_room h \<le> length (evt_bytes h)")
    case True
    let ?d = "d\<lparr>hapd_incoming := map (Message \<circ> report_text) rs @ rest\<rparr>"
    have w: "hapd_wait_on_socket d = Returns ((int (length (report_body r)), report_body r), ?d)"
      using hapd_wait_report[OF r Cons(2) inc] by auto
    have "report_body r \<noteq> []" using True by (cases r) auto
    moreover have "hapd_dispatch_event k (report_body r) ?d = Blocks"
      by (rule hapd_dispatch_blocks[OF r, of bs _ h]) (use Cons(6-8) True assms(5) in \<open>auto simp: devices_def\<close>)
    ultimately show ?thesis using w Cons(3) by (simp add: hapd_event_round_def)
  next
    case False
    then have room: "report_room (length (event_list r)) d"
      using Cons(7-9) by (cases "report_event r") (auto simp: report_room_def event_list_def)
    obtain d1 where d1: "hapd_event_round k d = Returns d1" "devices (members r bs) d1" "ap_told (event_list r) d d1"
      "hapd_incoming d1 = map (Message \<circ> report_text) rs @ rest"
      using hapd_round_members[OF r Cons(2) inc Cons(6) assms(5) room] by blast
    let ?h = "h\<lparr>evt_bytes := evt_bytes h @ map ap_byte (event_list r)\<rparr>"
    have t: "hapd_monitor_conn d1" "0 < hapd_threads d1" "ap_event_handle d1 = Some ?h"
      using d1(3) Cons(2,3,7) by (simp_all add: ap_told_def)
    have n: "length (evt_bytes ?h) \<le> evt_room ?h" "evt_room ?h < length (evt_bytes ?h) + length (report_events rs)"
      using room Cons(7,10) by (auto simp: report_room_def report_events_Cons simp del: report_events.simps)
    have "hapd_listen k (length rs) d1 = Blocks"
      by (rule Cons(1)[OF t(1,2) d1(4) _ d1(2) t(3) _ n]) (use Cons(5,8) in simp_all)
    then show ?thesis using d1(1) Cons(3) by simp
  qed
qed

lemma started_events: "length (report_events (replicate n Ap_Started)) = n"
  by (induction n) simp_all

text \<open>
  C14. What a sequence of hostapd's messages leads to, while nobody reads the event pipe and \<open>malloc\<close>
  finds memory for each device. The addresses are those that hostapd prints, at most 47 characters of them;
  other messages name no report, and are not empty and shorter than the event buffer. When the pipe has
  room for all the reports, the thread takes one message in each round, and the list of devices is the
  one that the messages give: a device that joined is put in front, one that left is taken out, and the number
  of stations is the length of the list. Every report, and nothing else, is put into the pipe and
  told to the access point, in order. When the pipe has not the room, the thread is stuck in a write
  before it has handled them all.
\<close>

theorem hapd_keeps_devices:
  assumes "hapd_monitor_conn d" "0 < hapd_threads d" "hapd_incoming d = map (Message \<circ> report_text) rs @ rest"
    and "list_all report_ok rs" "\<forall>s. fst (os_malloc k s)" "ap_hapd_event_cb d"
    and "ap_dev_list d = Devices bs" "ap_sta_num d = of_nat (length bs)" "list_all (\<lambda>b. length b \<le> BSSID_LEN) bs"
    and "ap_event_handle d = Some h" "evt_socket_enable h" "length (evt_bytes h) \<le> evt_room h"
  shows "if length (evt_bytes h) + length (report_events rs) \<le> evt_room h
    then \<exists>d'. hapd_listen k (length rs) d = Returns d' \<and> hapd_incoming d' = rest \<and>
      ap_dev_list d' = Devices (fold members rs bs) \<and> ap_sta_num d' = of_nat (length (fold members rs bs)) \<and>
      hapd_notified d' = hapd_notified d @ report_events rs \<and>
      ap_event_handle d' = Some (h\<lparr>evt_bytes := evt_bytes h @ map ap_byte (report_events rs)\<rparr>)
    else hapd_listen k (length rs) d = Blocks"
proof (cases "length (evt_bytes h) + length (report_events rs) \<le> evt_room h")
  case True
  then have "devices bs d" "report_room (length (report_events rs)) d"
    using assms(7-11) by (simp_all add: devices_def report_room_def)
  then obtain d' where "hapd_listen k (length rs) d = Returns d'" "devices (fold members rs bs) d'"
    "ap_told (report_events rs) d d'" "hapd_incoming d' = rest"
    using hapd_listen_members[OF assms(1-5)] by blast
  then show ?thesis using True assms(6,10) by (auto simp: devices_def ap_told_def)
next
  case False
  have "devices bs d" using assms(7-9) by (simp add: devices_def)
  from hapd_listen_blocks[OF assms(1-5) this assms(10-12)] show ?thesis using False by simp
qed

theorem hapd_keeps_devices_witness:
  "(\<exists>d'. hapd_listen (recorder (\<lambda>_. [])) 4
      (demo_hapd (map (Message \<circ> report_text) [Ap_Started, Joined ''02:00:00:00:00:01'', Joined ''02:00:00:00:00:02'', Left ''02:00:00:00:00:01''])) =
      Returns d' \<and> ap_dev_list d' = Devices [''02:00:00:00:00:02''] \<and> ap_sta_num d' = 1 \<and>
    hapd_notified d' = [WIFI_AP_ENABLED, WIFI_AP_STA_CONNECTED, WIFI_AP_STA_CONNECTED, WIFI_AP_STA_DISCONNECTED]) \<and>
   hapd_listen (recorder (\<lambda>_. [])) 9 (demo_hapd (map (Message \<circ> report_text) (replicate 9 Ap_Started))) = Blocks"
proof -
  let ?rs = "[Ap_Started, Joined ''02:00:00:00:00:01'', Joined ''02:00:00:00:00:02'', Left ''02:00:00:00:00:01'']"
    and ?rs9 = "replicate 9 Ap_Started"
  have h: "evt_socket_enable demo_ap_handle" "length (evt_bytes demo_ap_handle) \<le> evt_room demo_ap_handle"
    "evt_bytes demo_ap_handle = []" "evt_room demo_ap_handle = 8"
    by (simp_all add: demo_ap_handle_def)
  have d: "hapd_monitor_conn (demo_hapd inc)" "0 < hapd_threads (demo_hapd inc)" "ap_hapd_event_cb (demo_hapd inc)"
    "ap_dev_list (demo_hapd inc) = Devices []" "ap_sta_num (demo_hapd inc) = of_nat (length [])"
    "ap_event_handle (demo_hapd inc) = Some demo_ap_handle" "list_all (\<lambda>b. length b \<le> BSSID_LEN) []" for inc
    by simp_all
  have i: "hapd_incoming (demo_hapd (map (Message \<circ> report_text) rs)) = map (Message \<circ> report_text) rs @ []" for rs by simp
  note r = hapd_keeps_devices[OF d(1,2) i _ recorder_malloc d(3-5,7,6) h(1,2)]
  have "list_all report_ok ?rs" "list_all report_ok ?rs9" by (simp_all add: address_def list_all_iff)
  from r[OF this(1), of "\<lambda>_. []"] r[OF this(2), of "\<lambda>_. []"] show ?thesis
    by (auto simp: h(3,4) started_events eval_nat_numeral simp del: hapd_listen.simps)
qed

text \<open>
  Nothing in the program reads the access point's event pipe: after as many reports as it has
  room for, the thread waits for ever in the write of the next one. Devices that join or leave
  after that are neither listed nor told.
\<close>

theorem hapd_thread_fills_pipe:
  assumes "hapd_monitor_conn d" "0 < hapd_threads d" "hapd_incoming d = map (Message \<circ> report_text) rs @ rest"
    and "list_all report_ok rs" "\<forall>s. fst (os_malloc k s)"
    and "ap_dev_list d = Devices bs" "ap_sta_num d = of_nat (length bs)" "list_all (\<lambda>b. length b \<le> BSSID_LEN) bs"
    and "ap_event_handle d = Some h" "evt_socket_enable h" "length (evt_bytes h) \<le> evt_room h"
    and "evt_room h < length (evt_bytes h) + length (report_events rs)"
  shows "hapd_listen k (length rs) d = Blocks"
  by (rule hapd_listen_blocks[OF assms(1-5) _ assms(9-12)]) (use assms(6-8) in \<open>simp add: devices_def\<close>)

theorem hapd_thread_fills_pipe_witness:
  "hapd_listen (recorder (\<lambda>_. [])) 9 (demo_hapd (map (Message \<circ> report_text) (replicate 9 Ap_Started))) = Blocks"
proof -
  have "hapd_listen (recorder (\<lambda>_. [])) (length (replicate 9 Ap_Started))
      (demo_hapd (map (Message \<circ> report_text) (replicate 9 Ap_Started))) = Blocks"
    by (rule hapd_thread_fills_pipe[where rest = "[]" and bs = "[]" and h = demo_ap_handle])
      (simp_all add: demo_ap_handle_def recorder_def started_events list_all_iff)
  then show ?thesis by simp
qed

section \<open>The thread that never ends\<close>

text \<open>
  A closed connection makes a thread of this kind go round for ever: the dispatcher's result is
  never one, so that the notice that the connection is closed does not end it. After a command
  that ran into its timeout with nothing pending, no later message is taken, although every
  round comes back at once.
\<close>

theorem hapd_timeout_spins:
  assumes "command_to_hostapd k cmd n d = (r, reply, d')" "fst (fst (os_request k cmd (hapd_os d))) = - 2"
    and "cmd \<noteq> []" "hapd_ctrl_conn d" "fst (os_pending k (snd (os_request k cmd (hapd_os d)))) = 0"
    and "dropWhile (\<lambda>i. i = Quiet) (hapd_incoming d) = hapd_incoming d"
  shows "r = - 1 \<and> (\<forall>later m. hapd_listen k m (d'\<lparr>hapd_incoming := hapd_incoming d' @ later\<rparr>) =
    Returns (d'\<lparr>hapd_incoming := hapd_incoming d' @ later\<rparr>))"
proof -
  obtain rep s where q: "os_request k cmd (hapd_os d) = ((- 2, rep), s)" using assms(2) by (metis prod.collapse fst_conv)
  obtain s' where p: "os_pending k s = (0, s')" using assms(5) q by (metis prod.collapse snd_conv)
  have d': "r = - 1" "d' = d\<lparr>hapd_os := s', hapd_incoming := Exit_Signal # hapd_incoming d\<rparr>"
    using assms(1,3,4) q p by (auto simp: command_to_hostapd_def hapd_send_command_def on_hos_def)
  have round: "hapd_event_round k e = Returns e" if "hapd_incoming e = Exit_Signal # rest" for e :: "'a hapd_dev" and rest
  proof -
    have "e\<lparr>hapd_incoming := Exit_Signal # rest\<rparr> = e" using that by (cases e) simp
    then have w: "hapd_wait_on_socket e = Returns (fabricated '' - connection closed'', e)"
      using that by (simp add: hapd_wait_on_socket_def)
    show ?thesis using closed_dispatch[of k e] w by (simp add: hapd_event_round_def fabricated_def c_true_def)
  qed
  have "hapd_listen k m e = Returns e" if "hapd_incoming e = Exit_Signal # rest" for e :: "'a hapd_dev" and rest m
    using round[OF that] by (induction m) auto
  then show ?thesis using d' by auto
qed

theorem hapd_timeout_spins_witness:
  "\<exists>d'. command_to_hostapd ((recorder (\<lambda>_. []))\<lparr>os_request := \<lambda>_ s. ((- 2, []), s)\<rparr>) ''STATUS'' EVENT_BUF_SIZE (demo_hapd []) =
      (- 1, None, d') \<and>
    hapd_listen ((recorder (\<lambda>_. []))\<lparr>os_request := \<lambda>_ s. ((- 2, []), s)\<rparr>) 3
      (d'\<lparr>hapd_incoming := hapd_incoming d' @ [Message ''<3>AP-ENABLED '']\<rparr>) =
      Returns (d'\<lparr>hapd_incoming := hapd_incoming d' @ [Message ''<3>AP-ENABLED '']\<rparr>)"
proof -
  let ?k = "(recorder (\<lambda>_. []))\<lparr>os_request := \<lambda>_ s. ((- 2, []), s)\<rparr>"
  obtain r rep d' where c: "command_to_hostapd ?k ''STATUS'' EVENT_BUF_SIZE (demo_hapd []) = (r, rep, d')"
    by (metis surj_pair)
  then have "rep = None" by (auto simp: command_to_hostapd_def hapd_send_command_def on_hos_def recorder_def)
  then show ?thesis using c hapd_timeout_spins[OF c] by (simp add: recorder_def)
qed

end
