(* ===== verification/Hapd_Config.thy ===== *)
theory Hapd_Config
  imports Hapd_Messages
begin

text \<open>
  Configuring the access point: which commands reach \<open>hostapd\<close>, what happens to a long passphrase,
  and what is read back.
\<close>

section \<open>The commands\<close>

text \<open>The commands for a kind of security and its key.\<close>

fun security_settings :: "wifi_secure \<Rightarrow> string \<Rightarrow> string list" where
  "security_settings WIFI_SEC_NONE p = [''SET wpa 0'']"
| "security_settings WIFI_SEC_WEP p =
     [''SET wep_default_key 0'', ''SET wep_key0 '' @ (if length p = 10 \<or> length p = 26 then p else [QUOTE] @ p @ [QUOTE])]"
| "security_settings sec p =
     [if sec = WIFI_SEC_WPA_PSK then ''SET wpa 1'' else ''SET wpa 2'', ''SET wpa_key_mgmt WPA-PSK'', ''SET rsn_pairwise CCMP'',
      ''SET wpa_passphrase '' @ p]"

definition settings :: "string \<Rightarrow> 8 word \<Rightarrow> wifi_secure \<Rightarrow> string \<Rightarrow> string list" where
  "settings ssid ch sec p = [''SET ssid '' @ ssid, ''SET channel '' @ dec (unat ch)] @ security_settings sec p"

text \<open>The keys that are accepted for a kind of security.\<close>

definition ap_key_ok :: "wifi_secure \<Rightarrow> string \<Rightarrow> bool" where
  "ap_key_ok sec p \<longleftrightarrow>
     (case sec of WIFI_SEC_NONE \<Rightarrow> True | WIFI_SEC_WEP \<Rightarrow> length p \<in> {5, 10, 13, 26} | _ \<Rightarrow> 8 \<le> length p \<and> length p \<le> 63)"

text \<open>A daemon that takes every setting.\<close>

definition obedient :: "(string \<Rightarrow> string) \<Rightarrow> bool" where
  "obedient f \<longleftrightarrow> (\<forall>cmd. cmd \<noteq> ''STATUS'' \<longrightarrow> f cmd = ''OK'' @ [NL])"

lemma hapd_recorded:
  assumes "f cmd = r @ [NL]" "hapd_ctrl_conn d" "cmd \<noteq> []" "length r < 2000" "\<not> starts ''FAIL'' (r @ [NL])"
  shows "command_to_hostapd (recorder f) cmd EVENT_BUF_SIZE d = (0, Some r, d\<lparr>hapd_os := hapd_os d @ [cmd]\<rparr>)"
  using assms
  by (simp add: command_to_hostapd_def hapd_send_command_def on_hos_def recorder_def strip_newline_def)

lemma hapd_then_recorded:
  assumes "obedient f" "hapd_ctrl_conn d" "take 3 cmd = ''SET''" "length cmd \<le> CMD_MAX_LEN"
  shows "hapd_then (recorder f) cmd g d = g (d\<lparr>hapd_os := hapd_os d @ [cmd]\<rparr>)"
proof -
  have "cmd \<noteq> ''STATUS''" "cmd \<noteq> []" using assms(3) by auto
  then have "command_to_hostapd (recorder f) cmd EVENT_BUF_SIZE d = (0, Some ''OK'', d\<lparr>hapd_os := hapd_os d @ [cmd]\<rparr>)"
    using assms(1,2) by (intro hapd_recorded) (simp_all add: obedient_def starts_def)
  then show ?thesis using assms(4) by (simp add: hapd_then_def fits_def)
qed

lemma set_security_recorded:
  assumes "obedient f" "hapd_ctrl_conn d" "ap_psk c = Some p" "ap_key_ok (ap_sec c) p"
  shows "set_security (recorder f) c g d = g (d\<lparr>hapd_os := hapd_os d @ security_settings (ap_sec c) p\<rparr>)"
proof -
  have step: "hapd_then (recorder f) cmd h (d\<lparr>hapd_os := log\<rparr>) = h (d\<lparr>hapd_os := log @ [cmd]\<rparr>)"
    if "take 3 cmd = ''SET''" "length cmd \<le> CMD_MAX_LEN" for cmd h log
    using hapd_then_recorded[OF assms(1), of "d\<lparr>hapd_os := log\<rparr>" cmd h] assms(2) that by simp
  have step1: "hapd_then (recorder f) cmd h d = h (d\<lparr>hapd_os := hapd_os d @ [cmd]\<rparr>)"
    if "take 3 cmd = ''SET''" "length cmd \<le> CMD_MAX_LEN" for cmd h
    using step[of cmd h "hapd_os d"] that by simp
  show ?thesis
    using assms(3,4)
    by (cases "ap_sec c") (auto simp: set_security_def set_passphrase_def step step1 ap_key_ok_def)
qed

lemma set_config_recorded:
  assumes "obedient f" "hapd_ctrl_conn d" "ap_ssid c = Some ssid" "length ssid < SSID_MAX_LEN" "ap_channel c < 14"
    and "ap_psk c = Some p" "ap_key_ok (ap_sec c) p"
  shows "linux_ap_hapd_set_config (recorder f) (Some c) d =
    keep_config c (d\<lparr>hapd_os := hapd_os d @ settings ssid (ap_channel c) (ap_sec c) p\<rparr>)"
proof -
  let ?cmd = "''SET channel '' @ dec (unat (ap_channel c))"
  have "unat (ap_channel c) < 14" using assms(5) by (simp add: word_less_nat_alt)
  then have "length (dec (unat (ap_channel c))) \<le> 2" using length_dec_le[of "unat (ap_channel c)" 2] by simp
  then have ch: "hapd_then (recorder f) ?cmd g (d\<lparr>hapd_os := log\<rparr>) = g (d\<lparr>hapd_os := log @ [?cmd]\<rparr>)" for g log
    using hapd_then_recorded[OF assms(1), of "d\<lparr>hapd_os := log\<rparr>" ?cmd g] assms(2) by simp
  have ss: "hapd_then (recorder f) (''SET ssid '' @ ssid) g d = g (d\<lparr>hapd_os := hapd_os d @ [''SET ssid '' @ ssid]\<rparr>)" for g
    using hapd_then_recorded[OF assms(1), of d "''SET ssid '' @ ssid" g] assms(2,4) by simp
  have sec: "set_security (recorder f) c g (d\<lparr>hapd_os := log\<rparr>) =
      g (d\<lparr>hapd_os := log @ security_settings (ap_sec c) p\<rparr>)" for g log
    using set_security_recorded[OF assms(1), of "d\<lparr>hapd_os := log\<rparr>" c p g] assms(2,6,7) by simp
  show ?thesis
    by (simp only: linux_ap_hapd_set_config_def option.case assms(3) ss assms(5) if_True ch sec)
      (simp add: settings_def)
qed

text \<open>A status that says that the access point is off; it is asked before anything is set.\<close>

definition says_off :: "string \<Rightarrow> bool" where
  "says_off r \<longleftrightarrow> length r < 2000 \<and> \<not> starts ''FAIL'' (r @ [NL]) \<and> strstr ''state=ENABLED'' r = None \<and>
     strstr ''state=DISABLED'' r \<noteq> None"

lemma enable_recorded:
  assumes "obedient f" "f ''STATUS'' = r @ [NL]" "says_off r" "hapd_ctrl_conn d"
    and "ap_ssid c = Some ssid" "length ssid < SSID_MAX_LEN" "ap_channel c < 14" "ap_psk c = Some p" "ap_key_ok (ap_sec c) p"
  shows "linux_ap_hapd_enable (recorder f) (Some c) d =
    (if length p < PSK_MAX_LEN
     then Some (WMG_STATUS_SUCCESS, d\<lparr>hapd_os := hapd_os d @ [''STATUS''] @ settings ssid (ap_channel c) (ap_sec c) p @ [''ENABLE''],
       global_ap := \<lparr>global_ssid = ssid, global_psk = p, global_sec = ap_sec c, global_channel = ap_channel c,
         ap_config_enable = True\<rparr>\<rparr>)
     else None)"
proof -
  have st: "linux_ap_hapd_cmd_status (recorder f) d = (1, d\<lparr>hapd_os := hapd_os d @ [''STATUS'']\<rparr>)"
    using hapd_recorded[of f "''STATUS''" r d] assms(2-4) by (simp add: linux_ap_hapd_cmd_status_def says_off_def)
  let ?d = "d\<lparr>hapd_os := hapd_os d @ [''STATUS'']\<rparr>"
  have set: "linux_ap_hapd_set_config (recorder f) (Some c) ?d =
      keep_config c (?d\<lparr>hapd_os := hapd_os ?d @ settings ssid (ap_channel c) (ap_sec c) p\<rparr>)"
    by (rule set_config_recorded) (use assms in simp_all)
  have en: "linux_ap_hapd_cmd_enable (recorder f) e = (0, e\<lparr>hapd_os := hapd_os e @ [''ENABLE'']\<rparr>)" if "hapd_ctrl_conn e" for e
    using hapd_recorded[of f "''ENABLE''" "''OK''" e] assms(1) that
    by (simp add: linux_ap_hapd_cmd_enable_def obedient_def starts_def)
  have os: "hos_do (os_system (recorder f) x) e = e" "hos_do (os_sleep (recorder f) n) e = e" for x n e
    by (simp_all add: hos_do_def recorder_def)
  show ?thesis
    using assms(4-6,8) by (simp add: linux_ap_hapd_enable_def st set keep_config_def en os fits_def)
qed
section \<open>Switching the access point on\<close>

text \<open>A call of the access point on this platform, when nothing is told meanwhile.\<close>

lemma ap_plat_quiet:
  assumes "plat e = Returns (d, m)" "f (d\<lparr>hapd_notified := []\<rparr>, m) = Returns (r, d', m')" "hapd_notified d' = []"
  shows "ap_plat (hapd_call f dflt) obj e = (r, e\<lparr>plat := Returns (d', m')\<rparr>)"
  using assms by (simp add: ap_plat_def hapd_call_def)

lemma ap_plat_crash:
  assumes "plat e = Returns (d, m)" "f (d\<lparr>hapd_notified := []\<rparr>, m) = Crash"
  shows "ap_plat (hapd_call f dflt) obj e = (dflt, e\<lparr>plat := Crash\<rparr>)"
  using assms by (simp add: ap_plat_def hapd_call_def)

lemma ap_enable_recorded:
  assumes "ap_init_flag obj" "hapd_run obj" "ap_platform_inf obj = Some (linux_ap_inf (recorder f))"
    and "plat e = Returns (d, m)" "hapd_ctrl_conn d" "obedient f" "f ''STATUS'' = r @ [NL]" "says_off r"
    and "ap_ssid c = Some ssid" "length ssid < SSID_MAX_LEN" "ap_channel c < 14"
    and "ap_psk c = Some p" "ap_key_ok (ap_sec c) p" "length p < PSK_MAX_LEN"
  shows "\<exists>d'. ap_enable (Some c) cb obj e =
      Some (WMG_STATUS_SUCCESS, WMG_STATUS_SUCCESS, obj\<lparr>ap_state := WIFI_AP_ENABLE\<rparr>, e\<lparr>plat := Returns (d', m)\<rparr>) \<and>
    hapd_os d' = hapd_os d @ [''STATUS''] @ settings ssid (ap_channel c) (ap_sec c) p @ [''ENABLE''] \<and>
    global_ap d' = \<lparr>global_ssid = ssid, global_psk = p, global_sec = ap_sec c, global_channel = ap_channel c,
      ap_config_enable = True\<rparr>"
proof -
  let ?d = "d\<lparr>hapd_notified := []\<rparr>"
  obtain d' where d': "linux_ap_hapd_enable (recorder f) (Some c) ?d = Some (WMG_STATUS_SUCCESS, d')"
    "hapd_os d' = hapd_os d @ [''STATUS''] @ settings ssid (ap_channel c) (ap_sec c) p @ [''ENABLE'']"
    "global_ap d' = \<lparr>global_ssid = ssid, global_psk = p, global_sec = ap_sec c, global_channel = ap_channel c,
      ap_config_enable = True\<rparr>" "hapd_notified d' = []"
    using enable_recorded[OF assms(6-8), of ?d c ssid p] assms(5,9-14) by simp
  let ?f = "\<lambda>(d, m). map_outcome_of (\<lambda>(r, d). (r, d, m)) (outcome_of_option (linux_ap_hapd_enable (recorder f) (Some c) d))"
  have "ap_plat (hapd_call ?f (- 1)) obj e = (WMG_STATUS_SUCCESS, e\<lparr>plat := Returns (d', m)\<rparr>)"
    by (rule ap_plat_quiet[OF assms(4) _ d'(4)]) (simp add: d'(1))
  then have "ap_enable (Some c) cb obj e =
      Some (WMG_STATUS_SUCCESS, WMG_STATUS_SUCCESS, obj\<lparr>ap_state := WIFI_AP_ENABLE\<rparr>, e\<lparr>plat := Returns (d', m)\<rparr>)"
    using assms(1-3) by (simp add: ap_enable_def linux_ap_inf_def both_def c_true_def)
  then show ?thesis using d'(2,3) by blast
qed

text \<open>A key that does not fit the array that keeps it.\<close>

lemma ap_enable_overrun:
  assumes "ap_init_flag obj" "hapd_run obj" "ap_platform_inf obj = Some (linux_ap_inf (recorder f))"
    and "plat e = Returns (d, m)" "hapd_ctrl_conn d" "obedient f" "f ''STATUS'' = r @ [NL]" "says_off r"
    and "ap_ssid c = Some ssid" "length ssid < SSID_MAX_LEN" "ap_channel c < 14"
    and "ap_psk c = Some p" "ap_key_ok (ap_sec c) p" "\<not> length p < PSK_MAX_LEN"
  shows "ap_enable (Some c) cb obj e = Some (- 1, - 1, obj, e\<lparr>plat := Crash\<rparr>)"
proof -
  let ?f = "\<lambda>(d, m). map_outcome_of (\<lambda>(r, d). (r, d, m)) (outcome_of_option (linux_ap_hapd_enable (recorder f) (Some c) d))"
  have "linux_ap_hapd_enable (recorder f) (Some c) (d\<lparr>hapd_notified := []\<rparr>) = None"
    using enable_recorded[OF assms(6-8), of "d\<lparr>hapd_notified := []\<rparr>" c ssid p] assms(5,9-14) by simp
  then have "ap_plat (hapd_call ?f (- 1)) obj e = (- 1, e\<lparr>plat := Crash\<rparr>)"
    by (intro ap_plat_crash[OF assms(4)]) simp
  then show ?thesis
    using assms(1-3) by (simp add: ap_enable_def linux_ap_inf_def both_def c_true_def)
qed

text \<open>
  C15. What a command that switches the access point on sends. \<open>hostapd\<close> reports that it is off and
  answers every setting with \<open>OK\<close>; name, channel and key are ones that it can be given. When the key is
  shorter than its array of 32 bytes, the state is asked first, then the name, the channel,
  the kind of security and the key are sent in this order and the command to enable comes last; the
  configuration is kept for later queries, the call succeeds and the object records that the access point is on,
  without asking whether it is. A longer key is sent as well and then overruns its array: the platform is undefined.
\<close>

theorem ap_enable_configures:
  assumes "ap_init_flag obj" "hapd_run obj" "ap_platform_inf obj = Some (linux_ap_inf (recorder f))"
    and "plat e = Returns (d, m)" "hapd_ctrl_conn d" "obedient f" "f ''STATUS'' = r @ [NL]" "says_off r"
    and "ap_ssid c = Some ssid" "length ssid < SSID_MAX_LEN" "ap_channel c < 14"
    and "ap_psk c = Some p" "ap_key_ok (ap_sec c) p"
  shows "if length p < PSK_MAX_LEN
    then \<exists>d'. ap_enable (Some c) cb obj e =
        Some (WMG_STATUS_SUCCESS, WMG_STATUS_SUCCESS, obj\<lparr>ap_state := WIFI_AP_ENABLE\<rparr>, e\<lparr>plat := Returns (d', m)\<rparr>) \<and>
      hapd_os d' = hapd_os d @ [''STATUS''] @ settings ssid (ap_channel c) (ap_sec c) p @ [''ENABLE''] \<and>
      global_ap d' = \<lparr>global_ssid = ssid, global_psk = p, global_sec = ap_sec c, global_channel = ap_channel c,
        ap_config_enable = True\<rparr>
    else \<exists>ret. ap_enable (Some c) cb obj e = Some (ret, ret, obj, e\<lparr>plat := Crash\<rparr>)"
  using ap_enable_recorded[OF assms] ap_enable_overrun[OF assms] by auto

definition demo_ap_reply :: "string \<Rightarrow> string" where
  "demo_ap_reply cmd = (if cmd = ''STATUS'' then ''state=DISABLED'' @ [NL] else ''OK'' @ [NL])"

definition demo_ap_object :: "string list hapd_plat wmg_ap_object" where
  "demo_ap_object = ap_object_static\<lparr>ap_init_flag := True, ap_enabled := True, hapd_run := True,
     ap_state := WIFI_AP_ENABLE, ap_platform_inf := Some (linux_ap_inf (recorder demo_ap_reply))\<rparr>"

definition demo_ap_config :: "string \<Rightarrow> wifi_ap_config" where
  "demo_ap_config p = \<lparr>ap_ssid = Some ''robot'', ap_psk = Some p, ap_sec = WIFI_SEC_WPA2_PSK, ap_channel = 6\<rparr>"

lemma demo_says_off: "says_off ''state=DISABLED''"
  by (simp add: says_off_def starts_def strstr.simps)

lemma demo_obedient: "obedient demo_ap_reply" "demo_ap_reply ''STATUS'' = ''state=DISABLED'' @ [NL]"
  by (simp_all add: obedient_def demo_ap_reply_def)

theorem ap_enable_configures_witness:
  "\<exists>d'. ap_enable (Some (demo_ap_config ''secret12'')) 0 demo_ap_object \<lparr>plat = Returns (demo_hapd [], Map.empty), calls = []\<rparr> =
      Some (0, 0, demo_ap_object\<lparr>ap_state := WIFI_AP_ENABLE\<rparr>, \<lparr>plat = Returns (d', Map.empty), calls = []\<rparr>) \<and>
    hapd_os d' = [''STATUS'', ''SET ssid robot'', ''SET channel 6'', ''SET wpa 2'', ''SET wpa_key_mgmt WPA-PSK'',
      ''SET rsn_pairwise CCMP'', ''SET wpa_passphrase secret12'', ''ENABLE'']"
proof -
  have "(of_char (char_of (54 :: nat)) :: nat) = of_char (CHR ''6'')" by simp
  then have "dec 6 = ''6''" by (subst dec.simps) (simp only: of_char_eq_iff, simp)
  then show ?thesis
    using ap_enable_configures[of demo_ap_object demo_ap_reply "\<lparr>plat = Returns (demo_hapd [], Map.empty), calls = []\<rparr>"
        "demo_hapd []" Map.empty "''state=DISABLED''" "demo_ap_config ''secret12''" "''robot''" "''secret12''" 0]
      demo_obedient demo_says_off
    by (auto simp: demo_ap_object_def demo_ap_config_def ap_key_ok_def settings_def)
qed

text \<open>
  A passphrase of 32 to 63 characters, which WPA allows and \<open>hostapd\<close> has already taken, overruns the
  array that keeps it: the function comes to an end exactly for the shorter ones.
\<close>

theorem long_passphrase_overruns:
  assumes "ap_init_flag obj" "hapd_run obj" "ap_platform_inf obj = Some (linux_ap_inf (recorder f))"
    and "plat e = Returns (d, m)" "hapd_ctrl_conn d" "obedient f" "f ''STATUS'' = r @ [NL]" "says_off r"
    and "ap_ssid c = Some ssid" "length ssid < SSID_MAX_LEN" "ap_channel c < 14"
    and "ap_psk c = Some p" "ap_sec c = WIFI_SEC_WPA_PSK \<or> ap_sec c = WIFI_SEC_WPA2_PSK" "8 \<le> length p" "length p \<le> 63"
  shows "\<exists>ret obj' e'. ap_enable (Some c) cb obj e = Some (ret, ret, obj', e') \<and> (plat e' = Crash \<longleftrightarrow> 32 \<le> length p)"
proof (cases "length p < PSK_MAX_LEN")
  case True
  have "ap_key_ok (ap_sec c) p" using assms(13-15) by (auto simp: ap_key_ok_def)
  then obtain d' where "ap_enable (Some c) cb obj e =
      Some (WMG_STATUS_SUCCESS, WMG_STATUS_SUCCESS, obj\<lparr>ap_state := WIFI_AP_ENABLE\<rparr>, e\<lparr>plat := Returns (d', m)\<rparr>)"
    using ap_enable_recorded[OF assms(1-12) _ True] by blast
  then show ?thesis using True by simp
next
  case False
  have "ap_key_ok (ap_sec c) p" using assms(13-15) by (auto simp: ap_key_ok_def)
  from ap_enable_overrun[OF assms(1-12) this False] show ?thesis using False by simp
qed

theorem long_passphrase_overruns_witness:
  "\<exists>ret obj' e'. ap_enable (Some (demo_ap_config (replicate 32 CHR ''x''))) 0 demo_ap_object
      \<lparr>plat = Returns (demo_hapd [], Map.empty), calls = []\<rparr> = Some (ret, ret, obj', e') \<and> plat e' = Crash"
  using long_passphrase_overruns[of demo_ap_object demo_ap_reply "\<lparr>plat = Returns (demo_hapd [], Map.empty), calls = []\<rparr>"
      "demo_hapd []" Map.empty "''state=DISABLED''" "demo_ap_config (replicate 32 CHR ''x'')" "''robot''" "replicate 32 CHR ''x''" 0]
    demo_obedient demo_says_off
  by (simp add: demo_ap_object_def demo_ap_config_def)
section \<open>Reading the configuration back\<close>

text \<open>A reply of several lines, the last one without its newline.\<close>

fun lines_text :: "string list \<Rightarrow> string" where
  "lines_text [] = []"
| "lines_text [l] = l"
| "lines_text (l # ls) = l @ NL # lines_text ls"

definition line_ok :: "string \<Rightarrow> bool" where
  "line_ok l \<longleftrightarrow> l \<noteq> [] \<and> set l \<inter> {CHR 0x27, NL} = {}"

text \<open>A line that the reader passes over.\<close>

definition unread :: "string \<Rightarrow> bool" where
  "unread l \<longleftrightarrow> line_ok l \<and> \<not> starts ''ssid[0]='' l \<and> \<not> starts ''channel='' l \<and> \<not> starts ''num_sta[0]='' l"

fun read_lines :: "string list \<Rightarrow> ap_config_out \<Rightarrow> (int \<times> ap_config_out) option" where
  "read_lines [] c = Some (0, c)"
| "read_lines (l # ls) c = (case ap_token l c of None \<Rightarrow> None | Some (ok, c) \<Rightarrow> if ok then read_lines ls c else Some (- 1, c))"

lemma ap_tokens_lines: "list_all line_ok ls \<Longrightarrow> ap_tokens (lines_text ls) c = read_lines ls c"
proof (induction ls arbitrary: c rule: lines_text.induct)
  case 1
  then show ?case by (subst ap_tokens.simps) (simp add: strtok_def)
next
  case (2 l)
  then have "strtok [CHR 0x27, NL] l = Some (l, [])" by (intro strtok_field) (auto simp: line_ok_def)
  moreover have "ap_tokens [] c = Some (0, c)" for c by (subst ap_tokens.simps) (simp add: strtok_def)
  ultimately show ?case by (subst ap_tokens.simps) (simp split: option.split)
next
  case (3 l l' ls)
  then have "strtok [CHR 0x27, NL] (l @ NL # lines_text (l' # ls)) = Some (l, lines_text (l' # ls))"
    by (intro strtok_field) (auto simp: line_ok_def)
  then show ?case using 3 by (subst ap_tokens.simps) (simp split: option.split)
qed

lemma read_unread: "list_all unread ls \<Longrightarrow> read_lines (ls @ ms) c = read_lines ms c"
  by (induction ls) (auto simp: ap_token_def unread_def)

text \<open>The status as hostapd prints it when the access point is on the air, with what stands between.\<close>

definition status_lines :: "string list \<Rightarrow> nat \<Rightarrow> string list \<Rightarrow> string \<Rightarrow> nat \<Rightarrow> string list" where
  "status_lines before ch between ssid n =
     (''state=ENABLED'' # before) @ [''channel='' @ dec ch] @ between @ [''ssid[0]='' @ ssid, ''num_sta[0]='' @ dec n]"

lemma dec_line: "line_ok (''channel='' @ dec n)" "line_ok (''num_sta[0]='' @ dec n)"
proof -
  have "\<forall>c \<in> set (dec n). is_digit c" using dec_digits[of n] by (simp add: list_all_iff)
  then have "set (dec n) \<inter> {CHR 0x27, NL} = {}" by (auto simp: is_digit_def)
  then show "line_ok (''channel='' @ dec n)" "line_ok (''num_sta[0]='' @ dec n)" by (simp_all add: line_ok_def)
qed

lemma parse_status:
  assumes "list_all unread before" "list_all unread between" "set ssid \<inter> {CHR 0x27, NL} = {}"
    and "out_ssid c = Some a" "length ssid < length a" "length ssid \<le> SSID_MAX_LEN" "ch < 2 ^ 31" "n < 2 ^ 31"
  shows "parse_ap_config (lines_text (status_lines before ch between ssid n)) c =
    Some (0, c\<lparr>out_ssid := Some (ssid @ CHR 0x00 # drop (Suc (length ssid)) a), out_channel := of_nat ch, out_sta_num := of_nat n\<rparr>)"
proof -
  let ?ls = "status_lines before ch between ssid n"
  have ok: "list_all line_ok ?ls"
    using assms(1-3) dec_line by (auto simp: status_lines_def list_all_iff unread_def line_ok_def)
  have "unread ''state=ENABLED''" by (simp add: unread_def line_ok_def starts_def)
  then have "read_lines ?ls c = read_lines ([''channel='' @ dec ch] @ between @ [''ssid[0]='' @ ssid, ''num_sta[0]='' @ dec n]) c"
    using assms(1) unfolding status_lines_def by (intro read_unread) simp
  also have "\<dots> = read_lines (between @ [''ssid[0]='' @ ssid, ''num_sta[0]='' @ dec n]) (c\<lparr>out_channel := of_nat ch\<rparr>)"
    using assms(7) by (simp add: ap_token_def starts_def atoi_str_dec)
  also have "\<dots> = read_lines [''ssid[0]='' @ ssid, ''num_sta[0]='' @ dec n] (c\<lparr>out_channel := of_nat ch\<rparr>)"
    by (rule read_unread[OF assms(2)])
  also have "\<dots> = Some (0, c\<lparr>out_ssid := Some (ssid @ CHR 0x00 # drop (Suc (length ssid)) a), out_channel := of_nat ch,
      out_sta_num := of_nat n\<rparr>)"
    using assms(4-6,8) by (simp add: ap_token_def starts_def atoi_str_dec strcpy_def)
  finally have r: "ap_tokens (lines_text ?ls) c =
      Some (0, c\<lparr>out_ssid := Some (ssid @ CHR 0x00 # drop (Suc (length ssid)) a), out_channel := of_nat ch, out_sta_num := of_nat n\<rparr>)"
    by (simp add: ap_tokens_lines[OF ok])
  obtain t where t: "lines_text ?ls = ''state=ENABLED'' @ t" by (cases before) (auto simp: status_lines_def)
  have "strstr ''state'' (lines_text ?ls) = Some ([], lines_text ?ls)"
    by (subst strstr.simps) (simp add: t starts_def)
  then show ?thesis using r by (simp add: parse_ap_config_def t starts_def)
qed
text \<open>What an enable that succeeds leaves: every command was accepted, so the configuration was kept.\<close>

lemma hapd_then_success:
  "hapd_then k cmd g d = Some (0, d') \<Longrightarrow> \<exists>e. hapd_frame d e \<and> g e = Some (0, d')"
  by (auto simp: hapd_then_def split: option.splits prod.splits if_splits dest: command_hapd_frame)

lemma set_passphrase_success:
  assumes "set_passphrase k wpa psk g d = Some (0, d')"
  shows "\<exists>e. hapd_frame d e \<and> g e = Some (0, d')"
  using assms
  by (auto simp: set_passphrase_def split: option.splits if_splits dest!: hapd_then_success) (meson hapd_frame_trans)

lemma set_security_success:
  assumes "set_security k c g d = Some (0, d')"
  shows "\<exists>e. hapd_frame d e \<and> g e = Some (0, d')"
proof (cases "ap_sec c")
  case WIFI_SEC_WEP
  then show ?thesis using assms
    by (auto simp: set_security_def split: option.splits if_splits dest!: hapd_then_success) (meson hapd_frame_trans)+
qed (use assms in \<open>auto simp: set_security_def dest: hapd_then_success set_passphrase_success\<close>)

lemma set_config_success:
  assumes "linux_ap_hapd_set_config k (Some c) d = Some (0, d')"
  shows "\<exists>e. hapd_frame d e \<and> keep_config c e = Some (0, d')"
proof -
  obtain ssid where s: "ap_ssid c = Some ssid" using assms by (cases "ap_ssid c") (auto simp: linux_ap_hapd_set_config_def)
  then obtain e1 where e1: "hapd_frame d e1" "ap_channel c < 14"
    "hapd_then k (''SET channel '' @ dec (unat (ap_channel c))) (set_security k c (keep_config c)) e1 = Some (0, d')"
    using assms by (auto simp: linux_ap_hapd_set_config_def split: if_splits dest!: hapd_then_success)
  then obtain e2 where e2: "hapd_frame e1 e2" "set_security k c (keep_config c) e2 = Some (0, d')" by (auto dest: hapd_then_success)
  then show ?thesis using e1(1) set_security_success by (meson hapd_frame_trans)
qed

lemma enable_success:
  assumes "linux_ap_hapd_enable k (Some c) d = Some (0, d')" "ap_ssid c = Some ssid" "ap_psk c = Some p"
  shows "length ssid < SSID_MAX_LEN \<and> ap_config_enable (global_ap d') \<and> global_psk (global_ap d') = p \<and>
    ap_dev_list d' = ap_dev_list d"
proof -
  obtain st d1 where s: "linux_ap_hapd_cmd_status k d = (st, d1)" by fastforce
  obtain r d2 where r: "(if st = 0 then linux_ap_hapd_cmd_disable k d1 else (0, d1)) = (r, d2)" by fastforce
  have f2: "hapd_frame d d2"
    using r status_frame[OF s] by (auto split: if_splits intro: hapd_frame_trans dest: hapd_disable_frame)
  obtain r3 d3 where d3: "linux_ap_hapd_set_config k (Some c) d2 = Some (r3, d3)"
    using assms(1) s r by (cases "linux_ap_hapd_set_config k (Some c) d2") (auto simp: linux_ap_hapd_enable_def Let_def split: if_splits)
  obtain v d4 where e: "linux_ap_hapd_cmd_enable k d3 = (v, d4)" by fastforce
  have d': "r3 = 0" "global_ap d' = global_ap d4" "ap_dev_list d' = ap_dev_list d4"
    using assms(1) s r d3 e by (auto simp: linux_ap_hapd_enable_def Let_def c_true_def hos_do_def split: if_splits)
  obtain x where x: "hapd_frame d2 x" "keep_config c x = Some (0, d3)" using set_config_success d3 d'(1) by blast
  then have "length ssid < SSID_MAX_LEN" "ap_config_enable (global_ap d3)" "global_psk (global_ap d3) = p" "ap_dev_list d3 = ap_dev_list x"
    using assms(2,3) by (auto simp: keep_config_def bind_eq_Some_conv)
  then show ?thesis
    using d'(2,3) frame_flags[OF hapd_enable_frame[OF e]] frame_flags(3)[OF x(1)] frame_flags(3)[OF f2] by simp
qed

lemma copy_devices_reads:
  assumes "\<forall>b \<in> set bs. length b < BSSID_LEN \<and> CHR 0x00 \<notin> set b" "\<forall>x \<in> set ps. \<exists>a. x = Some a \<and> BSSID_LEN \<le> length a"
  shows "\<exists>ps'. copy_devices bs ps = Some ps' \<and>
    map (\<lambda>x. Option.bind x c_str) (take (length bs) ps') = map Some (take (length ps) bs)"
  using assms
proof (induction bs ps rule: copy_devices.induct)
  case (3 b bs p ps)
  then obtain a where a: "p = Some a" "\<not> length a < BSSID_LEN" by auto
  then obtain ps' where "copy_devices bs ps = Some ps'"
    "map (\<lambda>x. Option.bind x c_str) (take (length bs) ps') = map Some (take (length ps) bs)"
    using 3 by auto
  then show ?case using a 3(2) by (auto simp: c_str_strncpy)
qed simp_all

text \<open>
  C30. What was set is what is read back: after the access point was switched on with success, and when
  hostapd reports the channel and the name it was given, a query returns in the caller's arrays
  the name, the channel, the passphrase that was set, the number of stations that hostapd counts,
  and the addresses of the devices, as many as the array has places. Other lines of the status
  do not matter; names have no quote and no newline.
\<close>

theorem ap_config_roundtrip:
  assumes "linux_ap_hapd_enable k (Some c) d0 = Some (0, d)" "ap_ssid c = Some ssid" "ap_psk c = Some p"
    and "hapd_ctrl_conn d" "reply = lines_text (status_lines before (unat (ap_channel c)) between ssid n)"
    and "fst (os_request k ''STATUS'' (hapd_os d)) = (0, reply @ [NL])" "length reply + 1 < EVENT_BUF_SIZE"
    and "strstr ''state=DISABLED'' reply = None" "list_all unread before" "list_all unread between"
    and "set ssid \<inter> {CHR 0x27, NL, CHR 0x00} = {}" "CHR 0x00 \<notin> set p" "n < 2 ^ 31"
    and "ap_dev_list d0 = Devices bs" "\<forall>b \<in> set bs. length b < BSSID_LEN \<and> CHR 0x00 \<notin> set b"
    and "out_ssid out = Some a" "length ssid < length a" "out_psk out = Some q" "length p < length q"
    and "\<forall>x \<in> set (out_dev_list out). \<exists>a. x = Some a \<and> BSSID_LEN \<le> length a"
  shows "\<exists>out' d'. linux_ap_hapd_get_config k out d = Some (WMG_STATUS_SUCCESS, out', d') \<and>
    Option.bind (out_ssid out') c_str = Some ssid \<and> Option.bind (out_psk out') c_str = Some p \<and>
    out_channel out' = ap_channel c \<and> out_sta_num out' = of_nat n \<and>
    map (\<lambda>x. Option.bind x c_str) (take (length bs) (out_dev_list out')) = map Some (take (length (out_dev_list out)) bs)"
proof -
  have en: "length ssid < SSID_MAX_LEN" "ap_config_enable (global_ap d)" "global_psk (global_ap d) = p" "ap_dev_list d = Devices bs"
    using enable_success[OF assms(1-3)] assms(14) by simp_all
  obtain s where s: "os_request k ''STATUS'' (hapd_os d) = ((0, reply @ [NL]), s)" using assms(6) by (metis prod.collapse)
  have nf: "\<not> starts ''FAIL'' (reply @ [NL])"
    by (cases before) (auto simp: assms(5) status_lines_def starts_def)
  let ?d = "d\<lparr>hapd_os := s\<rparr>"
  have cmd: "command_to_hostapd k ''STATUS'' EVENT_BUF_SIZE d = (0, Some reply, ?d)"
    using assms(4,7) s nf by (simp add: command_to_hostapd_def hapd_send_command_def on_hos_def strip_newline_def)
  let ?o = "out\<lparr>out_ssid := Some (ssid @ CHR 0x00 # drop (Suc (length ssid)) a), out_channel := ap_channel c, out_sta_num := of_nat n\<rparr>"
  have "unat (ap_channel c) < 2 ^ LENGTH(8)" by (rule unsigned_less)
  then have "unat (ap_channel c) < 2 ^ 31" by simp
  then have p: "parse_ap_config reply out = Some (0, ?o)"
    using parse_status[OF assms(9,10), of ssid out a "unat (ap_channel c)" n] assms(5,11,13,16,17) en(1) by auto
  obtain ps where ps: "copy_devices bs (out_dev_list out) = Some ps"
    "map (\<lambda>x. Option.bind x c_str) (take (length bs) ps) = map Some (take (length (out_dev_list out)) bs)"
    using copy_devices_reads[OF assms(15,20)] by blast
  have "linux_ap_hapd_get_config k out d = Some (WMG_STATUS_SUCCESS,
      ?o\<lparr>out_psk := Some (p @ CHR 0x00 # drop (Suc (length p)) q), out_dev_list := ps\<rparr>, ?d)"
    using cmd assms(8,18,19) p en ps(1) by (simp add: linux_ap_hapd_get_config_def c_true_def strcpy_def)
  then show ?thesis
    using assms(11,12) ps(2) by (simp add: c_str_NUL)
qed

text \<open>The kernel for an example: hostapd answers the first status with off, the next with on.\<close>

definition demo_status :: string where
  "demo_status = lines_text (status_lines [''phy=phy0''] 6 [''bss[0]=wlan0''] ''robot'' 1)"

definition ap_kernel :: "string list wpa_os" where
  "ap_kernel = (recorder (\<lambda>_. []))\<lparr>os_request := \<lambda>cmd log.
     ((0, if cmd \<noteq> ''STATUS'' then ''OK'' else if log = [] then ''state=DISABLED'' else demo_status @ [NL]), log @ [cmd])\<rparr>"

definition ap_buffers :: ap_config_out where
  "ap_buffers = \<lparr>out_ssid = Some (replicate 64 CHR 0x00), out_psk = Some (replicate 32 CHR 0x00), out_sec = WIFI_SEC_NONE,
     out_channel = 0, out_dev_list = replicate 20 (Some (replicate 48 CHR 0x00)), out_sta_num = 0\<rparr>"

lemma demo_status_len: "length demo_status < 200"
proof -
  have "length (dec 6) \<le> 1" "length (dec 1) \<le> 1" using length_dec_le[of 6 1] length_dec_le[of 1 1] by simp_all
  then show ?thesis by (simp add: demo_status_def status_lines_def)
qed

lemma ap_kernel_set:
  assumes "hapd_ctrl_conn d" "cmd \<noteq> ''STATUS''" "cmd \<noteq> []"
  shows "command_to_hostapd ap_kernel cmd EVENT_BUF_SIZE d = (0, Some ''OK'', d\<lparr>hapd_os := hapd_os d @ [cmd]\<rparr>)"
  using assms by (simp add: command_to_hostapd_def hapd_send_command_def on_hos_def ap_kernel_def starts_def strip_newline_def)

lemma ap_kernel_off:
  assumes "hapd_ctrl_conn d" "hapd_os d = []"
  shows "linux_ap_hapd_cmd_status ap_kernel d = (1, d\<lparr>hapd_os := [''STATUS'']\<rparr>)"
proof -
  have st: "strstr ''state=ENABLED'' ''state=DISABLED'' = None" "strstr ''state=DISABLED'' ''state=DISABLED'' \<noteq> None"
    by (simp_all add: strstr.simps starts_def)
  have "command_to_hostapd ap_kernel ''STATUS'' EVENT_BUF_SIZE d = (0, Some ''state=DISABLED'', d\<lparr>hapd_os := [''STATUS'']\<rparr>)"
    using assms by (simp add: command_to_hostapd_def hapd_send_command_def on_hos_def ap_kernel_def starts_def strip_newline_def)
  then show ?thesis using st by (simp add: linux_ap_hapd_cmd_status_def)
qed

theorem ap_config_roundtrip_witness:
  "\<exists>d out' d'. linux_ap_hapd_enable ap_kernel (Some (demo_ap_config ''secret12'')) (demo_hapd []) = Some (0, d) \<and>
     linux_ap_hapd_get_config ap_kernel ap_buffers d = Some (0, out', d') \<and>
     Option.bind (out_ssid out') c_str = Some ''robot'' \<and> Option.bind (out_psk out') c_str = Some ''secret12'' \<and>
     out_channel out' = 6 \<and> out_sta_num out' = 1"
proof -
  have ok: "hapd_ok (demo_hapd [])" by (simp add: hapd_ok_def demo_hapd_defs)
  have "config_fits c" if "Some (demo_ap_config ''secret12'') = Some c" for c
    using that by (auto simp: config_fits_def demo_ap_config_def)
  then obtain r d where e: "linux_ap_hapd_enable ap_kernel (Some (demo_ap_config ''secret12'')) (demo_hapd []) = Some (r, d)"
    using hapd_enable_ok[OF ok, of "Some (demo_ap_config ''secret12'')" ap_kernel] by (auto simp: returns_ok_def)
  have sys: "hos_do (os_system ap_kernel x) e = e" "hos_do (os_sleep ap_kernel m) e = e" for x m e
    by (simp_all add: hos_do_def ap_kernel_def recorder_def)
  have "length (dec 6) \<le> 1" using length_dec_le[of 6 1] by simp
  then have rd: "r = 0" "hapd_ctrl_conn d" "hapd_os d \<noteq> []"
    using e
    by (auto simp: linux_ap_hapd_enable_def ap_kernel_off linux_ap_hapd_set_config_def set_security_def set_passphrase_def
        hapd_then_def ap_kernel_set demo_ap_config_def fits_def keep_config_def linux_ap_hapd_cmd_enable_def sys)
  have dg: "CHR ''I'' \<notin> set (dec m)" for m using dec_digits[of m] by (auto simp: list_all_iff is_digit_def)
  have "CHR ''I'' \<notin> set demo_status" using dg by (simp add: demo_status_def status_lines_def)
  then have off: "strstr ''state=DISABLED'' demo_status = None" by (intro strstr_absent[of "CHR ''I''"]) simp_all
  have "\<exists>out' d'. linux_ap_hapd_get_config ap_kernel ap_buffers d = Some (WMG_STATUS_SUCCESS, out', d') \<and>
    Option.bind (out_ssid out') c_str = Some ''robot'' \<and> Option.bind (out_psk out') c_str = Some ''secret12'' \<and>
    out_channel out' = ap_channel (demo_ap_config ''secret12'') \<and> out_sta_num out' = of_nat 1 \<and>
    map (\<lambda>x. Option.bind x c_str) (take (length ([] :: string list)) (out_dev_list out')) = map Some (take (length (out_dev_list ap_buffers)) [])"
  proof (rule ap_config_roundtrip)
    show "linux_ap_hapd_enable ap_kernel (Some (demo_ap_config ''secret12'')) (demo_hapd []) = Some (0, d)" using e rd(1) by simp
    show "demo_status = lines_text (status_lines [''phy=phy0''] (unat (ap_channel (demo_ap_config ''secret12''))) [''bss[0]=wlan0''] ''robot'' 1)"
      by (simp add: demo_status_def demo_ap_config_def)
    show "fst (os_request ap_kernel ''STATUS'' (hapd_os d)) = (0, demo_status @ [NL])" using rd(3) by (simp add: ap_kernel_def)
    show "out_ssid ap_buffers = Some (replicate 64 CHR 0x00)" "out_psk ap_buffers = Some (replicate 32 CHR 0x00)"
      by (simp_all add: ap_buffers_def)
  qed (use rd(2) off demo_status_len in \<open>simp_all add: demo_ap_config_def ap_buffers_def unread_def line_ok_def starts_def\<close>)
  then show ?thesis using e rd(1) by (auto simp: demo_ap_config_def)
qed

end
