(* ===== verification/Hapd_Lifecycle.thy ===== *)
theory Hapd_Lifecycle
  imports Hapd_Config
begin

text \<open>
  The access point over several calls of the manager: switched away and back, and torn down while
  \<open>hostapd\<close> cannot be killed.
\<close>

section \<open>Calls through the access point object\<close>

lemma ap_events_plat: "plat (fold (\<lambda>ev. ap_hapd_event_notify ev obj) evs e) = plat e"
  by (induction evs arbitrary: e) (simp_all add: ap_hapd_event_notify_def invoke_cb_def split: option.split)

lemma ap_plat_inverse:
  assumes "ap_plat (hapd_call f dflt) obj e = (r, e')" "plat e' = Returns (d', m')"
  obtains d m where "plat e = Returns (d, m)" "f (d\<lparr>hapd_notified := []\<rparr>, m) = Returns (r, d', m')"
proof -
  have p: "plat e' = snd (snd (hapd_call f dflt (plat e)))" "r = fst (hapd_call f dflt (plat e))"
    using assms(1) by (auto simp: ap_plat_def ap_events_plat split: prod.splits)
  show ?thesis
  proof (cases "plat e")
    case (Returns x)
    obtain d m where x: "x = (d, m)" by fastforce
    show ?thesis
    proof (cases "f (d\<lparr>hapd_notified := []\<rparr>, m)")
      case (Returns y)
      then show ?thesis using that \<open>plat e = Returns x\<close> x p assms(2) by (cases y) (auto simp: hapd_call_def)
    qed (use \<open>plat e = Returns x\<close> x p assms(2) in \<open>simp_all add: hapd_call_def\<close>)
  qed (use p assms(2) in \<open>simp_all add: hapd_call_def\<close>)
qed

lemma connect_starts_thread:
  assumes "linux_connect_to_hostapd k d = Some (0, d')" "hapd_ok d" "ap_hapd_init_flag d"
  shows "hapd_threads d' = Suc (hapd_threads d) \<and> ap_pid d' \<and> ap_hapd_init_flag d'"
proof -
  obtain ok1 d1 where s1: "stop_supplicant k d = (ok1, d1)" by fastforce
  obtain e d2 where s2: "on_hos (check_process_is_exist k ''hostapd'' 7) d1 = (e, d2)" by fastforce
  obtain st d3 where s3: "(if e = 0 then start_hostapd 2 k d2 else (0, d2)) = (st, d3)" by fastforce
  obtain there d4 where s4: "on_hos (os_access k ''/var/run/hostapd'') d3 = (there, d4)" by fastforce
  obtain r5 d5 where s5: "hostapd_connect_on_socket_path k d4 = (r5, d5)" by fastforce
  have f3: "hapd_frame d2 d3" using s3 start_hostapd_frame by (auto split: if_splits)
  have f: "hapd_frame d d4"
    by (rule hapd_frame_trans[OF hapd_frame_trans[OF hapd_frame_trans[OF stop_supplicant_frame[OF s1] on_hos_frame[OF s2]] f3]
          on_hos_frame[OF s4]])
  have ok: "hapd_ok d4" "ap_hapd_init_flag d4" "hapd_threads d4 = hapd_threads d"
    using hapd_ok_cmd[OF f assms(2)] frame_flags[OF f] assms(3) by simp_all
  have d5: "hapd_threads d5 = hapd_threads d" "ap_hapd_init_flag d5"
    using socket_path_ok[OF ok(1,2) s5] ok(3) by simp_all
  have "hapd_start_thread k d5 = Some (0, d')"
    using assms(1) s1 s2 s3 s4 s5 by (auto simp: linux_connect_to_hostapd_def split: if_splits)
  then show ?thesis
    using d5 by (auto simp: hapd_start_thread_def on_hos_def Let_def split: option.splits prod.splits if_splits)
qed

lemma off_keeps_thread:
  assumes "linux_ap_hapd_disable k d = (r, d')"
  shows "hapd_threads d' = hapd_threads d \<and> ap_hapd_init_flag d' = ap_hapd_init_flag d"
proof -
  obtain st d1 where s: "linux_ap_hapd_cmd_status k d = (st, d1)" by fastforce
  obtain v d2 where v: "linux_ap_hapd_cmd_disable k d1 = (v, d2)" by fastforce
  note f1 = status_frame[OF s] and f2 = hapd_frame_trans[OF status_frame[OF s] hapd_disable_frame[OF v]]
  show ?thesis
    using assms s v frame_flags[OF f1] frame_flags[OF f2] by (auto simp: linux_ap_hapd_disable_def hos_do_def split: if_splits)
qed

lemma hapd_ok_notified [simp]: "hapd_ok (d\<lparr>hapd_notified := ns\<rparr>) = hapd_ok d"
  by (simp add: hapd_ok_def)

text \<open>What one change of the mode does to the platform.\<close>

lemma mode_enable_connects:
  assumes "ap_mode_enable obj e = Some (0, obj', e')" "ap_init_flag obj" "\<not> ap_enabled obj"
    and "ap_platform_inf obj = Some (linux_ap_inf k)" "plat e' = Returns (d', m')"
  obtains d m where "plat e = Returns (d, m)" "linux_connect_to_hostapd k (d\<lparr>hapd_notified := []\<rparr>) = Some (0, d')"
    "ap_enabled obj'" "ap_init_flag obj'" "ap_platform_inf obj' = ap_platform_inf obj"
proof -
  let ?f = "\<lambda>(d, m). map_outcome_of (\<lambda>(r, d). (r, d, m)) (outcome_of_option (linux_connect_to_hostapd k d))"
  obtain r e1 where p: "ap_plat (hapd_call ?f (- 1)) obj e = (r, e1)" by fastforce
  then have r: "r = 0" "e' = e1" "ap_enabled obj'" "ap_init_flag obj'" "ap_platform_inf obj' = ap_platform_inf obj"
    using assms(1-4) by (auto simp: ap_mode_enable_def linux_ap_inf_def c_true_def split: if_splits)
  then obtain d m where d: "plat e = Returns (d, m)" "?f (d\<lparr>hapd_notified := []\<rparr>, m) = Returns (0, d', m')"
    using ap_plat_inverse[OF p] assms(5) by blast
  then have "linux_connect_to_hostapd k (d\<lparr>hapd_notified := []\<rparr>) = Some (0, d')"
    by (cases "linux_connect_to_hostapd k (d\<lparr>hapd_notified := []\<rparr>)") auto
  then show ?thesis using that d(1) r(3-5) by blast
qed

lemma mode_disable_keeps:
  assumes "ap_mode_disable obj e = Some (r, obj', e')" "ap_init_flag obj" "ap_enabled obj"
    and "ap_platform_inf obj = Some (linux_ap_inf k)" "plat e' = Returns (d', m')"
  obtains d m v where "plat e = Returns (d, m)" "linux_ap_hapd_disable k (d\<lparr>hapd_notified := []\<rparr>) = (v, d')"
    "\<not> ap_enabled obj'" "ap_init_flag obj'" "ap_platform_inf obj' = ap_platform_inf obj"
proof -
  let ?f = "\<lambda>(d, m). let (r, d) = linux_ap_hapd_disable k d in Returns (r, d, m)"
  obtain v e1 where p: "ap_plat (hapd_call ?f (- 1)) obj e = (v, e1)" by fastforce
  then have r: "e' = e1" "\<not> ap_enabled obj'" "ap_init_flag obj'" "ap_platform_inf obj' = ap_platform_inf obj"
    using assms(1-4) by (auto simp: ap_mode_disable_def linux_ap_inf_def)
  then obtain d m where d: "plat e = Returns (d, m)" "?f (d\<lparr>hapd_notified := []\<rparr>, m) = Returns (v, d', m')"
    using ap_plat_inverse[OF p] assms(5) by blast
  then have "linux_ap_hapd_disable k (d\<lparr>hapd_notified := []\<rparr>) = (v, d')" by (auto split: prod.splits)
  then show ?thesis using that d(1) r(2-4) by blast
qed

text \<open>
  Switching the access point mode off and on again, as a switch to another mode and back does,
  leaves a thread behind each time: the connections are not closed in between, the second
  connect starts a second listening thread and forgets the id of the first, and tearing the
  platform down ends only one of them.
\<close>

theorem reenabled_ap_leaks_thread:
  assumes "ap_init_flag obj" "\<not> ap_enabled obj" "ap_platform_inf obj = Some (linux_ap_inf k)"
    and "plat e = Returns (d, m)" "hapd_ok d" "ap_hapd_init_flag d"
    and "ap_mode_enable obj e = Some (0, obj1, e1)" "ap_mode_disable obj1 e1 = Some (r, obj2, e2)"
    and "ap_mode_enable obj2 e2 = Some (0, obj3, e3)" "plat e3 = Returns (d3, m3)"
  shows "hapd_threads d3 = hapd_threads d + 2 \<and>
    (\<exists>d4. linux_ap_hapd_deinit k d3 = Some d4 \<and> hapd_threads d4 = hapd_threads d + 1)"
proof -
  have o1: "ap_enabled obj1" "ap_init_flag obj1" "ap_platform_inf obj1 = Some (linux_ap_inf k)"
    using assms(1-3,7) by (auto simp: ap_mode_enable_def split: if_splits prod.splits)
  then have o2: "\<not> ap_enabled obj2" "ap_init_flag obj2" "ap_platform_inf obj2 = Some (linux_ap_inf k)"
    using assms(8) by (auto simp: ap_mode_disable_def split: if_splits prod.splits)
  obtain d2 m2 where d2: "plat e2 = Returns (d2, m2)" "linux_connect_to_hostapd k (d2\<lparr>hapd_notified := []\<rparr>) = Some (0, d3)"
    using mode_enable_connects[OF assms(9) o2(2,1,3) assms(10)] by blast
  obtain d1 m1 v where d1: "plat e1 = Returns (d1, m1)" "linux_ap_hapd_disable k (d1\<lparr>hapd_notified := []\<rparr>) = (v, d2)"
    using mode_disable_keeps[OF assms(8) o1(2,1,3) d2(1)] by blast
  have d0: "linux_connect_to_hostapd k (d\<lparr>hapd_notified := []\<rparr>) = Some (0, d1)"
    using mode_enable_connects[OF assms(7,1-3) d1(1)] assms(4) by auto
  have t1: "hapd_threads d1 = Suc (hapd_threads d)" "ap_hapd_init_flag d1" "hapd_ok d1"
    using connect_starts_thread[OF d0] hapd_connect_ok[of "d\<lparr>hapd_notified := []\<rparr>" k] assms(5,6) d0 by (auto simp: returns_ok_def)
  have t2: "hapd_threads d2 = Suc (hapd_threads d)" "ap_hapd_init_flag d2" "hapd_ok d2"
    using off_keeps_thread[OF d1(2)] hapd_off_ok[OF _ d1(2)] t1 by auto
  have t3: "hapd_threads d3 = hapd_threads d + 2" "ap_pid d3" "ap_hapd_init_flag d3" "hapd_ok d3"
    using connect_starts_thread[OF d2(2)] hapd_connect_ok[of "d2\<lparr>hapd_notified := []\<rparr>" k] t2 d2(2) by (auto simp: returns_ok_def)
  obtain bs h where bs: "ap_dev_list d3 = Devices bs" "ap_event_handle d3 = Some h" using t3(3,4) by (auto simp: hapd_ok_def)
  obtain x where x: "hapd_release d3 = Some x" "hapd_threads x = hapd_threads d + 1"
    using hapd_release_effect[OF bs] t3 by auto
  obtain q y where y: "kill_process k ''hostapd'' x = (q, y)" by fastforce
  obtain q2 z where z: "kill_process k ''dnsmasq'' (if q = 1 then y\<lparr>ap_hapd_exist := False\<rparr> else y) = (q2, z)" by fastforce
  have "hapd_threads y = hapd_threads d + 1" "hapd_threads z = hapd_threads d + 1"
    using frame_flags(7)[OF kill_frame[OF y]] frame_flags(7)[OF kill_frame[OF z]] x(2) by (auto split: if_splits)
  then show ?thesis
    using t3 x(1) y z by (simp add: linux_ap_hapd_deinit_def hos_do_def)
qed
text \<open>A kernel on which hostapd runs and cannot be killed, and everything else succeeds.\<close>

definition busy :: "string list wpa_os" where
  "busy = (recorder (\<lambda>_. ''OK''))\<lparr>os_popen := \<lambda>cmd. Pair (Some (if cmd = ''ps | grep hostapd | grep -v grep'' then 1 else 0))\<rparr>"

lemma busy_exists:
  "check_process_is_exist busy ''hostapd'' 7 s = (1, s)" "check_process_is_exist busy ''wpa_supplicant'' 14 s = (0, s)"
  by (simp_all add: check_process_is_exist_def busy_def)

lemma busy_connect:
  assumes "hapd_ok d" "ap_hapd_init_flag d"
  shows "\<exists>d'. linux_connect_to_hostapd busy d = Some (0, d')"
proof -
  obtain h where h: "ap_event_handle d = Some h" using assms by (auto simp: hapd_ok_def)
  obtain r h1 where i: "evt_socket_init (Some (3, 4)) h = (r, h1)" by fastforce
  have r: "r = 0" using pipe_init[OF i] by simp
  have k: "os_access busy p s = (True, s)" "os_open busy s = (True, s)" "os_attach busy s = (True, s)"
    "os_socketpair busy s = (Some (3, 4), s)" "os_thread busy s = (True, s)" for p s
    by (simp_all add: busy_def recorder_def)
  show ?thesis
    using h i r
    by (simp add: linux_connect_to_hostapd_def stop_supplicant_def on_hos_def busy_exists k hostapd_connect_on_socket_path_def
        open_hapd.simps[of _ _ d] hapd_start_thread_def case_prod_beta Let_def)
qed

definition started_ap :: "string list hapd_plat wmg_ap_object" where
  "started_ap = ap_object_static\<lparr>ap_init_flag := True, ap_platform_inf := Some (linux_ap_inf busy)\<rparr>"

lemma busy_mode_enable:
  assumes "ap_init_flag obj" "\<not> ap_enabled obj" "ap_platform_inf obj = Some (linux_ap_inf busy)"
    and "plat e = Returns (d, m)" "hapd_ok d" "ap_hapd_init_flag d"
  shows "\<exists>obj' e' d' m'. ap_mode_enable obj e = Some (0, obj', e') \<and> plat e' = Returns (d', m') \<and>
    linux_connect_to_hostapd busy (d\<lparr>hapd_notified := []\<rparr>) = Some (0, d')"
proof -
  obtain d' where "linux_connect_to_hostapd busy (d\<lparr>hapd_notified := []\<rparr>) = Some (0, d')"
    using busy_connect[of "d\<lparr>hapd_notified := []\<rparr>"] assms(5,6) by auto
  then show ?thesis
    using assms(1-4) by (simp add: ap_mode_enable_def linux_ap_inf_def ap_plat_def hapd_call_def ap_events_plat c_true_def)
qed

theorem reenabled_ap_leaks_thread_witness:
  "\<exists>obj1 e1 r obj2 e2 obj3 e3 d3 m3.
     ap_mode_enable started_ap \<lparr>plat = Returns (demo_hapd [], Map.empty), calls = []\<rparr> = Some (0, obj1, e1) \<and>
     ap_mode_disable obj1 e1 = Some (r, obj2, e2) \<and> ap_mode_enable obj2 e2 = Some (0, obj3, e3) \<and>
     plat e3 = Returns (d3, m3) \<and> hapd_threads d3 = hapd_threads (demo_hapd []) + 2"
proof -
  let ?e = "\<lparr>plat = Returns (demo_hapd [], Map.empty), calls = []\<rparr>"
  have s: "ap_init_flag started_ap" "\<not> ap_enabled started_ap" "ap_platform_inf started_ap = Some (linux_ap_inf busy)"
    by (simp_all add: started_ap_def ap_object_static_def)
  have ok: "hapd_ok (demo_hapd [])" "ap_hapd_init_flag (demo_hapd [])" by (simp_all add: hapd_ok_def demo_hapd_defs)
  obtain obj1 e1 d1 m1 where e1: "ap_mode_enable started_ap ?e = Some (0, obj1, e1)" "plat e1 = Returns (d1, m1)"
    "linux_connect_to_hostapd busy ((demo_hapd [])\<lparr>hapd_notified := []\<rparr>) = Some (0, d1)"
    using busy_mode_enable[OF s, of ?e "demo_hapd []" Map.empty] ok by auto
  have o1: "ap_enabled obj1" "ap_init_flag obj1" "ap_platform_inf obj1 = Some (linux_ap_inf busy)"
    using mode_enable_connects[OF e1(1) s e1(2)] s(3) by auto
  have d1: "hapd_ok d1" "ap_hapd_init_flag d1"
    using hapd_connect_ok[of "(demo_hapd [])\<lparr>hapd_notified := []\<rparr>" busy] connect_starts_thread[OF e1(3)] ok e1(3)
    by (auto simp: returns_ok_def)
  obtain v d2 where v: "linux_ap_hapd_disable busy (d1\<lparr>hapd_notified := []\<rparr>) = (v, d2)" by fastforce
  have d2: "hapd_ok d2" "ap_hapd_init_flag d2" using off_keeps_thread[OF v] hapd_off_ok[OF _ v] d1 by auto
  obtain r obj2 e2 where e2: "ap_mode_disable obj1 e1 = Some (r, obj2, e2)" "plat e2 = Returns (d2, m1)"
    using o1 e1(2) v by (simp add: ap_mode_disable_def linux_ap_inf_def ap_plat_def hapd_call_def ap_events_plat)
  have o2: "\<not> ap_enabled obj2" "ap_init_flag obj2" "ap_platform_inf obj2 = Some (linux_ap_inf busy)"
    using mode_disable_keeps[OF e2(1) o1(2,1,3) e2(2)] o1(3) by auto
  obtain obj3 e3 d3 m3 where e3: "ap_mode_enable obj2 e2 = Some (0, obj3, e3)" "plat e3 = Returns (d3, m3)"
    using busy_mode_enable[OF o2(2,1,3) e2(2) d2] by blast
  have "plat ?e = Returns (demo_hapd [], Map.empty)" by simp
  from reenabled_ap_leaks_thread[OF s this ok e1(1) e2(1) e3] show ?thesis using e1(1) e2(1) e3 by blast
qed

section \<open>A hostapd that cannot be killed\<close>

text \<open>
  When hostapd survives the kill, tearing the platform down leaves the object initialised although
  its list of devices is freed: initialising it again does nothing, and tearing it down again
  uses the freed list.
\<close>

theorem failed_kill_leaves_freed_list:
  assumes "hapd_ok d" "ap_hapd_init_flag d" "\<forall>s. fst (check_process_is_exist k ''hostapd'' 7 s) = 1"
  shows "\<exists>d'. linux_ap_hapd_deinit k d = Some d' \<and> ap_hapd_init_flag d' \<and> ap_dev_list d' = Freed_List \<and>
    linux_ap_hapd_init k d' = (WMG_STATUS_SUCCESS, d') \<and> linux_ap_hapd_deinit k d' = None"
proof -
  obtain bs h where bs: "ap_dev_list d = Devices bs" "ap_event_handle d = Some h" using assms(1,2) by (auto simp: hapd_ok_def)
  obtain x where x: "hapd_release d = Some x" "ap_dev_list x = Freed_List" "ap_hapd_init_flag x" "hapd_os x = hapd_os d"
    using hapd_release_effect[OF bs] assms(2) by auto
  obtain q y where y: "kill_process k ''hostapd'' x = (q, y)" by fastforce
  have f: "\<exists>s'. check_process_is_exist k ''hostapd'' 7 s = (1, s')" for s using assms(3) by (metis prod.collapse)
  obtain s1 where s1: "check_process_is_exist k ''hostapd'' 7 (hapd_os x) = (1, s1)" using f by blast
  obtain s2 where s2: "check_process_is_exist k ''hostapd'' 7 (os_sleep k 1000000 (os_system k ''pidof hostapd | xargs kill -9'' s1)) = (1, s2)"
    using f by blast
  have "q = - 1" using y s1 s2 by (simp add: kill_process_def on_hos_def hos_do_def)
  then have "linux_ap_hapd_deinit k d = Some y" using assms(2) x(1) y by (simp add: linux_ap_hapd_deinit_def)
  moreover have "ap_dev_list y = Freed_List" "ap_hapd_init_flag y" using frame_flags[OF kill_frame[OF y]] x(2,3) by simp_all
  ultimately show ?thesis by (simp add: linux_ap_hapd_init_def linux_ap_hapd_deinit_def hapd_release_def free_devices_def)
qed

theorem failed_kill_leaves_freed_list_witness:
  "\<exists>d'. linux_ap_hapd_deinit busy (demo_hapd []) = Some d' \<and> linux_ap_hapd_deinit busy d' = None"
  using failed_kill_leaves_freed_list[of "demo_hapd []" busy] busy_exists(1)
  by (auto simp: hapd_ok_def demo_hapd_defs)

section \<open>Between calls, and in the middle of one\<close>

text \<open>A device that joins or leaves while the list is freed and the thread still runs.\<close>

lemma freed_list_crashes:
  assumes "address a" "hapd_monitor_conn d" "ap_dev_list d = Freed_List" "r = Joined a \<or> r = Left a"
    and "hapd_incoming d = Message (report_text r) # rest"
  shows "hapd_event_round k d = Crash"
proof -
  have ok: "report_ok r" "report_body r \<noteq> []" using assms(1,4) by auto
  obtain m s where m: "os_malloc k (hapd_os d) = (m, s)" by fastforce
  have "hapd_dispatch_event k (report_body r) (d\<lparr>hapd_incoming := rest\<rparr>) = Crash"
    using assms(3,4) m joined_text[OF assms(1)] left_text[OF assms(1)]
    by (auto simp: hapd_dispatch_event_def wmg_sta_device_add_def wmg_sta_device_remove_def wmg_sta_device_print_def on_hos_def)
  then show ?thesis using hapd_wait_report[OF ok(1) assms(2,5)] ok(2) by (auto simp: hapd_event_round_def)
qed

text \<open>
  C16. What is defined in every state that calls, messages and rounds of the thread can lead to, as long as a
  hostapd that is killed is gone, on every branch of the answers the daemon gives: tearing down, a
  round of the thread (which may wait), connecting what is initialised, switching on with name and passphrase
  that fit their arrays of 64 and 32 bytes, and setting or getting the hardware address, with a name of at most
  15 characters and six bytes from the caller. Reading the configuration depends on the numbers in
  the daemon's reply and is not among them. A call counts as one step. In the middle of one it is different:
  tearing down frees the list while the thread runs, and a device that joins or leaves right then
  makes the thread use the freed list.
\<close>

theorem hapd_reachable_safe:
  assumes "hapd_reachable k s d" "killable k"
  shows "linux_ap_hapd_deinit k d \<noteq> None \<and> hapd_event_round k d \<noteq> Crash \<and>
    (ap_hapd_init_flag d \<longrightarrow> linux_connect_to_hostapd k d \<noteq> None) \<and>
    linux_ap_hapd_enable k None d \<noteq> None \<and> (\<forall>c. config_fits c \<longrightarrow> linux_ap_hapd_enable k (Some c) d \<noteq> None) \<and>
    (\<forall>ifname b m. six_bytes (read_address b m) \<longrightarrow>
       hapd_platform_extension k (HAPD_CMD_GET_MAC (ifname, b)) (d, m) \<noteq> Crash \<and>
       (name_fits ifname \<longrightarrow> hapd_platform_extension k (HAPD_CMD_SET_MAC (ifname, b)) (d, m) \<noteq> Crash)) \<and>
    (\<forall>a r dm rest. ap_hapd_init_flag d \<and> hapd_monitor_conn d \<and> free_devices d = Some dm \<and> address a \<and>
       (r = Joined a \<or> r = Left a) \<longrightarrow> hapd_event_round k (dm\<lparr>hapd_incoming := Message (report_text r) # rest\<rparr>) = Crash)"
proof -
  have ok: "hapd_ok d" by (rule hapd_reachable_ok[OF assms])
  have "linux_ap_hapd_enable k (Some c) d \<noteq> None" if "config_fits c" for c
    using hapd_enable_ok[OF ok, of "Some c" k] that by (auto simp: returns_ok_def)
  moreover have "linux_ap_hapd_enable k None d \<noteq> None"
    using hapd_enable_ok[OF ok, of None k] by (auto simp: returns_ok_def)
  moreover have "linux_connect_to_hostapd k d \<noteq> None" if "ap_hapd_init_flag d"
    using hapd_connect_ok[OF ok that, of k] by (auto simp: returns_ok_def)
  moreover have "hapd_platform_extension k (HAPD_CMD_GET_MAC (ifname, b)) (d, m) \<noteq> Crash" if "six_bytes (read_address b m)" for ifname b m
    using get_mac_defined[OF that, of k ifname "hapd_os d"] by auto
  moreover have "hapd_platform_extension k (HAPD_CMD_SET_MAC (ifname, b)) (d, m) \<noteq> Crash"
    if "name_fits ifname" "six_bytes (read_address b m)" for ifname b m
    using set_mac_defined[OF that, of k "hapd_os d"] by auto
  moreover have "hapd_event_round k (dm\<lparr>hapd_incoming := Message (report_text r) # rest\<rparr>) = Crash"
    if t: "ap_hapd_init_flag d" "hapd_monitor_conn d" "free_devices d = Some dm" "address a" "r = Joined a \<or> r = Left a" for a r dm rest
  proof -
    obtain bs where "ap_dev_list d = Devices bs" using ok t(1) by (auto simp: hapd_ok_def)
    then have "ap_dev_list dm = Freed_List" "hapd_monitor_conn dm" using t(2,3) by (auto simp: free_devices_def)
    then show ?thesis by (intro freed_list_crashes[OF t(4) _ _ t(5)]) simp_all
  qed
  ultimately show ?thesis using hapd_deinit_ok[OF ok, of k] hapd_round_ok[OF ok, of k] by blast
qed

theorem hapd_reachable_safe_witness:
  "hapd_event_round lab lab_up \<noteq> Crash \<and> linux_connect_to_hostapd lab lab_up \<noteq> None \<and>
   (\<exists>dm. free_devices lab_up = Some dm \<and>
      hapd_event_round lab (dm\<lparr>hapd_incoming := [Message (report_text (Joined ''02:00:00:00:00:01''))]\<rparr>) = Crash)"
proof -
  note s = hapd_reachable_safe[OF lab_up_reachable(1) lab_killable]
  obtain bs where "ap_dev_list lab_up = Devices bs"
    using hapd_reachable_ok[OF lab_up_reachable(1) lab_killable] lab_up_reachable(2) by (auto simp: hapd_ok_def)
  then obtain dm where dm: "free_devices lab_up = Some dm" by (simp add: free_devices_def)
  have a: "address ''02:00:00:00:00:01''" by (simp add: address_def)
  show ?thesis using s lab_up_reachable(2,3) dm a by blast
qed

end
