(* ===== verification/Linux_Nl.thy ===== *)
theory Linux_Nl
  imports Linux_Common Wmg_Monitor
begin

text \<open>
  The monitor mode's platform on Linux, \<open>wifi/linux_nl.c\<close>: its state, the netlink connection, the name
  of the interface read from a file, the requests that switch the interface to monitor mode and
  tune it, the thread that hands the captured frames on, and the interface record.

  The netlink library and the kernel are a record of operations on a state \<open>'s\<close>. A message is the
  list of what was put into it, in order; sending passes the whole list on.
\<close>

section \<open>The netlink library and the kernel\<close>

datatype nl80211_cmd = NL80211_CMD_SET_INTERFACE | NL80211_CMD_SET_WIPHY

datatype nl80211_iftype = NL80211_IFTYPE_STATION | NL80211_IFTYPE_MONITOR

text \<open>\<open>genlmsg_put\<close> with the family and the command, and \<open>NLA_PUT_U32\<close> with an attribute.\<close>

datatype nl_item =
  Genl_Header int nl80211_cmd
| NL80211_ATTR_IFINDEX "32 word"
| NL80211_ATTR_IFTYPE nl80211_iftype
| NL80211_ATTR_WIPHY_FREQ "32 word"

text \<open>
  \<open>nl_linux\<close>: the operations all platforms use; \<open>nl_alloc\<close>, \<open>nl_connect\<close>, \<open>nl_resolve\<close>: making a socket,
  connecting it, and the number of the family (negative: none); \<open>nl_msg_alloc\<close>, \<open>nl_put\<close>, \<open>nl_send\<close>: a message,
  whether an attribute still fits, and sending (negative: failed); \<open>nl_ifindex\<close>: \<open>if_nametoindex\<close>;
  \<open>nl_conf\<close>: the file's bytes, and how many of those asked for \<open>fread\<close> gives; \<open>nl_raw\<close>,
  \<open>nl_promisc\<close>, \<open>nl_reuse\<close>, \<open>nl_bind\<close>: the socket of the capturing thread.
\<close>

record 's nl_os =
  nl_linux :: "'s wpa_os"
  nl_alloc :: "'s \<Rightarrow> bool \<times> 's"
  nl_connect :: "'s \<Rightarrow> bool \<times> 's"
  nl_resolve :: "string \<Rightarrow> 's \<Rightarrow> int \<times> 's"
  nl_msg_alloc :: "'s \<Rightarrow> bool \<times> 's"
  nl_put :: "nl_item \<Rightarrow> 's \<Rightarrow> bool \<times> 's"
  nl_send :: "nl_item list \<Rightarrow> 's \<Rightarrow> int \<times> 's"
  nl_ifindex :: "string \<Rightarrow> 's \<Rightarrow> 32 word \<times> 's"
  nl_conf :: "'s \<Rightarrow> (string \<times> nat) option \<times> 's"
  nl_raw :: "'s \<Rightarrow> bool \<times> 's"
  nl_promisc :: "string \<Rightarrow> 's \<Rightarrow> 's"
  nl_reuse :: "'s \<Rightarrow> bool \<times> 's"
  nl_bind :: "string \<Rightarrow> 's \<Rightarrow> bool \<times> 's"

section \<open>State\<close>

text \<open>A pointer to a socket and to the connection: NULL, to memory that was freed, or valid.\<close>

datatype nl_sock_ptr = No_Sock | Freed_Sock | Open_Sock

record nl80211_state =
  nl_sock :: nl_sock_ptr
  nl80211_id :: int

datatype nl_state_ptr = No_State | Freed_State | State nl80211_state

abbreviation "MON_BUF_SIZE \<equiv> 4096 :: nat"
abbreviation "MON_IF_SIZE \<equiv> 20 :: nat"

text \<open>
  The object \<open>monitor_nl_inf_object\<close>. \<open>mon_pid\<close> says that a thread id is stored, \<open>mon_threads\<close> how many
  capturing threads run; \<open>mon_if\<close> is the array with all its bytes; \<open>mon_air\<close> is what the raw
  socket will give (\<open>None\<close>: an error), \<open>mon_frames\<close> the frames handed to the callback, oldest first.
\<close>

record 's nl_dev =
  nl_init_flag :: bool
  mon_enable :: bool
  mon_pid :: bool
  mon_threads :: nat
  nl_state :: nl_state_ptr
  nl_frame_cb :: bool
  nl_channel :: "8 word"
  mon_if :: string
  mon_air :: "byte list option list"
  mon_frames :: "wifi_monitor_data list"
  nl_sys :: 's

definition nl_inf_static :: "byte list option list \<Rightarrow> 's \<Rightarrow> 's nl_dev" where
  "nl_inf_static air s = \<lparr>nl_init_flag = False, mon_enable = False, mon_pid = False, mon_threads = 0,
     nl_state = No_State, nl_frame_cb = False, nl_channel = 255, mon_if = replicate MON_IF_SIZE (CHR 0x00),
     mon_air = air, mon_frames = [], nl_sys = s\<rparr>"

definition on_nl :: "('s \<Rightarrow> 'a \<times> 's) \<Rightarrow> 's nl_dev \<Rightarrow> 'a \<times> 's nl_dev" where
  "on_nl f d = (let (x, s) = f (nl_sys d) in (x, d\<lparr>nl_sys := s\<rparr>))"

definition nl_do :: "('s \<Rightarrow> 's) \<Rightarrow> 's nl_dev \<Rightarrow> 's nl_dev" where
  "nl_do f d = d\<lparr>nl_sys := f (nl_sys d)\<rparr>"
section \<open>Channels\<close>

datatype nl80211_band = NL80211_BAND_2GHZ | NL80211_BAND_5GHZ | NL80211_BAND_60GHZ

definition ieee80211_channel_to_frequency :: "int \<Rightarrow> nl80211_band \<Rightarrow> int" where
  "ieee80211_channel_to_frequency chan band =
     (if chan \<le> 0 then 0
      else (case band of
              NL80211_BAND_2GHZ \<Rightarrow> if chan = 14 then 2484 else if chan < 14 then 2407 + chan * 5 else 0
            | NL80211_BAND_5GHZ \<Rightarrow> if 182 \<le> chan \<and> chan \<le> 196 then 4000 + chan * 5 else 5000 + chan * 5
            | NL80211_BAND_60GHZ \<Rightarrow> if chan < 5 then 56160 + chan * 2160 else 0))"

text \<open>The frequency that the requests carry.\<close>

definition channel_freq :: "8 word \<Rightarrow> 32 word" where
  "channel_freq channel =
     (let band = (if channel \<le> 14 then NL80211_BAND_2GHZ else NL80211_BAND_5GHZ)
      in word_of_int (ieee80211_channel_to_frequency (uint channel) band))"

section \<open>The netlink connection\<close>

text \<open>What is not written of the new structure is what \<open>malloc\<close> left there.\<close>

definition nl80211_init :: "'s nl_os \<Rightarrow> 's nl_dev \<Rightarrow> int \<times> nl80211_state \<times> 's nl_dev" where
  "nl80211_init n d =
     (let (ok, d) = on_nl (nl_alloc n) d; st = \<lparr>nl_sock = Open_Sock, nl80211_id = os_garbage (nl_linux n)\<rparr>
      in if \<not> ok then (- 12, st\<lparr>nl_sock := No_Sock\<rparr>, d)
         else let (ok, d) = on_nl (nl_connect n) d
              in if \<not> ok then (- 67, st\<lparr>nl_sock := Freed_Sock\<rparr>, d)
                 else let (fam, d) = on_nl (nl_resolve n ''nl80211'') d; st = st\<lparr>nl80211_id := fam\<rparr>
                      in if fam < 0 then (- 2, st\<lparr>nl_sock := Freed_Sock\<rparr>, d) else (0, st, d))"

text \<open>Freeing the socket goes through the pointer to the connection.\<close>

definition nl80211_cleanup :: "nl_state_ptr \<Rightarrow> unit option" where
  "nl80211_cleanup p = (case p of State st \<Rightarrow> if nl_sock st = Freed_Sock then None else Some () | _ \<Rightarrow> None)"

text \<open>
  The monitor passes its callback, which is not NULL. Without memory for the connection the
  function goes on and reports success.
\<close>

definition linux_monitor_nl_init :: "'s nl_os \<Rightarrow> 's nl_dev \<Rightarrow> int \<times> 's nl_dev" where
  "linux_monitor_nl_init n d =
     (if nl_init_flag d then (WMG_STATUS_SUCCESS, d)
      else let (ok, d) = on_nl (os_malloc (nl_linux n)) d;
               (ret, d) = (if ok then let (ret, st, d) = nl80211_init n d in (ret, d\<lparr>nl_state := State st\<rparr>)
                           else (0, d\<lparr>nl_state := No_State\<rparr>))
           in if c_true ret then (WMG_STATUS_FAIL, d)
              else (WMG_STATUS_SUCCESS, d\<lparr>nl_frame_cb := True, nl_init_flag := True\<rparr>))"

definition linux_monitor_nl_deinit :: "'s nl_dev \<Rightarrow> (int \<times> 's nl_dev) option" where
  "linux_monitor_nl_deinit d =
     (if \<not> nl_init_flag d then Some (0, d)
      else map_option (\<lambda>_. (0, d\<lparr>nl_frame_cb := False, nl_state := Freed_State, nl_channel := 255, nl_init_flag := False\<rparr>))
             (nl80211_cleanup (nl_state d)))"

section \<open>The name of the interface\<close>

text \<open>
  The file is read into a cleared array, which a file of 4096 bytes fills without a NUL; the
  functions on texts must then find what they look for. An empty file gives 0, as a name that was
  found does, and a name is copied without its NUL.
\<close>

definition conf_name :: "string \<Rightarrow> string option option" where
  "conf_name bytes =
     (let text = takeWhile (\<lambda>c. c \<noteq> CHR 0x00) bytes;
          ended = (length text < MON_BUF_SIZE)
      in case strstr ''mon_if='' text of
           None \<Rightarrow> if ended then Some None else None
         | Some (_, pos) \<Rightarrow>
             (case strchr NL (drop 7 pos) of
                Some (name, _) \<Rightarrow> Some (Some name)
              | None \<Rightarrow> if ended then Some (Some (drop 7 pos)) else None))"

definition read_mon_if_from_conf :: "'s nl_os \<Rightarrow> 's nl_dev \<Rightarrow> (int \<times> 's nl_dev) option" where
  "read_mon_if_from_conf n d =
     (let (f, d) = on_nl (nl_conf n) d
      in case f of
           None \<Rightarrow> Some (- 1, d)
         | Some (bytes, count) \<Rightarrow>
             let bytes = take MON_BUF_SIZE bytes
             in if count \<noteq> length bytes then Some (int count, d)
                else do {
                  name \<leftarrow> conf_name bytes;
                  case name of
                    None \<Rightarrow> Some (int count, d)
                  | Some name \<Rightarrow>
                      if name \<noteq> [] \<and> length name < MON_IF_SIZE
                      then Some (0, d\<lparr>mon_if := strncpy (mon_if d) name (length name)\<rparr>)
                      else Some (int count, d)
                })"

definition linux_connect_to_nl :: "'s nl_os \<Rightarrow> 's nl_dev \<Rightarrow> (int \<times> 's nl_dev) option" where
  "linux_connect_to_nl n d =
     do {
       (ret, d) \<leftarrow> read_mon_if_from_conf n d;
       Some (WMG_STATUS_SUCCESS, if ret = 0 then d else d\<lparr>mon_if := strncpy (mon_if d) ''wlan0'' 5\<rparr>)
     }"
section \<open>Requests\<close>

text \<open>Attributes are put in until one does not fit; the code then jumps to its end.\<close>

fun put_attrs :: "'s nl_os \<Rightarrow> nl_item list \<Rightarrow> 's \<Rightarrow> bool \<times> 's" where
  "put_attrs n [] s = (True, s)"
| "put_attrs n (a # as) s = (let (ok, s) = nl_put n a s in if ok then put_attrs n as s else (False, s))"

text \<open>The family's number and the socket are read through the pointer to the connection.\<close>

definition nl_family :: "'s nl_dev \<Rightarrow> int option" where
  "nl_family d = (case nl_state d of State st \<Rightarrow> Some (nl80211_id st) | _ \<Rightarrow> None)"

definition nl_transmit :: "'s nl_os \<Rightarrow> nl_item list \<Rightarrow> 's nl_dev \<Rightarrow> (int \<times> 's nl_dev) option" where
  "nl_transmit n msg d =
     (case nl_state d of
        State st \<Rightarrow> if nl_sock st = Open_Sock then Some (on_nl (nl_send n msg) d) else None
      | _ \<Rightarrow> None)"

text \<open>
  A thread comes first, and stays when something behind it fails. The second request goes into the
  message that still holds the first one. When an attribute does not fit, the result is what the
  last step left in it: success.
\<close>

definition linux_monitor_nl_enable :: "'s nl_os \<Rightarrow> 8 word \<Rightarrow> 's nl_dev \<Rightarrow> (int \<times> 's nl_dev) option" where
  "linux_monitor_nl_enable n channel d =
     (let (ok, d) = on_nl (os_thread (nl_linux n)) d
      in if \<not> ok then Some (WMG_STATUS_FAIL, d)
         else
           let d = d\<lparr>mon_pid := True, mon_threads := Suc (mon_threads d)\<rparr>;
               (ok, d) = on_nl (nl_msg_alloc n) d
           in if \<not> ok then Some (WMG_STATUS_FAIL, d)
              else do {
                fam \<leftarrow> nl_family d;
                name \<leftarrow> c_str (mon_if d);
                let (devidx, d) = on_nl (nl_ifindex n name) d;
                let attrs = [NL80211_ATTR_IFINDEX devidx, NL80211_ATTR_IFTYPE NL80211_IFTYPE_MONITOR];
                let (ok, d) = on_nl (put_attrs n attrs) d;
                if \<not> ok then Some (WMG_STATUS_SUCCESS, d)
                else do {
                  let msg = Genl_Header fam NL80211_CMD_SET_INTERFACE # attrs;
                  (ret, d) \<leftarrow> nl_transmit n msg d;
                  if ret < 0 then Some (WMG_STATUS_FAIL, d)
                  else do {
                    let attrs = [NL80211_ATTR_IFINDEX devidx, NL80211_ATTR_WIPHY_FREQ (channel_freq channel)];
                    let (ok, d) = on_nl (put_attrs n attrs) d;
                    if \<not> ok then Some (WMG_STATUS_SUCCESS, d)
                    else do {
                      (ret, d) \<leftarrow> nl_transmit n (msg @ Genl_Header fam NL80211_CMD_SET_WIPHY # attrs) d;
                      if ret < 0 then Some (WMG_STATUS_FAIL, d)
                      else Some (WMG_STATUS_SUCCESS,
                        (nl_do (os_system (nl_linux n) ''ifconfig wlan0 up'') (d\<lparr>nl_channel := channel\<rparr>))\<lparr>mon_enable := True\<rparr>)
                    }
                  }
                }
              })"

text \<open>Here the result is not set at all when an attribute does not fit.\<close>

definition linux_monitor_nl_set_channel :: "'s nl_os \<Rightarrow> 8 word \<Rightarrow> 's nl_dev \<Rightarrow> (int \<times> 's nl_dev) option" where
  "linux_monitor_nl_set_channel n channel d =
     (if \<not> nl_init_flag d then Some (WMG_STATUS_FAIL, d)
      else if \<not> mon_enable d then Some (WMG_STATUS_FAIL, d)
      else let (ok, d) = on_nl (nl_msg_alloc n) d
           in if \<not> ok then Some (WMG_STATUS_FAIL, d)
              else do {
                fam \<leftarrow> nl_family d;
                name \<leftarrow> c_str (mon_if d);
                let (devidx, d) = on_nl (nl_ifindex n name) d;
                let attrs = [NL80211_ATTR_IFINDEX devidx, NL80211_ATTR_WIPHY_FREQ (channel_freq channel)];
                let (ok, d) = on_nl (put_attrs n attrs) d;
                if \<not> ok then Some (os_garbage (nl_linux n), d)
                else do {
                  (ret, d) \<leftarrow> nl_transmit n (Genl_Header fam NL80211_CMD_SET_WIPHY # attrs) d;
                  if ret < 0 then Some (WMG_STATUS_FAIL, d)
                  else Some (WMG_STATUS_SUCCESS, d\<lparr>nl_channel := channel\<rparr>)
                }
              })"

definition linux_monitor_nl_disable :: "'s nl_os \<Rightarrow> 's nl_dev \<Rightarrow> (int \<times> 's nl_dev) option" where
  "linux_monitor_nl_disable n d =
     (if \<not> nl_init_flag d then Some (WMG_STATUS_UNHANDLED, d)
      else if \<not> mon_enable d then Some (WMG_STATUS_SUCCESS, d)
      else let (ok, d) = on_nl (nl_msg_alloc n) (nl_do (os_system (nl_linux n) ''ifconfig mon0 down'') d)
           in if \<not> ok then Some (WMG_STATUS_FAIL, d)
              else do {
                fam \<leftarrow> nl_family d;
                name \<leftarrow> c_str (mon_if d);
                let (devidx, d) = on_nl (nl_ifindex n name) d;
                let attrs = [NL80211_ATTR_IFINDEX devidx, NL80211_ATTR_IFTYPE NL80211_IFTYPE_STATION];
                let (ok, d) = on_nl (put_attrs n attrs) d;
                if \<not> ok then Some (WMG_STATUS_SUCCESS, d)
                else do {
                  (ret, d) \<leftarrow> nl_transmit n (Genl_Header fam NL80211_CMD_SET_INTERFACE # attrs) d;
                  if ret < 0 then Some (WMG_STATUS_FAIL, d)
                  else
                    let d = (if mon_pid d then d\<lparr>mon_threads := mon_threads d - 1, mon_pid := False\<rparr> else d)
                    in Some (WMG_STATUS_SUCCESS, d\<lparr>mon_enable := False, nl_channel := 255\<rparr>)
                }
              })"

section \<open>The capturing thread\<close>

text \<open>
  What the thread does before its loop: a raw socket, its name cut to 15 bytes, the promiscuous mode (whose
  results nobody looks at), and the interface it is bound to. \<open>False\<close>: it ends the whole process.
\<close>

definition mon_recv_open :: "'s nl_os \<Rightarrow> 's nl_dev \<Rightarrow> (bool \<times> 's nl_dev) option" where
  "mon_recv_open n d =
     (let (ok, d) = on_nl (nl_raw n) d
      in if \<not> ok then Some (False, d)
         else do {
           name \<leftarrow> c_str (mon_if d);
           let (ok, d) = on_nl (nl_reuse n) (nl_do (nl_promisc n (take 15 name)) d);
           if \<not> ok then Some (False, d) else Some (on_nl (nl_bind n (take 15 name)) d)
         })"

text \<open>
  One round of the loop. The frame lies in one static array, which the next round overwrites. While the
  capture is off the loop goes round without waiting.
\<close>

definition mon_recv_round :: "'s nl_dev \<Rightarrow> 's nl_dev outcome" where
  "mon_recv_round d =
     (if mon_enable d \<and> nl_frame_cb d
      then (case mon_air d of
              [] \<Rightarrow> Blocks
            | None # air \<Rightarrow> Returns (d\<lparr>mon_air := air\<rparr>)
            | Some bytes # air \<Rightarrow>
                Returns (d\<lparr>mon_air := air, mon_frames := mon_frames d @
                  [\<lparr>frame_data = take MON_BUF_SIZE bytes, frame_channel = nl_channel d\<rparr>]\<rparr>))
      else Returns d)"

section \<open>The interface record\<close>

type_synonym nl_memory = "buf \<Rightarrow> byte list option"

fun nl_platform_extension ::
    "'s nl_os \<Rightarrow> nl_request \<Rightarrow> 's nl_dev \<times> nl_memory \<Rightarrow> (int \<times> 's nl_dev \<times> nl_memory) option" where
  "nl_platform_extension n (NL_CMD_SET_MAC (ifname, b)) (d, m) =
     map_option (\<lambda>(ret, s). (if c_true ret then WMG_STATUS_FAIL else WMG_STATUS_SUCCESS, d\<lparr>nl_sys := s\<rparr>, m))
       (linux_common_set_mac (nl_linux n) ifname (Option.bind b m) (nl_sys d))"
| "nl_platform_extension n (NL_CMD_GET_MAC (ifname, b)) (d, m) =
     map_option (\<lambda>(ret, mac, s). (if c_true ret then WMG_STATUS_FAIL else WMG_STATUS_SUCCESS, d\<lparr>nl_sys := s\<rparr>,
         case (b, mac) of (Some b, Some mac) \<Rightarrow> m(b \<mapsto> mac) | _ \<Rightarrow> m))
       (linux_common_get_mac (nl_linux n) (Some ifname) (Option.bind b m) (nl_sys d))"

text \<open>The platform as the monitor sees it; \<open>None\<close> once its behaviour is undefined.\<close>

type_synonym 's nl_plat = "('s nl_dev \<times> nl_memory) option"

definition nl_call ::
    "('s nl_dev \<times> nl_memory \<Rightarrow> (int \<times> 's nl_dev \<times> nl_memory) option) \<Rightarrow> 's nl_plat
      \<Rightarrow> int \<times> wifi_monitor_data list \<times> 's nl_plat" where
  "nl_call f p =
     (case p of
        None \<Rightarrow> (- 1, [], None)
      | Some (d, m) \<Rightarrow>
          (case f (d\<lparr>mon_frames := []\<rparr>, m) of
             None \<Rightarrow> (- 1, [], None)
           | Some (ret, d, m) \<Rightarrow> (ret, mon_frames d, Some (d, m))))"

definition on_dev :: "('s nl_dev \<Rightarrow> (int \<times> 's nl_dev) option) \<Rightarrow> 's nl_dev \<times> nl_memory \<Rightarrow> (int \<times> 's nl_dev \<times> nl_memory) option" where
  "on_dev f = (\<lambda>(d, m). map_option (\<lambda>(ret, d). (ret, d, m)) (f d))"

definition linux_mon_inf :: "'s nl_os \<Rightarrow> 's nl_plat mon_inf" where
  "linux_mon_inf n = \<lparr>
     monitor_nl_init = Some (\<lambda>p. let (r, _, p) = nl_call (on_dev (\<lambda>d. Some (linux_monitor_nl_init n d))) p in (r, p)),
     monitor_nl_deinit = Some (\<lambda>p. snd (nl_call (on_dev linux_monitor_nl_deinit) p)),
     monitor_nl_enable = (\<lambda>channel. nl_call (on_dev (linux_monitor_nl_enable n channel))),
     monitor_nl_disable = nl_call (on_dev (linux_monitor_nl_disable n)),
     monitor_nl_connect = nl_call (on_dev (linux_connect_to_nl n)),
     monitor_nl_set_channel = (\<lambda>channel. nl_call (on_dev (linux_monitor_nl_set_channel n channel))),
     monitor_platform_extension = (\<lambda>req. nl_call (nl_platform_extension n req))\<rparr>"

end
