(* ===== verification/Nl_Safety.thy ===== *)
theory Nl_Safety
  imports Linux_Nl Linux_Mac
begin

text \<open>
  The monitor mode over its Linux platform: which states the object of \<open>wmg_monitor.c\<close> and the platform
  can reach together, by the operations of the mode, its commands and rounds of the capturing
  thread, and that none of them is undefined.
\<close>

section \<open>The platform's object\<close>

text \<open>
  An initialised object has its connection and its callback; a capture that is on has its thread; one
  that is off has no channel; and the array with the name always holds a NUL.
\<close>

definition nl_ok :: "'s nl_dev \<Rightarrow> bool" where
  "nl_ok d \<longleftrightarrow> length (mon_if d) = MON_IF_SIZE \<and> mon_if d ! 19 = CHR 0x00 \<and>
     (mon_enable d \<longrightarrow> mon_pid d) \<and> (mon_pid d \<longrightarrow> 0 < mon_threads d) \<and> (\<not> mon_enable d \<longrightarrow> nl_channel d = 255) \<and>
     (nl_init_flag d \<longrightarrow> nl_frame_cb d \<and> (\<exists>fam. 0 \<le> fam \<and> nl_state d = State \<lparr>nl_sock = Open_Sock, nl80211_id = fam\<rparr>))"

lemma nl_ok_static: "nl_ok (nl_inf_static air s)"
  by (simp add: nl_ok_def nl_inf_static_def)

lemma nl_ok_update [simp]:
  "nl_ok (d\<lparr>nl_sys := s\<rparr>) = nl_ok d" "nl_ok (d\<lparr>mon_frames := fs\<rparr>) = nl_ok d" "nl_ok (d\<lparr>mon_air := air\<rparr>) = nl_ok d"
  by (simp_all add: nl_ok_def)

lemma nl_ok_name: "nl_ok d \<Longrightarrow> \<exists>name. c_str (mon_if d) = Some name"
  by (force simp: nl_ok_def c_str_def in_set_conv_nth)

text \<open>What a function that is defined leaves: an object in order, initialised as before.\<close>

definition nl_keeps :: "'s nl_dev \<Rightarrow> (int \<times> 's nl_dev) option \<Rightarrow> bool" where
  "nl_keeps d r \<longleftrightarrow> (\<exists>ret d'. r = Some (ret, d') \<and> nl_ok d' \<and> nl_init_flag d' = nl_init_flag d)"

lemma nl_keeps_Some [simp]: "nl_keeps d (Some (ret, d')) \<longleftrightarrow> nl_ok d' \<and> nl_init_flag d' = nl_init_flag d"
  by (simp add: nl_keeps_def)

lemma nl_init_ok:
  assumes "nl_ok d" "linux_monitor_nl_init n d = (ret, d')" "\<And>s. fst (os_malloc (nl_linux n) s)"
  shows "nl_ok d' \<and> (ret = 0 \<longleftrightarrow> nl_init_flag d') \<and> (nl_init_flag d \<longrightarrow> ret = 0)"
proof -
  obtain s where s: "os_malloc (nl_linux n) (nl_sys d) = (True, s)"
    using assms(3)[of "nl_sys d"] by (cases "os_malloc (nl_linux n) (nl_sys d)") auto
  show ?thesis
    using assms(1,2) s
    by (auto simp: linux_monitor_nl_init_def nl80211_init_def on_nl_def Let_def nl_ok_def c_true_def
        split: if_splits prod.splits)
qed

lemma nl_deinit_ok: "nl_ok d \<Longrightarrow> \<exists>d'. linux_monitor_nl_deinit d = Some (0, d') \<and> nl_ok d' \<and> \<not> nl_init_flag d'"
  by (auto simp: linux_monitor_nl_deinit_def nl80211_cleanup_def nl_ok_def)

text \<open>The three requests read the connection and the name, which an initialised object has.\<close>

lemma on_nl_eq: "on_nl f d = (fst (f (nl_sys d)), d\<lparr>nl_sys := snd (f (nl_sys d))\<rparr>)"
  by (simp add: on_nl_def split: prod.split)

lemma nl_ok_open:
  assumes "nl_ok d" "nl_init_flag d"
  obtains fam name where "nl_state d = State \<lparr>nl_sock = Open_Sock, nl80211_id = fam\<rparr>" "c_str (mon_if d) = Some name"
  using assms nl_ok_name[OF assms(1)] by (auto simp: nl_ok_def)

lemma nl_ok_change:
  "nl_ok d \<Longrightarrow> nl_ok (d\<lparr>mon_pid := True, mon_threads := Suc t\<rparr>)"
  "nl_ok d \<Longrightarrow> nl_ok (d\<lparr>mon_pid := True, mon_threads := Suc t, nl_sys := s, nl_channel := ch, mon_enable := True\<rparr>)"
  "nl_ok d \<Longrightarrow> nl_ok (d\<lparr>mon_pid := True, mon_threads := Suc t, nl_channel := ch, nl_sys := s, mon_enable := True\<rparr>)"
  "nl_ok d \<Longrightarrow> mon_enable d \<Longrightarrow> nl_ok (d\<lparr>nl_sys := s, nl_channel := ch\<rparr>)"
  "nl_ok d \<Longrightarrow> nl_ok (d\<lparr>nl_sys := s, mon_threads := t, mon_pid := False, mon_enable := False, nl_channel := 255\<rparr>)"
  "nl_ok d \<Longrightarrow> \<not> mon_pid d \<Longrightarrow> nl_ok (d\<lparr>nl_sys := s, mon_enable := False, nl_channel := 255\<rparr>)"
  by (auto simp: nl_ok_def)

lemmas nl_request_defs = on_nl_eq nl_do_def nl_transmit_def nl_family_def Let_def

lemma nl_enable_ok:
  assumes "nl_ok d" "nl_init_flag d"
  shows "nl_keeps d (linux_monitor_nl_enable n ch d)"
  by (rule nl_ok_open[OF assms])
    (use assms in \<open>simp add: linux_monitor_nl_enable_def nl_request_defs nl_ok_change del: put_attrs.simps\<close>)

lemma nl_set_channel_ok:
  assumes "nl_ok d" "nl_init_flag d"
  shows "nl_keeps d (linux_monitor_nl_set_channel n ch d)"
  by (rule nl_ok_open[OF assms])
    (use assms in \<open>simp add: linux_monitor_nl_set_channel_def nl_request_defs nl_ok_change del: put_attrs.simps\<close>)

lemma nl_disable_ok:
  assumes "nl_ok d" "nl_init_flag d"
  shows "nl_keeps d (linux_monitor_nl_disable n d)"
  by (rule nl_ok_open[OF assms])
    (use assms in \<open>simp add: linux_monitor_nl_disable_def nl_request_defs nl_ok_change del: put_attrs.simps\<close>)
text \<open>A file that does not fill the array is read without running over its end.\<close>

definition conf_fits :: "'s nl_os \<Rightarrow> bool" where
  "conf_fits n \<longleftrightarrow> (\<forall>s bytes count. fst (nl_conf n s) = Some (bytes, count) \<longrightarrow> length bytes < MON_BUF_SIZE)"

lemma conf_name_defined:
  assumes "length bytes < MON_BUF_SIZE"
  shows "\<exists>name. conf_name bytes = Some name"
proof -
  have "length (takeWhile (\<lambda>c. c \<noteq> CHR 0x00) bytes) < MON_BUF_SIZE"
    using assms length_takeWhile_le[of "\<lambda>c. c \<noteq> CHR 0x00" bytes] by linarith
  then show ?thesis by (simp add: conf_name_def Let_def split: option.split)
qed

lemma nl_ok_named:
  assumes "nl_ok d" "length name < MON_IF_SIZE"
  shows "nl_ok (d\<lparr>mon_if := strncpy (mon_if d) name (length name)\<rparr>)"
  using assms by (auto simp: nl_ok_def strncpy_all nth_append)

lemma nl_connect_ok:
  assumes "nl_ok d" "conf_fits n"
  shows "nl_keeps d (linux_connect_to_nl n d)"
proof -
  have "nl_keeps d (read_mon_if_from_conf n d)"
  proof (cases "fst (nl_conf n (nl_sys d))")
    case None
    then show ?thesis using assms(1) by (simp add: read_mon_if_from_conf_def on_nl_eq)
  next
    case (Some x)
    obtain bytes count where x: "x = (bytes, count)" by fastforce
    have "length bytes < MON_BUF_SIZE" using assms(2) Some x by (auto simp: conf_fits_def)
    then obtain name where "conf_name bytes = Some name" "take MON_BUF_SIZE bytes = bytes" using conf_name_defined by fastforce
    then show ?thesis
      using assms(1) Some x nl_ok_named[of "d\<lparr>nl_sys := snd (nl_conf n (nl_sys d))\<rparr>"]
      by (auto simp: read_mon_if_from_conf_def on_nl_eq Let_def split: option.split)
  qed
  then obtain ret d1 where "read_mon_if_from_conf n d = Some (ret, d1)" "nl_ok d1" "nl_init_flag d1 = nl_init_flag d"
    by (auto simp: nl_keeps_def)
  then show ?thesis
    using nl_ok_named[of d1 "''wlan0''"] by (simp add: linux_connect_to_nl_def numeral_eq_Suc)
qed

lemma mon_round_ok:
  assumes "nl_ok d" "mon_recv_round d = Returns d'"
  shows "nl_ok d' \<and> nl_init_flag d' = nl_init_flag d"
  using assms by (auto simp: mon_recv_round_def nl_ok_def split: if_splits list.splits option.splits)

section \<open>The object and its platform together\<close>

lemma monitor_frames_plat: "plat (snd (monitor_frames fs oe)) = plat (snd oe)"
  by (induction fs arbitrary: oe)
    (auto simp: monitor_frames_def monitor_nl_data_notify_def invoke_cb_def split: option.split prod.split)

lemma invoke_cb_plat [simp]: "plat (invoke_cb cb m e) = plat e"
  by (simp add: invoke_cb_def split: option.split)

definition mon_inv :: "'s nl_os \<Rightarrow> 's nl_plat wmg_monitor_object \<Rightarrow> 's nl_plat env \<Rightarrow> bool" where
  "mon_inv n obj e \<longleftrightarrow> (\<exists>d m. plat e = Some (d, m) \<and> nl_ok d \<and>
     (monitor_init_flag obj \<longrightarrow> nl_init_flag d \<and> monitor_platform_inf obj = Some (linux_mon_inf n)))"

lemma mon_inv_good: "mon_inv n obj e \<Longrightarrow> monitor_good obj"
  by (auto simp: mon_inv_def monitor_good_def)

lemma mon_inv_cb [simp]: "mon_inv n obj (invoke_cb cb msg e) = mon_inv n obj e"
  by (simp add: mon_inv_def)

lemma mon_inv_same [simp]:
  "mon_inv n (obj\<lparr>monitor_state := st\<rparr>) e = mon_inv n obj e" "mon_inv n (obj\<lparr>monitor_msg_cb := f\<rparr>) e = mon_inv n obj e"
  "mon_inv n (obj\<lparr>nl_run := b, monitor_enabled := c\<rparr>) e = mon_inv n obj e"
  "mon_inv n (obj\<lparr>monitor_enabled := c, nl_run := b\<rparr>) e = mon_inv n obj e"
  by (simp_all add: mon_inv_def)

text \<open>A call of the platform, and what the object and the platform are afterwards.\<close>

lemma mon_call:
  assumes "monitor_plat (nl_call (on_dev g)) obj e = (r, obj', e')" "plat e = Some (d, m)" "g (d\<lparr>mon_frames := []\<rparr>) = Some (ret, d')"
  shows "r = ret \<and> plat e' = Some (d', m) \<and> obj' = obj\<lparr>pkt_cnt := pkt_cnt obj + of_nat (length (mon_frames d'))\<rparr>"
proof -
  have "nl_call (on_dev g) (Some (d, m)) = (ret, mon_frames d', Some (d', m))"
    using assms(3) by (simp add: nl_call_def on_dev_def)
  then have "r = ret" "monitor_frames (mon_frames d') (obj, e\<lparr>plat := Some (d', m)\<rparr>) = (obj', e')"
    using assms(1,2) by (simp_all add: monitor_plat_def split: prod.splits)
  then show ?thesis
    using monitor_frames_plat[of "mon_frames d'" "(obj, e\<lparr>plat := Some (d', m)\<rparr>)"]
      monitor_frames_obj[of "mon_frames d'" "(obj, e\<lparr>plat := Some (d', m)\<rparr>)"] by simp
qed

lemma mon_call_inv:
  assumes "monitor_plat (nl_call (on_dev g)) obj e = (r, obj', e')" "mon_inv n obj e" "monitor_init_flag obj"
    and "\<And>d. nl_ok d \<Longrightarrow> nl_init_flag d \<Longrightarrow> nl_keeps d (g d)"
  shows "mon_inv n obj' e'"
proof -
  obtain d m where d: "plat e = Some (d, m)" "nl_ok d" "nl_init_flag d" "monitor_platform_inf obj = Some (linux_mon_inf n)"
    using assms(2,3) by (auto simp: mon_inv_def)
  obtain ret d' where g: "g (d\<lparr>mon_frames := []\<rparr>) = Some (ret, d')" "nl_ok d'" "nl_init_flag d'"
    using assms(4)[of "d\<lparr>mon_frames := []\<rparr>"] d(2,3) by (auto simp: nl_keeps_def)
  show ?thesis using mon_call[OF assms(1) d(1) g(1)] g d by (auto simp: mon_inv_def)
qed
section \<open>The operations of the mode\<close>

definition mallocs :: "'s nl_os \<Rightarrow> bool" where
  "mallocs n \<longleftrightarrow> (\<forall>s. fst (os_malloc (nl_linux n) s))"

lemma mon_init_inv:
  assumes "mon_inv n obj e" "mallocs n" "monitor_mode_init (linux_mon_inf n) obj e = (ret, obj', e')"
  shows "mon_inv n obj' e'"
proof (cases "monitor_init_flag obj")
  case False
  obtain d m where d: "plat e = Some (d, m)" "nl_ok d" using assms(1) by (auto simp: mon_inv_def)
  obtain r d' where i: "linux_monitor_nl_init n (d\<lparr>mon_frames := []\<rparr>) = (r, d')" by fastforce
  have d': "nl_ok d'" "r = 0 \<longleftrightarrow> nl_init_flag d'"
    using nl_init_ok[OF _ i] assms(2) d(2) by (auto simp: mallocs_def)
  show ?thesis
    using assms(3) False d i d' by (auto simp: monitor_mode_init_def linux_mon_inf_def nl_call_def on_dev_def mon_inv_def c_true_def)
qed (use assms in \<open>simp add: monitor_mode_init_def\<close>)

lemma mon_deinit_inv:
  assumes "mon_inv n obj e" "monitor_mode_deinit obj e = Some (ret, obj', e')"
  shows "mon_inv n obj' e'"
proof (cases "monitor_init_flag obj")
  case True
  obtain d m where d: "plat e = Some (d, m)" "nl_ok d" "monitor_platform_inf obj = Some (linux_mon_inf n)"
    using assms(1) True by (auto simp: mon_inv_def)
  obtain d' where d': "linux_monitor_nl_deinit (d\<lparr>mon_frames := []\<rparr>) = Some (0, d')" "nl_ok d'"
    using nl_deinit_ok[of "d\<lparr>mon_frames := []\<rparr>"] d(2) by auto
  obtain o1 e1 where f: "monitor_frames (mon_frames d') (obj, e\<lparr>plat := Some (d', m)\<rparr>) = (o1, e1)" by fastforce
  then have "plat e1 = Some (d', m)"
    using monitor_frames_plat[of "mon_frames d'" "(obj, e\<lparr>plat := Some (d', m)\<rparr>)"] by simp
  then have "plat e' = Some (d', m) \<and> \<not> monitor_init_flag obj'"
    using assms(2) True d d' f
    by (auto simp: monitor_mode_deinit_def linux_mon_inf_def monitor_plat_def nl_call_def on_dev_def)
  then show ?thesis using d'(2) by (simp add: mon_inv_def)
qed (use assms in \<open>simp add: monitor_mode_deinit_def\<close>)

lemma mon_enable_inv:
  assumes "mon_inv n obj e" "conf_fits n" "monitor_mode_enable obj e = Some (ret, obj', e')"
  shows "mon_inv n obj' e'"
proof (cases "monitor_init_flag obj \<and> \<not> monitor_enabled obj")
  case True
  then have p: "monitor_platform_inf obj = Some (linux_mon_inf n)" using assms(1) by (auto simp: mon_inv_def)
  obtain r o1 e1 where c: "monitor_plat (nl_call (on_dev (linux_connect_to_nl n))) obj e = (r, o1, e1)" by (rule prod_cases3)
  have "mon_inv n o1 e1" using mon_call_inv[OF c assms(1)] True nl_connect_ok[OF _ assms(2)] by blast
  then show ?thesis using assms(3) True p c by (auto simp: monitor_mode_enable_def linux_mon_inf_def split: if_splits)
qed (use assms in \<open>auto simp: monitor_mode_enable_def split: if_splits\<close>)

lemma mon_disable_inv:
  assumes "mon_inv n obj e" "monitor_mode_disable obj e = Some (ret, obj', e')"
  shows "mon_inv n obj' e'"
proof (cases "monitor_init_flag obj \<and> monitor_enabled obj")
  case True
  then have p: "monitor_platform_inf obj = Some (linux_mon_inf n)" using assms(1) by (auto simp: mon_inv_def)
  obtain r o1 e1 where c: "monitor_plat (nl_call (on_dev (linux_monitor_nl_disable n))) obj e = (r, o1, e1)" by (rule prod_cases3)
  have "mon_inv n o1 e1" using mon_call_inv[OF c assms(1)] True nl_disable_ok by blast
  then show ?thesis using assms(2) True p c by (auto simp: monitor_mode_disable_def linux_mon_inf_def)
qed (use assms in \<open>auto simp: monitor_mode_disable_def split: if_splits\<close>)

text \<open>
  The two commands for the hardware address, whose code the platforms share, need a name that fits the array
  it is copied into and a caller's buffer of six bytes.
\<close>

fun mac_ok :: "monitor_cmd \<Rightarrow> nl_memory \<Rightarrow> bool" where
  "mac_ok (WMG_MONITOR_CMD_SET_MAC (ifname, b)) m = (name_fits ifname \<and> six_bytes (Option.bind b m))"
| "mac_ok (WMG_MONITOR_CMD_GET_MAC (ifname, b)) m = six_bytes (Option.bind b m)"
| "mac_ok _ m = True"

lemma nl_mac_defined:
  "name_fits ifname \<Longrightarrow> six_bytes (Option.bind b m) \<Longrightarrow>
     \<exists>ret s. nl_platform_extension n (NL_CMD_SET_MAC (ifname, b)) (d, m) = Some (ret, d\<lparr>nl_sys := s\<rparr>, m)"
  "six_bytes (Option.bind b m) \<Longrightarrow>
     \<exists>ret s m'. nl_platform_extension n (NL_CMD_GET_MAC (ifname, b)) (d, m) = Some (ret, d\<lparr>nl_sys := s\<rparr>, m')"
  using set_mac_defined[of ifname "Option.bind b m" "nl_linux n" "nl_sys d"]
    get_mac_defined[of "Option.bind b m" "nl_linux n" ifname "nl_sys d"] by auto

lemma mon_mac_inv:
  assumes "monitor_forward req obj e = Some (ret, cb', obj', e')" "mon_inv n obj e" "monitor_init_flag obj" "plat e = Some (d, m)"
    and "\<And>d. \<exists>ret s m'. nl_platform_extension n req (d, m) = Some (ret, d\<lparr>nl_sys := s\<rparr>, m')"
  shows "mon_inv n obj' e'"
proof -
  have d: "nl_ok d" "nl_init_flag d" "monitor_platform_inf obj = Some (linux_mon_inf n)" using assms(2-4) by (auto simp: mon_inv_def)
  obtain r s m' where x: "nl_platform_extension n req (d\<lparr>mon_frames := []\<rparr>, m) = Some (r, d\<lparr>mon_frames := [], nl_sys := s\<rparr>, m')"
    using assms(5)[of "d\<lparr>mon_frames := []\<rparr>"] by auto
  have "monitor_platform_extension (linux_mon_inf n) req (plat e) = (r, [], Some (d\<lparr>mon_frames := [], nl_sys := s\<rparr>, m'))"
    using assms(4) x by (simp add: linux_mon_inf_def nl_call_def)
  then have "obj' = obj" "plat e' = Some (d\<lparr>mon_frames := [], nl_sys := s\<rparr>, m')"
    using assms(1) d(3) by (auto simp: monitor_forward_def monitor_plat_def monitor_frames_def both_def)
  then show ?thesis using d by (simp add: mon_inv_def)
qed

lemma mon_ctl_inv:
  assumes "mon_inv n obj e" "\<And>d m. plat e = Some (d, m) \<Longrightarrow> mac_ok cmd m" "monitor_mode_ctl cmd cb obj e = Some (ret, cb', obj', e')"
  shows "mon_inv n obj' e'"
proof (cases "monitor_init_flag obj \<and> monitor_enabled obj")
  case True
  then have p: "monitor_platform_inf obj = Some (linux_mon_inf n)" using assms(1) by (auto simp: mon_inv_def)
  have call: "mon_inv n o1 e1"
    if "monitor_plat (nl_call (on_dev g)) obj e = (r, o1, e1)" "\<And>d. nl_ok d \<Longrightarrow> nl_init_flag d \<Longrightarrow> nl_keeps d (g d)" for g r o1 e1
    using mon_call_inv[OF that(1) assms(1)] True that(2) by blast
  obtain d m where pm: "plat e = Some (d, m)" using assms(1) by (auto simp: mon_inv_def)
  note mac = assms(2)[OF pm] mon_mac_inv[OF _ assms(1) _ pm]
  show ?thesis
  proof (cases cmd)
    case (WMG_MONITOR_CMD_SET_MAC para)
    obtain ifname b where "para = (ifname, b)" by fastforce
    then show ?thesis
      using assms(3) True mac WMG_MONITOR_CMD_SET_MAC nl_mac_defined(1)[of ifname b m n]
      by (fastforce simp: monitor_mode_ctl_def monitor_set_mac_def ctl_case_def simp del: nl_platform_extension.simps)
  next
    case (WMG_MONITOR_CMD_GET_MAC para)
    obtain ifname b where "para = (ifname, b)" by fastforce
    then show ?thesis
      using assms(3) True mac WMG_MONITOR_CMD_GET_MAC nl_mac_defined(2)[of b m n ifname]
      by (fastforce simp: monitor_mode_ctl_def monitor_get_mac_def ctl_case_def simp del: nl_platform_extension.simps)
  next
    case (WMG_MONITOR_CMD_ENABLE ch)
    then show ?thesis
      using assms(1,3) True p call[OF _ nl_enable_ok]
      by (auto simp: monitor_mode_ctl_def monitor_enable_def linux_mon_inf_def ctl_case_def both_def split: prod.splits if_splits)
  next
    case (WMG_MONITOR_CMD_SET_CHANNEL ch)
    then show ?thesis
      using assms(1,3) True p call[OF _ nl_set_channel_ok]
      by (auto simp: monitor_mode_ctl_def monitor_set_channel_def linux_mon_inf_def ctl_case_def both_def split: prod.splits if_splits)
  next
    case WMG_MONITOR_CMD_DISABLE
    then show ?thesis
      using assms(1,3) True p call[OF _ nl_disable_ok]
      by (auto simp: monitor_mode_ctl_def monitor_disable_def linux_mon_inf_def ctl_case_def both_def split: prod.splits if_splits)
  qed (use assms True in \<open>auto simp: monitor_mode_ctl_def monitor_register_msg_cb_def ctl_case_def both_def split: if_splits\<close>)
qed (use assms in \<open>auto simp: monitor_mode_ctl_def split: if_splits\<close>)
section \<open>What can be reached\<close>

inductive mon_reach :: "'s nl_os \<Rightarrow> 's nl_plat wmg_monitor_object \<Rightarrow> 's nl_plat env \<Rightarrow> bool" for n where
  at_boot: "plat e = Some (nl_inf_static air s, m) \<Longrightarrow> mon_reach n monitor_object_static e"
| by_init: "mon_reach n obj e \<Longrightarrow> monitor_mode_init (linux_mon_inf n) obj e = (ret, obj', e') \<Longrightarrow> mon_reach n obj' e'"
| by_deinit: "mon_reach n obj e \<Longrightarrow> monitor_mode_deinit obj e = Some (ret, obj', e') \<Longrightarrow> mon_reach n obj' e'"
| by_enable: "mon_reach n obj e \<Longrightarrow> monitor_mode_enable obj e = Some (ret, obj', e') \<Longrightarrow> mon_reach n obj' e'"
| by_disable: "mon_reach n obj e \<Longrightarrow> monitor_mode_disable obj e = Some (ret, obj', e') \<Longrightarrow> mon_reach n obj' e'"
| by_command: "mon_reach n obj e \<Longrightarrow> (\<And>d m. plat e = Some (d, m) \<Longrightarrow> mac_ok cmd m) \<Longrightarrow> monitor_mode_ctl cmd cb obj e = Some (ret, cb', obj', e') \<Longrightarrow>
    mon_reach n obj' e'"
| by_thread: "mon_reach n obj e \<Longrightarrow> plat e = Some (d, m) \<Longrightarrow> mon_recv_round (d\<lparr>mon_frames := []\<rparr>) = Returns d' \<Longrightarrow>
    monitor_frames (mon_frames d') (obj, e\<lparr>plat := Some (d', m)\<rparr>) = (obj', e') \<Longrightarrow> mon_reach n obj' e'"
| by_caller: "mon_reach n obj e \<Longrightarrow> plat e = Some (d, m) \<Longrightarrow> mon_reach n obj (e\<lparr>plat := Some (d, m')\<rparr>)"

lemma mon_reach_inv:
  assumes "mon_reach n obj e" "mallocs n" "conf_fits n"
  shows "mon_inv n obj e"
  using assms(1)
proof induction
  case (at_boot e air s m)
  then show ?case by (simp add: mon_inv_def nl_ok_static monitor_object_static_def)
next
  case (by_thread obj e d m d' obj' e')
  then have d: "nl_ok d'" "nl_init_flag d' = nl_init_flag d"
    using mon_round_ok[of "d\<lparr>mon_frames := []\<rparr>" d'] by (auto simp: mon_inv_def)
  have "obj' = obj\<lparr>pkt_cnt := pkt_cnt obj + of_nat (length (mon_frames d'))\<rparr>" "plat e' = Some (d', m)"
    using monitor_frames_obj[of "mon_frames d'" "(obj, e\<lparr>plat := Some (d', m)\<rparr>)"]
      monitor_frames_plat[of "mon_frames d'" "(obj, e\<lparr>plat := Some (d', m)\<rparr>)"] by_thread(4) by simp_all
  then show ?case using by_thread(2,5) d by (auto simp: mon_inv_def)
next
  case by_init
  then show ?case using mon_init_inv[OF _ assms(2)] by blast
next
  case by_deinit
  then show ?case using mon_deinit_inv by blast
next
  case by_enable
  then show ?case using mon_enable_inv[OF _ assms(3)] by blast
next
  case by_disable
  then show ?case using mon_disable_inv by blast
next
  case by_command
  then show ?case using mon_ctl_inv by blast
next
  case by_caller
  then show ?case by (auto simp: mon_inv_def)
qed

text \<open>
  C18. The monitor mode on its Linux platform stays defined, whatever operations of the mode, commands and
  rounds of the capturing thread came before, and whatever callers did to their buffers. An
  initialised monitor has an open connection and its callback in place, a capture that is on has its
  thread, the name of the interface ends with a NUL, and a further command ends in a state that is
  defined again. This needs a \<open>malloc\<close> that finds memory, a file with the name that is smaller than the
  array it is read into, and, of the commands for the hardware address, a name of at most 15 characters
  and a buffer of six bytes.
\<close>

theorem monitor_linux_safe:
  assumes "mon_reach n obj e" "mallocs n" "conf_fits n"
  shows "\<exists>d m. plat e = Some (d, m) \<and> (\<exists>name. c_str (mon_if d) = Some name) \<and>
    (monitor_init_flag obj \<longrightarrow> nl_frame_cb d \<and> (\<exists>fam \<ge> 0. nl_state d = State \<lparr>nl_sock = Open_Sock, nl80211_id = fam\<rparr>)) \<and>
    (mon_enable d \<longrightarrow> 0 < mon_threads d) \<and> (\<not> mon_enable d \<longrightarrow> nl_channel d = 255) \<and>
    (\<forall>cmd cb. mac_ok cmd m \<longrightarrow> (\<exists>ret cb' obj' e'. monitor_mode_ctl cmd cb obj e = Some (ret, cb', obj', e') \<and>
       (ret = WMG_STATUS_SUCCESS \<or> ret = WMG_STATUS_FAIL) \<and> plat e' \<noteq> None))"
proof -
  have inv: "mon_inv n obj e" by (rule mon_reach_inv[OF assms])
  then obtain d m where d: "plat e = Some (d, m)" "nl_ok d"
      "monitor_init_flag obj \<longrightarrow> nl_init_flag d \<and> monitor_platform_inf obj = Some (linux_mon_inf n)"
    by (auto simp: mon_inv_def)
  have "\<exists>ret cb' obj' e'. monitor_mode_ctl cmd cb obj e = Some (ret, cb', obj', e') \<and>
       (ret = WMG_STATUS_SUCCESS \<or> ret = WMG_STATUS_FAIL) \<and> plat e' \<noteq> None" if ok: "mac_ok cmd m" for cmd cb
  proof -
    obtain ret cb' obj' e' where c: "monitor_mode_ctl cmd cb obj e = Some (ret, cb', obj', e')"
        "ret = WMG_STATUS_SUCCESS \<or> ret = WMG_STATUS_FAIL"
      using monitor_ctl_kept[OF mon_inv_good[OF inv], of cmd cb e] by blast
    have "mon_inv n obj' e'" by (rule mon_ctl_inv[OF inv _ c(1)]) (use ok d(1) in simp)
    then show ?thesis using c by (auto simp: mon_inv_def)
  qed
  then show ?thesis using d nl_ok_name[OF d(2)] by (auto simp: nl_ok_def)
qed

text \<open>A kernel for examples that keeps the messages it was sent and knows the interface \<open>wlan0\<close>.\<close>

definition plain_os :: "'s wpa_os" where
  "plain_os = \<lparr>os_open = Pair True, os_attach = Pair True, os_request = (\<lambda>_. Pair (0, ''OK'')), os_pending = Pair 0,
     os_socketpair = Pair (Some (3, 4)), os_popen = (\<lambda>_. Pair (Some 1)), os_system = (\<lambda>_ s. s), os_access = (\<lambda>_. Pair True),
     os_ifaddrs = Pair [], os_time = Pair 0, os_sleep = (\<lambda>_ s. s), os_thread = Pair True, os_malloc = Pair True, os_room = 8,
     os_getfl = True, os_setfl = True, os_garbage = 0, os_socket = Pair True, os_if_flags = (\<lambda>_ _. Pair True),
     os_set_hw = (\<lambda>_ _. Pair True), os_get_hw = (\<lambda>_. Pair None)\<rparr>"

definition nl_lab :: "nl_item list list nl_os" where
  "nl_lab = \<lparr>nl_linux = plain_os, nl_alloc = Pair True, nl_connect = Pair True, nl_resolve = (\<lambda>_. Pair 28),
     nl_msg_alloc = Pair True, nl_put = (\<lambda>_. Pair True), nl_send = (\<lambda>msg log. (48, log @ [msg])),
     nl_ifindex = (\<lambda>name. Pair (if name = ''wlan0'' then 3 else 0)), nl_conf = Pair None, nl_raw = Pair True,
     nl_promisc = (\<lambda>_ s. s), nl_reuse = Pair True, nl_bind = (\<lambda>_. Pair True)\<rparr>"

lemma nl_lab_fine: "mallocs nl_lab" "conf_fits nl_lab"
  by (simp_all add: mallocs_def conf_fits_def nl_lab_def plain_os_def)

text \<open>The monitor after it was initialised and enabled on that kernel.\<close>

definition lab_boot :: "byte list option list \<Rightarrow> nl_item list list nl_plat env" where
  "lab_boot air = \<lparr>plat = Some (nl_inf_static air [], Map.empty), calls = []\<rparr>"

definition lab_dev :: "byte list option list \<Rightarrow> nl_item list list nl_dev" where
  "lab_dev air = (nl_inf_static air [])\<lparr>nl_init_flag := True, nl_frame_cb := True,
     nl_state := State \<lparr>nl_sock = Open_Sock, nl80211_id = 28\<rparr>, mon_if := ''wlan0'' @ replicate 15 (CHR 0x00)\<rparr>"

definition lab_mon :: "nl_item list list nl_plat wmg_monitor_object" where
  "lab_mon = monitor_object_static\<lparr>monitor_init_flag := True, monitor_enabled := True, nl_run := True,
     monitor_platform_inf := Some (linux_mon_inf nl_lab)\<rparr>"

lemma lab_init:
  "\<exists>obj e. monitor_mode_init (linux_mon_inf nl_lab) monitor_object_static (lab_boot air) = (0, obj, e) \<and>
     monitor_mode_enable obj e = Some (0, lab_mon, (lab_boot air)\<lparr>plat := Some (lab_dev air, Map.empty)\<rparr>)"
  by (simp add: monitor_mode_init_def monitor_mode_enable_def linux_mon_inf_def nl_call_def on_dev_def monitor_plat_def
      monitor_frames_def linux_monitor_nl_init_def nl80211_init_def linux_connect_to_nl_def read_mon_if_from_conf_def on_nl_eq
      nl_lab_def plain_os_def lab_boot_def lab_dev_def lab_mon_def nl_inf_static_def monitor_object_static_def c_true_def
      strncpy_def Let_def)

lemma lab_reached: "mon_reach nl_lab lab_mon ((lab_boot air)\<lparr>plat := Some (lab_dev air, Map.empty)\<rparr>)"
proof -
  obtain obj e where i: "monitor_mode_init (linux_mon_inf nl_lab) monitor_object_static (lab_boot air) = (0, obj, e)"
    and c: "monitor_mode_enable obj e = Some (0, lab_mon, (lab_boot air)\<lparr>plat := Some (lab_dev air, Map.empty)\<rparr>)"
    using lab_init by blast
  have "plat (lab_boot air) = Some (nl_inf_static air [], Map.empty)" by (simp add: lab_boot_def)
  then show ?thesis by (rule by_enable[OF by_init[OF at_boot i] c])
qed

theorem monitor_linux_safe_witness:
  "\<exists>d m. plat ((lab_boot [])\<lparr>plat := Some (lab_dev [], Map.empty(0 \<mapsto> replicate 6 0))\<rparr>) = Some (d, m) \<and> nl_frame_cb d \<and>
     (\<exists>ret cb' obj' e'. monitor_mode_ctl (WMG_MONITOR_CMD_GET_MAC (''wlan0'', Some 0)) 0 lab_mon
        ((lab_boot [])\<lparr>plat := Some (lab_dev [], Map.empty(0 \<mapsto> replicate 6 0))\<rparr>) = Some (ret, cb', obj', e') \<and> plat e' \<noteq> None)"
proof -
  have "mon_reach nl_lab lab_mon ((lab_boot [])\<lparr>plat := Some (lab_dev [], Map.empty(0 \<mapsto> replicate 6 0))\<rparr>)"
    using by_caller[OF lab_reached[of "[]"], of "lab_dev []" Map.empty "Map.empty(0 \<mapsto> replicate 6 0)"] by simp
  note safe = monitor_linux_safe[OF this nl_lab_fine]
  let ?m = "Map.empty(0 \<mapsto> replicate 6 0) :: nl_memory" and ?get = "WMG_MONITOR_CMD_GET_MAC (''wlan0'', Some 0)"
  have on: "monitor_init_flag lab_mon" by (simp add: lab_mon_def)
  have p: "plat ((lab_boot [])\<lparr>plat := Some (lab_dev [], ?m)\<rparr>) = Some (d, m) \<longleftrightarrow> d = lab_dev [] \<and> m = ?m" for d m by auto
  have ok: "mac_ok ?get ?m" by (simp add: six_bytes_def)
  obtain d m where d: "plat ((lab_boot [])\<lparr>plat := Some (lab_dev [], ?m)\<rparr>) = Some (d, m)" "nl_frame_cb d"
    and c: "\<forall>cmd cb. mac_ok cmd m \<longrightarrow> (\<exists>ret cb' obj' e'. monitor_mode_ctl cmd cb lab_mon
        ((lab_boot [])\<lparr>plat := Some (lab_dev [], ?m)\<rparr>) = Some (ret, cb', obj', e') \<and>
        (ret = WMG_STATUS_SUCCESS \<or> ret = WMG_STATUS_FAIL) \<and> plat e' \<noteq> None)"
    using safe on by (elim exE conjE) (rule that; assumption?; blast)
  have "m = ?m" using d(1) unfolding p by simp
  then have "\<exists>ret cb' obj' e'. monitor_mode_ctl ?get 0 lab_mon
      ((lab_boot [])\<lparr>plat := Some (lab_dev [], ?m)\<rparr>) = Some (ret, cb', obj', e') \<and> plat e' \<noteq> None"
    using c ok by blast
  then show ?thesis using d by blast
qed

end
