(* ===== verification/Nl_Capture.thy ===== *)
theory Nl_Capture
  imports Nl_Safety
begin

text \<open>
  What a capture does on the Linux platform: the requests that go to the kernel, the frames that
  reach the application; and where it goes wrong: a refused start, a name that is copied over a
  longer one, and a connection for which there was no memory.
\<close>

section \<open>Frequencies\<close>

text \<open>The channel of a frequency, as the standard numbers them.\<close>

definition frequency_channel :: "int \<Rightarrow> int" where
  "frequency_channel f =
     (if f = 2484 then 14
      else if f < 2484 then (f - 2407) div 5
      else if 4910 \<le> f \<and> f \<le> 4980 then (f - 4000) div 5
      else (f - 5000) div 5)"

lemma channel_of_freq:
  assumes "ch \<noteq> 0"
  shows "frequency_channel (uint (channel_freq ch)) = uint ch"
proof -
  have r: "0 \<le> uint ch" "uint ch < 256" using unsigned_greater_eq[of ch] uint_lt2p[of ch] by simp_all
  have p: "uint ch \<noteq> 0" using assms by (simp add: unsigned_eq_0_iff)
  have le: "ch \<le> 14 \<longleftrightarrow> uint ch \<le> 14" by (simp add: word_le_def)
  have w: "uint (word_of_int x :: 32 word) = x" if "0 \<le> x" "x < 10000" for x
    using that by (simp add: unsigned_of_int take_bit_int_eq_self)
  show ?thesis
    using r p by (auto simp: channel_freq_def ieee80211_channel_to_frequency_def frequency_channel_def le w)
qed

section \<open>The thread\<close>

fun capture :: "nat \<Rightarrow> 's nl_dev \<Rightarrow> 's nl_dev outcome" where
  "capture 0 d = Returns d"
| "capture (Suc n) d = bind_outcome (mon_recv_round d) (capture n)"

text \<open>The frames of what the socket gave, each cut to the array.\<close>

fun captured :: "8 word \<Rightarrow> byte list option list \<Rightarrow> wifi_monitor_data list" where
  "captured ch [] = []"
| "captured ch (None # air) = captured ch air"
| "captured ch (Some bytes # air) = \<lparr>frame_data = take MON_BUF_SIZE bytes, frame_channel = ch\<rparr> # captured ch air"

lemma capture_frames:
  assumes "mon_enable d" "nl_frame_cb d" "mon_air d = air @ rest"
  shows "capture (length air) d =
    Returns (d\<lparr>mon_air := rest, mon_frames := mon_frames d @ captured (nl_channel d) air\<rparr>)"
  using assms
proof (induction air arbitrary: d)
  case Nil
  then show ?case by simp
next
  case (Cons x air)
  then show ?case by (cases x) (simp_all add: mon_recv_round_def)
qed

section \<open>Starting a capture\<close>

text \<open>A kernel that does what it is asked, and one whose messages can be read off its state.\<close>

definition willing :: "'s nl_os \<Rightarrow> bool" where
  "willing n \<longleftrightarrow> (\<forall>s a msg. fst (os_thread (nl_linux n) s) \<and> fst (nl_msg_alloc n s) \<and> fst (nl_put n a s) \<and> 0 \<le> fst (nl_send n msg s))"

definition keeps_log :: "'s nl_os \<Rightarrow> ('s \<Rightarrow> nl_item list list) \<Rightarrow> bool" where
  "keeps_log n log \<longleftrightarrow> (\<forall>s a c i msg. log (snd (os_thread (nl_linux n) s)) = log s \<and> log (snd (nl_msg_alloc n s)) = log s \<and>
     log (os_system (nl_linux n) c s) = log s \<and> log (snd (nl_put n a s)) = log s \<and> log (snd (nl_ifindex n i s)) = log s \<and>
     log (snd (nl_send n msg s)) = log s @ [msg])"

lemma put_attrs_willing:
  assumes "willing n"
  shows "fst (put_attrs n as s) \<and> (keeps_log n log \<longrightarrow> log (snd (put_attrs n as s)) = log s)"
proof -
  have "put_attrs n (b # bs) t = put_attrs n bs (snd (nl_put n b t))" for b bs t
    using assms by (auto simp: willing_def split: prod.split) (metis fst_conv)
  then show ?thesis by (induction as arbitrary: s) (auto simp: keeps_log_def simp del: put_attrs.simps(2))
qed

text \<open>The two messages of a start: the second one still holds the first.\<close>

definition start_messages :: "int \<Rightarrow> 32 word \<Rightarrow> 8 word \<Rightarrow> nl_item list list" where
  "start_messages fam idx ch =
     (let set_if = [Genl_Header fam NL80211_CMD_SET_INTERFACE, NL80211_ATTR_IFINDEX idx, NL80211_ATTR_IFTYPE NL80211_IFTYPE_MONITOR]
      in [set_if, set_if @ [Genl_Header fam NL80211_CMD_SET_WIPHY, NL80211_ATTR_IFINDEX idx, NL80211_ATTR_WIPHY_FREQ (channel_freq ch)]])"

lemma nl_enable_starts:
  assumes "willing n" "keeps_log n log" "nl_state d = State \<lparr>nl_sock = Open_Sock, nl80211_id = fam\<rparr>"
    and "c_str (mon_if d) = Some name" "\<And>s. fst (nl_ifindex n name s) = idx"
  shows "\<exists>s. linux_monitor_nl_enable n ch d = Some (0, d\<lparr>mon_pid := True, mon_threads := Suc (mon_threads d), nl_channel := ch,
      nl_sys := s, mon_enable := True\<rparr>) \<and> log s = log (nl_sys d) @ start_messages fam idx ch"
proof -
  have w: "\<And>s. fst (os_thread (nl_linux n) s)" "\<And>s. fst (nl_msg_alloc n s)" "\<And>s msg. \<not> fst (nl_send n msg s) < 0"
      "\<And>as s. fst (put_attrs n as s)"
    using assms(1) put_attrs_willing[OF assms(1)] by (auto simp: willing_def not_less)
  have l: "\<And>s. log (snd (os_thread (nl_linux n) s)) = log s" "\<And>s. log (snd (nl_msg_alloc n s)) = log s"
      "\<And>s c. log (os_system (nl_linux n) c s) = log s" "\<And>s i. log (snd (nl_ifindex n i s)) = log s"
      "\<And>s msg. log (snd (nl_send n msg s)) = log s @ [msg]" "\<And>as s. log (snd (put_attrs n as s)) = log s"
    using assms(2) put_attrs_willing[OF assms(1)] by (auto simp: keeps_log_def)
  show ?thesis
    using assms(3-5)
    by (simp add: linux_monitor_nl_enable_def nl_request_defs w start_messages_def del: put_attrs.simps)
      (intro exI conjI, rule refl, simp add: l del: put_attrs.simps)
qed
lemma monitor_frames_calls:
  assumes "monitor_msg_cb obj = Some f"
  shows "calls (snd (monitor_frames fs (obj, e))) = calls e @ map (\<lambda>x. (f, Msg_Monitor_Frame x)) fs"
  using assms
proof (induction fs arbitrary: obj e)
  case Nil
  then show ?case by (simp add: monitor_frames_def)
next
  case (Cons x fs)
  have "monitor_frames (x # fs) (obj, e) = monitor_frames fs (monitor_nl_data_notify x (obj, e))" by (simp add: monitor_frames_def)
  then show ?case using Cons by (simp add: monitor_nl_data_notify_def invoke_cb_def)
qed

text \<open>
  C19. A capture from the command to the application: on a monitor that is running and off, with a kernel
  that does what it is asked, the command succeeds and sends two messages, which switch the
  interface of the configured name to monitor mode and tune it to a frequency that belongs to the
  requested channel; the application is told once that the capture is on; and every frame that the
  socket gives then reaches the application's callback, in order, with the channel, cut to 4096
  bytes, while failed reads are passed over and not counted.
\<close>

theorem capture_reaches_application:
  assumes "monitor_init_flag obj" "nl_run obj" "monitor_state obj = WIFI_MONITOR_DISABLE"
    and "monitor_platform_inf obj = Some (linux_mon_inf n)" "monitor_msg_cb obj = Some f" "plat e = Some (d, m)"
    and "nl_frame_cb d" "nl_state d = State \<lparr>nl_sock = Open_Sock, nl80211_id = fam\<rparr>" "c_str (mon_if d) = Some name"
    and "willing n" "keeps_log n log" "\<And>s. fst (nl_ifindex n name s) = idx" "mon_air d = air @ rest" "ch \<noteq> 0"
  shows "\<exists>obj' e' d' d''. monitor_enable ch cb obj e = Some (WMG_STATUS_SUCCESS, WMG_STATUS_SUCCESS, obj', e') \<and>
    monitor_state obj' = WIFI_MONITOR_ENABLE \<and> plat e' = Some (d', m) \<and>
    calls e' = calls e @ [(f, Msg_Monitor_State WIFI_MONITOR_ENABLE)] \<and>
    log (nl_sys d') = log (nl_sys d) @ start_messages fam idx ch \<and> frequency_channel (uint (channel_freq ch)) = uint ch \<and>
    capture (length air) d' = Returns d'' \<and> mon_air d'' = rest \<and>
    (\<exists>obj'' e''. monitor_frames (mon_frames d'') (obj', e'\<lparr>plat := Some (d'', m)\<rparr>) = (obj'', e'') \<and>
       calls e'' = calls e' @ map (\<lambda>x. (f, Msg_Monitor_Frame x)) (captured ch air) \<and>
       pkt_cnt obj'' = pkt_cnt obj + of_nat (length (captured ch air)))"
proof -
  let ?d0 = "d\<lparr>mon_frames := []\<rparr>"
  obtain s where s: "linux_monitor_nl_enable n ch ?d0 = Some (0, ?d0\<lparr>mon_pid := True, mon_threads := Suc (mon_threads d),
      nl_channel := ch, nl_sys := s, mon_enable := True\<rparr>)" "log s = log (nl_sys d) @ start_messages fam idx ch"
    using nl_enable_starts[of n log ?d0 fam name idx ch] assms by auto
  let ?d = "?d0\<lparr>mon_pid := True, mon_threads := Suc (mon_threads d), nl_channel := ch, nl_sys := s, mon_enable := True\<rparr>"
  have "monitor_plat (nl_call (on_dev (linux_monitor_nl_enable n ch))) obj e = (0, obj, e\<lparr>plat := Some (?d, m)\<rparr>)"
    using s(1) assms(6) by (simp add: monitor_plat_def nl_call_def on_dev_def monitor_frames_def)
  then have en: "monitor_enable ch cb obj e = Some (0, 0, obj\<lparr>monitor_state := WIFI_MONITOR_ENABLE\<rparr>,
      invoke_cb (Some f) (Msg_Monitor_State WIFI_MONITOR_ENABLE) (e\<lparr>plat := Some (?d, m)\<rparr>))"
    using assms(1-5) by (simp add: monitor_enable_def linux_mon_inf_def c_true_def both_def)
  have cap: "capture (length air) ?d = Returns (?d\<lparr>mon_air := rest, mon_frames := captured ch air\<rparr>)"
    using capture_frames[of ?d air rest] assms(7,13) by simp
  let ?o = "obj\<lparr>monitor_state := WIFI_MONITOR_ENABLE\<rparr>"
  let ?e = "invoke_cb (Some f) (Msg_Monitor_State WIFI_MONITOR_ENABLE) (e\<lparr>plat := Some (?d, m)\<rparr>)"
  let ?E = "?e\<lparr>plat := Some (?d\<lparr>mon_air := rest, mon_frames := captured ch air\<rparr>, m)\<rparr>"
  obtain o2 e2 where fr: "monitor_frames (captured ch air) (?o, ?E) = (o2, e2)" by fastforce
  have o2: "pkt_cnt o2 = pkt_cnt obj + of_nat (length (captured ch air))"
    using monitor_frames_obj[of "captured ch air" "(?o, ?E)"] fr by simp
  have e2: "calls e2 = calls ?e @ map (\<lambda>x. (f, Msg_Monitor_Frame x)) (captured ch air)"
    using monitor_frames_calls[of ?o f "captured ch air" ?E] fr assms(5) by simp
  have e': "plat ?e = Some (?d, m)" "calls ?e = calls e @ [(f, Msg_Monitor_State WIFI_MONITOR_ENABLE)]"
    by (simp_all add: invoke_cb_def)
  show ?thesis
    by (rule exI[of _ ?o], rule exI[of _ ?e], rule exI[of _ ?d], rule exI[of _ "?d\<lparr>mon_air := rest, mon_frames := captured ch air\<rparr>"])
      (use en cap fr s(2) channel_of_freq[OF assms(14)] o2 e2 e' in auto)
qed
text \<open>On the kernel of the examples: two frames around a failed read.\<close>

definition lab_env :: "byte list option list \<Rightarrow> nl_item list list nl_plat env" where
  "lab_env air = (lab_boot air)\<lparr>plat := Some (lab_dev air, Map.empty)\<rparr>"

lemma lab_env_plat: "plat (lab_env air) = Some (lab_dev air, Map.empty)"
  by (simp add: lab_env_def)

lemma lab_dev_fields:
  "nl_frame_cb (lab_dev air)" "nl_state (lab_dev air) = State \<lparr>nl_sock = Open_Sock, nl80211_id = 28\<rparr>" "mon_air (lab_dev air) = air"
  "nl_init_flag (lab_dev air)" "\<not> mon_enable (lab_dev air)" "c_str (mon_if (lab_dev air)) = Some ''wlan0''"
  by (simp_all add: lab_dev_def nl_inf_static_def c_str_def)

lemma lab_mon_fields:
  "monitor_init_flag lab_mon" "monitor_enabled lab_mon" "nl_run lab_mon" "monitor_state lab_mon = WIFI_MONITOR_DISABLE"
  "monitor_platform_inf lab_mon = Some (linux_mon_inf nl_lab)"
  by (simp_all add: lab_mon_def monitor_object_static_def)

lemma lab_willing: "willing nl_lab" "keeps_log nl_lab (\<lambda>s. s)" "fst (nl_ifindex nl_lab ''wlan0'' s) = 3"
  by (simp_all add: willing_def keeps_log_def nl_lab_def plain_os_def)

theorem capture_reaches_application_witness:
  "\<exists>obj e. monitor_enable 6 0 (lab_mon\<lparr>monitor_msg_cb := Some 7\<rparr>) (lab_env [Some [1, 2], None, Some [3]]) = Some (0, 0, obj, e) \<and>
     (\<exists>d. plat e = Some (d, Map.empty) \<and> nl_sys d = start_messages 28 3 6)"
proof -
  let ?air = "[Some [1, 2], None, Some [3]]"
  show ?thesis
    using capture_reaches_application[where obj = "lab_mon\<lparr>monitor_msg_cb := Some 7\<rparr>" and e = "lab_env ?air" and d = "lab_dev ?air"
        and n = nl_lab and log = "\<lambda>s. s" and air = ?air and rest = "[]" and ch = 6 and cb = 0 and f = 7 and fam = 28 and idx = 3
        and name = "''wlan0''" and m = Map.empty]
    by (auto simp: lab_mon_fields lab_dev_fields lab_env_plat lab_willing) (simp add: lab_dev_def nl_inf_static_def)
qed

section \<open>Refused starts\<close>

definition refusing :: "'s nl_os \<Rightarrow> bool" where
  "refusing n \<longleftrightarrow> (\<forall>s a msg. fst (os_thread (nl_linux n) s) \<and> fst (nl_msg_alloc n s) \<and> fst (nl_put n a s) \<and> fst (nl_send n msg s) < 0)"

lemma nl_enable_refused:
  assumes "refusing n" "nl_state d = State \<lparr>nl_sock = Open_Sock, nl80211_id = fam\<rparr>" "c_str (mon_if d) = Some name"
  shows "\<exists>s. linux_monitor_nl_enable n ch d = Some (- 1, d\<lparr>mon_pid := True, mon_threads := Suc (mon_threads d), nl_sys := s\<rparr>)"
proof -
  have "put_attrs n (b # bs) t = put_attrs n bs (snd (nl_put n b t))" for b bs t
    using assms(1) by (auto simp: refusing_def split: prod.split) (metis fst_conv)
  then have "fst (put_attrs n as s)" for as s by (induction as arbitrary: s) (auto simp del: put_attrs.simps(2))
  then have w: "\<And>s. fst (os_thread (nl_linux n) s)" "\<And>s. fst (nl_msg_alloc n s)" "\<And>s msg. fst (nl_send n msg s) < 0"
      "\<And>as s. fst (put_attrs n as s)"
    using assms(1) by (auto simp: refusing_def)
  show ?thesis
    using assms(2,3) by (simp add: linux_monitor_nl_enable_def nl_request_defs w del: put_attrs.simps) (rule exI, rule refl)
qed

fun try_capture ::
    "nat \<Rightarrow> 8 word \<Rightarrow> 's nl_plat wmg_monitor_object \<Rightarrow> 's nl_plat env \<Rightarrow> (int list \<times> 's nl_plat wmg_monitor_object \<times> 's nl_plat env) option" where
  "try_capture 0 ch obj e = Some ([], obj, e)"
| "try_capture (Suc k) ch obj e =
     do {
       (ret, _, obj, e) \<leftarrow> monitor_mode_ctl (WMG_MONITOR_CMD_ENABLE ch) 0 obj e;
       (rets, obj, e) \<leftarrow> try_capture k ch obj e;
       Some (ret # rets, obj, e)
     }"

lemma refused_once:
  assumes "monitor_init_flag obj" "monitor_enabled obj" "nl_run obj" "monitor_state obj = WIFI_MONITOR_DISABLE"
    and "monitor_platform_inf obj = Some (linux_mon_inf n)" "refusing n" "plat e = Some (d, m)"
    and "nl_state d = State \<lparr>nl_sock = Open_Sock, nl80211_id = fam\<rparr>" "c_str (mon_if d) = Some name"
  shows "\<exists>s. monitor_mode_ctl (WMG_MONITOR_CMD_ENABLE ch) cb obj e = Some (WMG_STATUS_FAIL, WMG_STATUS_FAIL, obj,
    e\<lparr>plat := Some (d\<lparr>mon_frames := [], mon_pid := True, mon_threads := Suc (mon_threads d), nl_sys := s\<rparr>, m)\<rparr>)"
proof -
  obtain s where "linux_monitor_nl_enable n ch (d\<lparr>mon_frames := []\<rparr>) =
      Some (- 1, d\<lparr>mon_frames := [], mon_pid := True, mon_threads := Suc (mon_threads d), nl_sys := s\<rparr>)"
    using nl_enable_refused[of n "d\<lparr>mon_frames := []\<rparr>" fam name ch] assms(6,8,9) by auto
  then show ?thesis
    using assms(1-5,7)
    by (auto simp: monitor_mode_ctl_def monitor_enable_def linux_mon_inf_def monitor_plat_def nl_call_def on_dev_def
        monitor_frames_def ctl_case_def both_def c_true_def)
qed

text \<open>
  A start that the kernel refuses leaves its thread behind: with \<open>k\<close> refused attempts every one reports
  failure and there are \<open>k\<close> threads more; and leaving the monitor mode then does not end them, as the
  platform says that nothing was on.
\<close>

theorem refused_capture_leaks_threads:
  assumes "monitor_init_flag obj" "monitor_enabled obj" "nl_run obj" "monitor_state obj = WIFI_MONITOR_DISABLE"
    and "monitor_platform_inf obj = Some (linux_mon_inf n)" "refusing n" "plat e = Some (d, m)"
    and "nl_state d = State \<lparr>nl_sock = Open_Sock, nl80211_id = fam\<rparr>" "c_str (mon_if d) = Some name" "\<not> mon_enable d"
  shows "\<exists>e' d'. try_capture k ch obj e = Some (replicate k WMG_STATUS_FAIL, obj, e') \<and> plat e' = Some (d', m) \<and>
    mon_threads d' = mon_threads d + k \<and>
    (\<exists>obj2 e2 d2. monitor_mode_disable obj e' = Some (WMG_STATUS_SUCCESS, obj2, e2) \<and> \<not> monitor_enabled obj2 \<and>
       plat e2 = Some (d2, m) \<and> mon_threads d2 = mon_threads d + k)"
  using assms(7-10)
proof (induction k arbitrary: e d)
  case 0
  then show ?case
    using assms(1-5)
    by (cases "nl_init_flag d")
      (simp_all add: monitor_mode_disable_def linux_mon_inf_def monitor_plat_def nl_call_def on_dev_def
        monitor_frames_def linux_monitor_nl_disable_def)
next
  case (Suc k)
  obtain s where "monitor_mode_ctl (WMG_MONITOR_CMD_ENABLE ch) 0 obj e = Some (WMG_STATUS_FAIL, WMG_STATUS_FAIL, obj,
      e\<lparr>plat := Some (d\<lparr>mon_frames := [], mon_pid := True, mon_threads := Suc (mon_threads d), nl_sys := s\<rparr>, m)\<rparr>)"
    using refused_once[OF assms(1-6) Suc.prems(1-3)] by blast
  then show ?case
    using Suc.IH[of "e\<lparr>plat := Some (d\<lparr>mon_frames := [], mon_pid := True, mon_threads := Suc (mon_threads d), nl_sys := s\<rparr>, m)\<rparr>"
        "d\<lparr>mon_frames := [], mon_pid := True, mon_threads := Suc (mon_threads d), nl_sys := s\<rparr>"] Suc.prems(2-4)
    by auto
qed

theorem refused_capture_leaks_threads_witness:
  "\<exists>e d. try_capture 3 6 (lab_mon\<lparr>monitor_platform_inf := Some (linux_mon_inf (nl_lab\<lparr>nl_send := \<lambda>_. Pair (- 1)\<rparr>))\<rparr>) (lab_env []) =
      Some ([- 1, - 1, - 1], lab_mon\<lparr>monitor_platform_inf := Some (linux_mon_inf (nl_lab\<lparr>nl_send := \<lambda>_. Pair (- 1)\<rparr>))\<rparr>, e) \<and>
    plat e = Some (d, Map.empty) \<and> mon_threads d = 3"
proof -
  let ?n = "nl_lab\<lparr>nl_send := \<lambda>_. Pair (- 1)\<rparr>"
  have r: "refusing ?n" by (simp add: refusing_def nl_lab_def plain_os_def)
  have t: "mon_threads (lab_dev []) = 0" by (simp add: lab_dev_def nl_inf_static_def)
  have "replicate 3 (- 1 :: int) = [- 1, - 1, - 1]" by (simp add: numeral_3_eq_3)
  then show ?thesis
    using refused_capture_leaks_threads[where obj = "lab_mon\<lparr>monitor_platform_inf := Some (linux_mon_inf ?n)\<rparr>" and n = ?n
        and e = "lab_env []" and d = "lab_dev []" and m = Map.empty and k = 3 and ch = 6 and fam = 28 and name = "''wlan0''"]
    by (auto simp: lab_mon_fields lab_dev_fields lab_env_plat r t)
qed
section \<open>The name of the interface\<close>

text \<open>The array as the code leaves it: a text and NULs behind it.\<close>

definition name_array :: "string \<Rightarrow> string" where
  "name_array s = s @ replicate (MON_IF_SIZE - length s) (CHR 0x00)"

lemma name_array_text: "CHR 0x00 \<notin> set s \<Longrightarrow> length s < MON_IF_SIZE \<Longrightarrow> c_str (name_array s) = Some s"
proof -
  assume *: "CHR 0x00 \<notin> set s" "length s < MON_IF_SIZE"
  then obtain k where "MON_IF_SIZE - length s = Suc k" by (cases "MON_IF_SIZE - length s") auto
  then show ?thesis using * by (simp add: name_array_def c_str_NUL)
qed

lemma name_array_copy:
  assumes "length new < MON_IF_SIZE" "length old < MON_IF_SIZE"
  shows "strncpy (name_array old) new (length new) = name_array (new @ drop (length new) old)"
proof (cases "length new \<le> length old")
  case True
  then show ?thesis using assms by (simp add: strncpy_all name_array_def)
next
  case False
  then show ?thesis using assms by (simp add: strncpy_all name_array_def)
qed

text \<open>
  The name in the file is copied over the old one without a NUL behind it. So the interface that
  is used from then on has the new name with the end of the old one behind it: the right name
  exactly when the old one was not longer. The same holds for the default when there is no file.
\<close>

theorem connect_mixes_names:
  assumes "mon_if d = name_array old" "length old < MON_IF_SIZE" "CHR 0x00 \<notin> set old"
    and "fst (nl_conf n (nl_sys d)) = (if conf then Some (''mon_if='' @ name @ NL # rest, length (''mon_if='' @ name @ NL # rest)) else None)"
    and "name \<noteq> []" "length name < MON_IF_SIZE" "set name \<inter> {NL, CHR 0x00} = {}" "length rest < 4000"
    and "new = (if conf then name else ''wlan0'')"
  shows "\<exists>d'. linux_connect_to_nl n d = Some (WMG_STATUS_SUCCESS, d') \<and> mon_if d' = name_array (new @ drop (length new) old) \<and>
    c_str (mon_if d') = Some (new @ drop (length new) old) \<and>
    (c_str (mon_if d') = Some new \<longleftrightarrow> length old \<le> length new)"
proof -
  have new: "length new < MON_IF_SIZE" "CHR 0x00 \<notin> set new" using assms(6,7,9) by auto
  have conf_name: "conf_name (''mon_if='' @ name @ NL # rest) = Some (Some name)"
  proof -
    let ?r = "takeWhile (\<lambda>c. c \<noteq> CHR 0x00) rest"
    have t: "takeWhile (\<lambda>c. c \<noteq> CHR 0x00) (''mon_if='' @ name @ NL # rest) = ''mon_if='' @ name @ NL # ?r"
      using assms(7) by (auto simp: takeWhile_append)
    have "strstr ''mon_if='' (''mon_if='' @ name @ NL # ?r) = Some ([], ''mon_if='' @ name @ NL # ?r)"
      by (subst strstr.simps) (simp add: starts_def)
    moreover have "strchr NL (name @ NL # ?r) = Some (name, ?r)" using assms(7) by (auto simp: strchr_Some)
    ultimately show ?thesis unfolding conf_name_def Let_def t by simp
  qed
  have "\<exists>s. linux_connect_to_nl n d = Some (0, d\<lparr>nl_sys := s, mon_if := strncpy (mon_if d) new (length new)\<rparr>)"
  proof (cases conf)
    case True
    have "take MON_BUF_SIZE (''mon_if='' @ name @ NL # rest) = ''mon_if='' @ name @ NL # rest" using assms(6,8) by simp
    then show ?thesis
      using True assms(4,5,6,9) conf_name by (auto simp: linux_connect_to_nl_def read_mon_if_from_conf_def on_nl_eq)
  next
    case False
    then show ?thesis
      using assms(4,9) by (simp add: linux_connect_to_nl_def read_mon_if_from_conf_def on_nl_eq numeral_eq_Suc) blast
  qed
  then obtain d' where d': "linux_connect_to_nl n d = Some (0, d')" "mon_if d' = name_array (new @ drop (length new) old)"
    using name_array_copy[OF new(1) assms(2)] assms(1) by auto
  have "CHR 0x00 \<notin> set (new @ drop (length new) old)" using new(2) assms(3) by (auto dest: in_set_dropD)
  then have "c_str (mon_if d') = Some (new @ drop (length new) old)"
    using d'(2) name_array_text new(1) assms(2) by auto
  then show ?thesis using d' by auto
qed

theorem connect_mixes_names_witness:
  "\<exists>d'. linux_connect_to_nl nl_lab ((lab_dev [])\<lparr>mon_if := name_array ''monitor0''\<rparr>) = Some (0, d') \<and> c_str (mon_if d') = Some ''wlan0or0''"
  using connect_mixes_names[where n = nl_lab and d = "(lab_dev [])\<lparr>mon_if := name_array ''monitor0''\<rparr>" and old = "''monitor0''"
      and conf = False and name = "''x''" and rest = "[]" and new = "''wlan0''"]
  by (auto simp: nl_lab_def)

section \<open>No memory\<close>

lemma linux_mon_sel:
  "monitor_nl_enable (linux_mon_inf n) channel = nl_call (on_dev (linux_monitor_nl_enable n channel))"
  "monitor_nl_connect (linux_mon_inf n) = nl_call (on_dev (linux_connect_to_nl n))"
  "\<exists>f. monitor_nl_init (linux_mon_inf n) = Some f \<and> (\<forall>p. f p = (fst (nl_call (on_dev (\<lambda>d. Some (linux_monitor_nl_init n d))) p),
     snd (snd (nl_call (on_dev (\<lambda>d. Some (linux_monitor_nl_init n d))) p))))"
  by (simp_all add: linux_mon_inf_def split: prod.split)

text \<open>
  Without memory for the connection the monitor is initialised and enabled with success; the first start
  of a capture then reads the connection through a NULL pointer.
\<close>

theorem lost_connection_crashes:
  assumes "monitor_init_flag obj = False" "monitor_enabled obj = False" "monitor_state obj = WIFI_MONITOR_DISABLE"
    and "plat e = Some (d, m)" "\<not> nl_init_flag d" "\<And>s. \<not> fst (os_malloc (nl_linux n) s)"
    and "\<And>s. fst (os_thread (nl_linux n) s) \<and> fst (nl_msg_alloc n s)" "\<And>s. fst (nl_conf n s) = None"
  shows "\<exists>obj1 e1 obj2 e2 ret cb' obj3 e3. monitor_mode_init (linux_mon_inf n) obj e = (WMG_STATUS_SUCCESS, obj1, e1) \<and>
    monitor_mode_enable obj1 e1 = Some (WMG_STATUS_SUCCESS, obj2, e2) \<and> plat e2 \<noteq> None \<and>
    monitor_mode_ctl (WMG_MONITOR_CMD_ENABLE ch) cb obj2 e2 = Some (ret, cb', obj3, e3) \<and> plat e3 = None"
proof -
  let ?d = "d\<lparr>mon_frames := [], nl_sys := snd (os_malloc (nl_linux n) (nl_sys d)), nl_state := No_State,
      nl_frame_cb := True, nl_init_flag := True\<rparr>"
  have i: "linux_monitor_nl_init n (d\<lparr>mon_frames := []\<rparr>) = (0, ?d)"
    using assms(5,6) by (simp add: linux_monitor_nl_init_def on_nl_eq Let_def c_true_def)
  let ?o1 = "obj\<lparr>monitor_platform_inf := Some (linux_mon_inf n), monitor_init_flag := True\<rparr>"
  let ?e1 = "e\<lparr>plat := Some (?d, m)\<rparr>"
  have s1: "monitor_mode_init (linux_mon_inf n) obj e = (WMG_STATUS_SUCCESS, ?o1, ?e1)"
    using assms(1,4) i linux_mon_sel(3)[of n] by (auto simp: monitor_mode_init_def nl_call_def on_dev_def c_true_def)
  obtain d2 where c: "linux_connect_to_nl n (?d\<lparr>mon_frames := []\<rparr>) = Some (0, d2)" "nl_state d2 = No_State" "mon_frames d2 = []"
    using assms(8) by (simp add: linux_connect_to_nl_def read_mon_if_from_conf_def on_nl_eq)
  let ?o2 = "?o1\<lparr>nl_run := True, monitor_enabled := True\<rparr>" and ?e2 = "e\<lparr>plat := Some (d2, m)\<rparr>"
  have s2: "monitor_mode_enable ?o1 ?e1 = Some (WMG_STATUS_SUCCESS, ?o2, ?e2)"
    using assms(2) c by (simp add: monitor_mode_enable_def linux_mon_sel(2) monitor_plat_def nl_call_def on_dev_def
        monitor_frames_def c_true_def)
  have "linux_monitor_nl_enable n ch (d2\<lparr>mon_frames := []\<rparr>) = None"
    using assms(7) c(2) by (simp add: linux_monitor_nl_enable_def on_nl_eq Let_def nl_family_def)
  then have "monitor_mode_ctl (WMG_MONITOR_CMD_ENABLE ch) cb ?o2 ?e2 = Some (WMG_STATUS_FAIL, WMG_STATUS_FAIL, ?o2, e\<lparr>plat := None\<rparr>)"
    using assms(3) by (simp add: monitor_mode_ctl_def monitor_enable_def linux_mon_sel(1) monitor_plat_def nl_call_def on_dev_def
        monitor_frames_def c_true_def both_def ctl_case_def)
  then show ?thesis using s1 s2 by (fastforce simp del: monitor_dispatch.simps)
qed

theorem lost_connection_crashes_witness:
  "\<exists>obj2 e2 ret cb' obj3 e3. monitor_mode_ctl (WMG_MONITOR_CMD_ENABLE 6) 0 obj2 e2 =
     Some (ret, cb', obj3, e3) \<and> plat e2 \<noteq> None \<and> plat e3 = (None :: nl_item list list nl_plat)"
proof -
  let ?n = "nl_lab\<lparr>nl_linux := plain_os\<lparr>os_malloc := Pair False\<rparr>\<rparr>"
  show ?thesis
    using lost_connection_crashes[where n = ?n and obj = monitor_object_static and e = "lab_boot []" and d = "nl_inf_static [] []"
        and m = Map.empty and ch = 6 and cb = 0]
    by (fastforce simp: monitor_object_static_def lab_boot_def nl_inf_static_def nl_lab_def plain_os_def)
qed

end
