(* ===== verification/Tuya_Wifi.thy ===== *)
theory Tuya_Wifi
  imports Linux_Common Scan_Results
begin

text \<open>
  The adapter between the vendor's SDK and the Wi-Fi manager, \<open>arm_app/apps/src/tuya_wifi.c\<close>, as it
  is built here (\<open>WIFI_GW\<close> is 1, \<open>RK_DEVICEIO\<close> and the macros of other chips are not set): scanning,
  the working mode, the addresses, connecting, the state of the station, the name of the network,
  the access point and the sniffer.

  The public calls of the manager, the calls of the SDK and the application, and the kernel are a
  record of operations on a state \<open>'s\<close>; a call of the manager that is undefined gives \<open>None\<close>.
\<close>

section \<open>The interfaces it uses\<close>

datatype wf_wk_md = WWM_LOWPOWER | WWM_SNIFFER | WWM_STATION | WWM_SOFTAP | WWM_STATIONAP | WWM_UNKNOWN

datatype wf_station_stat = WSS_IDLE | WSS_CONNECTING | WSS_PASSWD_WRONG | WSS_NO_AP_FOUND | WSS_CONN_FAIL
| WSS_CONN_SUCCESS | WSS_GOT_IP

datatype wf_if = WF_STATION | WF_AP

datatype wf_auth_mode = WAAM_OPEN | WAAM_WEP | WAAM_WPA_PSK | WAAM_WPA2_PSK | WAAM_WPA_WPA2_PSK | WAAM_UNKNOWN

datatype app_event = IPC_START_WIFI_CFG | IPC_REV_WIFI_CFG | IPC_CONNECTING_WIFI

datatype voice = V_WIFI_NOTFOUND | V_WIFI_FAIL | V_WIFI_RECV_PWD

abbreviation "OPRT_OK \<equiv> 0 :: int"
abbreviation "OPRT_COM_ERROR \<equiv> - 1 :: int"
abbreviation "OPRT_INVALID_PARM \<equiv> - 2 :: int"

text \<open>
  \<open>api_scan\<close> is given the number of places and gives the result, the count and the entries that were
  stored; \<open>api_get_info\<close> is given the structure and gives it back; \<open>api_ap_enable\<close> is given name, key,
  channel and the number of the security; \<open>sdk_scan\<close> gives the array of \<open>AP_IF_S\<close> as bytes and the
  count; \<open>sys_popen\<close> gives what a shell command prints; \<open>sys_garbage\<close> is what a variable holds
  that nobody wrote.
\<close>

record 's wifi_api =
  api_manager_init :: "'s \<Rightarrow> 's option"
  api_is_init :: "'s \<Rightarrow> bool"
  api_init :: "'s \<Rightarrow> (int \<times> 's) option"
  api_register :: "'s \<Rightarrow> (int \<times> 's) option"
  api_scan :: "nat \<Rightarrow> 's \<Rightarrow> ((int \<times> nat \<times> wifi_scan_result list) \<times> 's) option"
  api_set_channel :: "8 word \<Rightarrow> 's \<Rightarrow> (int \<times> 's) option"
  api_get_info :: "wifi_sta_info \<Rightarrow> 's \<Rightarrow> (int \<times> wifi_sta_info \<times> 's) option"
  api_on :: "wifi_mode \<Rightarrow> 's \<Rightarrow> (int \<times> 's) option"
  api_mode :: "'s \<Rightarrow> wifi_mode"
  api_ap_enable :: "string \<Rightarrow> string \<Rightarrow> 8 word \<Rightarrow> nat \<Rightarrow> 's \<Rightarrow> (int \<times> 's) option"
  api_ap_disable :: "'s \<Rightarrow> (int \<times> 's) option"
  api_connect :: "wifi_sta_cn_para \<Rightarrow> 's \<Rightarrow> (int \<times> 's) option"
  api_disconnect :: "'s \<Rightarrow> (int \<times> 's) option"
  api_reconnect :: "bool \<Rightarrow> 's \<Rightarrow> (int \<times> 's) option"
  sdk_scan :: "'s \<Rightarrow> (byte list \<times> nat) \<times> 's"
  sdk_work_mode :: "wf_wk_md \<Rightarrow> 's \<Rightarrow> 's"
  app_notify :: "app_event \<Rightarrow> 's \<Rightarrow> 's"
  app_voice :: "voice \<Rightarrow> 's \<Rightarrow> 's"
  sys_popen :: "string \<Rightarrow> 's \<Rightarrow> string option \<times> 's"
  sys_sleep :: "nat \<Rightarrow> 's \<Rightarrow> 's"
  sys_socket :: "'s \<Rightarrow> bool \<times> 's"
  sys_thread :: "'s \<Rightarrow> bool \<times> 's"
  sys_garbage :: int

section \<open>State\<close>

abbreviation "MAX_AP_SEARCH \<equiv> 20 :: nat"
abbreviation "AP_IF_SIZE \<equiv> 45 :: nat"
abbreviation "MAX_REV_BUFFER \<equiv> 512 :: nat"

text \<open>
  The static variables of the file. \<open>s_aps\<close> is the array of 20 structures of 45 bytes; the two saved
  texts are arrays of 128 bytes; \<open>sniffer_id\<close> says that there is a thread that was not waited for,
  \<open>sniffer_thread\<close> that it runs, \<open>rev_buffer\<close> is its
  buffer and \<open>tuya_air\<close> what its socket will give (\<open>None\<close>: an error); \<open>sniffed\<close> are the buffers handed
  to the SDK's callback, oldest first.
\<close>

record 's tuya_wifi =
  wifi_work_mode :: wf_wk_md
  saved_ssid :: string
  saved_passwd :: string
  s_aps :: "byte list"
  enable_sniffer :: bool
  sniffer_call :: bool
  sniffer_id :: bool
  sniffer_thread :: bool
  rev_buffer :: "byte list"
  sniffer_set_done :: bool
  idle_count :: int
  tuya_air :: "byte list option list"
  sniffed :: "byte list list"
  tsys :: 's

definition tsys_do :: "('s \<Rightarrow> 's) \<Rightarrow> 's tuya_wifi \<Rightarrow> 's tuya_wifi" where
  "tsys_do f d = d\<lparr>tsys := f (tsys d)\<rparr>"

definition tsys_run :: "('s \<Rightarrow> 'a \<times> 's) \<Rightarrow> 's tuya_wifi \<Rightarrow> 'a \<times> 's tuya_wifi" where
  "tsys_run f d = (let (x, s) = f (tsys d) in (x, d\<lparr>tsys := s\<rparr>))"

definition tsys_call :: "('s \<Rightarrow> ('a \<times> 's) option) \<Rightarrow> 's tuya_wifi \<Rightarrow> ('a \<times> 's tuya_wifi) option" where
  "tsys_call f d = map_option (\<lambda>(x, s). (x, d\<lparr>tsys := s\<rparr>)) (f (tsys d))"

section \<open>Starting\<close>

definition tuya_wifi_init :: "'s wifi_api \<Rightarrow> 's tuya_wifi \<Rightarrow> (int \<times> 's tuya_wifi) option" where
  "tuya_wifi_init a d =
     do {
       s \<leftarrow> api_manager_init a (tsys d);
       let d = d\<lparr>tsys := s\<rparr>;
       (ret, d) \<leftarrow> (if \<not> api_is_init a (tsys d) then tsys_call (api_init a) d else Some (0, d));
       if c_true ret then Some (WMG_STATUS_NOT_READY, d)
       else do {
         (ret, d) \<leftarrow> tsys_call (api_register a) d;
         Some (if c_true ret then WMG_STATUS_FAIL else WMG_STATUS_SUCCESS, d)
       }
     }"

text \<open>The callback that is registered: it writes a log, and speaks for two of the events.\<close>

fun wifi_msg_cb :: "'s wifi_api \<Rightarrow> wifi_msg_data \<Rightarrow> 's \<Rightarrow> 's" where
  "wifi_msg_cb a (Msg_Sta_Event WIFI_NETWORK_NOT_FOUND) s = app_voice a V_WIFI_NOTFOUND s"
| "wifi_msg_cb a (Msg_Sta_Event WIFI_PASSWORD_INCORRECT) s = app_voice a V_WIFI_FAIL s"
| "wifi_msg_cb a _ s = s"
section \<open>Scanning\<close>

text \<open>A block of bytes written into memory; outside of it nothing is defined.\<close>

definition poke :: "nat \<Rightarrow> byte list \<Rightarrow> byte list \<Rightarrow> byte list option" where
  "poke off bs mem = (if off + length bs \<le> length mem then Some (take off mem @ bs @ drop (off + length bs) mem) else None)"

definition bytes_of :: "string \<Rightarrow> byte list" where
  "bytes_of s = map of_char s"

text \<open>The channel of a frequency, in the arithmetic of 32-bit unsigned integers, cut to a byte.\<close>

definition scan_channel :: "32 word \<Rightarrow> byte" where
  "scan_channel freq = ucast ((freq - 2400) div 20)"

text \<open>
  One entry of the list for the SDK. In \<open>AP_IF_S\<close> the channel is byte 0, the signal byte 1, the
  address bytes 2 to 7, the name bytes 8 to 40, its length byte 41. All 48 bytes of the text of the
  address are copied to the address, over what follows.
\<close>

definition put_ap :: "nat \<Rightarrow> wifi_scan_result \<Rightarrow> byte list \<Rightarrow> byte list option" where
  "put_ap i r mem =
     do {
       mem \<leftarrow> poke (AP_IF_SIZE * i + 2) (bytes_of (strncpy (replicate 48 (CHR 0x00)) (scan_bssid r) 48)) mem;
       mem \<leftarrow> poke (AP_IF_SIZE * i) [scan_channel (scan_freq r)] mem;
       mem \<leftarrow> poke (AP_IF_SIZE * i + 1) [word_of_int (scan_rssi r)] mem;
       mem \<leftarrow> poke (AP_IF_SIZE * i + 41) [of_nat (length (scan_ssid r))] mem;
       poke (AP_IF_SIZE * i + 8) (bytes_of (strncpy (replicate 33 (CHR 0x00)) (scan_ssid r) 33)) mem
     }"

fun put_aps :: "nat \<Rightarrow> wifi_scan_result list \<Rightarrow> byte list \<Rightarrow> byte list option" where
  "put_aps i [] mem = Some mem"
| "put_aps i (r # rs) mem = do { mem \<leftarrow> put_ap i r mem; put_aps (Suc i) rs mem }"

text \<open>
  The local array has 10 places, cleared at first; what is passed as their number is its size in bytes,
  124 for each. Entries are stored from its start, and the count says how many are read back.
\<close>

definition no_result :: wifi_scan_result where
  "no_result = \<lparr>scan_bssid = [], scan_ssid = [], scan_freq = 0, scan_rssi = 0, scan_key_mgmt = WIFI_SEC_NONE\<rparr>"

text \<open>The result, the caller's count afterwards, which is set to 0 and not written again, and the state.\<close>

definition tuya_adapter_wifi_all_ap_scan ::
    "'s wifi_api \<Rightarrow> buf option \<Rightarrow> nat option \<Rightarrow> 's tuya_wifi \<Rightarrow> (int \<times> nat option \<times> 's tuya_wifi) option" where
  "tuya_adapter_wifi_all_ap_scan a ap_ary num d =
     (if ap_ary = None \<or> num = None then Some (OPRT_INVALID_PARM, num, d)
      else do {
        ((r, bss_num, stored), d) \<leftarrow> tsys_call (api_scan a (10 * 124)) (d\<lparr>s_aps := replicate (MAX_AP_SEARCH * AP_IF_SIZE) 0\<rparr>);
        if 10 < length stored then None
        else if r \<noteq> WMG_STATUS_SUCCESS then Some (OPRT_COM_ERROR, Some 0, d)
        else if 10 < bss_num then None
        else do {
          mem \<leftarrow> put_aps 0 (take bss_num (stored @ replicate 10 no_result)) (s_aps d);
          Some (OPRT_OK, Some 0, d\<lparr>s_aps := mem\<rparr>)
        }
      })"

text \<open>
  \<open>memcmp\<close> of the first \<open>n\<close> bytes of an entry's name with a text and its NUL; reading on behind the NUL
  or behind the array is undefined.
\<close>

fun mem_equal :: "nat \<Rightarrow> byte list \<Rightarrow> byte list \<Rightarrow> bool option" where
  "mem_equal 0 xs ys = Some True"
| "mem_equal (Suc n) (x # xs) (y # ys) = (if x = y then mem_equal n xs ys else Some False)"
| "mem_equal (Suc n) _ _ = None"

text \<open>The first entry from index \<open>i\<close> on, of \<open>k\<close>, whose name agrees with the text as far as the name goes.\<close>

fun find_ap :: "nat \<Rightarrow> nat \<Rightarrow> string \<Rightarrow> byte list \<Rightarrow> nat option option" where
  "find_ap i 0 ssid mem = Some None"
| "find_ap i (Suc k) ssid mem =
     (if length mem < AP_IF_SIZE * Suc i then None
      else do {
        same \<leftarrow> mem_equal (unat (mem ! (AP_IF_SIZE * i + 41))) (drop (AP_IF_SIZE * i + 8) mem) (bytes_of ssid @ [0]);
        if same then Some (Some i) else find_ap (Suc i) k ssid mem
      })"

text \<open>The result, and the index of the entry that is given back.\<close>

definition tuya_adapter_wifi_assign_ap_scan ::
    "'s wifi_api \<Rightarrow> string option \<Rightarrow> buf option \<Rightarrow> 's tuya_wifi \<Rightarrow> (int \<times> nat option \<times> 's tuya_wifi) option" where
  "tuya_adapter_wifi_assign_ap_scan a ssid ap d =
     (case (ssid, ap) of
        (Some ssid, Some _) \<Rightarrow>
          let ((mem, num), d) = tsys_run (sdk_scan a) d
          in map_option (\<lambda>found. (OPRT_OK, found, d)) (find_ap 0 num ssid mem)
      | _ \<Rightarrow> Some (OPRT_INVALID_PARM, None, d))"

definition tuya_adapter_wifi_release_ap :: "'s tuya_wifi \<Rightarrow> int \<times> 's tuya_wifi" where
  "tuya_adapter_wifi_release_ap d = (OPRT_OK, d)"

section \<open>Channel and mode\<close>

definition tuya_adapter_wifi_set_cur_channel :: "'s wifi_api \<Rightarrow> 8 word \<Rightarrow> 's tuya_wifi \<Rightarrow> (int \<times> 's tuya_wifi) option" where
  "tuya_adapter_wifi_set_cur_channel a chan d =
     do {
       (ret, d) \<leftarrow> tsys_call (api_set_channel a chan) d;
       Some (if c_true ret then OPRT_COM_ERROR else OPRT_OK, d)
     }"

text \<open>Nothing is written to the caller's byte.\<close>

definition tuya_adapter_wifi_get_cur_channel :: "8 word option \<Rightarrow> int \<times> 8 word option" where
  "tuya_adapter_wifi_get_cur_channel chan = (if chan = None then OPRT_INVALID_PARM else OPRT_OK, chan)"

text \<open>Whether the manager could switch is not looked at.\<close>

definition tuya_adapter_wifi_set_work_mode :: "'s wifi_api \<Rightarrow> wf_wk_md \<Rightarrow> 's tuya_wifi \<Rightarrow> (int \<times> 's tuya_wifi) option" where
  "tuya_adapter_wifi_set_work_mode a mode d =
     (let d = d\<lparr>wifi_work_mode := mode\<rparr>;
          on = (\<lambda>m. map_option (\<lambda>(_, d). (OPRT_OK, d)) (tsys_call (api_on a m) d))
      in case mode of
           WWM_SNIFFER \<Rightarrow> on WIFI_MONITOR
         | WWM_STATION \<Rightarrow> on WIFI_STATION
         | WWM_SOFTAP \<Rightarrow> on WIFI_AP
         | WWM_STATIONAP \<Rightarrow> on WIFI_AP
         | _ \<Rightarrow> Some (OPRT_OK, d))"

fun work_mode_of :: "wifi_mode \<Rightarrow> wf_wk_md" where
  "work_mode_of WIFI_STATION = WWM_STATION"
| "work_mode_of WIFI_AP = WWM_SOFTAP"
| "work_mode_of WIFI_MONITOR = WWM_SNIFFER"
| "work_mode_of WIFI_AP_STATION = WWM_STATIONAP"
| "work_mode_of WIFI_AP_MONITOR = WWM_SNIFFER"
| "work_mode_of WIFI_MODE_UNKNOWN = WWM_UNKNOWN"

definition tuya_adapter_wifi_get_work_mode :: "'s wifi_api \<Rightarrow> wf_wk_md option \<Rightarrow> 's tuya_wifi \<Rightarrow> int \<times> wf_wk_md option" where
  "tuya_adapter_wifi_get_work_mode a mode d =
     (if mode = None then (OPRT_INVALID_PARM, None) else (OPRT_OK, Some (work_mode_of (api_mode a (tsys d)))))"
section \<open>The sniffer\<close>

text \<open>The 16-bit length of the radiotap header, bytes 2 and 3 of the buffer, low byte first.\<close>

definition it_len :: "byte list \<Rightarrow> nat" where
  "it_len buf = unat (buf ! 2) + 256 * unat (buf ! 3)"

text \<open>
  One round of the thread after its test. A failed receive leaves the buffer as it was and counts as
  - 1 bytes; what is handed on is the buffer behind the header as far as was received.
\<close>

definition sniff_round :: "'s tuya_wifi \<Rightarrow> 's tuya_wifi outcome" where
  "sniff_round d =
     (case tuya_air d of
        [] \<Rightarrow> Blocks
      | x # air \<Rightarrow>
          let pkt = take MAX_REV_BUFFER (case x of None \<Rightarrow> [] | Some bs \<Rightarrow> bs);
              rev_num = (case x of None \<Rightarrow> - 1 | Some _ \<Rightarrow> int (length pkt));
              buf = pkt @ drop (length pkt) (rev_buffer d);
              d = d\<lparr>tuya_air := air, rev_buffer := buf\<rparr>;
              skip = it_len buf
          in if MAX_REV_BUFFER \<le> skip then Returns d
             else if int skip < rev_num then Returns (d\<lparr>sniffed := sniffed d @ [drop skip pkt]\<rparr>)
             else Returns d)"

text \<open>The test of the loop and a round, and what the thread does at its end.\<close>

definition sniff_step :: "'s tuya_wifi \<Rightarrow> 's tuya_wifi outcome" where
  "sniff_step d =
     (if \<not> sniffer_thread d then Returns d
      else if sniffer_call d \<and> enable_sniffer d then sniff_round d
      else Returns (d\<lparr>sniffer_call := False, sniffer_thread := False\<rparr>))"

text \<open>The buffer is on the thread's stack: \<open>junk\<close> is what was there.\<close>

definition sniff_start :: "'s wifi_api \<Rightarrow> byte list \<Rightarrow> 's tuya_wifi \<Rightarrow> 's tuya_wifi" where
  "sniff_start a junk d =
     (let (ok, d) = tsys_run (sys_socket a) d
      in d\<lparr>sniffer_id := True, sniffer_thread := ok, rev_buffer := take MAX_REV_BUFFER (junk @ replicate MAX_REV_BUFFER 0)\<rparr>)"

text \<open>
  Waiting for the thread to end, which is in the receive when the flag is taken away: it takes one more
  packet, and waits for ever when none comes. Waiting for a thread that was never made is undefined.
\<close>

definition sniff_join :: "'s tuya_wifi \<Rightarrow> 's tuya_wifi outcome" where
  "sniff_join d =
     (if \<not> sniffer_id d then Crash
      else map_outcome_of (\<lambda>d. d\<lparr>sniffer_id := False\<rparr>)
             (if \<not> sniffer_thread d then Returns d
              else if sniffer_call d then bind_outcome (sniff_round d) sniff_step
              else sniff_step d))"

definition tuya_adapter_wifi_sniffer_set ::
    "'s wifi_api \<Rightarrow> byte list \<Rightarrow> bool \<Rightarrow> bool \<Rightarrow> 's tuya_wifi \<Rightarrow> (int \<times> 's tuya_wifi) outcome" where
  "tuya_adapter_wifi_sniffer_set a junk en cb d =
     (if en = enable_sniffer d then Returns (OPRT_OK, d)
      else
        let d = d\<lparr>enable_sniffer := en\<rparr>
        in if en
           then let d = tsys_do (app_notify a IPC_START_WIFI_CFG) d;
                    d = tsys_do (sdk_work_mode a WWM_SNIFFER) d;
                    (ok, d) = tsys_run (sys_thread a) (d\<lparr>sniffer_call := cb\<rparr>)
                in Returns (OPRT_OK, if ok then sniff_start a junk d else d)
           else bind_outcome (sniff_join d) (\<lambda>d.
                  Returns (OPRT_OK, (tsys_do (sdk_work_mode a WWM_STATION) d)\<lparr>sniffer_set_done := True\<rparr>)))"

section \<open>Addresses\<close>

text \<open>The SDK's structure of three arrays of 16 bytes.\<close>

record nw_ip =
  nw_ip :: string
  nw_mask :: string
  nw_gw :: string

text \<open>\<open>strcpy\<close> into an array of 16 bytes, and \<open>memcpy\<close> of a text without its NUL.\<close>

definition put_text :: "string \<Rightarrow> string \<Rightarrow> string option" where
  "put_text arr s = (if length s < length arr then Some (s @ CHR 0x00 # drop (Suc (length s)) arr) else None)"

definition lay_text :: "string \<Rightarrow> string \<Rightarrow> string" where
  "lay_text arr s = s @ drop (length s) arr"

fun dotted :: "byte list \<Rightarrow> string" where
  "dotted [] = []"
| "dotted [b] = dec (unat b)"
| "dotted (b # bs) = dec (unat b) @ ''.'' @ dotted bs"

definition no_info :: wifi_sta_info where
  "no_info = \<lparr>info_id = 0, info_freq = 0, info_bssid = replicate 6 0, info_ssid = [], info_mac = replicate 6 0,
     info_ip = replicate 4 0, info_sec = WIFI_SEC_NONE\<rparr>"

text \<open>The gateway is made up: the first three numbers of the address and a 1.\<close>

definition hwl_get_local_ip_info :: "'s wifi_api \<Rightarrow> nw_ip \<Rightarrow> 's tuya_wifi \<Rightarrow> (int \<times> nw_ip \<times> 's tuya_wifi) option" where
  "hwl_get_local_ip_info a ip d =
     (case api_get_info a no_info (tsys d) of
        None \<Rightarrow> None
      | Some (ret, info, s) \<Rightarrow>
          let d = d\<lparr>tsys := s\<rparr>
          in if ret = WMG_STATUS_SUCCESS \<and> info_ip info ! 0 \<noteq> 0
             then do {
               i \<leftarrow> put_text (nw_ip ip) (dotted (info_ip info));
               g \<leftarrow> put_text (nw_gw ip) (dotted (take 3 (info_ip info) @ [1]));
               m \<leftarrow> put_text (nw_mask ip) ''255.255.255.0'';
               Some (OPRT_OK, ip\<lparr>nw_ip := i, nw_gw := g, nw_mask := m\<rparr>, d)
             }
             else Some (OPRT_COM_ERROR, ip, d))"

definition tuya_adapter_wifi_get_ip ::
    "'s wifi_api \<Rightarrow> wf_if \<Rightarrow> nw_ip option \<Rightarrow> 's tuya_wifi \<Rightarrow> (int \<times> nw_ip option \<times> 's tuya_wifi) option" where
  "tuya_adapter_wifi_get_ip a ifc ip d =
     (case ip of
        None \<Rightarrow> Some (OPRT_INVALID_PARM, None, d)
      | Some ip \<Rightarrow>
          (case ifc of
             WF_AP \<Rightarrow> Some (OPRT_OK, Some (ip\<lparr>nw_ip := lay_text (nw_ip ip) ''192.168.4.1'',
               nw_gw := lay_text (nw_gw ip) ''192.168.4.1'', nw_mask := lay_text (nw_mask ip) ''255.255.255.0''\<rparr>), d)
           | WF_STATION \<Rightarrow> map_option (\<lambda>(ret, ip, d). (ret, Some ip, d)) (hwl_get_local_ip_info a ip d)))"
text \<open>Nothing is set.\<close>

definition tuya_adapter_wifi_set_mac :: "byte list option \<Rightarrow> int" where
  "tuya_adapter_wifi_set_mac mac = (if mac = None then OPRT_INVALID_PARM else OPRT_OK)"

text \<open>
  \<open>fgets\<close> with a buffer of \<open>n\<close> bytes: up to a newline, which is kept, or \<open>n - 1\<close> characters; and the lines
  of a text that is read like that.
\<close>

definition fgets :: "nat \<Rightarrow> string \<Rightarrow> string \<times> string" where
  "fgets n s =
     (let line = takeWhile (\<lambda>c. c \<noteq> NL) s;
          k = min (n - 1) (if length line < length s then Suc (length line) else length line)
      in (take k s, drop k s))"

lemma fgets_shorter:
  assumes "1 < n" "s \<noteq> []"
  shows "length (snd (fgets n s)) < length s"
proof -
  let ?l = "length (takeWhile (\<lambda>c. c \<noteq> NL) s)"
  have "0 < (if ?l < length s then Suc ?l else ?l)" using assms(2) by auto
  then have "0 < min (n - 1) (if ?l < length s then Suc ?l else ?l)" using assms(1) by simp
  then show ?thesis using assms(2) by (simp add: fgets_def Let_def)
qed

function fgets_lines :: "nat \<Rightarrow> string \<Rightarrow> string list" where
  "fgets_lines n s = (if n \<le> 1 \<or> s = [] then [] else fst (fgets n s) # fgets_lines n (snd (fgets n s)))"
  by pat_completeness auto
termination
  by (relation "measure (\<lambda>(_, s). length s)") (auto intro: fgets_shorter)

declare fgets_lines.simps [simp del]

text \<open>A hexadecimal number as \<open>%x\<close> and \<open>strtol\<close> read it; one that does not fit 32 bits is undefined.\<close>

definition hex_digit :: "char \<Rightarrow> nat option" where
  "hex_digit c =
     (let n = of_char c :: nat
      in if 48 \<le> n \<and> n \<le> 57 then Some (n - 48)
         else if 97 \<le> n \<and> n \<le> 102 then Some (n - 87)
         else if 65 \<le> n \<and> n \<le> 70 then Some (n - 55) else None)"

fun hex_digits :: "string \<Rightarrow> int \<Rightarrow> int \<times> string" where
  "hex_digits [] v = (v, [])"
| "hex_digits (c # cs) v = (case hex_digit c of None \<Rightarrow> (v, c # cs) | Some d \<Rightarrow> hex_digits cs (v * 16 + int d))"

definition hex_start :: "string \<Rightarrow> bool" where
  "hex_start s = (case s of [] \<Rightarrow> False | c # _ \<Rightarrow> hex_digit c \<noteq> None)"

text \<open>The outer \<open>None\<close>: undefined; the inner one: there is no number.\<close>

definition scan_hex :: "string \<Rightarrow> (int \<times> string) option option" where
  "scan_hex s =
     (let s = dropWhile is_space s;
          (sign, s) = (case s of c # r \<Rightarrow> if c = CHR ''-'' then (- 1, r) else if c = CHR ''+'' then (1, r) else (1, s) | [] \<Rightarrow> (1, s));
          s = (if (starts ''0x'' s \<or> starts ''0X'' s) \<and> hex_start (drop 2 s) then drop 2 s else s)
      in if \<not> hex_start s then Some None
         else let (v, r) = hex_digits s 0 in if v < 2 ^ 32 then Some (Some (sign * v, r)) else None)"

text \<open>\<open>sscanf\<close> with six numbers and colons between them: the variables, \<open>g\<close> where none was read.\<close>

fun scan_mac :: "nat \<Rightarrow> int \<Rightarrow> string \<Rightarrow> int list option" where
  "scan_mac 0 g s = Some []"
| "scan_mac (Suc n) g s =
     do {
       x \<leftarrow> scan_hex s;
       case x of
         None \<Rightarrow> Some (replicate (Suc n) g)
       | Some (v, r) \<Rightarrow>
           (case r of
              [] \<Rightarrow> Some (v # replicate n g)
            | c # r \<Rightarrow> if c = CHR '':'' then map_option (Cons v) (scan_mac n g r) else Some (v # replicate n g))
     }"

text \<open>The address in the first line that has one; without such a line the caller's bytes stay.\<close>

fun find_mac :: "int \<Rightarrow> string list \<Rightarrow> byte list \<Rightarrow> byte list option" where
  "find_mac g [] mac = Some mac"
| "find_mac g (line # lines) mac =
     (case strstr ''HWaddr '' line of
        None \<Rightarrow> find_mac g lines mac
      | Some (_, pos) \<Rightarrow> map_option (map word_of_int) (scan_mac 6 g (drop 7 pos)))"

definition tuya_adapter_wifi_get_mac :: "'s wifi_api \<Rightarrow> byte list option \<Rightarrow> 's tuya_wifi \<Rightarrow> (int \<times> byte list option \<times> 's tuya_wifi) option" where
  "tuya_adapter_wifi_get_mac a mac d =
     (case mac of
        None \<Rightarrow> Some (OPRT_INVALID_PARM, None, d)
      | Some mac \<Rightarrow>
          let (pp, d) = tsys_run (sys_popen a ''ifconfig wlan0'') d
          in case pp of
               None \<Rightarrow> Some (OPRT_COM_ERROR, Some mac, d)
             | Some text \<Rightarrow> map_option (\<lambda>mac. (OPRT_OK, Some mac, d)) (find_mac (sys_garbage a) (fgets_lines 256 text) mac))"

section \<open>The access point\<close>

fun auth_num :: "wf_auth_mode \<Rightarrow> nat" where
  "auth_num WAAM_OPEN = 0"
| "auth_num WAAM_WEP = 1"
| "auth_num WAAM_WPA_PSK = 2"
| "auth_num WAAM_WPA2_PSK = 3"
| "auth_num WAAM_WPA_WPA2_PSK = 4"
| "auth_num WAAM_UNKNOWN = 5"

record wf_ap_cfg =
  cfg_ssid :: string
  cfg_passwd :: string
  cfg_chan :: "8 word"
  cfg_md :: wf_auth_mode

text \<open>The number of the encryption is passed on as the number of a kind of security.\<close>

definition tuya_adapter_wifi_ap_start :: "'s wifi_api \<Rightarrow> wf_ap_cfg option \<Rightarrow> 's tuya_wifi \<Rightarrow> (int \<times> 's tuya_wifi) option" where
  "tuya_adapter_wifi_ap_start a cfg d =
     (case cfg of
        None \<Rightarrow> Some (OPRT_INVALID_PARM, d)
      | Some cfg \<Rightarrow>
          do {
            (r, d) \<leftarrow> tsys_call (api_ap_enable a (cfg_ssid cfg) (cfg_passwd cfg) (cfg_chan cfg) (auth_num (cfg_md cfg))) d;
            Some (if r \<noteq> WMG_STATUS_SUCCESS then OPRT_COM_ERROR else OPRT_OK, d)
          })"

definition tuya_adapter_wifi_ap_stop :: "'s wifi_api \<Rightarrow> 's tuya_wifi \<Rightarrow> (int \<times> 's tuya_wifi) option" where
  "tuya_adapter_wifi_ap_stop a d =
     do {
       (r, d) \<leftarrow> tsys_call (api_ap_disable a) d;
       Some (if r \<noteq> WMG_STATUS_SUCCESS then OPRT_COM_ERROR else OPRT_OK, d)
     }"
section \<open>The station\<close>

text \<open>
  Both texts are copied into the saved arrays before the key is compared with NULL: a name or a key
  that is NULL is read. When the saved arrays themselves are given, to connect again, \<open>strncpy\<close> copies them
  onto themselves, which the language leaves undefined; the copy here is the one that goes byte by byte and
  changes nothing.
\<close>

definition tuya_adapter_wifi_station_connect ::
    "'s wifi_api \<Rightarrow> string option \<Rightarrow> string option \<Rightarrow> 's tuya_wifi \<Rightarrow> (int \<times> 's tuya_wifi) option" where
  "tuya_adapter_wifi_station_connect a ssid passwd d =
     (let d = (if sniffer_set_done d
               then tsys_do (sys_sleep a 1000000) (tsys_do (app_notify a IPC_REV_WIFI_CFG) (d\<lparr>sniffer_set_done := False\<rparr>)) else d);
          d = tsys_do (app_notify a IPC_CONNECTING_WIFI) d
      in do {
        ssid \<leftarrow> ssid;
        if ssid = [] then Some (OPRT_COM_ERROR, d)
        else do {
          passwd \<leftarrow> passwd;
          let d = d\<lparr>saved_ssid := strncpy (saved_ssid d) ssid 128, saved_passwd := strncpy (saved_passwd d) passwd 128\<rparr>;
          (_, _, s) \<leftarrow> api_get_info a no_info (tsys d);
          (_, d) \<leftarrow> tsys_call (api_on a WIFI_STATION) (d\<lparr>tsys := s\<rparr>);
          (r, d) \<leftarrow> tsys_call (api_connect a \<lparr>cn_ssid = Some ssid, cn_password = Some passwd,
            cn_sec = (if passwd = [] then WIFI_SEC_NONE else WIFI_SEC_WPA2_PSK), cn_fast_connect = False\<rparr>) d;
          if r \<noteq> WMG_STATUS_SUCCESS then Some (OPRT_COM_ERROR, d)
          else Some (OPRT_OK, tsys_do (app_voice a V_WIFI_RECV_PWD) d)
        }
      })"

definition tuya_adapter_wifi_station_disconnect :: "'s wifi_api \<Rightarrow> 's tuya_wifi \<Rightarrow> (int \<times> 's tuya_wifi) option" where
  "tuya_adapter_wifi_station_disconnect a d =
     do {
       (r, d) \<leftarrow> tsys_call (api_disconnect a) d;
       Some (if r \<noteq> WMG_STATUS_SUCCESS then OPRT_COM_ERROR else OPRT_OK, d)
     }"

text \<open>\<open>%d\<close>: a number that does not fit is undefined; the inner \<open>None\<close> says that there is none.\<close>

definition scan_dec :: "string \<Rightarrow> int option option" where
  "scan_dec s =
     (let t = dropWhile is_space s;
          u = (if t \<noteq> [] \<and> (hd t = CHR ''-'' \<or> hd t = CHR ''+'') then tl t else t)
      in if u = [] \<or> \<not> is_digit (hd u) then Some None else map_option Some (atoi_str s))"

definition rssi_percent :: "int \<Rightarrow> int" where
  "rssi_percent sig = (if sig \<le> - 100 then 0 else if - 50 \<le> sig then 100 else 2 * (sig + 100))"

fun find_signal :: "string list \<Rightarrow> int option" where
  "find_signal [] = Some 0"
| "find_signal (line # lines) =
     (case strstr ''signal: '' line of
        None \<Rightarrow> find_signal lines
      | Some (_, p) \<Rightarrow>
          (case scan_dec (drop 8 p) of
             None \<Rightarrow> None
           | Some None \<Rightarrow> find_signal lines
           | Some (Some sig) \<Rightarrow> Some (rssi_percent sig)))"

text \<open>The result and the strength in percent, which is 0 when there is none.\<close>

definition tuya_adapter_wifi_station_get_conn_ap_rssi ::
    "'s wifi_api \<Rightarrow> int option \<Rightarrow> 's tuya_wifi \<Rightarrow> (int \<times> int option \<times> 's tuya_wifi) option" where
  "tuya_adapter_wifi_station_get_conn_ap_rssi a rssi d =
     (if rssi = None then Some (OPRT_INVALID_PARM, None, d)
      else let (cmd, d) = tsys_run (sys_popen a ''iw wlan0 link'') d
           in case cmd of
                None \<Rightarrow> Some (OPRT_COM_ERROR, Some 0, d)
              | Some text \<Rightarrow> map_option (\<lambda>v. (OPRT_OK, Some v, d)) (find_signal (fgets_lines 128 text)))"

definition tuya_adapter_wifi_get_bssid :: "'s wifi_api \<Rightarrow> byte list \<Rightarrow> 's tuya_wifi \<Rightarrow> (int \<times> byte list \<times> 's tuya_wifi) option" where
  "tuya_adapter_wifi_get_bssid a mac d =
     (case api_get_info a no_info (tsys d) of
        None \<Rightarrow> None
      | Some (ret, info, s) \<Rightarrow>
          if ret \<noteq> WMG_STATUS_SUCCESS then Some (OPRT_OK, mac, d\<lparr>tsys := s\<rparr>)
          else if length mac < 6 then None
          else Some (OPRT_OK, overlay (take 6 (info_bssid info)) mac, d\<lparr>tsys := s\<rparr>))"

text \<open>
  A name that begins with an escape is taken to consist of escapes, four characters each, whatever
  they are; what is behind its end is NUL.
\<close>

definition strtol16 :: "string \<Rightarrow> int option" where
  "strtol16 s = map_option (\<lambda>x. case x of None \<Rightarrow> 0 | Some (v, _) \<Rightarrow> v) (scan_hex s)"

definition at_end :: "string \<Rightarrow> nat \<Rightarrow> char" where
  "at_end s i = (if i < length s then s ! i else CHR 0x00)"

function unescape :: "string \<Rightarrow> string option" where
  "unescape s =
     (if s = [] then Some []
      else do {
        v \<leftarrow> strtol16 (takeWhile (\<lambda>c. c \<noteq> CHR 0x00) [at_end s 2, at_end s 3]);
        r \<leftarrow> unescape (drop 4 s);
        Some (char_of v # r)
      })"
  by pat_completeness auto
termination
  by (relation "measure length") auto

declare unescape.simps [simp del]

text \<open>The caller's array; a plain name is written with NULs up to 64 bytes.\<close>

definition tuya_adapter_wifi_get_ssid :: "'s wifi_api \<Rightarrow> string \<Rightarrow> 's tuya_wifi \<Rightarrow> (int \<times> string \<times> 's tuya_wifi) option" where
  "tuya_adapter_wifi_get_ssid a ssid d =
     (case api_get_info a no_info (tsys d) of
        None \<Rightarrow> None
      | Some (ret, info, s) \<Rightarrow>
          let d = d\<lparr>tsys := s\<rparr>
          in if ret \<noteq> WMG_STATUS_SUCCESS then Some (0, ssid, d)
             else if starts [BACKSLASH, CHR ''x''] (info_ssid info)
             then do {
               name \<leftarrow> unescape (info_ssid info);
               if length name < length ssid then Some (0, overlay (name @ [CHR 0x00]) ssid, d) else None
             }
             else if length ssid < 64 then None
             else Some (0, strncpy ssid (info_ssid info) 64, d))"

section \<open>The state of the station\<close>

text \<open>A line that is longer than five characters and does not deny it says that there is a connection.\<close>

definition link_line :: "string \<Rightarrow> bool" where
  "link_line line \<longleftrightarrow> strstr ''Not connected'' line = None \<and> 5 < length line"

text \<open>
  Without a connection the calls are counted, and with the twenty-first one the saved network is
  connected again, which copies the saved texts onto themselves. The structure for the address is not
  cleared before.
\<close>

definition tuya_adapter_wifi_station_get_status ::
    "'s wifi_api \<Rightarrow> nw_ip \<Rightarrow> wf_station_stat option \<Rightarrow> 's tuya_wifi \<Rightarrow> (int \<times> wf_station_stat option \<times> 's tuya_wifi) option" where
  "tuya_adapter_wifi_station_get_status a ip stat d =
     (if stat = None then Some (OPRT_INVALID_PARM, None, d)
      else
        let (pp, d) = tsys_run (sys_popen a ''iw wlan0 link'') d
        in case pp of
             None \<Rightarrow> Some (OPRT_COM_ERROR, Some WSS_IDLE, d)
           | Some text \<Rightarrow>
               if list_ex link_line (fgets_lines 256 text)
               then do {
                 (ret, _, d) \<leftarrow> hwl_get_local_ip_info a ip d;
                 Some (OPRT_OK, Some (if ret = OPRT_OK then WSS_GOT_IP else WSS_IDLE), d)
               }
               else if idle_count d = 20
               then do {
                 (_, d) \<leftarrow> tsys_call (api_reconnect a True) (d\<lparr>idle_count := idle_count d + 1\<rparr>);
                 ssid \<leftarrow> c_str (saved_ssid d);
                 passwd \<leftarrow> c_str (saved_passwd d);
                 (_, d) \<leftarrow> tuya_adapter_wifi_station_connect a (Some ssid) (Some passwd) d;
                 Some (OPRT_OK, Some WSS_IDLE, d\<lparr>idle_count := 0\<rparr>)
               }
               else Some (OPRT_OK, Some WSS_IDLE, d\<lparr>idle_count := idle_count d + 1\<rparr>))"

text \<open>Calls that do nothing.\<close>

definition tuya_adapter_wifi_set_country_code :: "string option \<Rightarrow> int" where
  "tuya_adapter_wifi_set_country_code code = OPRT_OK"

definition tuya_adapter_wifi_rf_calibrated :: int where
  "tuya_adapter_wifi_rf_calibrated = 1"

definition tuya_wifi_static :: "byte list option list \<Rightarrow> 's \<Rightarrow> 's tuya_wifi" where
  "tuya_wifi_static air s = \<lparr>wifi_work_mode = WWM_LOWPOWER, saved_ssid = replicate 128 (CHR 0x00), saved_passwd = replicate 128 (CHR 0x00),
     s_aps = replicate (MAX_AP_SEARCH * AP_IF_SIZE) 0, enable_sniffer = False, sniffer_call = False, sniffer_id = False,
     sniffer_thread = False, rev_buffer = [], sniffer_set_done = False, idle_count = 0, tuya_air = air, sniffed = [], tsys = s\<rparr>"

end
