(* ===== verification/Tuya_Scan.thy ===== *)
theory Tuya_Scan
  imports Tuya_Wifi
begin

text \<open>
  Scanning through the adapter: what the list for the SDK holds after a scan, which entry a search by
  name finds in it, and how many networks the adapter survives.
\<close>

section \<open>Bytes\<close>

lemma poke_nth:
  assumes "poke off bs mem = Some mem'"
  shows "length mem' = length mem" "off \<le> j \<Longrightarrow> j < off + length bs \<Longrightarrow> mem' ! j = bs ! (j - off)"
    "j < off \<or> off + length bs \<le> j \<Longrightarrow> j < length mem \<Longrightarrow> mem' ! j = mem ! j"
  using assms by (auto simp: poke_def nth_append min_def split: if_splits)

lemma poke_Some: "off + length bs \<le> length mem \<Longrightarrow> \<exists>mem'. poke off bs mem = Some mem'"
  by (simp add: poke_def)

lemma length_padded: "length (bytes_of (strncpy (replicate n (CHR 0x00)) s n)) = n"
  by (simp add: bytes_of_def strncpy_def)

lemma padded_at: "j < n \<Longrightarrow> bytes_of (strncpy (replicate n (CHR 0x00)) s n) ! j = of_char (at_end s j)"
  by (simp add: bytes_of_def strncpy_def at_end_def nth_append)

text \<open>
  The entry \<open>i\<close> of the list made from a result: the length of the name, the name as far as 33 bytes hold
  it, the signal, the channel, and in place of the address the first six characters of its text.
\<close>

definition ap_entry :: "nat \<Rightarrow> wifi_scan_result \<Rightarrow> byte list \<Rightarrow> bool" where
  "ap_entry i r mem \<longleftrightarrow> mem ! (AP_IF_SIZE * i) = scan_channel (scan_freq r) \<and>
     mem ! (AP_IF_SIZE * i + 1) = word_of_int (scan_rssi r) \<and>
     mem ! (AP_IF_SIZE * i + 41) = of_nat (length (scan_ssid r)) \<and>
     (\<forall>j < 33. mem ! (AP_IF_SIZE * i + 8 + j) = of_char (at_end (scan_ssid r) j)) \<and>
     (\<forall>j < 6. mem ! (AP_IF_SIZE * i + 2 + j) = of_char (at_end (scan_bssid r) j))"

lemma put_ap_entry:
  assumes "AP_IF_SIZE * i + 50 \<le> length mem"
  shows "\<exists>mem'. put_ap i r mem = Some mem' \<and> length mem' = length mem \<and> ap_entry i r mem' \<and>
    (\<forall>j < AP_IF_SIZE * i. mem' ! j = mem ! j)"
proof -
  let ?b = "bytes_of (strncpy (replicate 48 (CHR 0x00)) (scan_bssid r) 48)"
  let ?n = "bytes_of (strncpy (replicate 33 (CHR 0x00)) (scan_ssid r) 33)"
  obtain m1 where m1: "poke (AP_IF_SIZE * i + 2) ?b mem = Some m1" using poke_Some[of _ ?b mem] assms length_padded by force
  note p1 = poke_nth[OF m1, unfolded length_padded]
  obtain m2 where m2: "poke (AP_IF_SIZE * i) [scan_channel (scan_freq r)] m1 = Some m2"
    using poke_Some[of _ "[scan_channel (scan_freq r)]" m1] assms p1(1) by force
  note p2 = poke_nth[OF m2, simplified]
  obtain m3 where m3: "poke (AP_IF_SIZE * i + 1) [word_of_int (scan_rssi r)] m2 = Some m3"
    using poke_Some[of _ "[word_of_int (scan_rssi r)]" m2] assms p1(1) p2(1) by force
  note p3 = poke_nth[OF m3, simplified]
  obtain m4 where m4: "poke (AP_IF_SIZE * i + 41) [of_nat (length (scan_ssid r))] m3 = Some m4"
    using poke_Some[of _ "[of_nat (length (scan_ssid r))]" m3] assms p1(1) p2(1) p3(1) by force
  note p4 = poke_nth[OF m4, simplified]
  obtain m5 where m5: "poke (AP_IF_SIZE * i + 8) ?n m4 = Some m5"
    using poke_Some[of _ ?n m4] assms p1(1) p2(1) p3(1) p4(1) length_padded by force
  note p5 = poke_nth[OF m5, unfolded length_padded]
  have len: "length m1 = length mem" "length m2 = length mem" "length m3 = length mem" "length m4 = length mem" "length m5 = length mem"
    using p1(1) p2(1) p3(1) p4(1) p5(1) by simp_all
  have "put_ap i r mem = Some m5" using m1 m2 m3 m4 m5 by (simp add: put_ap_def)
  moreover have "m5 ! (AP_IF_SIZE * i) = scan_channel (scan_freq r)"
    using p5(3)[of "AP_IF_SIZE * i"] p4(3)[of "AP_IF_SIZE * i"] p3(3)[of "AP_IF_SIZE * i"] p2(2)[of "AP_IF_SIZE * i"] assms len by simp
  moreover have "m5 ! (AP_IF_SIZE * i + 1) = word_of_int (scan_rssi r)"
    using p5(3)[of "AP_IF_SIZE * i + 1"] p4(3)[of "AP_IF_SIZE * i + 1"] p3(2)[of "AP_IF_SIZE * i + 1"] assms len by simp
  moreover have "m5 ! (AP_IF_SIZE * i + 41) = of_nat (length (scan_ssid r))"
    using p5(3)[of "AP_IF_SIZE * i + 41"] p4(2)[of "AP_IF_SIZE * i + 41"] assms len by simp
  moreover have "m5 ! (AP_IF_SIZE * i + 8 + j) = of_char (at_end (scan_ssid r) j)" if "j < 33" for j
    using p5(2)[of "AP_IF_SIZE * i + 8 + j"] padded_at[OF that, of "scan_ssid r"] that by simp
  moreover have "m5 ! (AP_IF_SIZE * i + 2 + j) = of_char (at_end (scan_bssid r) j)" if "j < 6" for j
  proof -
    let ?j = "AP_IF_SIZE * i + 2 + j"
    have "m5 ! ?j = m1 ! ?j" using p5(3)[of ?j] p4(3)[of ?j] p3(3)[of ?j] p2(3)[of ?j] assms len that by simp
    then show ?thesis using p1(2)[of ?j] padded_at[of j 48 "scan_bssid r"] that by simp
  qed
  moreover have "m5 ! j = mem ! j" if "j < AP_IF_SIZE * i" for j
    using p5(3)[of j] p4(3)[of j] p3(3)[of j] p2(3)[of j] p1(3)[of j] assms len that by simp
  ultimately show ?thesis using len by (auto simp: ap_entry_def)
qed

lemma ap_entry_kept:
  assumes "ap_entry k r mem" "\<forall>j < AP_IF_SIZE * i. mem' ! j = mem ! j" "k < i"
  shows "ap_entry k r mem'"
proof -
  have "AP_IF_SIZE * Suc k \<le> AP_IF_SIZE * i" using assms(3) by (intro mult_le_mono2) simp
  then show ?thesis using assms(1,2) by (auto simp: ap_entry_def)
qed

lemma put_aps_entries:
  assumes "AP_IF_SIZE * (i + length rs) + 5 \<le> length mem"
  shows "\<exists>mem'. put_aps i rs mem = Some mem' \<and> length mem' = length mem \<and> (\<forall>j < AP_IF_SIZE * i. mem' ! j = mem ! j) \<and>
    (\<forall>k < length rs. ap_entry (i + k) (rs ! k) mem')"
  using assms
proof (induction rs arbitrary: i mem)
  case (Cons r rs)
  obtain m where m: "put_ap i r mem = Some m" "length m = length mem" "ap_entry i r m" "\<forall>j < AP_IF_SIZE * i. m ! j = mem ! j"
    using put_ap_entry[of i mem r] Cons.prems by auto
  obtain m' where m': "put_aps (Suc i) rs m = Some m'" "length m' = length m" "\<forall>j < AP_IF_SIZE * Suc i. m' ! j = m ! j"
      "\<forall>k < length rs. ap_entry (Suc i + k) (rs ! k) m'"
    using Cons.IH[of "Suc i" m] Cons.prems m(2) by auto
  have "ap_entry i r m'" by (rule ap_entry_kept[OF m(3) m'(3)]) simp
  then have "\<forall>k < length (r # rs). ap_entry (i + k) ((r # rs) ! k) m'"
    using m'(4) by (auto simp: nth_Cons less_Suc_eq_0_disj split: nat.split)
  then show ?case using m m' by auto
qed simp
section \<open>What a scan gives\<close>

text \<open>
  A scan that the manager answers with up to ten networks fills the adapter's list: for each network
  the name, its length and the signal; but the channel it gives is wrong for every channel of the
  2.4 GHz band, the address holds the first six characters of its text, and the number that is
  returned with success is always 0. So a search by name that relies on this list finds nothing.
\<close>

theorem scan_reports_none:
  assumes "api_scan a 1240 (tsys d) = Some ((0, length rs, rs), s)" "length rs \<le> 10"
  shows "\<exists>mem. tuya_adapter_wifi_all_ap_scan a (Some p) (Some q) d = Some (OPRT_OK, Some 0, d\<lparr>s_aps := mem, tsys := s\<rparr>) \<and>
    (\<forall>k < length rs. ap_entry k (rs ! k) mem) \<and>
    (\<forall>k < length rs. \<forall>c \<in> {1..13}. scan_freq (rs ! k) = 2407 + 5 * of_nat c \<longrightarrow> unat (mem ! (AP_IF_SIZE * k)) < c) \<and>
    find_ap 0 0 ssid mem = Some None"
proof -
  have "AP_IF_SIZE * (0 + length rs) + 5 \<le> length (replicate (MAX_AP_SEARCH * AP_IF_SIZE) (0 :: byte))"
    using assms(2) by simp
  from put_aps_entries[OF this] obtain mem where mem: "put_aps 0 rs (replicate (MAX_AP_SEARCH * AP_IF_SIZE) 0) = Some mem"
      "\<forall>k < length rs. ap_entry k (rs ! k) mem"
    by auto
  have ch: "unat (mem ! (AP_IF_SIZE * k)) < c" if k: "k < length rs" and c: "c \<in> {1..13}" "scan_freq (rs ! k) = 2407 + 5 * of_nat c" for k c
  proof -
    have "1 \<le> c" "c \<le> 13" using c(1) by simp_all
    then have "c \<in> {1, 2, 3, 4, 5, 6, 7, 8, 9, 10, 11, 12, 13}" unfolding insert_iff empty_iff by presburger
    then have "unat (scan_channel (2407 + 5 * of_nat c)) < c"
      by (auto simp: scan_channel_def)
    then show ?thesis using mem(2) k c(2) by (simp add: ap_entry_def)
  qed
  have "tuya_adapter_wifi_all_ap_scan a (Some p) (Some q) d = Some (OPRT_OK, Some 0, d\<lparr>s_aps := mem, tsys := s\<rparr>)"
    using assms mem(1) by (simp add: tuya_adapter_wifi_all_ap_scan_def tsys_call_def)
  then show ?thesis using mem(2) ch by auto
qed

text \<open>
  The scan is asked for as many networks as the local array has bytes, so that with the supplicant's
  table of up to 1240 networks it is undefined exactly when there are more than ten.
\<close>

theorem scan_overruns_results:
  assumes "rows \<noteq> []" "list_all row_ok rows" "NL \<notin> set header" "length rows \<le> 1240"
    and "parse_scan_results (Some (header @ NL # scan_table rows)) (Some r) (Some n) 1240 = Some (ret, Some (count, es))"
    and "api_scan a 1240 (tsys d) = Some ((ret, count, es), s)"
  shows "tuya_adapter_wifi_all_ap_scan a (Some p) (Some q) d = None \<longleftrightarrow> 10 < length rows"
proof -
  have "(0, length rows, map fst rows) = (ret, count, es)"
    using parse_scan_table[OF assms(1-3), of "[]" 1240 r n] assms(4,5) by simp
  then have r: "ret = 0" "count = length rows" "es = map fst rows" by simp_all
  have "AP_IF_SIZE * (0 + length es) + 5 \<le> length (replicate (MAX_AP_SEARCH * AP_IF_SIZE) (0 :: byte))" if "length es \<le> 10"
    using that by simp
  then have "\<exists>mem. put_aps 0 es (replicate (MAX_AP_SEARCH * AP_IF_SIZE) 0) = Some mem" if "length es \<le> 10"
    using put_aps_entries[of 0 es "replicate (MAX_AP_SEARCH * AP_IF_SIZE) 0"] that by blast
  then show ?thesis
    using assms(6) r by (auto simp: tuya_adapter_wifi_all_ap_scan_def tsys_call_def)
qed

section \<open>Searching by name\<close>

lemma byte_char: "(of_char c :: byte) = of_char d \<longleftrightarrow> c = d"
proof
  assume "(of_char c :: byte) = of_char d"
  then have "unat (of_nat (of_char c) :: byte) = unat (of_nat (of_char d) :: byte)" by (simp only: of_nat_of_char)
  moreover have "(of_char e :: nat) < 256" for e using nat_of_char_less_256[of e] by simp
  ultimately have "(of_char c :: nat) = of_char d" by (simp add: unat_of_nat)
  then show "c = d" by simp
qed simp

lemma mem_equal_prefix:
  assumes "CHR 0x00 \<notin> set s"
  shows "mem_equal (length s) (bytes_of s @ rest) (bytes_of t @ [0]) = Some (starts s t)"
  using assms
proof (induction s arbitrary: t)
  case Nil
  then show ?case by (simp add: starts_def)
next
  case (Cons c s)
  show ?case
  proof (cases t)
    case Nil
    have "(of_char c :: byte) \<noteq> of_char (CHR 0x00)" using Cons.prems byte_char[of c "CHR 0x00"] by auto
    then have "(of_char c :: byte) \<noteq> 0" by simp
    then show ?thesis using Nil by (simp add: bytes_of_def starts_def)
  next
    case (Cons x t')
    then show ?thesis using Cons.IH[of t'] Cons.prems by (simp add: bytes_of_def starts_def byte_char)
  qed
qed

text \<open>The first position at which a test holds.\<close>

fun first_index :: "('a \<Rightarrow> bool) \<Rightarrow> nat \<Rightarrow> 'a list \<Rightarrow> nat option" where
  "first_index P i [] = None"
| "first_index P i (x # xs) = (if P x then Some i else first_index P (Suc i) xs)"

lemma find_ap_first:
  assumes "AP_IF_SIZE * (i + length rs) \<le> length mem" "\<forall>k < length rs. ap_entry (i + k) (rs ! k) mem"
    and "\<forall>r \<in> set rs. length (scan_ssid r) \<le> 32 \<and> CHR 0x00 \<notin> set (scan_ssid r)"
  shows "find_ap i (length rs) ssid mem = Some (first_index (\<lambda>r. starts (scan_ssid r) ssid) i rs)"
  using assms
proof (induction rs arbitrary: i)
  case (Cons r rs)
  let ?o = "AP_IF_SIZE * i" and ?n = "length (scan_ssid r)"
  have e: "ap_entry i r mem" and l: "?n \<le> 32" "CHR 0x00 \<notin> set (scan_ssid r)" "AP_IF_SIZE * Suc i \<le> length mem"
    using Cons.prems by auto
  have s: "unat (mem ! (?o + 41)) = ?n" using e l(1) by (simp add: ap_entry_def unat_of_nat)
  have "take ?n (drop (?o + 8) mem) = bytes_of (scan_ssid r)"
  proof (rule nth_equalityI)
    fix j assume "j < length (take ?n (drop (?o + 8) mem))"
    then have "j < ?n" by simp
    then show "take ?n (drop (?o + 8) mem) ! j = bytes_of (scan_ssid r) ! j"
      using e l by (simp add: ap_entry_def at_end_def bytes_of_def)
  qed (use l in \<open>simp add: bytes_of_def\<close>)
  then have "drop (?o + 8) mem = bytes_of (scan_ssid r) @ drop ?n (drop (?o + 8) mem)" by (metis append_take_drop_id)
  then have "mem_equal ?n (drop (?o + 8) mem) (bytes_of ssid @ [0]) = Some (starts (scan_ssid r) ssid)"
    using mem_equal_prefix[OF l(2)] by metis
  moreover have "\<forall>k < length rs. ap_entry (Suc i + k) (rs ! k) mem"
    using Cons.prems(2) by (metis Suc_less_eq add_Suc_shift length_Cons nth_Cons_Suc)
  then have "find_ap (Suc i) (length rs) ssid mem = Some (first_index (\<lambda>r. starts (scan_ssid r) ssid) (Suc i) rs)"
    using Cons.IH[of "Suc i"] Cons.prems by simp
  ultimately show ?case using l(3) s by simp
qed simp

text \<open>
  A search by name goes through the list the SDK holds and gives the first network whose name is a
  prefix of the one searched for: a shorter name, or the empty one of a hidden network, is taken
  when it comes first.
\<close>

theorem assign_takes_prefix:
  assumes "sdk_scan a (tsys d) = ((mem, length rs), s)" "length mem = MAX_AP_SEARCH * AP_IF_SIZE" "length rs \<le> MAX_AP_SEARCH"
    and "\<forall>k < length rs. ap_entry k (rs ! k) mem"
    and "\<forall>r \<in> set rs. length (scan_ssid r) \<le> 32 \<and> CHR 0x00 \<notin> set (scan_ssid r)"
  shows "tuya_adapter_wifi_assign_ap_scan a (Some ssid) (Some p) d =
    Some (OPRT_OK, first_index (\<lambda>r. starts (scan_ssid r) ssid) 0 rs, d\<lparr>tsys := s\<rparr>)"
proof -
  have "AP_IF_SIZE * (0 + length rs) \<le> length mem" using assms(2,3) by simp
  then show ?thesis
    using find_ap_first[of 0 rs mem ssid] assms(1,4,5) by (simp add: tuya_adapter_wifi_assign_ap_scan_def tsys_run_def)
qed
section \<open>Witnesses\<close>

text \<open>A manager, an SDK and a kernel for examples, in which every call succeeds and nothing happens.\<close>

definition plain_api :: "'s wifi_api" where
  "plain_api = \<lparr>api_manager_init = Some, api_is_init = (\<lambda>_. True), api_init = (\<lambda>s. Some (0, s)), api_register = (\<lambda>s. Some (0, s)),
     api_scan = (\<lambda>_ s. Some ((0, 0, []), s)), api_set_channel = (\<lambda>_ s. Some (0, s)), api_get_info = (\<lambda>i s. Some (0, i, s)),
     api_on = (\<lambda>_ s. Some (0, s)), api_mode = (\<lambda>_. WIFI_STATION), api_ap_enable = (\<lambda>_ _ _ _ s. Some (0, s)),
     api_ap_disable = (\<lambda>s. Some (0, s)), api_connect = (\<lambda>_ s. Some (0, s)), api_disconnect = (\<lambda>s. Some (0, s)),
     api_reconnect = (\<lambda>_ s. Some (0, s)), sdk_scan = Pair ([], 0), sdk_work_mode = (\<lambda>_ s. s), app_notify = (\<lambda>_ s. s),
     app_voice = (\<lambda>_ s. s), sys_popen = (\<lambda>_. Pair (Some [])), sys_sleep = (\<lambda>_ s. s), sys_socket = Pair True,
     sys_thread = Pair True, sys_garbage = 0\<rparr>"

theorem scan_reports_none_witness:
  "\<exists>mem. tuya_adapter_wifi_all_ap_scan (plain_api\<lparr>api_scan := \<lambda>_ s. Some ((0, 1, [fst demo_row]), s)\<rparr>) (Some 0) (Some 7)
      (tuya_wifi_static [] ()) = Some (0, Some 0, (tuya_wifi_static [] ())\<lparr>s_aps := mem, tsys := ()\<rparr>) \<and> ap_entry 0 (fst demo_row) mem"
  using scan_reports_none[of "plain_api\<lparr>api_scan := \<lambda>_ s. Some ((0, 1, [fst demo_row]), s)\<rparr>" "tuya_wifi_static [] ()"
      "[fst demo_row]" "()" 0 7] by auto

theorem scan_overruns_results_witness:
  "tuya_adapter_wifi_all_ap_scan (plain_api\<lparr>api_scan := \<lambda>_ s. Some ((0, 11, replicate 11 (fst demo_row)), s)\<rparr>) (Some 0) (Some 0)
     (tuya_wifi_static [] ()) = None"
proof -
  let ?rows = "replicate 11 demo_row"
  have ok: "list_all row_ok ?rows" using demo_row_ok by (simp add: list_all_iff)
  have p: "parse_scan_results (Some (''bssid'' @ NL # scan_table ?rows)) (Some 0) (Some 0) 1240 =
      Some (0, Some (11, replicate 11 (fst demo_row)))"
    using parse_scan_table[of ?rows "''bssid''" "[]" 1240 0 0] ok by (simp add: map_replicate)
  have a: "api_scan (plain_api\<lparr>api_scan := \<lambda>_ s. Some ((0, 11, replicate 11 (fst demo_row)), s)\<rparr>) 1240 (tsys (tuya_wifi_static [] ())) =
      Some ((0, 11, replicate 11 (fst demo_row)), tsys (tuya_wifi_static [] ()))" by simp
  have "?rows \<noteq> []" "NL \<notin> set ''bssid''" "length ?rows \<le> 1240" by simp_all
  from scan_overruns_results[OF this(1) ok this(2,3) p a] show ?thesis by simp
qed

theorem assign_takes_prefix_witness:
  "\<exists>mem. tuya_adapter_wifi_assign_ap_scan (plain_api\<lparr>sdk_scan := Pair (mem, 2)\<rparr>) (Some ''AW-PD4'') (Some 0) (tuya_wifi_static [] ()) =
     Some (0, Some 0, tuya_wifi_static [] ())"
proof -
  let ?rs = "[no_result, fst demo_row]"
  obtain mem where mem: "length mem = MAX_AP_SEARCH * AP_IF_SIZE" "\<forall>k < length ?rs. ap_entry (0 + k) (?rs ! k) mem"
    using put_aps_entries[of 0 ?rs "replicate (MAX_AP_SEARCH * AP_IF_SIZE) 0"] by auto
  have d: "(tuya_wifi_static [] ())\<lparr>tsys := ()\<rparr> = tuya_wifi_static [] ()" by (simp add: tuya_wifi_static_def)
  show ?thesis
    using assign_takes_prefix[of "plain_api\<lparr>sdk_scan := Pair (mem, 2)\<rparr>" "tuya_wifi_static [] ()" mem ?rs "()" "''AW-PD4''" 0] mem d
    by (auto simp: no_result_def demo_row_def starts_def)
qed

end
