(* ===== verification/Tuya_Manager.thy ===== *)
theory Tuya_Manager
  imports Tuya_Scan Wmg_Properties
begin

text \<open>
  The adapter on the Wi-Fi manager: the working mode that is set is the one that is read back, and no
  sequence of the adapter's calls that are defined breaks the manager or its action thread.
\<close>

section \<open>A service that switches modes\<close>

text \<open>What the adapter needs of the calls that switch and name the mode.\<close>

locale mode_service =
  fixes good :: "'s \<Rightarrow> bool"
    and switch :: "wifi_mode \<Rightarrow> 's \<Rightarrow> (int \<times> 's) option"
    and mode_of :: "'s \<Rightarrow> wifi_mode"
  assumes switch_returns: "good s \<Longrightarrow> \<exists>ret s'. switch m s = Some (ret, s') \<and> good s'"
    and switch_tells: "good s \<Longrightarrow> switch m s = Some (0, s') \<Longrightarrow> mode_of s' = m"
begin

text \<open>The mode of the manager that belongs to a working mode, and the working mode read back.\<close>

lemma set_then_get:
  assumes "good (tsys d)" "api_on a = switch" "api_mode a = mode_of"
    and "(mode, m, seen) \<in> {(WWM_SNIFFER, WIFI_MONITOR, WWM_SNIFFER), (WWM_STATION, WIFI_STATION, WWM_STATION),
      (WWM_SOFTAP, WIFI_AP, WWM_SOFTAP), (WWM_STATIONAP, WIFI_AP, WWM_SOFTAP)}"
  shows "\<exists>ret s'. switch m (tsys d) = Some (ret, s') \<and> good s' \<and>
    tuya_adapter_wifi_set_work_mode a mode d = Some (OPRT_OK, d\<lparr>wifi_work_mode := mode, tsys := s'\<rparr>) \<and>
    (ret = 0 \<longrightarrow> tuya_adapter_wifi_get_work_mode a (Some old) (d\<lparr>wifi_work_mode := mode, tsys := s'\<rparr>) = (OPRT_OK, Some seen))"
proof -
  obtain ret s' where s: "switch m (tsys d) = Some (ret, s')" "good s'" using switch_returns[OF assms(1)] by blast
  then have set: "tuya_adapter_wifi_set_work_mode a mode d = Some (OPRT_OK, d\<lparr>wifi_work_mode := mode, tsys := s'\<rparr>)"
    using assms(2,4) by (auto simp: tuya_adapter_wifi_set_work_mode_def tsys_call_def)
  have "mode_of s' = m" if "ret = 0" using switch_tells[OF assms(1)] s(1) that by simp
  then show ?thesis
    using s set assms(3,4) by (auto simp: tuya_adapter_wifi_get_work_mode_def)
qed

end

interpretation manager_modes: mode_service app_inv "\<lambda>m. run_op (Wifi_On m)" "wifimg_get_current_mode :: 'p world \<Rightarrow> wifi_mode"
proof unfold_locales
  fix w :: "'p world" and m
  assume "app_inv w"
  then show "\<exists>ret w'. run_op (Wifi_On m) w = Some (ret, w') \<and> app_inv w'" using wifi_on_result by blast
next
  fix w w' :: "'p world" and m
  assume "app_inv w" "run_op (Wifi_On m) w = Some (0, w')"
  then show "wifimg_get_current_mode w' = m" using wifi_on_result[of w m] by auto
qed

section \<open>The manager's calls\<close>

text \<open>
  The calls that go to the manager, with its actions; the adapter registers its callback \<open>cb\<close>. What the
  station's information and the scan leave with the caller is \<open>told\<close> and \<open>heard\<close> of the state afterwards;
  the calls of the SDK, the application and the kernel are those of \<open>b\<close>. A number that is no kind of
  security is left undefined.
\<close>

definition sec_of :: "nat \<Rightarrow> wifi_secure option" where
  "sec_of n = (if n < 4 then Some ([WIFI_SEC_NONE, WIFI_SEC_WEP, WIFI_SEC_WPA_PSK, WIFI_SEC_WPA2_PSK] ! n) else None)"

definition manager_api ::
    "msg_cb \<Rightarrow> (wifi_sta_info \<Rightarrow> 'p world \<Rightarrow> wifi_sta_info) \<Rightarrow> (nat \<Rightarrow> 'p world \<Rightarrow> nat \<times> wifi_scan_result list) \<Rightarrow>
     'p world wifi_api \<Rightarrow> 'p world wifi_api" where
  "manager_api cb told heard b = b\<lparr>api_is_init := wifimg_is_init, api_init := (\<lambda>w. Some (wifimg_init w)),
     api_register := run_op (Wifi_Register (Some cb)),
     api_scan := (\<lambda>n w. map_option (\<lambda>(r, w). ((r, heard n w), w)) (run_op (Scan_Results (Some 0) (Some 0) (of_nat n)) w)),
     api_set_channel := (\<lambda>c. run_op (Monitor_Set_Channel c)),
     api_get_info := (\<lambda>i w. map_option (\<lambda>(r, w). (r, told i w, w)) (run_op (Sta_Get_Info (Some 0)) w)),
     api_on := (\<lambda>m. run_op (Wifi_On m)), api_mode := wifimg_get_current_mode,
     api_ap_enable := (\<lambda>ssid psk chan n w. Option.bind (sec_of n) (\<lambda>sec.
       run_op (Ap_Enable (Some \<lparr>ap_ssid = Some ssid, ap_psk = Some psk, ap_sec = sec, ap_channel = chan\<rparr>)) w)),
     api_ap_disable := run_op Ap_Disable, api_connect := (\<lambda>p. run_op (Sta_Connect (Some p))),
     api_disconnect := run_op Sta_Disconnect, api_reconnect := (\<lambda>en. run_op (Sta_Auto_Reconnect en))\<rparr>"

text \<open>
  The working mode on the manager: setting one always reports success, whatever the manager did; when the
  manager did switch, the same mode is read back, except that station and access point together
  become the access point alone.
\<close>

theorem work_mode_read_back:
  assumes "app_inv (tsys d)"
    and "(mode, m, seen) \<in> {(WWM_SNIFFER, WIFI_MONITOR, WWM_SNIFFER), (WWM_STATION, WIFI_STATION, WWM_STATION),
      (WWM_SOFTAP, WIFI_AP, WWM_SOFTAP), (WWM_STATIONAP, WIFI_AP, WWM_SOFTAP)}"
  shows "\<exists>ret w. run_op (Wifi_On m) (tsys d) = Some (ret, w) \<and> app_inv w \<and>
    tuya_adapter_wifi_set_work_mode (manager_api cb told heard b) mode d = Some (OPRT_OK, d\<lparr>wifi_work_mode := mode, tsys := w\<rparr>) \<and>
    (ret = WMG_STATUS_SUCCESS \<longrightarrow>
       tuya_adapter_wifi_get_work_mode (manager_api cb told heard b) (Some old) (d\<lparr>wifi_work_mode := mode, tsys := w\<rparr>) = (OPRT_OK, Some seen))"
  using manager_modes.set_then_get[of d "manager_api cb told heard b" mode m seen old] assms by (simp add: manager_api_def)

section \<open>Sequences of calls\<close>

text \<open>A call of the adapter that is defined and returns.\<close>

inductive adapter_step :: "'s wifi_api \<Rightarrow> 's tuya_wifi \<Rightarrow> 's tuya_wifi \<Rightarrow> bool" for a where
  step_init: "tuya_wifi_init a d = Some (ret, d') \<Longrightarrow> adapter_step a d d'"
| step_scan: "tuya_adapter_wifi_all_ap_scan a ary num d = Some (ret, n, d') \<Longrightarrow> adapter_step a d d'"
| step_assign: "tuya_adapter_wifi_assign_ap_scan a name ap d = Some (ret, i, d') \<Longrightarrow> adapter_step a d d'"
| step_channel: "tuya_adapter_wifi_set_cur_channel a c d = Some (ret, d') \<Longrightarrow> adapter_step a d d'"
| step_sniffer: "tuya_adapter_wifi_sniffer_set a junk en cb d = Returns (ret, d') \<Longrightarrow> adapter_step a d d'"
| step_mode: "tuya_adapter_wifi_set_work_mode a mode d = Some (ret, d') \<Longrightarrow> adapter_step a d d'"
| step_ip: "tuya_adapter_wifi_get_ip a ifc ip d = Some (ret, ip', d') \<Longrightarrow> adapter_step a d d'"
| step_mac: "tuya_adapter_wifi_get_mac a mac d = Some (ret, mac', d') \<Longrightarrow> adapter_step a d d'"
| step_ap_start: "tuya_adapter_wifi_ap_start a cfg d = Some (ret, d') \<Longrightarrow> adapter_step a d d'"
| step_ap_stop: "tuya_adapter_wifi_ap_stop a d = Some (ret, d') \<Longrightarrow> adapter_step a d d'"
| step_connect: "tuya_adapter_wifi_station_connect a name passwd d = Some (ret, d') \<Longrightarrow> adapter_step a d d'"
| step_disconnect: "tuya_adapter_wifi_station_disconnect a d = Some (ret, d') \<Longrightarrow> adapter_step a d d'"
| step_rssi: "tuya_adapter_wifi_station_get_conn_ap_rssi a rssi d = Some (ret, v, d') \<Longrightarrow> adapter_step a d d'"
| step_bssid: "tuya_adapter_wifi_get_bssid a mac d = Some (ret, mac', d') \<Longrightarrow> adapter_step a d d'"
| step_ssid: "tuya_adapter_wifi_get_ssid a arr d = Some (ret, arr', d') \<Longrightarrow> adapter_step a d d'"
| step_status: "tuya_adapter_wifi_station_get_status a ip stat d = Some (ret, stat', d') \<Longrightarrow> adapter_step a d d'"

text \<open>The sniffer's thread makes no call.\<close>

lemma sniff_round_frame: "sniff_round d = Returns d' \<Longrightarrow> tsys d' = tsys d"
  by (auto simp: sniff_round_def Let_def split: list.splits if_splits)

lemma sniff_step_frame: "sniff_step d = Returns d' \<Longrightarrow> tsys d' = tsys d"
  by (auto simp: sniff_step_def split: if_splits dest: sniff_round_frame)

lemma sniff_join_frame:
  assumes "sniff_join d = Returns d'"
  shows "tsys d' = tsys d"
proof (cases "sniffer_thread d \<and> sniffer_call d")
  case True
  then show ?thesis
    using assms by (cases "sniff_round d")
      (auto simp: sniff_join_def split: if_splits dest!: sniff_step_frame dest: sniff_round_frame elim!: map_outcome_of.elims)
next
  case False
  then show ?thesis
    using assms by (auto simp: sniff_join_def split: if_splits dest!: sniff_step_frame elim!: map_outcome_of.elims)
qed

text \<open>What holds of a result, if there is one, from the parts of the computation.\<close>

lemma pred_bind: "pred_option Q m \<Longrightarrow> (\<And>x. Q x \<Longrightarrow> pred_option P (f x)) \<Longrightarrow> pred_option P (Option.bind m f)"
  by (cases m) auto

lemma pred_read: "(\<And>x. pred_option P (f x)) \<Longrightarrow> pred_option P (Option.bind m f)"
  by (cases m) auto

text \<open>An invariant of the state behind the calls, which every operation of the record keeps.\<close>

locale api_invariant =
  fixes a :: "'s wifi_api" and inv :: "'s \<Rightarrow> bool"
  assumes manager_init: "inv s \<Longrightarrow> api_manager_init a s = Some s' \<Longrightarrow> inv s'"
    and init: "inv s \<Longrightarrow> \<not> api_is_init a s \<Longrightarrow> api_init a s = Some (r, s') \<Longrightarrow> inv s'"
    and register: "inv s \<Longrightarrow> api_register a s = Some (r, s') \<Longrightarrow> inv s'"
    and scan: "inv s \<Longrightarrow> api_scan a n s = Some (x, s') \<Longrightarrow> inv s'"
    and set_channel: "inv s \<Longrightarrow> api_set_channel a c s = Some (r, s') \<Longrightarrow> inv s'"
    and get_info: "inv s \<Longrightarrow> api_get_info a i s = Some (r, i', s') \<Longrightarrow> inv s'"
    and on: "inv s \<Longrightarrow> api_on a m s = Some (r, s') \<Longrightarrow> inv s'"
    and ap_enable: "inv s \<Longrightarrow> api_ap_enable a name psk c n s = Some (r, s') \<Longrightarrow> inv s'"
    and ap_disable: "inv s \<Longrightarrow> api_ap_disable a s = Some (r, s') \<Longrightarrow> inv s'"
    and connect: "inv s \<Longrightarrow> api_connect a p s = Some (r, s') \<Longrightarrow> inv s'"
    and disconnect: "inv s \<Longrightarrow> api_disconnect a s = Some (r, s') \<Longrightarrow> inv s'"
    and reconnect: "inv s \<Longrightarrow> api_reconnect a en s = Some (r, s') \<Longrightarrow> inv s'"
    and sdk: "inv s \<Longrightarrow> inv (snd (sdk_scan a s))" "inv s \<Longrightarrow> inv (sdk_work_mode a wm s)"
    and app: "inv s \<Longrightarrow> inv (app_notify a e s)" "inv s \<Longrightarrow> inv (app_voice a v s)"
    and sys: "inv s \<Longrightarrow> inv (snd (sys_popen a cmd s))" "inv s \<Longrightarrow> inv (sys_sleep a k s)" "inv s \<Longrightarrow> inv (snd (sys_socket a s))"
      "inv s \<Longrightarrow> inv (snd (sys_thread a s))"
begin

text \<open>The results that have a state at their end, and the calls behind them.\<close>

abbreviation kept :: "('x \<times> 's tuya_wifi) option \<Rightarrow> bool" where
  "kept \<equiv> pred_option (\<lambda>(_, d). inv (tsys d))"

abbreviation kept3 :: "('x \<times> 'y \<times> 's tuya_wifi) option \<Rightarrow> bool" where
  "kept3 \<equiv> pred_option (\<lambda>(_, _, d). inv (tsys d))"

lemma call_kept: "inv (tsys d) \<Longrightarrow> (\<And>s x s'. inv s \<Longrightarrow> f s = Some (x, s') \<Longrightarrow> inv s') \<Longrightarrow> kept (tsys_call f d)"
  by (cases "f (tsys d)") (auto simp: tsys_call_def)

lemma do_kept: "inv (tsys d) \<Longrightarrow> (\<And>s. inv s \<Longrightarrow> inv (f s)) \<Longrightarrow> inv (tsys (tsys_do f d))"
  by (simp add: tsys_do_def)

lemma run_kept: "inv (tsys d) \<Longrightarrow> (\<And>s. inv s \<Longrightarrow> inv (snd (f s))) \<Longrightarrow> tsys_run f d = (x, d') \<Longrightarrow> inv (tsys d')"
  by (auto simp: tsys_run_def split: prod.splits) (metis snd_conv)

lemma info_kept: "inv s \<Longrightarrow> pred_option (\<lambda>(_, _, s). inv s) (api_get_info a i s)"
  by (cases "api_get_info a i s") (auto dest: get_info)

lemma calls_kept:
  assumes "inv (tsys d)"
  shows "kept (tsys_call (api_register a) d)"
    "kept (tsys_call (api_scan a n) d)"
    "kept (tsys_call (api_set_channel a c) d)"
    "kept (tsys_call (api_on a m) d)"
    "kept (tsys_call (api_ap_enable a name psk c n) d)"
    "kept (tsys_call (api_ap_disable a) d)"
    "kept (tsys_call (api_connect a p) d)"
    "kept (tsys_call (api_disconnect a) d)"
    "kept (tsys_call (api_reconnect a en) d)"
  using assms by (auto intro!: call_kept intro: register scan set_channel on ap_enable ap_disable connect disconnect reconnect)

lemma init_call_kept: "inv (tsys d) \<Longrightarrow> \<not> api_is_init a (tsys d) \<Longrightarrow> kept (tsys_call (api_init a) d)"
  by (cases "api_init a (tsys d)") (auto simp: tsys_call_def intro: init)

lemma init_kept:
  assumes "inv (tsys d)"
  shows "kept (tuya_wifi_init a d)"
proof -
  have i: "pred_option inv (api_manager_init a (tsys d))" using assms by (cases "api_manager_init a (tsys d)") (auto intro: manager_init)
  show ?thesis
    unfolding tuya_wifi_init_def Let_def
    by (auto intro!: pred_bind[OF i] pred_bind[OF init_call_kept] pred_bind[OF calls_kept(1)])
qed

lemma local_ip_kept: "inv (tsys d) \<Longrightarrow> kept3 (hwl_get_local_ip_info a ip d)"
  using info_kept[of "tsys d" no_info]
  by (auto simp: hwl_get_local_ip_info_def Let_def split: option.splits intro!: pred_read)

lemma connect_kept:
  assumes "inv (tsys d)"
  shows "kept (tuya_adapter_wifi_station_connect a name key d)"
proof -
  let ?d = "tsys_do (app_notify a IPC_CONNECTING_WIFI) (if sniffer_set_done d
      then tsys_do (sys_sleep a 1000000) (tsys_do (app_notify a IPC_REV_WIFI_CFG) (d\<lparr>sniffer_set_done := False\<rparr>)) else d)"
  have s: "inv (tsys ?d)" using assms by (auto intro!: do_kept app sys)
  have rest: "kept (if n = [] then Some (OPRT_COM_ERROR, e)
      else Option.bind key (\<lambda>k. Option.bind (api_get_info a no_info (tsys (e\<lparr>saved_ssid := strncpy (saved_ssid e) n 128,
          saved_passwd := strncpy (saved_passwd e) k 128\<rparr>)))
        (\<lambda>(_, _, s). Option.bind (tsys_call (api_on a WIFI_STATION) (e\<lparr>saved_ssid := strncpy (saved_ssid e) n 128,
          saved_passwd := strncpy (saved_passwd e) k 128, tsys := s\<rparr>))
        (\<lambda>(_, d). Option.bind (tsys_call (api_connect a \<lparr>cn_ssid = Some n, cn_password = Some k,
            cn_sec = (if k = [] then WIFI_SEC_NONE else WIFI_SEC_WPA2_PSK), cn_fast_connect = False\<rparr>) d)
        (\<lambda>(r, d). if r \<noteq> WMG_STATUS_SUCCESS then Some (OPRT_COM_ERROR, d)
          else Some (OPRT_OK, tsys_do (app_voice a V_WIFI_RECV_PWD) d))))))" if "inv (tsys e)" for e n
    using that by (auto intro!: pred_read[of _ _ key] pred_bind[OF info_kept] pred_bind[OF calls_kept(4)] pred_bind[OF calls_kept(7)] do_kept app)
  show ?thesis
    unfolding tuya_adapter_wifi_station_connect_def Let_def by (rule pred_read) (rule rest[OF s])
qed

lemma status_kept:
  assumes "inv (tsys d)"
  shows "kept3 (tuya_adapter_wifi_station_get_status a ip stat d)"
proof -
  obtain pp d1 where p0: "tsys_run (sys_popen a ''iw wlan0 link'') d = (pp, d1)" by fastforce
  note p = p0 run_kept[OF assms sys(1) p0]
  have idle: "kept3 (Option.bind (tsys_call (api_reconnect a True) (d1\<lparr>idle_count := n\<rparr>)) (\<lambda>(_, d).
      Option.bind (c_str (saved_ssid d)) (\<lambda>name. Option.bind (c_str (saved_passwd d)) (\<lambda>key.
        Option.bind (tuya_adapter_wifi_station_connect a (Some name) (Some key) d) (\<lambda>(_, d).
          Some (OPRT_OK, Some WSS_IDLE, d\<lparr>idle_count := 0\<rparr>))))))" for n
  proof (rule pred_bind[OF calls_kept(9)])
    fix x :: "int \<times> 's tuya_wifi"
    assume x: "case x of (_, d) \<Rightarrow> inv (tsys d)"
    obtain r e where e: "x = (r, e)" by fastforce
    have st: "kept3 (Option.bind (tuya_adapter_wifi_station_connect a (Some name) (Some key) e) (\<lambda>(_, d).
        Some (OPRT_OK, Some WSS_IDLE, d\<lparr>idle_count := 0\<rparr>)))" for name key
      using x e by (auto intro!: pred_bind[OF connect_kept])
    show "kept3 (case x of (_, d) \<Rightarrow> Option.bind (c_str (saved_ssid d)) (\<lambda>name. Option.bind (c_str (saved_passwd d)) (\<lambda>key.
        Option.bind (tuya_adapter_wifi_station_connect a (Some name) (Some key) d) (\<lambda>(_, d).
          Some (OPRT_OK, Some WSS_IDLE, d\<lparr>idle_count := 0\<rparr>)))))"
      unfolding e prod.case by (rule pred_read, rule pred_read, rule st)
  qed (use p(2) in simp)
  show ?thesis
  proof (cases "stat = None \<or> pp = None")
    case True
    then show ?thesis using assms p by (auto simp: tuya_adapter_wifi_station_get_status_def)
  next
    case False
    then obtain out where t: "pp = Some out" by auto
    have ip: "kept3 (Option.bind (hwl_get_local_ip_info a ip d1) (\<lambda>(ret, _, d).
        Some (OPRT_OK, Some (if ret = OPRT_OK then WSS_GOT_IP else WSS_IDLE), d)))"
      using p(2) by (auto intro!: pred_bind[OF local_ip_kept])
    show ?thesis
      using assms t p idle[of 21] ip by (simp add: tuya_adapter_wifi_station_get_status_def)
  qed
qed

lemma sniffer_kept:
  assumes "inv (tsys d)" "tuya_adapter_wifi_sniffer_set a junk en cb d = Returns (ret, d')"
  shows "inv (tsys d')"
proof (cases "en = enable_sniffer d \<or> \<not> en")
  case True
  then show ?thesis
    using assms by (cases "sniff_join (d\<lparr>enable_sniffer := False\<rparr>)")
      (auto simp: tuya_adapter_wifi_sniffer_set_def split: if_splits dest!: sniff_join_frame intro!: do_kept sdk)
next
  case False
  let ?d = "(tsys_do (sdk_work_mode a WWM_SNIFFER)
      (tsys_do (app_notify a IPC_START_WIFI_CFG) (d\<lparr>enable_sniffer := True\<rparr>)))\<lparr>sniffer_call := cb\<rparr>"
  have d: "inv (tsys ?d)" using assms(1) by (auto intro!: do_kept app sdk)
  obtain ok d1 where t0: "tsys_run (sys_thread a) ?d = (ok, d1)" by fastforce
  note t = t0 run_kept[OF d sys(4) t0]
  obtain ok2 d2 where u0: "tsys_run (sys_socket a) d1 = (ok2, d2)" by fastforce
  note u = u0 run_kept[OF t(2) sys(3) u0]
  show ?thesis
    using False assms(2) t u by (auto simp: tuya_adapter_wifi_sniffer_set_def sniff_start_def Let_def)
qed

lemma step_inv: "adapter_step a d d' \<Longrightarrow> inv (tsys d) \<Longrightarrow> inv (tsys d')"
proof (induction rule: adapter_step.induct)
  case (step_scan ary num d ret n d')
  then show ?case
    using calls_kept(2)[of "d\<lparr>s_aps := replicate 900 0\<rparr>" 1240]
    by (auto simp: tuya_adapter_wifi_all_ap_scan_def bind_eq_Some_conv Let_def split: if_splits prod.splits)
next
  case (step_assign name ap d ret i d')
  then show ?case
    using run_kept[OF _ sdk(1)] by (auto simp: tuya_adapter_wifi_assign_ap_scan_def split: option.splits prod.splits)
next
  case (step_channel c d ret d')
  then show ?case using calls_kept(3)[of d c] by (auto simp: tuya_adapter_wifi_set_cur_channel_def bind_eq_Some_conv)
next
  case (step_mode mode d ret d')
  then show ?case
    using calls_kept(4)[of "d\<lparr>wifi_work_mode := mode\<rparr>" WIFI_MONITOR] calls_kept(4)[of "d\<lparr>wifi_work_mode := mode\<rparr>" WIFI_STATION]
      calls_kept(4)[of "d\<lparr>wifi_work_mode := mode\<rparr>" WIFI_AP]
    by (auto simp: tuya_adapter_wifi_set_work_mode_def Let_def split: wf_wk_md.splits)
next
  case (step_ip ifc ip d ret ip' d')
  then show ?case
    using local_ip_kept[of d "the ip"] by (auto simp: tuya_adapter_wifi_get_ip_def split: option.splits wf_if.splits)
next
  case (step_mac mac d ret mac' d')
  then show ?case
    using run_kept[OF _ sys(1)] by (auto simp: tuya_adapter_wifi_get_mac_def split: option.splits prod.splits)
next
  case (step_ap_start cfg d ret d')
  then show ?case
    using calls_kept(5)[of d "cfg_ssid (the cfg)" "cfg_passwd (the cfg)" "cfg_chan (the cfg)" "auth_num (cfg_md (the cfg))"] by (auto simp: tuya_adapter_wifi_ap_start_def bind_eq_Some_conv split: option.splits)
next
  case (step_ap_stop d ret d')
  then show ?case using calls_kept(6)[of d] by (auto simp: tuya_adapter_wifi_ap_stop_def bind_eq_Some_conv)
next
  case (step_disconnect d ret d')
  then show ?case using calls_kept(8)[of d] by (auto simp: tuya_adapter_wifi_station_disconnect_def bind_eq_Some_conv)
next
  case (step_rssi rssi d ret v d')
  then show ?case
    using run_kept[OF _ sys(1)]
    by (auto simp: tuya_adapter_wifi_station_get_conn_ap_rssi_def split: option.splits prod.splits if_splits)
next
  case (step_bssid mac d ret mac' d')
  then show ?case
    using info_kept[of "tsys d" no_info] by (auto simp: tuya_adapter_wifi_get_bssid_def split: option.splits if_splits)
next
  case (step_ssid arr d ret arr' d')
  then show ?case
    using info_kept[of "tsys d" no_info]
    by (auto simp: tuya_adapter_wifi_get_ssid_def Let_def bind_eq_Some_conv split: option.splits if_splits)
next
  case (step_init d ret d')
  then show ?case using init_kept[of d] by simp
next
  case (step_connect name passwd d ret d')
  then show ?case using connect_kept[of d name passwd] by simp
next
  case (step_sniffer junk en cb d ret d')
  then show ?case using sniffer_kept by blast
next
  case (step_status ip stat d ret stat' d')
  then show ?case using status_kept[of d ip stat] by simp
qed

lemma steps_inv: "(adapter_step a)\<^sup>*\<^sup>* d d' \<Longrightarrow> inv (tsys d) \<Longrightarrow> inv (tsys d')"
  by (induction rule: rtranclp_induct) (auto dest: step_inv)

end

section \<open>The adapter in its program\<close>

text \<open>
  The whole program under the adapter: the manager with its action thread, and everything else, a state
  of its own that the SDK, the application and the kernel move by the operations of \<open>b\<close>. The adapter's
  calls go through the action thread, from the caller \<open>who\<close>; \<open>wifimanager_init\<close> gets its resources
  from \<open>res\<close>; starting the manager itself is done beside the thread. The SDK reaches
  the manager as well, through the adapter: to change the working mode or to scan it switches modes and
  scans as \<open>asks\<close> says. A call that is undefined or does not return gives \<open>None\<close>.
\<close>

type_synonym ('p, 'x) program = "'p wifi_sys \<times> 'x"

definition program_call :: "('x \<Rightarrow> caller) \<Rightarrow> api_op \<Rightarrow> ('p, 'x) program \<Rightarrow> (int \<times> ('p, 'x) program) option" where
  "program_call who p = (\<lambda>(s, x). case perform (who x) p s of Returns (r, s) \<Rightarrow> Some (r, (s, x)) | _ \<Rightarrow> None)"

definition sdk_op :: "wifi_mode option \<Rightarrow> api_op" where
  "sdk_op m = (case m of Some m \<Rightarrow> Wifi_On m | None \<Rightarrow> Scan_Results (Some 0) (Some 0) 1240)"

definition sdk_run :: "('x \<Rightarrow> caller) \<Rightarrow> wifi_mode option list \<Rightarrow> ('p, 'x) program \<Rightarrow> ('p, 'x) program" where
  "sdk_run who ms = (\<lambda>(s, x).
     case run_calls (map (\<lambda>m. (who x, sdk_op m)) ms) s of Returns (_, s) \<Rightarrow> (s, x) | _ \<Rightarrow> (s, x))"

definition program_api ::
    "msg_cb \<Rightarrow> (wifi_sta_info \<Rightarrow> 'p world \<Rightarrow> wifi_sta_info) \<Rightarrow> (nat \<Rightarrow> 'p world \<Rightarrow> nat \<times> wifi_scan_result list) \<Rightarrow>
     ('x \<Rightarrow> act_init_results) \<Rightarrow> ('x \<Rightarrow> caller) \<Rightarrow> (wf_wk_md option \<Rightarrow> 'x \<Rightarrow> wifi_mode option list) \<Rightarrow>
     'x wifi_api \<Rightarrow> ('p, 'x) program wifi_api" where
  "program_api cb told heard res who asks b =
     \<lparr>api_manager_init = (\<lambda>(s, x). case wifimanager_init (res x) s of Returns (_, s) \<Rightarrow> Some (s, x) | _ \<Rightarrow> None),
      api_is_init = (\<lambda>(s, x). wifimg_is_init (world s)),
      api_init = (\<lambda>(s, x). let (r, w) = wifimg_init (world s) in Some (r, (s\<lparr>world := w\<rparr>, x))),
      api_register = program_call who (Wifi_Register (Some cb)),
      api_scan = (\<lambda>n sx. map_option (\<lambda>(r, s, x). ((r, heard n (world s)), (s, x)))
        (program_call who (Scan_Results (Some 0) (Some 0) (of_nat n)) sx)),
      api_set_channel = (\<lambda>c. program_call who (Monitor_Set_Channel c)),
      api_get_info = (\<lambda>i sx. map_option (\<lambda>(r, s, x). (r, told i (world s), (s, x)))
        (program_call who (Sta_Get_Info (Some 0)) sx)),
      api_on = (\<lambda>m. program_call who (Wifi_On m)),
      api_mode = (\<lambda>(s, x). wifimg_get_current_mode (world s)),
      api_ap_enable = (\<lambda>ssid psk chan n sx. Option.bind (sec_of n) (\<lambda>sec.
        program_call who (Ap_Enable (Some \<lparr>ap_ssid = Some ssid, ap_psk = Some psk, ap_sec = sec, ap_channel = chan\<rparr>)) sx)),
      api_ap_disable = program_call who Ap_Disable,
      api_connect = (\<lambda>p. program_call who (Sta_Connect (Some p))),
      api_disconnect = program_call who Sta_Disconnect,
      api_reconnect = (\<lambda>en. program_call who (Sta_Auto_Reconnect en)),
      sdk_scan = (\<lambda>(s, x). let s = fst (sdk_run who (asks None x) (s, x)); (found, x) = sdk_scan b x in (found, (s, x))),
      sdk_work_mode = (\<lambda>m (s, x). (fst (sdk_run who (asks (Some m) x) (s, x)), sdk_work_mode b m x)),
      app_notify = (\<lambda>e (s, x). (s, app_notify b e x)), app_voice = (\<lambda>v (s, x). (s, app_voice b v x)),
      sys_popen = (\<lambda>c (s, x). let (out, x) = sys_popen b c x in (out, (s, x))),
      sys_sleep = (\<lambda>n (s, x). (s, sys_sleep b n x)),
      sys_socket = (\<lambda>(s, x). let (ok, x) = sys_socket b x in (ok, (s, x))),
      sys_thread = (\<lambda>(s, x). let (ok, x) = sys_thread b x in (ok, (s, x))), sys_garbage = sys_garbage b\<rparr>"

text \<open>
  The invariant: the manager's, and that the action thread of number \<open>tp\<close>, once it was started, is idle
  with all its tables.
\<close>

definition program_inv :: "nat \<Rightarrow> 'p wifi_sys \<Rightarrow> bool" where
  "program_inv tp s \<longleftrightarrow> app_inv (world s) \<and> length (act_funcs s) = ACT_FUNC_NUM \<and> (\<forall>q. heap s q = None) \<and>
     (act_enable s \<longrightarrow> wifi_ready s \<and> act_pid s = tp)"

definition outside_thread :: "nat \<Rightarrow> caller \<Rightarrow> bool" where
  "outside_thread tp c \<longleftrightarrow> (\<exists>pid q evs. c = (pid, Some q, Thread_Pass # evs) \<and> pid \<noteq> tp)"

lemma perform_is_call: "\<exists>tid opcode. perform c p s = wifi_call c tid opcode (op_args p) s"
  by (cases p) (auto simp: api_defs)

text \<open>Without the thread every call fails at once.\<close>

lemma perform_not_started:
  "\<not> act_enable s \<Longrightarrow> perform c p s = Returns (WMG_STATUS_FAIL, s\<lparr>world := (world s)\<lparr>cb_status := WMG_STATUS_FAIL\<rparr>\<rparr>)"
  using perform_is_call[of c p s]
  by (auto simp: wifi_call_def act_transfer_def act_transfer_handle_def c_true_def split: prod.split)

lemma perform_keeps:
  fixes s :: "'p wifi_sys"
  assumes "program_inv tp s" "outside_thread tp c"
  shows "perform c p s = Returns (r, s') \<Longrightarrow> program_inv tp s'"
    and "\<forall>w :: 'p world. safe_op p w \<Longrightarrow> \<exists>r s'. perform c p s = Returns (r, s')"
proof -
  let ?w = "(world s)\<lparr>cb_status := WMG_STATUS_FAIL\<rparr>"
  have inv: "app_inv ?w" using assms(1) app_inv_cb by (auto simp: program_inv_def)
  have on: "\<exists>q. (\<forall>w. wifi_ready (s\<lparr>queue := q, world := w\<rparr>)) \<and> perform c p s = (case run_op p ?w of
      None \<Rightarrow> Crash | Some (r, w) \<Rightarrow> Returns (cb_status w, s\<lparr>queue := q, world := w\<rparr>))" if "act_enable s"
    by (rule perform_outcome) (use that assms in \<open>auto simp: program_inv_def outside_thread_def served_def\<close>)
  show "program_inv tp s'" if r: "perform c p s = Returns (r, s')"
  proof (cases "act_enable s")
    case False
    then show ?thesis using r perform_not_started[OF False, of c p] inv assms(1) by (auto simp: program_inv_def)
  next
    case True
    obtain q where q: "\<forall>w. wifi_ready (s\<lparr>queue := q, world := w\<rparr>)" "perform c p s = (case run_op p ?w of
        None \<Rightarrow> Crash | Some (r, w) \<Rightarrow> Returns (cb_status w, s\<lparr>queue := q, world := w\<rparr>))"
      using on[OF True] by blast
    obtain r' w where w: "run_op p ?w = Some (r', w)" "s' = s\<lparr>queue := q, world := w\<rparr>"
      using r q(2) by (auto split: option.splits)
    show ?thesis using q(1) run_op_inv[OF inv w(1)] assms(1) True w(2) by (auto simp: program_inv_def)
  qed
  show "\<exists>r s'. perform c p s = Returns (r, s')" if safe: "\<forall>w :: 'p world. safe_op p w"
  proof (cases "act_enable s")
    case True
    obtain q where q: "perform c p s = (case run_op p ?w of
        None \<Rightarrow> Crash | Some (r, w) \<Rightarrow> Returns (cb_status w, s\<lparr>queue := q, world := w\<rparr>))"
      using on[OF True] by blast
    then show ?thesis using run_op_fine[OF inv spec[OF safe]] by (auto simp: fine_def)
  qed (simp add: perform_not_started)
qed

lemma program_call_keeps:
  "program_inv tp (fst sx) \<Longrightarrow> \<forall>x. outside_thread tp (who x) \<Longrightarrow> program_call who p sx = Some (r, sx') \<Longrightarrow> program_inv tp (fst sx')"
  by (auto simp: program_call_def dest: perform_keeps(1) split: prod.splits outcome.splits)

text \<open>What the SDK asks of the manager always returns.\<close>

lemma sdk_calls_return:
  fixes s :: "'p wifi_sys"
  assumes "program_inv tp s" "outside_thread tp c"
  shows "\<exists>sts s'. run_calls (map (\<lambda>m. (c, sdk_op m)) ms) s = Returns (sts, s') \<and> program_inv tp s'"
  using assms(1)
proof (induction ms arbitrary: s)
  case (Cons m ms)
  have "\<forall>w :: 'p world. safe_op (sdk_op m) w" by (simp add: sdk_op_def split: option.split)
  then obtain r s1 where s1: "perform c (sdk_op m) s = Returns (r, s1)" "program_inv tp s1"
    using perform_keeps[OF Cons.prems assms(2)] by metis
  then show ?case using Cons.IH[OF s1(2)] by auto
qed simp

lemma sdk_run_keeps: "program_inv tp (fst sx) \<Longrightarrow> \<forall>x. outside_thread tp (who x) \<Longrightarrow> program_inv tp (fst (sdk_run who ms sx))"
  using sdk_calls_return[of tp "fst sx" "who (snd sx)" ms] by (auto simp: sdk_run_def split: prod.split)

lemma wifimanager_init_keeps:
  "program_inv tp s \<Longrightarrow> all_granted r \<Longrightarrow> thread_pid r = tp \<Longrightarrow> wifimanager_init r s = Returns (st, s') \<Longrightarrow> program_inv tp s'"
  using wifimanager_init_runs[of r s] by (auto simp: program_inv_def wifi_ready_def)

lemma wifimg_init_keeps:
  "program_inv tp s \<Longrightarrow> \<not> wifimg_is_init (world s) \<Longrightarrow> wifimg_init (world s) = (r, w) \<Longrightarrow> program_inv tp (s\<lparr>world := w\<rparr>)"
  using init_fine[of "world s"] by (auto simp: program_inv_def wifi_ready_def act_idle_def)

text \<open>The conditions on the program, so that the invariant is one of the record of its operations.\<close>

definition program_fine :: "nat \<Rightarrow> ('x \<Rightarrow> act_init_results) \<Rightarrow> ('x \<Rightarrow> caller) \<Rightarrow> bool" where
  "program_fine tp res who \<longleftrightarrow> (\<forall>x. all_granted (res x) \<and> thread_pid (res x) = tp \<and> outside_thread tp (who x))"

interpretation program_invariant: api_invariant "program_api cb told heard res (who :: 'x \<Rightarrow> caller) asks b :: ('p, 'x) program wifi_api"
  "\<lambda>sx. program_inv tp (fst sx) \<and> program_fine tp res who"
proof -
  have c: "program_inv tp (fst sx')" if "program_inv tp (fst sx) \<and> program_fine tp res who" "program_call who p sx = Some (r, sx')"
    for p r and sx sx' :: "('p, 'x) program"
    using program_call_keeps[of tp sx who] that by (auto simp: program_fine_def)
  have k: "program_inv tp (fst (sdk_run who ms sx))" if "program_inv tp (fst sx) \<and> program_fine tp res who"
    for ms and sx :: "('p, 'x) program"
    using sdk_run_keeps[of tp sx who] that by (auto simp: program_fine_def)
  show "api_invariant (program_api cb told heard res who asks b :: ('p, 'x) program wifi_api)
      (\<lambda>sx. program_inv tp (fst sx) \<and> program_fine tp res who)"
    by unfold_locales (auto simp: program_api_def Let_def bind_eq_Some_conv intro: c k wifimanager_init_keeps wifimg_init_keeps
        simp: program_fine_def split: prod.splits outcome.splits)
qed

text \<open>
  C20. The SDK calls the adapter in whatever order and with whatever arguments, as long as the calls are
  defined and return; in between it switches modes and scans on its own, and the application
  and the kernel do what they like to their own state. Then the manager's invariant holds afterwards,
  when it held before, and its action thread, if it was started, is idle again with all its tables.
  \<open>wifimanager_init\<close> gets what it asks for each time, the callers run outside the action
  thread and have memory for their messages, and no signal disturbs their waits.
\<close>

theorem adapter_keeps_manager:
  assumes "\<forall>x. all_granted (res x) \<and> thread_pid (res x) = tp" "\<forall>x. outside_thread tp (who x)"
    and "program_inv tp (fst (tsys d))" "(adapter_step (program_api cb told heard res who asks b))\<^sup>*\<^sup>* d d'"
  shows "program_inv tp (fst (tsys d'))"
  using program_invariant.steps_inv[OF assms(4), of tp] assms(1-3) by (simp add: program_fine_def)

section \<open>Witnesses\<close>

theorem work_mode_read_back_witness:
  "\<exists>ret w. run_op (Wifi_On WIFI_AP) (demo_on STA_BITMAP) = Some (ret, w) \<and> app_inv w \<and>
    tuya_adapter_wifi_set_work_mode (manager_api 9 (\<lambda>i _. i) (\<lambda>_ _. (0, [])) plain_api) WWM_STATIONAP (tuya_wifi_static [] (demo_on STA_BITMAP)) =
      Some (OPRT_OK, (tuya_wifi_static [] (demo_on STA_BITMAP))\<lparr>wifi_work_mode := WWM_STATIONAP, tsys := w\<rparr>) \<and>
    (ret = WMG_STATUS_SUCCESS \<longrightarrow>
       tuya_adapter_wifi_get_work_mode (manager_api 9 (\<lambda>i _. i) (\<lambda>_ _. (0, [])) plain_api) (Some WWM_UNKNOWN)
         ((tuya_wifi_static [] (demo_on STA_BITMAP))\<lparr>wifi_work_mode := WWM_STATIONAP, tsys := w\<rparr>) = (OPRT_OK, Some WWM_SOFTAP))"
  using work_mode_read_back[of "tuya_wifi_static [] (demo_on STA_BITMAP)" WWM_STATIONAP WIFI_AP WWM_SOFTAP 9 "\<lambda>i _. i" "\<lambda>_ _. (0, [])"
      plain_api WWM_UNKNOWN] demo_on_inv[of STA_BITMAP]
  by (simp add: tuya_wifi_static_def)

theorem adapter_keeps_manager_witness:
  "\<exists>a d ret d'. a = program_api 9 (\<lambda>i _. i) (\<lambda>_ _. (0, [])) (\<lambda>_. demo_granted) (\<lambda>_. (1, Some 100, [Thread_Pass])) (\<lambda>_ _. [None])
      (plain_api :: unit wifi_api) \<and> d = tuya_wifi_static [] (demo_sys, ()) \<and>
    tuya_wifi_init a d = Some (ret, d') \<and> program_inv 7 (fst (tsys d'))"
proof -
  let ?a = "program_api 9 (\<lambda>i _. i) (\<lambda>_ _. (0, [])) (\<lambda>_. demo_granted) (\<lambda>_. (1, Some 100, [Thread_Pass])) (\<lambda>_ _. [None])
      (plain_api :: unit wifi_api)" and ?d = "tuya_wifi_static [] (demo_sys, ())"
  have d: "program_inv 7 (fst (tsys ?d))"
    using at_boot_inv[OF demo_at_boot] by (simp add: program_inv_def tuya_wifi_static_def demo_sys_def)
  have c: "outside_thread 7 (1, Some 100, [Thread_Pass])" by (simp add: outside_thread_def)
  have g: "all_granted demo_granted" "thread_pid demo_granted = 7" by (simp_all add: all_granted_def demo_granted_def)
  obtain s1 where s1: "wifimanager_init demo_granted demo_sys = Returns (WMG_STATUS_SUCCESS, s1)" "world s1 = demo_boot"
    using wifimanager_init_runs[OF g(1), of demo_sys] by (auto simp: demo_sys_def)
  have inv1: "program_inv 7 s1"
    using wifimanager_init_keeps[OF _ g s1(1)] d by (simp add: tuya_wifi_static_def)
  obtain r2 w2 where w2: "wifimg_init (world s1) = (r2, w2)" by fastforce
  have off: "\<not> wifimg_is_init (world s1)" by (simp add: s1(2) demo_boot_def wifimg_is_init_def wifimg_object_static_def)
  have inv2: "program_inv 7 (s1\<lparr>world := w2\<rparr>)" by (rule wifimg_init_keeps[OF inv1 off w2])
  obtain r3 s3 where s3: "perform (1, Some 100, [Thread_Pass]) (Wifi_Register (Some 9)) (s1\<lparr>world := w2\<rparr>) = Returns (r3, s3)"
    using perform_keeps(2)[OF inv2 c, of "Wifi_Register (Some 9)"] by auto
  have a: "api_manager_init ?a (tsys ?d) = Some (s1, ())" "\<not> api_is_init ?a (s1, ())"
      "api_init ?a (s1, ()) = Some (r2, (s1\<lparr>world := w2\<rparr>, ()))"
      "perform (1, Some 100, [Thread_Pass]) (Wifi_Register (Some 9)) s = Returns (r, s') \<Longrightarrow> api_register ?a (s, ()) = Some (r, (s', ()))"
    for s s' r
    using s1(1) w2 off by (simp_all add: program_api_def program_call_def tuya_wifi_static_def)
  obtain ret d' where r: "tuya_wifi_init ?a ?d = Some (ret, d')"
    using a(1,2,3) a(4)[OF s3] by (cases "c_true r2") (simp_all add: tuya_wifi_init_def tsys_call_def Let_def)
  then have "(adapter_step ?a)\<^sup>*\<^sup>* ?d d'" by (blast intro: step_init)
  from adapter_keeps_manager[OF _ _ d this] r g c show ?thesis by auto
qed

end
