(* ===== verification/Tuya_Station.thy ===== *)
theory Tuya_Station
  imports Tuya_Scan Wpa_Replies
begin

text \<open>
  The adapter's station and sniffer: the name that is read back, the strength, how a lost connection is made
  again while the SDK asks for the state, and the packets the sniffer hands on.
\<close>

section \<open>The name of the network\<close>

text \<open>A name as the supplicant prints it when it escapes every byte of it.\<close>

definition escaped :: "string \<Rightarrow> string" where
  "escaped s = concat (map (\<lambda>c. BACKSLASH # CHR ''x'' # hex_byte (of_char c)) s)"

lemma hex_digit_char: "n < 16 \<Longrightarrow> hex_digit (hex_char n) = Some n"
  by (auto simp: hex_digit_def hex_char_def)

lemma hex_char_plain:
  assumes "n < 16"
  shows "\<not> is_space (hex_char n)" "hex_char n \<notin> {CHR ''-'', CHR ''+'', CHR ''x'', CHR ''X'', CHR 0x00}"
proof -
  have c: "(of_char (hex_char n) :: nat) = (if n < 10 then 48 + n else 87 + n)" using assms by (simp add: hex_char_def)
  have "(of_char (hex_char n) :: nat) \<notin> of_char ` {CHR '' '', CHR ''-'', CHR ''+'', CHR ''x'', CHR ''X'', CHR 0x00}"
    using assms unfolding c by auto
  then show "\<not> is_space (hex_char n)" "hex_char n \<notin> {CHR ''-'', CHR ''+'', CHR ''x'', CHR ''X'', CHR 0x00}"
    using c assms by (auto simp: is_space_def split: if_splits)
qed

lemma nibble_values: "int (unat (drop_bit 4 b)) * 16 + int (unat (b AND 15)) = uint b" for b :: byte
proof -
  have "b AND 15 = take_bit 4 b" by (simp add: take_bit_eq_mask mask_eq_exp_minus_1)
  then have "unat (b AND 15) = take_bit 4 (unat b)" by (simp only: unsigned_take_bit_eq)
  then have "unat (b AND 15) = unat b mod 16" by (simp add: take_bit_eq_mod)
  moreover have "unat (drop_bit 4 b) = drop_bit 4 (unat b)" by (rule unat_drop_bit_eq)
  then have "unat (drop_bit 4 b) = unat b div 16" by (simp add: drop_bit_eq_div)
  moreover have "unat b div 16 * 16 + unat b mod 16 = unat b" by simp
  ultimately have "unat (drop_bit 4 b) * 16 + unat (b AND 15) = unat b" by simp
  then have "int (unat (drop_bit 4 b) * 16 + unat (b AND 15)) = int (unat b)" by (simp only:)
  then show ?thesis by simp
qed

lemma uint_less_bound: "uint b < 256" for b :: byte
proof -
  have "uint b < 2 ^ LENGTH(8)" by (rule unsigned_less)
  then show ?thesis by simp
qed

lemma strtol16_hex: "strtol16 (hex_byte b) = Some (uint b)"
proof -
  let ?h = "unat (drop_bit 4 b)" and ?l = "unat (b AND 15)"
  have small: "uint b < 4294967296" using uint_less_bound[of b] by simp
  show ?thesis
    using hex_char_plain[OF nibbles(1)[of b]] hex_char_plain[OF nibbles(2)[of b]] hex_digit_char[OF nibbles(1)[of b]]
      hex_digit_char[OF nibbles(2)[of b]] nibble_values[of b] small
    by (simp add: strtol16_def scan_hex_def hex_byte_def hex_start_def starts_def)
qed

lemma hex_byte_nuls: "takeWhile (\<lambda>c. c \<noteq> CHR 0x00) (hex_byte b) = hex_byte b" "length (hex_byte b) = 2"
  using hex_char_plain(2)[OF nibbles(1)[of b]] hex_char_plain(2)[OF nibbles(2)[of b]] by (simp_all add: hex_byte_def)

lemma unescape_escaped: "unescape (escaped s) = Some s"
proof (induction s)
  case Nil
  show ?case by (simp add: escaped_def unescape.simps)
next
  case (Cons c s)
  have e: "escaped (c # s) = BACKSLASH # CHR ''x'' # hex_byte (of_char c) @ escaped s" by (simp add: escaped_def)
  obtain h l where hl: "hex_byte (of_char c) = [h, l]" by (simp add: hex_byte_def)
  have "strtol16 (takeWhile (\<lambda>c. c \<noteq> CHR 0x00) [h, l]) = Some (uint (of_char c :: byte))"
    using hex_byte_nuls(1)[of "of_char c"] strtol16_hex[of "of_char c"] unfolding hl by simp
  moreover have "char_of (uint (of_char c :: byte)) = c"
  proof -
    have "uint (of_char c :: byte) = take_bit 8 (of_char c :: int)" using uint_word_of_int_eq[of "of_char c :: int", where 'a = 8] by (simp add: of_int_of_char)
    then show ?thesis by (simp only: char_of_take_bit_eq char_of_char order_refl)
  qed
  ultimately show ?case using Cons.IH by (subst unescape.simps) (simp add: e hl at_end_def)
qed

text \<open>
  C34. A name that the supplicant reports with every byte escaped, as it does for names in other scripts, is
  written to the caller's array as the bytes it stands for, ended by a NUL.
\<close>

theorem escaped_name_read:
  assumes "api_get_info a no_info (tsys d) = Some (WMG_STATUS_SUCCESS, info, s)" "info_ssid info = escaped name" "name \<noteq> []"
    and "length name < length ssid"
  shows "tuya_adapter_wifi_get_ssid a ssid d = Some (0, name @ CHR 0x00 # drop (Suc (length name)) ssid, d\<lparr>tsys := s\<rparr>)"
proof -
  obtain c cs where "name = c # cs" using assms(3) by (cases name) auto
  then have "starts [BACKSLASH, CHR ''x''] (info_ssid info)" using assms(2) by (simp add: escaped_def starts_def)
  then show ?thesis
    using assms by (simp add: tuya_adapter_wifi_get_ssid_def unescape_escaped overlay_def)
qed
section \<open>Coming back\<close>

text \<open>
  A station that stays without a connection: every call returns, the kernel's tool prints no line that
  says there is a connection, and the manager is asked to connect by nobody else; \<open>conns\<close> is what it was
  asked, oldest first.
\<close>

definition offline :: "'s wifi_api \<Rightarrow> ('s \<Rightarrow> wifi_sta_cn_para list) \<Rightarrow> bool" where
  "offline a conns \<longleftrightarrow> (\<forall>s.
     (\<exists>out s'. sys_popen a ''iw wlan0 link'' s = (Some out, s') \<and> \<not> list_ex link_line (fgets_lines 256 out) \<and> conns s' = conns s) \<and>
     (\<exists>r s'. api_reconnect a True s = Some (r, s') \<and> conns s' = conns s) \<and>
     (\<exists>r i s'. api_get_info a no_info s = Some (r, i, s') \<and> conns s' = conns s) \<and>
     (\<exists>r s'. api_on a WIFI_STATION s = Some (r, s') \<and> conns s' = conns s) \<and>
     (\<forall>p. \<exists>r s'. api_connect a p s = Some (r, s') \<and> conns s' = conns s @ [p]) \<and>
     (\<forall>e. conns (app_notify a e s) = conns s) \<and> (\<forall>v. conns (app_voice a v s) = conns s) \<and>
     (\<forall>n. conns (sys_sleep a n s) = conns s))"

text \<open>The SDK asks for the state \<open>m\<close> times.\<close>

fun polls :: "'s wifi_api \<Rightarrow> nw_ip \<Rightarrow> nat \<Rightarrow> 's tuya_wifi \<Rightarrow> 's tuya_wifi option" where
  "polls a ip 0 d = Some d"
| "polls a ip (Suc m) d =
     do { d \<leftarrow> polls a ip m d; (_, _, d) \<leftarrow> tuya_adapter_wifi_station_get_status a ip (Some WSS_IDLE) d; Some d }"

definition saved_para :: "string \<Rightarrow> string \<Rightarrow> wifi_sta_cn_para" where
  "saved_para n k = \<lparr>cn_ssid = Some n, cn_password = Some k, cn_sec = (if k = [] then WIFI_SEC_NONE else WIFI_SEC_WPA2_PSK),
     cn_fast_connect = False\<rparr>"

lemma offline_connect:
  assumes "offline a conns" "n \<noteq> []"
  shows "\<exists>ret d'. tuya_adapter_wifi_station_connect a (Some n) (Some k) d = Some (ret, d') \<and>
    conns (tsys d') = conns (tsys d) @ [saved_para n k] \<and> saved_ssid d' = strncpy (saved_ssid d) n 128 \<and>
    saved_passwd d' = strncpy (saved_passwd d) k 128 \<and> idle_count d' = idle_count d"
proof -
  let ?d = "tsys_do (app_notify a IPC_CONNECTING_WIFI) (if sniffer_set_done d
      then tsys_do (sys_sleep a 1000000) (tsys_do (app_notify a IPC_REV_WIFI_CFG) (d\<lparr>sniffer_set_done := False\<rparr>)) else d)"
  have q: "conns (app_notify a e s) = conns s" "conns (app_voice a v s) = conns s" "conns (sys_sleep a n s) = conns s" for e v n s
    using assms(1) by (simp_all add: offline_def)
  obtain r1 i s1 where i: "api_get_info a no_info (tsys ?d) = Some (r1, i, s1)" "conns s1 = conns (tsys ?d)"
    using assms(1) unfolding offline_def by metis
  obtain r2 s2 where o: "api_on a WIFI_STATION s1 = Some (r2, s2)" "conns s2 = conns s1" using assms(1) unfolding offline_def by metis
  obtain r3 s3 where c: "api_connect a (saved_para n k) s2 = Some (r3, s3)" "conns s3 = conns s2 @ [saved_para n k]"
    using assms(1) unfolding offline_def by metis
  have d: "conns (tsys ?d) = conns (tsys d)" "saved_ssid ?d = saved_ssid d" "saved_passwd ?d = saved_passwd d" "idle_count ?d = idle_count d"
    by (simp_all add: tsys_do_def q)
  have "tuya_adapter_wifi_station_connect a (Some n) (Some k) d =
      (let e = ?d\<lparr>saved_ssid := strncpy (saved_ssid ?d) n 128, saved_passwd := strncpy (saved_passwd ?d) k 128, tsys := s3\<rparr>
       in if r3 \<noteq> WMG_STATUS_SUCCESS then Some (OPRT_COM_ERROR, e) else Some (OPRT_OK, tsys_do (app_voice a V_WIFI_RECV_PWD) e))"
    using assms(2) i(1) o(1) c(1) unfolding tuya_adapter_wifi_station_connect_def Let_def saved_para_def
    by (simp add: tsys_call_def)
  then show ?thesis using d i(2) o(2) c(2) q by (auto simp: Let_def tsys_do_def)
qed

text \<open>What is kept between two calls: the saved texts.\<close>

definition saved :: "string \<Rightarrow> string \<Rightarrow> 's tuya_wifi \<Rightarrow> bool" where
  "saved n k d \<longleftrightarrow> c_str (saved_ssid d) = Some n \<and> c_str (saved_passwd d) = Some k"

lemma offline_poll:
  assumes "offline a conns" "saved n k d" "n \<noteq> []" "CHR 0x00 \<notin> set n \<union> set k" "length n < 128" "length k < 128"
  shows "\<exists>d'. tuya_adapter_wifi_station_get_status a ip (Some st) d = Some (OPRT_OK, Some WSS_IDLE, d') \<and> saved n k d' \<and>
    idle_count d' = (if idle_count d = 20 then 0 else idle_count d + 1) \<and>
    conns (tsys d') = conns (tsys d) @ (if idle_count d = 20 then [saved_para n k] else [])"
proof -
  obtain out s where p: "sys_popen a ''iw wlan0 link'' (tsys d) = (Some out, s)" "\<not> list_ex link_line (fgets_lines 256 out)"
    "conns s = conns (tsys d)" using assms(1) unfolding offline_def by metis
  show ?thesis
  proof (cases "idle_count d = 20")
    case False
    then show ?thesis using p assms(2) by (simp add: tuya_adapter_wifi_station_get_status_def tsys_run_def saved_def)
  next
    case True
    obtain r s1 where r: "api_reconnect a True s = Some (r, s1)" "conns s1 = conns s" using assms(1) unfolding offline_def by metis
    let ?d = "d\<lparr>idle_count := 21, tsys := s1\<rparr>"
    obtain ret d' where c: "tuya_adapter_wifi_station_connect a (Some n) (Some k) ?d = Some (ret, d')"
      "conns (tsys d') = conns (tsys ?d) @ [saved_para n k]" "saved_ssid d' = strncpy (saved_ssid ?d) n 128"
      "saved_passwd d' = strncpy (saved_passwd ?d) k 128"
      using offline_connect[OF assms(1,3)] by blast
    have "saved n k d'" using assms(4-6) c(3,4) by (simp add: saved_def c_str_strncpy)
    then show ?thesis
      using True p r c assms(2)
      by (simp add: tuya_adapter_wifi_station_get_status_def tsys_run_def tsys_call_def saved_def)
  qed
qed

lemma count_step: "(if int (m mod 21) = 20 then 0 else int (m mod 21) + 1) = int (Suc m mod 21)"
    "Suc m div 21 = m div 21 + (if int (m mod 21) = 20 then 1 else 0)" for m :: nat
  by (auto simp: mod_Suc div_Suc)

text \<open>
  C24. As long as there is no connection, every twenty-first time the SDK asks for the state, the saved network is
  connected again, and at no other time.
\<close>

theorem lost_station_comes_back:
  assumes "offline a conns" "saved n k d" "n \<noteq> []" "CHR 0x00 \<notin> set n \<union> set k" "length n < 128" "length k < 128" "idle_count d = 0"
  shows "\<exists>d'. polls a ip m d = Some d' \<and> idle_count d' = int (m mod 21) \<and>
    conns (tsys d') = conns (tsys d) @ replicate (m div 21) (saved_para n k)"
proof -
  have "\<exists>d'. polls a ip m d = Some d' \<and> saved n k d' \<and> idle_count d' = int (m mod 21) \<and>
    conns (tsys d') = conns (tsys d) @ replicate (m div 21) (saved_para n k)"
  proof (induction m)
    case 0
    then show ?case using assms by simp
  next
    case (Suc m)
    then obtain d1 where d1: "polls a ip m d = Some d1" "saved n k d1" "idle_count d1 = int (m mod 21)"
      "conns (tsys d1) = conns (tsys d) @ replicate (m div 21) (saved_para n k)" by blast
    obtain d2 where d2: "tuya_adapter_wifi_station_get_status a ip (Some WSS_IDLE) d1 = Some (OPRT_OK, Some WSS_IDLE, d2)" "saved n k d2"
      "idle_count d2 = (if idle_count d1 = 20 then 0 else idle_count d1 + 1)"
      "conns (tsys d2) = conns (tsys d1) @ (if idle_count d1 = 20 then [saved_para n k] else [])"
      using offline_poll[OF assms(1) d1(2) assms(3-6)] by blast
    have "polls a ip (Suc m) d = Some d2" using d1(1) d2(1) by simp
    moreover have "idle_count d2 = int (Suc m mod 21)" using d2(3) count_step(1)[of m] unfolding d1(3) by (simp only:)
    moreover have "conns (tsys d2) = conns (tsys d) @ replicate (Suc m div 21) (saved_para n k)"
      using d2(4) unfolding d1(3,4) count_step(2) by (simp add: replicate_add)
    ultimately show ?case using d2(2) by blast
  qed
  then show ?thesis by blast
qed
section \<open>The strength\<close>

lemma rssi_percent_bounds: "0 \<le> rssi_percent sig \<and> rssi_percent sig \<le> 100"
  by (simp add: rssi_percent_def)

lemma find_signal_bounds: "find_signal ls = Some v \<Longrightarrow> 0 \<le> v \<and> v \<le> 100"
  using rssi_percent_bounds by (induction ls rule: find_signal.induct) (auto split: option.splits prod.splits)

text \<open>Whatever the kernel's tool prints, the strength that is reported is a number of percent.\<close>

theorem strength_in_percent:
  assumes "tuya_adapter_wifi_station_get_conn_ap_rssi a (Some old) d = Some (ret, v, d')"
  shows "\<exists>p. v = Some p \<and> 0 \<le> p \<and> p \<le> 100"
  using assms find_signal_bounds
  by (auto simp: tuya_adapter_wifi_station_get_conn_ap_rssi_def split: option.splits prod.splits)

section \<open>The sniffer\<close>

text \<open>
  A packet as the kernel gives it while the interface monitors: a header that tells its own length, and a
  frame behind it, together not longer than the buffer.
\<close>

definition tapped :: "byte list \<Rightarrow> byte list \<Rightarrow> byte list \<Rightarrow> bool" where
  "tapped h f p \<longleftrightarrow> p = h @ f \<and> 4 \<le> length h \<and> it_len p = length h \<and> f \<noteq> [] \<and> length p \<le> MAX_REV_BUFFER"

fun rounds :: "nat \<Rightarrow> 's tuya_wifi \<Rightarrow> 's tuya_wifi outcome" where
  "rounds 0 d = Returns d"
| "rounds (Suc m) d = bind_outcome (sniff_step d) (rounds m)"

lemma tapped_round:
  assumes "tapped h f p" "tuya_air d = Some p # air" "sniffer_thread d" "sniffer_call d" "enable_sniffer d"
  shows "sniff_step d = Returns (d\<lparr>tuya_air := air, rev_buffer := p @ drop (length p) (rev_buffer d), sniffed := sniffed d @ [f]\<rparr>)"
proof -
  have e: "p = h @ f" "length p \<le> MAX_REV_BUFFER" "0 < length f" using assms(1) by (auto simp: tapped_def)
  have p: "take MAX_REV_BUFFER p = p" using e(2) by (rule take_all)
  have l: "length h < length p" "length h < MAX_REV_BUFFER" "drop (length h) p = f" using e(2,3) by (simp_all add: e(1) del: length_greater_0_conv)
  have "it_len (p @ drop (length p) (rev_buffer d)) = length h"
    using assms(1) by (auto simp: it_len_def tapped_def nth_append)
  then show ?thesis using assms(2-5) p l by (simp add: sniff_step_def sniff_round_def)
qed

text \<open>
  While the sniffer is on, the SDK's callback is given what is behind the header of every packet, in
  the order of the packets. Taking the sniffer away then waits until one more packet comes, when
  the thread is in its receive: without a packet it does not return.
\<close>

theorem sniffer_hands_on:
  assumes "list_all2 (\<lambda>(h, f) p. tapped h f p) hfs ps" "tuya_air d = map Some ps" "sniffer_thread d" "sniffer_id d" "sniffer_call d" "enable_sniffer d"
  shows "\<exists>d'. rounds (length ps) d = Returns d' \<and> sniffed d' = sniffed d @ map snd hfs \<and>
    tuya_adapter_wifi_sniffer_set a junk False cb d' = Blocks"
  using assms
proof (induction hfs ps arbitrary: d rule: list_all2_induct)
  case Nil
  then have "sniff_join (d\<lparr>enable_sniffer := False\<rparr>) = Blocks" by (simp add: sniff_join_def sniff_round_def)
  with Nil show ?case by (simp add: tuya_adapter_wifi_sniffer_set_def)
next
  case (Cons hf hfs p ps)
  obtain h f where hf: "hf = (h, f)" by fastforce
  let ?d = "d\<lparr>tuya_air := map Some ps, rev_buffer := p @ drop (length p) (rev_buffer d), sniffed := sniffed d @ [f]\<rparr>"
  have "sniff_step d = Returns ?d" using Cons.hyps(1) Cons.prems hf by (intro tapped_round[of h]) auto
  moreover have "\<exists>d'. rounds (length ps) ?d = Returns d' \<and> sniffed d' = sniffed ?d @ map snd hfs \<and>
    tuya_adapter_wifi_sniffer_set a junk False cb d' = Blocks"
    using Cons.prems by (intro Cons.IH) auto
  ultimately show ?case using hf by simp
qed
section \<open>Examples\<close>

theorem escaped_name_read_witness:
  "tuya_adapter_wifi_get_ssid (plain_api\<lparr>api_get_info := \<lambda>i s. Some (0, i\<lparr>info_ssid := escaped ''ab''\<rparr>, s)\<rparr>) ''old name'' (tuya_wifi_static [] ()) =
    Some (0, ''ab'' @ CHR 0x00 # '' name'', tuya_wifi_static [] ())"
  using escaped_name_read[of "plain_api\<lparr>api_get_info := \<lambda>i s. Some (0, i\<lparr>info_ssid := escaped ''ab''\<rparr>, s)\<rparr>" "tuya_wifi_static [] ()"
      "no_info\<lparr>info_ssid := escaped ''ab''\<rparr>" "()" "''ab''" "''old name''"]
  by (simp add: plain_api_def tuya_wifi_static_def)

text \<open>A kernel without a connection, and a manager whose state is what it was asked.\<close>

definition lonely_api :: "wifi_sta_cn_para list wifi_api" where
  "lonely_api = plain_api\<lparr>api_connect := \<lambda>p s. Some (0, s @ [p]), sys_popen := \<lambda>_. Pair (Some ''Not connected.'')\<rparr>"

definition lonely :: "wifi_sta_cn_para list tuya_wifi" where
  "lonely = (tuya_wifi_static [] [])\<lparr>saved_ssid := strncpy [] ''home'' 128, saved_passwd := strncpy [] ''secret'' 128\<rparr>"

lemma lonely_offline: "offline lonely_api (\<lambda>s. s)"
proof -
  have "fgets_lines 256 ''Not connected.'' = [''Not connected.'']" by (simp add: fgets_lines.simps fgets_def)
  moreover have "\<not> link_line ''Not connected.''" by (simp add: link_line_def strstr.simps starts_def)
  ultimately have "\<not> list_ex link_line (fgets_lines 256 ''Not connected.'')" by simp
  then show ?thesis by (simp add: offline_def lonely_api_def plain_api_def)
qed

lemma lonely_saved: "saved ''home'' ''secret'' lonely" "idle_count lonely = 0" "tsys lonely = []"
  by (simp_all add: saved_def lonely_def tuya_wifi_static_def c_str_strncpy)

theorem lost_station_comes_back_witness:
  "\<exists>d. polls lonely_api \<lparr>nw_ip = [], nw_mask = [], nw_gw = []\<rparr> 50 lonely = Some d \<and> idle_count d = 8 \<and>
    tsys d = [saved_para ''home'' ''secret'', saved_para ''home'' ''secret'']"
  using lost_station_comes_back[OF lonely_offline lonely_saved(1) _ _ _ _ lonely_saved(2), of "\<lparr>nw_ip = [], nw_mask = [], nw_gw = []\<rparr>" 50] lonely_saved(3)
  by (simp add: numeral_2_eq_2)

theorem strength_in_percent_witness:
  "\<exists>v d. tuya_adapter_wifi_station_get_conn_ap_rssi plain_api (Some 7) (tuya_wifi_static [] ()) = Some (0, Some v, d) \<and> 0 \<le> v \<and> v \<le> 100"
proof -
  have "tuya_adapter_wifi_station_get_conn_ap_rssi plain_api (Some 7) (tuya_wifi_static [] ()) = Some (0, Some 0, tuya_wifi_static [] ())"
    by (simp add: tuya_adapter_wifi_station_get_conn_ap_rssi_def tsys_run_def plain_api_def tuya_wifi_static_def fgets_lines.simps)
  with strength_in_percent[OF this] show ?thesis by auto
qed

theorem sniffer_hands_on_witness:
  "\<exists>d. rounds 1 ((tuya_wifi_static [Some [0, 0, 8, 0, 0, 0, 0, 0, 64, 1]] ())\<lparr>sniffer_thread := True, sniffer_id := True, sniffer_call := True, enable_sniffer := True\<rparr>) = Returns d \<and>
    sniffed d = [[64, 1]] \<and> tuya_adapter_wifi_sniffer_set plain_api [] False True d = Blocks"
proof -
  have t: "list_all2 (\<lambda>(h, f) p. tapped h f p) [([0, 0, 8, 0, 0, 0, 0, 0], [64, 1])] [[0, 0, 8, 0, 0, 0, 0, 0, 64, 1]]"
    by (simp add: tapped_def it_len_def)
  show ?thesis
    using sniffer_hands_on[OF t, of "(tuya_wifi_static [Some [0, 0, 8, 0, 0, 0, 0, 0, 64, 1]] ())\<lparr>sniffer_thread := True,
        sniffer_id := True, sniffer_call := True, enable_sniffer := True\<rparr>" plain_api "[]" True]
    by (simp add: tuya_wifi_static_def)
qed

end
