(* ===== verification/Gatt_Db.thy ===== *)
theory Gatt_Db
  imports Wmg_Prelude
begin

text \<open>
  The attribute database of BlueZ, \<open>bluez/libshared/gatt-db.c\<close>, as far as the Bluetooth adapter uses it:
  adding services, characteristics and descriptors, finding an attribute, and reading and writing
  one. A handler is a name of type \<open>'f\<close>; calling it is left to the user of the database.

  UUIDs are the 16-bit ones. Memory does not run out (the allocation ends the program when it does).
  A pointer to an attribute is the first handle of its service with the index in it.
\<close>

section \<open>State\<close>

abbreviation "GATT_PRIM_SVC_UUID \<equiv> 0x2800 :: 16 word"
abbreviation "GATT_SND_SVC_UUID \<equiv> 0x2801 :: 16 word"
abbreviation "GATT_CHARAC_UUID \<equiv> 0x2803 :: 16 word"
abbreviation "BT_ATT_PERM_READ \<equiv> 1 :: nat"
abbreviation "BT_ATT_PERM_WRITE \<equiv> 2 :: nat"
abbreviation "BT_ATT_PERM_NONE \<equiv> 0x80 :: nat"
abbreviation "BT_ATT_ERROR_INVALID_OFFSET \<equiv> 7 :: nat"
abbreviation "UINT16_MAX \<equiv> 65535 :: nat"

text \<open>The pending operations are the numbers of those that wait for a result.\<close>

record 'f attribute =
  at_handle :: "16 word"
  at_uuid :: "16 word"
  at_perm :: nat
  at_value :: "byte list"
  read_func :: "'f option"
  write_func :: "'f option"
  read_id :: "32 word"
  pending_reads :: "32 word list"
  write_id :: "32 word"
  pending_writes :: "32 word list"

record 'f service =
  sv_active :: bool
  num_handles :: "16 word"
  attributes :: "'f attribute option list"

record 'f gatt_db =
  next_handle :: "16 word"
  services :: "'f service list"

type_synonym attr_ptr = "16 word \<times> nat"

definition gatt_db_new :: "'f gatt_db" where
  "gatt_db_new = \<lparr>next_handle = 1, services = []\<rparr>"

definition new_attribute :: "16 word \<Rightarrow> 16 word \<Rightarrow> byte list \<Rightarrow> nat \<Rightarrow> 'f option \<Rightarrow> 'f option \<Rightarrow> 'f attribute" where
  "new_attribute handle type val perm rd wr = \<lparr>at_handle = handle, at_uuid = type, at_perm = perm, at_value = val, read_func = rd,
     write_func = wr, read_id = 0, pending_reads = [], write_id = 0, pending_writes = []\<rparr>"

definition put_le16 :: "16 word \<Rightarrow> byte list" where
  "put_le16 v = [ucast v, ucast (drop_bit 8 v)]"

definition get_le16 :: "byte list \<Rightarrow> 16 word" where
  "get_le16 bs = ucast (bs ! 0) OR push_bit 8 (ucast (bs ! 1))"

section \<open>Services\<close>

definition service_start :: "'f service \<Rightarrow> 16 word" where
  "service_start sv = (case attributes sv of Some a # _ \<Rightarrow> at_handle a | _ \<Rightarrow> 0)"

definition service_end :: "'f service \<Rightarrow> 16 word" where
  "service_end sv = service_start sv + num_handles sv - 1"

text \<open>The service that is in the way, if any, and the number of services that were passed.\<close>

fun find_insert_loc :: "16 word \<Rightarrow> 16 word \<Rightarrow> 'f service list \<Rightarrow> nat \<Rightarrow> 'f service option \<times> nat" where
  "find_insert_loc s e [] n = (None, n)"
| "find_insert_loc s e (sv # svs) n =
     (if service_start sv \<le> s \<and> s \<le> service_end sv then (Some sv, n)
      else if service_start sv \<le> e \<and> e \<le> service_end sv then (Some sv, n)
      else if e < service_start sv then (None, n)
      else find_insert_loc s e svs (Suc n))"

definition gatt_db_service_create :: "16 word \<Rightarrow> 16 word \<Rightarrow> bool \<Rightarrow> 16 word \<Rightarrow> 'f service" where
  "gatt_db_service_create uuid handle prim num = \<lparr>sv_active = False, num_handles = num,
     attributes = Some (new_attribute handle (if prim then GATT_PRIM_SVC_UUID else GATT_SND_SVC_UUID) (put_le16 uuid) BT_ATT_PERM_READ None None)
       # replicate (unat num - 1) None\<rparr>"

text \<open>The test whether the service that is in the way is the one that is asked for.\<close>

definition same_service :: "16 word \<Rightarrow> 16 word \<Rightarrow> bool \<Rightarrow> 16 word \<Rightarrow> 'f service \<Rightarrow> bool" where
  "same_service handle uuid prim num sv \<longleftrightarrow>
     (case attributes sv of
        Some a # _ \<Rightarrow> at_uuid a = (if prim then GATT_PRIM_SVC_UUID else GATT_SND_SVC_UUID) \<and> length (at_value a) = 2 \<and>
          get_le16 (at_value a) = uuid \<and> num_handles sv = num \<and> at_handle a = handle
      | _ \<Rightarrow> False)"

text \<open>The first attribute of the service, or NULL; the sum for the next handle is cut to 16 bits.\<close>

definition gatt_db_insert_service :: "16 word \<Rightarrow> 16 word \<Rightarrow> bool \<Rightarrow> 16 word \<Rightarrow> 'f gatt_db \<Rightarrow> attr_ptr option \<times> 'f gatt_db" where
  "gatt_db_insert_service handle uuid prim num db =
     (if handle < 1 \<or> num < 1 \<or> UINT16_MAX < unat handle + unat num - 1 then (None, db)
      else
        (case find_insert_loc handle (handle + num - 1) (services db) 0 of
           (Some sv, _) \<Rightarrow> (if same_service handle uuid prim num sv then Some (handle, 0) else None, db)
         | (None, n) \<Rightarrow>
             (Some (handle, 0), db\<lparr>services := take n (services db) @ gatt_db_service_create uuid handle prim num # drop n (services db),
                next_handle := of_nat (max (unat handle + unat num) (unat (next_handle db)))\<rparr>)))"

definition gatt_db_add_service :: "16 word \<Rightarrow> bool \<Rightarrow> 16 word \<Rightarrow> 'f gatt_db \<Rightarrow> attr_ptr option \<times> 'f gatt_db" where
  "gatt_db_add_service uuid prim num db = gatt_db_insert_service (next_handle db) uuid prim num db"

text \<open>An operation on the service of a pointer; \<open>None\<close>: the service is gone.\<close>

definition at_service :: "16 word \<Rightarrow> ('f service \<Rightarrow> 'a \<times> 'f service) \<Rightarrow> 'f gatt_db \<Rightarrow> ('a \<times> 'f gatt_db) option" where
  "at_service s f db =
     (case List.extract (\<lambda>sv. service_start sv = s) (services db) of
        None \<Rightarrow> None
      | Some (pre, sv, post) \<Rightarrow> let (x, sv) = f sv in Some (x, db\<lparr>services := pre @ sv # post\<rparr>))"

section \<open>Characteristics and descriptors\<close>

text \<open>The first free place, as long as \<open>off\<close> more are left behind it; 0 when there is none.\<close>

definition get_attribute_index :: "'f service \<Rightarrow> nat \<Rightarrow> nat" where
  "get_attribute_index sv off =
     (let n = unat (num_handles sv) - off; i = length (takeWhile (\<lambda>a. a \<noteq> None) (take n (attributes sv)))
      in if i = n then 0 else i)"

definition get_handle_at_index :: "'f service \<Rightarrow> nat \<Rightarrow> 16 word" where
  "get_handle_at_index sv i = (case attributes sv ! i of Some a \<Rightarrow> at_handle a | None \<Rightarrow> 0)"

text \<open>The index of the value's attribute, or NULL.\<close>

definition service_insert_characteristic ::
    "16 word \<Rightarrow> 16 word \<Rightarrow> nat \<Rightarrow> byte \<Rightarrow> 'f option \<Rightarrow> 'f option \<Rightarrow> 'f service \<Rightarrow> nat option \<times> 'f service" where
  "service_insert_characteristic handle uuid perm props rd wr sv =
     (if handle \<noteq> 0 \<and> handle \<le> service_start sv then (None, sv)
      else if handle = 0xFFFF then (None, sv)
      else
        let i = get_attribute_index sv 1
        in if i = 0 then (None, sv)
           else
             let handle = (if handle = 0 then get_handle_at_index sv (i - 1) + 2 else handle);
                 decl = new_attribute (handle - 1) GATT_CHARAC_UUID (props # put_le16 handle @ put_le16 uuid) BT_ATT_PERM_READ None None;
                 val = new_attribute handle uuid [] perm rd wr
             in (Some (Suc i), sv\<lparr>attributes := (attributes sv)[i := Some decl, Suc i := Some val]\<rparr>))"

definition service_insert_descriptor :: "16 word \<Rightarrow> 16 word \<Rightarrow> nat \<Rightarrow> 'f option \<Rightarrow> 'f option \<Rightarrow> 'f service \<Rightarrow> nat option \<times> 'f service" where
  "service_insert_descriptor handle uuid perm rd wr sv =
     (let i = get_attribute_index sv 0
      in if i = 0 then (None, sv)
         else if handle \<noteq> 0 \<and> handle \<le> service_start sv then (None, sv)
         else
           let handle = (if handle = 0 then get_handle_at_index sv (i - 1) + 1 else handle)
           in (Some i, sv\<lparr>attributes := (attributes sv)[i := Some (new_attribute handle uuid [] perm rd wr)]\<rparr>))"

definition gatt_db_service_add_characteristic ::
    "attr_ptr option \<Rightarrow> 16 word \<Rightarrow> nat \<Rightarrow> byte \<Rightarrow> 'f option \<Rightarrow> 'f option \<Rightarrow> 'f gatt_db \<Rightarrow> (attr_ptr option \<times> 'f gatt_db) option" where
  "gatt_db_service_add_characteristic p uuid perm props rd wr db =
     (case p of
        None \<Rightarrow> Some (None, db)
      | Some (s, _) \<Rightarrow> map_option (\<lambda>(i, db). (map_option (Pair s) i, db)) (at_service s (service_insert_characteristic 0 uuid perm props rd wr) db))"

definition gatt_db_service_add_descriptor ::
    "attr_ptr option \<Rightarrow> 16 word \<Rightarrow> nat \<Rightarrow> 'f option \<Rightarrow> 'f option \<Rightarrow> 'f gatt_db \<Rightarrow> (attr_ptr option \<times> 'f gatt_db) option" where
  "gatt_db_service_add_descriptor p uuid perm rd wr db =
     (case p of
        None \<Rightarrow> Some (None, db)
      | Some (s, _) \<Rightarrow> map_option (\<lambda>(i, db). (map_option (Pair s) i, db)) (at_service s (service_insert_descriptor 0 uuid perm rd wr) db))"

text \<open>Nobody here asks to be told of services that come and go.\<close>

definition gatt_db_service_set_active :: "attr_ptr option \<Rightarrow> bool \<Rightarrow> 'f gatt_db \<Rightarrow> (bool \<times> 'f gatt_db) option" where
  "gatt_db_service_set_active p active db =
     (case p of
        None \<Rightarrow> Some (False, db)
      | Some (s, _) \<Rightarrow> at_service s (\<lambda>sv. (True, sv\<lparr>sv_active := active\<rparr>)) db)"

section \<open>Attributes\<close>

text \<open>The attribute a pointer points to, and an operation on it.\<close>

definition attr_at :: "attr_ptr \<Rightarrow> 'f gatt_db \<Rightarrow> 'f attribute option" where
  "attr_at p db =
     (case List.find (\<lambda>sv. service_start sv = fst p) (services db) of
        None \<Rightarrow> None
      | Some sv \<Rightarrow> if snd p < length (attributes sv) then attributes sv ! snd p else None)"

definition upd_attr :: "attr_ptr \<Rightarrow> ('f attribute \<Rightarrow> 'f attribute) \<Rightarrow> 'f gatt_db \<Rightarrow> 'f gatt_db" where
  "upd_attr p f db = db\<lparr>services := map (\<lambda>sv. if service_start sv = fst p
     then sv\<lparr>attributes := (attributes sv)[snd p := map_option f (attributes sv ! snd p)]\<rparr> else sv) (services db)\<rparr>"

definition gatt_db_attribute_get_handle :: "attr_ptr option \<Rightarrow> 'f gatt_db \<Rightarrow> 16 word option" where
  "gatt_db_attribute_get_handle p db = (case p of None \<Rightarrow> Some 0 | Some p \<Rightarrow> map_option at_handle (attr_at p db))"

definition gatt_db_get_service :: "16 word \<Rightarrow> 'f gatt_db \<Rightarrow> attr_ptr option" where
  "gatt_db_get_service h db =
     (if h = 0 then None
      else map_option (\<lambda>sv. (service_start sv, 0)) (List.find (\<lambda>sv. service_start sv \<le> h \<and> h \<le> service_end sv) (services db)))"

fun index_of_handle :: "16 word \<Rightarrow> 'f attribute option list \<Rightarrow> nat \<Rightarrow> nat option" where
  "index_of_handle h [] i = None"
| "index_of_handle h (None # as) i = index_of_handle h as (Suc i)"
| "index_of_handle h (Some a # as) i = (if at_handle a = h then Some i else index_of_handle h as (Suc i))"

definition gatt_db_get_attribute :: "16 word \<Rightarrow> 'f gatt_db \<Rightarrow> attr_ptr option" where
  "gatt_db_get_attribute h db =
     (case gatt_db_get_service h db of
        None \<Rightarrow> None
      | Some (s, _) \<Rightarrow>
          (case List.find (\<lambda>sv. service_start sv = s) (services db) of
             None \<Rightarrow> None
           | Some sv \<Rightarrow> map_option (Pair s) (index_of_handle h (attributes sv) 0)))"

text \<open>
  What a request to read or write does: it is refused, the handler is to be called with the number of the
  operation, or the answer is there at once, with an error number and a value.
\<close>

datatype 'f request = Refused | Call 'f "32 word" | Answer nat "byte list"

definition gatt_db_attribute_read :: "attr_ptr option \<Rightarrow> nat \<Rightarrow> 'f gatt_db \<Rightarrow> ('f request \<times> 'f gatt_db) option" where
  "gatt_db_attribute_read p off db =
     (case p of
        None \<Rightarrow> Some (Refused, db)
      | Some p \<Rightarrow>
          do {
            a \<leftarrow> attr_at p db;
            case read_func a of
              Some f \<Rightarrow> Some (Call f (read_id a + 1), upd_attr p (\<lambda>a. a\<lparr>read_id := read_id a + 1, pending_reads := pending_reads a @ [read_id a + 1]\<rparr>) db)
            | None \<Rightarrow>
                if length (at_value a) < off then Some (Answer BT_ATT_ERROR_INVALID_OFFSET [], db)
                else Some (Answer 0 (drop off (at_value a)), db)
          })"

text \<open>Between the end of a value and an offset behind it the bytes are undefined.\<close>

definition gatt_db_attribute_write :: "attr_ptr option \<Rightarrow> nat \<Rightarrow> byte list \<Rightarrow> 'f gatt_db \<Rightarrow> ('f request \<times> 'f gatt_db) option" where
  "gatt_db_attribute_write p off val db =
     (case p of
        None \<Rightarrow> Some (Refused, db)
      | Some p \<Rightarrow>
          do {
            a \<leftarrow> attr_at p db;
            case write_func a of
              Some f \<Rightarrow> Some (Call f (write_id a + 1), upd_attr p (\<lambda>a. a\<lparr>write_id := write_id a + 1, pending_writes := pending_writes a @ [write_id a + 1]\<rparr>) db)
            | None \<Rightarrow>
                let old = (if at_value a = [] then replicate off 0 else at_value a)
                in if val = [] then Some (Answer 0 [], db)
                   else if length old < off then None
                   else Some (Answer 0 [], upd_attr p (\<lambda>a. a\<lparr>at_value := take off old @ val @ drop (off + length val) old\<rparr>) db)
          })"

text \<open>A result for an operation that does not wait is refused.\<close>

definition gatt_db_attribute_read_result :: "attr_ptr option \<Rightarrow> 32 word \<Rightarrow> 'f gatt_db \<Rightarrow> (bool \<times> 'f gatt_db) option" where
  "gatt_db_attribute_read_result p i db =
     (case p of
        None \<Rightarrow> Some (False, db)
      | Some p \<Rightarrow>
          if i = 0 then Some (False, db)
          else map_option (\<lambda>a. if i \<in> set (pending_reads a) then (True, upd_attr p (\<lambda>a. a\<lparr>pending_reads := remove1 i (pending_reads a)\<rparr>) db)
            else (False, db)) (attr_at p db))"

definition gatt_db_attribute_write_result :: "attr_ptr option \<Rightarrow> 32 word \<Rightarrow> 'f gatt_db \<Rightarrow> (bool \<times> 'f gatt_db) option" where
  "gatt_db_attribute_write_result p i db =
     (case p of
        None \<Rightarrow> Some (False, db)
      | Some p \<Rightarrow>
          if i = 0 then Some (False, db)
          else map_option (\<lambda>a. if i \<in> set (pending_writes a) then (True, upd_attr p (\<lambda>a. a\<lparr>pending_writes := remove1 i (pending_writes a)\<rparr>) db)
            else (False, db)) (attr_at p db))"

end
