(* ===== verification/Gatt_Layout.thy ===== *)
theory Gatt_Layout
  imports Gatt_Db
begin

text \<open>
  The order of the attribute database: the services lie one behind the other, each is filled from its front
  with attributes whose handles follow one another, and the next handle lies behind all of them.
  Every operation keeps this order, and in it a handle leads to the one attribute that has it.
\<close>

section \<open>The order\<close>

abbreviation start :: "'f service \<Rightarrow> nat" where
  "start sv \<equiv> unat (service_start sv)"

abbreviation places :: "'f service \<Rightarrow> nat" where
  "places sv \<equiv> unat (num_handles sv)"

text \<open>The attributes of a service and the number of its free places.\<close>

definition holds :: "'f attribute list \<Rightarrow> nat \<Rightarrow> 'f service \<Rightarrow> bool" where
  "holds as k sv \<longleftrightarrow> attributes sv = map Some as @ replicate k None \<and> as \<noteq> [] \<and> length as + k = places sv \<and>
     0 < start sv \<and> start sv + places sv \<le> 65536 \<and> (\<forall>i<length as. unat (at_handle (as ! i)) = start sv + i)"

definition svc_ok :: "'f service \<Rightarrow> bool" where
  "svc_ok sv \<longleftrightarrow> (\<exists>as k. holds as k sv)"

definition db_ok :: "'f gatt_db \<Rightarrow> bool" where
  "db_ok db \<longleftrightarrow> (\<forall>sv \<in> set (services db). svc_ok sv) \<and> sorted_wrt (\<lambda>a b. start a + places a \<le> start b) (services db) \<and>
     (next_handle db = 0 \<or> (\<forall>sv \<in> set (services db). start sv + places sv \<le> unat (next_handle db)))"

lemma db_ok_new: "db_ok gatt_db_new"
  by (simp add: db_ok_def gatt_db_new_def)

lemma holds_start: "holds as k sv \<Longrightarrow> service_start sv = at_handle (hd as)"
  by (cases as) (auto simp: holds_def service_start_def)

lemma svc_ok_bounds:
  assumes "svc_ok sv"
  shows "0 < start sv" "start sv + places sv \<le> 65536" "0 < places sv" "unat (service_end sv) + 1 = start sv + places sv"
proof -
  obtain as k where h: "holds as k sv" using assms by (auto simp: svc_ok_def)
  then show b: "0 < start sv" "start sv + places sv \<le> 65536" "0 < places sv" by (cases as; auto simp: holds_def)+
  have "service_end sv = of_nat (start sv + places sv - 1)" using b(3) by (simp add: service_end_def of_nat_diff)
  then have "unat (service_end sv) = (start sv + places sv - 1) mod 2 ^ LENGTH(16)" by (simp only: unat_of_nat)
  also have "\<dots> = start sv + places sv - 1" using b by (intro mod_less) simp
  finally show "unat (service_end sv) + 1 = start sv + places sv" using b by simp
qed

lemma index_free:
  assumes "holds as k sv"
  shows "get_attribute_index sv off = (if off < k then length as else 0)"
proof -
  have a: "attributes sv = map Some as @ replicate k None" "places sv = length as + k" using assms by (simp_all add: holds_def)
  have t: "takeWhile (\<lambda>a. a \<noteq> None) (map Some as @ xs) = map Some as @ takeWhile (\<lambda>a. a \<noteq> None) xs" for xs
    by (rule takeWhile_append2) auto
  have u: "takeWhile (\<lambda>a. a \<noteq> None) (replicate n (None :: 'a attribute option)) = []" for n by (cases n) auto
  have v: "takeWhile (\<lambda>a. a \<noteq> None) (map Some xs) = map Some xs" for xs :: "'a attribute list"
    by (simp add: takeWhile_eq_all_conv)
  show ?thesis
  proof (cases "off \<le> k")
    case True
    then have "take (length as + k - off) (attributes sv) = map Some as @ replicate (k - off) None" by (simp add: a(1))
    then show ?thesis using True assms unfolding get_attribute_index_def Let_def a(2) by (simp only: t u) (auto simp: holds_def)
  next
    case False
    then have "take (length as + k - off) (attributes sv) = map Some (take (length as + k - off) as)" by (simp add: a(1) take_map)
    then show ?thesis using False unfolding get_attribute_index_def Let_def a(2) by (simp only: v) simp
  qed
qed

lemma handle_before:
  assumes "holds as k sv"
  shows "get_handle_at_index sv (length as - 1) = at_handle (last as)" "unat (at_handle (last as)) = start sv + length as - 1"
proof -
  have "as \<noteq> []" using assms by (simp add: holds_def)
  then show "get_handle_at_index sv (length as - 1) = at_handle (last as)"
    using assms by (auto simp: holds_def get_handle_at_index_def nth_append last_conv_nth)
  show "unat (at_handle (last as)) = start sv + length as - 1"
    using assms \<open>as \<noteq> []\<close> by (cases "length as") (auto simp: holds_def last_conv_nth)
qed

section \<open>Filling a service\<close>

lemma unat_step: "unat (w :: 16 word) + n < 65536 \<Longrightarrow> unat (w + of_nat n) = unat w + n"
  by (simp add: unat_word_ariths unat_of_nat)

lemma holds_update:
  assumes "holds as k sv" "bs \<noteq> []" "length bs \<le> k" "\<forall>i<length bs. unat (at_handle (bs ! i)) = start sv + length as + i"
    and "attributes sv' = map Some (as @ bs) @ replicate (k - length bs) None" "num_handles sv' = num_handles sv"
  shows "holds (as @ bs) (k - length bs) sv' \<and> service_start sv' = service_start sv"
proof -
  have "as \<noteq> []" using assms(1) by (simp add: holds_def)
  then have s: "service_start sv' = service_start sv"
    using assms(5) holds_start[OF assms(1)] by (cases as) (auto simp: service_start_def)
  then show ?thesis using assms by (auto simp: holds_def nth_append)
qed

text \<open>A characteristic takes two places and a descriptor one, and their handles go on after the last one.\<close>

lemma insert_characteristic:
  assumes "holds as k sv"
  shows "service_insert_characteristic 0 uuid perm props rd wr sv =
    (if 1 < k then
       (Some (Suc (length as)), sv\<lparr>attributes := map Some (as @ [new_attribute (at_handle (last as) + 1) GATT_CHARAC_UUID
            (props # put_le16 (at_handle (last as) + 2) @ put_le16 uuid) BT_ATT_PERM_READ None None,
          new_attribute (at_handle (last as) + 2) uuid [] perm rd wr]) @ replicate (k - 2) None\<rparr>)
     else (None, sv))"
proof (cases "1 < k")
  case True
  then have j: "k = Suc (Suc (k - 2))" by simp
  have "as \<noteq> []" and a: "attributes sv = map Some as @ None # None # replicate (k - 2) None" using assms j by (simp_all add: holds_def flip: replicate_Suc)
  have i: "get_attribute_index sv 1 = length as" "length as \<noteq> 0" using True index_free[OF assms, of 1] \<open>as \<noteq> []\<close> by simp_all
  have u: "(attributes sv)[length as := x, Suc (length as) := y] = map Some as @ x # y # replicate (k - 2) None" for x y
    unfolding a by (simp add: list_update_append)
  have z: "(0 :: 16 word) \<noteq> 0xFFFF" by simp
  have "service_insert_characteristic 0 uuid perm props rd wr sv =
    (let handle = at_handle (last as) + 2
     in (Some (Suc (length as)), sv\<lparr>attributes := (attributes sv)[length as := Some (new_attribute (handle - 1) GATT_CHARAC_UUID
         (props # put_le16 handle @ put_le16 uuid) BT_ATT_PERM_READ None None), Suc (length as) := Some (new_attribute handle uuid [] perm rd wr)]\<rparr>))"
    unfolding service_insert_characteristic_def Let_def i(1) handle_before(1)[OF assms] using i(2) z by (simp only: simp_thms if_False if_True)
  then show ?thesis using True by (simp add: u Let_def add.commute[of 1])
next
  case False
  then show ?thesis using index_free[OF assms, of 1] by (simp add: service_insert_characteristic_def)
qed

lemma insert_descriptor:
  assumes "holds as k sv"
  shows "service_insert_descriptor 0 uuid perm rd wr sv =
    (if 0 < k then (Some (length as), sv\<lparr>attributes := map Some (as @ [new_attribute (at_handle (last as) + 1) uuid [] perm rd wr]) @ replicate (k - 1) None\<rparr>)
     else (None, sv))"
proof (cases k)
  case 0
  then show ?thesis using index_free[OF assms, of 0] by (simp add: service_insert_descriptor_def)
next
  case (Suc j)
  have "as \<noteq> []" and a: "attributes sv = map Some as @ replicate k None" using assms by (simp_all add: holds_def)
  then show ?thesis
    using Suc index_free[OF assms, of 0] handle_before(1)[OF assms]
    by (simp add: service_insert_descriptor_def Let_def list_update_append)
qed

lemma characteristic_holds:
  assumes "holds as k sv" "service_insert_characteristic 0 uuid perm props rd wr sv = (r, sv')"
  shows "svc_ok sv' \<and> service_start sv' = service_start sv \<and> num_handles sv' = num_handles sv"
proof (cases "1 < k")
  case True
  let ?bs = "[new_attribute (at_handle (last as) + 1) GATT_CHARAC_UUID (props # put_le16 (at_handle (last as) + 2) @ put_le16 uuid) BT_ATT_PERM_READ None None,
          new_attribute (at_handle (last as) + 2) uuid [] perm rd wr]"
  have l: "unat (at_handle (last as)) = start sv + length as - 1" "start sv + length as + k \<le> 65536" "0 < length as"
    using handle_before(2)[OF assms(1)] assms(1) by (auto simp: holds_def)
  have "unat (at_handle (last as) + 1) = start sv + length as" "unat (at_handle (last as) + 2) = start sv + length as + 1"
    using l True unat_step[of "at_handle (last as)" 1] unat_step[of "at_handle (last as)" 2] by simp_all
  then have "\<forall>i<length ?bs. unat (at_handle (?bs ! i)) = start sv + length as + i"
    by (auto simp: new_attribute_def less_Suc_eq)
  moreover have "attributes sv' = map Some (as @ ?bs) @ replicate (k - length ?bs) None" "num_handles sv' = num_handles sv"
    using assms(2) True by (auto simp: insert_characteristic[OF assms(1)] numeral_2_eq_2)
  ultimately show ?thesis
    using holds_update[OF assms(1), of ?bs sv'] True unfolding svc_ok_def by (metis Suc_leI length_Cons list.distinct(1) list.size(3) One_nat_def)
next
  case False
  then show ?thesis using assms by (auto simp: insert_characteristic[OF assms(1)] svc_ok_def)
qed

lemma descriptor_holds:
  assumes "holds as k sv" "service_insert_descriptor 0 uuid perm rd wr sv = (r, sv')"
  shows "svc_ok sv' \<and> service_start sv' = service_start sv \<and> num_handles sv' = num_handles sv"
proof (cases "0 < k")
  case True
  let ?bs = "[new_attribute (at_handle (last as) + 1) uuid [] perm rd wr]"
  have l: "unat (at_handle (last as)) = start sv + length as - 1" "start sv + length as + k \<le> 65536" "0 < length as"
    using handle_before(2)[OF assms(1)] assms(1) by (auto simp: holds_def)
  have "unat (at_handle (last as) + 1) = start sv + length as"
    using l True unat_step[of "at_handle (last as)" 1] by simp
  then have "\<forall>i<length ?bs. unat (at_handle (?bs ! i)) = start sv + length as + i" by (simp add: new_attribute_def)
  moreover have "attributes sv' = map Some (as @ ?bs) @ replicate (k - length ?bs) None" "num_handles sv' = num_handles sv"
    using assms(2) True by (auto simp: insert_descriptor[OF assms(1)])
  ultimately show ?thesis
    using holds_update[OF assms(1), of ?bs sv'] True unfolding svc_ok_def by (metis Suc_leI length_Cons list.distinct(1) list.size(3) One_nat_def)
next
  case False
  then show ?thesis using assms by (auto simp: insert_descriptor[OF assms(1)] svc_ok_def)
qed
section \<open>The database\<close>

lemma find_insert_loc_end:
  assumes "\<forall>sv \<in> set svs. svc_ok sv \<and> start sv + places sv \<le> unat s" "s \<le> e"
  shows "find_insert_loc s e svs n = (None, n + length svs)"
  using assms(1)
proof (induction svs arbitrary: n)
  case (Cons sv svs)
  have b: "start sv + places sv \<le> unat s" "unat (service_end sv) + 1 = start sv + places sv" "0 < places sv"
    using Cons.prems svc_ok_bounds[of sv] by auto
  have "unat s \<le> unat e" using assms(2) by (simp add: word_le_nat_alt)
  then have "\<not> s \<le> service_end sv" "\<not> e \<le> service_end sv" "\<not> e < service_start sv"
    using b by (simp_all add: word_le_nat_alt word_less_nat_alt)
  then show ?case using Cons by simp
qed simp

lemma created_ok:
  assumes "h \<noteq> 0" "num \<noteq> 0" "unat h + unat num \<le> 65536"
  shows "svc_ok (gatt_db_service_create uuid h prim num)" "service_start (gatt_db_service_create uuid h prim num) = h"
    "num_handles (gatt_db_service_create uuid h prim num) = num"
proof -
  let ?sv = "gatt_db_service_create uuid h prim num"
  let ?a = "new_attribute h (if prim then GATT_PRIM_SVC_UUID else GATT_SND_SVC_UUID) (put_le16 uuid) BT_ATT_PERM_READ None None"
  show s: "service_start ?sv = h" "num_handles ?sv = num"
    by (simp_all add: gatt_db_service_create_def service_start_def new_attribute_def)
  have "0 < unat h" "0 < unat num" using assms(1,2) by (simp_all add: unat_gt_0)
  then have "holds [?a] (unat num - 1) ?sv"
    using assms(3) by (simp add: holds_def gatt_db_service_create_def new_attribute_def service_start_def)
  then show "svc_ok ?sv" by (auto simp: svc_ok_def)
qed

text \<open>The database after a service was put at its end.\<close>

definition with_service :: "bool \<Rightarrow> 16 word \<Rightarrow> 16 word \<Rightarrow> 'f gatt_db \<Rightarrow> 'f gatt_db" where
  "with_service prim uuid num db = db\<lparr>services := services db @ [gatt_db_service_create uuid (next_handle db) prim num],
     next_handle := next_handle db + num\<rparr>"

lemma with_service_ok:
  fixes db :: "'f gatt_db"
  assumes "db_ok db" "next_handle db \<noteq> 0" "num \<noteq> 0" "unat (next_handle db) + unat num \<le> 65536"
  shows "db_ok (with_service prim uuid num db)"
proof -
  let ?sv = "gatt_db_service_create uuid (next_handle db) prim num :: 'f service"
  have c: "svc_ok ?sv" "service_start ?sv = next_handle db" "num_handles ?sv = num" using created_ok assms(2-4) by blast+
  have below: "\<forall>sv \<in> set (services db). start sv + places sv \<le> unat (next_handle db)" using assms(1,2) by (auto simp: db_ok_def)
  have n: "next_handle db + num = 0 \<or> unat (next_handle db + num) = unat (next_handle db) + unat num"
  proof (cases "unat (next_handle db) + unat num = 65536")
    case True
    then have "unat (next_handle db + num) = 0" by (simp add: unat_word_ariths)
    then show ?thesis by (simp add: unat_eq_0)
  next
    case False
    then show ?thesis using assms(4) by (simp add: unat_word_ariths)
  qed
  have "sorted_wrt (\<lambda>a b. start a + places a \<le> start b) (services db @ [?sv])"
    using assms(1) below c(2) by (simp add: db_ok_def sorted_wrt_append)
  moreover have "next_handle db + num = 0 \<or> (\<forall>sv \<in> set (services db @ [?sv]). start sv + places sv \<le> unat (next_handle db + num))"
    using n below c(2,3) by auto
  ultimately show ?thesis using assms(1) c(1) by (simp add: db_ok_def with_service_def)
qed

lemma add_service_result:
  assumes "db_ok db" "num \<noteq> 0"
  shows "gatt_db_add_service uuid prim num db =
    (if next_handle db \<noteq> 0 \<and> unat (next_handle db) + unat num \<le> 65536 then (Some (next_handle db, 0), with_service prim uuid num db) else (None, db))"
proof (cases "next_handle db \<noteq> 0 \<and> unat (next_handle db) + unat num \<le> 65536")
  case False
  then have "next_handle db < 1 \<or> UINT16_MAX < unat (next_handle db) + unat num - 1" by (auto simp: word_less_nat_alt unat_eq_0)
  then show ?thesis using False by (auto simp: gatt_db_add_service_def gatt_db_insert_service_def)
next
  case True
  have u: "0 < unat num" "0 < unat (next_handle db)" using assms(2) True by (simp_all add: unat_gt_0)
  have "next_handle db + num - 1 = of_nat (unat (next_handle db) + unat num - 1)" using u by (simp add: of_nat_diff)
  then have "unat (next_handle db + num - 1) = (unat (next_handle db) + unat num - 1) mod 2 ^ LENGTH(16)" by (simp only: unat_of_nat)
  also have "\<dots> = unat (next_handle db) + unat num - 1" using conjunct2[OF True] u by (intro mod_less) (simp add: less_eq_Suc_le)
  finally have "next_handle db \<le> next_handle db + num - 1" using u by (simp add: word_le_nat_alt)
  moreover have "\<forall>sv \<in> set (services db). svc_ok sv \<and> start sv + places sv \<le> unat (next_handle db)"
    using assms(1) True by (auto simp: db_ok_def)
  ultimately have f: "find_insert_loc (next_handle db) (next_handle db + num - 1) (services db) 0 = (None, length (services db))"
    using find_insert_loc_end by (metis add_0)
  have "max (unat (next_handle db) + unat num) (unat (next_handle db)) = unat (next_handle db) + unat num" by simp
  then show ?thesis
    using True u assms(2) by (auto simp: gatt_db_add_service_def gatt_db_insert_service_def with_service_def f word_less_nat_alt)
qed

text \<open>An operation on one service that keeps its order, its start and its size keeps the order of the database.\<close>

lemma at_service_ok:
  assumes "db_ok db" "at_service s f db = Some (x, db')"
    and "\<And>sv y sv'. svc_ok sv \<Longrightarrow> f sv = (y, sv') \<Longrightarrow> svc_ok sv' \<and> service_start sv' = service_start sv \<and> num_handles sv' = num_handles sv"
  shows "db_ok db' \<and> next_handle db' = next_handle db"
proof -
  obtain pre sv post where e: "List.extract (\<lambda>sv. service_start sv = s) (services db) = Some (pre, sv, post)"
    using assms(2) by (auto simp: at_service_def split: option.splits)
  obtain y sv' where f: "f sv = (y, sv')" by fastforce
  have d: "services db = pre @ sv # post" using e by (simp add: extract_Some_iff)
  have db': "db' = db\<lparr>services := pre @ sv' # post\<rparr>" using assms(2) e f by (simp add: at_service_def)
  have "svc_ok sv' \<and> service_start sv' = service_start sv \<and> num_handles sv' = num_handles sv"
    using assms(1) d by (intro assms(3)[OF _ f]) (simp add: db_ok_def)
  then show ?thesis using assms(1) unfolding db' by (simp add: db_ok_def d sorted_wrt_append)
qed

lemma characteristic_ok: "svc_ok sv \<Longrightarrow> service_insert_characteristic 0 uuid perm props rd wr sv = (y, sv') \<Longrightarrow>
    svc_ok sv' \<and> service_start sv' = service_start sv \<and> num_handles sv' = num_handles sv"
  using characteristic_holds unfolding svc_ok_def[of sv] by blast

lemma descriptor_ok: "svc_ok sv \<Longrightarrow> service_insert_descriptor 0 uuid perm rd wr sv = (y, sv') \<Longrightarrow>
    svc_ok sv' \<and> service_start sv' = service_start sv \<and> num_handles sv' = num_handles sv"
  using descriptor_holds unfolding svc_ok_def[of sv] by blast
section \<open>Finding an attribute\<close>

lemma sorted_wrt_either: "sorted_wrt P xs \<Longrightarrow> x \<in> set xs \<Longrightarrow> y \<in> set xs \<Longrightarrow> x = y \<or> P x y \<or> P y x"
  by (induction xs) auto

lemma find_only: "y \<in> set xs \<Longrightarrow> P y \<Longrightarrow> (\<And>x. x \<in> set xs \<Longrightarrow> P x \<Longrightarrow> x = y) \<Longrightarrow> List.find P xs = Some y"
proof (induction xs)
  case (Cons a xs)
  show ?case
  proof (cases "P a")
    case True
    then show ?thesis using Cons.prems(3)[of a] by simp
  next
    case False
    then have "y \<in> set xs" using Cons.prems(1,2) by auto
    then have "List.find P xs = Some y" using Cons.prems(2,3) by (intro Cons.IH) simp_all
    then show ?thesis using False by simp
  qed
qed simp

lemma same_range:
  assumes "db_ok db" "sv \<in> set (services db)" "sv' \<in> set (services db)"
    and "start sv \<le> h" "h < start sv + places sv" "start sv' \<le> h" "h < start sv' + places sv'"
  shows "sv = sv'"
proof -
  have "sorted_wrt (\<lambda>a b. start a + places a \<le> start b) (services db)" using assms(1) by (simp add: db_ok_def)
  from sorted_wrt_either[OF this assms(2,3)] show ?thesis using assms(4-7) by auto
qed

lemma in_range:
  assumes "svc_ok sv"
  shows "service_start sv \<le> h \<and> h \<le> service_end sv \<longleftrightarrow> start sv \<le> unat h \<and> unat h < start sv + places sv"
  using svc_ok_bounds[OF assms] by (auto simp: word_le_nat_alt)

lemma find_start:
  assumes "db_ok db" "sv \<in> set (services db)"
  shows "List.find (\<lambda>x. service_start x = service_start sv) (services db) = Some sv"
proof (rule find_only[OF assms(2)])
  fix x
  assume x: "x \<in> set (services db)" "service_start x = service_start sv"
  have "svc_ok x" "svc_ok sv" using assms x(1) by (auto simp: db_ok_def)
  then have "0 < places x" "0 < places sv" by (auto dest: svc_ok_bounds(3))
  then show "x = sv" using same_range[OF assms(1) x(1) assms(2), of "start sv"] x(2) by simp
qed simp

lemma find_handle:
  assumes "db_ok db" "sv \<in> set (services db)" "start sv \<le> unat h" "unat h < start sv + places sv"
  shows "List.find (\<lambda>x. service_start x \<le> h \<and> h \<le> service_end x) (services db) = Some sv"
proof (rule find_only[OF assms(2)])
  have ok: "\<forall>x \<in> set (services db). svc_ok x" using assms(1) by (simp add: db_ok_def)
  then show "service_start sv \<le> h \<and> h \<le> service_end sv" using in_range assms(2-4) by blast
  fix x
  assume x: "x \<in> set (services db)" "service_start x \<le> h \<and> h \<le> service_end x"
  then have "start x \<le> unat h" "unat h < start x + places x" using in_range ok by blast+
  then show "x = sv" using same_range[OF assms(1) x(1) assms(2)] assms(3,4) by blast
qed

lemma index_of_handle_filled:
  assumes "\<forall>i<length as. unat (at_handle (as ! i)) = n + i"
  shows "index_of_handle h (map Some as @ replicate k None) j =
    (if n \<le> unat h \<and> unat h < n + length as then Some (j + (unat h - n)) else None)"
  using assms
proof (induction as arbitrary: n j)
  case Nil
  have "index_of_handle h (replicate k None) j = None" by (induction k arbitrary: j) auto
  then show ?case by auto
next
  case (Cons a as)
  have a: "unat (at_handle a) = n" using Cons.prems by force
  have "\<forall>i<length as. unat (at_handle (as ! i)) = Suc n + i" using Cons.prems by force
  note ih = Cons.IH[OF this, of "Suc j"]
  have "at_handle a = h \<longleftrightarrow> unat h = n" using a by (metis word_unat_eq_iff)
  then show ?case using ih by auto
qed

lemma attr_at_service:
  assumes "db_ok db" "sv \<in> set (services db)" "holds as k sv"
  shows "attr_at (service_start sv, i) db = (if i < length as then Some (as ! i) else None)"
  using find_start[OF assms(1,2)] assms(3) by (auto simp: attr_at_def holds_def nth_append)

text \<open>A handle leads to the attribute that has it, and to no other; a pointer leads to the attribute of its handle.\<close>

lemma attribute_found:
  assumes "db_ok db"
  shows "gatt_db_get_attribute h db = Some p \<longleftrightarrow> (\<exists>a. attr_at p db = Some a \<and> at_handle a = h)"
proof
  assume "gatt_db_get_attribute h db = Some p"
  then obtain sv where sv: "List.find (\<lambda>x. service_start x \<le> h \<and> h \<le> service_end x) (services db) = Some sv"
    by (auto simp: gatt_db_get_attribute_def gatt_db_get_service_def split: option.splits if_splits)
  then have m: "sv \<in> set (services db)" by (auto simp: find_Some_iff)
  then obtain as k where h: "holds as k sv" using assms by (auto simp: db_ok_def svc_ok_def)
  have "h \<noteq> 0 \<and> map_option (Pair (service_start sv)) (index_of_handle h (attributes sv) 0) = Some p"
    using \<open>gatt_db_get_attribute h db = Some p\<close> sv find_start[OF assms m]
    by (auto simp: gatt_db_get_attribute_def gatt_db_get_service_def split: if_splits)
  then have "p = (service_start sv, unat h - start sv)" "start sv \<le> unat h" "unat h < start sv + length as"
    using h index_of_handle_filled[of as "start sv" h k 0] by (auto simp: holds_def split: if_splits)
  then show "\<exists>a. attr_at p db = Some a \<and> at_handle a = h"
    using attr_at_service[OF assms m h, of "unat h - start sv"] h by (auto simp: holds_def word_unat_eq_iff)
next
  assume "\<exists>a. attr_at p db = Some a \<and> at_handle a = h"
  then obtain a where a: "attr_at p db = Some a" "at_handle a = h" by blast
  then obtain sv where sv: "List.find (\<lambda>x. service_start x = fst p) (services db) = Some sv" by (auto simp: attr_at_def split: option.splits)
  then have m: "sv \<in> set (services db)" "service_start sv = fst p" by (auto simp: find_Some_iff)
  then obtain as k where h: "holds as k sv" using assms by (auto simp: db_ok_def svc_ok_def)
  have p: "p = (service_start sv, snd p)" using m(2) by simp
  have i: "snd p < length as" "as ! snd p = a" using attr_at_service[OF assms m(1) h, of "snd p"] a(1) p by (auto split: if_splits)
  then have u: "unat h = start sv + snd p" using h a(2) by (auto simp: holds_def)
  then have "start sv \<le> unat h" "unat h < start sv + places sv" "h \<noteq> 0" using i(1) h by (auto simp: holds_def)
  then have f: "List.find (\<lambda>x. service_start x \<le> h \<and> h \<le> service_end x) (services db) = Some sv" using find_handle[OF assms m(1)] by blast
  have "index_of_handle h (attributes sv) 0 = Some (snd p)"
    using h index_of_handle_filled[of as "start sv" h k 0] u i(1) by (simp add: holds_def)
  then show "gatt_db_get_attribute h db = Some p"
    using f find_start[OF assms m(1)] p \<open>h \<noteq> 0\<close> by (simp add: gatt_db_get_attribute_def gatt_db_get_service_def)
qed

section \<open>Changing an attribute\<close>

lemma upd_service:
  assumes "holds as k sv" "\<And>a. at_handle (f a) = at_handle a"
  shows "holds (if i < length as then as[i := f (as ! i)] else as) k (sv\<lparr>attributes := (attributes sv)[i := map_option f (attributes sv ! i)]\<rparr>)"
    "service_start (sv\<lparr>attributes := (attributes sv)[i := map_option f (attributes sv ! i)]\<rparr>) = service_start sv"
proof -
  let ?as = "if i < length as then as[i := f (as ! i)] else as"
  let ?sv = "sv\<lparr>attributes := (attributes sv)[i := map_option f (attributes sv ! i)]\<rparr>"
  have a: "attributes sv = map Some as @ replicate k None" "as \<noteq> []" using assms(1) by (simp_all add: holds_def)
  have e: "attributes ?sv = map Some ?as @ replicate k None"
  proof (cases "i < length as")
    case True
    then show ?thesis by (simp add: a(1) nth_append list_update_append map_update)
  next
    case False
    have "xs[i := map_option f (xs ! i)] = xs" if "i < length xs \<Longrightarrow> xs ! i = None" for xs
    proof (cases "i < length xs")
      case True
      then show ?thesis using that[OF True] by (metis list_update_id option.map_disc_iff)
    qed (simp add: list_update_beyond not_less)
    moreover have "attributes sv ! i = None" if "i < length (attributes sv)" using that False by (simp add: a(1) nth_append)
    ultimately have "(attributes sv)[i := map_option f (attributes sv ! i)] = attributes sv" by blast
    then show ?thesis using False by (simp add: a(1))
  qed
  have n: "?as \<noteq> []" "at_handle (hd ?as) = at_handle (hd as)" using a(2) assms(2) by (cases as; cases i; auto)+
  then show s: "service_start ?sv = service_start sv"
    using e holds_start[OF assms(1)] by (cases ?as) (auto simp: service_start_def)
  have "\<forall>j<length ?as. at_handle (?as ! j) = at_handle (as ! j)" using assms(2) by (auto simp: nth_list_update)
  then show "holds ?as k ?sv" using assms(1) e n(1) s by (simp add: holds_def)
qed

lemma upd_attr_ok:
  assumes "db_ok db" "\<And>a. at_handle (f a) = at_handle a"
  shows "db_ok (upd_attr p f db)" "next_handle (upd_attr p f db) = next_handle db"
proof -
  define g where "g sv = (if service_start sv = fst p then sv\<lparr>attributes := (attributes sv)[snd p := map_option f (attributes sv ! snd p)]\<rparr> else sv)" for sv
  have ok: "svc_ok (g sv) \<and> service_start (g sv) = service_start sv \<and> num_handles (g sv) = num_handles sv" if "svc_ok sv" for sv
  proof -
    obtain as k where h: "holds as k sv" using \<open>svc_ok sv\<close> by (auto simp: svc_ok_def)
    show ?thesis using upd_service[OF h assms(2)] that unfolding g_def svc_ok_def by auto
  qed
  then have k: "\<forall>sv \<in> set (services db). svc_ok (g sv) \<and> service_start (g sv) = service_start sv \<and> num_handles (g sv) = num_handles sv"
    using assms(1) ok by (simp add: db_ok_def)
  have "sorted_wrt (\<lambda>a b. start (g a) + places (g a) \<le> start (g b)) (services db)"
    using assms(1) k sorted_wrt_mono_rel[of "services db" "\<lambda>a b. start a + places a \<le> start b"] by (simp add: db_ok_def)
  then have "sorted_wrt (\<lambda>a b. start a + places a \<le> start b) (map g (services db))" by (simp add: sorted_wrt_map)
  moreover have "upd_attr p f db = db\<lparr>services := map g (services db)\<rparr>" by (simp add: upd_attr_def g_def)
  ultimately show "db_ok (upd_attr p f db)" using assms(1) k by (simp add: db_ok_def)
  show "next_handle (upd_attr p f db) = next_handle db" by (simp add: upd_attr_def)
qed
text \<open>An attribute that is changed is the only one that changes.\<close>

lemma attr_at_upd:
  assumes "\<And>a. at_handle (f a) = at_handle a"
  shows "attr_at q (upd_attr p f db) = (if q = p then map_option f (attr_at q db) else attr_at q db)"
proof -
  define g where "g sv = (if service_start sv = fst p then sv\<lparr>attributes := (attributes sv)[snd p := map_option f (attributes sv ! snd p)]\<rparr> else sv)" for sv
  have s: "service_start (g sv) = service_start sv" for sv
    using assms by (cases "attributes sv"; cases "snd p"; cases "hd (attributes sv)") (auto simp: g_def service_start_def)
  have "List.find (\<lambda>sv. service_start sv = fst q) (map g svs) = map_option g (List.find (\<lambda>sv. service_start sv = fst q) svs)" for svs
    by (induction svs) (simp_all add: s)
  moreover have "services (upd_attr p f db) = map g (services db)" by (simp add: upd_attr_def g_def)
  ultimately have e: "attr_at q (upd_attr p f db) = (case List.find (\<lambda>sv. service_start sv = fst q) (services db) of
      None \<Rightarrow> None | Some sv \<Rightarrow> if snd q < length (attributes (g sv)) then attributes (g sv) ! snd q else None)"
    by (simp add: attr_at_def option.case_eq_if option.map_sel)
  show ?thesis
  proof (cases "List.find (\<lambda>sv. service_start sv = fst q) (services db)")
    case None
    then have "attr_at q db = None" by (simp add: attr_at_def)
    then show ?thesis using None e by auto
  next
    case (Some sv)
    then have "service_start sv = fst q" by (auto simp: find_Some_iff)
    moreover have "attr_at q db = (if snd q < length (attributes sv) then attributes sv ! snd q else None)" by (simp add: attr_at_def Some)
    moreover have "attr_at q (upd_attr p f db) = (if snd q < length (attributes (g sv)) then attributes (g sv) ! snd q else None)" by (simp add: e Some)
    ultimately show ?thesis by (cases q; cases p) (auto simp: g_def)
  qed
qed

section \<open>Every database that is made\<close>

inductive gatt_built :: "'f gatt_db \<Rightarrow> bool" where
  made: "gatt_built gatt_db_new"
| service: "gatt_built db \<Longrightarrow> gatt_db_add_service uuid prim num db = (p, db') \<Longrightarrow> gatt_built db'"
| characteristic: "gatt_built db \<Longrightarrow> gatt_db_service_add_characteristic p uuid perm props rd wr db = Some (q, db') \<Longrightarrow> gatt_built db'"
| descriptor: "gatt_built db \<Longrightarrow> gatt_db_service_add_descriptor p uuid perm rd wr db = Some (q, db') \<Longrightarrow> gatt_built db'"
| active: "gatt_built db \<Longrightarrow> gatt_db_service_set_active p en db = Some (ok, db') \<Longrightarrow> gatt_built db'"
| reading: "gatt_built db \<Longrightarrow> gatt_db_attribute_read p off db = Some (r, db') \<Longrightarrow> gatt_built db'"
| writing: "gatt_built db \<Longrightarrow> gatt_db_attribute_write p off val db = Some (r, db') \<Longrightarrow> gatt_built db'"
| read_done: "gatt_built db \<Longrightarrow> gatt_db_attribute_read_result p i db = Some (ok, db') \<Longrightarrow> gatt_built db'"
| write_done: "gatt_built db \<Longrightarrow> gatt_db_attribute_write_result p i db = Some (ok, db') \<Longrightarrow> gatt_built db'"

lemma add_service_ok:
  assumes "db_ok db" "gatt_db_add_service uuid prim num db = (p, db')"
  shows "db_ok db'"
proof (cases "num = 0")
  case True
  then show ?thesis using assms by (simp add: gatt_db_add_service_def gatt_db_insert_service_def)
next
  case False
  then show ?thesis using assms with_service_ok[OF assms(1)] by (auto simp: add_service_result split: if_splits)
qed

lemma add_characteristic_ok:
  assumes "db_ok db" "gatt_db_service_add_characteristic p uuid perm props rd wr db = Some (q, db')"
  shows "db_ok db'"
proof (cases p)
  case (Some x)
  then obtain i where i: "at_service (fst x) (service_insert_characteristic 0 uuid perm props rd wr) db = Some (i, db')"
    using assms(2) by (cases x) (auto simp: gatt_db_service_add_characteristic_def)
  show ?thesis by (rule conjunct1[OF at_service_ok[OF assms(1) i]]) (rule characteristic_ok)
qed (use assms in \<open>simp add: gatt_db_service_add_characteristic_def\<close>)

lemma add_descriptor_ok:
  assumes "db_ok db" "gatt_db_service_add_descriptor p uuid perm rd wr db = Some (q, db')"
  shows "db_ok db'"
proof (cases p)
  case (Some x)
  then obtain i where i: "at_service (fst x) (service_insert_descriptor 0 uuid perm rd wr) db = Some (i, db')"
    using assms(2) by (cases x) (auto simp: gatt_db_service_add_descriptor_def)
  show ?thesis by (rule conjunct1[OF at_service_ok[OF assms(1) i]]) (rule descriptor_ok)
qed (use assms in \<open>simp add: gatt_db_service_add_descriptor_def\<close>)

lemma set_active_ok:
  assumes "db_ok db" "gatt_db_service_set_active p en db = Some (ok, db')"
  shows "db_ok db'"
proof (cases p)
  case (Some x)
  then have a: "at_service (fst x) (\<lambda>sv. (True, sv\<lparr>sv_active := en\<rparr>)) db = Some (ok, db')"
    using assms(2) by (cases x) (simp add: gatt_db_service_set_active_def)
  have "svc_ok (sv\<lparr>sv_active := en\<rparr>) \<and> service_start (sv\<lparr>sv_active := en\<rparr>) = service_start sv \<and> num_handles (sv\<lparr>sv_active := en\<rparr>) = num_handles sv"
    if "svc_ok sv" for sv :: "'a service"
    using that by (simp add: svc_ok_def holds_def service_start_def)
  then have "db_ok db' \<and> next_handle db' = next_handle db" by (intro at_service_ok[OF assms(1) a]) auto
  then show ?thesis by simp
qed (use assms in \<open>simp add: gatt_db_service_set_active_def\<close>)

lemma built_ok: "gatt_built db \<Longrightarrow> db_ok db"
proof (induction rule: gatt_built.induct)
  case (reading db p off r db')
  then show ?case using upd_attr_ok(1)[of db]
    by (auto simp: gatt_db_attribute_read_def bind_eq_Some_conv split: option.splits if_splits)
next
  case (writing db p off val r db')
  then show ?case using upd_attr_ok(1)[of db]
    by (auto simp: gatt_db_attribute_write_def bind_eq_Some_conv Let_def split: option.splits if_splits)
next
  case (read_done db p i ok db')
  then show ?case using upd_attr_ok(1)[of db]
    by (auto simp: gatt_db_attribute_read_result_def split: option.splits if_splits)
next
  case (write_done db p i ok db')
  then show ?case using upd_attr_ok(1)[of db]
    by (auto simp: gatt_db_attribute_write_result_def split: option.splits if_splits)
qed (blast intro: db_ok_new add_service_ok add_characteristic_ok add_descriptor_ok set_active_ok)+

end
