(* ===== verification/Tuya_Bt.thy ===== *)
theory Tuya_Bt
  imports Gatt_Db Tuya_Wifi
begin

text \<open>
  The Bluetooth adapter of the vendor's SDK, \<open>arm_app/apps/src/tuya_os_adapt_bt.c\<close>, over the attribute
  database: starting and stopping, advertising, the connection of an app, the services it finds and what
  its reads and writes do, and sending to it. With it the parts of BlueZ it rests on: the main loop
  (\<open>bluez/libshared/mainloop.c\<close>), \<open>hci_le_set_advertise_enable\<close> (\<open>bluez/libbluetooth/hci.c\<close>), and what
  \<open>gatt-server.c\<close> does with a read, a write and a notification.

  The controller, the sockets and the SDK's callback are a record of operations on a state \<open>'s\<close>.
  Using what was freed is \<open>None\<close>.
\<close>

section \<open>The interfaces it uses\<close>

datatype bt_event = TY_BT_EVENT_DISCONNECTED | TY_BT_EVENT_CONNECTED | TY_BT_EVENT_RX_DATA | TY_BT_EVENT_ADV_READY

text \<open>
  \<open>hci_send_req\<close> is given the number of a command and its parameters and gives its result and the status
  byte; \<open>bt_name\<close> the result and the 248 bytes of the name; \<open>bt_socket\<close> makes, binds, configures and
  listens on a socket and says whether all of that worked; \<open>bt_accept\<close> gives the descriptor or
  a negative number; \<open>bt_att_setup\<close> is what \<open>bt_att_new\<close> does after the loop took the descriptor.
\<close>

record 's bt_os =
  hci_open_dev :: "'s \<Rightarrow> int \<times> 's"
  hci_devba :: "'s \<Rightarrow> (int \<times> byte list) \<times> 's"
  hci_send_req :: "nat \<Rightarrow> byte list \<Rightarrow> 's \<Rightarrow> (int \<times> byte) \<times> 's"
  bt_name :: "'s \<Rightarrow> (int \<times> byte list) \<times> 's"
  bt_close :: "int \<Rightarrow> 's \<Rightarrow> 's"
  bt_socket :: "'s \<Rightarrow> bool \<times> 's"
  bt_accept :: "'s \<Rightarrow> int \<times> 's"
  bt_security :: "'s \<Rightarrow> bool \<times> 's"
  bt_att_setup :: "int \<Rightarrow> 's \<Rightarrow> bool \<times> 's"
  bt_register :: "'s \<Rightarrow> bool \<times> 's"
  bt_mtu :: nat
  bt_thread :: "'s \<Rightarrow> bool \<times> 's"
  bt_malloc :: "nat \<Rightarrow> 's \<Rightarrow> bool \<times> 's"
  bt_callback :: "bt_event \<Rightarrow> byte list \<Rightarrow> 's \<Rightarrow> 's"
  bt_system :: "string \<Rightarrow> 's \<Rightarrow> int \<times> 's"
  bt_popen :: "string \<Rightarrow> 's \<Rightarrow> string option \<times> 's"
  bt_access :: "string \<Rightarrow> 's \<Rightarrow> bool \<times> 's"
  bt_usleep :: "nat \<Rightarrow> 's \<Rightarrow> 's"

section \<open>State\<close>

datatype bt_func = Gap_Device_Name_Read | Gatt_Service_Changed | Svc_Chngd_Ccc_Read | Svc_Chngd_Ccc_Write
| Tuya_Write | Tuya_Chngd_Ccc_Read | Tuya_Chngd_Ccc_Write

text \<open>A pointer to a structure that is made and freed; and a pointer into the database with a number.\<close>

datatype obj = Null | Live | Freed

type_synonym bt_ptr = "nat \<times> attr_ptr"

text \<open>What is sent to the app.\<close>

datatype att_pdu = Read_Rsp "byte list" | Write_Rsp | Error_Rsp "16 word" nat | Handle_Value_Not "16 word" "byte list"

text \<open>
  The static structure of the file, the main loop's variables, and the databases that were made: the number
  of the next one, and each with its reference count while it is not freed. The database and the pending
  operations of the server are kept with it: a write that is pending says whether it is a command,
  which is not answered. \<open>att_sent\<close> is what was sent to the app.
\<close>

record 's bt_server =
  gs_att :: obj
  gs_db :: "nat option"
  gs_gatt :: obj
  server_db :: "nat option"
  pending_read_op :: bool
  pending_write_op :: "bool option"
  tuya_service :: "bt_ptr option"
  tuya_write :: "bt_ptr option"
  tuya_notify :: "bt_ptr option"
  tuya_handle :: "16 word"
  tuya_write_handle :: "16 word"
  tuya_notify_handle :: "16 word"
  gatt_svc_chngd_handle :: "16 word"
  gatt_svc_chngd_enabled :: bool
  gatt_tuya_svc_chngd_enabled :: bool
  hci_sock :: int
  src_addr :: "byte list"
  bt_msg_cb :: bool
  epoll_open :: bool
  epoll_terminate :: bool
  next_db :: nat
  dbs :: "nat \<Rightarrow> (bt_func gatt_db \<times> nat) option"
  att_sent :: "att_pdu list"
  bsys :: 's

definition bsys_do :: "('s \<Rightarrow> 's) \<Rightarrow> 's bt_server \<Rightarrow> 's bt_server" where
  "bsys_do f d = d\<lparr>bsys := f (bsys d)\<rparr>"

definition bsys_run :: "('s \<Rightarrow> 'a \<times> 's) \<Rightarrow> 's bt_server \<Rightarrow> 'a \<times> 's bt_server" where
  "bsys_run f d = (let (x, s) = f (bsys d) in (x, d\<lparr>bsys := s\<rparr>))"

text \<open>An operation on a database, and one through a pointer, which a NULL pointer ends with \<open>z\<close>.\<close>

definition on_db :: "nat \<Rightarrow> (bt_func gatt_db \<Rightarrow> ('a \<times> bt_func gatt_db) option) \<Rightarrow> 's bt_server \<Rightarrow> ('a \<times> 's bt_server) option" where
  "on_db i f d = do { (db, n) \<leftarrow> dbs d i; (x, db) \<leftarrow> f db; Some (x, d\<lparr>dbs := (dbs d)(i \<mapsto> (db, n))\<rparr>) }"

definition via :: "bt_ptr option \<Rightarrow> 'a \<Rightarrow> (attr_ptr option \<Rightarrow> bt_func gatt_db \<Rightarrow> ('a \<times> bt_func gatt_db) option) \<Rightarrow> 's bt_server \<Rightarrow> ('a \<times> 's bt_server) option" where
  "via p z f d = (case p of None \<Rightarrow> Some (z, d) | Some (i, p) \<Rightarrow> on_db i (f (Some p)) d)"

definition get_handle :: "bt_ptr option \<Rightarrow> 's bt_server \<Rightarrow> (16 word \<times> 's bt_server) option" where
  "get_handle p d = via p 0 (\<lambda>q db. map_option (\<lambda>h. (h, db)) (gatt_db_attribute_get_handle q db)) d"

definition gatt_db_unref :: "nat option \<Rightarrow> 's bt_server \<Rightarrow> 's bt_server option" where
  "gatt_db_unref p d =
     (case p of
        None \<Rightarrow> Some d
      | Some i \<Rightarrow> map_option (\<lambda>(db, n). d\<lparr>dbs := (dbs d)(i := if n - 1 = 0 then None else Some (db, n - 1))\<rparr>) (dbs d i))"

section \<open>Controller commands\<close>

abbreviation "OCF_LE_SET_ADVERTISING_PARAMETERS \<equiv> 6 :: nat"
abbreviation "OCF_LE_SET_ADVERTISING_DATA \<equiv> 8 :: nat"
abbreviation "OCF_LE_SET_SCAN_RESPONSE_DATA \<equiv> 9 :: nat"
abbreviation "OCF_LE_SET_ADVERTISE_ENABLE \<equiv> 10 :: nat"

definition hci_le_set_advertise_enable :: "'s bt_os \<Rightarrow> bool \<Rightarrow> 's bt_server \<Rightarrow> int \<times> 's bt_server" where
  "hci_le_set_advertise_enable k en d =
     (let ((r, status), d) = bsys_run (hci_send_req k OCF_LE_SET_ADVERTISE_ENABLE [of_bool en]) d
      in (if r < 0 \<or> status \<noteq> 0 then - 1 else 0, d))"

text \<open>The 15 bytes of the parameters: both intervals, the kind, and the channels.\<close>

definition adv_params :: "16 word \<Rightarrow> 16 word \<Rightarrow> byte \<Rightarrow> byte \<Rightarrow> byte list" where
  "adv_params mn mx ty ch = put_le16 mn @ put_le16 mx @ [ty, 0, 0] @ replicate 6 0 @ [ch, 0]"

definition hci_le_set_advertise_parameters :: "'s bt_os \<Rightarrow> byte list \<Rightarrow> 's bt_server \<Rightarrow> int \<times> 's bt_server" where
  "hci_le_set_advertise_parameters k cp d =
     (let ((r, _), d) = bsys_run (hci_send_req k OCF_LE_SET_ADVERTISING_PARAMETERS cp) d in (r, d))"

text \<open>
  The data of a packet: a pointer and the length cut to a byte; the structure has 31 bytes for it, and
  the status of the command is not looked at.
\<close>

definition adv_block :: "nat \<Rightarrow> byte list option \<Rightarrow> byte list option" where
  "adv_block len data =
     (let n = len mod 256
      in if n = 0 then Some (replicate 32 0)
         else case data of
                None \<Rightarrow> None
              | Some bs \<Rightarrow> if 31 < n \<or> length bs < n then None else Some (of_nat n # take n bs @ replicate (31 - n) 0))"

definition hci_le_set_advertise_data :: "'s bt_os \<Rightarrow> byte list option \<Rightarrow> nat \<Rightarrow> 's bt_server \<Rightarrow> (int \<times> 's bt_server) option" where
  "hci_le_set_advertise_data k data len d =
     map_option (\<lambda>cp. let ((r, _), d) = bsys_run (hci_send_req k OCF_LE_SET_ADVERTISING_DATA cp) d in (r, d)) (adv_block len data)"

definition hci_le_set_scan_rsp_data :: "'s bt_os \<Rightarrow> byte list option \<Rightarrow> nat \<Rightarrow> 's bt_server \<Rightarrow> (int \<times> 's bt_server) option" where
  "hci_le_set_scan_rsp_data k data len d =
     map_option (\<lambda>cp. let ((r, _), d) = bsys_run (hci_send_req k OCF_LE_SET_SCAN_RESPONSE_DATA cp) d in (r, d)) (adv_block len data)"
section \<open>What the app's reads and writes do\<close>

definition send_pdu :: "att_pdu \<Rightarrow> 's bt_server \<Rightarrow> 's bt_server" where
  "send_pdu x d = d\<lparr>att_sent := att_sent d @ [x]\<rparr>"

text \<open>
  The ends of a read and of a write in \<open>gatt-server.c\<close>. A value is cut to what fits; one that is NULL
  with a length is not sent.
\<close>

definition read_complete_cb :: "'s bt_os \<Rightarrow> 16 word \<Rightarrow> nat \<Rightarrow> byte list option \<Rightarrow> nat \<Rightarrow> 's bt_server \<Rightarrow> 's bt_server" where
  "read_complete_cb k h err val len d =
     (let n = min (bt_mtu k - 1) len; d = d\<lparr>pending_read_op := False\<rparr>
      in if err \<noteq> 0 then send_pdu (Error_Rsp h err) d
         else if n = 0 then send_pdu (Read_Rsp []) d
         else case val of None \<Rightarrow> d | Some bs \<Rightarrow> send_pdu (Read_Rsp (take n bs)) d)"

definition write_complete_cb :: "16 word \<Rightarrow> nat \<Rightarrow> 's bt_server \<Rightarrow> 's bt_server" where
  "write_complete_cb h err d =
     (let cmd = (pending_write_op d = Some True); d = d\<lparr>pending_write_op := None\<rparr>
      in if cmd then d else send_pdu (if err \<noteq> 0 then Error_Rsp h err else Write_Rsp) d)"

text \<open>A result is passed on to them as long as it is awaited.\<close>

definition read_result :: "'s bt_os \<Rightarrow> bt_ptr \<Rightarrow> 32 word \<Rightarrow> nat \<Rightarrow> byte list option \<Rightarrow> nat \<Rightarrow> 's bt_server \<Rightarrow> 's bt_server option" where
  "read_result k p i err val len d =
     do {
       (h, d) \<leftarrow> get_handle (Some p) d;
       (ok, d) \<leftarrow> via (Some p) False (\<lambda>q. gatt_db_attribute_read_result q i) d;
       Some (if ok then read_complete_cb k h err val len d else d)
     }"

definition write_result :: "bt_ptr \<Rightarrow> 32 word \<Rightarrow> nat \<Rightarrow> 's bt_server \<Rightarrow> 's bt_server option" where
  "write_result p i err d =
     do {
       (h, d) \<leftarrow> get_handle (Some p) d;
       (ok, d) \<leftarrow> via (Some p) False (\<lambda>q. gatt_db_attribute_write_result q i) d;
       Some (if ok then write_complete_cb h err d else d)
     }"

abbreviation "BT_ATT_ERROR_INVALID_ATTRIBUTE_VALUE_LEN \<equiv> 13 :: nat"
abbreviation "HCI_MAX_NAME_LENGTH \<equiv> 248 :: nat"

text \<open>The offset is compared with a length that is still 0; when the name cannot be read, the length is not 0 any more.\<close>

definition gap_device_name_read_cb :: "'s bt_os \<Rightarrow> bt_ptr \<Rightarrow> 32 word \<Rightarrow> nat \<Rightarrow> 's bt_server \<Rightarrow> 's bt_server option" where
  "gap_device_name_read_cb k p i off d =
     (if 0 < off then read_result k p i BT_ATT_ERROR_INVALID_OFFSET None 0 d
      else
        let ((ret, name), d) = bsys_run (bt_name k) d
        in if ret < 0 then read_result k p i 0 None HCI_MAX_NAME_LENGTH d
           else read_result k p i 0 (Some (drop off name)) (HCI_MAX_NAME_LENGTH - off) d)"

definition gatt_service_changed_cb :: "'s bt_os \<Rightarrow> bt_ptr \<Rightarrow> 32 word \<Rightarrow> 's bt_server \<Rightarrow> 's bt_server option" where
  "gatt_service_changed_cb k p i d = read_result k p i 0 None 0 d"

definition gatt_svc_chngd_ccc_read_cb :: "'s bt_os \<Rightarrow> bt_ptr \<Rightarrow> 32 word \<Rightarrow> 's bt_server \<Rightarrow> 's bt_server option" where
  "gatt_svc_chngd_ccc_read_cb k p i d = read_result k p i 0 (Some [if gatt_svc_chngd_enabled d then 2 else 0, 0]) 2 d"

definition gatt_tuya_svc_chngd_ccc_read_cb :: "'s bt_os \<Rightarrow> bt_ptr \<Rightarrow> 32 word \<Rightarrow> 's bt_server \<Rightarrow> 's bt_server option" where
  "gatt_tuya_svc_chngd_ccc_read_cb k p i d = read_result k p i 0 (Some [if gatt_tuya_svc_chngd_enabled d then 1 else 0, 0]) 2 d"

text \<open>The number of the error, or the flag that is set.\<close>

definition ccc_write :: "byte \<Rightarrow> nat \<Rightarrow> byte list option \<Rightarrow> nat + bool" where
  "ccc_write on off val =
     (case val of
        None \<Rightarrow> Inl BT_ATT_ERROR_INVALID_ATTRIBUTE_VALUE_LEN
      | Some bs \<Rightarrow>
          if length bs \<noteq> 2 then Inl BT_ATT_ERROR_INVALID_ATTRIBUTE_VALUE_LEN
          else if off \<noteq> 0 then Inl BT_ATT_ERROR_INVALID_OFFSET
          else if bs ! 0 = 0 then Inr False
          else if bs ! 0 = on then Inr True
          else Inl 0x80)"

definition gatt_svc_chngd_ccc_write_cb :: "bt_ptr \<Rightarrow> 32 word \<Rightarrow> nat \<Rightarrow> byte list option \<Rightarrow> 's bt_server \<Rightarrow> 's bt_server option" where
  "gatt_svc_chngd_ccc_write_cb p i off val d =
     (case ccc_write 2 off val of
        Inl e \<Rightarrow> write_result p i e d
      | Inr en \<Rightarrow> write_result p i 0 (d\<lparr>gatt_svc_chngd_enabled := en\<rparr>))"

definition gatt_tuya_svc_chngd_ccc_write_cb :: "bt_ptr \<Rightarrow> 32 word \<Rightarrow> nat \<Rightarrow> byte list option \<Rightarrow> 's bt_server \<Rightarrow> 's bt_server option" where
  "gatt_tuya_svc_chngd_ccc_write_cb p i off val d =
     (case ccc_write 1 off val of
        Inl e \<Rightarrow> write_result p i e d
      | Inr en \<Rightarrow> write_result p i 0 (d\<lparr>gatt_tuya_svc_chngd_enabled := en\<rparr>))"

text \<open>Without a callback the function returns before it answers.\<close>

definition tuya_write_cb :: "'s bt_os \<Rightarrow> bt_ptr \<Rightarrow> 32 word \<Rightarrow> nat \<Rightarrow> byte list option \<Rightarrow> 's bt_server \<Rightarrow> 's bt_server option" where
  "tuya_write_cb k p i off val d =
     (case val of
        None \<Rightarrow> write_result p i BT_ATT_ERROR_INVALID_ATTRIBUTE_VALUE_LEN d
      | Some bs \<Rightarrow>
          if off \<noteq> 0 then write_result p i BT_ATT_ERROR_INVALID_OFFSET d
          else if \<not> bt_msg_cb d then Some d
          else write_result p i 0 (bsys_do (bt_callback k TY_BT_EVENT_RX_DATA bs) d))"

text \<open>The handlers behind the names; the others are never called for the operation.\<close>

definition call_read :: "'s bt_os \<Rightarrow> bt_func \<Rightarrow> bt_ptr \<Rightarrow> 32 word \<Rightarrow> nat \<Rightarrow> 's bt_server \<Rightarrow> 's bt_server option" where
  "call_read k f p i off d =
     (case f of
        Gap_Device_Name_Read \<Rightarrow> gap_device_name_read_cb k p i off d
      | Gatt_Service_Changed \<Rightarrow> gatt_service_changed_cb k p i d
      | Svc_Chngd_Ccc_Read \<Rightarrow> gatt_svc_chngd_ccc_read_cb k p i d
      | Tuya_Chngd_Ccc_Read \<Rightarrow> gatt_tuya_svc_chngd_ccc_read_cb k p i d
      | _ \<Rightarrow> None)"

definition call_write :: "'s bt_os \<Rightarrow> bt_func \<Rightarrow> bt_ptr \<Rightarrow> 32 word \<Rightarrow> nat \<Rightarrow> byte list \<Rightarrow> 's bt_server \<Rightarrow> 's bt_server option" where
  "call_write k f p i off val d =
     (case f of
        Svc_Chngd_Ccc_Write \<Rightarrow> gatt_svc_chngd_ccc_write_cb p i off (Some val) d
      | Tuya_Chngd_Ccc_Write \<Rightarrow> gatt_tuya_svc_chngd_ccc_write_cb p i off (Some val) d
      | Tuya_Write \<Rightarrow> tuya_write_cb k p i off (Some val) d
      | _ \<Rightarrow> None)"

abbreviation "BT_ATT_ERROR_INVALID_HANDLE \<equiv> 1 :: nat"
abbreviation "BT_ATT_ERROR_READ_NOT_PERMITTED \<equiv> 2 :: nat"
abbreviation "BT_ATT_ERROR_WRITE_NOT_PERMITTED \<equiv> 3 :: nat"
abbreviation "BT_ATT_ERROR_UNLIKELY \<equiv> 14 :: nat"

text \<open>
  The permission that a read or a write needs: none of the attributes here asks for authentication or
  encryption, so that what is left is whether the link tells its security. 0 stands for no error.
\<close>

definition check_permissions :: "'s bt_os \<Rightarrow> nat \<Rightarrow> nat \<Rightarrow> 's bt_server \<Rightarrow> nat \<times> 's bt_server" where
  "check_permissions k perm need d =
     (if perm \<noteq> 0 \<and> need = BT_ATT_PERM_READ \<and> perm AND BT_ATT_PERM_READ = 0 then (BT_ATT_ERROR_READ_NOT_PERMITTED, d)
      else if perm \<noteq> 0 \<and> need = BT_ATT_PERM_WRITE \<and> perm AND BT_ATT_PERM_WRITE = 0 then (BT_ATT_ERROR_WRITE_NOT_PERMITTED, d)
      else if perm AND need = 0 then (0, d)
      else let (known, d) = bsys_run (bt_security k) d in (if known then 0 else BT_ATT_ERROR_UNLIKELY, d))"

text \<open>\<open>handle_read_req\<close>: a read of the app at a handle, from an offset.\<close>

definition app_read :: "'s bt_os \<Rightarrow> 16 word \<Rightarrow> nat \<Rightarrow> 's bt_server \<Rightarrow> 's bt_server option" where
  "app_read k h off d =
     do {
       b \<leftarrow> server_db d;
       (db, _) \<leftarrow> dbs d b;
       case gatt_db_get_attribute h db of
         None \<Rightarrow> Some (send_pdu (Error_Rsp h BT_ATT_ERROR_INVALID_HANDLE) d)
       | Some p \<Rightarrow>
           do {
             at \<leftarrow> attr_at p db;
             let (ecode, d) = check_permissions k (at_perm at) BT_ATT_PERM_READ d;
             if ecode \<noteq> 0 then Some (send_pdu (Error_Rsp h ecode) d)
             else if pending_read_op d then Some (send_pdu (Error_Rsp h BT_ATT_ERROR_UNLIKELY) d)
             else do {
               (r, d) \<leftarrow> on_db b (gatt_db_attribute_read (Some p) off) (d\<lparr>pending_read_op := True\<rparr>);
               case r of
                 Refused \<Rightarrow> Some (send_pdu (Error_Rsp h BT_ATT_ERROR_UNLIKELY) (d\<lparr>pending_read_op := False\<rparr>))
               | Answer err val \<Rightarrow> Some (read_complete_cb k h err (Some val) (length val) d)
               | Call f i \<Rightarrow> call_read k f (b, p) i off d
             }
           }
     }"

text \<open>
  \<open>write_cb\<close>: a write request of the app at a handle, or a write command, to which nothing is answered. A
  write that nobody answers stays pending until the library's five seconds are over; time does
  not pass here.
\<close>

definition write_error :: "bool \<Rightarrow> 16 word \<Rightarrow> nat \<Rightarrow> 's bt_server \<Rightarrow> 's bt_server" where
  "write_error cmd h ecode d = (if cmd then d else send_pdu (Error_Rsp h ecode) d)"

definition app_write :: "'s bt_os \<Rightarrow> bool \<Rightarrow> 16 word \<Rightarrow> byte list \<Rightarrow> 's bt_server \<Rightarrow> 's bt_server option" where
  "app_write k cmd h val d =
     do {
       b \<leftarrow> server_db d;
       (db, _) \<leftarrow> dbs d b;
       case gatt_db_get_attribute h db of
         None \<Rightarrow> Some (write_error cmd h BT_ATT_ERROR_INVALID_HANDLE d)
       | Some p \<Rightarrow>
           do {
             at \<leftarrow> attr_at p db;
             let (ecode, d) = check_permissions k (at_perm at) BT_ATT_PERM_WRITE d;
             if ecode \<noteq> 0 then Some (write_error cmd h ecode d)
             else if pending_write_op d \<noteq> None then Some (write_error cmd h BT_ATT_ERROR_UNLIKELY d)
             else do {
               (r, d) \<leftarrow> on_db b (gatt_db_attribute_write (Some p) 0 val) (d\<lparr>pending_write_op := Some cmd\<rparr>);
               case r of
                 Refused \<Rightarrow> Some (write_error cmd h BT_ATT_ERROR_UNLIKELY (d\<lparr>pending_write_op := None\<rparr>))
               | Answer err _ \<Rightarrow> Some (write_complete_cb h err d)
               | Call f i \<Rightarrow> call_write k f (b, p) i 0 val d
             }
           }
     }"

section \<open>The services\<close>

abbreviation "UUID_GAP \<equiv> 0x1800 :: 16 word"
abbreviation "UUID_GATT \<equiv> 0x1801 :: 16 word"
abbreviation "UUID_TUYA \<equiv> 0x1910 :: 16 word"
abbreviation "UUID_TUYA_WRITE \<equiv> 0x2B11 :: 16 word"
abbreviation "UUID_TUYA_NOTIFY \<equiv> 0x2B10 :: 16 word"
abbreviation "GATT_CHARAC_DEVICE_NAME \<equiv> 0x2A00 :: 16 word"
abbreviation "GATT_CHARAC_APPEARANCE \<equiv> 0x2A01 :: 16 word"
abbreviation "GATT_CHARAC_SERVICE_CHANGED \<equiv> 0x2A05 :: 16 word"
abbreviation "GATT_CLIENT_CHARAC_CFG_UUID \<equiv> 0x2902 :: 16 word"

definition add_service :: "16 word \<Rightarrow> 16 word \<Rightarrow> 's bt_server \<Rightarrow> (bt_ptr option \<times> 's bt_server) option" where
  "add_service uuid num d =
     do { b \<leftarrow> gs_db d; (p, d) \<leftarrow> on_db b (\<lambda>db. Some (gatt_db_add_service uuid True num db)) d; Some (map_option (Pair b) p, d) }"

definition add_characteristic ::
    "bt_ptr option \<Rightarrow> 16 word \<Rightarrow> nat \<Rightarrow> byte \<Rightarrow> bt_func option \<Rightarrow> bt_func option \<Rightarrow> 's bt_server \<Rightarrow> (bt_ptr option \<times> 's bt_server) option" where
  "add_characteristic p uuid perm props rd wr d =
     map_option (\<lambda>(q, d). (Option.bind p (\<lambda>(b, _). map_option (Pair b) q), d))
       (via p None (\<lambda>p. gatt_db_service_add_characteristic p uuid perm props rd wr) d)"

definition add_descriptor :: "bt_ptr option \<Rightarrow> 16 word \<Rightarrow> nat \<Rightarrow> bt_func option \<Rightarrow> bt_func option \<Rightarrow> 's bt_server \<Rightarrow> (bt_ptr option \<times> 's bt_server) option" where
  "add_descriptor p uuid perm rd wr d =
     map_option (\<lambda>(q, d). (Option.bind p (\<lambda>(b, _). map_option (Pair b) q), d))
       (via p None (\<lambda>p. gatt_db_service_add_descriptor p uuid perm rd wr) d)"

definition set_active :: "bt_ptr option \<Rightarrow> bool \<Rightarrow> 's bt_server \<Rightarrow> (bool \<times> 's bt_server) option" where
  "set_active p active d = via p False (\<lambda>q. gatt_db_service_set_active q active) d"

text \<open>The value that is written is stored in the database; no handler is called.\<close>

definition create_gap_service :: "'s bt_server \<Rightarrow> 's bt_server option" where
  "create_gap_service d =
     do {
       (gap_service, d) \<leftarrow> add_service UUID_GAP 6 d;
       (_, d) \<leftarrow> add_characteristic gap_service GATT_CHARAC_DEVICE_NAME BT_ATT_PERM_READ 0x02 (Some Gap_Device_Name_Read) None d;
       (gap_appearance, d) \<leftarrow> add_characteristic gap_service GATT_CHARAC_APPEARANCE BT_ATT_PERM_READ 0x02 None None d;
       (_, d) \<leftarrow> via gap_appearance Refused (\<lambda>q. gatt_db_attribute_write q 0 (put_le16 128)) d;
       (_, d) \<leftarrow> set_active gap_service True d;
       Some d
     }"

definition create_gatt_service :: "'s bt_server \<Rightarrow> 's bt_server option" where
  "create_gatt_service d =
     do {
       (gatt_service, d) \<leftarrow> add_service UUID_GATT 4 d;
       (gatt_svc_chngd, d) \<leftarrow> add_characteristic gatt_service GATT_CHARAC_SERVICE_CHANGED BT_ATT_PERM_READ 0x22 (Some Gatt_Service_Changed) None d;
       (h, d) \<leftarrow> get_handle gatt_svc_chngd d;
       let d = d\<lparr>gatt_svc_chngd_handle := h\<rparr>;
       (_, d) \<leftarrow> add_descriptor gatt_service GATT_CLIENT_CHARAC_CFG_UUID 3 (Some Svc_Chngd_Ccc_Read) (Some Svc_Chngd_Ccc_Write) d;
       (_, d) \<leftarrow> set_active gatt_service True d;
       Some d
     }"

definition create_tuya_service :: "'s bt_server \<Rightarrow> 's bt_server option" where
  "create_tuya_service d =
     do {
       (p, d) \<leftarrow> add_service UUID_TUYA 8 d;
       (h, d) \<leftarrow> get_handle p (d\<lparr>tuya_service := p\<rparr>);
       (w, d) \<leftarrow> add_characteristic p UUID_TUYA_WRITE BT_ATT_PERM_WRITE 0x04 None (Some Tuya_Write) (d\<lparr>tuya_handle := h\<rparr>);
       (h, d) \<leftarrow> get_handle w (d\<lparr>tuya_write := w\<rparr>);
       (n, d) \<leftarrow> add_characteristic p UUID_TUYA_NOTIFY BT_ATT_PERM_NONE 0x10 None None (d\<lparr>tuya_write_handle := h\<rparr>);
       (h, d) \<leftarrow> get_handle n (d\<lparr>tuya_notify := n\<rparr>);
       (_, d) \<leftarrow> add_descriptor n GATT_CLIENT_CHARAC_CFG_UUID 3 (Some Tuya_Chngd_Ccc_Read) (Some Tuya_Chngd_Ccc_Write) (d\<lparr>tuya_notify_handle := h\<rparr>);
       (_, d) \<leftarrow> set_active p True d;
       Some d
     }"

definition create_server :: "'s bt_server \<Rightarrow> 's bt_server option" where
  "create_server d = do { d \<leftarrow> create_gap_service d; d \<leftarrow> create_gatt_service d; create_tuya_service d }"
section \<open>Starting and stopping\<close>

abbreviation "EXIT_FAILURE \<equiv> 1 :: int"

definition mainloop_init :: "'s bt_server \<Rightarrow> 's bt_server" where
  "mainloop_init d = d\<lparr>epoll_open := True, epoll_terminate := False\<rparr>"

definition mainloop_quit :: "'s bt_server \<Rightarrow> 's bt_server" where
  "mainloop_quit d = d\<lparr>epoll_terminate := True\<rparr>"

text \<open>The parameter is \<open>None\<close> for NULL, else whether it has a callback.\<close>

definition tuya_os_adapt_bt_port_init :: "'s bt_os \<Rightarrow> bool option \<Rightarrow> 's bt_server \<Rightarrow> (int \<times> 's bt_server) option" where
  "tuya_os_adapt_bt_port_init k p d =
     do {
       cb \<leftarrow> p;
       let d = mainloop_init (d\<lparr>bt_msg_cb := cb\<rparr>);
       let (sock, d) = bsys_run (hci_open_dev k) d;
       let d = d\<lparr>hci_sock := sock\<rparr>;
       if sock < 0 then Some (EXIT_FAILURE, d)
       else do {
         let ((ret, addr), d) = bsys_run (hci_devba k) d;
         if ret < 0 then Some (EXIT_FAILURE, d)
         else Some (OPRT_OK, d\<lparr>src_addr := addr, gs_db := Some (next_db d), next_db := Suc (next_db d),
           dbs := (dbs d)(next_db d \<mapsto> (gatt_db_new, 1))\<rparr>)
       }
     }"

text \<open>The pointers to what is freed stay.\<close>

definition tuya_os_adapt_bt_port_deinit :: "'s bt_os \<Rightarrow> 's bt_server \<Rightarrow> (int \<times> 's bt_server) option" where
  "tuya_os_adapt_bt_port_deinit k d =
     do {
       (_, d) \<leftarrow> set_active (tuya_service d) False d;
       d \<leftarrow> gatt_db_unref (gs_db d) d;
       Some (OPRT_OK, bsys_do (bt_close k (hci_sock d)) d)
     }"

definition tuya_os_adapt_bt_gap_disconnect :: "'s bt_os \<Rightarrow> 's bt_server \<Rightarrow> int \<times> 's bt_server" where
  "tuya_os_adapt_bt_gap_disconnect k d =
     (let d = mainloop_quit d
      in if \<not> bt_msg_cb d then (EXIT_FAILURE, d)
         else (OPRT_OK, bsys_do (bt_callback k TY_BT_EVENT_ADV_READY []) (bsys_do (bt_callback k TY_BT_EVENT_DISCONNECTED []) d)))"

section \<open>Sending\<close>

definition bt_gatt_server_send_notification :: "'s bt_os \<Rightarrow> 16 word \<Rightarrow> byte list \<Rightarrow> 's bt_server \<Rightarrow> 's bt_server option" where
  "bt_gatt_server_send_notification k h val d =
     (case gs_gatt d of
        Null \<Rightarrow> Some d
      | Freed \<Rightarrow> None
      | Live \<Rightarrow> Some (send_pdu (Handle_Value_Not h (take (min (bt_mtu k - 1) (length val + 2) - 2) val)) d))"

definition tuya_os_adapt_bt_send :: "'s bt_os \<Rightarrow> byte list \<Rightarrow> 's bt_server \<Rightarrow> (int \<times> 's bt_server) option" where
  "tuya_os_adapt_bt_send k val d =
     do { d \<leftarrow> bt_gatt_server_send_notification k (tuya_notify_handle d) val d; Some (OPRT_OK, d) }"

section \<open>A connection\<close>

text \<open>
  \<open>bt_att_new\<close> first adds the descriptor to the main loop, which works while its epoll instance is open and
  the descriptor is below 128.
\<close>

definition mainloop_add_fd :: "int \<Rightarrow> 's bt_server \<Rightarrow> bool" where
  "mainloop_add_fd fd d \<longleftrightarrow> 0 \<le> fd \<and> fd \<le> 127 \<and> epoll_open d"

definition bt_att_new :: "'s bt_os \<Rightarrow> int \<Rightarrow> 's bt_server \<Rightarrow> bool \<times> 's bt_server" where
  "bt_att_new k fd d = (if mainloop_add_fd fd d then bsys_run (bt_att_setup k fd) d else (False, d))"

text \<open>The reference that the new server takes to the database.\<close>

definition bt_gatt_server_new :: "'s bt_os \<Rightarrow> 's bt_server \<Rightarrow> (bool \<times> 's bt_server) option" where
  "bt_gatt_server_new k d =
     (case gs_db d of
        None \<Rightarrow> Some (False, d)
      | Some b \<Rightarrow>
          do {
            (db, n) \<leftarrow> dbs d b;
            let (ok, d) = bsys_run (bt_register k) d;
            Some (ok, if ok then d\<lparr>server_db := Some b, pending_read_op := False, pending_write_op := None,
              dbs := (dbs d)(b \<mapsto> (db, Suc n))\<rparr> else d)
          })"

text \<open>
  The thread up to the main loop. The result is the descriptor of the connection when the loop is
  entered, and none when the thread has ended before.
\<close>

definition l2cap_start :: "'s bt_os \<Rightarrow> 's bt_server \<Rightarrow> (int option \<times> 's bt_server) option" where
  "l2cap_start k d =
     (let (ok, d) = bsys_run (bt_socket k) d
      in if \<not> ok then Some (None, d)
         else
           let (fd, d) = bsys_run (bt_accept k) d
           in if fd < 0 then Some (None, d)
              else
                let (ok, d) = bt_att_new k fd d; d = d\<lparr>gs_att := if ok then Live else Null\<rparr>
                in if \<not> ok then Some (None, bsys_do (bt_close k fd) d)
                   else do {
                     (ok, d) \<leftarrow> bt_gatt_server_new k d;
                     let d = d\<lparr>gs_gatt := if ok then Live else Null\<rparr>;
                     if \<not> ok then Some (None, bsys_do (bt_close k fd) d)
                     else do {
                       d \<leftarrow> create_server d;
                       if \<not> bt_msg_cb d then Some (None, d)
                       else Some (Some fd, bsys_do (bt_callback k TY_BT_EVENT_CONNECTED []) d)
                     }
                   })"

text \<open>
  The end of the loop, when somebody has set its flag, which closes the epoll instance; and what the thread
  frees. The server holds the second reference to the connection. The loop looks at its flag only when an
  event wakes it, and setting the flag does not: the model is the loop after one more event, or one
  that has come with the flag.
\<close>

definition mainloop_end :: "'s bt_server \<Rightarrow> 's bt_server outcome" where
  "mainloop_end d = (if epoll_terminate d then Returns (d\<lparr>epoll_open := False\<rparr>) else Blocks)"

definition l2cap_finish :: "'s bt_os \<Rightarrow> int \<Rightarrow> 's bt_server \<Rightarrow> 's bt_server outcome" where
  "l2cap_finish k fd d =
     bind_outcome (mainloop_end d) (\<lambda>d.
       if gs_gatt d \<noteq> Live \<or> gs_att d \<noteq> Live then Crash
       else outcome_of_option (map_option (\<lambda>d. bsys_do (bt_close k fd) (d\<lparr>gs_gatt := Freed, gs_att := Freed\<rparr>)) (gatt_db_unref (server_db d) d)))"

section \<open>Advertising\<close>

text \<open>A block of data from the SDK: its length and its bytes; and the copy, which is NULL without memory.\<close>

definition copy_data :: "'s bt_os \<Rightarrow> nat \<Rightarrow> byte list \<Rightarrow> 's bt_server \<Rightarrow> byte list option \<times> 's bt_server" where
  "copy_data k len bs d = (let (ok, d) = bsys_run (bt_malloc k len) d in (if ok then Some (take len bs) else None, d))"

definition tuya_os_adapt_bt_reset_adv ::
    "'s bt_os \<Rightarrow> (nat \<times> byte list) option \<Rightarrow> (nat \<times> byte list) option \<Rightarrow> 's bt_server \<Rightarrow> (int \<times> 's bt_server) option" where
  "tuya_os_adapt_bt_reset_adv k adv rsp d =
     (case (adv, rsp) of
        (Some (n, bs), Some (m, cs)) \<Rightarrow>
          if n = 0 \<or> m = 0 then Some (OPRT_INVALID_PARM, d)
          else do {
            let (adv_data, d) = copy_data k n bs d;
            let (rsp_data, d) = copy_data k m cs d;
            let (_, d) = hci_le_set_advertise_enable k False d;
            let (ret, d) = hci_le_set_advertise_parameters k (adv_params 0x0320 0x0320 0 7) d;
            if ret < 0 then Some (EXIT_FAILURE, d)
            else do {
              (ret, d) \<leftarrow> hci_le_set_advertise_data k adv_data n d;
              if ret < 0 then Some (EXIT_FAILURE, d)
              else do {
                (ret, d) \<leftarrow> hci_le_set_scan_rsp_data k rsp_data m d;
                if ret < 0 then Some (EXIT_FAILURE, d)
                else do {
                  let (ret, d) = hci_le_set_advertise_enable k True d;
                  if ret < 0 then Some (EXIT_FAILURE, d)
                  else Some (OPRT_OK, snd (bsys_run (bt_thread k) d))
                }
              }
            }
          }
      | _ \<Rightarrow> Some (OPRT_INVALID_PARM, d))"

section \<open>The controller\<close>

definition check_hci0_exists :: "'s bt_os \<Rightarrow> 's \<Rightarrow> bool \<times> 's" where
  "check_hci0_exists k s = (let (ret, s) = bt_system k ''hciconfig hci0 > /dev/null 2>&1'' s in (ret = 0, s))"

definition check_hci0_runnning :: "'s bt_os \<Rightarrow> 's \<Rightarrow> bool \<times> 's" where
  "check_hci0_runnning k s =
     (let (ret, s) = bt_system k ''hciconfig hci0 > /dev/null 2>&1'' s
      in if ret \<noteq> 0 then (False, s)
         else let (out, s) = bt_popen k ''hciconfig hci0 | grep RUNNING'' s
              in (case out of None \<Rightarrow> False | Some line \<Rightarrow> line \<noteq> [], s))"

text \<open>At most \<open>n\<close> looks at the device, a tenth of a second apart; it is brought up when it is there.\<close>

fun await_hci0 :: "'s bt_os \<Rightarrow> nat \<Rightarrow> 's \<Rightarrow> 's" where
  "await_hci0 k 0 s = s"
| "await_hci0 k (Suc n) s =
     (let (there, s) = check_hci0_exists k s
      in if there then snd (bt_system k ''hciconfig hci0 up'' s) else await_hci0 k n (bt_usleep k 100000 s))"

definition bt_start :: "'s bt_os \<Rightarrow> 's \<Rightarrow> bool \<times> 's" where
  "bt_start k s =
     (let (up, s) = check_hci0_runnning k s
      in if up then (True, s)
         else let (there, s) = bt_access k ''/data/xd/bluetooth/bt_init.sh'' s;
                  (_, s) = bt_system k (if there then ''/data/xd/bluetooth/bt_init.sh'' else ''bt_init.sh'') s
              in check_hci0_runnning k (await_hci0 k 100 s))"

text \<open>The start of the adapter: the controller, whatever comes of it, and then the table of interfaces for the SDK.\<close>

definition tuya_bt_init :: "'s bt_os \<Rightarrow> ('s \<Rightarrow> int \<times> 's) \<Rightarrow> 's \<Rightarrow> int \<times> 's" where
  "tuya_bt_init k register s = (let (_, s) = bt_start k s in register s)"

text \<open>The interfaces that do nothing but report success, and those that are the SDK's.\<close>

definition tuya_os_adapt_bt_get_rssi :: "int option \<Rightarrow> int \<times> int option" where
  "tuya_os_adapt_bt_get_rssi rssi = (OPRT_OK, rssi)"

definition tuya_os_adapt_bt_start_adv :: int where
  "tuya_os_adapt_bt_start_adv = OPRT_OK"

definition tuya_os_adapt_bt_stop_adv :: int where
  "tuya_os_adapt_bt_stop_adv = OPRT_OK"

definition gatt_server_static :: "'s \<Rightarrow> 's bt_server" where
  "gatt_server_static s = \<lparr>gs_att = Null, gs_db = None, gs_gatt = Null, server_db = None, pending_read_op = False,
     pending_write_op = None, tuya_service = None, tuya_write = None, tuya_notify = None,
     tuya_handle = 0, tuya_write_handle = 0, tuya_notify_handle = 0, gatt_svc_chngd_handle = 0, gatt_svc_chngd_enabled = False,
     gatt_tuya_svc_chngd_enabled = False, hci_sock = 0, src_addr = replicate 6 0, bt_msg_cb = False, epoll_open = False,
     epoll_terminate = False, next_db = 0, dbs = (\<lambda>_. None), att_sent = [], bsys = s\<rparr>"

end
