(* ===== verification/Bt_Services.thy ===== *)
theory Bt_Services
  imports Gatt_Layout Tuya_Bt
begin

text \<open>
  The services the adapter creates when an app connects: which handles they get and what lies behind
  them, on any ordered database with room.
\<close>

section \<open>A service under construction\<close>

text \<open>A service with the attributes \<open>as\<close> at its front, in a row from handle \<open>h\<close> on.\<close>

definition srv :: "bool \<Rightarrow> 16 word \<Rightarrow> 'f attribute list \<Rightarrow> 'f service" where
  "srv act num as = \<lparr>sv_active = act, num_handles = num, attributes = map Some as @ replicate (unat num - length as) None\<rparr>"

definition in_row :: "16 word \<Rightarrow> 16 word \<Rightarrow> 'f attribute list \<Rightarrow> bool" where
  "in_row h num as \<longleftrightarrow> as \<noteq> [] \<and> h \<noteq> 0 \<and> unat h + unat num \<le> 65536 \<and> length as \<le> unat num \<and> (\<forall>i<length as. at_handle (as ! i) = h + of_nat i)"

lemma in_row_start: "in_row h num as \<Longrightarrow> service_start (srv act num as) = h"
  by (cases as) (auto simp: in_row_def service_start_def srv_def)

lemma in_row_holds:
  assumes "in_row h num as"
  shows "holds as (unat num - length as) (srv act num as)"
proof -
  have "unat (h + of_nat i) = unat h + i" if "i < length as" for i
    using assms that by (intro unat_step) (auto simp: in_row_def)
  then show ?thesis using assms in_row_start[OF assms, of act] by (auto simp: holds_def srv_def in_row_def unat_gt_0)
qed

lemma in_row_last: "in_row h num as \<Longrightarrow> at_handle (last as) + 1 = h + of_nat (length as)"
  by (cases "length as") (auto simp: in_row_def last_conv_nth)

lemma srv_characteristic:
  assumes "in_row h num as" "length as + 1 < unat num"
  shows "service_insert_characteristic 0 uuid perm props rd wr (srv act num as) =
    (Some (Suc (length as)), srv act num (as @ [new_attribute (h + of_nat (length as)) GATT_CHARAC_UUID
       (props # put_le16 (h + of_nat (Suc (length as))) @ put_le16 uuid) BT_ATT_PERM_READ None None, new_attribute (h + of_nat (Suc (length as))) uuid [] perm rd wr]))"
proof -
  have l: "at_handle (last as) + 1 = h + of_nat (length as)" by (rule in_row_last[OF assms(1)])
  then have l2: "at_handle (last as) + 2 = h + of_nat (Suc (length as))"
    by (metis (no_types, opaque_lifting) add.assoc add.commute of_nat_Suc one_add_one)
  have "1 < unat num - length as" using assms(2) by linarith
  then have i: "service_insert_characteristic 0 uuid perm props rd wr (srv act num as) =
    (Some (Suc (length as)), (srv act num as)\<lparr>attributes := map Some (as @ [new_attribute (at_handle (last as) + 1) GATT_CHARAC_UUID
            (props # put_le16 (at_handle (last as) + 2) @ put_le16 uuid) BT_ATT_PERM_READ None None,
          new_attribute (at_handle (last as) + 2) uuid [] perm rd wr]) @ replicate (unat num - length as - 2) None\<rparr>)"
    by (simp only: insert_characteristic[OF in_row_holds[OF assms(1)]] if_True)
  show ?thesis unfolding i l l2 by (simp add: srv_def)
qed

lemma srv_descriptor:
  assumes "in_row h num as" "length as < unat num"
  shows "service_insert_descriptor 0 uuid perm rd wr (srv act num as) =
    (Some (length as), srv act num (as @ [new_attribute (h + of_nat (length as)) uuid [] perm rd wr]))"
proof -
  have "0 < unat num - length as" using assms(2) by linarith
  then have i: "service_insert_descriptor 0 uuid perm rd wr (srv act num as) =
    (Some (length as), (srv act num as)\<lparr>attributes := map Some (as @ [new_attribute (at_handle (last as) + 1) uuid [] perm rd wr]) @
      replicate (unat num - length as - 1) None\<rparr>)"
    by (simp only: insert_descriptor[OF in_row_holds[OF assms(1)]] if_True)
  show ?thesis unfolding i in_row_last[OF assms(1)] by (simp add: srv_def)
qed

section \<open>The last service of a database\<close>

definition ends_with :: "'f service list \<Rightarrow> 16 word \<Rightarrow> 'f service \<Rightarrow> 'f gatt_db" where
  "ends_with svs m sv = \<lparr>next_handle = m, services = svs @ [sv]\<rparr>"

lemma at_last:
  assumes "\<forall>x \<in> set svs. service_start x \<noteq> service_start sv"
  shows "at_service (service_start sv) f (ends_with svs m sv) = Some (fst (f sv), ends_with svs m (snd (f sv)))"
proof -
  have "List.extract (\<lambda>x. service_start x = service_start sv) (svs @ [sv]) = Some (svs, sv, [])"
    using assms by (simp add: extract_Some_iff)
  then show ?thesis by (simp add: at_service_def ends_with_def split: prod.splits)
qed

lemma at_last_srv:
  assumes "in_row h num as" "\<forall>x \<in> set svs. service_start x \<noteq> h"
  shows "at_service h f (ends_with svs m (srv act num as)) = Some (fst (f (srv act num as)), ends_with svs m (snd (f (srv act num as))))"
  using at_last[of svs "srv act num as" f m] assms(2) by (simp add: in_row_start[OF assms(1)])

lemma attr_at_last:
  assumes "\<forall>x \<in> set svs. service_start x \<noteq> h" "in_row h num as" "i < length as"
  shows "attr_at (h, i) (ends_with svs m (srv act num as)) = Some (as ! i)"
proof -
  have "List.find (\<lambda>x. service_start x = h) svs = None" using assms(1) by (simp add: find_None_iff)
  then have "List.find (\<lambda>x. service_start x = h) (svs @ [srv act num as]) = Some (srv act num as)"
    using in_row_start[OF assms(2), of act] by (induction svs) (auto split: if_splits)
  then show ?thesis using assms(3) by (simp add: attr_at_def ends_with_def srv_def nth_append)
qed

lemma upd_last:
  assumes "\<forall>x \<in> set svs. service_start x \<noteq> h" "in_row h num as" "i < length as"
  shows "upd_attr (h, i) f (ends_with svs m (srv act num as)) = ends_with svs m (srv act num (as[i := f (as ! i)]))"
proof -
  have "map (\<lambda>x. if service_start x = h then x\<lparr>attributes := (attributes x)[i := map_option f (attributes x ! i)]\<rparr> else x) svs = svs"
    using assms(1) by (intro map_idI) simp
  then show ?thesis
    using in_row_start[OF assms(2), of act] assms(3) unfolding upd_attr_def fst_conv snd_conv
    by (simp add: ends_with_def srv_def nth_append list_update_append map_update)
qed
section \<open>One database in the state\<close>

definition put_db :: "nat \<Rightarrow> nat \<Rightarrow> bt_func gatt_db \<Rightarrow> 's bt_server \<Rightarrow> 's bt_server" where
  "put_db b r db d = d\<lparr>dbs := (dbs d)(b \<mapsto> (db, r))\<rparr>"

lemma put_db_same: "dbs d b = Some (db, r) \<Longrightarrow> put_db b r db d = d"
  by (simp add: put_db_def fun_upd_idem)

lemma put_db_fields [simp]:
  "dbs (put_db b r db d) b = Some (db, r)" "gs_db (put_db b r db d) = gs_db d" "bsys (put_db b r db d) = bsys d"
  "bt_msg_cb (put_db b r db d) = bt_msg_cb d" "put_db b r db' (put_db b r db d) = put_db b r db' d"
  "(put_db b r db d)\<lparr>tuya_service := p\<rparr> = put_db b r db (d\<lparr>tuya_service := p\<rparr>)"
  "(put_db b r db d)\<lparr>tuya_write := p\<rparr> = put_db b r db (d\<lparr>tuya_write := p\<rparr>)"
  "(put_db b r db d)\<lparr>tuya_notify := p\<rparr> = put_db b r db (d\<lparr>tuya_notify := p\<rparr>)"
  "(put_db b r db d)\<lparr>tuya_handle := h\<rparr> = put_db b r db (d\<lparr>tuya_handle := h\<rparr>)"
  "(put_db b r db d)\<lparr>tuya_write_handle := h\<rparr> = put_db b r db (d\<lparr>tuya_write_handle := h\<rparr>)"
  "(put_db b r db d)\<lparr>tuya_notify_handle := h\<rparr> = put_db b r db (d\<lparr>tuya_notify_handle := h\<rparr>)"
  "(put_db b r db d)\<lparr>gatt_svc_chngd_handle := h\<rparr> = put_db b r db (d\<lparr>gatt_svc_chngd_handle := h\<rparr>)"
  by (simp_all add: put_db_def)

lemma on_db_put: "on_db b f (put_db b r db d) = map_option (\<lambda>(x, db'). (x, put_db b r db' d)) (f db)"
  by (cases "f db") (auto simp: on_db_def put_db_def)

text \<open>The operations of the adapter on the last service of the database.\<close>

definition room :: "'f gatt_db \<Rightarrow> nat \<Rightarrow> bool" where
  "room db n \<longleftrightarrow> db_ok db \<and> next_handle db \<noteq> 0 \<and> unat (next_handle db) + n \<le> 65536"

lemma room_start: "room db n \<Longrightarrow> 0 < n \<Longrightarrow> \<forall>x \<in> set (services db). service_start x \<noteq> next_handle db"
  using svc_ok_bounds(3) unfolding room_def db_ok_def by (metis add_le_same_cancel1 not_less)

lemma first_in_row:
  assumes "room db (unat num)" "num \<noteq> 0"
  shows "in_row (next_handle db) num [new_attribute (next_handle db) GATT_PRIM_SVC_UUID (put_le16 uuid) BT_ATT_PERM_READ None None]"
  using assms by (auto simp: in_row_def room_def new_attribute_def Suc_le_eq unat_gt_0)

lemma add_service_put:
  assumes "room db (unat num)" "num \<noteq> 0" "gs_db d = Some b"
  shows "add_service uuid num (put_db b r db d) = Some (Some (b, (next_handle db, 0)),
    put_db b r (ends_with (services db) (next_handle db + num)
      (srv False num [new_attribute (next_handle db) GATT_PRIM_SVC_UUID (put_le16 uuid) BT_ATT_PERM_READ None None])) d)"
proof -
  have "gatt_db_service_create uuid (next_handle db) True num =
      srv False num [new_attribute (next_handle db) GATT_PRIM_SVC_UUID (put_le16 uuid) BT_ATT_PERM_READ None None :: bt_func attribute]"
    by (simp add: gatt_db_service_create_def srv_def)
  then have "gatt_db_add_service uuid True num db = (Some (next_handle db, 0), ends_with (services db) (next_handle db + num)
      (srv False num [new_attribute (next_handle db) GATT_PRIM_SVC_UUID (put_le16 uuid) BT_ATT_PERM_READ None None]))"
    using assms(1,2) add_service_result[of db num uuid True] by (simp add: room_def with_service_def ends_with_def)
  then show ?thesis using assms(3) by (simp add: add_service_def on_db_put)
qed

lemma add_characteristic_put:
  assumes "in_row h num as" "length as + 1 < unat num" "\<forall>x \<in> set svs. service_start x \<noteq> h"
  shows "add_characteristic (Some (b, (h, i))) uuid perm props rd wr (put_db b r (ends_with svs m (srv act num as)) d) =
    Some (Some (b, (h, Suc (length as))), put_db b r (ends_with svs m (srv act num (as @ [new_attribute (h + of_nat (length as)) GATT_CHARAC_UUID
       (props # put_le16 (h + of_nat (Suc (length as))) @ put_le16 uuid) BT_ATT_PERM_READ None None,
       new_attribute (h + of_nat (Suc (length as))) uuid [] perm rd wr]))) d)"
  by (simp add: at_last_srv[OF assms(1,3)] add_characteristic_def via_def on_db_put gatt_db_service_add_characteristic_def srv_characteristic[OF assms(1,2)])

lemma add_descriptor_put:
  assumes "in_row h num as" "length as < unat num" "\<forall>x \<in> set svs. service_start x \<noteq> h"
  shows "add_descriptor (Some (b, (h, i))) uuid perm rd wr (put_db b r (ends_with svs m (srv act num as)) d) =
    Some (Some (b, (h, length as)), put_db b r (ends_with svs m (srv act num (as @ [new_attribute (h + of_nat (length as)) uuid [] perm rd wr]))) d)"
  by (simp add: at_last_srv[OF assms(1,3)] add_descriptor_def via_def on_db_put gatt_db_service_add_descriptor_def srv_descriptor[OF assms(1,2)])

lemma set_active_put:
  assumes "in_row h num as" "\<forall>x \<in> set svs. service_start x \<noteq> h"
  shows "set_active (Some (b, (h, i))) en (put_db b r (ends_with svs m (srv act num as)) d) = Some (True, put_db b r (ends_with svs m (srv en num as)) d)"
proof -
  have "(srv act num as)\<lparr>sv_active := en\<rparr> = srv en num as" by (simp add: srv_def)
  then show ?thesis by (simp add: at_last_srv[OF assms] set_active_def via_def on_db_put gatt_db_service_set_active_def)
qed

lemma get_handle_put:
  assumes "in_row h num as" "i < length as" "\<forall>x \<in> set svs. service_start x \<noteq> h"
  shows "get_handle (Some (b, (h, i))) (put_db b r (ends_with svs m (srv act num as)) d) =
    Some (h + of_nat i, put_db b r (ends_with svs m (srv act num as)) d)"
  using attr_at_last[OF assms(3,1,2), of m act] assms(1,2)
  by (simp add: get_handle_def via_def on_db_put gatt_db_attribute_get_handle_def in_row_def)

section \<open>The three services\<close>

text \<open>Their attributes when the first handle is \<open>n\<close>.\<close>

definition gap_attrs :: "16 word \<Rightarrow> bt_func attribute list" where
  "gap_attrs n = [new_attribute n GATT_PRIM_SVC_UUID (put_le16 UUID_GAP) BT_ATT_PERM_READ None None,
     new_attribute (n + 1) GATT_CHARAC_UUID (0x02 # put_le16 (n + 2) @ put_le16 GATT_CHARAC_DEVICE_NAME) BT_ATT_PERM_READ None None,
     new_attribute (n + 2) GATT_CHARAC_DEVICE_NAME [] BT_ATT_PERM_READ (Some Gap_Device_Name_Read) None,
     new_attribute (n + 3) GATT_CHARAC_UUID (0x02 # put_le16 (n + 4) @ put_le16 GATT_CHARAC_APPEARANCE) BT_ATT_PERM_READ None None,
     new_attribute (n + 4) GATT_CHARAC_APPEARANCE (put_le16 128) BT_ATT_PERM_READ None None]"

definition gatt_attrs :: "16 word \<Rightarrow> bt_func attribute list" where
  "gatt_attrs n = [new_attribute n GATT_PRIM_SVC_UUID (put_le16 UUID_GATT) BT_ATT_PERM_READ None None,
     new_attribute (n + 1) GATT_CHARAC_UUID (0x22 # put_le16 (n + 2) @ put_le16 GATT_CHARAC_SERVICE_CHANGED) BT_ATT_PERM_READ None None,
     new_attribute (n + 2) GATT_CHARAC_SERVICE_CHANGED [] BT_ATT_PERM_READ (Some Gatt_Service_Changed) None,
     new_attribute (n + 3) GATT_CLIENT_CHARAC_CFG_UUID [] 3 (Some Svc_Chngd_Ccc_Read) (Some Svc_Chngd_Ccc_Write)]"

definition tuya_attrs :: "16 word \<Rightarrow> bt_func attribute list" where
  "tuya_attrs n = [new_attribute n GATT_PRIM_SVC_UUID (put_le16 UUID_TUYA) BT_ATT_PERM_READ None None,
     new_attribute (n + 1) GATT_CHARAC_UUID (0x04 # put_le16 (n + 2) @ put_le16 UUID_TUYA_WRITE) BT_ATT_PERM_READ None None,
     new_attribute (n + 2) UUID_TUYA_WRITE [] BT_ATT_PERM_WRITE None (Some Tuya_Write),
     new_attribute (n + 3) GATT_CHARAC_UUID (0x10 # put_le16 (n + 4) @ put_le16 UUID_TUYA_NOTIFY) BT_ATT_PERM_READ None None,
     new_attribute (n + 4) UUID_TUYA_NOTIFY [] BT_ATT_PERM_NONE None None,
     new_attribute (n + 5) GATT_CLIENT_CHARAC_CFG_UUID [] 3 (Some Tuya_Chngd_Ccc_Read) (Some Tuya_Chngd_Ccc_Write)]"
lemma attrs_in_row:
  assumes "h \<noteq> 0" "unat h + unat num \<le> 65536" "length as \<le> unat num" "as \<noteq> []" "map at_handle as = map (\<lambda>i. h + of_nat i) [0..<length as]"
  shows "in_row h num as"
proof -
  have "at_handle (as ! i) = h + of_nat i" if "i < length as" for i
    using arg_cong[OF assms(5), of "\<lambda>xs. xs ! i"] that by simp
  then show ?thesis using assms(1-4) by (simp add: in_row_def)
qed

lemma prefix_in_row:
  assumes "in_row h num as" "0 < k"
  shows "in_row h num (take k as)"
  using assms by (auto simp: in_row_def)

lemma rows:
  assumes "n \<noteq> 0"
  shows "unat n + 6 \<le> 65536 \<Longrightarrow> in_row n 6 (gap_attrs n)" "unat n + 4 \<le> 65536 \<Longrightarrow> in_row n 4 (gatt_attrs n)"
    "unat n + 8 \<le> 65536 \<Longrightarrow> in_row n 8 (tuya_attrs n)"
  using assms by (intro attrs_in_row; simp add: gap_attrs_def gatt_attrs_def tuya_attrs_def new_attribute_def upt_rec)+

text \<open>The steps, from one front part of a list of attributes to the next one.\<close>

lemma char_step:
  assumes "in_row h num all" "\<forall>x \<in> set svs. service_start x \<noteq> h" "0 < l" "l + 2 \<le> length all" "j = l + 1" "e = l + 2"
    and "all ! l = new_attribute (h + of_nat l) GATT_CHARAC_UUID (props # put_le16 (h + of_nat (Suc l)) @ put_le16 uuid) BT_ATT_PERM_READ None None"
    and "all ! j = new_attribute (h + of_nat (Suc l)) uuid [] perm rd wr"
  shows "add_characteristic (Some (b, (h, i))) uuid perm props rd wr (put_db b r (ends_with svs m (srv act num (take l all))) d) =
    Some (Some (b, (h, j)), put_db b r (ends_with svs m (srv act num (take e all))) d)"
proof -
  have n: "length (take l all) = l" "l + 1 < unat num" using assms(1,4) by (auto simp: in_row_def)
  have "take e all = take l all @ [all ! l, all ! (l + 1)]" using assms(4,6) by (simp add: take_Suc_conv_app_nth)
  then show ?thesis
    using n assms(5,7,8) by (simp add: add_characteristic_put[OF prefix_in_row[OF assms(1,3)] _ assms(2)])
qed

lemma desc_step:
  assumes "in_row h num all" "\<forall>x \<in> set svs. service_start x \<noteq> h" "0 < l" "l < length all" "e = l + 1"
    and "all ! l = new_attribute (h + of_nat l) uuid [] perm rd wr"
  shows "add_descriptor (Some (b, (h, i))) uuid perm rd wr (put_db b r (ends_with svs m (srv act num (take l all))) d) =
    Some (Some (b, (h, l)), put_db b r (ends_with svs m (srv act num (take e all))) d)"
proof -
  have n: "length (take l all) = l" "l < unat num" using assms(1,4) by (auto simp: in_row_def)
  have "take e all = take l all @ [all ! l]" using assms(4,5) by (simp add: take_Suc_conv_app_nth)
  then show ?thesis
    using n assms(6) by (simp add: add_descriptor_put[OF prefix_in_row[OF assms(1,3)] _ assms(2)])
qed

lemma handle_step:
  assumes "in_row h num all" "\<forall>x \<in> set svs. service_start x \<noteq> h" "i < l" "l \<le> length all" "v = h + of_nat i"
  shows "get_handle (Some (b, (h, i))) (put_db b r (ends_with svs m (srv act num (take l all))) d) =
    Some (v, put_db b r (ends_with svs m (srv act num (take l all))) d)"
  using assms(3-5) by (simp add: get_handle_put[OF prefix_in_row[OF assms(1)] _ assms(2)])

lemma active_step:
  assumes "in_row h num all" "\<forall>x \<in> set svs. service_start x \<noteq> h" "0 < l"
  shows "set_active (Some (b, (h, i))) en (put_db b r (ends_with svs m (srv act num (take l all))) d) =
    Some (True, put_db b r (ends_with svs m (srv en num (take l all))) d)"
  by (rule set_active_put[OF prefix_in_row[OF assms(1,3)] assms(2)])

lemma service_step:
  assumes "room db (unat num)" "num \<noteq> 0" "gs_db d = Some b" "0 < length all"
    and "all ! 0 = new_attribute (next_handle db) GATT_PRIM_SVC_UUID (put_le16 uuid) BT_ATT_PERM_READ None None"
  shows "add_service uuid num (put_db b r db d) = Some (Some (b, (next_handle db, 0)),
    put_db b r (ends_with (services db) (next_handle db + num) (srv False num (take 1 all))) d)"
proof -
  have "take 1 all = [all ! 0]" using assms(4) by (cases all) auto
  then show ?thesis using add_service_put[OF assms(1-3)] assms(5) by simp
qed

lemma bind_pair: "Option.bind (Some (x, y)) (\<lambda>(a, b). f a b) = f x y"
  by simp

lemma create_gap_put:
  assumes "room db 6" "gs_db d = Some b"
  shows "create_gap_service (put_db b r db d) =
    Some (put_db b r (ends_with (services db) (next_handle db + 6) (srv True 6 (gap_attrs (next_handle db)))) d)"
proof -
  let ?n = "next_handle db" and ?svs = "services db" and ?m = "next_handle db + 6"
  define all where "all = (gap_attrs ?n)[4 := new_attribute (?n + 4) GATT_CHARAC_APPEARANCE [] BT_ATT_PERM_READ None None]"
  have n: "?n \<noteq> 0" "unat ?n + 6 \<le> 65536" using assms(1) by (simp_all add: room_def)
  have r: "in_row ?n 6 all"
    using n by (intro attrs_in_row) (simp_all add: all_def gap_attrs_def new_attribute_def upt_rec)
  have fresh: "\<forall>x \<in> set ?svs. service_start x \<noteq> ?n" using room_start[OF assms(1)] by simp
  note steps = char_step[OF r fresh] active_step[OF r fresh]
  have a: "length all = 5" "all ! 0 = gap_attrs ?n ! 0" "all ! 1 = gap_attrs ?n ! 1" "all ! 2 = gap_attrs ?n ! 2" "all ! 3 = gap_attrs ?n ! 3"
    "all ! 4 = new_attribute (?n + 4) GATT_CHARAC_APPEARANCE [] BT_ATT_PERM_READ None None" "take 5 all = all"
    by (simp_all add: all_def gap_attrs_def)
  have s: "add_service UUID_GAP 6 (put_db b r db d) = Some (Some (b, (?n, 0)), put_db b r (ends_with ?svs ?m (srv False 6 (take 1 all))) d)"
    using assms a by (intro service_step) (simp_all add: gap_attrs_def)
  have c1: "add_characteristic (Some (b, (?n, 0))) GATT_CHARAC_DEVICE_NAME BT_ATT_PERM_READ 0x02 (Some Gap_Device_Name_Read) None
      (put_db b r (ends_with ?svs ?m (srv False 6 (take 1 all))) d) = Some (Some (b, (?n, 2)), put_db b r (ends_with ?svs ?m (srv False 6 (take 3 all))) d)"
    using a by (intro steps) (simp_all add: gap_attrs_def)
  have c2: "add_characteristic (Some (b, (?n, 0))) GATT_CHARAC_APPEARANCE BT_ATT_PERM_READ 0x02 None None
      (put_db b r (ends_with ?svs ?m (srv False 6 (take 3 all))) d) = Some (Some (b, (?n, 4)), put_db b r (ends_with ?svs ?m (srv False 6 all)) d)"
    using a by (subst a(7)[symmetric], intro steps) (simp_all add: gap_attrs_def)
  have "attr_at (?n, 4) (ends_with ?svs ?m (srv False 6 all)) = Some (all ! 4)" using attr_at_last[OF fresh r] a(1) by simp
  moreover have "upd_attr (?n, 4) (\<lambda>x. x\<lparr>at_value := [0x80, 0]\<rparr>) (ends_with ?svs ?m (srv False 6 all)) = ends_with ?svs ?m (srv False 6 (gap_attrs ?n))"
    using upd_last[OF fresh r, of 4] a(1) by (simp add: all_def gap_attrs_def new_attribute_def put_le16_def)
  ultimately have w: "via (Some (b, (?n, 4))) Refused (\<lambda>q. gatt_db_attribute_write q 0 (put_le16 128)) (put_db b r (ends_with ?svs ?m (srv False 6 all)) d) =
      Some (Answer 0 [], put_db b r (ends_with ?svs ?m (srv False 6 (gap_attrs ?n))) d)"
    by (simp add: via_def on_db_put gatt_db_attribute_write_def a(6) new_attribute_def put_le16_def)
  have e: "set_active (Some (b, (?n, 0))) True (put_db b r (ends_with ?svs ?m (srv False 6 (gap_attrs ?n))) d) =
      Some (True, put_db b r (ends_with ?svs ?m (srv True 6 (gap_attrs ?n))) d)"
    by (rule set_active_put[OF rows(1)[OF n] fresh])
  show ?thesis by (simp only: create_gap_service_def s c1 c2 w e bind_pair)
qed

lemma create_gatt_put:
  assumes "room db 4" "gs_db d = Some b"
  shows "create_gatt_service (put_db b r db d) =
    Some (put_db b r (ends_with (services db) (next_handle db + 4) (srv True 4 (gatt_attrs (next_handle db)))) (d\<lparr>gatt_svc_chngd_handle := next_handle db + 2\<rparr>))"
proof -
  let ?n = "next_handle db" and ?all = "gatt_attrs (next_handle db)"
  let ?st = "\<lambda>en l. ends_with (services db) (next_handle db + 4) (srv en 4 (take l ?all))"
  let ?d = "d\<lparr>gatt_svc_chngd_handle := ?n + 2\<rparr>"
  have n: "?n \<noteq> 0" "unat ?n + 4 \<le> 65536" using assms(1) by (simp_all add: room_def)
  have r: "in_row ?n 4 ?all" by (rule rows(2)[OF n])
  have fresh: "\<forall>x \<in> set (services db). service_start x \<noteq> ?n" using room_start[OF assms(1)] by simp
  have l: "length ?all = 4" "take 4 ?all = ?all" by (simp_all add: gatt_attrs_def)
  have s: "add_service UUID_GATT 4 (put_db b r db d) = Some (Some (b, (?n, 0)), put_db b r (?st False 1) d)"
    using assms l by (intro service_step) (simp_all add: gatt_attrs_def)
  have c: "add_characteristic (Some (b, (?n, 0))) GATT_CHARAC_SERVICE_CHANGED BT_ATT_PERM_READ 0x22 (Some Gatt_Service_Changed) None
      (put_db b r (?st False 1) d) = Some (Some (b, (?n, 2)), put_db b r (?st False 3) d)"
    using l by (intro char_step[OF r fresh]) (simp_all add: gatt_attrs_def)
  have h: "get_handle (Some (b, (?n, 2))) (put_db b r (?st False 3) d) = Some (?n + 2, put_db b r (?st False 3) d)"
    using l by (intro handle_step[OF r fresh]) simp_all
  have e: "add_descriptor (Some (b, (?n, 0))) GATT_CLIENT_CHARAC_CFG_UUID 3 (Some Svc_Chngd_Ccc_Read) (Some Svc_Chngd_Ccc_Write)
      (put_db b r (?st False 3) ?d) = Some (Some (b, (?n, 3)), put_db b r (?st False 4) ?d)"
    using l by (intro desc_step[OF r fresh]) (simp_all add: gatt_attrs_def)
  have a: "set_active (Some (b, (?n, 0))) True (put_db b r (?st False 4) ?d) = Some (True, put_db b r (?st True 4) ?d)"
    by (rule active_step[OF r fresh]) simp
  show ?thesis by (simp only: create_gatt_service_def s c h e a[unfolded l(2)] bind_pair Let_def put_db_fields l(2))
qed

lemma create_tuya_put:
  assumes "room db 8" "gs_db d = Some b"
  shows "create_tuya_service (put_db b r db d) =
    Some (put_db b r (ends_with (services db) (next_handle db + 8) (srv True 8 (tuya_attrs (next_handle db))))
      (d\<lparr>tuya_service := Some (b, (next_handle db, 0)), tuya_handle := next_handle db, tuya_write := Some (b, (next_handle db, 2)),
         tuya_write_handle := next_handle db + 2, tuya_notify := Some (b, (next_handle db, 4)), tuya_notify_handle := next_handle db + 4\<rparr>))"
proof -
  let ?n = "next_handle db" and ?all = "tuya_attrs (next_handle db)"
  let ?st = "\<lambda>en l. ends_with (services db) (next_handle db + 8) (srv en 8 (take l ?all))"
  let ?d1 = "d\<lparr>tuya_service := Some (b, (?n, 0))\<rparr>"
  let ?d2 = "?d1\<lparr>tuya_handle := ?n\<rparr>"
  let ?d3 = "?d2\<lparr>tuya_write := Some (b, (?n, 2))\<rparr>"
  let ?d4 = "?d3\<lparr>tuya_write_handle := ?n + 2\<rparr>"
  let ?d5 = "?d4\<lparr>tuya_notify := Some (b, (?n, 4))\<rparr>"
  let ?d6 = "?d5\<lparr>tuya_notify_handle := ?n + 4\<rparr>"
  have n: "?n \<noteq> 0" "unat ?n + 8 \<le> 65536" using assms(1) by (simp_all add: room_def)
  have r: "in_row ?n 8 ?all" by (rule rows(3)[OF n])
  have fresh: "\<forall>x \<in> set (services db). service_start x \<noteq> ?n" using room_start[OF assms(1)] by simp
  have l: "length ?all = 6" "take 6 ?all = ?all" by (simp_all add: tuya_attrs_def)
  have s: "add_service UUID_TUYA 8 (put_db b r db d) = Some (Some (b, (?n, 0)), put_db b r (?st False 1) d)"
    using assms l by (intro service_step) (simp_all add: tuya_attrs_def)
  have h1: "get_handle (Some (b, (?n, 0))) (put_db b r (?st False 1) ?d1) = Some (?n, put_db b r (?st False 1) ?d1)"
    using l by (intro handle_step[OF r fresh]) simp_all
  have c1: "add_characteristic (Some (b, (?n, 0))) UUID_TUYA_WRITE BT_ATT_PERM_WRITE 0x04 None (Some Tuya_Write)
      (put_db b r (?st False 1) ?d2) = Some (Some (b, (?n, 2)), put_db b r (?st False 3) ?d2)"
    using l by (intro char_step[OF r fresh]) (simp_all add: tuya_attrs_def)
  have h2: "get_handle (Some (b, (?n, 2))) (put_db b r (?st False 3) ?d3) = Some (?n + 2, put_db b r (?st False 3) ?d3)"
    using l by (intro handle_step[OF r fresh]) simp_all
  have c2: "add_characteristic (Some (b, (?n, 0))) UUID_TUYA_NOTIFY BT_ATT_PERM_NONE 0x10 None None
      (put_db b r (?st False 3) ?d4) = Some (Some (b, (?n, 4)), put_db b r (?st False 5) ?d4)"
    using l by (intro char_step[OF r fresh]) (simp_all add: tuya_attrs_def)
  have h3: "get_handle (Some (b, (?n, 4))) (put_db b r (?st False 5) ?d5) = Some (?n + 4, put_db b r (?st False 5) ?d5)"
    using l by (intro handle_step[OF r fresh]) simp_all
  have e: "add_descriptor (Some (b, (?n, 4))) GATT_CLIENT_CHARAC_CFG_UUID 3 (Some Tuya_Chngd_Ccc_Read) (Some Tuya_Chngd_Ccc_Write)
      (put_db b r (?st False 5) ?d6) = Some (Some (b, (?n, 5)), put_db b r (?st False 6) ?d6)"
    using l by (intro desc_step[OF r fresh]) (simp_all add: tuya_attrs_def)
  have a: "set_active (Some (b, (?n, 0))) True (put_db b r (?st False 6) ?d6) = Some (True, put_db b r (?st True 6) ?d6)"
    by (rule active_step[OF r fresh]) simp
  show ?thesis by (simp only: create_tuya_service_def s h1 c1 h2 c2 h3 e a[unfolded l(2)] bind_pair Let_def put_db_fields l(2))
qed
section \<open>All three\<close>

lemma ends_with_ok:
  assumes "room db (unat num)" "in_row (next_handle db) num as"
  shows "db_ok (ends_with (services db) (next_handle db + num) (srv act num as))"
proof -
  let ?n = "next_handle db" and ?sv = "srv act num as"
  have s: "service_start ?sv = ?n" by (rule in_row_start[OF assms(2)])
  have k: "svc_ok ?sv" using in_row_holds[OF assms(2), of act] by (auto simp: svc_ok_def)
  have b: "\<forall>x \<in> set (services db). start x + places x \<le> unat ?n" using assms(1) by (auto simp: room_def db_ok_def)
  have "?n + num = 0 \<or> unat (?n + num) = unat ?n + unat num"
  proof (cases "unat ?n + unat num = 65536")
    case True
    then have "unat (?n + num) = 0" by (simp add: unat_word_ariths)
    then show ?thesis by (simp add: unat_eq_0)
  next
    case False
    then have "unat ?n + unat num < 2 ^ LENGTH(16)" using assms(1) by (simp add: room_def)
    then show ?thesis using unat_add_lem by blast
  qed
  then have "?n + num = 0 \<or> (\<forall>x \<in> set (services db @ [?sv]). start x + places x \<le> unat (?n + num))"
    using b s by (fastforce simp: srv_def)
  then show ?thesis using assms(1) k b s by (auto simp: db_ok_def ends_with_def room_def sorted_wrt_append)
qed

lemma room_after:
  assumes "room db (unat num + m)" "in_row (next_handle db) num as" "0 < m"
  shows "room (ends_with (services db) (next_handle db + num) (srv act num as)) m"
proof -
  have "unat (next_handle db) + unat num < 2 ^ LENGTH(16)" using assms(1,3) by (simp add: room_def)
  then have "unat (next_handle db + num) = unat (next_handle db) + unat num" by (simp only: unat_add_lem)
  moreover have "0 < unat (next_handle db)" using assms(1) by (simp add: room_def unat_gt_0)
  moreover have "room db (unat num)" using assms(1) by (simp add: room_def)
  ultimately show ?thesis
    using assms(1) ends_with_ok[OF _ assms(2)] by (auto simp: room_def ends_with_def)
qed

definition with_services :: "bt_func gatt_db \<Rightarrow> bt_func gatt_db" where
  "with_services db = \<lparr>next_handle = next_handle db + 18, services = services db @ [srv True 6 (gap_attrs (next_handle db)),
     srv True 4 (gatt_attrs (next_handle db + 6)), srv True 8 (tuya_attrs (next_handle db + 10))]\<rparr>"

definition with_handles :: "nat \<Rightarrow> 16 word \<Rightarrow> 's bt_server \<Rightarrow> 's bt_server" where
  "with_handles b n d = d\<lparr>gatt_svc_chngd_handle := n + 8, tuya_service := Some (b, (n + 10, 0)), tuya_handle := n + 10,
     tuya_write := Some (b, (n + 10, 2)), tuya_write_handle := n + 12, tuya_notify := Some (b, (n + 10, 4)), tuya_notify_handle := n + 14\<rparr>"

lemma create_server_put:
  assumes "room db 18" "gs_db d = Some b"
  shows "create_server (put_db b r db d) = Some (put_db b r (with_services db) (with_handles b (next_handle db) d))"
    and "db_ok (with_services db)"
proof -
  let ?n = "next_handle db"
  let ?db1 = "ends_with (services db) (?n + 6) (srv True 6 (gap_attrs ?n))"
  let ?db2 = "ends_with (services ?db1) (?n + 10) (srv True 4 (gatt_attrs (?n + 6)))"
  let ?db3 = "ends_with (services ?db2) (?n + 18) (srv True 8 (tuya_attrs (?n + 10)))"
  have n: "?n \<noteq> 0" "unat ?n + 6 \<le> 65536" "room db 6" using assms(1) by (simp_all add: room_def)
  have r1: "room ?db1 12" using room_after[of db 6 12 "gap_attrs ?n"] assms(1) rows(1)[OF n(1,2)] by simp
  have n1: "next_handle ?db1 = ?n + 6" "room ?db1 4" using r1 by (simp_all add: room_def ends_with_def)
  have i2: "in_row (?n + 6) 4 (gatt_attrs (?n + 6))" using r1 by (intro rows(2)) (simp_all add: room_def ends_with_def)
  have r2: "room ?db2 8" using room_after[of ?db1 4 8 "gatt_attrs (?n + 6)"] r1 i2 n1 by (simp add: add.assoc)
  have n2: "next_handle ?db2 = ?n + 10" by (simp add: ends_with_def)
  have i3: "in_row (?n + 10) 8 (tuya_attrs (?n + 10))" using r2 by (intro rows(3)) (simp_all add: room_def ends_with_def)
  have g: "create_gatt_service (put_db b r ?db1 d) = Some (put_db b r ?db2 (d\<lparr>gatt_svc_chngd_handle := ?n + 8\<rparr>))"
    using create_gatt_put[of ?db1 d b r] n1 assms(2) by (simp add: add.assoc)
  have t: "create_tuya_service (put_db b r ?db2 (d\<lparr>gatt_svc_chngd_handle := ?n + 8\<rparr>)) = Some (put_db b r ?db3 (with_handles b ?n d))"
    using create_tuya_put[of ?db2 "d\<lparr>gatt_svc_chngd_handle := ?n + 8\<rparr>" b r] r2 n2 assms(2) by (simp add: add.assoc with_handles_def)
  have e: "with_services db = ?db3" by (simp add: with_services_def ends_with_def)
  show "create_server (put_db b r db d) = Some (put_db b r (with_services db) (with_handles b ?n d))"
    unfolding create_server_def create_gap_put[OF n(3) assms(2)] by (simp add: g t e)
  show "db_ok (with_services db)"
    using ends_with_ok[of ?db2 8 "tuya_attrs (?n + 10)" True] r2 i3 n2 by (simp add: e add.assoc)
qed

end
