(* ===== verification/Bt_Requests.thy ===== *)
theory Bt_Requests
  imports Bt_Services
begin

text \<open>
  What a connected app can ask for: every request is answered, whatever the others were, and what it
  writes arrives at the SDK.
\<close>

section \<open>The state of a connection\<close>

definition readers :: "bt_func set" where
  "readers = {Gap_Device_Name_Read, Gatt_Service_Changed, Svc_Chngd_Ccc_Read, Tuya_Chngd_Ccc_Read}"

definition writers :: "bt_func set" where
  "writers = {Svc_Chngd_Ccc_Write, Tuya_Chngd_Ccc_Write, Tuya_Write}"

text \<open>The handlers of an attribute fit, and there are numbers left for \<open>m\<close> operations.\<close>

definition attr_fit :: "nat \<Rightarrow> bt_func attribute \<Rightarrow> bool" where
  "attr_fit m a \<longleftrightarrow> set_option (read_func a) \<subseteq> readers \<and> set_option (write_func a) \<subseteq> writers \<and>
     unat (read_id a) + m < 2 ^ 32 \<and> unat (write_id a) + m < 2 ^ 32"

definition db_fit :: "nat \<Rightarrow> nat \<Rightarrow> 's bt_server \<Rightarrow> bool" where
  "db_fit m b d \<longleftrightarrow> server_db d = Some b \<and> gs_gatt d = Live \<and> bt_msg_cb d \<and>
     (\<exists>db r. dbs d b = Some (db, r) \<and> db_ok db \<and> (\<forall>p a. attr_at p db = Some a \<longrightarrow> attr_fit m a))"

definition idle :: "'s bt_server \<Rightarrow> bool" where
  "idle d \<longleftrightarrow> \<not> pending_read_op d \<and> pending_write_op d = None"

text \<open>What no request changes: of an attribute all but its value and its operations, and the handles.\<close>

definition fixed :: "'f attribute \<Rightarrow> 16 word \<times> 16 word \<times> nat \<times> 'f option \<times> 'f option" where
  "fixed a = (at_handle a, at_uuid a, at_perm a, read_func a, write_func a)"

definition shape :: "nat \<Rightarrow> 's bt_server \<Rightarrow> attr_ptr \<Rightarrow> (16 word \<times> 16 word \<times> nat \<times> bt_func option \<times> bt_func option) option" where
  "shape b d p = Option.bind (dbs d b) (\<lambda>(db, _). map_option fixed (attr_at p db))"

definition serves :: "nat \<Rightarrow> nat \<Rightarrow> 's bt_server \<Rightarrow> 's bt_server \<Rightarrow> bool" where
  "serves m b d d' \<longleftrightarrow> db_fit m b d' \<and> shape b d' = shape b d \<and> tuya_write_handle d' = tuya_write_handle d \<and>
     tuya_notify_handle d' = tuya_notify_handle d"

lemma serves_trans: "serves m b d d' \<Longrightarrow> serves m' b d' d'' \<Longrightarrow> serves m' b d d''"
  by (simp add: serves_def)

lemma attr_fit_less: "attr_fit m a \<Longrightarrow> m' \<le> m \<Longrightarrow> attr_fit m' a"
  by (auto simp: attr_fit_def)

lemma db_fit_less: "db_fit m b d \<Longrightarrow> m' \<le> m \<Longrightarrow> db_fit m' b d"
  unfolding db_fit_def using attr_fit_less by metis

lemma serves_less: "serves m b d d' \<Longrightarrow> m' \<le> m \<Longrightarrow> serves m' b d d'"
  unfolding serves_def using db_fit_less by blast

lemma serves_same:
  assumes "db_fit m b d" "m' \<le> m" "server_db d' = server_db d" "gs_gatt d' = gs_gatt d" "bt_msg_cb d' = bt_msg_cb d" "dbs d' = dbs d"
    "tuya_write_handle d' = tuya_write_handle d" "tuya_notify_handle d' = tuya_notify_handle d"
  shows "serves m' b d d'"
proof -
  have "db_fit m' b d" by (rule db_fit_less[OF assms(1,2)])
  then show ?thesis using assms(3-) by (simp add: serves_def db_fit_def shape_def fun_eq_iff)
qed

lemma serves_upd:
  assumes "db_fit m b d" "dbs d b = Some (db, r)" "\<And>a. fixed (f a) = fixed a" "\<And>a. attr_fit m a \<Longrightarrow> attr_fit m' (f a)" "m' \<le> m"
  shows "serves m' b d (put_db b r (upd_attr p f db) d)"
proof -
  have h: "at_handle (f a) = at_handle a" for a using assms(3)[of a] by (simp add: fixed_def)
  have ok: "db_ok db" "\<forall>p a. attr_at p db = Some a \<longrightarrow> attr_fit m a" using assms(1,2) by (auto simp: db_fit_def)
  have "attr_fit m' a" if "attr_at q (upd_attr p f db) = Some a" for q a
  proof (cases "q = p")
    case True
    then obtain c where "attr_at p db = Some c" "a = f c" using \<open>attr_at q (upd_attr p f db) = Some a\<close> by (auto simp: attr_at_upd[OF h])
    then show ?thesis using ok(2) assms(4) by blast
  next
    case False
    then have "attr_at q db = Some a" using \<open>attr_at q (upd_attr p f db) = Some a\<close> by (simp add: attr_at_upd[OF h])
    then have "attr_fit m a" using ok(2) by blast
    then show ?thesis using assms(5) by (rule attr_fit_less)
  qed
  then have "db_fit m' b (put_db b r (upd_attr p f db) d)"
    using assms(1) upd_attr_ok(1)[OF ok(1) h] by (simp add: db_fit_def put_db_def)
  moreover have "map_option fixed (attr_at q (upd_attr p f db)) = map_option fixed (attr_at q db)" for q
    by (simp add: attr_at_upd[OF h] option.map_comp comp_def assms(3))
  ultimately show ?thesis using assms(2) by (auto simp: serves_def shape_def put_db_def fun_eq_iff)
qed

section \<open>A read\<close>

lemma bsys_same: "d\<lparr>bsys := bsys d\<rparr> = d"
  by (cases d) simp

lemma permissions_system: "\<exists>e s. check_permissions k perm need d = (e, d\<lparr>bsys := s\<rparr>)"
proof -
  obtain known s where "bt_security k (bsys d) = (known, s)" by fastforce
  then have "snd (check_permissions k perm need d) = d \<or> snd (check_permissions k perm need d) = d\<lparr>bsys := s\<rparr>"
    unfolding check_permissions_def bsys_run_def Let_def by (simp only: prod.case snd_conv simp_thms split: if_split)
  moreover have "\<exists>s. d = d\<lparr>bsys := s\<rparr>" by (rule exI[of _ "bsys d"]) (rule bsys_same[symmetric])
  ultimately have "\<exists>s. snd (check_permissions k perm need d) = d\<lparr>bsys := s\<rparr>" by (elim disjE) (blast | simp only:)+
  then show ?thesis by (metis prod.collapse)
qed

lemma read_result_run:
  assumes "dbs d b = Some (db, r)" "attr_at q db = Some a" "i \<noteq> 0" "i \<in> set (pending_reads a)"
  shows "read_result k (b, q) i err val len d = Some (read_complete_cb k (at_handle a) err val len
    (put_db b r (upd_attr q (\<lambda>a. a\<lparr>pending_reads := remove1 i (pending_reads a)\<rparr>) db) d))"
  using assms by (simp add: read_result_def get_handle_def via_def on_db_def gatt_db_attribute_get_handle_def gatt_db_attribute_read_result_def put_db_def fun_upd_idem)

lemma write_result_run:
  assumes "dbs d b = Some (db, r)" "attr_at q db = Some a" "i \<noteq> 0" "i \<in> set (pending_writes a)"
  shows "write_result (b, q) i err d = Some (write_complete_cb (at_handle a) err
    (put_db b r (upd_attr q (\<lambda>a. a\<lparr>pending_writes := remove1 i (pending_writes a)\<rparr>) db) d))"
  using assms by (simp add: write_result_def get_handle_def via_def on_db_def gatt_db_attribute_get_handle_def gatt_db_attribute_write_result_def put_db_def fun_upd_idem)

text \<open>The name of the device can always be read.\<close>

definition name_ok :: "'s bt_os \<Rightarrow> bool" where
  "name_ok k \<longleftrightarrow> (\<forall>s. 0 \<le> fst (fst (bt_name k s)))"

lemma reader_result:
  assumes "f \<in> readers" "name_ok k"
  shows "\<exists>err val len s. call_read k f p i off d = read_result k p i err val len (d\<lparr>bsys := s\<rparr>) \<and> (val = None \<longrightarrow> err \<noteq> 0 \<or> len = 0)"
proof (cases "f = Gap_Device_Name_Read \<and> off = 0")
  case True
  obtain ret name s where n: "bt_name k (bsys d) = ((ret, name), s)" by (metis prod.exhaust)
  then have "0 \<le> ret" using assms(2) by (metis name_ok_def fst_conv)
  then show ?thesis using True n
    by (intro exI[of _ 0] exI[of _ "Some name"] exI[of _ HCI_MAX_NAME_LENGTH] exI[of _ s]) (simp add: call_read_def gap_device_name_read_cb_def bsys_run_def)
next
  case False
  define P where "P = (\<lambda>err val (len :: nat). call_read k f p i off d = read_result k p i err val len d \<and> (val = None \<longrightarrow> err \<noteq> 0 \<or> len = 0))"
  consider "f = Gap_Device_Name_Read" "0 < off" | "f = Gatt_Service_Changed" | "f = Svc_Chngd_Ccc_Read" | "f = Tuya_Chngd_Ccc_Read"
    using assms(1) False by (auto simp: readers_def)
  then have "P BT_ATT_ERROR_INVALID_OFFSET None 0 \<or> P 0 None 0 \<or> P 0 (Some [if gatt_svc_chngd_enabled d then 2 else 0, 0]) 2 \<or>
      P 0 (Some [if gatt_tuya_svc_chngd_enabled d then 1 else 0, 0]) 2"
    by cases (simp_all add: P_def call_read_def gap_device_name_read_cb_def gatt_service_changed_cb_def gatt_svc_chngd_ccc_read_cb_def gatt_tuya_svc_chngd_ccc_read_cb_def)
  then have "\<exists>err val len. P err val len" by blast
  then have "\<exists>err val len. call_read k f p i off d = read_result k p i err val len (d\<lparr>bsys := bsys d\<rparr>) \<and> (val = None \<longrightarrow> err \<noteq> 0 \<or> len = 0)"
    by (simp only: P_def bsys_same)
  then show ?thesis by blast
qed

fun is_answer :: "att_pdu \<Rightarrow> bool" where
  "is_answer (Handle_Value_Not h v) = False"
| "is_answer x = True"

lemma read_complete:
  assumes "val = None \<longrightarrow> err \<noteq> 0 \<or> len = 0"
  shows "\<exists>x. is_answer x \<and> read_complete_cb k h err val len d = send_pdu x (d\<lparr>pending_read_op := False\<rparr>)"
proof -
  have "read_complete_cb k h err val len d = send_pdu (if err \<noteq> 0 then Error_Rsp h err else Read_Rsp (take (min (bt_mtu k - 1) len) (case val of None \<Rightarrow> [] | Some v \<Rightarrow> v)))
      (d\<lparr>pending_read_op := False\<rparr>)"
    using assms by (cases val) (auto simp: read_complete_cb_def Let_def)
  moreover have "is_answer (if err \<noteq> 0 then Error_Rsp h err else Read_Rsp v)" for v by simp
  ultimately show ?thesis by blast
qed

lemma serves_then:
  assumes "serves m b d d'" "server_db d'' = server_db d'" "gs_gatt d'' = gs_gatt d'" "bt_msg_cb d'' = bt_msg_cb d'" "dbs d'' = dbs d'"
    "tuya_write_handle d'' = tuya_write_handle d'" "tuya_notify_handle d'' = tuya_notify_handle d'"
  shows "serves m b d d''"
proof -
  have "db_fit m b d'" using assms(1) by (simp add: serves_def)
  then show ?thesis by (rule serves_trans[OF assms(1) serves_same]) (simp_all add: assms)
qed

text \<open>The numbers of operations go on.\<close>

abbreviation "start_read \<equiv> \<lambda>a. a\<lparr>read_id := read_id a + 1, pending_reads := pending_reads a @ [read_id a + 1]\<rparr>"
abbreviation "start_write \<equiv> \<lambda>a. a\<lparr>write_id := write_id a + 1, pending_writes := pending_writes a @ [write_id a + 1]\<rparr>"

lemma number_left:
  fixes i :: "32 word"
  assumes "unat i + Suc m < 2 ^ 32"
  shows "i + 1 \<noteq> 0" "unat (i + 1) + m < 2 ^ 32"
proof -
  have "unat i + unat (1 :: 32 word) < 2 ^ LENGTH(32)" using assms by simp
  then have u: "unat (i + 1) = unat i + 1" using unat_add_lem[of i 1] by simp
  then show "unat (i + 1) + m < 2 ^ 32" using assms by simp
  show "i + 1 \<noteq> 0" using u by (metis Suc_eq_plus1 nat.simps(3) unat_0)
qed

lemma start_fit:
  assumes "attr_fit (Suc m) a"
  shows "attr_fit m (start_read a)" "attr_fit m (start_write a)"
  using assms number_left[of "read_id a" m] number_left[of "write_id a" m] by (auto simp: attr_fit_def)

text \<open>One answer for one read.\<close>

lemma read_served:
  assumes "db_fit (Suc m) b d" "idle d" "name_ok k"
  shows "\<exists>d' x. app_read k h off d = Some d' \<and> serves m b d d' \<and> idle d' \<and> att_sent d' = att_sent d @ [x] \<and> is_answer x"
proof -
  obtain db r where d: "server_db d = Some b" "dbs d b = Some (db, r)" "db_ok db" "\<forall>p a. attr_at p db = Some a \<longrightarrow> attr_fit (Suc m) a"
    using assms(1) by (auto simp: db_fit_def)
  have sent: ?thesis if "app_read k h off d = Some (send_pdu x (d2\<lparr>pending_read_op := False\<rparr>))" "serves m b d d2" "is_answer x"
    "pending_write_op d2 = None" "att_sent d2 = att_sent d" for x d2
    using that serves_then[OF that(2), of "send_pdu x (d2\<lparr>pending_read_op := False\<rparr>)"] by (simp add: send_pdu_def idle_def)
  have same: "serves m b d d" by (rule serves_same[OF assms(1)]) simp_all
  have no: "d\<lparr>pending_read_op := False\<rparr> = d" using assms(2) by (cases d) (simp add: idle_def)
  show ?thesis
  proof (cases "gatt_db_get_attribute h db")
    case None
    then have "app_read k h off d = Some (send_pdu (Error_Rsp h BT_ATT_ERROR_INVALID_HANDLE) (d\<lparr>pending_read_op := False\<rparr>))"
      by (simp add: app_read_def d no)
    then show ?thesis using assms(2) same by (intro sent[of "Error_Rsp h BT_ATT_ERROR_INVALID_HANDLE" d]) (simp_all add: idle_def)
  next
    case (Some p)
    obtain a where a: "attr_at p db = Some a" "at_handle a = h" using Some attribute_found[OF d(3)] by blast
    obtain e s where c: "check_permissions k (at_perm a) BT_ATT_PERM_READ d = (e, d\<lparr>bsys := s\<rparr>)" using permissions_system[of k "at_perm a" BT_ATT_PERM_READ d] by (elim exE)
    let ?d1 = "d\<lparr>bsys := s\<rparr>\<lparr>pending_read_op := True\<rparr>"
    have s1: "serves (Suc m) b d ?d1" by (rule serves_same[OF assms(1)]) simp_all
    have w: "pending_write_op d = None" "\<not> pending_read_op d" using assms(2) by (simp_all add: idle_def)
    have idle1: "?d1\<lparr>pending_read_op := False\<rparr> = d\<lparr>bsys := s\<rparr>" using w(2) by (cases d) simp
    have run: "app_read k h off d = (if e \<noteq> 0 then Some (send_pdu (Error_Rsp h e) (d\<lparr>bsys := s\<rparr>))
      else do {
        (q, d) \<leftarrow> on_db b (gatt_db_attribute_read (Some p) off) ?d1;
        case q of
          Refused \<Rightarrow> Some (send_pdu (Error_Rsp h BT_ATT_ERROR_UNLIKELY) (d\<lparr>pending_read_op := False\<rparr>))
        | Answer err val \<Rightarrow> Some (read_complete_cb k h err (Some val) (length val) d)
        | Call f i \<Rightarrow> call_read k f (b, p) i off d
      })"
      using w by (simp add: app_read_def d Some a c[unfolded One_nat_def])
    show ?thesis
    proof (cases "e = 0")
      case False
      then have "app_read k h off d = Some (send_pdu (Error_Rsp h e) (?d1\<lparr>pending_read_op := False\<rparr>))" by (simp only: run idle1 if_True not_False_eq_True)
      then show ?thesis using serves_same[OF assms(1), of m ?d1] w by (intro sent[of "Error_Rsp h e" ?d1]) simp_all
    next
      case True
      show ?thesis
      proof (cases "read_func a")
        case None
        then obtain err v where "gatt_db_attribute_read (Some p) off db = Some (Answer err v, db)"
          using a(1) by (cases "length (at_value a) < off") (simp_all add: gatt_db_attribute_read_def)
        then have "app_read k h off d = Some (read_complete_cb k h err (Some v) (length v) ?d1)"
          using True d(2) by (simp add: run on_db_def fun_upd_idem)
        moreover obtain x where "is_answer x" "read_complete_cb k h err (Some v) (length v) ?d1 = send_pdu x (?d1\<lparr>pending_read_op := False\<rparr>)"
          using read_complete[of "Some v"] by blast
        ultimately show ?thesis using serves_same[OF assms(1), of m ?d1] w by (intro sent[of x ?d1]) simp_all
      next
        case (Some f)
        let ?i = "read_id a + 1" and ?db = "upd_attr p start_read db"
        let ?d2 = "put_db b r ?db ?d1"
        let ?fin = "\<lambda>a. a\<lparr>pending_reads := remove1 ?i (pending_reads a)\<rparr>"
        have fit: "attr_fit (Suc m) a" using d(4) a(1) by blast
        have f: "f \<in> readers" "?i \<noteq> 0" using fit Some number_left[of "read_id a" m] by (auto simp: attr_fit_def)
        have "on_db b (gatt_db_attribute_read (Some p) off) ?d1 = Some (Call f ?i, ?d2)"
          using d(2) a(1) Some by (simp add: on_db_def gatt_db_attribute_read_def put_db_def)
        then have call: "app_read k h off d = call_read k f (b, p) ?i off ?d2" using True by (simp add: run)
        have s2: "serves m b d ?d2"
          using serves_trans[OF s1 serves_upd[of "Suc m" b ?d1 db r start_read m p]] s1 d(2) start_fit by (simp add: serves_def fixed_def)
        obtain err val len s' where r: "call_read k f (b, p) ?i off ?d2 = read_result k (b, p) ?i err val len (?d2\<lparr>bsys := s'\<rparr>)"
          "val = None \<longrightarrow> err \<noteq> 0 \<or> len = 0" using reader_result[OF f(1) assms(3)] by blast
        have "attr_at p ?db = Some (start_read a)" using a(1) by (simp add: attr_at_upd)
        then have e: "read_result k (b, p) ?i err val len (?d2\<lparr>bsys := s'\<rparr>) =
            Some (read_complete_cb k h err val len (put_db b r (upd_attr p ?fin ?db) (?d2\<lparr>bsys := s'\<rparr>)))"
          using read_result_run[of "?d2\<lparr>bsys := s'\<rparr>" b ?db r p "start_read a" ?i k err val len] f(2) a(2) by simp
        have s3: "serves m b ?d2 (put_db b r (upd_attr p ?fin ?db) ?d2)"
          using s2 by (intro serves_upd) (auto simp: serves_def fixed_def attr_fit_def)
        obtain x where x: "is_answer x" "read_complete_cb k h err val len (put_db b r (upd_attr p ?fin ?db) (?d2\<lparr>bsys := s'\<rparr>)) =
            send_pdu x (put_db b r (upd_attr p ?fin ?db) (?d2\<lparr>bsys := s'\<rparr>)\<lparr>pending_read_op := False\<rparr>)" using read_complete[OF r(2)] by blast
        let ?d3 = "put_db b r (upd_attr p ?fin ?db) (?d2\<lparr>bsys := s'\<rparr>)"
        have "app_read k h off d = Some (send_pdu x (?d3\<lparr>pending_read_op := False\<rparr>))" by (simp only: call r(1) e x(2))
        moreover have "serves m b d ?d3"
          by (rule serves_then[OF serves_trans[OF s2 s3]]) (simp_all add: put_db_def)
        ultimately show ?thesis using w x(1) by (intro sent[of x ?d3]) (simp_all add: put_db_def)
      qed
    qed
  qed
qed

section \<open>A write\<close>

text \<open>
  What the handler of a write leaves: the operation is answered, and what it told the SDK and the flags
  are in \<open>d'\<close>.
\<close>

lemma writer_result:
  assumes "f \<in> writers" "bt_msg_cb d"
  shows "\<exists>err s e1 e2. call_write k f p i 0 val d =
    write_result p i err (d\<lparr>bsys := s, gatt_svc_chngd_enabled := e1, gatt_tuya_svc_chngd_enabled := e2\<rparr>)"
proof -
  have same: "d\<lparr>bsys := bsys d, gatt_svc_chngd_enabled := gatt_svc_chngd_enabled d, gatt_tuya_svc_chngd_enabled := gatt_tuya_svc_chngd_enabled d\<rparr> = d"
    by (cases d) simp
  consider "f = Svc_Chngd_Ccc_Write" | "f = Tuya_Chngd_Ccc_Write" | "f = Tuya_Write" using assms(1) by (auto simp: writers_def)
  then show ?thesis
  proof cases
    case 1
    show ?thesis
    proof (cases "ccc_write 2 0 (Some val)")
      case (Inl e)
      then have "call_write k f p i 0 val d = write_result p i e d" by (simp add: 1 call_write_def gatt_svc_chngd_ccc_write_cb_def)
      then show ?thesis using same by metis
    next
      case (Inr en)
      have "d\<lparr>gatt_svc_chngd_enabled := en\<rparr> = d\<lparr>bsys := bsys d, gatt_svc_chngd_enabled := en, gatt_tuya_svc_chngd_enabled := gatt_tuya_svc_chngd_enabled d\<rparr>"
        by (cases d) simp
      then have "call_write k f p i 0 val d = write_result p i 0 (d\<lparr>bsys := bsys d, gatt_svc_chngd_enabled := en, gatt_tuya_svc_chngd_enabled := gatt_tuya_svc_chngd_enabled d\<rparr>)"
        using Inr by (simp add: 1 call_write_def gatt_svc_chngd_ccc_write_cb_def)
      then show ?thesis by (intro exI)
    qed
  next
    case 2
    show ?thesis
    proof (cases "ccc_write 1 0 (Some val)")
      case (Inl e)
      then have "call_write k f p i 0 val d = write_result p i e d" by (simp add: 2 call_write_def gatt_tuya_svc_chngd_ccc_write_cb_def)
      then show ?thesis using same by metis
    next
      case (Inr en)
      have "d\<lparr>gatt_tuya_svc_chngd_enabled := en\<rparr> = d\<lparr>bsys := bsys d, gatt_svc_chngd_enabled := gatt_svc_chngd_enabled d, gatt_tuya_svc_chngd_enabled := en\<rparr>"
        by (cases d) simp
      then have "call_write k f p i 0 val d = write_result p i 0 (d\<lparr>bsys := bsys d, gatt_svc_chngd_enabled := gatt_svc_chngd_enabled d, gatt_tuya_svc_chngd_enabled := en\<rparr>)"
        using Inr by (simp add: 2 call_write_def gatt_tuya_svc_chngd_ccc_write_cb_def)
      then show ?thesis by (intro exI)
    qed
  next
    case 3
    let ?s = "bt_callback k TY_BT_EVENT_RX_DATA val (bsys d)"
    have "bsys_do (bt_callback k TY_BT_EVENT_RX_DATA val) d = d\<lparr>bsys := ?s, gatt_svc_chngd_enabled := gatt_svc_chngd_enabled d, gatt_tuya_svc_chngd_enabled := gatt_tuya_svc_chngd_enabled d\<rparr>"
      by (cases d) (simp add: bsys_do_def)
    then have "call_write k f p i 0 val d = write_result p i 0 (d\<lparr>bsys := ?s, gatt_svc_chngd_enabled := gatt_svc_chngd_enabled d, gatt_tuya_svc_chngd_enabled := gatt_tuya_svc_chngd_enabled d\<rparr>)"
      using assms(2) by (simp add: 3 call_write_def tuya_write_cb_def)
    then show ?thesis by (intro exI)
  qed
qed

text \<open>One answer for one request, and none for a command.\<close>

lemma write_served:
  assumes "db_fit (Suc m) b d" "idle d"
  shows "\<exists>d' xs. app_write k cmd h val d = Some d' \<and> serves m b d d' \<and> idle d' \<and> att_sent d' = att_sent d @ xs \<and>
    length xs = of_bool (\<not> cmd) \<and> list_all is_answer xs"
proof -
  obtain db r where d: "server_db d = Some b" "dbs d b = Some (db, r)" "db_ok db" "\<forall>p a. attr_at p db = Some a \<longrightarrow> attr_fit (Suc m) a" "bt_msg_cb d"
    using assms(1) by (auto simp: db_fit_def)
  have w: "pending_write_op d = None" "\<not> pending_read_op d" using assms(2) by (simp_all add: idle_def)
  have refused: ?thesis if "app_write k cmd h val d = Some (write_error cmd h e (d\<lparr>bsys := s\<rparr>))" for e s
  proof (intro exI conjI)
    show "serves m b d (write_error cmd h e (d\<lparr>bsys := s\<rparr>))"
      by (rule serves_same[OF assms(1)]) (simp_all add: write_error_def send_pdu_def)
    show "att_sent (write_error cmd h e (d\<lparr>bsys := s\<rparr>)) = att_sent d @ (if cmd then [] else [Error_Rsp h e])"
      by (simp add: write_error_def send_pdu_def)
  qed (use that assms(2) in \<open>simp_all add: write_error_def send_pdu_def idle_def\<close>)
  have finished: ?thesis if "app_write k cmd h val d = Some (write_complete_cb h e d2)" "serves m b d d2"
    "pending_write_op d2 = Some cmd" "\<not> pending_read_op d2" "att_sent d2 = att_sent d" for e d2
  proof (intro exI conjI)
    show "serves m b d (write_complete_cb h e d2)"
      by (rule serves_then[OF that(2)]) (simp_all add: write_complete_cb_def send_pdu_def Let_def)
    show "att_sent (write_complete_cb h e d2) = att_sent d @ (if cmd then [] else [if e \<noteq> 0 then Error_Rsp h e else Write_Rsp])"
      by (simp add: write_complete_cb_def send_pdu_def Let_def that(3,5))
  qed (use that in \<open>simp_all add: write_complete_cb_def send_pdu_def Let_def idle_def\<close>)
  show ?thesis
  proof (cases "gatt_db_get_attribute h db")
    case None
    then have "app_write k cmd h val d = Some (write_error cmd h BT_ATT_ERROR_INVALID_HANDLE (d\<lparr>bsys := bsys d\<rparr>))"
      unfolding bsys_same by (simp add: app_write_def d)
    then show ?thesis by (rule refused)
  next
    case (Some p)
    obtain a where a: "attr_at p db = Some a" "at_handle a = h" using Some attribute_found[OF d(3)] by blast
    obtain e s where c: "check_permissions k (at_perm a) BT_ATT_PERM_WRITE d = (e, d\<lparr>bsys := s\<rparr>)"
      using permissions_system[of k "at_perm a" BT_ATT_PERM_WRITE d] by (elim exE)
    let ?d1 = "d\<lparr>bsys := s\<rparr>\<lparr>pending_write_op := Some cmd\<rparr>"
    have s1: "serves (Suc m) b d ?d1" by (rule serves_same[OF assms(1)]) simp_all
    have run: "app_write k cmd h val d = (if e \<noteq> 0 then Some (write_error cmd h e (d\<lparr>bsys := s\<rparr>))
      else do {
        (q, d) \<leftarrow> on_db b (gatt_db_attribute_write (Some p) 0 val) ?d1;
        case q of
          Refused \<Rightarrow> Some (write_error cmd h BT_ATT_ERROR_UNLIKELY (d\<lparr>pending_write_op := None\<rparr>))
        | Answer err _ \<Rightarrow> Some (write_complete_cb h err d)
        | Call f i \<Rightarrow> call_write k f (b, p) i 0 val d
      })"
      using w by (simp add: app_write_def d Some a c[unfolded One_nat_def])
    show ?thesis
    proof (cases "e = 0")
      case False
      then have "app_write k cmd h val d = Some (write_error cmd h e (d\<lparr>bsys := s\<rparr>))" by (simp only: run if_True not_False_eq_True)
      then show ?thesis by (rule refused)
    next
      case True
      show ?thesis
      proof (cases "write_func a")
        case None
        have fit: "serves (Suc m) b d (put_db b r (upd_attr p (\<lambda>a. a\<lparr>at_value := v\<rparr>) db) ?d1)" for v
          by (rule serves_trans[OF s1 serves_upd[of "Suc m"]]) (use s1 d(2) in \<open>simp_all add: serves_def fixed_def attr_fit_def\<close>)
        have "put_db b r db ?d1 = ?d1" using d(2) by (intro put_db_same) simp
        then obtain db' where g: "gatt_db_attribute_write (Some p) 0 val db = Some (Answer 0 [], db')" "serves (Suc m) b d (put_db b r db' ?d1)"
          using a(1) None s1 fit by (cases "val = []") (simp_all add: gatt_db_attribute_write_def Let_def)
        have "on_db b (gatt_db_attribute_write (Some p) 0 val) ?d1 = Some (Answer 0 [], put_db b r db' ?d1)"
          using d(2) g(1) by (simp add: on_db_def put_db_def)
        then have "app_write k cmd h val d = Some (write_complete_cb h 0 (put_db b r db' ?d1))" using True by (simp add: run)
        moreover have "serves m b d (put_db b r db' ?d1)" by (rule serves_less[OF g(2)]) simp
        ultimately show ?thesis using w by (intro finished[of 0 "put_db b r db' ?d1"]) (simp_all add: put_db_def)
      next
        case (Some f)
        let ?i = "write_id a + 1" and ?db = "upd_attr p start_write db"
        let ?d2 = "put_db b r ?db ?d1"
        let ?fin = "\<lambda>a. a\<lparr>pending_writes := remove1 ?i (pending_writes a)\<rparr>"
        have fit: "attr_fit (Suc m) a" using d(4) a(1) by blast
        have f: "f \<in> writers" "?i \<noteq> 0" using fit Some number_left[of "write_id a" m] by (auto simp: attr_fit_def)
        have "on_db b (gatt_db_attribute_write (Some p) 0 val) ?d1 = Some (Call f ?i, ?d2)"
          using d(2) a(1) Some by (simp add: on_db_def gatt_db_attribute_write_def put_db_def)
        then have call: "app_write k cmd h val d = call_write k f (b, p) ?i 0 val ?d2" using True by (simp add: run)
        have s2: "serves m b d ?d2"
          using serves_trans[OF s1 serves_upd[of "Suc m" b ?d1 db r start_write m p]] s1 d(2) start_fit by (simp add: serves_def fixed_def)
        obtain err s' e1 e2 where r: "call_write k f (b, p) ?i 0 val ?d2 = write_result (b, p) ?i err (?d2\<lparr>bsys := s', gatt_svc_chngd_enabled := e1, gatt_tuya_svc_chngd_enabled := e2\<rparr>)"
          using writer_result[OF f(1), of ?d2 k "(b, p)" ?i val] d(5) by (auto simp: put_db_def)
        let ?d2' = "?d2\<lparr>bsys := s', gatt_svc_chngd_enabled := e1, gatt_tuya_svc_chngd_enabled := e2\<rparr>"
        let ?d3 = "put_db b r (upd_attr p ?fin ?db) ?d2'"
        have "attr_at p ?db = Some (start_write a)" using a(1) by (simp add: attr_at_upd)
        then have e: "write_result (b, p) ?i err ?d2' = Some (write_complete_cb h err ?d3)"
          using write_result_run[of ?d2' b ?db r p "start_write a" ?i err] f(2) a(2) by simp
        have s3: "serves m b ?d2 (put_db b r (upd_attr p ?fin ?db) ?d2)"
          using s2 by (intro serves_upd) (auto simp: serves_def fixed_def attr_fit_def)
        have "app_write k cmd h val d = Some (write_complete_cb h err ?d3)" by (simp only: call r e)
        moreover have "serves m b d ?d3" by (rule serves_then[OF serves_trans[OF s2 s3]]) (simp_all add: put_db_def)
        ultimately show ?thesis using w by (intro finished[of err ?d3]) (simp_all add: put_db_def)
      qed
    qed
  qed
qed

section \<open>Any sequence of them\<close>

text \<open>What can happen to a connection: the app reads, writes, or sends a command, and the SDK sends.\<close>

datatype bt_request = Read_Req "16 word" nat | Write_Req "16 word" "byte list" | Write_Cmd "16 word" "byte list" | Sdk_Send "byte list"

fun serve :: "'s bt_os \<Rightarrow> bt_request \<Rightarrow> 's bt_server \<Rightarrow> 's bt_server option" where
  "serve k (Read_Req h off) d = app_read k h off d"
| "serve k (Write_Req h val) d = app_write k False h val d"
| "serve k (Write_Cmd h val) d = app_write k True h val d"
| "serve k (Sdk_Send val) d = map_option snd (tuya_os_adapt_bt_send k val d)"

fun serve_all :: "'s bt_os \<Rightarrow> bt_request list \<Rightarrow> 's bt_server \<Rightarrow> 's bt_server option" where
  "serve_all k [] d = Some d"
| "serve_all k (q # qs) d = do { d \<leftarrow> serve k q d; serve_all k qs d }"

fun expects_answer :: "bt_request \<Rightarrow> bool" where
  "expects_answer (Write_Cmd h val) = False"
| "expects_answer (Sdk_Send val) = False"
| "expects_answer _ = True"

definition answers :: "'s bt_server \<Rightarrow> att_pdu list" where
  "answers d = filter is_answer (att_sent d)"

lemma send_live:
  assumes "gs_gatt d = Live"
  shows "tuya_os_adapt_bt_send k val d = Some (OPRT_OK, send_pdu (Handle_Value_Not (tuya_notify_handle d) (take (min (bt_mtu k - 1) (length val + 2) - 2) val)) d)"
  using assms by (simp add: tuya_os_adapt_bt_send_def bt_gatt_server_send_notification_def)

lemma serve_step:
  assumes "db_fit (Suc m) b d" "idle d" "name_ok k"
  shows "\<exists>d'. serve k q d = Some d' \<and> serves m b d d' \<and> idle d' \<and> length (answers d') = length (answers d) + of_bool (expects_answer q)"
proof (cases q)
  case (Read_Req h off)
  then show ?thesis using read_served[OF assms, of h off] by (auto simp: answers_def)
next
  case (Write_Req h val)
  obtain d' xs where w: "app_write k False h val d = Some d'" "serves m b d d'" "idle d'" "att_sent d' = att_sent d @ xs" "length xs = 1" "list_all is_answer xs"
    using write_served[OF assms(1,2), of k False h val] by auto
  then have "filter is_answer xs = xs" by (simp add: list_all_iff)
  then show ?thesis using w Write_Req by (simp add: answers_def)
next
  case (Write_Cmd h val)
  then show ?thesis using write_served[OF assms(1,2), of k True h val] by (auto simp: answers_def)
next
  case (Sdk_Send val)
  let ?x = "Handle_Value_Not (tuya_notify_handle d) (take (min (bt_mtu k - 1) (length val + 2) - 2) val)"
  have "serves m b d (send_pdu ?x d)" by (rule serves_same[OF assms(1)]) (simp_all add: send_pdu_def)
  moreover have "tuya_os_adapt_bt_send k val d = Some (OPRT_OK, send_pdu ?x d)"
    using assms(1) by (intro send_live) (simp add: db_fit_def)
  ultimately show ?thesis using Sdk_Send assms(2) by (simp add: answers_def send_pdu_def idle_def)
qed

lemma serve_all_run:
  assumes "db_fit (length qs + m) b d" "idle d" "name_ok k"
  shows "\<exists>d'. serve_all k qs d = Some d' \<and> serves m b d d' \<and> idle d' \<and>
    length (answers d') = length (answers d) + length (filter expects_answer qs)"
  using assms(1,2)
proof (induction qs arbitrary: d)
  case Nil
  then have "serves m b d d" by (intro serves_same[of m]) simp_all
  then show ?case using Nil by simp
next
  case (Cons q qs)
  have "db_fit (Suc (length qs + m)) b d" using Cons.prems(1) by simp
  then obtain d1 where d1: "serve k q d = Some d1" "serves (length qs + m) b d d1" "idle d1"
      "length (answers d1) = length (answers d) + of_bool (expects_answer q)"
    using serve_step[OF _ Cons.prems(2) assms(3)] by blast
  then have "db_fit (length qs + m) b d1" by (simp add: serves_def)
  then obtain d2 where d2: "serve_all k qs d1 = Some d2" "serves m b d1 d2" "idle d2"
      "length (answers d2) = length (answers d1) + length (filter expects_answer qs)"
    using Cons.IH d1(3) by blast
  then show ?case using d1 serves_trans[OF d1(2) d2(2)] by simp
qed

text \<open>What was asked before and what is asked after a request.\<close>

lemma serve_all_append: "serve_all k (xs @ ys) d = Option.bind (serve_all k xs d) (serve_all k ys)"
  by (induction xs arbitrary: d) (auto simp: bind_eq_None_conv split: Option.bind_split)

end
