(* ===== verification/Bt_Session.thy ===== *)
theory Bt_Session
  imports Bt_Requests
begin

text \<open>
  The Bluetooth adapter from its start to the end of a connection: starting, advertising, an app that
  connects, what it asks for, and what is left when it is gone.
\<close>

section \<open>Steps that only touch the system\<close>

lemma bsys_run_is: "bsys_run f d = (fst (f (bsys d)), d\<lparr>bsys := snd (f (bsys d))\<rparr>)"
  by (simp add: bsys_run_def split: prod.splits)

definition only_system :: "'s bt_server \<Rightarrow> 's bt_server \<Rightarrow> bool" where
  "only_system d d' \<longleftrightarrow> (\<exists>s. d' = d\<lparr>bsys := s\<rparr>)"

lemma only_system_trans: "only_system d d' \<Longrightarrow> only_system d' d'' \<Longrightarrow> only_system d d''"
  by (auto simp: only_system_def)

lemma only_system_run [simp]: "only_system d (d\<lparr>bsys := s\<rparr>)"
  by (auto simp: only_system_def)

lemma enable_is: "hci_le_set_advertise_enable k en d = (r, d') \<Longrightarrow> only_system d d'"
  by (auto simp: hci_le_set_advertise_enable_def bsys_run_is case_prod_beta)

lemma parameters_is: "hci_le_set_advertise_parameters k cp d = (r, d') \<Longrightarrow> only_system d d'"
  by (auto simp: hci_le_set_advertise_parameters_def bsys_run_is case_prod_beta)

lemma data_is:
  "hci_le_set_advertise_data k data len d = Some (r, d') \<Longrightarrow> only_system d d'"
  "hci_le_set_scan_rsp_data k data len d = Some (r, d') \<Longrightarrow> only_system d d'"
  by (auto simp: hci_le_set_advertise_data_def hci_le_set_scan_rsp_data_def bsys_run_is case_prod_beta)

lemma copy_is: "copy_data k len bs d = (p, d') \<Longrightarrow> only_system d d'"
  by (auto simp: copy_data_def bsys_run_is case_prod_beta)

lemma reset_adv_is:
  assumes "tuya_os_adapt_bt_reset_adv k adv rsp d = Some (OPRT_OK, d')"
  shows "only_system d d'"
proof -
  obtain n bs m cs where a: "adv = Some (n, bs)" "rsp = Some (m, cs)" "n \<noteq> 0" "m \<noteq> 0"
    using assms by (auto simp: tuya_os_adapt_bt_reset_adv_def split: option.splits if_splits prod.splits)
  obtain p1 d1 where 1: "copy_data k n bs d = (p1, d1)" by fastforce
  obtain p2 d2 where 2: "copy_data k m cs d1 = (p2, d2)" by fastforce
  obtain r3 d3 where 3: "hci_le_set_advertise_enable k False d2 = (r3, d3)" by fastforce
  obtain r4 d4 where 4: "hci_le_set_advertise_parameters k (adv_params 0x0320 0x0320 0 7) d3 = (r4, d4)" by fastforce
  note run = assms[unfolded tuya_os_adapt_bt_reset_adv_def a option.case prod.case 1 2 3 4 Let_def]
  obtain r5 d5 where 5: "hci_le_set_advertise_data k p1 n d4 = Some (r5, d5)"
    using run a(3,4) by (auto split: if_splits simp: bind_eq_Some_conv)
  obtain r6 d6 where 6: "hci_le_set_scan_rsp_data k p2 m d5 = Some (r6, d6)"
    using run a(3,4) 5 by (auto split: if_splits simp: bind_eq_Some_conv)
  obtain r7 d7 where 7: "hci_le_set_advertise_enable k True d6 = (r7, d7)" by fastforce
  have "only_system d7 d'" using run a(3,4) 5 6 7 by (auto split: if_splits simp: bsys_run_is)
  then show ?thesis
    using copy_is[OF 1] copy_is[OF 2] enable_is[OF 3] parameters_is[OF 4] data_is(1)[OF 5] data_is(2)[OF 6] enable_is[OF 7] only_system_trans
    by meson
qed

section \<open>Starting\<close>

lemma port_init_ok:
  assumes "tuya_os_adapt_bt_port_init k p d = Some (OPRT_OK, d')"
  shows "gs_db d' = Some (next_db d)" "dbs d' (next_db d) = Some (gatt_db_new, 1)" "bt_msg_cb d' = the p" "epoll_open d'" "\<not> epoll_terminate d'"
  using assms by (auto simp: tuya_os_adapt_bt_port_init_def mainloop_init_def bsys_run_is case_prod_beta Let_def bind_eq_Some_conv split: if_splits)

text \<open>What a connection finds: the services in the database, one more reference to it, and nothing pending.\<close>

definition connected :: "nat \<Rightarrow> nat \<Rightarrow> bt_func gatt_db \<Rightarrow> 's \<Rightarrow> 's bt_server \<Rightarrow> 's bt_server" where
  "connected b r db s d = put_db b (Suc r) (with_services db) (with_handles b (next_handle db)
     (d\<lparr>gs_att := Live, gs_gatt := Live, server_db := Some b, pending_read_op := False, pending_write_op := None, bsys := s\<rparr>))"

lemma l2cap_connected:
  assumes "l2cap_start k d = Some (Some fd, d')" "gs_db d = Some b" "dbs d b = Some (db, r)" "room db 18"
  shows "\<exists>s. d' = connected b r db s d" "bt_msg_cb d" "0 \<le> fd" "fd \<le> 127" "epoll_open d"
proof -
  obtain ok1 s1 where 1: "bt_socket k (bsys d) = (ok1, s1)" by fastforce
  obtain f s2 where 2: "bt_accept k s1 = (f, s2)" by fastforce
  obtain ok3 s3 where 3: "bt_att_setup k f s2 = (ok3, s3)" by fastforce
  obtain ok4 s4 where 4: "bt_register k s3 = (ok4, s4)" by fastforce
  have ok: "ok1" "0 \<le> f" "f \<le> 127" "epoll_open d" "ok3"
    using assms(1) 1 2 3 by (auto simp: l2cap_start_def bsys_run_def bt_att_new_def mainloop_add_fd_def split: if_splits)
  let ?d4 = "d\<lparr>gs_att := Live, gs_gatt := Live, server_db := Some b, pending_read_op := False, pending_write_op := None, bsys := s4\<rparr>"
  note run = assms(1) 1 2 3 4 ok assms(2,3)
  have ok4 using run by (auto simp: l2cap_start_def bsys_run_def bt_att_new_def mainloop_add_fd_def bt_gatt_server_new_def split: if_splits)
  have c: "create_server (put_db b (Suc r) db ?d4) = Some (put_db b (Suc r) (with_services db) (with_handles b (next_handle db) ?d4))"
    using create_server_put(1)[OF assms(4), of ?d4 b "Suc r"] assms(2) by simp
  let ?d5 = "d\<lparr>gs_att := Live, bsys := s4, server_db := Some b, pending_read_op := False, pending_write_op := None,
      dbs := (dbs d)(b \<mapsto> (db, Suc r)), gs_gatt := Live\<rparr>"
  have "?d5 = put_db b (Suc r) db ?d4" by (cases d) (simp add: put_db_def)
  then have c5: "create_server ?d5 = Some (put_db b (Suc r) (with_services db) (with_handles b (next_handle db) ?d4))" using c by (simp only:)
  have "l2cap_start k d = Option.bind (create_server ?d5) (\<lambda>d. if \<not> bt_msg_cb d then Some (None, d) else Some (Some f, bsys_do (bt_callback k TY_BT_EVENT_CONNECTED []) d))"
    using 1 2 3 4 ok \<open>ok4\<close> assms(2,3)
    by (simp add: l2cap_start_def bsys_run_def bt_att_new_def mainloop_add_fd_def bt_gatt_server_new_def)
  then have e: "(if bt_msg_cb d then (Some f, bsys_do (bt_callback k TY_BT_EVENT_CONNECTED []) (put_db b (Suc r) (with_services db) (with_handles b (next_handle db) ?d4)))
      else (None, put_db b (Suc r) (with_services db) (with_handles b (next_handle db) ?d4))) = (Some fd, d')"
    using assms(1) unfolding c5 by (simp add: put_db_def with_handles_def split: if_splits)
  then show "bt_msg_cb d" by (simp split: if_splits)
  then have f: "f = fd" "d' = bsys_do (bt_callback k TY_BT_EVENT_CONNECTED []) (put_db b (Suc r) (with_services db) (with_handles b (next_handle db) ?d4))"
    using e by simp_all
  show "\<exists>s. d' = connected b r db s d"
    by (rule exI[of _ "bt_callback k TY_BT_EVENT_CONNECTED [] s4"]) (simp add: f connected_def bsys_do_def put_db_def with_handles_def)
  show "0 \<le> fd" "fd \<le> 127" "epoll_open d" using ok f by simp_all
qed
section \<open>The first connection\<close>

lemma attr_at_member: "attr_at p db = Some a \<Longrightarrow> \<exists>sv \<in> set (services db). Some a \<in> set (attributes sv)"
  by (auto simp: attr_at_def find_Some_iff split: option.splits if_splits) (metis nth_mem)

lemma first_fit:
  assumes "attr_at p (with_services gatt_db_new) = Some a" "m < 2 ^ 32"
  shows "attr_fit m a"
proof -
  have "a \<in> set (gap_attrs 1) \<union> set (gatt_attrs 7) \<union> set (tuya_attrs 11)"
    using attr_at_member[OF assms(1)] by (auto simp: with_services_def gatt_db_new_def srv_def)
  then show ?thesis using assms(2)
    by (auto simp: gap_attrs_def gatt_attrs_def tuya_attrs_def new_attribute_def attr_fit_def readers_def writers_def)
qed

lemma first_shape:
  "map_option fixed (attr_at (11, 2) (with_services gatt_db_new)) = Some (13, UUID_TUYA_WRITE, BT_ATT_PERM_WRITE, None, Some Tuya_Write)"
  "map_option fixed (attr_at (11, 5) (with_services gatt_db_new)) = Some (16, GATT_CLIENT_CHARAC_CFG_UUID, 3, Some Tuya_Chngd_Ccc_Read, Some Tuya_Chngd_Ccc_Write)"
proof -
  have s: "service_start (srv True 6 (gap_attrs 1)) = 1" "service_start (srv True 4 (gatt_attrs 7)) = 7" "service_start (srv True 8 (tuya_attrs 11)) = 11"
    by (simp_all add: service_start_def srv_def gap_attrs_def gatt_attrs_def tuya_attrs_def new_attribute_def)
  show "map_option fixed (attr_at (11, 2) (with_services gatt_db_new)) = Some (13, UUID_TUYA_WRITE, BT_ATT_PERM_WRITE, None, Some Tuya_Write)"
    "map_option fixed (attr_at (11, 5) (with_services gatt_db_new)) = Some (16, GATT_CLIENT_CHARAC_CFG_UUID, 3, Some Tuya_Chngd_Ccc_Read, Some Tuya_Chngd_Ccc_Write)"
    by (simp_all add: attr_at_def with_services_def gatt_db_new_def s) (simp_all add: srv_def tuya_attrs_def new_attribute_def fixed_def)
qed

text \<open>Starting, advertising, and an app that connects.\<close>

definition first_session :: "'s bt_os \<Rightarrow> (nat \<times> byte list) option \<Rightarrow> (nat \<times> byte list) option \<Rightarrow> 's bt_server \<Rightarrow> 's bt_server \<Rightarrow> bool" where
  "first_session k adv rsp d d' \<longleftrightarrow> (\<exists>d1 d2 fd. tuya_os_adapt_bt_port_init k (Some True) d = Some (OPRT_OK, d1) \<and>
     tuya_os_adapt_bt_reset_adv k adv rsp d1 = Some (OPRT_OK, d2) \<and> l2cap_start k d2 = Some (Some fd, d'))"

lemma first_connected:
  assumes "first_session k adv rsp d d'"
  shows "\<exists>s d2. d' = connected (next_db d) 1 gatt_db_new s d2 \<and> bt_msg_cb d2"
proof -
  obtain d1 d2 fd where s: "tuya_os_adapt_bt_port_init k (Some True) d = Some (OPRT_OK, d1)" "only_system d1 d2" "l2cap_start k d2 = Some (Some fd, d')"
    using assms reset_adv_is unfolding first_session_def by blast
  have "gs_db d2 = Some (next_db d)" "dbs d2 (next_db d) = Some (gatt_db_new, 1)" using port_init_ok[OF s(1)] s(2) by (auto simp: only_system_def)
  moreover have "room gatt_db_new 18" using db_ok_new by (simp add: room_def) (simp add: gatt_db_new_def)
  ultimately show ?thesis using l2cap_connected(1,2)[OF s(3)] by blast
qed

lemma first_ready:
  assumes "first_session k adv rsp d d'" "m < 2 ^ 32"
  shows "db_fit m (next_db d) d'" "idle d'" "tuya_write_handle d' = 13" "tuya_notify_handle d' = 15"
    "shape (next_db d) d' (11, 2) = Some (13, UUID_TUYA_WRITE, BT_ATT_PERM_WRITE, None, Some Tuya_Write)"
    "shape (next_db d) d' (11, 5) = Some (16, GATT_CLIENT_CHARAC_CFG_UUID, 3, Some Tuya_Chngd_Ccc_Read, Some Tuya_Chngd_Ccc_Write)"
proof -
  obtain s d2 where c: "d' = connected (next_db d) 1 gatt_db_new s d2" "bt_msg_cb d2" using first_connected[OF assms(1)] by blast
  have "room gatt_db_new 18" using db_ok_new by (simp add: room_def) (simp add: gatt_db_new_def)
  then have ok: "db_ok (with_services gatt_db_new)" using create_server_put(2)[of gatt_db_new "d2\<lparr>gs_db := Some 0\<rparr>" 0] by simp
  show "db_fit m (next_db d) d'" using ok c first_fit[OF _ assms(2)] by (simp add: db_fit_def connected_def put_db_def with_handles_def)
  show "idle d'" by (simp add: c connected_def put_db_def with_handles_def idle_def)
  show "tuya_write_handle d' = 13" "tuya_notify_handle d' = 15"
    by (simp_all add: c connected_def put_db_def with_handles_def gatt_db_new_def)
  show "shape (next_db d) d' (11, 2) = Some (13, UUID_TUYA_WRITE, BT_ATT_PERM_WRITE, None, Some Tuya_Write)"
    "shape (next_db d) d' (11, 5) = Some (16, GATT_CLIENT_CHARAC_CFG_UUID, 3, Some Tuya_Chngd_Ccc_Read, Some Tuya_Chngd_Ccc_Write)"
    using first_shape by (simp_all add: shape_def c connected_def put_db_def)
qed
section \<open>What a write and a read at a known attribute do\<close>

lemma shape_attr:
  assumes "db_fit m b d" "shape b d p = Some (h, u, perm, rd, wr)"
  obtains db r a where "server_db d = Some b" "dbs d b = Some (db, r)" "db_ok db" "attr_at p db = Some a" "attr_fit m a" "at_handle a = h"
    "at_perm a = perm" "read_func a = rd" "write_func a = wr" "gatt_db_get_attribute h db = Some p"
proof -
  obtain db r where d: "server_db d = Some b" "dbs d b = Some (db, r)" "db_ok db" "\<forall>p a. attr_at p db = Some a \<longrightarrow> attr_fit m a"
    using assms(1) by (auto simp: db_fit_def)
  then obtain a where a: "attr_at p db = Some a" "fixed a = (h, u, perm, rd, wr)" using assms(2) by (auto simp: shape_def)
  then have "gatt_db_get_attribute h db = Some p" using attribute_found[OF d(3)] by (auto simp: fixed_def)
  then show ?thesis using that[of db r a] d a by (simp add: fixed_def)
qed

lemma permitted:
  assumes "bt_security k (bsys d) = (True, s)" "perm AND need \<noteq> 0"
  shows "check_permissions k perm need d = (0, d\<lparr>bsys := s\<rparr>)"
proof -
  have n: "(perm \<noteq> 0 \<and> need = BT_ATT_PERM_READ \<and> perm AND BT_ATT_PERM_READ = 0) = False"
    "(perm \<noteq> 0 \<and> need = BT_ATT_PERM_WRITE \<and> perm AND BT_ATT_PERM_WRITE = 0) = False" "(perm AND need = 0) = False"
    using assms(2) by blast+
  show ?thesis unfolding check_permissions_def bsys_run_def n by (simp only: if_False if_True Let_def prod.case assms(1))
qed

lemma write_calls:
  assumes "db_fit (Suc m) b d" "idle d" "shape b d p = Some (h, u, perm, rd, Some f)" "perm AND BT_ATT_PERM_WRITE \<noteq> 0" "bt_security k (bsys d) = (True, s)"
  shows "\<exists>db r a. attr_at p db = Some a \<and> at_handle a = h \<and> write_id a \<noteq> 0 \<and> write_id a \<in> set (pending_writes a) \<and>
    app_write k cmd h val d = call_write k f (b, p) (write_id a) 0 val (put_db b r db (d\<lparr>bsys := s, pending_write_op := Some cmd\<rparr>))"
proof -
  obtain db r a where a: "server_db d = Some b" "dbs d b = Some (db, r)" "db_ok db" "attr_at p db = Some a" "attr_fit (Suc m) a" "at_handle a = h"
    "at_perm a = perm" "read_func a = rd" "write_func a = Some f" "gatt_db_get_attribute h db = Some p" by (rule shape_attr[OF assms(1,3)])
  have c: "check_permissions k perm BT_ATT_PERM_WRITE d = (0, d\<lparr>bsys := s\<rparr>)" by (rule permitted[OF assms(5,4)])
  have "on_db b (gatt_db_attribute_write (Some p) 0 val) (d\<lparr>bsys := s, pending_write_op := Some cmd\<rparr>) =
      Some (Call f (write_id a + 1), put_db b r (upd_attr p start_write db) (d\<lparr>bsys := s, pending_write_op := Some cmd\<rparr>))"
    using a by (simp add: on_db_def gatt_db_attribute_write_def put_db_def)
  then have "app_write k cmd h val d = call_write k f (b, p) (write_id a + 1) 0 val (put_db b r (upd_attr p start_write db) (d\<lparr>bsys := s, pending_write_op := Some cmd\<rparr>))"
    using a c[unfolded One_nat_def] assms(2) by (simp add: app_write_def idle_def)
  moreover have "write_id a + 1 \<noteq> 0" using a(5) number_left(1)[of "write_id a" m] by (simp add: attr_fit_def)
  ultimately show ?thesis using a(4,6)
    by (intro exI[of _ "upd_attr p start_write db"] exI[of _ r] exI[of _ "start_write a"]) (simp add: attr_at_upd)
qed

lemma read_calls:
  assumes "db_fit (Suc m) b d" "idle d" "shape b d p = Some (h, u, perm, Some f, wr)" "perm AND BT_ATT_PERM_READ \<noteq> 0" "bt_security k (bsys d) = (True, s)"
  shows "\<exists>db r a. attr_at p db = Some a \<and> at_handle a = h \<and> read_id a \<noteq> 0 \<and> read_id a \<in> set (pending_reads a) \<and>
    app_read k h off d = call_read k f (b, p) (read_id a) off (put_db b r db (d\<lparr>bsys := s, pending_read_op := True\<rparr>))"
proof -
  obtain db r a where a: "server_db d = Some b" "dbs d b = Some (db, r)" "db_ok db" "attr_at p db = Some a" "attr_fit (Suc m) a" "at_handle a = h"
    "at_perm a = perm" "read_func a = Some f" "write_func a = wr" "gatt_db_get_attribute h db = Some p" by (rule shape_attr[OF assms(1,3)])
  have c: "check_permissions k perm BT_ATT_PERM_READ d = (0, d\<lparr>bsys := s\<rparr>)" by (rule permitted[OF assms(5,4)])
  have "on_db b (gatt_db_attribute_read (Some p) off) (d\<lparr>bsys := s, pending_read_op := True\<rparr>) =
      Some (Call f (read_id a + 1), put_db b r (upd_attr p start_read db) (d\<lparr>bsys := s, pending_read_op := True\<rparr>))"
    using a by (simp add: on_db_def gatt_db_attribute_read_def put_db_def)
  then have "app_read k h off d = call_read k f (b, p) (read_id a + 1) off (put_db b r (upd_attr p start_read db) (d\<lparr>bsys := s, pending_read_op := True\<rparr>))"
    using a c[unfolded One_nat_def] assms(2) by (simp add: app_read_def idle_def)
  moreover have "read_id a + 1 \<noteq> 0" using a(5) number_left(1)[of "read_id a" m] by (simp add: attr_fit_def)
  ultimately show ?thesis using a(4,6)
    by (intro exI[of _ "upd_attr p start_read db"] exI[of _ r] exI[of _ "start_read a"]) (simp add: attr_at_upd)
qed

text \<open>A write at the attribute of the vendor's service, a write of its configuration, and a read of that.\<close>

lemma tuya_write_result:
  assumes "db_fit (Suc m) b d" "idle d" "shape b d p = Some (h, u, BT_ATT_PERM_WRITE, rd, Some Tuya_Write)" "bt_security k (bsys d) = (True, s)"
  shows "\<exists>d'. app_write k cmd h val d = Some d' \<and> bsys d' = bt_callback k TY_BT_EVENT_RX_DATA val s \<and>
    att_sent d' = att_sent d @ (if cmd then [] else [Write_Rsp])"
proof -
  obtain db r a where a: "attr_at p db = Some a" "at_handle a = h" "write_id a \<noteq> 0" "write_id a \<in> set (pending_writes a)"
    and w: "app_write k cmd h val d = call_write k Tuya_Write (b, p) (write_id a) 0 val (put_db b r db (d\<lparr>bsys := s, pending_write_op := Some cmd\<rparr>))"
    using write_calls[OF assms(1-3) _ assms(4), of cmd val] by auto
  let ?d = "bsys_do (bt_callback k TY_BT_EVENT_RX_DATA val) (put_db b r db (d\<lparr>bsys := s, pending_write_op := Some cmd\<rparr>))"
  have "bt_msg_cb d" using assms(1) by (simp add: db_fit_def)
  then have "app_write k cmd h val d = write_result (b, p) (write_id a) 0 ?d"
    unfolding w by (simp add: call_write_def tuya_write_cb_def put_db_def)
  also have "\<dots> = Some (write_complete_cb h 0 (put_db b r (upd_attr p (\<lambda>x. x\<lparr>pending_writes := remove1 (write_id a) (pending_writes x)\<rparr>) db) ?d))"
    using write_result_run[OF _ a(1,3,4), of ?d b r 0] a(2) by (simp add: bsys_do_def put_db_def)
  finally show ?thesis by (simp add: write_complete_cb_def Let_def put_db_def bsys_do_def send_pdu_def)
qed

lemma tuya_ccc_write_result:
  assumes "db_fit (Suc m) b d" "idle d" "shape b d p = Some (h, u, 3, rd, Some Tuya_Chngd_Ccc_Write)" "bt_security k (bsys d) = (True, s)" "v = 0 \<or> v = 1"
  shows "\<exists>d'. app_write k False h [v, w] d = Some d' \<and> gatt_tuya_svc_chngd_enabled d' = (v = 1) \<and> att_sent d' = att_sent d @ [Write_Rsp] \<and> bsys d' = s"
proof -
  have three: "(3 :: nat) AND BT_ATT_PERM_WRITE \<noteq> 0" by code_simp
  obtain db r a where a: "attr_at p db = Some a" "at_handle a = h" "write_id a \<noteq> 0" "write_id a \<in> set (pending_writes a)"
    and w: "app_write k False h [v, w] d = call_write k Tuya_Chngd_Ccc_Write (b, p) (write_id a) 0 [v, w] (put_db b r db (d\<lparr>bsys := s, pending_write_op := Some False\<rparr>))"
    using write_calls[OF assms(1-3) three assms(4), of False "[v, w]"] by auto
  let ?d = "put_db b r db (d\<lparr>bsys := s, pending_write_op := Some False\<rparr>)\<lparr>gatt_tuya_svc_chngd_enabled := (v = 1)\<rparr>"
  have "app_write k False h [v, w] d = write_result (b, p) (write_id a) 0 ?d"
    unfolding w using assms(5) by (auto simp: call_write_def gatt_tuya_svc_chngd_ccc_write_cb_def ccc_write_def)
  also have "\<dots> = Some (write_complete_cb h 0 (put_db b r (upd_attr p (\<lambda>x. x\<lparr>pending_writes := remove1 (write_id a) (pending_writes x)\<rparr>) db) ?d))"
    using write_result_run[OF _ a(1,3,4), of ?d b r 0] a(2) by (simp add: put_db_def)
  finally show ?thesis by (simp add: write_complete_cb_def Let_def put_db_def send_pdu_def)
qed

lemma tuya_ccc_read_result:
  assumes "db_fit (Suc m) b d" "idle d" "shape b d p = Some (h, u, 3, Some Tuya_Chngd_Ccc_Read, wr)" "bt_security k (bsys d) = (True, s)" "3 \<le> bt_mtu k"
  shows "\<exists>d'. app_read k h off d = Some d' \<and> att_sent d' = att_sent d @ [Read_Rsp [if gatt_tuya_svc_chngd_enabled d then 1 else 0, 0]]"
proof -
  have three: "(3 :: nat) AND BT_ATT_PERM_READ \<noteq> 0" by code_simp
  obtain db r a where a: "attr_at p db = Some a" "at_handle a = h" "read_id a \<noteq> 0" "read_id a \<in> set (pending_reads a)"
    and w: "app_read k h off d = call_read k Tuya_Chngd_Ccc_Read (b, p) (read_id a) off (put_db b r db (d\<lparr>bsys := s, pending_read_op := True\<rparr>))"
    using read_calls[OF assms(1-3) three assms(4), of off] by auto
  let ?d = "put_db b r db (d\<lparr>bsys := s, pending_read_op := True\<rparr>)" and ?v = "[if gatt_tuya_svc_chngd_enabled d then 1 else 0, 0]"
  have "app_read k h off d = read_result k (b, p) (read_id a) 0 (Some ?v) 2 ?d"
    unfolding w by (simp add: call_read_def gatt_tuya_svc_chngd_ccc_read_cb_def put_db_def)
  also have "\<dots> = Some (read_complete_cb k h 0 (Some ?v) 2 (put_db b r (upd_attr p (\<lambda>x. x\<lparr>pending_reads := remove1 (read_id a) (pending_reads x)\<rparr>) db) ?d))"
    using read_result_run[OF _ a(1,3,4), of ?d b r k 0 "Some ?v" 2] a(2) by (simp add: put_db_def)
  finally show ?thesis using assms(5) by (simp add: read_complete_cb_def Let_def put_db_def send_pdu_def)
qed
section \<open>After the end of a connection\<close>

lemma finished:
  assumes "l2cap_finish k fd d = Returns d'"
  shows "\<not> epoll_open d'" "gs_gatt d' = Freed"
  using assms by (cases "server_db d"; cases "dbs d (the (server_db d))";
    auto simp: l2cap_finish_def mainloop_end_def bsys_do_def gatt_db_unref_def split: if_splits)+

lemma start_refused:
  assumes "\<not> epoll_open d"
  shows "\<exists>d'. l2cap_start k d = Some (None, d') \<and> gs_gatt d' = gs_gatt d \<and> \<not> epoll_open d'"
  using assms by (auto simp: l2cap_start_def bt_att_new_def mainloop_add_fd_def bsys_run_is bsys_do_def Let_def)

section \<open>Any requests after the first connection\<close>

lemma first_requests:
  assumes "first_session k adv rsp d d1" "name_ok k" "length qs + m < 2 ^ 32"
  shows "\<exists>d2. serve_all k qs d1 = Some d2 \<and> db_fit m (next_db d) d2 \<and> idle d2 \<and> tuya_write_handle d2 = 13 \<and> tuya_notify_handle d2 = 15 \<and>
    shape (next_db d) d2 (11, 2) = Some (13, UUID_TUYA_WRITE, BT_ATT_PERM_WRITE, None, Some Tuya_Write) \<and>
    shape (next_db d) d2 (11, 5) = Some (16, GATT_CLIENT_CHARAC_CFG_UUID, 3, Some Tuya_Chngd_Ccc_Read, Some Tuya_Chngd_Ccc_Write) \<and>
    length (answers d2) = length (answers d1) + length (filter expects_answer qs)"
proof -
  note r = first_ready[OF assms(1,3)]
  obtain d2 where "serve_all k qs d1 = Some d2" "serves m (next_db d) d1 d2" "idle d2"
      "length (answers d2) = length (answers d1) + length (filter expects_answer qs)"
    using serve_all_run[OF r(1,2) assms(2)] by blast
  then show ?thesis using r(3-6) by (simp add: serves_def)
qed

end
