(* ===== verification/Bt_Properties.thy ===== *)
theory Bt_Properties
  imports Bt_Session
begin

text \<open>
  What the Bluetooth adapter guarantees, and what it does not, with an instance of each on a controller
  that always answers.
\<close>

section \<open>A controller that always answers\<close>

definition quiet_os :: "unit bt_os" where
  "quiet_os = \<lparr>hci_open_dev = (\<lambda>s. (3, s)), hci_devba = (\<lambda>s. ((0, replicate 6 0), s)), hci_send_req = (\<lambda>_ _ s. ((0, 0), s)),
     bt_name = (\<lambda>s. ((0, replicate 248 0), s)), bt_close = (\<lambda>_ s. s), bt_socket = (\<lambda>s. (True, s)), bt_accept = (\<lambda>s. (5, s)),
     bt_security = (\<lambda>s. (True, s)), bt_att_setup = (\<lambda>_ s. (True, s)), bt_register = (\<lambda>s. (True, s)), bt_mtu = 23,
     bt_thread = (\<lambda>s. (True, s)), bt_malloc = (\<lambda>_ s. (True, s)), bt_callback = (\<lambda>_ _ s. s), bt_system = (\<lambda>_ s. (0, s)),
     bt_popen = (\<lambda>_ s. (None, s)), bt_access = (\<lambda>_ s. (False, s)), bt_usleep = (\<lambda>_ s. s)\<rparr>"

lemma quiet_sockets:
  "bt_socket quiet_os s = (True, s)" "bt_accept quiet_os s = (5, s)" "bt_att_setup quiet_os fd s = (True, s)" "bt_register quiet_os s = (True, s)"
  by (simp_all add: quiet_os_def)

text \<open>The adapter on it after it was started, and with an app.\<close>

definition quiet_started :: "unit bt_server" where
  "quiet_started = (gatt_server_static ())\<lparr>bt_msg_cb := True, epoll_open := True, hci_sock := 3, src_addr := replicate 6 0, gs_db := Some 0,
     next_db := 1, dbs := [0 \<mapsto> (gatt_db_new, 1)]\<rparr>"

definition quiet_connected :: "unit bt_server" where
  "quiet_connected = connected 0 1 gatt_db_new () quiet_started"

lemma quiet_port_init: "tuya_os_adapt_bt_port_init quiet_os (Some True) (gatt_server_static ()) = Some (OPRT_OK, quiet_started)"
  by (simp add: tuya_os_adapt_bt_port_init_def quiet_os_def quiet_started_def gatt_server_static_def mainloop_init_def bsys_run_def)

lemma quiet_reset_adv: "tuya_os_adapt_bt_reset_adv quiet_os (Some (1, [0])) (Some (1, [0])) d = Some (OPRT_OK, d)"
  by (simp add: tuya_os_adapt_bt_reset_adv_def copy_data_def hci_le_set_advertise_enable_def hci_le_set_advertise_parameters_def
      hci_le_set_advertise_data_def hci_le_set_scan_rsp_data_def adv_block_def quiet_os_def bsys_run_def)

lemma quiet_start: "l2cap_start quiet_os quiet_started = Some (Some 5, quiet_connected)"
proof -
  have r: "room gatt_db_new 18" using db_ok_new by (simp add: room_def) (simp add: gatt_db_new_def)
  let ?d = "quiet_started\<lparr>gs_att := Live, gs_gatt := Live, server_db := Some 0, pending_read_op := False, pending_write_op := None, bsys := ()\<rparr>"
  let ?d5 = "quiet_started\<lparr>gs_att := Live, server_db := Some 0, pending_read_op := False, pending_write_op := None,
      dbs := (dbs quiet_started)(0 \<mapsto> (gatt_db_new, Suc 1)), gs_gatt := Live\<rparr>"
  have "?d5 = put_db 0 (Suc 1) gatt_db_new ?d" by (cases quiet_started) (simp add: put_db_def)
  moreover have "gs_db ?d = Some 0" by (simp add: quiet_started_def)
  ultimately have c: "create_server ?d5 = Some quiet_connected"
    using create_server_put(1)[OF r, of ?d 0 "Suc 1"] by (simp only: quiet_connected_def connected_def)
  have "bsys_do (bt_callback quiet_os TY_BT_EVENT_CONNECTED []) quiet_connected = quiet_connected" "bt_msg_cb quiet_connected"
    by (simp_all add: bsys_do_def quiet_connected_def connected_def put_db_def with_handles_def quiet_started_def gatt_server_static_def)
  moreover have "l2cap_start quiet_os quiet_started = Option.bind (create_server ?d5)
      (\<lambda>d. if \<not> bt_msg_cb d then Some (None, d) else Some (Some 5, bsys_do (bt_callback quiet_os TY_BT_EVENT_CONNECTED []) d))"
    by (simp add: l2cap_start_def bt_att_new_def mainloop_add_fd_def bt_gatt_server_new_def quiet_sockets bsys_run_def quiet_started_def gatt_server_static_def)
  ultimately show ?thesis unfolding c by simp
qed

lemma quiet_session: "first_session quiet_os (Some (1, [0])) (Some (1, [0])) (gatt_server_static ()) quiet_connected"
  using quiet_port_init quiet_reset_adv quiet_start unfolding first_session_def by blast

lemma quiet_name: "name_ok quiet_os"
  by (simp add: name_ok_def quiet_os_def)
section \<open>Properties\<close>

text \<open>
  C21. The first app that connects after the adapter was started and advertises, while the connection lasts. It reads,
  writes and sends write commands, at any handle, and the SDK sends notifications in between, fewer than \<open>2 ^ 32\<close> of them
  all; the controller can tell the device's name. Then none of them is undefined, and each is answered in its turn:
  a read or a write request by one answer, a command and a notification by none. Other requests, and a connection
  that has ended, are not among them.
\<close>
theorem session_answers_all:
  assumes "first_session k adv rsp d d1" "name_ok k" "length qs < 2 ^ 32"
  shows "\<exists>d2. serve_all k qs d1 = Some d2 \<and> length (answers d2) = length (answers d1) + length (filter expects_answer qs) \<and>
    (\<forall>xs q ys. qs = xs @ q # ys \<longrightarrow> (\<exists>dx dy. serve_all k xs d1 = Some dx \<and> serve k q dx = Some dy \<and> serve_all k ys dy = Some d2 \<and>
       length (answers dy) = length (answers dx) + of_bool (expects_answer q)))"
proof -
  obtain d2 where d2: "serve_all k qs d1 = Some d2" "length (answers d2) = length (answers d1) + length (filter expects_answer qs)"
    using first_requests[OF assms(1,2), of qs 0] assms(3) by auto
  have "\<exists>dx dy. serve_all k xs d1 = Some dx \<and> serve k q dx = Some dy \<and> serve_all k ys dy = Some d2 \<and>
      length (answers dy) = length (answers dx) + of_bool (expects_answer q)" if qs: "qs = xs @ q # ys" for xs q ys
  proof -
    obtain dx where dx: "serve_all k xs d1 = Some dx" "db_fit (Suc 0) (next_db d) dx" "idle dx"
      using first_requests[OF assms(1,2), of xs "Suc 0"] assms(3) qs by auto
    obtain dy where dy: "serve k q dx = Some dy" "length (answers dy) = length (answers dx) + of_bool (expects_answer q)"
      using serve_step[OF dx(2,3) assms(2), of q] by blast
    have "serve_all k ys dy = Some d2" using d2(1) dx(1) dy(1) by (simp add: qs serve_all_append)
    then show ?thesis using dx dy by blast
  qed
  then show ?thesis using d2 by blast
qed

theorem session_answers_all_witness:
  "\<exists>d2. serve_all quiet_os [Read_Req 3 0, Write_Cmd 13 [7], Sdk_Send [1, 2], Write_Req 99 [1]] quiet_connected = Some d2 \<and>
    length (answers d2) = length (answers quiet_connected) + 2"
  using session_answers_all[OF quiet_session quiet_name, of "[Read_Req 3 0, Write_Cmd 13 [7], Sdk_Send [1, 2], Write_Req 99 [1]]"] by auto

text \<open>
  C22. After any such requests, what an app writes to the write characteristic of the vendor's service is given to
  the SDK's callback, whole and once; a request is then answered.
\<close>
theorem writes_arrive:
  assumes "first_session k adv rsp d d1" "name_ok k" "serve_all k qs d1 = Some d2" "length qs < 2 ^ 32 - 1" "bt_security k (bsys d2) = (True, s)"
  shows "\<exists>d3. app_write k cmd (tuya_write_handle d2) val d2 = Some d3 \<and> bsys d3 = bt_callback k TY_BT_EVENT_RX_DATA val s \<and>
    att_sent d3 = att_sent d2 @ (if cmd then [] else [Write_Rsp])"
proof -
  have "db_fit (Suc 0) (next_db d) d2" "idle d2" "tuya_write_handle d2 = 13"
    "shape (next_db d) d2 (11, 2) = Some (13, UUID_TUYA_WRITE, BT_ATT_PERM_WRITE, None, Some Tuya_Write)"
    using first_requests[OF assms(1,2), of qs 1] assms(3,4) by auto
  then show ?thesis using tuya_write_result[OF _ _ _ assms(5)] by simp
qed

theorem writes_arrive_witness:
  "\<exists>d3. app_write quiet_os False (tuya_write_handle quiet_connected) [7] quiet_connected = Some d3 \<and> bsys d3 = () \<and>
    att_sent d3 = att_sent quiet_connected @ [Write_Rsp]"
  using writes_arrive[OF quiet_session quiet_name, of "[]" quiet_connected "()" False "[7]"] by (simp add: quiet_os_def)

text \<open>
  C27. An app that switches the notifications on or off reads back what it has written, whatever it asked before.
\<close>
theorem subscription_roundtrip:
  assumes "first_session k adv rsp d d1" "name_ok k" "serve_all k qs d1 = Some d2" "length qs < 2 ^ 32 - 2" "\<forall>s. fst (bt_security k s)" "3 \<le> bt_mtu k"
    "v = 0 \<or> v = 1"
  shows "\<exists>d3 d4. app_write k False (tuya_notify_handle d2 + 1) [v, w] d2 = Some d3 \<and> app_read k (tuya_notify_handle d2 + 1) off d3 = Some d4 \<and>
    att_sent d4 = att_sent d2 @ [Write_Rsp, Read_Rsp [v, 0]]"
proof -
  have r: "db_fit (Suc (Suc 0)) (next_db d) d2" "idle d2" "tuya_notify_handle d2 + 1 = 16"
    "shape (next_db d) d2 (11, 5) = Some (16, GATT_CLIENT_CHARAC_CFG_UUID, 3, Some Tuya_Chngd_Ccc_Read, Some Tuya_Chngd_Ccc_Write)"
    using first_requests[OF assms(1,2), of qs 2] assms(3,4) by (auto simp: numeral_2_eq_2)
  have sec: "\<exists>s'. bt_security k s = (True, s')" for s using assms(5) by (metis prod.collapse)
  obtain s1 d3 where w: "app_write k False 16 [v, w] d2 = Some d3" "gatt_tuya_svc_chngd_enabled d3 = (v = 1)" "att_sent d3 = att_sent d2 @ [Write_Rsp]"
    using sec[of "bsys d2"] tuya_ccc_write_result[OF r(1,2,4) _ assms(7)] by blast
  then have s: "serves (Suc 0) (next_db d) d2 d3" "idle d3" using write_served[OF r(1,2), of k False 16 "[v, w]"] by auto
  have f: "db_fit (Suc 0) (next_db d) d3" "shape (next_db d) d3 (11, 5) = Some (16, GATT_CLIENT_CHARAC_CFG_UUID, 3, Some Tuya_Chngd_Ccc_Read, Some Tuya_Chngd_Ccc_Write)"
    using s(1) r(4) by (simp_all add: serves_def)
  obtain s2 where "bt_security k (bsys d3) = (True, s2)" using sec by blast
  then obtain d4 where "app_read k 16 off d3 = Some d4" "att_sent d4 = att_sent d3 @ [Read_Rsp [if gatt_tuya_svc_chngd_enabled d3 then 1 else 0, 0]]"
    using tuya_ccc_read_result[OF f(1) s(2) f(2) _ assms(6)] by blast
  then show ?thesis using w r(3) assms(7) by auto
qed

theorem subscription_roundtrip_witness:
  "\<exists>d3 d4. app_write quiet_os False (tuya_notify_handle quiet_connected + 1) [1, 0] quiet_connected = Some d3 \<and>
    app_read quiet_os (tuya_notify_handle quiet_connected + 1) 0 d3 = Some d4 \<and> att_sent d4 = att_sent quiet_connected @ [Write_Rsp, Read_Rsp [1, 0]]"
  using subscription_roundtrip[OF quiet_session quiet_name, of "[]" quiet_connected 1 0 0] by (simp add: quiet_os_def)

text \<open>
  C28. What the SDK sends leaves as one notification of the vendor's characteristic, cut to three bytes less than
  the MTU; the SDK is told that all of it was sent.
\<close>
theorem notification_cut:
  assumes "first_session k adv rsp d d1" "name_ok k" "serve_all k qs d1 = Some d2" "length qs < 2 ^ 32" "3 \<le> bt_mtu k"
  shows "\<exists>d3. tuya_os_adapt_bt_send k val d2 = Some (OPRT_OK, d3) \<and> att_sent d3 = att_sent d2 @ [Handle_Value_Not 15 (take (bt_mtu k - 3) val)]"
proof -
  have "gs_gatt d2 = Live" "tuya_notify_handle d2 = 15"
    using first_requests[OF assms(1,2), of qs 0] assms(3,4) by (auto simp: db_fit_def)
  moreover have n: "min (bt_mtu k - 1) (length val + 2) - 2 = min (bt_mtu k - 3) (length val)" by arith
  have "take (min (bt_mtu k - 1) (length val + 2) - 2) val = take (bt_mtu k - 3) val" unfolding n by (simp add: min_def)
  ultimately show ?thesis by (simp add: send_live send_pdu_def)
qed

theorem notification_cut_witness:
  "\<exists>d3. tuya_os_adapt_bt_send quiet_os (replicate 30 1) quiet_connected = Some (OPRT_OK, d3) \<and>
    att_sent d3 = att_sent quiet_connected @ [Handle_Value_Not 15 (replicate 20 1)]"
  using notification_cut[OF quiet_session quiet_name, of "[]" quiet_connected "replicate 30 1"] by (simp add: quiet_os_def)
text \<open>
  C25. In an ordered database with room for 18 handles the adapter appends its three services one after the
  other, keeps the handles of the vendor's service in its state, and reserves 18 handles.
\<close>
theorem server_layout:
  assumes "gs_db d = Some b" "dbs d b = Some (db, r)" "room db 18"
  shows "\<exists>d' db' x y z. create_server d = Some d' \<and> dbs d' b = Some (db', r) \<and> services db' = services db @ [x, y, z] \<and>
    map service_start [x, y, z] = [next_handle db, next_handle db + 6, next_handle db + 10] \<and> map num_handles [x, y, z] = [6, 4, 8] \<and>
    list_all sv_active [x, y, z] \<and> next_handle db' = next_handle db + 18 \<and> gatt_svc_chngd_handle d' = next_handle db + 8 \<and>
    tuya_handle d' = next_handle db + 10 \<and> tuya_write_handle d' = next_handle db + 12 \<and> tuya_notify_handle d' = next_handle db + 14"
proof -
  let ?n = "next_handle db"
  have "create_server d = Some (put_db b r (with_services db) (with_handles b ?n d))"
    using create_server_put(1)[OF assms(3,1), of r] put_db_same[of d b db r, OF assms(2)] by simp
  moreover have "service_start (srv True 6 (gap_attrs ?n)) = ?n" "service_start (srv True 4 (gatt_attrs (?n + 6))) = ?n + 6"
    "service_start (srv True 8 (tuya_attrs (?n + 10))) = ?n + 10"
    by (simp_all add: service_start_def srv_def gap_attrs_def gatt_attrs_def tuya_attrs_def new_attribute_def)
  ultimately show ?thesis
    by (intro exI[of _ "put_db b r (with_services db) (with_handles b ?n d)"] exI[of _ "with_services db"] exI[of _ "srv True 6 (gap_attrs ?n)"]
        exI[of _ "srv True 4 (gatt_attrs (?n + 6))"] exI[of _ "srv True 8 (tuya_attrs (?n + 10))"])
      (simp add: with_services_def with_handles_def put_db_def, simp add: srv_def)
qed

theorem server_layout_witness:
  "\<exists>d'. create_server quiet_started = Some d' \<and> tuya_handle d' = 11 \<and> tuya_write_handle d' = 13 \<and> tuya_notify_handle d' = 15"
proof -
  have "room gatt_db_new 18" using db_ok_new by (simp add: room_def) (simp add: gatt_db_new_def)
  moreover have "gs_db quiet_started = Some 0" "dbs quiet_started 0 = Some (gatt_db_new, 1)" by (simp_all add: quiet_started_def)
  ultimately obtain d' where "create_server quiet_started = Some d'" "tuya_handle d' = next_handle (gatt_db_new :: bt_func gatt_db) + 10"
      "tuya_write_handle d' = next_handle (gatt_db_new :: bt_func gatt_db) + 12" "tuya_notify_handle d' = next_handle (gatt_db_new :: bt_func gatt_db) + 14"
    using server_layout[of quiet_started 0 gatt_db_new 1] by blast
  then show ?thesis by (simp add: gatt_db_new_def)
qed

text \<open>
  C26. In every database that the operations can make, a handle leads to the attribute that has it, and to no other.
\<close>
theorem handle_finds_attribute:
  assumes "gatt_built db"
  shows "gatt_db_get_attribute h db = Some p \<longleftrightarrow> (\<exists>a. attr_at p db = Some a \<and> at_handle a = h)"
  by (rule attribute_found[OF built_ok[OF assms]])

theorem handle_finds_attribute_witness:
  "gatt_db_get_attribute 1 (snd (gatt_db_add_service 0x1910 True 8 gatt_db_new :: attr_ptr option \<times> bt_func gatt_db)) = Some (1, 0)"
proof -
  let ?db = "snd (gatt_db_add_service 0x1910 True 8 gatt_db_new :: attr_ptr option \<times> bt_func gatt_db)"
  have b: "gatt_built ?db" by (rule gatt_built.service[OF gatt_built.made prod.collapse[symmetric]])
  have "attr_at (1, 0) ?db = Some (new_attribute 1 GATT_PRIM_SVC_UUID (put_le16 0x1910) BT_ATT_PERM_READ None None)"
    by (simp add: gatt_db_add_service_def gatt_db_insert_service_def gatt_db_new_def attr_at_def gatt_db_service_create_def service_start_def new_attribute_def)
  then show ?thesis using handle_finds_attribute[OF b, of 1 "(1, 0)"] by (simp add: new_attribute_def)
qed

text \<open>A reset of the advertising on a controller that accepts every command.\<close>

lemma reset_adv_commands:
  assumes "\<forall>n s. fst (bt_malloc k n s)" "\<forall>c p s. fst (hci_send_req k c p s) = (0, 0)" "0 < n" "n \<le> 31" "n \<le> length bs"
    "0 < m" "m \<le> 31" "m \<le> length cs"
  shows "tuya_os_adapt_bt_reset_adv k (Some (n, bs)) (Some (m, cs)) d = Some (OPRT_OK, d\<lparr>bsys :=
    snd (bt_thread k
     (snd (hci_send_req k OCF_LE_SET_ADVERTISE_ENABLE [1]
     (snd (hci_send_req k OCF_LE_SET_SCAN_RESPONSE_DATA (of_nat m # take m cs @ replicate (31 - m) 0)
     (snd (hci_send_req k OCF_LE_SET_ADVERTISING_DATA (of_nat n # take n bs @ replicate (31 - n) 0)
     (snd (hci_send_req k OCF_LE_SET_ADVERTISING_PARAMETERS (adv_params 0x0320 0x0320 0 7)
     (snd (hci_send_req k OCF_LE_SET_ADVERTISE_ENABLE [0]
     (snd (bt_malloc k m (snd (bt_malloc k n (bsys d))))))))))))))))\<rparr>)"
proof -
  have a: "adv_block n (Some (take n bs)) = Some (of_nat n # take n bs @ replicate (31 - n) 0)"
    "adv_block m (Some (take m cs)) = Some (of_nat m # take m cs @ replicate (31 - m) 0)"
    using assms(3-8) by (simp_all add: adv_block_def)
  show ?thesis
    using assms(1,2,3,6)
    by (simp add: tuya_os_adapt_bt_reset_adv_def copy_data_def hci_le_set_advertise_enable_def hci_le_set_advertise_parameters_def
        hci_le_set_advertise_data_def hci_le_set_scan_rsp_data_def a bsys_run_is case_prod_beta)
qed

text \<open>
  C23. What comes after the end of a connection. The controller accepts every command, there is memory for the two
  copies, and the data has 1 to 31 bytes of each kind. Then advertising succeeds as before, but the app that
  connects is refused, and sending to it uses the server that was freed.
\<close>
theorem connection_after_end_refused:
  assumes "l2cap_finish k fd d = Returns d1"
    and "\<forall>n s. fst (bt_malloc k n s)" "\<forall>c p s. fst (hci_send_req k c p s) = (0, 0)" "0 < n" "n \<le> 31" "n \<le> length bs"
    "0 < m" "m \<le> 31" "m \<le> length cs"
  shows "\<exists>d2 d3. tuya_os_adapt_bt_reset_adv k (Some (n, bs)) (Some (m, cs)) d1 = Some (OPRT_OK, d2) \<and>
    l2cap_start k d2 = Some (None, d3) \<and> tuya_os_adapt_bt_send k val d3 = None"
proof -
  obtain d2 where d2: "tuya_os_adapt_bt_reset_adv k (Some (n, bs)) (Some (m, cs)) d1 = Some (OPRT_OK, d2)"
    using reset_adv_commands[OF assms(2-9), of d1] by blast
  have "\<not> epoll_open d2" "gs_gatt d2 = Freed" using finished[OF assms(1)] reset_adv_is[OF d2] by (auto simp: only_system_def)
  then obtain d3 where "l2cap_start k d2 = Some (None, d3)" "gs_gatt d3 = Freed" using start_refused[of d2 k] by auto
  then show ?thesis using d2 by (simp add: tuya_os_adapt_bt_send_def bt_gatt_server_send_notification_def)
qed

theorem connection_after_end_refused_witness:
  "\<exists>d1 d2 d3. l2cap_finish quiet_os 5 (mainloop_quit quiet_connected) = Returns d1 \<and>
    tuya_os_adapt_bt_reset_adv quiet_os (Some (1, [0])) (Some (1, [0])) d1 = Some (OPRT_OK, d2) \<and>
    l2cap_start quiet_os d2 = Some (None, d3) \<and> tuya_os_adapt_bt_send quiet_os [1] d3 = None"
proof -
  obtain d1 where f: "l2cap_finish quiet_os 5 (mainloop_quit quiet_connected) = Returns d1"
    by (simp add: l2cap_finish_def mainloop_end_def mainloop_quit_def quiet_connected_def connected_def put_db_def with_handles_def gatt_db_unref_def)
  have "\<exists>d2 d3. tuya_os_adapt_bt_reset_adv quiet_os (Some (1, [0])) (Some (1, [0])) d1 = Some (OPRT_OK, d2) \<and>
      l2cap_start quiet_os d2 = Some (None, d3) \<and> tuya_os_adapt_bt_send quiet_os [1] d3 = None"
    by (rule connection_after_end_refused[OF f]) (simp_all add: quiet_os_def)
  then show ?thesis using f by blast
qed

text \<open>
  C29. A reset of the advertising with up to 31 bytes of each kind sends the controller exactly five commands, in this
  order: off, the parameters, the data, the scan response, on; and then starts one thread for a connection.
\<close>
theorem advertising_commands:
  assumes "\<forall>n s. fst (bt_malloc k n s)" "\<forall>c p s. fst (hci_send_req k c p s) = (0, 0)" "0 < n" "n \<le> 31" "n \<le> length bs"
    "0 < m" "m \<le> 31" "m \<le> length cs"
  shows "tuya_os_adapt_bt_reset_adv k (Some (n, bs)) (Some (m, cs)) d = Some (OPRT_OK, d\<lparr>bsys :=
    snd (bt_thread k
     (snd (hci_send_req k OCF_LE_SET_ADVERTISE_ENABLE [1]
     (snd (hci_send_req k OCF_LE_SET_SCAN_RESPONSE_DATA (of_nat m # take m cs @ replicate (31 - m) 0)
     (snd (hci_send_req k OCF_LE_SET_ADVERTISING_DATA (of_nat n # take n bs @ replicate (31 - n) 0)
     (snd (hci_send_req k OCF_LE_SET_ADVERTISING_PARAMETERS (adv_params 0x0320 0x0320 0 7)
     (snd (hci_send_req k OCF_LE_SET_ADVERTISE_ENABLE [0]
     (snd (bt_malloc k m (snd (bt_malloc k n (bsys d))))))))))))))))\<rparr>)"
  by (rule reset_adv_commands[OF assms])

theorem advertising_commands_witness:
  "tuya_os_adapt_bt_reset_adv quiet_os (Some (2, [1, 2])) (Some (1, [3])) quiet_started = Some (OPRT_OK, quiet_started)"
  using advertising_commands[of quiet_os 2 "[1, 2]" 1 "[3]" quiet_started] by (simp add: quiet_os_def)

end
