(* ===== verification/Spec2Isabelle.thy ===== *)
theory Spec2Isabelle
  imports Wmg_Properties Os_Net Wpa_Saved Wpa_Loop Linkd Hapd_Lifecycle Nl_Capture Tuya_Manager Tuya_Station Bt_Properties
begin

text \<open>
  The Wi-Fi manager of a cleaning robot's application, \<open>arm_app/apps/src/wifi\<close>: a library that
  lets one process start and stop the wireless interface, switch it between station, access
  point and monitor mode, and pass commands and events between the application and the
  daemons below (wpa_supplicant, hostapd, netlink).

  \<^bold>\<open>How the program works.\<close> A call of \<open>wifimg.h\<close> (\<open>wifi/wifimg.c\<close>) packs pointers to its arguments
  and to a status variable and hands them to an action thread (\<open>wifi/api_action.c\<close>) through a
  message queue (\<open>wifi/queue.c\<close>) that is a byte ring (\<open>wifi/ring_buff.c\<close>); the caller waits on a
  semaphore. The thread looks the action up in the table registered for it and runs it
  (\<open>__wifi_*\<close> in \<open>wifi/wmg_common.c\<close>). The action checks that the manager runs and which mode is in
  force, and calls the manager object (\<open>wifimg_*\<close> in the same file), which starts, stops and
  switches the mode objects and passes commands to the one in force. The mode objects
  (\<open>wifi/wmg_sta.c\<close>, \<open>wifi/wmg_ap.c\<close>, \<open>wifi/wmg_monitor.c\<close>) keep their own state and call a platform
  interface, a record of function pointers that \<open>linux_wpa.c\<close>, \<open>linux_hapd.c\<close> and \<open>linux_nl.c\<close>
  fill. Events travel back through callbacks. Beside it stand the two adapters through which the vendor's
  SDK uses the device: \<open>tuya_wifi.c\<close> over the manager, and \<open>tuya_os_adapt_bt.c\<close>, a Bluetooth peripheral for
  the app that sets the device up, over BlueZ.

  \<^bold>\<open>The theories\<close>, in the order in which they build on one another.
  \<^item> \<open>Wmg_Prelude\<close>: C's truth values, \<open>memcpy\<close> into and out of a block, the outcomes of an
    operation (it returns, it blocks, its behaviour is undefined), named collections of facts.
  \<^item> \<open>Ring_Buff\<close>: \<open>ring_buff.c\<close>. A ring is a record with the fields of \<open>ring_buff_t\<close>, positions as
    offsets into the block, the lock as a flag. What other threads do while an operation waits
    is a list of state changes that it is given. \<open>rb_inv\<close> is its invariant, \<open>rb_list\<close> its content.
  \<^item> \<open>Net_Queue\<close>: \<open>queue.c\<close>, pointers as eight bytes, and the locale \<open>bounded_fifo\<close>, interpreted on the
    queue of message pointers.
  \<^item> \<open>Act_Api\<close>: \<open>api_action.c\<close>. The handle, the tables, the heap of messages and the world that
    actions change are one record. While a caller waits, the action thread makes passes and
    signals may interrupt; both are a list of events.
  \<^item> \<open>Os_Net\<close>: the wrappers of semaphores, mutexes and threads (\<open>sem.c\<close>, \<open>mutex.c\<close>, \<open>thread.c\<close>), the notification
    of \<open>sync_notify.c\<close>, and the bit arrays of \<open>os_net_atomic.h\<close>, which are sets of numbers.
  \<^item> \<open>Wmg_Types\<close>: the types of \<open>wifimg.h\<close>, modes and bitmaps, and the locale \<open>mode_object\<close>: what the
    manager relies on of a mode (\<open>mode_object_t\<close>).
  \<^item> \<open>Wmg_Sta\<close>, \<open>Wmg_Ap\<close>, \<open>Wmg_Monitor\<close>: the three mode objects, each with an interpretation of
    \<open>mode_object\<close>. A platform function gives its result and the events it reported.
  \<^item> \<open>Wmg_Common\<close>: the manager object; its world holds the three mode objects, the platform, the
    status variable of the call and which modes the linker found.
  \<^item> \<open>Wmg_Actions\<close>: the actions and their four tables; arguments are tagged pointers.
  \<^item> \<open>Wifimg\<close>: the public calls and \<open>wifimanager_init\<close>, over the action thread.
  \<^item> \<open>Wmg_Manager\<close>: the manager's invariant and one lemma for each of its operations.
  \<^item> \<open>Wmg_Safety\<close>: which conditions a call needs to be defined in a state that satisfies the invariant (most
    need none), and that each keeps it; a call through the thread has the effect of its action.
  \<^item> \<open>Wmg_Properties\<close>: sessions of calls, the reachable states, and what the manager's operations
    do on each branch.
  \<^item> \<open>C_Text\<close>: \<open>strchr\<close>, \<open>strstr\<close>, \<open>strtok\<close>, \<open>atoi\<close> and printed numbers, on texts as lists of characters.
  \<^item> \<open>Scan_Results\<close>: \<open>scan.c\<close>, the parser of the scan table and the removal of escapes.
  \<^item> \<open>Event_Pipe\<close>: \<open>event.c\<close>, with another interpretation of \<open>bounded_fifo\<close>.
  \<^item> \<open>Linkd\<close>: \<open>linkd.c\<close>, the network configuration protocols.
  \<^item> \<open>Wpa_Ctrl\<close>, \<open>Wpa_Conf\<close>, \<open>Wpa_Events\<close>, \<open>Wpa_Wait\<close>, \<open>Linux_Common\<close>, \<open>Linux_Wpa\<close>: the station's platform,
    \<open>linux_wpa.c\<close> with \<open>linux_common.c\<close>, \<open>udhcpc.c\<close> and \<open>utils.c\<close>: the connections and commands, the
    list of saved networks, messages and what they cause, waiting for events, addresses and
    status, and the functions behind the interface record. \<open>linux_sta_inf\<close> is that record, an
    instance of the one \<open>Wmg_Sta\<close> calls.
  \<^item> \<open>Wpa_Safety\<close>, \<open>Wpa_Properties\<close>, \<open>Wpa_Messages\<close>, \<open>Wpa_Requests\<close>, \<open>Wpa_Replies\<close>: what the platform
    promises: that a call comes back while finitely many messages arrive, what the station is told, many
    messages in a row, scans and
    commands from end to end, and what is read back out of the answers. \<open>Wpa_Loop\<close> has the wait of a connect over
    endless sequences of events: when it ends and when it never does. \<open>Wpa_Saved\<close> has the requests that the
    platform offers and the station does not make.

  \<^item> \<open>Linux_Os\<close>: what the platforms share, the control sockets and the operations of the kernel they use;
    \<open>Linux_Mac\<close>: when setting and getting the hardware address is defined.
  \<^item> \<open>Hapd_Ctrl\<close>, \<open>Linux_Hapd\<close>: the access point's platform, \<open>linux_hapd.c\<close>: sockets, commands, messages and the
    list of connected devices, then configuration, status, starting and stopping hostapd.
    \<open>linux_ap_inf\<close> is the interface record that \<open>Wmg_Ap\<close> calls. \<open>Hapd_Safety\<close>, \<open>Hapd_Messages\<close>, \<open>Hapd_Config\<close>
    and \<open>Hapd_Lifecycle\<close> hold its invariant and reachable states, many messages in a row,
    configuring from end to end, and entering and leaving the mode again.
  \<^item> \<open>Linux_Nl\<close>: the monitor's platform, \<open>linux_nl.c\<close>: the netlink connection, the messages that start and stop
    a capture, channels and the capturing thread; \<open>linux_mon_inf\<close> is the record that
    \<open>Wmg_Monitor\<close> calls. \<open>Nl_Safety\<close> has its invariant, \<open>Nl_Capture\<close> a capture from end to end.
  \<^item> \<open>Tuya_Wifi\<close>: \<open>tuya_wifi.c\<close>, the adapter through which the vendor's SDK uses the manager, over a record of
    the calls it makes. \<open>Tuya_Scan\<close> has the scan, \<open>Tuya_Station\<close> names, strength, reconnecting and the
    sniffer. \<open>Tuya_Manager\<close> puts the manager into that record twice: its actions alone, and (\<open>program_api\<close>) its
    public calls through the action thread with \<open>wifimanager_init\<close>; it interprets the locales
    \<open>mode_service\<close> and \<open>api_invariant\<close> on them, and has all sequences of the adapter's calls.
  \<^item> \<open>Gatt_Db\<close>, \<open>Gatt_Layout\<close>: the attribute database of BlueZ, \<open>gatt-db.c\<close>, as far as it is used: services as lists of
    places for attributes, and the order of handles that every operation keeps.
  \<^item> \<open>Tuya_Bt\<close>: \<open>tuya_os_adapt_bt.c\<close> with the parts of \<open>gatt-server.c\<close>, \<open>mainloop.c\<close>, \<open>att.c\<close> and \<open>hci.c\<close> it rests on.
    The thread of a connection is split where it enters the main loop: \<open>l2cap_start\<close>, then the app's reads
    and writes in any order, then \<open>l2cap_finish\<close>. \<open>Bt_Services\<close> has the services it creates, \<open>Bt_Requests\<close>
    what one request and many do, \<open>Bt_Session\<close> the way from the start to the end of a connection, and
    \<open>Bt_Properties\<close> the theorems.

  \<^bold>\<open>What the theorems show.\<close> Ring and queue: reads and writes stay inside the block whatever other
  threads do to a valid ring meanwhile, and the ring is a bounded first-in first-out queue of
  bytes, the queue one of messages. Action thread: a call runs its action once, on the thread,
  and leaves the handle idle; what goes wrong when a signal interrupts the wait or the handle is
  not synchronous. Modes: no command dereferences NULL, commands and events keep the set-up,
  the station's state follows the events. Manager: the invariant holds in every reachable
  state; sequences of public calls behave as their actions in sequence, undefined calls included, and a call is
  undefined only where its conditions fail: the MAC calls with an interface name, which copy the name without
  its NUL, and a network configuration without a place for its result, without an access point's configuration, or with
  a protocol that is not defined. Exactly when a switch and \<open>wifi_on\<close> succeed; what \<open>wifi_off\<close> leaves; what a
  connect does on each branch. Several theorems state where the code
  does less than its interface suggests (a bit cleared with the logical negation, callbacks and
  commands that are dropped with success).
  Platform: the station's state agrees with what a connect reports, which comes back when finitely
  many messages arrive and the parameters fit; the loop in which it waits ends exactly when an event decides or
  five of them count, and lasts for ever while there are only others;
  messages are handled once and in order while there is room in the pipe, and the thread
  is stuck when there is not; a
  scan stores the table the supplicant prints; configuring sends exactly the commands of the
  network; tables, lists, status and addresses are read back as they are printed. And where this
  fails: a connect without events leaves the
  station connecting, a failing fetch is repeated for ever, names are confused by their ends, and
  entries without flags shift the reader. Network configuration: a call ends within its seconds, for
  reports that fit, and how for each mode and state; it delivers what the
  protocol reports, never times out, and a late report answers the next call.
  Access point: in every reachable state its object is well formed, and each operation whose conditions are
  named is defined; the list of devices is the one the messages describe while the pipe has room; enabling it sends name,
  channel and key to hostapd for a key that fits, and reading them back gives what was printed. Monitor: every
  command is defined in every reachable state while there is memory, and a capture delivers every frame on the right
  frequency. Here too: threads that are left behind, names and keys longer than their arrays, a list that is freed
  under the thread that uses it.
  Adapter: no sequence of its calls, as long as they are defined, breaks the manager; a mode that was set is read back; a lost
  station comes back with every twenty-first question for its state; names are decoded and
  packets handed on; but a scan reports no network and can write behind its array.
  Bluetooth: a handle always finds its attribute; the services get the handles that the adapter keeps;
  on the first connection no read, write or notification crashes it, each request gets one answer, and what is
  written to the vendor's service reaches the SDK; but notifications are cut, and after the first connection
  no other is accepted.

  \<^bold>\<open>Conventions and bounds.\<close> Undefined behaviour is \<open>None\<close> or \<open>Crash\<close>, never ending to wait is \<open>Blocks\<close>.
  No definition needs fuel: waits recur over the list of what happens meanwhile, the two loops
  that need not end are partial functions (and \<open>Blocks\<close> where they do not), and everything else is
  structural or has a measure. Sizes are those of the 64-bit target: pointers of eight bytes, so the
  queue of 576 bytes holds 72 messages. The platform below the mode objects is a type parameter
  \<open>'p\<close> and enters only through the interface records, so that the theorems about them hold for every
  platform. Below the Linux platform the kernel and the supplicant are a record of operations on a
  state of their own; what the supplicant sends unasked during a call is a finite list, in which \<open>Quiet\<close>
  stands for seventy seconds without a message. This is why the loop of a connect ends in the model
  of the platform: in C it ends by its count and by deciding events alone, which \<open>Wpa_Loop\<close> states without the bound. The listening thread runs while a call waits for
  an event, and between calls. Texts have no NUL in them; an array is the text it holds, and a text
  that does not fit is undefined behaviour. So is
  the use of the default access point configuration in \<open>__wifi_linkd_protocol\<close>, whose block has ended.

  \<^bold>\<open>What is not modelled.\<close> Parameters of the models are the protocol threads of \<open>linkd.c\<close>, the control
  library (\<open>wpa_ctrl\<close>), the netlink library, the calls of the SDK, shell commands and system calls. Left out
  are logging, the debug dumps of the ring, the contents of result structures above the platform, and
  the branches of \<open>tuya_wifi.c\<close> for other systems and chips. Events are delivered between actions or inside a
  platform call, not in the middle of an action's own assignments; a teardown of the access point is one step of the
  reachable states, and what a message between its parts does is stated beside them; commands of the listening thread and
  of a caller do not interleave inside one command (the code's mutex). Of BlueZ only what the
  Bluetooth adapter calls is there: the bytes of the protocol, its client, time-outs of pending operations
  and disconnects of the link are not, and the app's requests come one after the other, as the main
  loop takes them. The C++ application, the demonstrations of the vendor's SDK and LZ4 are outside the scope.
\<close>

end
